(* ===== verification/Prelude.thy ===== *)
theory Prelude
  imports Complex_Main "HOL-Library.Char_ord" "HOL-Library.List_Lexorder"
begin

section \<open>Go integers, strings and slices\<close>

text \<open>
  What every other theory of the development shares: Go's fixed-width integers, the
  parts of the packages \<open>strings\<close>, \<open>strconv\<close>, \<open>fmt\<close> and \<open>sort\<close> the program uses, and
  the generic lemmas about them.

  A Go \<open>int32\<close>, \<open>int64\<close> or \<open>int\<close> (64 bits on the platforms the tool is built for) is an
  \<^typ>\<open>int\<close> in the range of its width; an arithmetic operation that may leave the range is
  written with \<open>wrap32\<close> or \<open>wrap64\<close> around it, which is two's complement wrap-around.
  A Go \<open>string\<close> is its list of bytes. The letter-case and white-space functions are those
  of the ASCII range: bytes from 128 on are left as they are, so identifiers outside ASCII
  are compared byte for byte. A nil pointer is \<^const>\<open>None\<close>; a nil slice is kept apart
  from an empty one only where the program tells them apart.
\<close>

named_theorems go_range \<open>facts that keep a value inside its machine width\<close>
named_theorems go_eval \<open>unfolding rules used to evaluate the model at a concrete input\<close>

subsection \<open>Fixed-width integers\<close>

definition wrap32 :: "int \<Rightarrow> int" where
  "wrap32 x = (x + 2147483648) mod 4294967296 - 2147483648"

definition wrap64 :: "int \<Rightarrow> int" where
  "wrap64 x = (x + 9223372036854775808) mod 18446744073709551616 - 9223372036854775808"

abbreviation max_int32 :: int where "max_int32 \<equiv> 2147483647"
abbreviation min_int32 :: int where "min_int32 \<equiv> - 2147483648"
abbreviation max_int64 :: int where "max_int64 \<equiv> 9223372036854775807"
abbreviation min_int64 :: int where "min_int64 \<equiv> - 9223372036854775808"

definition in32 :: "int \<Rightarrow> bool" where
  "in32 x \<longleftrightarrow> min_int32 \<le> x \<and> x \<le> max_int32"

definition in64 :: "int \<Rightarrow> bool" where
  "in64 x \<longleftrightarrow> min_int64 \<le> x \<and> x \<le> max_int64"

lemma wrap32_id [simp]: "in32 x \<Longrightarrow> wrap32 x = x"
  by (simp add: wrap32_def in32_def)

lemma wrap64_id [simp]: "in64 x \<Longrightarrow> wrap64 x = x"
  by (simp add: wrap64_def in64_def)

lemma wrap32_in32 [simp, go_range]: "in32 (wrap32 x)"
  unfolding wrap32_def in32_def
  using pos_mod_bound [of 4294967296 "x + 2147483648"] pos_mod_sign [of 4294967296 "x + 2147483648"]
  by linarith

lemma wrap64_in64 [simp, go_range]: "in64 (wrap64 x)"
  unfolding wrap64_def in64_def
  using pos_mod_bound [of 18446744073709551616 "x + 9223372036854775808"]
    pos_mod_sign [of 18446744073709551616 "x + 9223372036854775808"]
  by linarith

text \<open>Wrapping early or late is the same.\<close>

lemma wrap64_shift: "wrap64 (wrap64 x + y) = wrap64 (x + y)"
proof -
  have "(wrap64 x + y + 9223372036854775808) = (x + 9223372036854775808) mod 18446744073709551616 + y"
    by (simp add: wrap64_def)
  moreover have "x + y + 9223372036854775808 = (x + 9223372036854775808) + y" by simp
  ultimately show ?thesis unfolding wrap64_def [of "wrap64 x + y"] wrap64_def [of "x + y"]
    by (simp only: mod_add_left_eq)
qed

lemma wrap64_diff: "wrap64 (wrap64 x - y) = wrap64 (x - y)"
  using wrap64_shift [of x "- y"] by simp

lemma in32_max [go_range]: "in32 a \<Longrightarrow> in32 b \<Longrightarrow> in32 (max a b)"
  by (auto simp: max_def)

lemma in32_min [go_range]: "in32 a \<Longrightarrow> in32 b \<Longrightarrow> in32 (min a b)"
  by (auto simp: min_def)

lemma in32_in64 [go_range]: "in32 a \<Longrightarrow> in64 a"
  by (auto simp: in32_def in64_def)

lemma in32_I: "min_int32 \<le> x \<Longrightarrow> x \<le> max_int32 \<Longrightarrow> in32 x"
  by (simp add: in32_def)

lemma in32_small [simp]: "0 \<le> x \<Longrightarrow> x \<le> 2147483647 \<Longrightarrow> in32 x"
  by (simp add: in32_def)

text \<open>Go's integer division truncates towards zero.\<close>

definition quot :: "int \<Rightarrow> int \<Rightarrow> int" where
  "quot a b = sgn a * sgn b * (\<bar>a\<bar> div \<bar>b\<bar>)"

lemma quot_nonneg: "0 \<le> a \<Longrightarrow> 0 < b \<Longrightarrow> quot a b = a div b"
  by (cases "a = 0") (auto simp: quot_def)

subsection \<open>Decimal rendering and parsing\<close>

definition digit_char :: "int \<Rightarrow> char" where
  "digit_char d = (char_of :: nat \<Rightarrow> char) (48 + nat d)"

function digits_of :: "int \<Rightarrow> string" where
  "digits_of n = (if n < 10 then [digit_char n] else digits_of (n div 10) @ [digit_char (n mod 10)])"
  by pat_completeness auto
termination by (relation "measure nat") auto

declare digits_of.simps [simp del, go_eval]

text \<open>For evaluation: the recursion unfolds only once the test is decided.\<close>

fun digits_step :: "bool \<Rightarrow> int \<Rightarrow> string" where
  "digits_step True n = [digit_char n]"
| "digits_step False n = digits_of (n div 10) @ [digit_char (n mod 10)]"

lemma digits_of_code [code]: "digits_of n = digits_step (n < 10) n"
  by (cases "n < 10") (simp_all add: digits_of.simps [of n])

text \<open>\<open>fmt.Sprintf("%d", n)\<close>.\<close>

definition show_int :: "int \<Rightarrow> string" where
  "show_int n = (if n < 0 then CHR ''-'' # digits_of (- n) else digits_of n)"

definition is_digit :: "char \<Rightarrow> bool" where
  "is_digit c \<longleftrightarrow> 48 \<le> (of_char c :: nat) \<and> (of_char c :: nat) \<le> 57"

definition digit_val :: "char \<Rightarrow> int" where
  "digit_val c = int (of_char c) - 48"

fun digits_val :: "int \<Rightarrow> string \<Rightarrow> int" where
  "digits_val acc [] = acc"
| "digits_val acc (c # cs) = digits_val (10 * acc + digit_val c) cs"

definition parse_nat :: "string \<Rightarrow> int option" where
  "parse_nat s = (if s \<noteq> [] \<and> list_all is_digit s then Some (digits_val 0 s) else None)"

text \<open>\<open>strconv.ParseInt(s, 10, bits)\<close>: an optional sign, then decimal digits, in range.\<close>

datatype parse_error = ErrSyntax | ErrRange

definition parse_int_base10 :: "int \<Rightarrow> int \<Rightarrow> string \<Rightarrow> parse_error + int" where
  "parse_int_base10 lo hi s =
     (let (neg, ds) = (case s of
          [] \<Rightarrow> (False, [])
        | c # cs \<Rightarrow> if c = CHR ''-'' then (True, cs) else if c = CHR ''+'' then (False, cs) else (False, s))
      in case parse_nat ds of
           None \<Rightarrow> Inl ErrSyntax
         | Some n \<Rightarrow>
             let v = (if neg then - n else n)
             in if lo \<le> v \<and> v \<le> hi then Inr v else Inl ErrRange)"

abbreviation parse_int32 :: "string \<Rightarrow> parse_error + int" where
  "parse_int32 \<equiv> parse_int_base10 min_int32 max_int32"

lemma of_char_digit_char: "0 \<le> d \<Longrightarrow> d < 10 \<Longrightarrow> (of_char (digit_char d) :: nat) = 48 + nat d"
  by (simp add: digit_char_def of_char_of)

lemma digit_val_digit_char [simp]: "0 \<le> d \<Longrightarrow> d < 10 \<Longrightarrow> digit_val (digit_char d) = d"
  by (simp add: digit_val_def of_char_digit_char)

lemma is_digit_digit_char [simp]: "0 \<le> d \<Longrightarrow> d < 10 \<Longrightarrow> is_digit (digit_char d)"
  by (simp add: is_digit_def of_char_digit_char)

lemma digits_val_append: "digits_val acc (xs @ ys) = digits_val (digits_val acc xs) ys"
  by (induction xs arbitrary: acc) auto

lemma digits_of_nonempty [simp]: "digits_of n \<noteq> []"
  by (subst digits_of.simps) simp

lemma digits_of_digits: "0 \<le> n \<Longrightarrow> list_all is_digit (digits_of n)"
proof (induction n rule: digits_of.induct)
  case (1 n)
  then show ?case by (subst digits_of.simps) auto
qed

lemma digits_val_digits_of: "0 \<le> n \<Longrightarrow> digits_val 0 (digits_of n) = n"
proof (induction n rule: digits_of.induct)
  case (1 n)
  show ?case
  proof (cases "n < 10")
    case True
    with 1 show ?thesis by (simp add: digits_of.simps [of n])
  next
    case False
    with 1 have "digits_val 0 (digits_of (n div 10)) = n div 10" by simp
    with False show ?thesis by (simp add: digits_of.simps [of n] digits_val_append)
  qed
qed

lemma parse_nat_digits_of [simp]: "0 \<le> n \<Longrightarrow> parse_nat (digits_of n) = Some n"
  by (simp add: parse_nat_def digits_of_digits digits_val_digits_of)

lemma digits_of_hd: "0 \<le> n \<Longrightarrow> is_digit (hd (digits_of n))"
  using digits_of_digits [of n] by (cases "digits_of n") auto

text \<open>Printing and reading back a number of the width is the identity.\<close>

lemma parse_show_int:
  assumes "lo \<le> n" and "n \<le> hi"
  shows "parse_int_base10 lo hi (show_int n) = Inr n"
proof (cases "n < 0")
  case True
  with assms show ?thesis by (simp add: show_int_def parse_int_base10_def)
next
  case False
  then obtain c cs where d: "digits_of n = c # cs" by (cases "digits_of n") auto
  with False digits_of_hd [of n] have c: "is_digit c" by simp
  then have "c \<noteq> CHR ''-''" "c \<noteq> CHR ''+''" by (auto simp: is_digit_def)
  with False d assms parse_nat_digits_of [of n] show ?thesis
    by (simp add: show_int_def parse_int_base10_def)
qed

subsection \<open>Strings\<close>

definition lower_char :: "char \<Rightarrow> char" where
  "lower_char c = (let n = (of_char c :: nat) in if 65 \<le> n \<and> n \<le> 90 then char_of (n + 32) else c)"

definition to_lower :: "string \<Rightarrow> string" where
  "to_lower s = map lower_char s"

definition equal_fold :: "string \<Rightarrow> string \<Rightarrow> bool" where
  "equal_fold a b \<longleftrightarrow> to_lower a = to_lower b"

definition is_space :: "char \<Rightarrow> bool" where
  "is_space c \<longleftrightarrow> (of_char c :: nat) \<in> {9, 10, 11, 12, 13, 32}"

definition trim_space :: "string \<Rightarrow> string" where
  "trim_space s = rev (dropWhile is_space (rev (dropWhile is_space s)))"

definition has_prefix :: "string \<Rightarrow> string \<Rightarrow> bool" where
  "has_prefix s p \<longleftrightarrow> take (length p) s = p"

definition has_suffix :: "string \<Rightarrow> string \<Rightarrow> bool" where
  "has_suffix s p \<longleftrightarrow> length p \<le> length s \<and> drop (length s - length p) s = p"

definition trim_prefix :: "string \<Rightarrow> string \<Rightarrow> string" where
  "trim_prefix s p = (if has_prefix s p then drop (length p) s else s)"

definition trim_suffix :: "string \<Rightarrow> string \<Rightarrow> string" where
  "trim_suffix s p = (if has_suffix s p then take (length s - length p) s else s)"

fun contains_str :: "string \<Rightarrow> string \<Rightarrow> bool" where
  "contains_str [] p = (p = [])"
| "contains_str (c # cs) p = (has_prefix (c # cs) p \<or> contains_str cs p)"

fun join_str :: "string \<Rightarrow> string list \<Rightarrow> string" where
  "join_str sep [] = []"
| "join_str sep [s] = s"
| "join_str sep (s # t # ss) = s @ sep @ join_str sep (t # ss)"

text \<open>
  \<open>%q\<close>: double quotes around the text, with a backslash before a quote or a backslash and
  the usual escapes for control characters. Bytes from 128 on are copied, which is what Go
  does with printable UTF-8 text.
\<close>

definition hex_digit :: "nat \<Rightarrow> char" where
  "hex_digit n = (if n < 10 then char_of (48 + n) else char_of (87 + n))"

definition quote_char :: "char \<Rightarrow> string" where
  "quote_char c =
     (let n = (of_char c :: nat) in
      if n = 34 then [char_of (92::nat), char_of (34::nat)]
      else if n = 92 then [char_of (92::nat), char_of (92::nat)]
      else if n = 7 then [char_of (92::nat), CHR ''a'']
      else if n = 8 then [char_of (92::nat), CHR ''b'']
      else if n = 9 then [char_of (92::nat), CHR ''t'']
      else if n = 10 then [char_of (92::nat), CHR ''n'']
      else if n = 11 then [char_of (92::nat), CHR ''v'']
      else if n = 12 then [char_of (92::nat), CHR ''f'']
      else if n = 13 then [char_of (92::nat), CHR ''r'']
      else if n < 32 \<or> n = 127 then [char_of (92::nat), CHR ''x'', hex_digit (n div 16), hex_digit (n mod 16)]
      else [c])"

definition go_quote :: "string \<Rightarrow> string" where
  "go_quote s = [char_of (34::nat)] @ concat (map quote_char s) @ [char_of (34::nat)]"

lemma equal_fold_refl [simp]: "equal_fold s s"
  by (simp add: equal_fold_def)

lemma equal_fold_sym: "equal_fold s t \<longleftrightarrow> equal_fold t s"
  by (auto simp: equal_fold_def)

lemma lower_char_idem [simp]: "lower_char (lower_char c) = lower_char c"
proof -
  have "(of_char c :: nat) < 256" by simp
  then show ?thesis by (auto simp: lower_char_def Let_def of_char_of)
qed

lemma to_lower_idem [simp]: "to_lower (to_lower s) = to_lower s"
  by (simp add: to_lower_def)

lemma length_to_lower [simp]: "length (to_lower s) = length s"
  by (simp add: to_lower_def)

lemma has_prefix_append [simp]: "has_prefix (p @ s) p"
  by (simp add: has_prefix_def)

lemma has_suffix_append [simp]: "has_suffix (s @ p) p"
  by (simp add: has_suffix_def)

lemma trim_prefix_append [simp]: "trim_prefix (p @ s) p = s"
  by (simp add: trim_prefix_def)

lemma trim_suffix_append [simp]: "trim_suffix (s @ p) p = s"
  by (simp add: trim_suffix_def)

lemma join_str_Cons: "ss \<noteq> [] \<Longrightarrow> join_str sep (s # ss) = s @ sep @ join_str sep ss"
  by (cases ss) auto

subsection \<open>Slices\<close>

text \<open>\<open>nonEmptyStrings\<close>-style filtering and first-match searches.\<close>

fun find_index_from :: "nat \<Rightarrow> ('a \<Rightarrow> bool) \<Rightarrow> 'a list \<Rightarrow> nat list" where
  "find_index_from i p [] = []"
| "find_index_from i p (x # xs) = (if p x then [i] else []) @ find_index_from (Suc i) p xs"

abbreviation indices_where :: "('a \<Rightarrow> bool) \<Rightarrow> 'a list \<Rightarrow> nat list" where
  "indices_where \<equiv> find_index_from 0"

lemma set_find_index_from:
  "j \<in> set (find_index_from i p xs) \<longleftrightarrow> i \<le> j \<and> j < i + length xs \<and> p (xs ! (j - i))"
proof (induction xs arbitrary: i)
  case Nil
  then show ?case by auto
next
  case (Cons x xs)
  have "j - i = Suc (j - Suc i)" if "Suc i \<le> j" using that by simp
  with Cons show ?case by (cases "j = i") (auto simp: nth_Cons')
qed

lemma set_indices_where: "j \<in> set (indices_where p xs) \<longleftrightarrow> j < length xs \<and> p (xs ! j)"
  by (simp add: set_find_index_from)

lemma distinct_find_index_from: "distinct (find_index_from i p xs)"
  by (induction xs arbitrary: i) (auto simp: set_find_index_from)

text \<open>Results that are not errors.\<close>

lemma not_isl_Inr: "\<not> isl x \<Longrightarrow> \<exists>y. x = Inr y"
  by (cases x) auto

end
