(* ===== verification/Float64.thy ===== *)
theory Float64
  imports Prelude
begin

section \<open>Go's float64\<close>

text \<open>
  IEEE 754 binary64, as Go's \<open>float64\<close> and package \<open>math\<close> use it: a value is a finite
  rational, an infinity or a NaN, and every operation rounds its exact result to the
  nearest representable value, ties to even, with gradual underflow and overflow to an
  infinity. The sign of zero is not kept: the program only divides by converted integers and
  by quantities it has tested for zero, so a zero divisor of either sign does not occur where
  the quotient is used, and no comparison tells the two zeros apart.
\<close>

subsection \<open>The binary logarithm\<close>

function ilog2 :: "int \<Rightarrow> int" where
  "ilog2 n = (if n < 2 then 0 else 1 + ilog2 (n div 2))"
  by pat_completeness auto
termination by (relation "measure nat") auto

declare ilog2.simps [simp del]

text \<open>For evaluation: the recursion unfolds only once the test is decided.\<close>

fun ilog2_step :: "bool \<Rightarrow> int \<Rightarrow> int" where
  "ilog2_step True n = 0"
| "ilog2_step False n = 1 + ilog2 (n div 2)"

lemma ilog2_code [code]: "ilog2 n = ilog2_step (n < 2) n"
  by (cases "n < 2") (simp_all add: ilog2.simps [of n])

lemma ilog2_nonneg [simp]: "0 \<le> ilog2 n"
  by (induction n rule: ilog2.induct) (subst ilog2.simps, auto)

lemma ilog2_bounds: "1 \<le> n \<Longrightarrow> 2 ^ nat (ilog2 n) \<le> n \<and> n < 2 * 2 ^ nat (ilog2 n)"
proof (induction n rule: ilog2.induct)
  case (1 n)
  show ?case
  proof (cases "n < 2")
    case True
    with 1 show ?thesis by (simp add: ilog2.simps [of n])
  next
    case False
    then have "1 \<le> n div 2" by simp
    with 1 False have IH: "2 ^ nat (ilog2 (n div 2)) \<le> n div 2" "n div 2 < 2 * 2 ^ nat (ilog2 (n div 2))"
      by auto
    have "nat (ilog2 n) = Suc (nat (ilog2 (n div 2)))"
      using False by (subst ilog2.simps) (simp add: nat_add_distrib)
    moreover have "2 * (n div 2) \<le> n" "n < 2 * (n div 2) + 2" by presburger+
    ultimately show ?thesis using IH by simp
  qed
qed

definition flog2 :: "rat \<Rightarrow> int" where
  "flog2 x = (if 1 \<le> x then ilog2 \<lfloor>x\<rfloor> else - (ilog2 (\<lceil>1 / x\<rceil> - 1) + 1))"

lemma powi_2_nonneg: "0 \<le> k \<Longrightarrow> (2::rat) powi k = 2 ^ nat k"
  by (simp add: power_int_def)

lemma powi_2_neg: "0 \<le> k \<Longrightarrow> (2::rat) powi (- k) = 1 / 2 ^ nat k"
  by (simp only: power_int_minus powi_2_nonneg inverse_eq_divide)

lemma nat_ilog2_Suc: "nat (ilog2 n + 1) = Suc (nat (ilog2 n))"
  by (simp add: nat_add_distrib)

lemma inverse_ceiling_pos:
  assumes "0 < x" and "x < (1::rat)"
  shows "1 \<le> \<lceil>1 / x\<rceil> - 1"
proof -
  have "1 < 1 / x" using assms by (simp only: less_divide_eq_1_pos)
  then have "of_int 1 < 1 / x" by simp
  then have "1 < \<lceil>1 / x\<rceil>" by (simp only: less_ceiling_iff)
  then show ?thesis by simp
qed

lemma flog2_lower:
  assumes x: "0 < x"
  shows "(2::rat) powi flog2 x \<le> x"
proof (cases "1 \<le> x")
  case True
  then have "1 \<le> \<lfloor>x\<rfloor>" by (simp add: le_floor_iff)
  from ilog2_bounds [OF this] have "(2::rat) ^ nat (ilog2 \<lfloor>x\<rfloor>) \<le> of_int \<lfloor>x\<rfloor>"
    by (metis of_int_le_iff of_int_numeral of_int_power)
  also have "\<dots> \<le> x" by simp
  finally show ?thesis using True by (simp add: flog2_def powi_2_nonneg)
next
  case False
  define n where "n = \<lceil>1 / x\<rceil> - 1"
  have n: "1 \<le> n" using inverse_ceiling_pos x False by (simp add: n_def)
  have "1 / x \<le> of_int (n + 1)" unfolding n_def by simp
  also have "of_int (n + 1) \<le> (of_int (2 * 2 ^ nat (ilog2 n)) :: rat)"
    using ilog2_bounds [OF n] by (subst of_int_le_iff) simp
  finally have "1 / x \<le> 2 ^ nat (ilog2 n + 1)" by (simp add: nat_ilog2_Suc)
  then have "1 / 2 ^ nat (ilog2 n + 1) \<le> x" using x by (simp add: field_simps)
  then have "2 powi (- (ilog2 n + 1)) \<le> x" using powi_2_neg [of "ilog2 n + 1"] by simp
  then show ?thesis using False by (simp add: flog2_def n_def)
qed

lemma flog2_upper:
  assumes x: "0 < x"
  shows "x < (2::rat) powi (flog2 x + 1)"
proof (cases "1 \<le> x")
  case True
  then have "1 \<le> \<lfloor>x\<rfloor>" by (simp add: le_floor_iff)
  from ilog2_bounds [OF this] have "\<lfloor>x\<rfloor> < 2 ^ nat (ilog2 \<lfloor>x\<rfloor> + 1)" by (simp add: nat_ilog2_Suc)
  then have "x < 2 ^ nat (ilog2 \<lfloor>x\<rfloor> + 1)" by (simp add: floor_less_iff)
  then show ?thesis using True by (simp add: flog2_def powi_2_nonneg)
next
  case False
  define n where "n = \<lceil>1 / x\<rceil> - 1"
  have n: "1 \<le> n" using inverse_ceiling_pos x False by (simp add: n_def)
  have "(of_int (2 ^ nat (ilog2 n)) :: rat) \<le> of_int n"
    using ilog2_bounds [OF n] by (subst of_int_le_iff) simp
  also have "of_int n < 1 / x" using ceiling_correct [of "1 / x"] by (simp add: n_def)
  finally have "2 ^ nat (ilog2 n) < 1 / x" by simp
  then have "x < 1 / 2 ^ nat (ilog2 n)" using x by (simp add: field_simps)
  then have "x < 2 powi (- ilog2 n)" using powi_2_neg [of "ilog2 n"] by simp
  then show ?thesis using False by (simp add: flog2_def n_def)
qed

lemma powi_le_cancel: "(2::rat) powi m < 2 powi n \<Longrightarrow> m < n"
  by (rule ccontr) (simp add: not_less, meson leD one_le_numeral power_int_increasing)

lemma flog2_mono: "0 < x \<Longrightarrow> x \<le> y \<Longrightarrow> flog2 x \<le> flog2 y"
proof -
  assume "0 < x" "x \<le> y"
  then have "(2::rat) powi flog2 x < 2 powi (flog2 y + 1)"
    using flog2_lower [of x] flog2_upper [of y] by linarith
  then show ?thesis using powi_le_cancel by fastforce
qed

lemma flog2_unique: "0 < x \<Longrightarrow> 2 powi e \<le> x \<Longrightarrow> x < 2 powi (e + 1) \<Longrightarrow> flog2 x = e"
proof -
  assume x: "0 < x" "2 powi e \<le> x" "x < 2 powi (e + 1)"
  have "e < flog2 x + 1" using x flog2_upper [of x] powi_le_cancel [of e "flog2 x + 1"] by linarith
  moreover have "flog2 x < e + 1" using x flog2_lower [of x] powi_le_cancel [of "flog2 x" "e + 1"] by linarith
  ultimately show ?thesis by linarith
qed

subsection \<open>Rounding\<close>

text \<open>Nearest integer, ties to even.\<close>

definition rhe :: "rat \<Rightarrow> int" where
  "rhe x = (let f = \<lfloor>x\<rfloor>; d = x - of_int f
            in if d < 1 / 2 then f else if 1 / 2 < d then f + 1 else if even f then f else f + 1)"

lemma rhe_of_int [simp]: "rhe (of_int n) = n"
  by (simp add: rhe_def)

lemma rhe_bounds: "\<lfloor>x\<rfloor> \<le> rhe x \<and> rhe x \<le> \<lfloor>x\<rfloor> + 1"
  by (simp add: rhe_def Let_def)

lemma rhe_mono:
  assumes "x \<le> y"
  shows "rhe x \<le> rhe y"
proof (cases "\<lfloor>x\<rfloor> = \<lfloor>y\<rfloor>")
  case True
  then show ?thesis using assms by (auto simp: rhe_def Let_def)
next
  case False
  then have "\<lfloor>x\<rfloor> + 1 \<le> \<lfloor>y\<rfloor>" using floor_mono [OF assms] by simp
  then show ?thesis using rhe_bounds [of x] rhe_bounds [of y] by linarith
qed

lemma rhe_error: "\<bar>of_int (rhe x) - x\<bar> \<le> 1 / 2"
proof -
  have "of_int \<lfloor>x\<rfloor> \<le> x" and "x < of_int \<lfloor>x\<rfloor> + 1" using floor_correct [of x] by auto
  then show ?thesis unfolding rhe_def Let_def abs_if by (simp add: not_less field_simps) linarith
qed

text \<open>
  The exponent of the last place of a positive number: 53 significant bits, no finer than
  the subnormal spacing.
\<close>

definition ulp_exp :: "rat \<Rightarrow> int" where
  "ulp_exp x = max (flog2 x - 52) (- 1074)"

definition rnd_pos :: "rat \<Rightarrow> rat" where
  "rnd_pos x = (let u = 2 powi ulp_exp x in of_int (rhe (x / u)) * u)"

definition rnd :: "rat \<Rightarrow> rat" where
  "rnd x = (if x = 0 then 0 else if 0 < x then rnd_pos x else - rnd_pos (- x))"

lemma ulp_exp_mono: "0 < x \<Longrightarrow> x \<le> y \<Longrightarrow> ulp_exp x \<le> ulp_exp y"
  using flog2_mono [of x y] by (simp add: ulp_exp_def)

text \<open>A multiple of its own last place rounds to itself.\<close>

lemma rnd_pos_exact:
  assumes "x = of_int m * 2 powi ulp_exp x"
  shows "rnd_pos x = x"
proof -
  have "x / 2 powi ulp_exp x = of_int m"
    using assms by (metis nonzero_mult_div_cancel_right power_int_not_zero zero_neq_numeral)
  then show ?thesis using assms by (simp add: rnd_pos_def Let_def)
qed

lemma rnd_pos_le_int:
  assumes "x / 2 powi ulp_exp x \<le> of_int m"
  shows "rnd_pos x \<le> of_int m * 2 powi ulp_exp x"
proof -
  have "rhe (x / 2 powi ulp_exp x) \<le> m" using rhe_mono [OF assms] by simp
  then show ?thesis by (simp add: rnd_pos_def Let_def)
qed

lemma rnd_pos_ge_int:
  assumes "of_int m \<le> x / 2 powi ulp_exp x"
  shows "of_int m * 2 powi ulp_exp x \<le> rnd_pos x"
proof -
  have "m \<le> rhe (x / 2 powi ulp_exp x)" using rhe_mono [OF assms] by simp
  then show ?thesis by (simp add: rnd_pos_def Let_def)
qed

lemma powi_split: "(2::rat) powi a = 2 powi (a - b) * 2 powi b"
  by (simp add: power_int_add [symmetric])

lemma rnd_pos_ge_pow:
  assumes "ulp_exp x \<le> e" and "2 powi e \<le> x"
  shows "2 powi e \<le> rnd_pos x"
proof -
  let ?k = "e - ulp_exp x"
  have u: "(0::rat) < 2 powi ulp_exp x" by simp
  have k: "(2::rat) powi ?k = of_int (2 ^ nat ?k)" using assms(1) by (simp add: powi_2_nonneg)
  have "(2::rat) powi ?k \<le> x / 2 powi ulp_exp x"
    using assms(2) u by (simp add: pos_le_divide_eq powi_split [of e "ulp_exp x"])
  then show ?thesis using rnd_pos_ge_int [of "2 ^ nat ?k" x] k powi_split [of e "ulp_exp x"] by simp
qed

lemma rnd_pos_le_pow:
  assumes "ulp_exp x \<le> e" and "x \<le> 2 powi e"
  shows "rnd_pos x \<le> 2 powi e"
proof -
  let ?k = "e - ulp_exp x"
  have u: "(0::rat) < 2 powi ulp_exp x" by simp
  have k: "(2::rat) powi ?k = of_int (2 ^ nat ?k)" using assms(1) by (simp add: powi_2_nonneg)
  have "x / 2 powi ulp_exp x \<le> (2::rat) powi ?k"
    using assms(2) u by (simp add: pos_divide_le_eq powi_split [of e "ulp_exp x"])
  then show ?thesis using rnd_pos_le_int [of x "2 ^ nat ?k"] k powi_split [of e "ulp_exp x"] by simp
qed

lemma rnd_pos_mono:
  assumes x: "0 < x" and xy: "x \<le> y"
  shows "rnd_pos x \<le> rnd_pos y"
proof (cases "ulp_exp x = ulp_exp y")
  case True
  have "x / 2 powi ulp_exp x \<le> y / 2 powi ulp_exp x" using xy by (simp add: divide_right_mono)
  then show ?thesis using True rhe_mono by (simp add: rnd_pos_def Let_def)
next
  case False
  with ulp_exp_mono [OF x xy] have lt: "ulp_exp x < ulp_exp y" by simp
  then have uy: "ulp_exp y = flog2 y - 52" by (auto simp: ulp_exp_def)
  have "flog2 x < flog2 y" using lt uy by (simp add: ulp_exp_def)
  then have "x < 2 powi flog2 y"
    using flog2_upper [OF x] power_int_increasing [of "flog2 x + 1" "flog2 y" "2::rat"] by simp
  then have "rnd_pos x \<le> 2 powi flog2 y" using lt uy by (intro rnd_pos_le_pow) auto
  also have "2 powi flog2 y \<le> rnd_pos y" using uy x xy flog2_lower [of y] by (intro rnd_pos_ge_pow) auto
  finally show ?thesis .
qed

lemma rnd_pos_nonneg: "0 < x \<Longrightarrow> 0 \<le> rnd_pos x"
  using rnd_pos_ge_int [of 0 x] by simp

theorem rnd_mono: "x \<le> y \<Longrightarrow> rnd x \<le> rnd y"
  using rnd_pos_mono [of x y] rnd_pos_mono [of "- y" "- x"]
    rnd_pos_nonneg [of y] rnd_pos_nonneg [of "- x"]
  by (auto simp: rnd_def)

lemma rnd_0 [simp]: "rnd 0 = 0"
  by (simp add: rnd_def)

lemma rnd_minus: "rnd (- x) = - rnd x"
  by (simp add: rnd_def)

lemma rnd_nonneg: "0 \<le> x \<Longrightarrow> 0 \<le> rnd x"
  using rnd_mono [of 0 x] by simp

text \<open>Every integer of at most 53 bits is a float64.\<close>

lemma rnd_pos_int:
  assumes "0 < n" and "n \<le> 9007199254740992"
  shows "rnd_pos (of_int n) = of_int n"
proof -
  have n: "0 < (of_int n :: rat)" using assms by simp
  have "flog2 (of_int n) \<le> 53"
  proof -
    have "(of_int n :: rat) \<le> of_int 9007199254740992" using assms(2) by (simp only: of_int_le_iff)
    then have "(of_int n :: rat) < 2 powi 54" by simp
    then have "(2::rat) powi flog2 (of_int n) < 2 powi 54" using flog2_lower [OF n] by linarith
    then have "flog2 (of_int n) < 54" by (rule powi_le_cancel)
    then show ?thesis by simp
  qed
  then consider "ulp_exp (of_int n) \<le> 0" | "flog2 (of_int n) = 53" by (force simp: ulp_exp_def)
  then show ?thesis
  proof cases
    case 1
    let ?u = "ulp_exp (of_int n)"
    have "(1::rat) = 2 powi (- ?u) * 2 powi ?u" by (simp add: power_int_add [symmetric])
    then have "of_int n = of_int (n * 2 ^ nat (- ?u)) * (2::rat) powi ?u"
      using 1 by (simp add: powi_2_nonneg [of "- ?u", symmetric])
    then show ?thesis by (rule rnd_pos_exact)
  next
    case 2
    then have "(2::rat) powi 53 \<le> of_int n" using flog2_lower [OF n] by simp
    then have "(9007199254740992::rat) \<le> of_int n" by simp
    then have "n = 9007199254740992" using assms(2) by linarith
    moreover have "ulp_exp (of_int n) = 1" using 2 by (simp add: ulp_exp_def)
    ultimately show ?thesis by (intro rnd_pos_exact [where m = 4503599627370496]) simp
  qed
qed

theorem rnd_int: "\<bar>n\<bar> \<le> 9007199254740992 \<Longrightarrow> rnd (of_int n) = of_int n"
  using rnd_pos_int [of n] rnd_pos_int [of "- n"] by (auto simp: rnd_def)

lemma rnd_numeral [simp]: "numeral k \<le> (9007199254740992 :: int) \<Longrightarrow> rnd (numeral k) = numeral k"
  using rnd_int [of "numeral k"] by simp

lemma rnd_1 [simp]: "rnd 1 = 1"
  using rnd_int [of 1] by simp

lemma rnd_ge_int: "\<bar>n\<bar> \<le> 9007199254740992 \<Longrightarrow> of_int n \<le> x \<Longrightarrow> of_int n \<le> rnd x"
  using rnd_mono [of "of_int n" x] by (simp add: rnd_int)

lemma rnd_le_int: "\<bar>n\<bar> \<le> 9007199254740992 \<Longrightarrow> x \<le> of_int n \<Longrightarrow> rnd x \<le> of_int n"
  using rnd_mono [of x "of_int n"] by (simp add: rnd_int)

subsection \<open>Values and operations\<close>

datatype f64 = Fin rat | PInf | NInf | NaN

text \<open>A result whose rounding reaches the first power of two out of range is an infinity.\<close>

definition f64_limit :: rat where
  "f64_limit = 2 powi 1024"

definition mk :: "rat \<Rightarrow> f64" where
  "mk x = (let r = rnd x in if f64_limit \<le> r then PInf else if r \<le> - f64_limit then NInf else Fin r)"

lemma f64_limit_pos [simp]: "0 < f64_limit" "\<not> f64_limit \<le> 0"
  by (simp_all add: f64_limit_def not_le)

lemma f64_limit_large: "9007199254740992 < f64_limit"
  by (simp add: f64_limit_def power_int_def)

text \<open>
  For evaluation: a value is rounded only once it is known, and its result is kept as a
  reduced fraction.
\<close>

fun mk_done :: "int \<times> int \<Rightarrow> f64" where
  "mk_done (a, b) =
     (if \<bar>a\<bar> \<le> 9007199254740992 * b \<and> 0 < b then Fin (Fract a b)
      else if f64_limit \<le> Fract a b then PInf
      else if Fract a b \<le> - f64_limit then NInf else Fin (Fract a b))"

fun mk_quot :: "int \<times> int \<Rightarrow> f64" where
  "mk_quot (a, b) = mk_done (quotient_of (rnd (Fract a b)))"

fun mk_step :: "bool \<Rightarrow> rat \<Rightarrow> f64" where
  "mk_step True x = mk_quot (quotient_of x)"
| "mk_step False x = mk_quot (quotient_of x)"

lemma Fract_quotient: "quotient_of x = (a, b) \<Longrightarrow> Fract a b = x"
  using quotient_of_div [of x a b] by (simp add: Fract_of_int_quotient)

lemma mk_done_eq:
  "mk_done (a, b) = (let r = Fract a b
     in if f64_limit \<le> r then PInf else if r \<le> - f64_limit then NInf else Fin r)"
proof (cases "\<bar>a\<bar> \<le> 9007199254740992 * b \<and> 0 < b")
  case True
  then have "\<bar>a\<bar> \<le> 9007199254740992 * b" "0 < b" by auto
  then have "(of_int \<bar>a\<bar> :: rat) \<le> of_int (9007199254740992 * b)" by (simp only: of_int_le_iff)
  then have "\<bar>of_int a\<bar> \<le> 9007199254740992 * (of_int b :: rat)" by simp
  then have "\<bar>of_int a / of_int b\<bar> \<le> (9007199254740992 :: rat)"
    using \<open>0 < b\<close> by (simp add: abs_divide divide_le_eq)
  then have "\<not> f64_limit \<le> Fract a b" "\<not> Fract a b \<le> - f64_limit"
    using f64_limit_large unfolding Fract_of_int_quotient abs_le_iff by linarith+
  with True show ?thesis by (simp add: Let_def)
qed auto

lemma mk_code [code]: "mk x = mk_step (x < 0) x"
proof -
  obtain a b where x: "quotient_of x = (a, b)" by fastforce
  obtain c d where r: "quotient_of (rnd x) = (c, d)" by fastforce
  have "mk_quot (quotient_of x) = mk x"
    by (simp only: x r mk_quot.simps Fract_quotient [OF x] mk_done_eq Fract_quotient [OF r] mk_def Let_def)
  then show ?thesis by (cases "x < 0") simp_all
qed

definition f_neg :: "f64 \<Rightarrow> f64" where
  "f_neg a = (case a of Fin x \<Rightarrow> Fin (- x) | PInf \<Rightarrow> NInf | NInf \<Rightarrow> PInf | NaN \<Rightarrow> NaN)"

fun f_add :: "f64 \<Rightarrow> f64 \<Rightarrow> f64" where
  "f_add (Fin x) (Fin y) = mk (x + y)"
| "f_add NaN _ = NaN"
| "f_add _ NaN = NaN"
| "f_add PInf NInf = NaN"
| "f_add NInf PInf = NaN"
| "f_add PInf _ = PInf"
| "f_add NInf _ = NInf"
| "f_add _ PInf = PInf"
| "f_add _ NInf = NInf"

definition f_sub :: "f64 \<Rightarrow> f64 \<Rightarrow> f64" where
  "f_sub a b = f_add a (f_neg b)"

definition inf_of_sign :: "rat \<Rightarrow> f64" where
  "inf_of_sign s = (if 0 < s then PInf else if s < 0 then NInf else NaN)"

fun f_sign :: "f64 \<Rightarrow> rat" where
  "f_sign (Fin x) = sgn x"
| "f_sign PInf = 1"
| "f_sign NInf = - 1"
| "f_sign NaN = 0"

fun f_mul :: "f64 \<Rightarrow> f64 \<Rightarrow> f64" where
  "f_mul (Fin x) (Fin y) = mk (x * y)"
| "f_mul a b = inf_of_sign (f_sign a * f_sign b)"

fun f_div :: "f64 \<Rightarrow> f64 \<Rightarrow> f64" where
  "f_div (Fin x) (Fin y) = (if y = 0 then inf_of_sign (sgn x) else mk (x / y))"
| "f_div NaN _ = NaN"
| "f_div _ NaN = NaN"
| "f_div (Fin x) _ = Fin 0"
| "f_div a (Fin y) = (if y < 0 then f_neg a else a)"
| "f_div _ _ = NaN"

fun f_lt :: "f64 \<Rightarrow> f64 \<Rightarrow> bool" where
  "f_lt (Fin x) (Fin y) = (x < y)"
| "f_lt NaN _ = False"
| "f_lt _ NaN = False"
| "f_lt NInf b = (b \<noteq> NInf)"
| "f_lt a PInf = (a \<noteq> PInf)"
| "f_lt _ _ = False"

definition f_eq :: "f64 \<Rightarrow> f64 \<Rightarrow> bool" where
  "f_eq a b \<longleftrightarrow> a = b \<and> a \<noteq> NaN"

definition f_le :: "f64 \<Rightarrow> f64 \<Rightarrow> bool" where
  "f_le a b \<longleftrightarrow> f_lt a b \<or> f_eq a b"

definition f_abs :: "f64 \<Rightarrow> f64" where
  "f_abs a = (case a of Fin x \<Rightarrow> Fin \<bar>x\<bar> | NInf \<Rightarrow> PInf | _ \<Rightarrow> a)"

definition is_nan :: "f64 \<Rightarrow> bool" where
  "is_nan a \<longleftrightarrow> a = NaN"

definition is_inf :: "f64 \<Rightarrow> bool" where
  "is_inf a \<longleftrightarrow> a = PInf \<or> a = NInf"

text \<open>Conversions and rounding functions of package \<open>math\<close>; \<open>f_trunc\<close> is Go's \<open>int(x)\<close> of a finite value.\<close>

definition f_of_int :: "int \<Rightarrow> f64" where
  "f_of_int n = mk (of_int n)"

definition f_ceil :: "f64 \<Rightarrow> f64" where
  "f_ceil a = (case a of Fin x \<Rightarrow> mk (of_int \<lceil>x\<rceil>) | _ \<Rightarrow> a)"

text \<open>\<open>math.Round\<close>: nearest integer, halves away from zero.\<close>

definition f_round :: "f64 \<Rightarrow> f64" where
  "f_round a = (case a of
     Fin x \<Rightarrow> mk (of_int (if 0 \<le> x then \<lfloor>x + 1 / 2\<rfloor> else \<lceil>x - 1 / 2\<rceil>)) | _ \<Rightarrow> a)"

definition f_trunc :: "f64 \<Rightarrow> int" where
  "f_trunc a = (case a of Fin x \<Rightarrow> (if 0 \<le> x then \<lfloor>x\<rfloor> else \<lceil>x\<rceil>) | _ \<Rightarrow> 0)"

lemmas f64_ops_defs = f_neg_def f_sub_def f_le_def f_eq_def f_abs_def is_nan_def is_inf_def
  f_ceil_def f_round_def f_trunc_def

lemma mk_small:
  assumes "\<bar>x\<bar> \<le> of_int 9007199254740992"
  shows "mk x = Fin (rnd x)"
proof -
  have "rnd x \<le> 9007199254740992" using assms rnd_le_int [of 9007199254740992 x] by simp
  moreover have "- 9007199254740992 \<le> rnd x" using assms rnd_ge_int [of "- 9007199254740992" x] by simp
  ultimately show ?thesis using f64_limit_large by (simp add: mk_def Let_def)
qed

lemma mk_int [simp]: "\<bar>n\<bar> \<le> 9007199254740992 \<Longrightarrow> mk (of_int n) = Fin (of_int n)"
  using mk_small [of "of_int n"] rnd_int [of n] by (simp flip: of_int_abs)

lemma f_of_int_exact [simp]: "\<bar>n\<bar> \<le> 9007199254740992 \<Longrightarrow> f_of_int n = Fin (of_int n)"
  by (simp add: f_of_int_def)

lemma f_of_int_in32 [simp]: "in32 n \<Longrightarrow> f_of_int n = Fin (of_int n)"
  by (rule f_of_int_exact) (auto simp: in32_def)

lemma rnd_pow:
  assumes "- 1074 \<le> e"
  shows "rnd (2 powi e) = 2 powi e"
proof -
  have pos: "(0::rat) < 2 powi e" by simp
  have "flog2 (2 powi e) = e" by (rule flog2_unique) (simp_all add: power_int_add)
  then have u: "ulp_exp (2 powi e) \<le> e" using assms by (simp add: ulp_exp_def)
  show ?thesis using pos rnd_pos_le_pow [OF u] rnd_pos_ge_pow [OF u] by (simp add: rnd_def)
qed

lemma mk_pow:
  assumes "\<bar>x\<bar> \<le> 2 powi e" and "0 \<le> e" and "e < 1024"
  shows "mk x = Fin (rnd x)" and "\<bar>rnd x\<bar> \<le> 2 powi e"
proof -
  have "rnd x \<le> 2 powi e" using assms rnd_mono [of x "2 powi e"] rnd_pow [of e] by simp
  moreover have "- (2 powi e) \<le> rnd x"
    using assms rnd_mono [of "- (2 powi e)" x] rnd_pow [of e] rnd_minus [of "2 powi e"] by simp
  ultimately show b: "\<bar>rnd x\<bar> \<le> 2 powi e" by simp
  have "(2::rat) powi e < f64_limit"
    unfolding f64_limit_def using assms(3) by (intro power_int_strict_increasing) auto
  with b have "rnd x < f64_limit" "- f64_limit < rnd x" by linarith+
  then show "mk x = Fin (rnd x)" by (simp add: mk_def Let_def not_le)
qed

text \<open>An integer bound on an exact result survives rounding, ceiling and conversion to an integer.\<close>

lemma ceil_trunc_bounds:
  assumes x: "\<bar>x\<bar> \<le> 2 powi e" "0 \<le> e" "e < 1023" and n: "\<bar>n\<bar> \<le> 9007199254740992"
  shows "of_int n \<le> x \<Longrightarrow> n \<le> f_trunc (f_ceil (mk x))"
    and "x \<le> of_int n \<Longrightarrow> f_trunc (f_ceil (mk x)) \<le> n"
proof -
  have m: "mk x = Fin (rnd x)" "\<bar>rnd x\<bar> \<le> 2 powi e" using mk_pow [of x e] x by auto
  have one: "(1::rat) \<le> 2 powi e" using x by (simp add: powi_2_nonneg)
  have "(2::rat) powi (e + 1) = 2 * 2 powi e" by (simp add: power_int_add)
  moreover have "\<bar>of_int \<lceil>rnd x\<rceil>\<bar> \<le> \<bar>rnd x\<bar> + (1::rat)" using ceiling_correct [of "rnd x"] by linarith
  ultimately have "\<bar>of_int \<lceil>rnd x\<rceil>\<bar> \<le> (2::rat) powi (e + 1)" using m(2) one by linarith
  then have c: "f_ceil (mk x) = Fin (rnd (of_int \<lceil>rnd x\<rceil>))"
    using mk_pow(1) [of "of_int \<lceil>rnd x\<rceil>" "e + 1"] x m by (simp add: f_ceil_def)
  {
    assume "of_int n \<le> x"
    then have "of_int n \<le> rnd x" using n by (intro rnd_ge_int)
    then have "(of_int n :: rat) \<le> of_int \<lceil>rnd x\<rceil>" by linarith
    then have "of_int n \<le> rnd (of_int \<lceil>rnd x\<rceil>)" using n by (intro rnd_ge_int)
    then show "n \<le> f_trunc (f_ceil (mk x))" by (simp add: c f_trunc_def le_floor_iff; linarith)
  next
    assume "x \<le> of_int n"
    then have "rnd x \<le> of_int n" using n by (intro rnd_le_int)
    then have "\<lceil>rnd x\<rceil> \<le> n" by (simp only: ceiling_le_iff)
    then have "rnd (of_int \<lceil>rnd x\<rceil>) \<le> of_int n" using n by (intro rnd_le_int) auto
    then show "f_trunc (f_ceil (mk x)) \<le> n" by (simp add: c f_trunc_def ceiling_le_iff floor_le_iff; linarith)
  }
qed

text \<open>Rounding to a float64 keeps the order of two finite values and of one with an infinity.\<close>

lemma mk_mono: "x \<le> y \<Longrightarrow> f_le (mk x) (mk y)"
  using rnd_mono [of x y] by (auto simp: mk_def Let_def f_le_def f_eq_def)

lemma mk_nonneg_cases:
  assumes "0 \<le> x"
  obtains "mk x = PInf" | "mk x = Fin (rnd x)" "0 \<le> rnd x"
proof -
  have r: "0 \<le> rnd x" using assms by (rule rnd_nonneg)
  then have "\<not> rnd x \<le> - f64_limit" using f64_limit_pos(1) by linarith
  then show ?thesis using that r by (cases "f64_limit \<le> rnd x") (auto simp: mk_def Let_def)
qed

lemma f_lt_irrefl [simp]: "\<not> f_lt a a"
  by (cases a) auto

lemma f_lt_trans: "f_lt a b \<Longrightarrow> f_lt b c \<Longrightarrow> f_lt a c"
  by (cases a; cases b; cases c) auto

lemma f_lt_asym: "f_lt a b \<Longrightarrow> \<not> f_lt b a"
  by (cases a; cases b) auto

lemma f_lt_linear: "a \<noteq> NaN \<Longrightarrow> b \<noteq> NaN \<Longrightarrow> f_lt a b \<or> a = b \<or> f_lt b a"
  by (cases a; cases b) auto

subsection \<open>Fixed-point rendering\<close>

text \<open>
  \<open>%.kf\<close>: the exact value rounded to \<open>k\<close> decimals, ties to even, with at least one digit
  before the point; the sign is that of the value, also when the digits are all zero.
\<close>

definition pad_zeros :: "nat \<Rightarrow> string \<Rightarrow> string" where
  "pad_zeros n s = replicate (n - length s) (CHR ''0'') @ s"

definition show_fixed :: "nat \<Rightarrow> f64 \<Rightarrow> string" where
  "show_fixed k a = (case a of
     NaN \<Rightarrow> ''NaN''
   | PInf \<Rightarrow> ''+Inf''
   | NInf \<Rightarrow> ''-Inf''
   | Fin x \<Rightarrow>
       (let n = rhe (\<bar>x\<bar> * 10 ^ k);
            ds = pad_zeros (Suc k) (digits_of n);
            body = (if k = 0 then ds
                    else take (length ds - k) ds @ ''.'' @ drop (length ds - k) ds)
        in (if x < 0 then ''-'' else []) @ body))"

text \<open>
  \<open>%.pg\<close> of a finite value: \<open>p\<close> significant digits without trailing zeros, in scientific
  notation when the exponent is below -4 or at least \<open>p\<close>.
\<close>

function exp10 :: "rat \<Rightarrow> nat \<Rightarrow> int" where
  "exp10 x fuel = (if fuel = 0 then 0 else if x < 1 then exp10 (x * 10) (fuel - 1) - 1
     else if 10 \<le> x then exp10 (x / 10) (fuel - 1) + 1 else 0)"
  by pat_completeness auto
termination by (relation "measure snd") auto

declare exp10.simps [simp del]

definition trim_zeros :: "string \<Rightarrow> string" where
  "trim_zeros s = rev (dropWhile (\<lambda>c. c = CHR ''0'') (rev s))"

definition show_g :: "nat \<Rightarrow> f64 \<Rightarrow> string" where
  "show_g p a = (case a of
     NaN \<Rightarrow> ''NaN'' | PInf \<Rightarrow> ''+Inf'' | NInf \<Rightarrow> ''-Inf''
   | Fin x \<Rightarrow>
       if x = 0 then ''0'' else
       (let e0 = exp10 \<bar>x\<bar> 400;
            m0 = rhe (\<bar>x\<bar> * 10 powi (int p - 1 - e0));
            (m, e) = (if m0 = 10 ^ p then (10 ^ (p - 1), e0 + 1) else (m0, e0));
            ds = trim_zeros (digits_of m);
            body = (if e < - 4 \<or> int p \<le> e then
                      [hd ds] @ (if tl ds = [] then [] else ''.'' @ tl ds) @ ''e'' @
                      (if e < 0 then ''-'' else ''+'') @ pad_zeros 2 (digits_of \<bar>e\<bar>)
                    else if e < 0 then ''0.'' @ replicate (nat (- e) - 1) (CHR ''0'') @ ds
                    else let k = nat e + 1; ip = take k ds @ replicate (k - length ds) (CHR ''0'')
                         in ip @ (if length ds \<le> k then [] else ''.'' @ drop k ds))
        in (if x < 0 then ''-'' else []) @ body))"

text \<open>
  \<open>strconv.ParseFloat(s, 64)\<close>: decimal and hexadecimal literals and the special values. The
  digit separators Go accepts inside hexadecimal literals are not read.
\<close>

definition digit_value :: "int \<Rightarrow> char \<Rightarrow> int option" where
  "digit_value base c =
     (let n = int (of_char c);
          v = (if 48 \<le> n \<and> n \<le> 57 then n - 48 else if 97 \<le> n \<and> n \<le> 102 then n - 87
               else if 65 \<le> n \<and> n \<le> 70 then n - 55 else 99)
      in if v < base then Some v else None)"

definition is_digit_of :: "int \<Rightarrow> char \<Rightarrow> bool" where
  "is_digit_of base c \<longleftrightarrow> digit_value base c \<noteq> None"

definition digits_value :: "int \<Rightarrow> string \<Rightarrow> int" where
  "digits_value base ds = foldl (\<lambda>acc c. base * acc + the (digit_value base c)) 0 ds"

definition parse_exponent :: "string \<Rightarrow> int option" where
  "parse_exponent s = (case s of
     [] \<Rightarrow> None
   | c # cs \<Rightarrow>
       let (neg, ds) = (if c = CHR ''-'' then (True, cs) else if c = CHR ''+'' then (False, cs) else (False, s))
       in map_option (\<lambda>n. if neg then - n else n) (parse_nat ds))"

definition parse_unsigned :: "string \<Rightarrow> rat option" where
  "parse_unsigned s =
     (let hex = has_prefix (to_lower s) ''0x'';
          base = (if hex then 16 else 10);
          s = (if hex then drop 2 s else s);
          ip = takeWhile (is_digit_of base) s;
          r = dropWhile (is_digit_of base) s;
          dot = (r \<noteq> [] \<and> hd r = CHR ''.'');
          fp = (if dot then takeWhile (is_digit_of base) (tl r) else []);
          r = (if dot then dropWhile (is_digit_of base) (tl r) else r);
          mant = of_int (digits_value base (ip @ fp)) / of_int base ^ length fp
      in if ip @ fp = [] then None
         else if r = [] then (if hex then None else Some mant)
         else if lower_char (hd r) = (if hex then CHR ''p'' else CHR ''e'') then
           map_option (\<lambda>e. mant * (if hex then 2 else 10) powi e) (parse_exponent (tl r))
         else None)"

definition parse_float :: "string \<Rightarrow> parse_error + f64" where
  "parse_float s =
     (let (neg, signed, body) = (case s of
            [] \<Rightarrow> (False, False, [])
          | c # cs \<Rightarrow> if c = CHR ''-'' then (True, True, cs)
                      else if c = CHR ''+'' then (False, True, cs) else (False, False, s));
          low = to_lower body
      in if low = ''inf'' \<or> low = ''infinity'' then Inr (if neg then NInf else PInf)
         else if low = ''nan'' \<and> \<not> signed then Inr NaN
         else case parse_unsigned body of
                None \<Rightarrow> Inl ErrSyntax
              | Some x \<Rightarrow>
                  let v = mk (if neg then - x else x) in if is_inf v then Inl ErrRange else Inr v)"

end
