(* ===== verification/KubeApi.thy ===== *)
theory KubeApi
  imports Float64
begin

section \<open>The autoscaling/v2 objects the program reads\<close>

text \<open>
  The Kubernetes API types come from \<open>k8s.io/api\<close> and \<open>k8s.io/apimachinery\<close>, which are not
  part of the repository. Their fields that the program reads are records here; what the
  program calls on their opaque parts is a parameter:
  \<^item> a \<open>resource.Quantity\<close> is a value of the type variable \<open>'q\<close>, a \<open>metav1.LabelSelector\<close> a
    value of \<open>'s\<close>;
  \<^item> \<open>k8s_lib\<close> collects the library functions on them. A definition that needs one takes the
    record as its first argument \<open>K\<close>.
  The string-typed enumerations of the API stay strings, because the program handles unknown
  values of each (every switch has its default).
\<close>

record ('q, 's) k8s_lib =
  q_float :: "'q \<Rightarrow> f64"                    \<comment> \<open>\<open>Quantity.AsApproximateFloat64\<close>\<close>
  q_isZero :: "'q \<Rightarrow> bool"
  q_sign :: "'q \<Rightarrow> int"
  q_cmp :: "'q \<Rightarrow> 'q \<Rightarrow> int"
  q_string :: "'q \<Rightarrow> string"
  q_milli :: "'q \<Rightarrow> int"                   \<comment> \<open>\<open>Quantity.MilliValue\<close>\<close>
  q_format :: "'q \<Rightarrow> string"
  q_new_milli :: "int \<Rightarrow> string \<Rightarrow> 'q"    \<comment> \<open>\<open>resource.NewMilliQuantity\<close>\<close>
  q_parse :: "string \<Rightarrow> string + 'q"        \<comment> \<open>\<open>resource.ParseQuantity\<close>, an error with its text\<close>
  sel_parse :: "'s \<Rightarrow> string + (bool \<times> string)"
    \<comment> \<open>\<open>metav1.LabelSelectorAsSelector\<close>: an error, or \<open>Empty()\<close> and \<open>String()\<close> of the selector\<close>
  sel_labels :: "'s \<Rightarrow> string"               \<comment> \<open>\<open>labels.FormatLabels(selector.MatchLabels)\<close>\<close>

record 'q metric_target =
  mt_Type :: string
  mt_Value :: "'q option"
  mt_AverageValue :: "'q option"
  mt_AverageUtilization :: "int option"

record 'q metric_value =
  mv_Value :: "'q option"
  mv_AverageValue :: "'q option"
  mv_AverageUtilization :: "int option"

record 's metric_identifier =
  mi_Name :: string
  mi_Selector :: "'s option"

record object_ref =
  or_Kind :: string
  or_Name :: string
  or_APIVersion :: string

text \<open>
  A metric source of the spec and the matching entry of the status have the same shape; the
  payload \<open>'p\<close> is the target in the spec and the current value in the status.
\<close>

record 'p resource_metric =
  rm_Name :: string
  rm_Payload :: 'p

record 'p container_metric =
  cm_Name :: string
  cm_Container :: string
  cm_Payload :: 'p

record ('p, 's) named_metric =
  nm_Metric :: "'s metric_identifier"
  nm_Payload :: 'p

record ('p, 's) object_metric =
  om_Metric :: "'s metric_identifier"
  om_Payload :: 'p
  om_DescribedObject :: object_ref

record ('p, 's) metric_union =
  mu_Type :: string
  mu_Resource :: "'p resource_metric option"
  mu_ContainerResource :: "'p container_metric option"
  mu_Pods :: "('p, 's) named_metric option"
  mu_Object :: "('p, 's) object_metric option"
  mu_External :: "('p, 's) named_metric option"

type_synonym ('q, 's) metric_spec = "('q metric_target, 's) metric_union"
type_synonym ('q, 's) metric_status = "('q metric_value, 's) metric_union"

record scaling_policy =
  p_Type :: string
  p_Value :: int
  p_PeriodSeconds :: int

record 'q scaling_rules =
  r_StabilizationWindowSeconds :: "int option"
  r_SelectPolicy :: "string option"
  r_Policies :: "scaling_policy list option"   \<comment> \<open>\<^const>\<open>None\<close> is the nil slice\<close>
  r_Tolerance :: "'q option"

record 'q behavior =
  b_ScaleUp :: "'q scaling_rules option"
  b_ScaleDown :: "'q scaling_rules option"

record hpa_condition =
  c_Type :: string
  c_Status :: string
  c_Reason :: string
  c_Message :: string

record ('q, 's) hpa_spec =
  sp_MinReplicas :: "int option"
  sp_MaxReplicas :: int
  sp_Metrics :: "('q, 's) metric_spec list"
  sp_Behavior :: "'q behavior option"

record ('q, 's) hpa_status =
  st_CurrentReplicas :: int
  st_DesiredReplicas :: int
  st_CurrentMetrics :: "('q, 's) metric_status list"
  st_Conditions :: "hpa_condition list"

record ('q, 's) hpa =
  hpa_Namespace :: string
  hpa_Name :: string
  hpa_Spec :: "('q, 's) hpa_spec"
  hpa_Status :: "('q, 's) hpa_status"

subsection \<open>The API's string constants\<close>

abbreviation ResourceMetricSourceType :: string where "ResourceMetricSourceType \<equiv> ''Resource''"
abbreviation ContainerResourceMetricSourceType :: string where
  "ContainerResourceMetricSourceType \<equiv> ''ContainerResource''"
abbreviation PodsMetricSourceType :: string where "PodsMetricSourceType \<equiv> ''Pods''"
abbreviation ObjectMetricSourceType :: string where "ObjectMetricSourceType \<equiv> ''Object''"
abbreviation ExternalMetricSourceType :: string where "ExternalMetricSourceType \<equiv> ''External''"

abbreviation UtilizationMetricType :: string where "UtilizationMetricType \<equiv> ''Utilization''"
abbreviation ValueMetricType :: string where "ValueMetricType \<equiv> ''Value''"
abbreviation AverageValueMetricType :: string where "AverageValueMetricType \<equiv> ''AverageValue''"

abbreviation PodsScalingPolicy :: string where "PodsScalingPolicy \<equiv> ''Pods''"
abbreviation PercentScalingPolicy :: string where "PercentScalingPolicy \<equiv> ''Percent''"
abbreviation MaxChangePolicySelect :: string where "MaxChangePolicySelect \<equiv> ''Max''"
abbreviation MinChangePolicySelect :: string where "MinChangePolicySelect \<equiv> ''Min''"
abbreviation DisabledPolicySelect :: string where "DisabledPolicySelect \<equiv> ''Disabled''"

abbreviation ConditionTrue :: string where "ConditionTrue \<equiv> ''True''"
abbreviation ConditionFalse :: string where "ConditionFalse \<equiv> ''False''"
abbreviation ScaledToZero :: string where "ScaledToZero \<equiv> ''ScaledToZero''"

subsection \<open>Assignments to fields of the object\<close>

definition set_MinReplicas :: "int option \<Rightarrow> ('q, 's) hpa \<Rightarrow> ('q, 's) hpa" where
  "set_MinReplicas v h = h\<lparr>hpa_Spec := (hpa_Spec h)\<lparr>sp_MinReplicas := v\<rparr>\<rparr>"

definition set_MaxReplicas :: "int \<Rightarrow> ('q, 's) hpa \<Rightarrow> ('q, 's) hpa" where
  "set_MaxReplicas v h = h\<lparr>hpa_Spec := (hpa_Spec h)\<lparr>sp_MaxReplicas := v\<rparr>\<rparr>"

definition set_Metrics :: "('q, 's) metric_spec list \<Rightarrow> ('q, 's) hpa \<Rightarrow> ('q, 's) hpa" where
  "set_Metrics ms h = h\<lparr>hpa_Spec := (hpa_Spec h)\<lparr>sp_Metrics := ms\<rparr>\<rparr>"

definition set_Behavior :: "'q behavior option \<Rightarrow> ('q, 's) hpa \<Rightarrow> ('q, 's) hpa" where
  "set_Behavior b h = h\<lparr>hpa_Spec := (hpa_Spec h)\<lparr>sp_Behavior := b\<rparr>\<rparr>"

definition set_DesiredReplicas :: "int \<Rightarrow> ('q, 's) hpa \<Rightarrow> ('q, 's) hpa" where
  "set_DesiredReplicas d h = h\<lparr>hpa_Status := (hpa_Status h)\<lparr>st_DesiredReplicas := d\<rparr>\<rparr>"

definition set_CurrentMetrics :: "('q, 's) metric_status list \<Rightarrow> ('q, 's) hpa \<Rightarrow> ('q, 's) hpa" where
  "set_CurrentMetrics ms h = h\<lparr>hpa_Status := (hpa_Status h)\<lparr>st_CurrentMetrics := ms\<rparr>\<rparr>"

definition set_Conditions :: "hpa_condition list \<Rightarrow> ('q, 's) hpa \<Rightarrow> ('q, 's) hpa" where
  "set_Conditions cs h = h\<lparr>hpa_Status := (hpa_Status h)\<lparr>st_Conditions := cs\<rparr>\<rparr>"

abbreviation minReplicasOf :: "('q, 's) hpa \<Rightarrow> int option" where
  "minReplicasOf h \<equiv> sp_MinReplicas (hpa_Spec h)"
abbreviation maxReplicasOf :: "('q, 's) hpa \<Rightarrow> int" where
  "maxReplicasOf h \<equiv> sp_MaxReplicas (hpa_Spec h)"
abbreviation metricsOf :: "('q, 's) hpa \<Rightarrow> ('q, 's) metric_spec list" where
  "metricsOf h \<equiv> sp_Metrics (hpa_Spec h)"
abbreviation behaviorOf :: "('q, 's) hpa \<Rightarrow> 'q behavior option" where
  "behaviorOf h \<equiv> sp_Behavior (hpa_Spec h)"
abbreviation currentOf :: "('q, 's) hpa \<Rightarrow> int" where
  "currentOf h \<equiv> st_CurrentReplicas (hpa_Status h)"
abbreviation desiredOf :: "('q, 's) hpa \<Rightarrow> int" where
  "desiredOf h \<equiv> st_DesiredReplicas (hpa_Status h)"
abbreviation currentMetricsOf :: "('q, 's) hpa \<Rightarrow> ('q, 's) metric_status list" where
  "currentMetricsOf h \<equiv> st_CurrentMetrics (hpa_Status h)"
abbreviation conditionsOf :: "('q, 's) hpa \<Rightarrow> hpa_condition list" where
  "conditionsOf h \<equiv> st_Conditions (hpa_Status h)"

lemmas hpa_setters = set_MinReplicas_def set_MaxReplicas_def set_Metrics_def set_Behavior_def
  set_DesiredReplicas_def set_CurrentMetrics_def set_Conditions_def

lemma hpa_getters_of_setters [simp]:
  "hpa_Spec (set_DesiredReplicas d h) = hpa_Spec h"
  "hpa_Spec (set_CurrentMetrics ms h) = hpa_Spec h"
  "hpa_Spec (set_Conditions cs h) = hpa_Spec h"
  "hpa_Status (set_MinReplicas v h) = hpa_Status h"
  "hpa_Status (set_MaxReplicas w h) = hpa_Status h"
  "hpa_Status (set_Metrics sm h) = hpa_Status h"
  "hpa_Status (set_Behavior b h) = hpa_Status h"
  "currentOf (set_DesiredReplicas d h) = currentOf h"
  "currentOf (set_CurrentMetrics ms h) = currentOf h"
  "currentOf (set_Conditions cs h) = currentOf h"
  "desiredOf (set_DesiredReplicas d h) = d"
  "desiredOf (set_CurrentMetrics ms h) = desiredOf h"
  "desiredOf (set_Conditions cs h) = desiredOf h"
  "currentMetricsOf (set_CurrentMetrics ms h) = ms"
  "currentMetricsOf (set_DesiredReplicas d h) = currentMetricsOf h"
  "currentMetricsOf (set_Conditions cs h) = currentMetricsOf h"
  "conditionsOf (set_Conditions cs h) = cs"
  "conditionsOf (set_DesiredReplicas d h) = conditionsOf h"
  "conditionsOf (set_CurrentMetrics ms h) = conditionsOf h"
  "minReplicasOf (set_MinReplicas v h) = v"
  "maxReplicasOf (set_MaxReplicas w h) = w"
  "metricsOf (set_Metrics sm h) = sm"
  "behaviorOf (set_Behavior b h) = b"
  "maxReplicasOf (set_MinReplicas v h) = maxReplicasOf h"
  "minReplicasOf (set_MaxReplicas w h) = minReplicasOf h"
  "minReplicasOf (set_Behavior b h) = minReplicasOf h"
  "maxReplicasOf (set_Behavior b h) = maxReplicasOf h"
  "minReplicasOf (set_Metrics sm h) = minReplicasOf h"
  "maxReplicasOf (set_Metrics sm h) = maxReplicasOf h"
  "metricsOf (set_MinReplicas v h) = metricsOf h"
  "metricsOf (set_MaxReplicas w h) = metricsOf h"
  "metricsOf (set_Behavior b h) = metricsOf h"
  by (simp_all add: hpa_setters)

subsection \<open>Errors\<close>

text \<open>
  The sentinel errors of \<open>pkg/hpa/internal/errs/errs.go\<close> and
  \<open>pkg/hpa/simulate\<close>. An error value is the sentinels \<open>errors.Is\<close> finds in its chain and its
  message.
\<close>

datatype sentinel =
  ErrNilHPA
| ErrNilReport
| ErrMetricNotFound
| ErrMetricAmbiguous
| ErrUnsupportedSimulationPath
| ErrInvalidSimulationValue
| ErrUnsupportedSimulationSemantics
| ErrDependencyMissing
| RuntimePanic  \<comment> \<open>a nil-pointer panic of the code, which no caller recovers\<close>

record go_error =
  err_is :: "sentinel list"
  err_msg :: string

fun sentinel_text :: "sentinel \<Rightarrow> string" where
  "sentinel_text ErrNilHPA = ''HPA must not be nil''"
| "sentinel_text ErrNilReport = ''report is nil''"
| "sentinel_text ErrMetricNotFound = ''metric not found in HPA spec''"
| "sentinel_text ErrMetricAmbiguous = ''metric name is ambiguous''"
| "sentinel_text ErrUnsupportedSimulationPath = ''unsupported path''"
| "sentinel_text ErrInvalidSimulationValue = ''invalid simulation value''"
| "sentinel_text ErrUnsupportedSimulationSemantics = ''simulation requires unavailable controller history''"
| "sentinel_text ErrDependencyMissing = ''simulate: dependency not registered''"
| "sentinel_text RuntimePanic = ''runtime error: invalid memory address or nil pointer dereference''"

text \<open>The sentinel itself, \<open>fmt.Errorf("%w" ^ rest, sentinel)\<close>, a plain error, and \<open>fmt.Errorf(prefix ^ "%w", err)\<close>.\<close>

definition sentinel_err :: "sentinel \<Rightarrow> go_error" where
  "sentinel_err s = \<lparr>err_is = [s], err_msg = sentinel_text s\<rparr>"

definition errorf_is :: "sentinel \<Rightarrow> string \<Rightarrow> go_error" where
  "errorf_is s rest = \<lparr>err_is = [s], err_msg = sentinel_text s @ rest\<rparr>"

definition plain_err :: "string \<Rightarrow> go_error" where
  "plain_err m = \<lparr>err_is = [], err_msg = m\<rparr>"

text \<open>A panic is not an error value: no \<open>fmt.Errorf\<close> wraps it.\<close>

definition wrap_err :: "string \<Rightarrow> go_error \<Rightarrow> go_error" where
  "wrap_err prefix e =
     (if RuntimePanic \<in> set (err_is e) then e else \<lparr>err_is = err_is e, err_msg = prefix @ err_msg e\<rparr>)"

definition err_Is :: "go_error \<Rightarrow> sentinel \<Rightarrow> bool" where
  "err_Is e s \<longleftrightarrow> s \<in> set (err_is e)"

lemma err_Is_simps [simp]:
  "err_Is (sentinel_err s) t \<longleftrightarrow> t = s"
  "err_Is (errorf_is s m) t \<longleftrightarrow> t = s"
  "err_Is (wrap_err m e) t \<longleftrightarrow> err_Is e t"
  "\<not> err_Is (plain_err m) t"
  by (auto simp: err_Is_def sentinel_err_def errorf_is_def wrap_err_def plain_err_def)

text \<open>The error texts of \<open>strconv\<close>.\<close>

definition strconv_err :: "string \<Rightarrow> string \<Rightarrow> parse_error \<Rightarrow> go_error" where
  "strconv_err fn s e = plain_err (''strconv.'' @ fn @ '': parsing '' @ go_quote s @
     (case e of ErrSyntax \<Rightarrow> '': invalid syntax'' | ErrRange \<Rightarrow> '': value out of range''))"

subsection \<open>A concrete library for evaluation\<close>

text \<open>Quantities are whole numbers and selectors their canonical strings; the witnesses use it.\<close>

definition int_lib :: "(int, string) k8s_lib" where
  "int_lib =
     \<lparr>q_float = f_of_int, q_isZero = (\<lambda>q. q = 0), q_sign = sgn, q_cmp = (\<lambda>a b. sgn (a - b)),
      q_string = show_int, q_milli = (\<lambda>q. 1000 * q), q_format = (\<lambda>q. ''DecimalSI''),
      q_new_milli = (\<lambda>m f. (m + 999) div 1000),
      q_parse = (\<lambda>s. case parse_int_base10 min_int64 max_int64 s of
                   Inl _ \<Rightarrow> Inl ''quantities must match the regular expression'' | Inr n \<Rightarrow> Inr n),
      sel_parse = (\<lambda>s. Inr (s = [], s)), sel_labels = (\<lambda>s. s)\<rparr>"

end
