(* ===== verification/MetricIdentity.thy ===== *)
theory MetricIdentity
  imports KubeApi
begin

section \<open>Canonical metric identity\<close>

text \<open>
  \<open>pkg/hpa/internal/metricidentity/metricidentity.go\<close>: the identity of a metric of the spec
  or the status (type, name, container, canonical selector, described object) and the
  matching of one against the other. Where the code returns a partly filled descriptor
  beside an error, no caller reads it; the error branch carries the error alone.
\<close>

record metric_id =
  id_Type :: string
  id_Name :: string
  id_Container :: string
  id_Selector :: string
  id_DescribedObject :: string
  id_DescribedAPIVersion :: string

record ('q, 's) metric_descriptor =
  d_ID :: metric_id
  d_Target :: "'q metric_target option"
  d_Current :: "'q metric_value option"
  d_Selector :: "'s option"

definition id_of_type :: "string \<Rightarrow> metric_id" where
  "id_of_type t = \<lparr>id_Type = t, id_Name = [], id_Container = [], id_Selector = [],
     id_DescribedObject = [], id_DescribedAPIVersion = []\<rparr>"

definition CanonicalMetricSelector :: "('q, 's) k8s_lib \<Rightarrow> 's option \<Rightarrow> go_error + string" where
  "CanonicalMetricSelector K sel = (case sel of
     None \<Rightarrow> Inr []
   | Some s \<Rightarrow> (case sel_parse K s of
       Inl e \<Rightarrow> Inl (plain_err (''invalid metric selector: '' @ e))
     | Inr (isEmpty, text) \<Rightarrow> if isEmpty then Inr [] else Inr text))"

definition MetricDescriptorFromSpec ::
    "('q, 's) k8s_lib \<Rightarrow> ('q, 's) metric_spec \<Rightarrow> go_error + ('q, 's) metric_descriptor" where
  "MetricDescriptorFromSpec K spec =
     (let id = id_of_type (mu_Type spec) in
      if mu_Type spec = ResourceMetricSourceType then
        (case mu_Resource spec of
           None \<Rightarrow> Inl (plain_err ''resource metric source is nil'')
         | Some r \<Rightarrow> Inr \<lparr>d_ID = id\<lparr>id_Name := rm_Name r\<rparr>, d_Target = Some (rm_Payload r),
             d_Current = None, d_Selector = None\<rparr>)
      else if mu_Type spec = ContainerResourceMetricSourceType then
        (case mu_ContainerResource spec of
           None \<Rightarrow> Inl (plain_err ''container resource metric source is nil'')
         | Some c \<Rightarrow> Inr \<lparr>d_ID = id\<lparr>id_Name := cm_Name c, id_Container := cm_Container c\<rparr>,
             d_Target = Some (cm_Payload c), d_Current = None, d_Selector = None\<rparr>)
      else if mu_Type spec = PodsMetricSourceType then
        (case mu_Pods spec of
           None \<Rightarrow> Inl (plain_err ''pods metric source is nil'')
         | Some m \<Rightarrow> (case CanonicalMetricSelector K (mi_Selector (nm_Metric m)) of
             Inl e \<Rightarrow> Inl e
           | Inr sel \<Rightarrow> Inr \<lparr>d_ID = id\<lparr>id_Name := mi_Name (nm_Metric m), id_Selector := sel\<rparr>,
               d_Target = Some (nm_Payload m), d_Current = None, d_Selector = mi_Selector (nm_Metric m)\<rparr>))
      else if mu_Type spec = ExternalMetricSourceType then
        (case mu_External spec of
           None \<Rightarrow> Inl (plain_err ''external metric source is nil'')
         | Some m \<Rightarrow> (case CanonicalMetricSelector K (mi_Selector (nm_Metric m)) of
             Inl e \<Rightarrow> Inl e
           | Inr sel \<Rightarrow> Inr \<lparr>d_ID = id\<lparr>id_Name := mi_Name (nm_Metric m), id_Selector := sel\<rparr>,
               d_Target = Some (nm_Payload m), d_Current = None, d_Selector = mi_Selector (nm_Metric m)\<rparr>))
      else if mu_Type spec = ObjectMetricSourceType then
        (case mu_Object spec of
           None \<Rightarrow> Inl (plain_err ''object metric source is nil'')
         | Some m \<Rightarrow> (case CanonicalMetricSelector K (mi_Selector (om_Metric m)) of
             Inl e \<Rightarrow> Inl e
           | Inr sel \<Rightarrow> Inr \<lparr>d_ID = id\<lparr>id_Name := mi_Name (om_Metric m), id_Selector := sel,
                 id_DescribedObject := or_Kind (om_DescribedObject m) @ ''/'' @ or_Name (om_DescribedObject m),
                 id_DescribedAPIVersion := or_APIVersion (om_DescribedObject m)\<rparr>,
               d_Target = Some (om_Payload m), d_Current = None, d_Selector = mi_Selector (om_Metric m)\<rparr>))
      else Inl (plain_err (''unsupported metric source type '' @ go_quote (mu_Type spec))))"

definition MetricIDFromSpec :: "('q, 's) k8s_lib \<Rightarrow> ('q, 's) metric_spec \<Rightarrow> go_error + metric_id" where
  "MetricIDFromSpec K spec = map_sum id d_ID (MetricDescriptorFromSpec K spec)"

definition MetricDescriptorFromStatus ::
    "('q, 's) k8s_lib \<Rightarrow> ('q, 's) metric_status \<Rightarrow> go_error + ('q, 's) metric_descriptor" where
  "MetricDescriptorFromStatus K st =
     (let id = id_of_type (mu_Type st) in
      if mu_Type st = ResourceMetricSourceType then
        (case mu_Resource st of
           None \<Rightarrow> Inl (plain_err ''resource metric status is nil'')
         | Some r \<Rightarrow> Inr \<lparr>d_ID = id\<lparr>id_Name := rm_Name r\<rparr>, d_Target = None,
             d_Current = Some (rm_Payload r), d_Selector = None\<rparr>)
      else if mu_Type st = ContainerResourceMetricSourceType then
        (case mu_ContainerResource st of
           None \<Rightarrow> Inl (plain_err ''container resource metric status is nil'')
         | Some c \<Rightarrow> Inr \<lparr>d_ID = id\<lparr>id_Name := cm_Name c, id_Container := cm_Container c\<rparr>,
             d_Target = None, d_Current = Some (cm_Payload c), d_Selector = None\<rparr>)
      else if mu_Type st = PodsMetricSourceType then
        (case mu_Pods st of
           None \<Rightarrow> Inl (plain_err ''pods metric status is nil'')
         | Some m \<Rightarrow> (case CanonicalMetricSelector K (mi_Selector (nm_Metric m)) of
             Inl e \<Rightarrow> Inl e
           | Inr sel \<Rightarrow> Inr \<lparr>d_ID = id\<lparr>id_Name := mi_Name (nm_Metric m), id_Selector := sel\<rparr>,
               d_Target = None, d_Current = Some (nm_Payload m), d_Selector = mi_Selector (nm_Metric m)\<rparr>))
      else if mu_Type st = ExternalMetricSourceType then
        (case mu_External st of
           None \<Rightarrow> Inl (plain_err ''external metric status is nil'')
         | Some m \<Rightarrow> (case CanonicalMetricSelector K (mi_Selector (nm_Metric m)) of
             Inl e \<Rightarrow> Inl e
           | Inr sel \<Rightarrow> Inr \<lparr>d_ID = id\<lparr>id_Name := mi_Name (nm_Metric m), id_Selector := sel\<rparr>,
               d_Target = None, d_Current = Some (nm_Payload m), d_Selector = mi_Selector (nm_Metric m)\<rparr>))
      else if mu_Type st = ObjectMetricSourceType then
        (case mu_Object st of
           None \<Rightarrow> Inl (plain_err ''object metric status is nil'')
         | Some m \<Rightarrow> (case CanonicalMetricSelector K (mi_Selector (om_Metric m)) of
             Inl e \<Rightarrow> Inl e
           | Inr sel \<Rightarrow> Inr \<lparr>d_ID = id\<lparr>id_Name := mi_Name (om_Metric m), id_Selector := sel,
                 id_DescribedObject := or_Kind (om_DescribedObject m) @ ''/'' @ or_Name (om_DescribedObject m),
                 id_DescribedAPIVersion := or_APIVersion (om_DescribedObject m)\<rparr>,
               d_Target = None, d_Current = Some (om_Payload m), d_Selector = mi_Selector (om_Metric m)\<rparr>))
      else Inl (plain_err (''unsupported metric status type '' @ go_quote (mu_Type st))))"

definition MetricIDFromStatus :: "('q, 's) k8s_lib \<Rightarrow> ('q, 's) metric_status \<Rightarrow> go_error + metric_id" where
  "MetricIDFromStatus K st = map_sum id d_ID (MetricDescriptorFromStatus K st)"

definition IdentityMatches :: "('q, 's) k8s_lib \<Rightarrow> ('q, 's) metric_spec \<Rightarrow> ('q, 's) metric_status \<Rightarrow> bool" where
  "IdentityMatches K spec cur = (case MetricIDFromSpec K spec of
     Inl _ \<Rightarrow> False
   | Inr a \<Rightarrow> (case MetricIDFromStatus K cur of Inl _ \<Rightarrow> False | Inr b \<Rightarrow> a = b))"

definition CurrentMetricValueStatus :: "('q, 's) k8s_lib \<Rightarrow> ('q, 's) metric_status \<Rightarrow> 'q metric_value option" where
  "CurrentMetricValueStatus K st = (case MetricDescriptorFromStatus K st of
     Inl _ \<Rightarrow> None
   | Inr d \<Rightarrow> d_Current d)"

fun first_matching_target ::
    "('q, 's) k8s_lib \<Rightarrow> ('q, 's) metric_spec list \<Rightarrow> ('q, 's) metric_status \<Rightarrow> 'q metric_target option" where
  "first_matching_target K [] cur = None"
| "first_matching_target K (spec # specs) cur =
     (if IdentityMatches K spec cur then
        (case MetricDescriptorFromSpec K spec of
           Inr d \<Rightarrow> (case d_Target d of
               Some t \<Rightarrow> Some t
             | None \<Rightarrow> first_matching_target K specs cur)
         | Inl _ \<Rightarrow> first_matching_target K specs cur)
      else first_matching_target K specs cur)"

definition MatchingTarget :: "('q, 's) k8s_lib \<Rightarrow> ('q, 's) hpa \<Rightarrow> ('q, 's) metric_status \<Rightarrow> 'q metric_target option" where
  "MatchingTarget K h cur = first_matching_target K (metricsOf h) cur"

definition HasValueForTarget :: "'q metric_value \<Rightarrow> string \<Rightarrow> bool" where
  "HasValueForTarget v targetType =
     (if targetType = UtilizationMetricType then mv_AverageUtilization v \<noteq> None
      else if targetType = AverageValueMetricType then mv_AverageValue v \<noteq> None
      else if targetType = ValueMetricType then mv_Value v \<noteq> None
      else False)"

subsection \<open>Facts about identities\<close>

lemmas descriptor_defs = MetricDescriptorFromSpec_def MetricDescriptorFromStatus_def

lemma spec_descriptor_target:
  "MetricDescriptorFromSpec K spec = Inr d \<Longrightarrow> d_Target d \<noteq> None \<and> d_Current d = None"
  by (auto simp: MetricDescriptorFromSpec_def Let_def split: if_splits option.splits sum.splits)

lemma status_descriptor_current:
  "MetricDescriptorFromStatus K st = Inr d \<Longrightarrow> d_Current d \<noteq> None \<and> d_Target d = None"
  by (auto simp: MetricDescriptorFromStatus_def Let_def split: if_splits option.splits sum.splits)

lemma spec_descriptor_type:
  "MetricDescriptorFromSpec K spec = Inr d \<Longrightarrow> id_Type (d_ID d) = mu_Type spec"
  by (auto simp: MetricDescriptorFromSpec_def id_of_type_def Let_def split: if_splits option.splits sum.splits)

lemma status_descriptor_type:
  "MetricDescriptorFromStatus K st = Inr d \<Longrightarrow> id_Type (d_ID d) = mu_Type st"
  by (auto simp: MetricDescriptorFromStatus_def id_of_type_def Let_def split: if_splits option.splits sum.splits)

lemma MetricIDFromSpec_Inr:
  "MetricIDFromSpec K spec = Inr i \<longleftrightarrow> (\<exists>d. MetricDescriptorFromSpec K spec = Inr d \<and> d_ID d = i)"
  by (cases "MetricDescriptorFromSpec K spec") (auto simp: MetricIDFromSpec_def)

lemma MetricIDFromStatus_Inr:
  "MetricIDFromStatus K st = Inr i \<longleftrightarrow> (\<exists>d. MetricDescriptorFromStatus K st = Inr d \<and> d_ID d = i)"
  by (cases "MetricDescriptorFromStatus K st") (auto simp: MetricIDFromStatus_def)

lemma IdentityMatches_iff:
  "IdentityMatches K spec cur \<longleftrightarrow>
     (\<exists>i. MetricIDFromSpec K spec = Inr i \<and> MetricIDFromStatus K cur = Inr i)"
  by (auto simp: IdentityMatches_def split: sum.splits)

lemma IdentityMatches_type: "IdentityMatches K spec cur \<Longrightarrow> mu_Type spec = mu_Type cur"
  unfolding IdentityMatches_iff MetricIDFromSpec_Inr MetricIDFromStatus_Inr
  using spec_descriptor_type status_descriptor_type by metis

text \<open>The first matching spec entry decides the target.\<close>

lemma first_matching_target_eq:
  "first_matching_target K specs cur =
     (case find (\<lambda>s. IdentityMatches K s cur) specs of
        None \<Rightarrow> None
      | Some s \<Rightarrow> (case MetricDescriptorFromSpec K s of Inl _ \<Rightarrow> None | Inr d \<Rightarrow> d_Target d))"
proof (induction specs)
  case Nil
  then show ?case by simp
next
  case (Cons s ss)
  show ?case
  proof (cases "IdentityMatches K s cur")
    case True
    then obtain d where "MetricDescriptorFromSpec K s = Inr d"
      by (auto simp: IdentityMatches_iff MetricIDFromSpec_Inr)
    with True spec_descriptor_target show ?thesis by fastforce
  next
    case False
    with Cons show ?thesis by simp
  qed
qed

end
