(* ===== verification/Metrics.thy ===== *)
theory Metrics
  imports MetricIdentity
begin

section \<open>Metric ratios, lookups and formatting\<close>

text \<open>
  \<open>pkg/hpa/metric_utils.go\<close>, \<open>pkg/hpa/metrics_handler.go\<close>, the five handlers
  \<open>pkg/hpa/metric_handler_*.go\<close> and \<open>pkg/hpa/core/metric.go\<close>: what a metric of the status
  says about the load against the target of the spec. The handler registry is the datatype
  \<open>handler\<close>; a method of the interface is a function that takes the handler.
\<close>

subsection \<open>Formatting values and targets\<close>

record metric =
  m_Type :: string
  m_Name :: string
  m_Selector :: string
  m_Object :: string
  m_Current :: string
  m_Target :: string
  m_Ratio :: "f64 option"
  m_Note :: string
  m_Text :: string
  m_NumericValue :: "f64 option"
  m_NumericTarget :: "f64 option"
  m_Unit :: string

definition metric_text :: "string \<Rightarrow> string \<Rightarrow> metric" where
  "metric_text t txt = \<lparr>m_Type = t, m_Name = [], m_Selector = [], m_Object = [], m_Current = [],
     m_Target = [], m_Ratio = None, m_Note = [], m_Text = txt, m_NumericValue = None,
     m_NumericTarget = None, m_Unit = []\<rparr>"

definition HasReading :: "metric \<Rightarrow> bool" where
  "HasReading m \<longleftrightarrow> m_NumericValue m \<noteq> None"

definition FormatMetricTarget :: "('q, 's) k8s_lib \<Rightarrow> 'q metric_target \<Rightarrow> string" where
  "FormatMetricTarget K t =
     (if mt_Type t = UtilizationMetricType then
        (case mt_AverageUtilization t of Some u \<Rightarrow> show_int u @ ''%'' | None \<Rightarrow> ''<unknown>'')
      else if mt_Type t = AverageValueMetricType then
        (case mt_AverageValue t of Some q \<Rightarrow> q_string K q | None \<Rightarrow> ''<unknown>'')
      else if mt_Type t = ValueMetricType then
        (case mt_Value t of Some q \<Rightarrow> q_string K q | None \<Rightarrow> ''<unknown>'')
      else ''<unknown>'')"

definition FormatMetricSelector :: "('q, 's) k8s_lib \<Rightarrow> 's option \<Rightarrow> string" where
  "FormatMetricSelector K sel = (case sel of
     None \<Rightarrow> []
   | Some s \<Rightarrow> (case sel_parse K s of
       Inl _ \<Rightarrow> sel_labels K s
     | Inr (isEmpty, text) \<Rightarrow> if isEmpty then [] else text))"

definition FormatMetricValue :: "('q, 's) k8s_lib \<Rightarrow> int option \<Rightarrow> 'q option \<Rightarrow> string" where
  "FormatMetricValue K utilization averageValue = (case utilization of
     Some u \<Rightarrow> show_int u @ ''%''
   | None \<Rightarrow> (case averageValue of Some q \<Rightarrow> q_string K q | None \<Rightarrow> ''<unknown>''))"

definition FormatMetricValueStatus :: "('q, 's) k8s_lib \<Rightarrow> 'q metric_value \<Rightarrow> string" where
  "FormatMetricValueStatus K v = (case mv_AverageUtilization v of
     Some u \<Rightarrow> show_int u @ ''%''
   | None \<Rightarrow> (case mv_AverageValue v of
       Some q \<Rightarrow> q_string K q
     | None \<Rightarrow> (case mv_Value v of Some q \<Rightarrow> q_string K q | None \<Rightarrow> ''<unknown>'')))"

subsection \<open>Ratios\<close>

definition utilizationRatio :: "int option \<Rightarrow> int option \<Rightarrow> f64 option" where
  "utilizationRatio utilization target = (case (utilization, target) of
     (Some u, Some t) \<Rightarrow> if t = 0 then None else Some (f_div (f_of_int u) (f_of_int t))
   | _ \<Rightarrow> None)"

definition quantityRatio :: "('q, 's) k8s_lib \<Rightarrow> 'q option \<Rightarrow> 'q option \<Rightarrow> f64 option" where
  "quantityRatio K current target = (case (current, target) of
     (Some c, Some t) \<Rightarrow> if q_isZero K t then None else Some (f_div (q_float K c) (q_float K t))
   | _ \<Rightarrow> None)"

definition CompareMetricToTarget :: "int option \<Rightarrow> int option \<Rightarrow> string" where
  "CompareMetricToTarget utilization target = (case (utilization, target) of
     (Some u, Some t) \<Rightarrow>
       if u > t then ''current value is above target''
       else if u < t then ''current value is below target''
       else ''current value equals target''
   | _ \<Rightarrow> [])"

definition CompareQuantityToTarget :: "('q, 's) k8s_lib \<Rightarrow> 'q option \<Rightarrow> 'q option \<Rightarrow> string" where
  "CompareQuantityToTarget K current target = (case (current, target) of
     (Some c, Some t) \<Rightarrow>
       (let cmp = q_cmp K c t in
        if cmp > 0 then ''current value is above target''
        else if cmp < 0 then ''current value is below target''
        else ''current value equals target'')
   | _ \<Rightarrow> [])"

definition calculateRatioAndNote ::
    "('q, 's) k8s_lib \<Rightarrow> 'q metric_value \<Rightarrow> 'q metric_target \<Rightarrow> f64 option \<times> string" where
  "calculateRatioAndNote K cur tgt =
     (if mv_AverageUtilization cur \<noteq> None then
        (utilizationRatio (mv_AverageUtilization cur) (mt_AverageUtilization tgt),
         CompareMetricToTarget (mv_AverageUtilization cur) (mt_AverageUtilization tgt))
      else if mv_AverageValue cur \<noteq> None \<and> mt_AverageValue tgt \<noteq> None then
        (quantityRatio K (mv_AverageValue cur) (mt_AverageValue tgt),
         CompareQuantityToTarget K (mv_AverageValue cur) (mt_AverageValue tgt))
      else if mv_Value cur \<noteq> None \<and> mt_Value tgt \<noteq> None then
        (quantityRatio K (mv_Value cur) (mt_Value tgt),
         CompareQuantityToTarget K (mv_Value cur) (mt_Value tgt))
      else (None, []))"

definition numericReading ::
    "('q, 's) k8s_lib \<Rightarrow> 'q metric_value \<Rightarrow> 'q metric_target \<Rightarrow> f64 option \<times> f64 option \<times> string" where
  "numericReading K cur tgt = (case mv_AverageUtilization cur of
     Some u \<Rightarrow> (Some (f_of_int u), map_option f_of_int (mt_AverageUtilization tgt), ''%'')
   | None \<Rightarrow> (case mv_AverageValue cur of
       Some q \<Rightarrow> (Some (q_float K q), map_option (q_float K) (mt_AverageValue tgt), [])
     | None \<Rightarrow> (case mv_Value cur of
         Some q \<Rightarrow> (Some (q_float K q), map_option (q_float K) (mt_Value tgt), [])
       | None \<Rightarrow> (None, None, []))))"

subsection \<open>Lookup of targets and current values by identity\<close>

definition zero_target :: "'q metric_target" where
  "zero_target = \<lparr>mt_Type = [], mt_Value = None, mt_AverageValue = None, mt_AverageUtilization = None\<rparr>"

fun find_target_in :: "('q, 's) k8s_lib \<Rightarrow> ('q, 's) metric_spec list \<Rightarrow> metric_id \<Rightarrow> 'q metric_target" where
  "find_target_in K [] i = zero_target"
| "find_target_in K (spec # specs) i = (case MetricDescriptorFromSpec K spec of
     Inl _ \<Rightarrow> find_target_in K specs i
   | Inr d \<Rightarrow> if d_ID d \<noteq> i then find_target_in K specs i
              else (case d_Target d of None \<Rightarrow> find_target_in K specs i | Some t \<Rightarrow> t))"

definition findTargetSpec :: "('q, 's) k8s_lib \<Rightarrow> ('q, 's) hpa \<Rightarrow> metric_id \<Rightarrow> 'q metric_target" where
  "findTargetSpec K h i = find_target_in K (metricsOf h) i"

definition metricIDWithSelector :: "('q, 's) k8s_lib \<Rightarrow> string \<Rightarrow> string \<Rightarrow> 's option \<Rightarrow> metric_id" where
  "metricIDWithSelector K t name sel =
     (let i = (id_of_type t)\<lparr>id_Name := name\<rparr> in
      case CanonicalMetricSelector K sel of Inl _ \<Rightarrow> i | Inr c \<Rightarrow> i\<lparr>id_Selector := c\<rparr>)"

definition FindResourceTargetSpec :: "('q, 's) k8s_lib \<Rightarrow> ('q, 's) hpa \<Rightarrow> string \<Rightarrow> 'q metric_target" where
  "FindResourceTargetSpec K h name =
     findTargetSpec K h ((id_of_type ResourceMetricSourceType)\<lparr>id_Name := name\<rparr>)"

definition FindContainerResourceTargetSpec ::
    "('q, 's) k8s_lib \<Rightarrow> ('q, 's) hpa \<Rightarrow> string \<Rightarrow> string \<Rightarrow> 'q metric_target" where
  "FindContainerResourceTargetSpec K h name container =
     findTargetSpec K h ((id_of_type ContainerResourceMetricSourceType)
       \<lparr>id_Name := name, id_Container := container\<rparr>)"

definition FindPodsTargetSpec :: "('q, 's) k8s_lib \<Rightarrow> ('q, 's) hpa \<Rightarrow> string \<Rightarrow> 's option \<Rightarrow> 'q metric_target" where
  "FindPodsTargetSpec K h name sel =
     findTargetSpec K h (metricIDWithSelector K PodsMetricSourceType name sel)"

definition object_metric_id ::
    "('q, 's) k8s_lib \<Rightarrow> string \<Rightarrow> 's option \<Rightarrow> object_ref \<Rightarrow> metric_id" where
  "object_metric_id K name sel ob =
     (metricIDWithSelector K ObjectMetricSourceType name sel)
       \<lparr>id_DescribedObject := or_Kind ob @ ''/'' @ or_Name ob, id_DescribedAPIVersion := or_APIVersion ob\<rparr>"

definition FindObjectTargetSpec ::
    "('q, 's) k8s_lib \<Rightarrow> ('q, 's) hpa \<Rightarrow> string \<Rightarrow> 's option \<Rightarrow> object_ref \<Rightarrow> 'q metric_target" where
  "FindObjectTargetSpec K h name sel ob = findTargetSpec K h (object_metric_id K name sel ob)"

definition FindExternalTargetSpec :: "('q, 's) k8s_lib \<Rightarrow> ('q, 's) hpa \<Rightarrow> string \<Rightarrow> 's option \<Rightarrow> 'q metric_target" where
  "FindExternalTargetSpec K h name sel =
     findTargetSpec K h (metricIDWithSelector K ExternalMetricSourceType name sel)"

definition FindResourceTarget :: "('q, 's) k8s_lib \<Rightarrow> ('q, 's) hpa \<Rightarrow> string \<Rightarrow> string" where
  "FindResourceTarget K h name = FormatMetricTarget K (FindResourceTargetSpec K h name)"

definition FindContainerResourceTarget :: "('q, 's) k8s_lib \<Rightarrow> ('q, 's) hpa \<Rightarrow> string \<Rightarrow> string \<Rightarrow> string" where
  "FindContainerResourceTarget K h name container =
     FormatMetricTarget K (FindContainerResourceTargetSpec K h name container)"

definition FindPodsTarget :: "('q, 's) k8s_lib \<Rightarrow> ('q, 's) hpa \<Rightarrow> string \<Rightarrow> 's option \<Rightarrow> string" where
  "FindPodsTarget K h name sel = FormatMetricTarget K (FindPodsTargetSpec K h name sel)"

definition FindObjectTarget :: "('q, 's) k8s_lib \<Rightarrow> ('q, 's) hpa \<Rightarrow> string \<Rightarrow> 's option \<Rightarrow> object_ref \<Rightarrow> string" where
  "FindObjectTarget K h name sel ob = FormatMetricTarget K (FindObjectTargetSpec K h name sel ob)"

definition FindExternalTarget :: "('q, 's) k8s_lib \<Rightarrow> ('q, 's) hpa \<Rightarrow> string \<Rightarrow> 's option \<Rightarrow> string" where
  "FindExternalTarget K h name sel = FormatMetricTarget K (FindExternalTargetSpec K h name sel)"

fun current_metric_in ::
    "('q, 's) k8s_lib \<Rightarrow> ('q, 's) metric_status list \<Rightarrow> metric_id \<Rightarrow> ('q, 's) metric_status option" where
  "current_metric_in K [] i = None"
| "current_metric_in K (m # ms) i = (case MetricIDFromStatus K m of
     Inr j \<Rightarrow> if j = i then Some m else current_metric_in K ms i
   | Inl _ \<Rightarrow> current_metric_in K ms i)"

definition currentMetricByID ::
    "('q, 's) k8s_lib \<Rightarrow> ('q, 's) hpa \<Rightarrow> metric_id \<Rightarrow> ('q, 's) metric_status option" where
  "currentMetricByID K h i = current_metric_in K (currentMetricsOf h) i"

definition currentExternalMetric ::
    "('q, 's) k8s_lib \<Rightarrow> ('q, 's) hpa \<Rightarrow> string \<Rightarrow> 's option \<Rightarrow> ('q, 's) metric_status option" where
  "currentExternalMetric K h name sel =
     currentMetricByID K h (metricIDWithSelector K ExternalMetricSourceType name sel)"

definition hasCurrentExternalMetric :: "('q, 's) k8s_lib \<Rightarrow> ('q, 's) hpa \<Rightarrow> string \<Rightarrow> 's option \<Rightarrow> bool" where
  "hasCurrentExternalMetric K h name sel \<longleftrightarrow> currentExternalMetric K h name sel \<noteq> None"

definition currentObjectMetric ::
    "('q, 's) k8s_lib \<Rightarrow> ('q, 's) hpa \<Rightarrow> string \<Rightarrow> 's option \<Rightarrow> object_ref \<Rightarrow> ('q, 's) metric_status option" where
  "currentObjectMetric K h name sel ob = currentMetricByID K h (object_metric_id K name sel ob)"

definition findMatchingCurrentMetric :: "('q, 's) k8s_lib \<Rightarrow> ('q, 's) metric_spec \<Rightarrow> ('q, 's) metric_status list \<Rightarrow> bool" where
  "findMatchingCurrentMetric K spec currents = list_ex (IdentityMatches K spec) currents"

definition specMetricSelector :: "('q, 's) k8s_lib \<Rightarrow> ('q, 's) metric_spec \<Rightarrow> string" where
  "specMetricSelector K spec = (case MetricDescriptorFromSpec K spec of
     Inl _ \<Rightarrow> []
   | Inr d \<Rightarrow> FormatMetricSelector K (d_Selector d))"

definition selectorSuffix :: "('q, 's) k8s_lib \<Rightarrow> 's option \<Rightarrow> string" where
  "selectorSuffix K sel =
     (let formatted = FormatMetricSelector K sel in
      if formatted = [] then [] else '' selector='' @ go_quote formatted)"

definition appendRatioAndNote :: "string \<Rightarrow> f64 option \<Rightarrow> string \<Rightarrow> string" where
  "appendRatioAndNote text ratio note =
     (let text' = (case ratio of None \<Rightarrow> text | Some r \<Rightarrow> text @ '' ratio='' @ show_fixed 3 r)
      in if note \<noteq> [] then text' @ '' note='' @ go_quote note else text')"

end
