(* ===== verification/MetricHandlers.thy ===== *)
theory MetricHandlers
  imports Metrics
begin

section \<open>The metric handlers\<close>

text \<open>
  The registry of \<open>pkg/hpa/metrics_handler.go\<close> and the handlers of
  \<open>pkg/hpa/metric_handler_resource.go\<close>, \<open>_container.go\<close>, \<open>_pods.go\<close>, \<open>_object.go\<close> and
  \<open>_external.go\<close>. \<open>handlerFor\<close> picks the handler of a source type; each method of the Go
  interface is a function on statuses or specs, dispatched by \<open>metricImpactRatio\<close>,
  \<open>FormatMetricStatus\<close>, \<open>specMetricIdentity\<close>, \<open>buildMetricRemediation\<close> and
  \<open>metricDisplayName\<close>.
\<close>

datatype handler =
  ResourceHandler | ContainerResourceHandler | PodsHandler | ObjectHandler | ExternalHandler | FallbackHandler

definition handlerFor :: "string \<Rightarrow> handler" where
  "handlerFor t =
     (if t = ResourceMetricSourceType then ResourceHandler
      else if t = ContainerResourceMetricSourceType then ContainerResourceHandler
      else if t = PodsMetricSourceType then PodsHandler
      else if t = ObjectMetricSourceType then ObjectHandler
      else if t = ExternalMetricSourceType then ExternalHandler
      else FallbackHandler)"

subsection \<open>ImpactRatio\<close>

definition resource_ImpactRatio ::
    "('q, 's) k8s_lib \<Rightarrow> ('q, 's) hpa \<Rightarrow> ('q, 's) metric_status \<Rightarrow> string \<times> f64 option" where
  "resource_ImpactRatio K h m = (case mu_Resource m of
     None \<Rightarrow> ([], None)
   | Some r \<Rightarrow>
       (let targetSpec = FindResourceTargetSpec K h (rm_Name r)
        in (rm_Name r, fst (calculateRatioAndNote K (rm_Payload r) targetSpec))))"

definition containerResource_ImpactRatio ::
    "('q, 's) k8s_lib \<Rightarrow> ('q, 's) hpa \<Rightarrow> ('q, 's) metric_status \<Rightarrow> string \<times> f64 option" where
  "containerResource_ImpactRatio K h m = (case mu_ContainerResource m of
     None \<Rightarrow> ([], None)
   | Some c \<Rightarrow>
       (let targetSpec = FindContainerResourceTargetSpec K h (cm_Name c) (cm_Container c);
            ratio = utilizationRatio (mv_AverageUtilization (cm_Payload c)) (mt_AverageUtilization targetSpec);
            name = cm_Container c @ ''/'' @ cm_Name c
        in if ratio \<noteq> None then (name, ratio)
           else if mv_AverageValue (cm_Payload c) \<noteq> None \<and> mt_AverageValue targetSpec \<noteq> None then
             (name, quantityRatio K (mv_AverageValue (cm_Payload c)) (mt_AverageValue targetSpec))
           else (name, None)))"

definition pods_ImpactRatio ::
    "('q, 's) k8s_lib \<Rightarrow> ('q, 's) hpa \<Rightarrow> ('q, 's) metric_status \<Rightarrow> string \<times> f64 option" where
  "pods_ImpactRatio K h m = (case mu_Pods m of
     None \<Rightarrow> ([], None)
   | Some p \<Rightarrow>
       (let targetSpec = FindPodsTargetSpec K h (mi_Name (nm_Metric p)) (mi_Selector (nm_Metric p))
        in (mi_Name (nm_Metric p), fst (calculateRatioAndNote K (nm_Payload p) targetSpec))))"

definition object_ImpactRatio ::
    "('q, 's) k8s_lib \<Rightarrow> ('q, 's) hpa \<Rightarrow> ('q, 's) metric_status \<Rightarrow> string \<times> f64 option" where
  "object_ImpactRatio K h m = (case mu_Object m of
     None \<Rightarrow> ([], None)
   | Some ob \<Rightarrow>
       (let targetSpec = FindObjectTargetSpec K h (mi_Name (om_Metric ob)) (mi_Selector (om_Metric ob))
              (om_DescribedObject ob)
        in (mi_Name (om_Metric ob), fst (calculateRatioAndNote K (om_Payload ob) targetSpec))))"

definition external_ImpactRatio ::
    "('q, 's) k8s_lib \<Rightarrow> ('q, 's) hpa \<Rightarrow> ('q, 's) metric_status \<Rightarrow> string \<times> f64 option" where
  "external_ImpactRatio K h m = (case mu_External m of
     None \<Rightarrow> ([], None)
   | Some e \<Rightarrow>
       (let targetSpec = FindExternalTargetSpec K h (mi_Name (nm_Metric e)) (mi_Selector (nm_Metric e))
        in (mi_Name (nm_Metric e), fst (calculateRatioAndNote K (nm_Payload e) targetSpec))))"

fun ImpactRatio ::
    "handler \<Rightarrow> ('q, 's) k8s_lib \<Rightarrow> ('q, 's) hpa \<Rightarrow> ('q, 's) metric_status \<Rightarrow> string \<times> f64 option" where
  "ImpactRatio ResourceHandler K h m = resource_ImpactRatio K h m"
| "ImpactRatio ContainerResourceHandler K h m = containerResource_ImpactRatio K h m"
| "ImpactRatio PodsHandler K h m = pods_ImpactRatio K h m"
| "ImpactRatio ObjectHandler K h m = object_ImpactRatio K h m"
| "ImpactRatio ExternalHandler K h m = external_ImpactRatio K h m"
| "ImpactRatio FallbackHandler K h m = ([], None)"

definition metricImpactRatio ::
    "('q, 's) k8s_lib \<Rightarrow> ('q, 's) hpa \<Rightarrow> ('q, 's) metric_status \<Rightarrow> string \<times> f64 option" where
  "metricImpactRatio K h m = ImpactRatio (handlerFor (mu_Type m)) K h m"

subsection \<open>FormatStatus\<close>

text \<open>The tail the five handlers build: current, target, ratio, note and numeric reading.\<close>

definition resource_FormatStatus ::
    "('q, 's) k8s_lib \<Rightarrow> ('q, 's) hpa \<Rightarrow> ('q, 's) metric_status \<Rightarrow> metric" where
  "resource_FormatStatus K h m = (case mu_Resource m of
     None \<Rightarrow> metric_text ''Resource'' ''Resource metric: <missing status>''
   | Some r \<Rightarrow>
       (let targetSpec = FindResourceTargetSpec K h (rm_Name r);
            target = FormatMetricTarget K targetSpec;
            current = FormatMetricValue K (mv_AverageUtilization (rm_Payload r)) (mv_AverageValue (rm_Payload r));
            (ratio, note) = calculateRatioAndNote K (rm_Payload r) targetSpec;
            (val, numericTarget, unit) = numericReading K (rm_Payload r) targetSpec;
            text = appendRatioAndNote
              (''Resource '' @ rm_Name r @ '' current='' @ current @ '' target='' @ target) ratio note
        in \<lparr>m_Type = ''Resource'', m_Name = rm_Name r, m_Selector = [], m_Object = [],
             m_Current = current, m_Target = target, m_Ratio = ratio, m_Note = note, m_Text = text,
             m_NumericValue = val, m_NumericTarget = numericTarget, m_Unit = unit\<rparr>))"

definition containerResource_FormatStatus ::
    "('q, 's) k8s_lib \<Rightarrow> ('q, 's) hpa \<Rightarrow> ('q, 's) metric_status \<Rightarrow> metric" where
  "containerResource_FormatStatus K h m = (case mu_ContainerResource m of
     None \<Rightarrow> metric_text ''ContainerResource'' ''ContainerResource metric: <missing status>''
   | Some c \<Rightarrow>
       (let targetSpec = FindContainerResourceTargetSpec K h (cm_Name c) (cm_Container c);
            target = FormatMetricTarget K targetSpec;
            current = FormatMetricValueStatus K (cm_Payload c);
            (ratio, note) = calculateRatioAndNote K (cm_Payload c) targetSpec;
            (val, numericTarget, unit) = numericReading K (cm_Payload c) targetSpec;
            name = cm_Container c @ ''/'' @ cm_Name c;
            text = appendRatioAndNote
              (''ContainerResource '' @ name @ '' current='' @ current @ '' target='' @ target) ratio note
        in \<lparr>m_Type = ''ContainerResource'', m_Name = name, m_Selector = [], m_Object = [],
             m_Current = current, m_Target = target, m_Ratio = ratio, m_Note = note, m_Text = text,
             m_NumericValue = val, m_NumericTarget = numericTarget, m_Unit = unit\<rparr>))"

definition with_selector :: "string \<Rightarrow> string \<Rightarrow> string" where
  "with_selector text selector = (if selector \<noteq> [] then text @ '' selector='' @ go_quote selector else text)"

definition pods_FormatStatus ::
    "('q, 's) k8s_lib \<Rightarrow> ('q, 's) hpa \<Rightarrow> ('q, 's) metric_status \<Rightarrow> metric" where
  "pods_FormatStatus K h m = (case mu_Pods m of
     None \<Rightarrow> metric_text ''Pods'' ''Pods metric: <missing status>''
   | Some p \<Rightarrow>
       (let name = mi_Name (nm_Metric p);
            targetSpec = FindPodsTargetSpec K h name (mi_Selector (nm_Metric p));
            target = FormatMetricTarget K targetSpec;
            current = FormatMetricValueStatus K (nm_Payload p);
            (ratio, note) = calculateRatioAndNote K (nm_Payload p) targetSpec;
            (val, numericTarget, unit) = numericReading K (nm_Payload p) targetSpec;
            selector = FormatMetricSelector K (mi_Selector (nm_Metric p));
            text = appendRatioAndNote (with_selector
              (''Pods '' @ name @ '' current='' @ current @ '' target='' @ target) selector) ratio note
        in \<lparr>m_Type = ''Pods'', m_Name = name, m_Selector = selector, m_Object = [],
             m_Current = current, m_Target = target, m_Ratio = ratio, m_Note = note, m_Text = text,
             m_NumericValue = val, m_NumericTarget = numericTarget, m_Unit = unit\<rparr>))"

definition object_FormatStatus ::
    "('q, 's) k8s_lib \<Rightarrow> ('q, 's) hpa \<Rightarrow> ('q, 's) metric_status \<Rightarrow> metric" where
  "object_FormatStatus K h m = (case mu_Object m of
     None \<Rightarrow> metric_text ''Object'' ''Object metric: <missing status>''
   | Some ob \<Rightarrow>
       (let mname = mi_Name (om_Metric ob);
            targetSpec = FindObjectTargetSpec K h mname (mi_Selector (om_Metric ob)) (om_DescribedObject ob);
            target = FormatMetricTarget K targetSpec;
            current = FormatMetricValueStatus K (om_Payload ob);
            (ratio, note) = calculateRatioAndNote K (om_Payload ob) targetSpec;
            (val, numericTarget, unit) = numericReading K (om_Payload ob) targetSpec;
            name = or_Kind (om_DescribedObject ob) @ ''/'' @ or_Name (om_DescribedObject ob);
            selector = FormatMetricSelector K (mi_Selector (om_Metric ob));
            text = appendRatioAndNote (with_selector
              (''Object '' @ name @ '' '' @ mname @ '' current='' @ current @ '' target='' @ target) selector) ratio note
        in \<lparr>m_Type = ''Object'', m_Name = mname, m_Selector = selector, m_Object = name,
             m_Current = current, m_Target = target, m_Ratio = ratio, m_Note = note, m_Text = text,
             m_NumericValue = val, m_NumericTarget = numericTarget, m_Unit = unit\<rparr>))"

definition external_FormatStatus ::
    "('q, 's) k8s_lib \<Rightarrow> ('q, 's) hpa \<Rightarrow> ('q, 's) metric_status \<Rightarrow> metric" where
  "external_FormatStatus K h m = (case mu_External m of
     None \<Rightarrow> metric_text ''External'' ''External metric: <missing status>''
   | Some e \<Rightarrow>
       (let name = mi_Name (nm_Metric e);
            targetSpec = FindExternalTargetSpec K h name (mi_Selector (nm_Metric e));
            target = FormatMetricTarget K targetSpec;
            current = FormatMetricValueStatus K (nm_Payload e);
            (ratio, note) = calculateRatioAndNote K (nm_Payload e) targetSpec;
            (val, numericTarget, unit) = numericReading K (nm_Payload e) targetSpec;
            selector = FormatMetricSelector K (mi_Selector (nm_Metric e));
            text = appendRatioAndNote (with_selector
              (''External '' @ name @ '' current='' @ current @ '' target='' @ target) selector) ratio note
        in \<lparr>m_Type = ''External'', m_Name = name, m_Selector = selector, m_Object = [],
             m_Current = current, m_Target = target, m_Ratio = ratio, m_Note = note, m_Text = text,
             m_NumericValue = val, m_NumericTarget = numericTarget, m_Unit = unit\<rparr>))"

fun FormatStatus :: "handler \<Rightarrow> ('q, 's) k8s_lib \<Rightarrow> ('q, 's) hpa \<Rightarrow> ('q, 's) metric_status \<Rightarrow> metric" where
  "FormatStatus ResourceHandler K h m = resource_FormatStatus K h m"
| "FormatStatus ContainerResourceHandler K h m = containerResource_FormatStatus K h m"
| "FormatStatus PodsHandler K h m = pods_FormatStatus K h m"
| "FormatStatus ObjectHandler K h m = object_FormatStatus K h m"
| "FormatStatus ExternalHandler K h m = external_FormatStatus K h m"
| "FormatStatus FallbackHandler K h m = metric_text (mu_Type m)
     (mu_Type m @ '' metric is present, but this plugin does not know how to format it in detail'')"

definition FormatMetricStatus ::
    "('q, 's) k8s_lib \<Rightarrow> ('q, 's) hpa \<Rightarrow> ('q, 's) metric_status \<Rightarrow> metric" where
  "FormatMetricStatus K h m =
     (if mu_Type m = [] then metric_text [] ''Metric status is present, but details are unavailable''
      else FormatStatus (handlerFor (mu_Type m)) K h m)"

subsection \<open>SpecIdentity, DisplayName and Remediation\<close>

fun SpecIdentity :: "handler \<Rightarrow> ('q, 's) metric_spec \<Rightarrow> string \<times> string" where
  "SpecIdentity ResourceHandler spec = (''Resource'',
     case mu_Resource spec of Some r \<Rightarrow> rm_Name r | None \<Rightarrow> ''<unknown>'')"
| "SpecIdentity ContainerResourceHandler spec = (''ContainerResource'',
     case mu_ContainerResource spec of Some c \<Rightarrow> cm_Container c @ ''/'' @ cm_Name c | None \<Rightarrow> ''<unknown>'')"
| "SpecIdentity PodsHandler spec = (''Pods'',
     case mu_Pods spec of Some p \<Rightarrow> mi_Name (nm_Metric p) | None \<Rightarrow> ''<unknown>'')"
| "SpecIdentity ObjectHandler spec = (''Object'',
     case mu_Object spec of Some p \<Rightarrow> mi_Name (om_Metric p) | None \<Rightarrow> ''<unknown>'')"
| "SpecIdentity ExternalHandler spec = (''External'',
     case mu_External spec of Some p \<Rightarrow> mi_Name (nm_Metric p) | None \<Rightarrow> ''<unknown>'')"
| "SpecIdentity FallbackHandler spec = (mu_Type spec, ''<unknown>'')"

definition specMetricIdentity :: "('q, 's) metric_spec \<Rightarrow> string \<times> string" where
  "specMetricIdentity spec = SpecIdentity (handlerFor (mu_Type spec)) spec"

fun DisplayName :: "handler \<Rightarrow> ('q, 's) metric_status \<Rightarrow> string" where
  "DisplayName ResourceHandler m = (case mu_Resource m of Some r \<Rightarrow> rm_Name r | None \<Rightarrow> ''Resource'')"
| "DisplayName ContainerResourceHandler m = (case mu_ContainerResource m of
     Some c \<Rightarrow> cm_Container c @ ''/'' @ cm_Name c | None \<Rightarrow> ''ContainerResource'')"
| "DisplayName PodsHandler m = (case mu_Pods m of Some p \<Rightarrow> mi_Name (nm_Metric p) | None \<Rightarrow> ''Pods'')"
| "DisplayName ObjectHandler m = (case mu_Object m of Some p \<Rightarrow> mi_Name (om_Metric p) | None \<Rightarrow> ''Object'')"
| "DisplayName ExternalHandler m = (case mu_External m of Some p \<Rightarrow> mi_Name (nm_Metric p) | None \<Rightarrow> ''External'')"
| "DisplayName FallbackHandler m = mu_Type m"

definition metricDisplayName :: "('q, 's) metric_status \<Rightarrow> string" where
  "metricDisplayName m = DisplayName (handlerFor (mu_Type m)) m"

definition default_remediation :: string where
  "default_remediation =
     ''Verify the metrics adapter for this metric type is installed and functioning correctly.''"

fun Remediation :: "handler \<Rightarrow> ('q, 's) metric_spec \<Rightarrow> string" where
  "Remediation ResourceHandler spec = (case mu_Resource spec of
     None \<Rightarrow> []
   | Some r \<Rightarrow> ''Resource metric '' @ go_quote (rm_Name r) @
       '' is missing. Verify that the metrics-server is running and can scrape kubelet metrics: kubectl top pods -n <namespace>. '' @
       ''Check metrics-server deployment: kubectl get deploy -n kube-system -l k8s-app=metrics-server. '' @
       ''Verify the API service: kubectl get apiservice v1beta1.metrics.k8s.io.'')"
| "Remediation ContainerResourceHandler spec = (case mu_ContainerResource spec of
     None \<Rightarrow> []
   | Some c \<Rightarrow> ''ContainerResource metric '' @ cm_Container c @ ''/'' @ cm_Name c @
       '' is missing. Verify the metrics-server is running and the container is reporting resource usage.'')"
| "Remediation PodsHandler spec = (case mu_Pods spec of
     None \<Rightarrow> []
   | Some p \<Rightarrow> ''Pods metric '' @ go_quote (mi_Name (nm_Metric p)) @
       '' is missing. Verify the custom metrics adapter is serving this metric and check that pods are exposing the expected metric values.'')"
| "Remediation ObjectHandler spec = (case mu_Object spec of
     None \<Rightarrow> []
   | Some p \<Rightarrow> ''Object metric '' @ go_quote (mi_Name (om_Metric p)) @
       '' is missing. Verify the described object '' @ or_Kind (om_DescribedObject p) @ ''/'' @
       or_Name (om_DescribedObject p) @ '' exists and the metrics adapter can retrieve its values.'')"
| "Remediation ExternalHandler spec = (case mu_External spec of
     None \<Rightarrow> []
   | Some p \<Rightarrow> ''External metric '' @ go_quote (mi_Name (nm_Metric p)) @
       '' is missing. Verify the external metrics adapter is serving the metric and check adapter logs for errors. '' @
       ''Check the API service: kubectl get --raw /apis/external.metrics.k8s.io/v1beta1. '' @
       ''If using Prometheus Adapter, check the API service and rules ConfigMap.'')"
| "Remediation FallbackHandler spec = default_remediation"

definition buildMetricRemediation :: "('q, 's) metric_spec \<Rightarrow> string" where
  "buildMetricRemediation spec =
     (let r = Remediation (handlerFor (mu_Type spec)) spec
      in if r \<noteq> [] then r else default_remediation)"

subsection \<open>The two lookups agree\<close>

text \<open>
  The handlers look the target up by an identity they build from the status; the simulator
  matches spec and status descriptors. On a status with a usable identity both find the
  same target.
\<close>

lemma find_target_in_eq:
  "find_target_in K specs i =
     (case find (\<lambda>s. MetricIDFromSpec K s = Inr i) specs of
        None \<Rightarrow> zero_target
      | Some s \<Rightarrow> (case MetricDescriptorFromSpec K s of
          Inl _ \<Rightarrow> zero_target
        | Inr d \<Rightarrow> (case d_Target d of None \<Rightarrow> zero_target | Some t \<Rightarrow> t)))"
proof (induction specs)
  case Nil
  then show ?case by simp
next
  case (Cons s ss)
  then show ?case
    using spec_descriptor_target [of K s]
    by (auto simp: MetricIDFromSpec_def split: sum.splits option.splits)
qed

lemma find_target_in_matching:
  assumes "MetricIDFromStatus K cur = Inr i"
  shows "find_target_in K specs i =
     (case first_matching_target K specs cur of None \<Rightarrow> zero_target | Some t \<Rightarrow> t)"
proof -
  have "IdentityMatches K s cur \<longleftrightarrow> MetricIDFromSpec K s = Inr i" for s
    using assms by (auto simp: IdentityMatches_iff)
  then show ?thesis
    using spec_descriptor_target
    by (fastforce simp: find_target_in_eq first_matching_target_eq split: option.splits sum.splits)
qed

text \<open>The target a handler reads for a status entry.\<close>

definition handler_target :: "('q, 's) k8s_lib \<Rightarrow> ('q, 's) hpa \<Rightarrow> ('q, 's) metric_status \<Rightarrow> 'q metric_target" where
  "handler_target K h m = (case handlerFor (mu_Type m) of
     ResourceHandler \<Rightarrow> (case mu_Resource m of None \<Rightarrow> zero_target | Some r \<Rightarrow> FindResourceTargetSpec K h (rm_Name r))
   | ContainerResourceHandler \<Rightarrow> (case mu_ContainerResource m of None \<Rightarrow> zero_target
       | Some c \<Rightarrow> FindContainerResourceTargetSpec K h (cm_Name c) (cm_Container c))
   | PodsHandler \<Rightarrow> (case mu_Pods m of None \<Rightarrow> zero_target
       | Some p \<Rightarrow> FindPodsTargetSpec K h (mi_Name (nm_Metric p)) (mi_Selector (nm_Metric p)))
   | ObjectHandler \<Rightarrow> (case mu_Object m of None \<Rightarrow> zero_target
       | Some p \<Rightarrow> FindObjectTargetSpec K h (mi_Name (om_Metric p)) (mi_Selector (om_Metric p)) (om_DescribedObject p))
   | ExternalHandler \<Rightarrow> (case mu_External m of None \<Rightarrow> zero_target
       | Some p \<Rightarrow> FindExternalTargetSpec K h (mi_Name (nm_Metric p)) (mi_Selector (nm_Metric p)))
   | FallbackHandler \<Rightarrow> zero_target)"

lemmas target_lookup_defs = FindResourceTargetSpec_def FindContainerResourceTargetSpec_def
  FindPodsTargetSpec_def FindObjectTargetSpec_def FindExternalTargetSpec_def object_metric_id_def
  metricIDWithSelector_def

lemma handlerFor_iff:
  "handlerFor t = ResourceHandler \<longleftrightarrow> t = ResourceMetricSourceType"
  "handlerFor t = ContainerResourceHandler \<longleftrightarrow> t = ContainerResourceMetricSourceType"
  "handlerFor t = PodsHandler \<longleftrightarrow> t = PodsMetricSourceType"
  "handlerFor t = ObjectHandler \<longleftrightarrow> t = ObjectMetricSourceType"
  "handlerFor t = ExternalHandler \<longleftrightarrow> t = ExternalMetricSourceType"
  by (simp_all add: handlerFor_def)

lemma handler_target_by_id:
  assumes "MetricIDFromStatus K m = Inr i"
  shows "handler_target K h m = findTargetSpec K h i"
proof -
  obtain d where d: "MetricDescriptorFromStatus K m = Inr d" and i: "i = d_ID d"
    using assms by (auto simp: MetricIDFromStatus_Inr)
  show ?thesis
  proof (cases "handlerFor (mu_Type m)")
    case ResourceHandler
    then have "mu_Type m = ResourceMetricSourceType" by (simp only: handlerFor_iff)
    with ResourceHandler d i show ?thesis
      by (auto simp: handler_target_def target_lookup_defs MetricDescriptorFromStatus_def id_of_type_def
          split: option.splits)
  next
    case ContainerResourceHandler
    then have "mu_Type m = ContainerResourceMetricSourceType" by (simp only: handlerFor_iff)
    with ContainerResourceHandler d i show ?thesis
      by (auto simp: handler_target_def target_lookup_defs MetricDescriptorFromStatus_def id_of_type_def
          split: option.splits)
  next
    case PodsHandler
    then have "mu_Type m = PodsMetricSourceType" by (simp only: handlerFor_iff)
    with PodsHandler d i show ?thesis
      by (auto simp: handler_target_def target_lookup_defs MetricDescriptorFromStatus_def id_of_type_def
          split: option.splits sum.splits)
  next
    case ObjectHandler
    then have "mu_Type m = ObjectMetricSourceType" by (simp only: handlerFor_iff)
    with ObjectHandler d i show ?thesis
      by (auto simp: handler_target_def target_lookup_defs MetricDescriptorFromStatus_def id_of_type_def
          split: option.splits sum.splits)
  next
    case ExternalHandler
    then have "mu_Type m = ExternalMetricSourceType" by (simp only: handlerFor_iff)
    with ExternalHandler d i show ?thesis
      by (auto simp: handler_target_def target_lookup_defs MetricDescriptorFromStatus_def id_of_type_def
          split: option.splits sum.splits)
  next
    case FallbackHandler
    then have "mu_Type m \<notin> {ResourceMetricSourceType, ContainerResourceMetricSourceType,
        PodsMetricSourceType, ObjectMetricSourceType, ExternalMetricSourceType}"
      using handlerFor_iff [of "mu_Type m"] by force
    with d show ?thesis by (simp add: MetricDescriptorFromStatus_def Let_def)
  qed
qed

end
