(* ===== verification/Conditions.thy ===== *)
theory Conditions
  imports MetricHandlers
begin

section \<open>Conditions, stabilization windows and the direction summary\<close>

text \<open>
  \<open>pkg/hpa/internal/conditions/conditions.go\<close> and the direction summary of
  \<open>pkg/hpa/metric_utils.go\<close>. A nil \<open>*HorizontalPodAutoscaler\<close> is \<^const>\<open>None\<close> where the
  function accepts one.
\<close>

abbreviation ScalingActive :: string where "ScalingActive \<equiv> ''ScalingActive''"
abbreviation ScalingLimited :: string where "ScalingLimited \<equiv> ''ScalingLimited''"
abbreviation AbleToScale :: string where "AbleToScale \<equiv> ''AbleToScale''"
abbreviation ReasonScaleDownStabilized :: string where "ReasonScaleDownStabilized \<equiv> ''ScaleDownStabilized''"
abbreviation ReasonScaleUpStabilized :: string where "ReasonScaleUpStabilized \<equiv> ''ScaleUpStabilized''"

definition DefaultScaleDownStabilizationWindowSeconds :: int where
  "DefaultScaleDownStabilizationWindowSeconds = 300"

definition Find :: "('q, 's) hpa option \<Rightarrow> string \<Rightarrow> hpa_condition option" where
  "Find h conditionType = (case h of
     None \<Rightarrow> None
   | Some h \<Rightarrow> find (\<lambda>c. c_Type c = conditionType) (conditionsOf h))"

definition ScaleDownStabilizationWindow :: "('q, 's) hpa \<Rightarrow> int option" where
  "ScaleDownStabilizationWindow h = (case behaviorOf h of
     None \<Rightarrow> None
   | Some b \<Rightarrow> (case b_ScaleDown b of None \<Rightarrow> None | Some r \<Rightarrow> r_StabilizationWindowSeconds r))"

definition EffectiveScaleDownStabilizationWindow :: "('q, 's) hpa option \<Rightarrow> int" where
  "EffectiveScaleDownStabilizationWindow h = (case h of
     None \<Rightarrow> DefaultScaleDownStabilizationWindowSeconds
   | Some h \<Rightarrow> (case ScaleDownStabilizationWindow h of
       Some window \<Rightarrow> window
     | None \<Rightarrow> DefaultScaleDownStabilizationWindowSeconds))"

definition NextScaleDownStabilizationWindow :: "int \<Rightarrow> int option" where
  "NextScaleDownStabilizationWindow current =
     (if current \<ge> 3600 then None
      else if current \<le> 0 then Some DefaultScaleDownStabilizationWindowSeconds
      else let nxt = wrap32 (current * 2)
           in if nxt > 3600 \<or> nxt \<le> current then Some 3600 else Some nxt)"

definition EstimateStabilizationRemaining :: "('q, 's) hpa \<Rightarrow> int option" where
  "EstimateStabilizationRemaining h = None"

subsection \<open>The window ladder\<close>

text \<open>
  Every step of the ladder rises and stays within the API maximum, so repeating the
  recommendation ends at one hour.
\<close>

fun climb :: "nat \<Rightarrow> int \<Rightarrow> int" where
  "climb 0 w = w"
| "climb (Suc n) w = (case NextScaleDownStabilizationWindow w of None \<Rightarrow> w | Some w' \<Rightarrow> climb n w')"

lemma next_window_step:
  assumes "NextScaleDownStabilizationWindow w = Some w'"
  shows "w < w' \<and> w' \<le> 3600 \<and> (0 < w \<longrightarrow> w' = min (2 * w) 3600) \<and> (w \<le> 0 \<longrightarrow> w' = 300)"
  using assms
  by (auto simp: NextScaleDownStabilizationWindow_def DefaultScaleDownStabilizationWindowSeconds_def
      Let_def in32_def split: if_splits)

lemma next_window_None: "NextScaleDownStabilizationWindow w = None \<longleftrightarrow> 3600 \<le> w"
  by (auto simp: NextScaleDownStabilizationWindow_def Let_def)

lemma climb_pos:
  assumes "0 < w" and "w \<le> 3600"
  shows "climb n w = min (2 ^ n * w) 3600"
  using assms
proof (induction n arbitrary: w)
  case 0
  then show ?case by simp
next
  case (Suc n)
  show ?case
  proof (cases "w = 3600")
    case True
    have "(1::int) \<le> 2 ^ Suc n" by (rule one_le_power) simp
    then have "3600 \<le> 2 ^ Suc n * (3600::int)" by simp
    then show ?thesis using True by (simp add: NextScaleDownStabilizationWindow_def)
  next
    case False
    with Suc.prems next_window_None [of w] obtain w' where w': "NextScaleDownStabilizationWindow w = Some w'"
      by force
    with Suc.prems next_window_step [OF w'] have eq: "w' = min (2 * w) 3600" by simp
    with Suc.prems w' Suc.IH [of w'] have "climb (Suc n) w = min (2 ^ n * min (2 * w) 3600) 3600" by simp
    moreover have pow: "(1::int) \<le> 2 ^ n" by simp
    have rise: "2 * w \<le> 2 ^ n * (2 * w)" "3600 \<le> 2 ^ n * (3600::int)"
      using pow Suc.prems mult_right_mono [OF pow, of "2 * w"] by simp_all
    have "min (2 ^ n * min (2 * w) 3600) 3600 = min (2 ^ n * (2 * w)) 3600"
    proof (cases "w \<le> 1800")
      case False
      then have "3600 \<le> 2 ^ n * (2 * w)" using rise(1) by linarith
      with False rise(2) show ?thesis by (simp add: min_absorb2)
    qed (simp add: min_absorb1)
    ultimately show ?thesis by (simp add: mult_ac)
  qed
qed

subsection \<open>Summary of the direction\<close>

definition summarizeDirectionFromReplicas :: "int \<Rightarrow> int \<Rightarrow> int \<Rightarrow> int \<Rightarrow> string \<times> string" where
  "summarizeDirectionFromReplicas current desired maxReplicas minReplicas =
     (if current = maxReplicas \<and> desired = maxReplicas then (''HPA is at maxReplicas.'', ''dir_at_max'')
      else if desired > current then (''HPA currently wants to scale up.'', ''dir_scale_up'')
      else if desired < current then (''HPA currently wants to scale down.'', ''dir_scale_down'')
      else if desired = minReplicas \<and> minReplicas = 0 then
        (''HPA is at minReplicas (scale-to-zero enabled).'', ''dir_at_min_scale_to_zero'')
      else if desired = minReplicas then (''HPA is at minReplicas.'', ''dir_at_min'')
      else (''HPA currently keeps the replica count unchanged.'', ''dir_unchanged''))"

definition SummarizeDirectionWithKey :: "('q, 's) hpa option \<Rightarrow> int \<Rightarrow> string \<times> string" where
  "SummarizeDirectionWithKey hp minReplicas = (case hp of
     None \<Rightarrow> (''HPA data is unavailable.'', ''dir_unavailable'')
   | Some h \<Rightarrow>
       if (case Find hp ScalingActive of None \<Rightarrow> False | Some c \<Rightarrow> c_Status c \<noteq> ConditionTrue) then
         (''HPA cannot currently compute a scaling recommendation from metrics.'', ''dir_inactive'')
       else if desiredOf h = 0 \<and> currentOf h > 0 then
         (if minReplicas = 0 then
            (''HPA wants to scale to zero (cold start will occur on next scale-up).'', ''dir_scale_to_zero'')
          else (''HPA has no visible desired replica recommendation in status.'', ''dir_no_recommendation''))
       else if minReplicas = 0 \<and> desiredOf h = 0 \<and> currentOf h = 0 then
         (''HPA is scaled to zero (minReplicas=0); awaiting trigger to scale up.'', ''dir_scaled_to_zero'')
       else summarizeDirectionFromReplicas (currentOf h) (desiredOf h) (maxReplicasOf h) minReplicas)"

definition SummarizeDirection :: "('q, 's) hpa option \<Rightarrow> int \<Rightarrow> string" where
  "SummarizeDirection h minReplicas = fst (SummarizeDirectionWithKey h minReplicas)"

definition condition_priority :: "hpa_condition \<Rightarrow> int" where
  "condition_priority c =
     (if c_Type c = ScalingActive then 0 else if c_Type c = AbleToScale then 1
      else if c_Type c = ScalingLimited then 2 else 100)"

definition prioritizedConditions :: "hpa_condition list \<Rightarrow> hpa_condition list" where
  "prioritizedConditions cs = sort_key condition_priority cs"

end
