(* ===== verification/Tolerance.thy ===== *)
theory Tolerance
  imports Conditions
begin

section \<open>Directional tolerance and the replica estimate of one metric\<close>

text \<open>\<open>pkg/hpa/internal/tolerance/tolerance.go\<close>.\<close>

definition DefaultTolerance :: f64 where
  "DefaultTolerance = mk (1 / 10)"

definition usable_tolerance :: "f64 \<Rightarrow> bool" where
  "usable_tolerance v \<longleftrightarrow> \<not> (is_nan v \<or> is_inf v \<or> f_lt v (Fin 0))"

definition DirectionalTolerance :: "('q, 's) k8s_lib \<Rightarrow> ('q, 's) hpa option \<Rightarrow> f64 \<Rightarrow> f64 \<times> bool" where
  "DirectionalTolerance K hp ratio = (case hp of
     None \<Rightarrow> (DefaultTolerance, False)
   | Some h \<Rightarrow> (case behaviorOf h of
       None \<Rightarrow> (DefaultTolerance, False)
     | Some b \<Rightarrow>
         (let rules = (if f_lt (Fin 1) ratio then b_ScaleUp b
                       else if f_lt ratio (Fin 1) then b_ScaleDown b else None)
          in case rules of
               None \<Rightarrow> (DefaultTolerance, False)
             | Some r \<Rightarrow> (case r_Tolerance r of
                 None \<Rightarrow> (DefaultTolerance, False)
               | Some q \<Rightarrow>
                   (let val = q_float K q
                    in if is_nan val \<or> is_inf val \<or> f_lt val (Fin 0) then (DefaultTolerance, False)
                       else (val, True))))))"

definition configured_tolerance :: "('q, 's) k8s_lib \<Rightarrow> 'q scaling_rules option \<Rightarrow> f64 option" where
  "configured_tolerance K rules = (case rules of
     None \<Rightarrow> None
   | Some r \<Rightarrow> (case r_Tolerance r of
       None \<Rightarrow> None
     | Some q \<Rightarrow>
         (let val = q_float K q
          in if \<not> is_nan val \<and> \<not> is_inf val \<and> f_le (Fin 0) val then Some val else None)))"

definition ConfiguredDirectionalTolerances ::
    "('q, 's) k8s_lib \<Rightarrow> ('q, 's) hpa option \<Rightarrow> f64 option \<times> f64 option" where
  "ConfiguredDirectionalTolerances K hp = (case hp of
     None \<Rightarrow> (None, None)
   | Some h \<Rightarrow> (case behaviorOf h of
       None \<Rightarrow> (None, None)
     | Some b \<Rightarrow> (configured_tolerance K (b_ScaleUp b), configured_tolerance K (b_ScaleDown b))))"

definition EffectiveDirectionalTolerances :: "('q, 's) k8s_lib \<Rightarrow> ('q, 's) hpa option \<Rightarrow> f64 \<times> f64" where
  "EffectiveDirectionalTolerances K hp =
     (fst (DirectionalTolerance K hp (Fin 2)), fst (DirectionalTolerance K hp (Fin 0)))"

definition RatioWithinTolerance :: "('q, 's) k8s_lib \<Rightarrow> ('q, 's) hpa option \<Rightarrow> f64 \<Rightarrow> bool \<times> f64" where
  "RatioWithinTolerance K hp ratio =
     (let tol = fst (DirectionalTolerance K hp ratio)
      in (f_le (f_abs (f_sub ratio (Fin 1))) tol, tol))"

definition ProjectedReplicasForRatio :: "int \<Rightarrow> f64 \<Rightarrow> int \<times> bool" where
  "ProjectedReplicasForRatio current ratio =
     (if current < 0 \<or> is_nan ratio \<or> f_lt ratio (Fin 0) then (current, False)
      else if ratio = PInf then (max_int32, True)
      else
        let product = f_mul (f_of_int current) ratio in
        if is_nan product then (current, False)
        else if product = PInf \<or> f_lt (f_of_int max_int32) product then (max_int32, True)
        else
          let projected = f_ceil product in
          if f_lt (f_of_int max_int32) projected then (max_int32, True)
          else (wrap32 (f_trunc projected), True))"

definition EstimatedDesiredForRatio :: "('q, 's) k8s_lib \<Rightarrow> ('q, 's) hpa \<Rightarrow> f64 \<Rightarrow> int" where
  "EstimatedDesiredForRatio K h ratio =
     (let current = currentOf h in
      if fst (RatioWithinTolerance K (Some h) ratio) then current
      else let (projected, usable) = ProjectedReplicasForRatio current ratio
           in if \<not> usable then current else projected)"

definition Direction :: "f64 \<Rightarrow> string" where
  "Direction ratio =
     (if f_lt (Fin 1) ratio then ''scaleUp'' else if f_lt ratio (Fin 1) then ''scaleDown'' else ''effective'')"

subsection \<open>Facts\<close>

text \<open>The estimate for a finite non-negative ratio, written without the floating-point steps.\<close>

lemma projected_finite:
  assumes c: "0 \<le> current" "in32 current" and r: "0 \<le> r"
  shows "ProjectedReplicasForRatio current (Fin r) =
     (min max_int32 \<lceil>rnd (of_int current * r)\<rceil>, True)"
proof -
  let ?p = "of_int current * r"
  have p: "0 \<le> ?p" using c r by simp
  have c': "f_of_int current = Fin (of_int current)" using c by simp
  show ?thesis
  proof (rule mk_nonneg_cases [OF p])
    assume 1: "mk ?p = PInf"
    then have "f64_limit \<le> rnd ?p" by (auto simp: mk_def Let_def split: if_splits)
    then have "(of_int max_int32 :: rat) \<le> rnd ?p" using f64_limit_large by simp
    then have "max_int32 \<le> \<lceil>rnd ?p\<rceil>" by (simp add: le_ceiling_iff; linarith)
    with 1 c r c' show ?thesis
      by (simp add: ProjectedReplicasForRatio_def Let_def is_nan_def min_def)
  next
    assume 2: "mk ?p = Fin (rnd ?p)" "0 \<le> rnd ?p"
    have nn: "0 \<le> \<lceil>rnd ?p\<rceil>" using 2(2) by (simp add: le_ceiling_iff; linarith)
    note fin = 2(1)
    consider "rnd ?p \<le> of_int max_int32" | "of_int max_int32 < rnd ?p" by linarith
    then show ?thesis
    proof cases
      case 1
      then have ub: "\<lceil>rnd ?p\<rceil> \<le> max_int32" by (simp only: ceiling_le_iff)
      then have "mk (of_int \<lceil>rnd ?p\<rceil>) = Fin (of_int \<lceil>rnd ?p\<rceil>)"
        using nn by (intro mk_int) simp
      moreover have "min max_int32 \<lceil>rnd ?p\<rceil> = \<lceil>rnd ?p\<rceil>" using ub by (rule min_absorb2)
      moreover have "in32 \<lceil>rnd ?p\<rceil>" using nn ub by (rule in32_small)
      moreover have "\<not> max_int32 < \<lceil>rnd ?p\<rceil>" using ub by simp
      ultimately show ?thesis using 1 2 c r c' nn
        by (simp add: ProjectedReplicasForRatio_def Let_def is_nan_def f_ceil_def f_trunc_def not_less)
    next
      case 2
      then have "max_int32 \<le> \<lceil>rnd ?p\<rceil>" by (simp add: le_ceiling_iff; linarith)
      with 2 fin c r c' show ?thesis
        by (simp add: ProjectedReplicasForRatio_def Let_def is_nan_def min_def)
    qed
  qed
qed

lemma projected_in_range:
  assumes "in32 current"
  shows "in32 (fst (ProjectedReplicasForRatio current ratio))"
  using assms by (auto simp: ProjectedReplicasForRatio_def Let_def)

lemma projected_usable_nonneg:
  assumes "in32 current" and "ProjectedReplicasForRatio current ratio = (d, True)"
  shows "0 \<le> d \<and> d \<le> max_int32"
proof (cases ratio)
  case (Fin r)
  with assms(2) have "0 \<le> current" and "0 \<le> r"
    by (auto simp: ProjectedReplicasForRatio_def split: if_splits)
  moreover from this have "0 \<le> \<lceil>rnd (of_int current * r)\<rceil>"
    using rnd_nonneg [of "of_int current * r"] by (simp add: le_ceiling_iff; linarith)
  ultimately show ?thesis using assms Fin projected_finite [of current r] by auto
qed (use assms in \<open>auto simp: ProjectedReplicasForRatio_def is_nan_def split: if_splits\<close>)

text \<open>More load never projects fewer replicas.\<close>

lemma projected_mono:
  assumes c: "0 \<le> current" "in32 current" and r: "0 \<le> r" "r \<le> s"
  shows "fst (ProjectedReplicasForRatio current (Fin r)) \<le> fst (ProjectedReplicasForRatio current (Fin s))"
proof -
  have "of_int current * r \<le> of_int current * s" using c r by (simp add: mult_left_mono)
  then have "\<lceil>rnd (of_int current * r)\<rceil> \<le> \<lceil>rnd (of_int current * s)\<rceil>"
    by (intro ceiling_mono rnd_mono)
  with c r show ?thesis by (simp add: projected_finite)
qed

lemma projected_at_target:
  assumes "0 \<le> current" "in32 current"
  shows "ProjectedReplicasForRatio current (Fin 1) = (current, True)"
proof -
  have "rnd (of_int current) = of_int current" using assms by (intro rnd_int) (simp add: in32_def)
  then show ?thesis using assms projected_finite [of current 1] by (simp add: in32_def)
qed

lemma projected_above:
  assumes "0 \<le> current" "in32 current" "1 \<le> r"
  shows "current \<le> fst (ProjectedReplicasForRatio current (Fin r))"
  using projected_mono [of current 1 r] projected_at_target [of current] assms by simp

lemma projected_below:
  assumes "0 \<le> current" "in32 current" "0 \<le> r" "r \<le> 1"
  shows "fst (ProjectedReplicasForRatio current (Fin r)) \<le> current"
  using projected_mono [of current r 1] projected_at_target [of current] assms by simp

text \<open>The configured tolerance of a direction is the effective one whenever it is configured.\<close>

lemma usable_tolerance_le: "usable_tolerance v \<longleftrightarrow> \<not> is_nan v \<and> \<not> is_inf v \<and> f_le (Fin 0) v"
  by (cases v) (auto simp: usable_tolerance_def f64_ops_defs)

end
