(* ===== verification/Scaling.thy ===== *)
theory Scaling
  imports Tolerance
begin

section \<open>Bounded scaling policies\<close>

text \<open>
  \<open>pkg/hpa/scaling/policy.go\<close>: the replica limit one policy allows, and the limit a list of
  policies with a selection rule allows against the changes still inside each rolling
  period. The locale \<open>rate_limit\<close> is the contract its clients rely on.
\<close>

definition DefaultPolicies :: "bool \<Rightarrow> scaling_policy list" where
  "DefaultPolicies scaleUp =
     (if \<not> scaleUp then [\<lparr>p_Type = PercentScalingPolicy, p_Value = 100, p_PeriodSeconds = 15\<rparr>]
      else [\<lparr>p_Type = PodsScalingPolicy, p_Value = 4, p_PeriodSeconds = 15\<rparr>,
            \<lparr>p_Type = PercentScalingPolicy, p_Value = 100, p_PeriodSeconds = 15\<rparr>])"

definition policy_candidate :: "int \<Rightarrow> bool \<Rightarrow> scaling_policy \<Rightarrow> int option" where
  "policy_candidate current scaleUp policy =
     (if p_Type policy = PodsScalingPolicy then
        Some (if scaleUp then wrap64 (current + p_Value policy) else wrap64 (current - p_Value policy))
      else if p_Type policy = PercentScalingPolicy then
        (let multiplier =
               (if scaleUp then f_add (Fin 1) (f_div (f_of_int (p_Value policy)) (Fin 100))
                else f_sub (Fin 1) (f_div (f_of_int (p_Value policy)) (Fin 100)))
         in Some (f_trunc (f_ceil (f_mul (f_of_int current) multiplier))))
      else None)"

definition ReplicaLimit :: "int \<Rightarrow> bool \<Rightarrow> scaling_policy \<Rightarrow> int option" where
  "ReplicaLimit current scaleUp policy =
     (if p_Value policy \<le> 0 then None
      else case policy_candidate current scaleUp policy of
             None \<Rightarrow> None
           | Some candidate \<Rightarrow>
               (let candidate = (if candidate > max_int32 then max_int32 else candidate);
                    candidate = (if candidate < 0 then 0 else candidate)
                in Some candidate))"

record event =
  TimeSeconds :: int
  Change :: int

text \<open>The replica count at the start of a policy's period: recorded changes inside it are taken back.\<close>

definition inside_period :: "int \<Rightarrow> scaling_policy \<Rightarrow> event \<Rightarrow> bool" where
  "inside_period now policy ev \<longleftrightarrow>
     TimeSeconds ev > wrap64 (now - p_PeriodSeconds policy) \<and> TimeSeconds ev \<le> now"

definition period_baseline :: "int \<Rightarrow> int \<Rightarrow> scaling_policy \<Rightarrow> event list \<Rightarrow> int" where
  "period_baseline current now policy history =
     max 0 (min (foldl (\<lambda>b ev. if inside_period now policy ev then wrap64 (b - Change ev) else b)
                   current history) max_int32)"

fun limit_loop ::
    "int \<Rightarrow> bool \<Rightarrow> string \<Rightarrow> int \<Rightarrow> event list \<Rightarrow> scaling_policy list \<Rightarrow> int option \<Rightarrow> int option" where
  "limit_loop current scaleUp selectPolicy now history [] selected = selected"
| "limit_loop current scaleUp selectPolicy now history (policy # policies) selected =
     (case ReplicaLimit (period_baseline current now policy history) scaleUp policy of
        None \<Rightarrow> limit_loop current scaleUp selectPolicy now history policies selected
      | Some candidate \<Rightarrow>
          (let candidate = (if scaleUp then max current candidate else min current candidate)
           in limit_loop current scaleUp selectPolicy now history policies
                (Some (case selected of
                   None \<Rightarrow> candidate
                 | Some s \<Rightarrow>
                     if scaleUp = (selectPolicy \<noteq> MinChangePolicySelect) then max s candidate
                     else min s candidate))))"

definition Limit ::
    "int \<Rightarrow> bool \<Rightarrow> string \<Rightarrow> scaling_policy list \<Rightarrow> int \<Rightarrow> event list \<Rightarrow> int option" where
  "Limit current scaleUp selectPolicy policies now history =
     (if selectPolicy = DisabledPolicySelect then Some current
      else limit_loop current scaleUp selectPolicy now history policies None)"

subsection \<open>The limit of one policy\<close>

lemma ReplicaLimit_range:
  "ReplicaLimit current scaleUp policy = Some c \<Longrightarrow> 0 \<le> c \<and> c \<le> max_int32"
  by (auto simp: ReplicaLimit_def Let_def split: if_splits option.splits)

lemma ReplicaLimit_defined:
  "ReplicaLimit current scaleUp policy \<noteq> None \<longleftrightarrow>
     0 < p_Value policy \<and> p_Type policy \<in> {PodsScalingPolicy, PercentScalingPolicy}"
  by (auto simp: ReplicaLimit_def policy_candidate_def Let_def not_less split: option.splits)

text \<open>A percentage policy multiplies by a factor on its side of one.\<close>

lemma percent_step:
  assumes "0 < v" and "in32 v"
  shows "f_div (f_of_int v) (Fin 100) = Fin (rnd (of_int v / 100))"
    and "0 \<le> rnd (of_int v / 100)" and "rnd (of_int v / 100) \<le> of_int max_int32"
proof -
  have v: "0 \<le> of_int v / (100::rat)" "of_int v / (100::rat) \<le> of_int max_int32"
    using assms by (auto simp: in32_def field_simps)
  then show "f_div (f_of_int v) (Fin 100) = Fin (rnd (of_int v / 100))"
    using assms(2) mk_small [of "of_int v / 100"] by simp
  show "0 \<le> rnd (of_int v / 100)" using v(1) by (rule rnd_nonneg)
  show "rnd (of_int v / 100) \<le> of_int max_int32" using v(2) by (intro rnd_le_int) auto
qed

lemma percent_product_bound:
  assumes "0 \<le> current" "in32 current" "\<bar>m\<bar> \<le> of_int 2147483648"
  shows "\<bar>of_int current * m\<bar> \<le> (2::rat) powi 62"
proof -
  have "\<bar>of_int current * m\<bar> = of_int current * \<bar>m\<bar>" using assms(1) by (simp add: abs_mult)
  also have "\<dots> \<le> of_int 2147483647 * of_int 2147483648"
    using assms by (intro mult_mono) (auto simp: in32_def)
  also have "\<dots> \<le> 2 powi 62" by simp
  finally show ?thesis .
qed

lemma percent_candidate_up:
  assumes "p_Type policy = PercentScalingPolicy" "0 < p_Value policy" "in32 (p_Value policy)"
    and c: "0 \<le> current" "in32 current"
    and "policy_candidate current True policy = Some cand"
  shows "current \<le> cand"
proof -
  let ?r = "rnd (of_int (p_Value policy) / 100)"
  note p = percent_step [OF assms(2,3)]
  have mul: "f_add (Fin 1) (Fin ?r) = Fin (rnd (1 + ?r))" using p mk_small [of "1 + ?r"] by simp
  have one: "1 \<le> rnd (1 + ?r)" using p rnd_ge_int [of 1 "1 + ?r"] by simp
  have up: "rnd (1 + ?r) \<le> of_int 2147483648" using p by (intro rnd_le_int) auto
  have "\<bar>of_int current * rnd (1 + ?r)\<bar> \<le> 2 powi 62"
    using one up by (intro percent_product_bound c) auto
  moreover have "of_int current \<le> of_int current * rnd (1 + ?r)" using c one by (simp add: mult_le_cancel_left1)
  ultimately have "current \<le> f_trunc (f_ceil (mk (of_int current * rnd (1 + ?r))))"
    using c by (intro ceil_trunc_bounds(1) [where e = 62]) (auto simp: in32_def)
  then show ?thesis using assms p(1) mul by (simp add: policy_candidate_def)
qed

lemma percent_candidate_down:
  assumes "p_Type policy = PercentScalingPolicy" "0 < p_Value policy" "in32 (p_Value policy)"
    and c: "0 \<le> current" "in32 current"
    and "policy_candidate current False policy = Some cand"
  shows "cand \<le> current"
proof -
  let ?r = "rnd (of_int (p_Value policy) / 100)"
  note p = percent_step [OF assms(2,3)]
  have mul: "f_sub (Fin 1) (Fin ?r) = Fin (rnd (1 - ?r))"
    using p mk_small [of "1 - ?r"] by (simp add: f_sub_def f_neg_def)
  have one: "rnd (1 - ?r) \<le> 1" using p rnd_le_int [of 1 "1 - ?r"] by simp
  have low: "of_int (- 2147483648) \<le> rnd (1 - ?r)" using p by (intro rnd_ge_int) auto
  have "\<bar>of_int current * rnd (1 - ?r)\<bar> \<le> 2 powi 62"
    using one low by (intro percent_product_bound c) auto
  moreover have "of_int current * rnd (1 - ?r) \<le> of_int current" using c one by (simp add: mult_le_cancel_left2)
  ultimately have "f_trunc (f_ceil (mk (of_int current * rnd (1 - ?r)))) \<le> current"
    using c by (intro ceil_trunc_bounds(2) [where e = 62]) (auto simp: in32_def)
  then show ?thesis using assms p(1) mul by (simp add: policy_candidate_def)
qed

text \<open>A policy allows at least the baseline upwards and at most the baseline downwards.\<close>

definition policy_ok :: "scaling_policy \<Rightarrow> bool" where
  "policy_ok policy \<longleftrightarrow> in32 (p_Value policy)"

lemma ReplicaLimit_direction:
  assumes "policy_ok policy" "0 \<le> current" "in32 current" "ReplicaLimit current scaleUp policy = Some c"
  shows "(scaleUp \<longrightarrow> current \<le> c) \<and> (\<not> scaleUp \<longrightarrow> c \<le> current)"
proof -
  from assms(4) obtain cand where v: "0 < p_Value policy"
    and cand: "policy_candidate current scaleUp policy = Some cand"
    and c: "c = max 0 (min cand max_int32)"
    by (auto simp: ReplicaLimit_def Let_def max_def min_def split: if_splits option.splits)
  from cand have "p_Type policy = PodsScalingPolicy \<or> p_Type policy = PercentScalingPolicy"
    by (auto simp: policy_candidate_def split: if_splits)
  moreover have "in64 (current + p_Value policy)" "in64 (current - p_Value policy)"
    using assms(1-3) by (auto simp: policy_ok_def in32_def in64_def)
  ultimately have "(scaleUp \<longrightarrow> current \<le> cand) \<and> (\<not> scaleUp \<longrightarrow> cand \<le> current)"
    using assms(1-3) v cand percent_candidate_up [of policy current cand]
      percent_candidate_down [of policy current cand]
    by (cases scaleUp) (auto simp: policy_candidate_def policy_ok_def)
  then show ?thesis using c assms(2,3) by (auto simp: in32_def)
qed

subsection \<open>The limit of a list of policies\<close>

text \<open>The candidates the loop compares, in order.\<close>

definition policy_candidates :: "int \<Rightarrow> bool \<Rightarrow> int \<Rightarrow> event list \<Rightarrow> scaling_policy list \<Rightarrow> int list" where
  "policy_candidates current scaleUp now history policies =
     List.map_filter (\<lambda>policy. map_option (if scaleUp then max current else min current)
       (ReplicaLimit (period_baseline current now policy history) scaleUp policy)) policies"

definition pick_largest :: "bool \<Rightarrow> string \<Rightarrow> bool" where
  "pick_largest scaleUp selectPolicy \<longleftrightarrow> scaleUp = (selectPolicy \<noteq> MinChangePolicySelect)"

lemma policy_candidates_simps [simp]:
  "policy_candidates current scaleUp now history [] = []"
  "policy_candidates current scaleUp now history (policy # policies) =
     (case ReplicaLimit (period_baseline current now policy history) scaleUp policy of
        None \<Rightarrow> policy_candidates current scaleUp now history policies
      | Some c \<Rightarrow> (if scaleUp then max current c else min current c)
          # policy_candidates current scaleUp now history policies)"
  by (simp_all add: policy_candidates_def List.map_filter_def split: option.splits)

definition keep_best :: "bool \<Rightarrow> int \<Rightarrow> int option \<Rightarrow> int option" where
  "keep_best largest c s =
     Some (case s of None \<Rightarrow> c | Some b \<Rightarrow> if largest then max b c else min b c)"

lemma limit_loop_fold:
  "limit_loop current scaleUp sel now history policies selected =
     fold (keep_best (pick_largest scaleUp sel)) (policy_candidates current scaleUp now history policies) selected"
  by (induction policies arbitrary: selected)
    (simp_all add: keep_best_def pick_largest_def Let_def split: option.split)

lemma fold_keep_best:
  "fold (keep_best True) cs (Some s) = Some (fold max cs s)"
  "fold (keep_best False) cs (Some s) = Some (fold min cs s)"
  by (induction cs arbitrary: s) (simp_all add: keep_best_def max.commute min.commute)

text \<open>The loop computes the largest (or smallest) candidate.\<close>

lemma limit_loop_eq:
  "limit_loop current scaleUp sel now history policies None =
     (let cs = policy_candidates current scaleUp now history policies
      in if cs = [] then None
         else Some (if pick_largest scaleUp sel then Max (set cs) else Min (set cs)))"
proof (cases "policy_candidates current scaleUp now history policies")
  case Nil
  then show ?thesis by (simp add: limit_loop_fold)
next
  case (Cons c cs)
  have "keep_best b c None = Some c" for b by (simp add: keep_best_def)
  then show ?thesis
    using Cons fold_keep_best [of cs c] Max.set_eq_fold [of c cs] Min.set_eq_fold [of c cs]
    by (cases "pick_largest scaleUp sel") (simp_all add: limit_loop_fold Let_def del: list.set)
qed

lemma policy_candidates_direction:
  assumes "c \<in> set (policy_candidates current scaleUp now history policies)"
  shows "if scaleUp then current \<le> c else c \<le> current"
  using assms by (induction policies) (auto split: option.splits if_splits)

lemma policy_candidates_range:
  assumes "c \<in> set (policy_candidates current scaleUp now history policies)"
    and "0 \<le> current" "current \<le> max_int32"
  shows "0 \<le> c \<and> c \<le> max_int32"
  using assms
  by (induction policies) (auto dest!: ReplicaLimit_range split: option.splits if_splits)

lemma Limit_cases:
  assumes "Limit current scaleUp sel policies now history = Some l"
  obtains "l = current" | "l \<in> set (policy_candidates current scaleUp now history policies)"
proof -
  let ?cs = "policy_candidates current scaleUp now history policies"
  have "l = current \<or> (?cs \<noteq> [] \<and> (l = Max (set ?cs) \<or> l = Min (set ?cs)))"
    using assms by (auto simp: Limit_def limit_loop_eq Let_def split: if_splits)
  then show ?thesis using that Max_in [of "set ?cs"] Min_in [of "set ?cs"] by auto
qed

lemma Limit_direction:
  assumes "Limit current scaleUp sel policies now history = Some l"
  shows "if scaleUp then current \<le> l else l \<le> current"
  using assms by (rule Limit_cases) (auto dest: policy_candidates_direction)

lemma Limit_range:
  assumes "Limit current scaleUp sel policies now history = Some l"
    and "0 \<le> current" "current \<le> max_int32"
  shows "0 \<le> l \<and> l \<le> max_int32"
  using assms(1) by (rule Limit_cases) (use assms policy_candidates_range in auto)

lemma Limit_Some:
  assumes "sel = DisabledPolicySelect \<or>
      (\<exists>p \<in> set policies. 0 < p_Value p \<and> p_Type p \<in> {PodsScalingPolicy, PercentScalingPolicy})"
  shows "Limit current scaleUp sel policies now history \<noteq> None"
proof (cases "sel = DisabledPolicySelect")
  case False
  with assms obtain p where p: "p \<in> set policies" "0 < p_Value p"
    "p_Type p \<in> {PodsScalingPolicy, PercentScalingPolicy}" by auto
  then have "policy_candidates current scaleUp now history policies \<noteq> []"
  proof (induction policies)
    case (Cons q qs)
    show ?case
    proof (cases "q = p")
      case True
      then obtain y where "ReplicaLimit (period_baseline current now q history) scaleUp q = Some y"
        using Cons.prems(2,3) ReplicaLimit_defined by blast
      then show ?thesis by simp
    next
      case False
      with Cons show ?thesis by (auto split: option.splits)
    qed
  qed simp
  with False show ?thesis by (simp add: Limit_def limit_loop_eq Let_def)
qed (simp add: Limit_def)

subsection \<open>The contract of a rate limit\<close>

text \<open>
  What the normalization of a recommendation relies on: the limit of a direction never
  forbids the current count, and is again a replica count.
\<close>

locale rate_limit =
  fixes limit :: "int \<Rightarrow> bool \<Rightarrow> 'r \<Rightarrow> int"
  assumes up: "c \<le> limit c True r"
    and down: "limit c False r \<le> c"
    and range: "0 \<le> c \<Longrightarrow> c \<le> max_int32 \<Longrightarrow> 0 \<le> limit c d r \<and> limit c d r \<le> max_int32"

subsection \<open>Properties\<close>

text \<open>C6. The limit of a policy list is the largest (or, with selectPolicy Min upwards and Max
  downwards, the smallest) of the limits its usable policies allow, each counted from the
  replica count at the start of the policy's own period and never on the wrong side of the
  current count; without a usable policy there is none, and Disabled keeps the current count.\<close>

theorem Limit_spec:
  "Limit current scaleUp sel policies now history =
     (if sel = DisabledPolicySelect then Some current
      else let cs = List.map_filter (\<lambda>policy. map_option (if scaleUp then max current else min current)
             (ReplicaLimit (period_baseline current now policy history) scaleUp policy)) policies
        in if cs = [] then None
           else Some (if scaleUp = (sel \<noteq> MinChangePolicySelect) then Max (set cs) else Min (set cs)))"
  unfolding Limit_def limit_loop_eq policy_candidates_def pick_largest_def ..

text \<open>A limit exists unless every policy is unusable, it never points against its direction, and
  it is a replica count.\<close>

theorem Limit_contract:
  assumes "0 \<le> current" and "current \<le> max_int32"
    and "sel = DisabledPolicySelect \<or>
      (\<exists>p \<in> set policies. 0 < p_Value p \<and> p_Type p \<in> {PodsScalingPolicy, PercentScalingPolicy})"
  shows "\<exists>l. Limit current scaleUp sel policies now history = Some l
    \<and> (if scaleUp then current \<le> l else l \<le> current) \<and> 0 \<le> l \<and> l \<le> max_int32"
proof -
  from Limit_Some [OF assms(3)] obtain l where l: "Limit current scaleUp sel policies now history = Some l"
    by blast
  with Limit_direction [OF l] Limit_range [OF l assms(1,2)] show ?thesis by blast
qed

lemma Limit_contract_witness:
  "\<exists>l. Limit 10 False MaxChangePolicySelect
       [\<lparr>p_Type = PercentScalingPolicy, p_Value = 50, p_PeriodSeconds = 60\<rparr>] 100
       [\<lparr>TimeSeconds = 70, Change = -4\<rparr>] = Some l \<and> l \<le> 10"
  using Limit_contract [of 10 MaxChangePolicySelect "[\<lparr>p_Type = PercentScalingPolicy, p_Value = 50, p_PeriodSeconds = 60\<rparr>]"
      False 100 "[\<lparr>TimeSeconds = 70, Change = -4\<rparr>]"]
  by auto

text \<open>A single policy never limits below the count it starts from when scaling up, nor above it
  when scaling down; a percentage is computed in floating point and rounded up.\<close>

theorem ReplicaLimit_monotone:
  assumes "in32 (p_Value policy)" "0 \<le> current" "current \<le> max_int32"
    and "ReplicaLimit current scaleUp policy = Some c"
  shows "if scaleUp then current \<le> c else c \<le> current"
  using ReplicaLimit_direction [of policy current scaleUp c] assms by (simp add: policy_ok_def)

lemma ReplicaLimit_monotone_witness:
  "(10::int) \<le> 15 \<and> ReplicaLimit 10 True \<lparr>p_Type = PercentScalingPolicy, p_Value = 50, p_PeriodSeconds = 60\<rparr> = Some 15"
proof -
  have e: "ReplicaLimit 10 True \<lparr>p_Type = PercentScalingPolicy, p_Value = 50, p_PeriodSeconds = 60\<rparr> = Some 15"
    by code_simp
  with ReplicaLimit_monotone [OF _ _ _ e] show ?thesis by simp
qed

end
