(* ===== verification/Health.thy ===== *)
theory Health
  imports Scaling
begin

section \<open>Health state and score\<close>

text \<open>
  \<open>pkg/hpa/health.go\<close>, \<open>pkg/hpa/health_state.go\<close>, \<open>pkg/hpa/model/health.go\<close> and the penalty
  constants of \<open>pkg/hpa/types.go\<close>: the accumulator every penalty flows through, the base
  result computed from an HPA, and the reconciliation of the KEDA, VPA and churn penalties
  with the immutable base result of an analysis.
\<close>

subsection \<open>Data\<close>

datatype health_state =
  HealthOK | HealthWarning | HealthError | HealthLimited | HealthStabilized
| HealthUnknown string  \<comment> \<open>any other value of the Go string type\<close>

fun state_string :: "health_state \<Rightarrow> string" where
  "state_string HealthOK = ''OK''"
| "state_string HealthWarning = ''WARNING''"
| "state_string HealthError = ''ERROR''"
| "state_string HealthLimited = ''LIMITED''"
| "state_string HealthStabilized = ''STABILIZED''"
| "state_string (HealthUnknown s) = s"

definition string_state :: "string \<Rightarrow> health_state" where
  "string_state s =
     (if s = ''OK'' then HealthOK else if s = ''WARNING'' then HealthWarning
      else if s = ''ERROR'' then HealthError else if s = ''LIMITED'' then HealthLimited
      else if s = ''STABILIZED'' then HealthStabilized else HealthUnknown s)"

record health_signal =
  hs_Reason :: string
  hs_Penalty :: int
  hs_Severity :: health_state

record health_result =
  hr_State :: health_state
  hr_Score :: int
  hr_Signals :: "health_signal list"

record health_weights =
  hw_ScalingInactive :: "int option"
  hw_UnableToScale :: "int option"
  hw_ScalingLimited :: "int option"
  hw_ImplicitMaxReplicas :: "int option"
  hw_ScaleDownStabilized :: "int option"
  hw_AtMinimumReplicas :: "int option"
  hw_KEDAInactiveTrigger :: "int option"
  hw_VPAConflict :: "int option"
  hw_Churn :: "int option"

abbreviation no_weights :: health_weights where
  "no_weights \<equiv> \<lparr>hw_ScalingInactive = None, hw_UnableToScale = None, hw_ScalingLimited = None,
     hw_ImplicitMaxReplicas = None, hw_ScaleDownStabilized = None, hw_AtMinimumReplicas = None,
     hw_KEDAInactiveTrigger = None, hw_VPAConflict = None, hw_Churn = None\<rparr>"

record resolved_weights =
  scalingInactive :: int
  unableToScale :: int
  scalingLimited :: int
  implicitMaxReplicas :: int
  scaleDownStabilized :: int
  atMinimumReplicas :: int
  kedaInactiveTrigger :: int
  vpaConflict :: int
  churn :: int

definition healthScoreMax :: int where "healthScoreMax = 100"

definition weightOr :: "int option \<Rightarrow> int \<Rightarrow> int" where
  "weightOr w defaultVal = (case w of Some v \<Rightarrow> v | None \<Rightarrow> defaultVal)"

definition resolveWeights :: "health_weights \<Rightarrow> resolved_weights" where
  "resolveWeights w =
     \<lparr>scalingInactive = weightOr (hw_ScalingInactive w) 45,
      unableToScale = weightOr (hw_UnableToScale w) 35,
      scalingLimited = weightOr (hw_ScalingLimited w) 25,
      implicitMaxReplicas = weightOr (hw_ImplicitMaxReplicas w) 20,
      scaleDownStabilized = weightOr (hw_ScaleDownStabilized w) 10,
      atMinimumReplicas = weightOr (hw_AtMinimumReplicas w) 5,
      kedaInactiveTrigger = weightOr (hw_KEDAInactiveTrigger w) 15,
      vpaConflict = weightOr (hw_VPAConflict w) 20,
      churn = weightOr (hw_Churn w) 15\<rparr>"

subsection \<open>The accumulator\<close>

definition NewHealthAccumulator :: "int \<Rightarrow> health_result" where
  "NewHealthAccumulator baseScore = \<lparr>hr_State = HealthUnknown [], hr_Score = baseScore, hr_Signals = []\<rparr>"

definition AddPenalty :: "string \<Rightarrow> int \<Rightarrow> health_state \<Rightarrow> health_result \<Rightarrow> health_result" where
  "AddPenalty reason penalty severity h =
     h\<lparr>hr_Score := wrap64 (hr_Score h - penalty),
       hr_Signals := hr_Signals h @ [\<lparr>hs_Reason = reason, hs_Penalty = penalty, hs_Severity = severity\<rparr>]\<rparr>"

definition SetState :: "health_state \<Rightarrow> health_result \<Rightarrow> health_result" where
  "SetState s h = h\<lparr>hr_State := s\<rparr>"

subsection \<open>The base result of an HPA\<close>

definition hasCondition :: "hpa_condition list \<Rightarrow> string \<Rightarrow> string \<Rightarrow> bool" where
  "hasCondition conditions conditionType status =
     list_ex (\<lambda>c. c_Type c = conditionType \<and> c_Status c = status) conditions"

definition hasMetricAboveTarget ::
    "('q, 's) k8s_lib \<Rightarrow> ('q, 's) metric_status list \<Rightarrow> ('q, 's) hpa \<Rightarrow> bool" where
  "hasMetricAboveTarget K currentMetrics h =
     list_ex (\<lambda>m. case snd (metricImpactRatio K h m) of None \<Rightarrow> False | Some ratio \<Rightarrow> f_lt (Fin 1) ratio)
       currentMetrics"

fun applyConditionPenalties ::
    "resolved_weights \<Rightarrow> hpa_condition list \<Rightarrow> health_result \<times> health_state \<Rightarrow> health_result \<times> health_state" where
  "applyConditionPenalties w [] (acc, health) = (acc, health)"
| "applyConditionPenalties w (c # cs) (acc, health) =
     applyConditionPenalties w cs
       (if c_Type c = ScalingActive \<and> c_Status c \<noteq> ConditionTrue then
          (AddPenalty ''ScalingActive is not True'' (scalingInactive w) HealthError acc, HealthError)
        else if c_Type c = AbleToScale \<and> c_Status c \<noteq> ConditionTrue then
          (AddPenalty ''AbleToScale is not True'' (unableToScale w) HealthError acc, HealthError)
        else if c_Type c = ScalingLimited \<and> c_Status c = ConditionTrue then
          (AddPenalty ''ScalingLimited is True'' (scalingLimited w) HealthLimited acc,
           if health \<noteq> HealthError then HealthLimited else health)
        else if c_Type c = AbleToScale \<and> c_Reason c = ReasonScaleDownStabilized then
          (AddPenalty ReasonScaleDownStabilized (scaleDownStabilized w) HealthStabilized acc,
           if health = HealthOK then HealthStabilized else health)
        else (acc, health))"

definition applyMaxReplicasCeilingPenalty ::
    "('q, 's) k8s_lib \<Rightarrow> ('q, 's) hpa \<Rightarrow> resolved_weights \<Rightarrow> health_result \<times> health_state
     \<Rightarrow> health_result \<times> health_state" where
  "applyMaxReplicasCeilingPenalty K h w = (\<lambda>(acc, health).
     if desiredOf h \<noteq> maxReplicasOf h then (acc, health)
     else if hasCondition (conditionsOf h) ScalingLimited ConditionTrue
          \<or> \<not> hasMetricAboveTarget K (currentMetricsOf h) h then (acc, health)
     else (AddPenalty ''Implicit maxReplicas ceiling (desired==max with pressure)''
             (implicitMaxReplicas w) HealthLimited acc,
           if health = HealthOK then HealthLimited else health))"

definition HealthWithWeights ::
    "('q, 's) k8s_lib \<Rightarrow> ('q, 's) hpa option \<Rightarrow> int \<Rightarrow> health_weights \<Rightarrow> health_result" where
  "HealthWithWeights K hp minReplicas weights = (case hp of
     None \<Rightarrow> \<lparr>hr_State = HealthError, hr_Score = 0, hr_Signals = []\<rparr>
   | Some h \<Rightarrow>
       (let w = resolveWeights weights;
            (acc, health) = applyConditionPenalties w (conditionsOf h)
              (NewHealthAccumulator healthScoreMax, HealthOK);
            (acc, health) = applyMaxReplicasCeilingPenalty K h w (acc, health);
            acc = (if desiredOf h = minReplicas \<and> hasCondition (conditionsOf h) ScalingLimited ConditionTrue
                   then AddPenalty ''At minimum replicas with ScalingLimited'' (atMinimumReplicas w) health acc
                   else acc);
            result = SetState health acc
        in if hr_Score result < 0 then result\<lparr>hr_Score := 0\<rparr> else result))"

definition Health :: "('q, 's) k8s_lib \<Rightarrow> ('q, 's) hpa option \<Rightarrow> int \<Rightarrow> string \<times> int" where
  "Health K hp minReplicas =
     (let result = HealthWithWeights K hp minReplicas no_weights
      in (state_string (hr_State result), hr_Score result))"

subsection \<open>Dynamic penalties of an analysis\<close>

text \<open>
  The fields of \<open>Analysis\<close> the reconciliation reads and writes. The KEDA block is its two
  lists of status strings (\<open>Health[].Status\<close> and \<open>Triggers[].HealthStatus\<close>); the churn block
  is its level.
\<close>

record health_baseline =
  bl_score :: int
  bl_state :: health_state
  bl_signals :: "health_signal list"

record analysis =
  an_HealthScore :: int
  an_Health :: string
  an_HealthResult :: "health_result option"
  an_KEDAInfo :: "(string list \<times> string list) option"
  an_VPAConflict :: bool
  an_ChurnLevel :: "string option"
  an_dynamicHealthBaseline :: "health_baseline option"

abbreviation enrichmentPenaltyKEDAInactive :: string where
  "enrichmentPenaltyKEDAInactive \<equiv> ''KEDA metric health failing''"
abbreviation enrichmentPenaltyVPAConflict :: string where
  "enrichmentPenaltyVPAConflict \<equiv> ''VPA conflict detected''"
abbreviation enrichmentPenaltyChurn :: string where
  "enrichmentPenaltyChurn \<equiv> ''High replica churn (thrashing) detected''"

definition isDynamicHealthSignal :: "string \<Rightarrow> bool" where
  "isDynamicHealthSignal reason \<longleftrightarrow>
     reason = enrichmentPenaltyKEDAInactive \<or> reason = enrichmentPenaltyVPAConflict \<or>
     reason = enrichmentPenaltyChurn"

fun state_from_signals :: "health_state \<Rightarrow> health_signal list \<Rightarrow> health_state" where
  "state_from_signals state [] = state"
| "state_from_signals state (sig # sigs) =
     (case hs_Severity sig of
        HealthError \<Rightarrow> HealthError
      | HealthLimited \<Rightarrow>
          state_from_signals (if state \<noteq> HealthError then HealthLimited else state) sigs
      | HealthStabilized \<Rightarrow>
          state_from_signals (if state = HealthOK then HealthStabilized else state) sigs
      | _ \<Rightarrow> state_from_signals state sigs)"

definition healthStateFromSignals :: "health_signal list \<Rightarrow> health_state" where
  "healthStateFromSignals signals = state_from_signals HealthOK signals"

fun recover_baseline ::
    "health_signal list \<Rightarrow> int \<times> bool \<times> health_signal list \<Rightarrow> int \<times> bool \<times> health_signal list" where
  "recover_baseline [] (score, removed, signals) = (score, removed, signals)"
| "recover_baseline (sig # sigs) (score, removed, signals) =
     (if isDynamicHealthSignal (hs_Reason sig)
      then recover_baseline sigs (wrap64 (score + hs_Penalty sig), True, signals)
      else recover_baseline sigs (score, removed, signals @ [sig]))"

definition ensureDynamicHealthBaseline :: "analysis \<Rightarrow> health_baseline" where
  "ensureDynamicHealthBaseline a = (case an_dynamicHealthBaseline a of
     Some b \<Rightarrow> b
   | None \<Rightarrow>
       (let (score, removed, signals) = (case an_HealthResult a of
              None \<Rightarrow> (an_HealthScore a, False, [])
            | Some r \<Rightarrow> recover_baseline (hr_Signals r) (an_HealthScore a, False, []));
            state = (if removed then healthStateFromSignals signals else string_state (an_Health a));
            score = (if score > healthScoreMax then healthScoreMax else score)
        in \<lparr>bl_score = score, bl_state = state, bl_signals = signals\<rparr>))"

definition hasFailingKEDAMetric :: "analysis \<Rightarrow> bool" where
  "hasFailingKEDAMetric a = (case an_KEDAInfo a of
     None \<Rightarrow> False
   | Some (metrics, triggers) \<Rightarrow>
       list_ex (\<lambda>s. equal_fold s ''Failing'') metrics \<or> list_ex (\<lambda>s. equal_fold s ''Failing'') triggers)"

definition hasHighChurn :: "analysis \<Rightarrow> bool" where
  "hasHighChurn a \<longleftrightarrow> an_ChurnLevel a = Some ''HIGH'' \<or> an_ChurnLevel a = Some ''CRITICAL''"

text \<open>
  \<open>reconcileDynamicHealthPenalties\<close> on a non-nil analysis: the baseline is stored in the
  analysis the first time, then the result is rebuilt from it.
\<close>

definition reconcile_dynamic :: "analysis \<Rightarrow> health_weights \<Rightarrow> analysis" where
  "reconcile_dynamic a weights =
     (let baseline = ensureDynamicHealthBaseline a;
          a = a\<lparr>an_dynamicHealthBaseline := Some baseline\<rparr>;
          resolved = resolveWeights weights;
          acc = (NewHealthAccumulator (bl_score baseline))\<lparr>hr_Signals := bl_signals baseline\<rparr>;
          acc = (if hasFailingKEDAMetric a
                 then AddPenalty enrichmentPenaltyKEDAInactive (kedaInactiveTrigger resolved) HealthLimited acc
                 else acc);
          acc = (if an_VPAConflict a
                 then AddPenalty enrichmentPenaltyVPAConflict (vpaConflict resolved) HealthLimited acc
                 else acc);
          acc = (if hasHighChurn a
                 then AddPenalty enrichmentPenaltyChurn (churn resolved) HealthLimited acc
                 else acc);
          hasDynamicPenalty = (hasFailingKEDAMetric a \<or> an_VPAConflict a \<or> hasHighChurn a);
          state = (if hasDynamicPenalty \<and> bl_state baseline \<noteq> HealthError then HealthLimited
                   else bl_state baseline);
          result = SetState state acc;
          result = (if hr_Score result < 0 then result\<lparr>hr_Score := 0\<rparr> else result)
      in a\<lparr>an_HealthScore := hr_Score result, an_Health := state_string (hr_State result),
           an_HealthResult := Some result\<rparr>)"

definition reconcileDynamicHealthPenalties :: "analysis option \<Rightarrow> health_weights \<Rightarrow> analysis option" where
  "reconcileDynamicHealthPenalties a weights = map_option (\<lambda>a. reconcile_dynamic a weights) a"

definition ApplyEnrichmentPenalties :: "analysis option \<Rightarrow> health_weights \<Rightarrow> analysis option" where
  "ApplyEnrichmentPenalties a weights = reconcileDynamicHealthPenalties a weights"

definition ApplyChurnPenalty :: "analysis option \<Rightarrow> health_weights \<Rightarrow> analysis option" where
  "ApplyChurnPenalty a weights = reconcileDynamicHealthPenalties a weights"

subsection \<open>Accounting\<close>

text \<open>An accumulator accounts for a base score: every point it lost is a recorded signal.\<close>

definition penalties :: "health_signal list \<Rightarrow> int" where
  "penalties signals = sum_list (map hs_Penalty signals)"

definition accounts :: "int \<Rightarrow> health_result \<Rightarrow> bool" where
  "accounts base acc \<longleftrightarrow> hr_Score acc = wrap64 (base - penalties (hr_Signals acc))"

lemma penalties_simps [simp]:
  "penalties [] = 0" "penalties (x # xs) = hs_Penalty x + penalties xs"
  "penalties (xs @ ys) = penalties xs + penalties ys"
  by (simp_all add: penalties_def)

lemma accumulator_fields [simp]:
  "hr_Score (NewHealthAccumulator b) = b" "hr_Signals (NewHealthAccumulator b) = []"
  "hr_Score (SetState s acc) = hr_Score acc" "hr_Signals (SetState s acc) = hr_Signals acc"
  "hr_State (SetState s acc) = s"
  "hr_Signals (AddPenalty r p v acc) =
     hr_Signals acc @ [\<lparr>hs_Reason = r, hs_Penalty = p, hs_Severity = v\<rparr>]"
  by (simp_all add: NewHealthAccumulator_def SetState_def AddPenalty_def)

lemma accounts_New [simp]: "in64 b \<Longrightarrow> accounts b (NewHealthAccumulator b)"
  by (simp add: accounts_def)

lemma accounts_SetState [simp]: "accounts b (SetState s acc) = accounts b acc"
  by (simp add: accounts_def)

lemma accounts_AddPenalty [simp]: "accounts b acc \<Longrightarrow> accounts b (AddPenalty r p v acc)"
  by (simp add: accounts_def AddPenalty_def wrap64_diff diff_diff_eq)

lemma accounts_conditions:
  "accounts b (fst s) \<Longrightarrow> accounts b (fst (applyConditionPenalties w cs s))"
proof (induction cs arbitrary: s)
  case Nil
  then show ?case by (cases s) simp
next
  case (Cons c cs)
  then show ?case by (cases s) (simp only: applyConditionPenalties.simps Cons.IH fst_conv accounts_AddPenalty split: if_split; simp)
qed

lemma accounts_ceiling:
  "accounts b (fst s) \<Longrightarrow> accounts b (fst (applyMaxReplicasCeilingPenalty K h w s))"
  by (cases s) (simp add: applyMaxReplicasCeilingPenalty_def)

subsection \<open>The state the conditions decide\<close>

definition cond_error :: "hpa_condition \<Rightarrow> bool" where
  "cond_error c \<longleftrightarrow> c_Type c \<in> {ScalingActive, AbleToScale} \<and> c_Status c \<noteq> ConditionTrue"

definition cond_limited :: "hpa_condition \<Rightarrow> bool" where
  "cond_limited c \<longleftrightarrow> c_Type c = ScalingLimited \<and> c_Status c = ConditionTrue"

definition cond_stabilized :: "hpa_condition \<Rightarrow> bool" where
  "cond_stabilized c \<longleftrightarrow>
     c_Type c = AbleToScale \<and> c_Status c = ConditionTrue \<and> c_Reason c = ReasonScaleDownStabilized"

lemmas cond_defs = cond_error_def cond_limited_def cond_stabilized_def

text \<open>The states the condition walk produces, by severity.\<close>

fun walk_state :: "health_state \<Rightarrow> bool \<Rightarrow> bool \<Rightarrow> bool \<Rightarrow> health_state" where
  "walk_state health err limited stab =
     (if err \<or> health = HealthError then HealthError
      else if limited \<or> health = HealthLimited then HealthLimited
      else if stab \<or> health = HealthStabilized then HealthStabilized else HealthOK)"

lemma condition_step:
  assumes "health \<in> {HealthOK, HealthError, HealthLimited, HealthStabilized}"
  obtains acc' where "applyConditionPenalties w (c # cs) (acc, health) = applyConditionPenalties w cs
    (acc', walk_state health (cond_error c) (cond_limited c) (cond_stabilized c))"
proof (cases "c_Type c = ScalingActive \<or> c_Type c = AbleToScale \<or> c_Type c = ScalingLimited")
  case True
  then show ?thesis
    using assms that
    by (elim disjE; cases "c_Status c = ConditionTrue"; cases "c_Reason c = ReasonScaleDownStabilized")
      (simp add: cond_defs split: if_splits; fastforce)+
next
  case False
  with assms that show ?thesis by (simp add: cond_defs; fastforce)
qed

lemma walk_state_join:
  assumes "health \<in> {HealthOK, HealthError, HealthLimited, HealthStabilized}"
  shows "walk_state (walk_state health e l s) e' l' s' = walk_state health (e \<or> e') (l \<or> l') (s \<or> s')"
    and "walk_state health e l s \<in> {HealthOK, HealthError, HealthLimited, HealthStabilized}"
  using assms by auto

lemma condition_state:
  assumes "health \<in> {HealthOK, HealthError, HealthLimited, HealthStabilized}"
  shows "snd (applyConditionPenalties w cs (acc, health)) =
     walk_state health (list_ex cond_error cs) (list_ex cond_limited cs) (list_ex cond_stabilized cs)"
  using assms
proof (induction cs arbitrary: acc health)
  case Nil
  then show ?case by auto
next
  case (Cons c cs)
  from Cons.prems obtain acc' where step: "applyConditionPenalties w (c # cs) (acc, health) =
    applyConditionPenalties w cs (acc', walk_state health (cond_error c) (cond_limited c) (cond_stabilized c))"
    by (rule condition_step)
  show ?case
    unfolding step Cons.IH [OF walk_state_join(2) [OF Cons.prems]] walk_state_join(1) [OF Cons.prems]
    by simp
qed

subsection \<open>The signals the conditions leave\<close>

definition cond_signal :: "resolved_weights \<Rightarrow> hpa_condition \<Rightarrow> health_signal option" where
  "cond_signal w c =
     (if cond_error c then
        Some \<lparr>hs_Reason = (if c_Type c = ScalingActive then ''ScalingActive is not True''
                           else ''AbleToScale is not True''),
              hs_Penalty = (if c_Type c = ScalingActive then scalingInactive w else unableToScale w),
              hs_Severity = HealthError\<rparr>
      else if cond_limited c then
        Some \<lparr>hs_Reason = ''ScalingLimited is True'', hs_Penalty = scalingLimited w, hs_Severity = HealthLimited\<rparr>
      else if cond_stabilized c then
        Some \<lparr>hs_Reason = ReasonScaleDownStabilized, hs_Penalty = scaleDownStabilized w,
              hs_Severity = HealthStabilized\<rparr>
      else None)"

abbreviation cond_signals :: "resolved_weights \<Rightarrow> hpa_condition list \<Rightarrow> health_signal list" where
  "cond_signals w cs \<equiv> List.map_filter (cond_signal w) cs"

lemma signals_step:
  "hr_Signals (fst (applyConditionPenalties w [c] (acc, health))) =
     hr_Signals acc @ (case cond_signal w c of None \<Rightarrow> [] | Some s \<Rightarrow> [s])"
  by (simp add: cond_signal_def cond_defs)

lemma condition_walk_Cons:
  "applyConditionPenalties w (c # cs) s = applyConditionPenalties w cs (applyConditionPenalties w [c] s)"
  by (cases s) (simp only: applyConditionPenalties.simps split: if_split; simp)

lemma condition_signals:
  "hr_Signals (fst (applyConditionPenalties w cs s)) = hr_Signals (fst s) @ cond_signals w cs"
proof (induction cs arbitrary: s)
  case Nil
  then show ?case by (cases s) (simp add: List.map_filter_def)
next
  case (Cons c cs)
  show ?case
    by (cases s)
      (simp add: condition_walk_Cons [of w c cs] Cons.IH signals_step List.map_filter_def
        split: option.split del: applyConditionPenalties.simps)
qed

subsection \<open>What the base result is\<close>

definition implicit_ceiling :: "('q, 's) k8s_lib \<Rightarrow> ('q, 's) hpa \<Rightarrow> bool" where
  "implicit_ceiling K h \<longleftrightarrow> desiredOf h = maxReplicasOf h \<and>
     \<not> list_ex cond_limited (conditionsOf h) \<and> hasMetricAboveTarget K (currentMetricsOf h) h"

definition base_state :: "('q, 's) k8s_lib \<Rightarrow> ('q, 's) hpa \<Rightarrow> health_state" where
  "base_state K h =
     (if list_ex cond_error (conditionsOf h) then HealthError
      else if list_ex cond_limited (conditionsOf h) then HealthLimited
      else if list_ex cond_stabilized (conditionsOf h) then HealthStabilized
      else if implicit_ceiling K h then HealthLimited else HealthOK)"

definition base_signals ::
    "('q, 's) k8s_lib \<Rightarrow> ('q, 's) hpa \<Rightarrow> int \<Rightarrow> resolved_weights \<Rightarrow> health_signal list" where
  "base_signals K h minReplicas w =
     cond_signals w (conditionsOf h)
     @ (if implicit_ceiling K h
        then [\<lparr>hs_Reason = ''Implicit maxReplicas ceiling (desired==max with pressure)'',
               hs_Penalty = implicitMaxReplicas w, hs_Severity = HealthLimited\<rparr>] else [])
     @ (if desiredOf h = minReplicas \<and> list_ex cond_limited (conditionsOf h)
        then [\<lparr>hs_Reason = ''At minimum replicas with ScalingLimited'',
               hs_Penalty = atMinimumReplicas w, hs_Severity = base_state K h\<rparr>] else [])"

lemma hasCondition_limited: "hasCondition cs ScalingLimited ConditionTrue = list_ex cond_limited cs"
  by (simp add: hasCondition_def cond_limited_def [abs_def])

lemma clamp_score: "(if hr_Score r < 0 then r\<lparr>hr_Score := 0\<rparr> else r) = r\<lparr>hr_Score := max 0 (hr_Score r)\<rparr>"
  by (cases r) (simp add: max_def)

lemma accounts_result:
  assumes "accounts b acc"
  shows "acc\<lparr>hr_Score := max 0 (hr_Score acc)\<rparr> =
    \<lparr>hr_State = hr_State acc, hr_Score = max 0 (wrap64 (b - penalties (hr_Signals acc))),
     hr_Signals = hr_Signals acc\<rparr>"
  using assms by (cases acc) (simp add: accounts_def)

lemma base_result:
  "HealthWithWeights K (Some h) minReplicas weights =
     (let sigs = base_signals K h minReplicas (resolveWeights weights)
      in \<lparr>hr_State = base_state K h, hr_Score = max 0 (wrap64 (100 - penalties sigs)), hr_Signals = sigs\<rparr>)"
proof -
  let ?w = "resolveWeights weights"
  let ?lim = "list_ex cond_limited (conditionsOf h)"
  obtain acc health where walk: "applyConditionPenalties ?w (conditionsOf h)
      (NewHealthAccumulator healthScoreMax, HealthOK) = (acc, health)" by fastforce
  have acc: "accounts 100 acc" "hr_Signals acc = cond_signals ?w (conditionsOf h)"
    using accounts_conditions [of 100 "(NewHealthAccumulator healthScoreMax, HealthOK)" ?w "conditionsOf h"]
      condition_signals [of ?w "conditionsOf h" "(NewHealthAccumulator healthScoreMax, HealthOK)"]
    by (simp_all add: walk [unfolded healthScoreMax_def] healthScoreMax_def in64_def)
  have health: "health = walk_state HealthOK (list_ex cond_error (conditionsOf h)) ?lim
      (list_ex cond_stabilized (conditionsOf h))"
    using condition_state [of HealthOK ?w "conditionsOf h" "NewHealthAccumulator healthScoreMax"]
    by (simp add: walk del: walk_state.simps)
  obtain acc2 health2 where ceiling: "applyMaxReplicasCeilingPenalty K h ?w (acc, health) = (acc2, health2)"
    by fastforce
  have acc2: "accounts 100 acc2" using accounts_ceiling [of 100 "(acc, health)" K h ?w] acc ceiling by simp
  have sig2: "hr_Signals acc2 = cond_signals ?w (conditionsOf h) @ (if implicit_ceiling K h
      then [\<lparr>hs_Reason = ''Implicit maxReplicas ceiling (desired==max with pressure)'',
             hs_Penalty = implicitMaxReplicas ?w, hs_Severity = HealthLimited\<rparr>] else [])"
    using ceiling acc(2)
    by (auto simp: applyMaxReplicasCeilingPenalty_def implicit_ceiling_def hasCondition_limited split: if_splits)
  have state: "health2 = base_state K h"
    using ceiling health
    by (auto simp: applyMaxReplicasCeilingPenalty_def implicit_ceiling_def hasCondition_limited
        base_state_def split: if_splits)
  let ?acc3 = "SetState health2 (if desiredOf h = minReplicas \<and> ?lim
      then AddPenalty ''At minimum replicas with ScalingLimited'' (atMinimumReplicas ?w) health2 acc2 else acc2)"
  have acc3: "accounts 100 ?acc3" "hr_Signals ?acc3 = base_signals K h minReplicas ?w"
    using acc2 sig2 by (simp_all add: base_signals_def state)
  have "HealthWithWeights K (Some h) minReplicas weights = ?acc3\<lparr>hr_Score := max 0 (hr_Score ?acc3)\<rparr>"
    by (simp only: HealthWithWeights_def option.case Let_def walk ceiling prod.case hasCondition_limited clamp_score)
  also have "\<dots> = (let sigs = hr_Signals ?acc3 in \<lparr>hr_State = hr_State ?acc3,
      hr_Score = max 0 (wrap64 (100 - penalties sigs)), hr_Signals = sigs\<rparr>)"
    unfolding Let_def by (rule accounts_result [OF acc3(1)])
  also have "hr_State ?acc3 = base_state K h" by (simp add: state)
  finally show ?thesis unfolding acc3(2) .
qed

subsection \<open>The reconciliation\<close>

text \<open>The penalties an analysis carries beside its base result.\<close>

definition dynamic_signals :: "analysis \<Rightarrow> resolved_weights \<Rightarrow> health_signal list" where
  "dynamic_signals a w =
     (if hasFailingKEDAMetric a
      then [\<lparr>hs_Reason = enrichmentPenaltyKEDAInactive, hs_Penalty = kedaInactiveTrigger w, hs_Severity = HealthLimited\<rparr>] else [])
     @ (if an_VPAConflict a
        then [\<lparr>hs_Reason = enrichmentPenaltyVPAConflict, hs_Penalty = vpaConflict w, hs_Severity = HealthLimited\<rparr>] else [])
     @ (if hasHighChurn a
        then [\<lparr>hs_Reason = enrichmentPenaltyChurn, hs_Penalty = churn w, hs_Severity = HealthLimited\<rparr>] else [])"

definition dynamic_result :: "health_baseline \<Rightarrow> health_signal list \<Rightarrow> health_result" where
  "dynamic_result b dyn =
     \<lparr>hr_State = (if dyn \<noteq> [] \<and> bl_state b \<noteq> HealthError then HealthLimited else bl_state b),
      hr_Score = max 0 (if dyn = [] then bl_score b else wrap64 (bl_score b - penalties dyn)),
      hr_Signals = bl_signals b @ dyn\<rparr>"

definition with_result :: "analysis \<Rightarrow> health_baseline \<Rightarrow> health_result \<Rightarrow> analysis" where
  "with_result a b r = a\<lparr>an_HealthScore := hr_Score r, an_Health := state_string (hr_State r),
     an_HealthResult := Some r, an_dynamicHealthBaseline := Some b\<rparr>"

lemma AddPenalty_again:
  "wrap64 (wrap64 (wrap64 (s - p) - q) - r) = wrap64 (s - (p + (q + r)))"
  "wrap64 (wrap64 (s - p) - q) = wrap64 (s - (p + q))"
  by (simp_all add: wrap64_diff diff_diff_eq add.assoc)

lemma baseline_field_irrelevant [simp]:
  "hasFailingKEDAMetric (a\<lparr>an_dynamicHealthBaseline := b\<rparr>) = hasFailingKEDAMetric a"
  "hasHighChurn (a\<lparr>an_dynamicHealthBaseline := b\<rparr>) = hasHighChurn a"
  "an_VPAConflict (a\<lparr>an_dynamicHealthBaseline := b\<rparr>) = an_VPAConflict a"
  by (simp_all add: hasFailingKEDAMetric_def hasHighChurn_def)

lemma finish_result:
  "hr_Score acc = score \<Longrightarrow> hr_Signals acc = sigs \<Longrightarrow>
     (SetState st acc)\<lparr>hr_Score := max 0 (hr_Score (SetState st acc))\<rparr> =
     \<lparr>hr_State = st, hr_Score = max 0 score, hr_Signals = sigs\<rparr>"
  by (cases acc) (simp add: SetState_def)

lemma reconcile_result:
  "reconcile_dynamic a weights =
     (let b = ensureDynamicHealthBaseline a
      in with_result a b (dynamic_result b (dynamic_signals a (resolveWeights weights))))"
proof -
  let ?b = "ensureDynamicHealthBaseline a" and ?w = "resolveWeights weights"
  let ?a = "a\<lparr>an_dynamicHealthBaseline := Some ?b\<rparr>"
  let ?acc0 = "(NewHealthAccumulator (bl_score ?b))\<lparr>hr_Signals := bl_signals ?b\<rparr>"
  let ?acc1 = "if hasFailingKEDAMetric a
     then AddPenalty enrichmentPenaltyKEDAInactive (kedaInactiveTrigger ?w) HealthLimited ?acc0 else ?acc0"
  let ?acc2 = "if an_VPAConflict a
     then AddPenalty enrichmentPenaltyVPAConflict (vpaConflict ?w) HealthLimited ?acc1 else ?acc1"
  let ?acc3 = "if hasHighChurn a
     then AddPenalty enrichmentPenaltyChurn (churn ?w) HealthLimited ?acc2 else ?acc2"
  let ?state = "if (hasFailingKEDAMetric a \<or> an_VPAConflict a \<or> hasHighChurn a) \<and> bl_state ?b \<noteq> HealthError
     then HealthLimited else bl_state ?b"
  have score: "hr_Score ?acc3 = (if dynamic_signals a ?w = [] then bl_score ?b
      else wrap64 (bl_score ?b - penalties (dynamic_signals a ?w)))"
    by (simp add: dynamic_signals_def AddPenalty_def NewHealthAccumulator_def AddPenalty_again)
  have sigs: "hr_Signals ?acc3 = bl_signals ?b @ dynamic_signals a ?w"
    by (simp add: dynamic_signals_def AddPenalty_def NewHealthAccumulator_def)
  have state: "?state = hr_State (dynamic_result ?b (dynamic_signals a ?w))"
    by (simp add: dynamic_result_def dynamic_signals_def)
  have "(SetState ?state ?acc3)\<lparr>hr_Score := max 0 (hr_Score (SetState ?state ?acc3))\<rparr> =
      dynamic_result ?b (dynamic_signals a ?w)"
    by (rule trans [OF finish_result [OF score sigs]])
      (simp add: dynamic_result_def state [unfolded dynamic_result_def, simplified])
  then show ?thesis
    unfolding reconcile_dynamic_def Let_def baseline_field_irrelevant clamp_score
    by (simp only:) (simp add: with_result_def)
qed

lemma with_result_fields [simp]:
  "an_dynamicHealthBaseline (with_result a b r) = Some b"
  "an_HealthResult (with_result a b r) = Some r"
  "an_HealthScore (with_result a b r) = hr_Score r"
  "an_Health (with_result a b r) = state_string (hr_State r)"
  "dynamic_signals (with_result a b r) w = dynamic_signals a w"
  "dynamic_signals (a\<lparr>an_dynamicHealthBaseline := z\<rparr>) w = dynamic_signals a w"
  "with_result (with_result a b r) b' r' = with_result a b' r'"
  "with_result (a\<lparr>an_dynamicHealthBaseline := z\<rparr>) b r = with_result a b r"
  by (simp_all add: with_result_def dynamic_signals_def hasFailingKEDAMetric_def hasHighChurn_def)

lemma baseline_kept [simp]: "ensureDynamicHealthBaseline (with_result a b r) = b"
  by (simp add: ensureDynamicHealthBaseline_def)

subsection \<open>Recovering a baseline that was not retained\<close>

lemma recover_baseline_app:
  "recover_baseline (xs @ ys) s = recover_baseline ys (recover_baseline xs s)"
  by (induction xs s rule: recover_baseline.induct) auto

lemma recover_static:
  "\<forall>x \<in> set xs. \<not> isDynamicHealthSignal (hs_Reason x) \<Longrightarrow>
     recover_baseline xs (score, removed, sigs) = (score, removed, sigs @ xs)"
  by (induction xs arbitrary: sigs) auto

lemma recover_dynamic:
  "\<forall>x \<in> set xs. isDynamicHealthSignal (hs_Reason x) \<Longrightarrow> xs \<noteq> [] \<Longrightarrow>
     recover_baseline xs (score, removed, sigs) = (wrap64 (score + penalties xs), True, sigs)"
proof (induction xs arbitrary: score removed)
  case (Cons x xs)
  show ?case
  proof (cases "xs = []")
    case False
    with Cons show ?thesis by (simp add: wrap64_shift add.assoc)
  qed (use Cons in simp)
qed simp

lemma dynamic_signals_dynamic: "\<forall>x \<in> set (dynamic_signals a w). isDynamicHealthSignal (hs_Reason x)"
  by (auto simp: dynamic_signals_def isDynamicHealthSignal_def split: if_splits)

lemma string_state_inverse: "state_string (string_state s) = s"
  by (simp add: string_state_def)

lemma recovered_baseline:
  assumes static: "\<forall>x \<in> set (bl_signals b). \<not> isDynamicHealthSignal (hs_Reason x)"
    and state: "bl_state b = healthStateFromSignals (bl_signals b)"
    and score: "in64 (bl_score b)" "bl_score b \<le> healthScoreMax"
    and dyn: "dyn \<noteq> []" "\<forall>x \<in> set dyn. isDynamicHealthSignal (hs_Reason x)"
    and unclamped: "0 \<le> wrap64 (bl_score b - penalties dyn)"
  shows "ensureDynamicHealthBaseline ((with_result a b' (dynamic_result b dyn))\<lparr>an_dynamicHealthBaseline := None\<rparr>) = b"
proof -
  have "recover_baseline (bl_signals b @ dyn) (wrap64 (bl_score b - penalties dyn), False, []) =
      (wrap64 (wrap64 (bl_score b - penalties dyn) + penalties dyn), True, bl_signals b)"
    using static dyn by (simp add: recover_baseline_app recover_static recover_dynamic)
  also have "wrap64 (wrap64 (bl_score b - penalties dyn) + penalties dyn) = bl_score b"
    using score by (simp add: wrap64_shift)
  finally have rec: "recover_baseline (bl_signals b @ dyn) (wrap64 (bl_score b - penalties dyn), False, []) =
    (bl_score b, True, bl_signals b)" .
  have "an_HealthScore (with_result a b' (dynamic_result b dyn)) = wrap64 (bl_score b - penalties dyn)"
    using unclamped dyn by (simp add: dynamic_result_def)
  with rec score state show ?thesis
    by (simp add: ensureDynamicHealthBaseline_def dynamic_result_def)
qed

subsection \<open>Properties\<close>

abbreviation has_severity :: "health_state \<Rightarrow> health_signal list \<Rightarrow> bool" where
  "has_severity v sigs \<equiv> list_ex (\<lambda>x. hs_Severity x = v) sigs"

lemma state_from_signals_walk:
  assumes "st \<in> {HealthOK, HealthLimited, HealthStabilized}"
  shows "state_from_signals st sigs =
     walk_state st (has_severity HealthError sigs) (has_severity HealthLimited sigs)
       (has_severity HealthStabilized sigs)"
  using assms
proof (induction sigs arbitrary: st)
  case (Cons x sigs)
  then show ?case by (cases "hs_Severity x"; elim insertE emptyE) simp_all
qed auto

lemma cond_signals_severity:
  "has_severity HealthError (cond_signals w cs) = list_ex cond_error cs"
  "\<not> list_ex cond_error cs \<Longrightarrow> has_severity HealthLimited (cond_signals w cs) = list_ex cond_limited cs"
  by (induction cs) (auto simp: List.map_filter_def cond_signal_def)

lemma cond_signal_None: "cond_signal w c = None \<longleftrightarrow> \<not> cond_error c \<and> \<not> cond_limited c \<and> \<not> cond_stabilized c"
  by (simp add: cond_signal_def)

lemma map_filter_Nil_iff: "List.map_filter f xs = [] \<longleftrightarrow> (\<forall>x \<in> set xs. f x = None)"
  by (induction xs) (auto simp: List.map_filter_def)

lemma no_signal_iff_ok: "base_signals K h m w = [] \<longleftrightarrow> base_state K h = HealthOK"
  by (auto simp: base_signals_def base_state_def map_filter_Nil_iff cond_signal_None list_ex_iff)

lemma cond_signal_penalty:
  "cond_signal w c = Some x \<Longrightarrow>
     hs_Penalty x \<in> {scalingInactive w, unableToScale w, scalingLimited w, scaleDownStabilized w}"
  by (auto simp: cond_signal_def split: if_split_asm)

lemma base_signal_penalty:
  assumes "x \<in> set (base_signals K h m w)"
  shows "hs_Penalty x \<in> {scalingInactive w, unableToScale w, scalingLimited w, scaleDownStabilized w,
    implicitMaxReplicas w, atMinimumReplicas w}"
proof -
  have "set (cond_signals w cs) = {y. \<exists>c \<in> set cs. cond_signal w c = Some y}" for cs
    by (force simp: List.map_filter_def)
  with assms show ?thesis
    unfolding base_signals_def set_append by (auto dest: cond_signal_penalty split: if_split_asm)
qed

lemma default_penalty_range:
  assumes "x \<in> set (base_signals K h m (resolveWeights no_weights))"
  shows "5 \<le> hs_Penalty x \<and> hs_Penalty x \<le> 45"
  using base_signal_penalty [OF assms] by (auto simp: resolveWeights_def weightOr_def)

lemma length_base_signals: "length (base_signals K h m w) \<le> length (conditionsOf h) + 2"
  by (simp add: base_signals_def List.map_filter_def) (meson le_SucI length_filter_le)

lemma penalties_range:
  assumes "\<forall>x \<in> set xs. lo \<le> hs_Penalty x \<and> hs_Penalty x \<le> hi"
  shows "lo * int (length xs) \<le> penalties xs \<and> penalties xs \<le> hi * int (length xs)"
  using assms by (induction xs) (auto simp: algebra_simps)

text \<open>The base health result is its declarative description: the worst condition decides the
  state, every matching condition, the implicit ceiling and the minimum leave one signal each in
  order, and the score is 100 less all recorded penalties, never below 0.\<close>

theorem HealthWithWeights_result:
  "HealthWithWeights K (Some h) minReplicas weights =
     (let sigs = base_signals K h minReplicas (resolveWeights weights)
      in \<lparr>hr_State = base_state K h, hr_Score = max 0 (wrap64 (100 - penalties sigs)), hr_Signals = sigs\<rparr>)"
  by (rule base_result)

text \<open>With the default weights the score is between 0 and 100, and it is 100 exactly when the
  state is OK.\<close>

theorem Health_default_score:
  assumes "int (length (conditionsOf h)) \<le> 1000000000000"
  shows "0 \<le> snd (Health K (Some h) m) \<and> snd (Health K (Some h) m) \<le> 100
    \<and> (snd (Health K (Some h) m) = 100 \<longleftrightarrow> hr_State (HealthWithWeights K (Some h) m no_weights) = HealthOK)"
proof -
  let ?s = "base_signals K h m (resolveWeights no_weights)"
  have len: "int (length ?s) \<le> 1000000000002" using assms length_base_signals [of K h m "resolveWeights no_weights"] by linarith
  have pen: "5 * int (length ?s) \<le> penalties ?s" "penalties ?s \<le> 45 * int (length ?s)"
    using penalties_range [of ?s 5 45] default_penalty_range [of _ K h m] by blast+
  have "in64 (100 - penalties ?s)" using len pen by (simp add: in64_def)
  then have score: "snd (Health K (Some h) m) = max 0 (100 - penalties ?s)"
    by (simp add: Health_def base_result Let_def)
  moreover have "?s = [] \<longleftrightarrow> penalties ?s \<le> 0" using pen by (cases ?s) (auto simp: algebra_simps)
  ultimately show ?thesis
    using pen no_signal_iff_ok [of K h m "resolveWeights no_weights"] by (auto simp: base_result Let_def)
qed

definition sample_hpa :: "int \<Rightarrow> hpa_condition list \<Rightarrow> (int, string) hpa" where
  "sample_hpa desired conds =
     \<lparr>hpa_Namespace = ''default'', hpa_Name = ''web'',
      hpa_Spec = \<lparr>sp_MinReplicas = Some 2, sp_MaxReplicas = 10, sp_Metrics = [], sp_Behavior = None\<rparr>,
      hpa_Status = \<lparr>st_CurrentReplicas = 10, st_DesiredReplicas = desired, st_CurrentMetrics = [],
                    st_Conditions = conds\<rparr>\<rparr>"

lemma Health_default_score_witness:
  "0 \<le> snd (Health int_lib (Some (sample_hpa 10 [])) 2) \<and> snd (Health int_lib (Some (sample_hpa 10 [])) 2) \<le> 100"
  using Health_default_score [of "sample_hpa 10 []" int_lib 2] by (simp add: sample_hpa_def)

text \<open>Reconciling rebuilds the result from the retained base: repeating it with other weights
  gives what the last weights alone give, whatever was applied before.\<close>

theorem reconcile_last_wins:
  "reconcileDynamicHealthPenalties (reconcileDynamicHealthPenalties a w1) w2 =
     reconcileDynamicHealthPenalties a w2"
  by (cases a) (simp_all add: reconcileDynamicHealthPenalties_def reconcile_result Let_def)

text \<open>When the baseline was not retained, it is recovered from the recorded signals: an analysis
  that lost it reconciles to the same result, provided the base state is the one its signals
  give and the score had not been clamped at 0.\<close>

theorem reconcile_recovers:
  fixes a :: analysis
  defines "b \<equiv> ensureDynamicHealthBaseline a"
  assumes "\<forall>x \<in> set (bl_signals b). \<not> isDynamicHealthSignal (hs_Reason x)"
    and "bl_state b = healthStateFromSignals (bl_signals b)"
    and "in64 (bl_score b)" and "bl_score b \<le> healthScoreMax"
    and "dynamic_signals a (resolveWeights w1) \<noteq> []"
    and "0 \<le> wrap64 (bl_score b - penalties (dynamic_signals a (resolveWeights w1)))"
  shows "reconcile_dynamic ((reconcile_dynamic a w1)\<lparr>an_dynamicHealthBaseline := None\<rparr>) w2 =
    reconcile_dynamic a w2"
  using assms(2-) recovered_baseline [of b "dynamic_signals a (resolveWeights w1)" a b]
    dynamic_signals_dynamic [of a "resolveWeights w1"]
  by (simp add: reconcile_result b_def [symmetric] Let_def)

definition sample_analysis :: analysis where
  "sample_analysis =
     \<lparr>an_HealthScore = 90, an_Health = ''STABILIZED'',
      an_HealthResult = Some \<lparr>hr_State = HealthStabilized, hr_Score = 90, hr_Signals =
        [\<lparr>hs_Reason = ReasonScaleDownStabilized, hs_Penalty = 10, hs_Severity = HealthStabilized\<rparr>]\<rparr>,
      an_KEDAInfo = Some ([''failing''], []), an_VPAConflict = True, an_ChurnLevel = Some ''HIGH'',
      an_dynamicHealthBaseline = None\<rparr>"

lemmas sample_analysis_eval = sample_analysis_def ensureDynamicHealthBaseline_def isDynamicHealthSignal_def
  healthStateFromSignals_def healthScoreMax_def string_state_def dynamic_signals_def hasFailingKEDAMetric_def
  hasHighChurn_def resolveWeights_def weightOr_def

lemma reconcile_recovers_witness:
  "reconcile_dynamic ((reconcile_dynamic sample_analysis no_weights)\<lparr>an_dynamicHealthBaseline := None\<rparr>)
     (no_weights\<lparr>hw_Churn := Some 0\<rparr>) =
   reconcile_dynamic sample_analysis (no_weights\<lparr>hw_Churn := Some 0\<rparr>)"
proof (rule reconcile_recovers)
  show "dynamic_signals sample_analysis (resolveWeights no_weights) \<noteq> []"
    by (simp add: sample_analysis_eval)
  show "0 \<le> wrap64 (bl_score (ensureDynamicHealthBaseline sample_analysis)
      - penalties (dynamic_signals sample_analysis (resolveWeights no_weights)))"
    by code_simp
qed (simp_all add: sample_analysis_eval in64_def)

text \<open>A stabilized HPA held at its implicit ceiling reports STABILIZED although one of its
  signals is LIMITED: the ceiling raises the state only from OK.\<close>

theorem stabilized_hides_ceiling:
  assumes "\<not> list_ex cond_error (conditionsOf h)" and "list_ex cond_stabilized (conditionsOf h)"
    and "implicit_ceiling K h"
  shows "hr_State (HealthWithWeights K (Some h) m w) = HealthStabilized
    \<and> healthStateFromSignals (hr_Signals (HealthWithWeights K (Some h) m w)) = HealthLimited"
proof -
  have lim: "\<not> list_ex cond_limited (conditionsOf h)" using assms(3) by (simp add: implicit_ceiling_def)
  have state: "base_state K h = HealthStabilized" using assms lim by (simp add: base_state_def)
  have "\<not> has_severity HealthError (base_signals K h m (resolveWeights w))"
    "has_severity HealthLimited (base_signals K h m (resolveWeights w))"
    using assms lim cond_signals_severity [where cs = "conditionsOf h" and w = "resolveWeights w"]
    by (auto simp: base_signals_def)
  with state show ?thesis
    by (simp add: base_result Let_def healthStateFromSignals_def state_from_signals_walk)
qed

definition ceiling_hpa :: "(int, string) hpa" where
  "ceiling_hpa =
     (let spec = \<lparr>mu_Type = ResourceMetricSourceType,
            mu_Resource = Some \<lparr>rm_Name = ''cpu'', rm_Payload = \<lparr>mt_Type = UtilizationMetricType,
              mt_Value = None, mt_AverageValue = None, mt_AverageUtilization = Some 50\<rparr>\<rparr>,
            mu_ContainerResource = None, mu_Pods = None, mu_Object = None, mu_External = None\<rparr>;
          cur = \<lparr>mu_Type = ResourceMetricSourceType,
            mu_Resource = Some \<lparr>rm_Name = ''cpu'', rm_Payload = \<lparr>mv_Value = None, mv_AverageValue = None,
              mv_AverageUtilization = Some 90\<rparr>\<rparr>,
            mu_ContainerResource = None, mu_Pods = None, mu_Object = None, mu_External = None\<rparr>
      in set_CurrentMetrics [cur] (set_Metrics [spec] (sample_hpa 10
           [\<lparr>c_Type = AbleToScale, c_Status = ConditionTrue, c_Reason = ReasonScaleDownStabilized,
             c_Message = []\<rparr>])))"

lemma stabilized_hides_ceiling_witness:
  "hr_State (HealthWithWeights int_lib (Some ceiling_hpa) 2 no_weights) = HealthStabilized
    \<and> healthStateFromSignals (hr_Signals (HealthWithWeights int_lib (Some ceiling_hpa) 2 no_weights)) = HealthLimited"
proof (rule stabilized_hides_ceiling)
  show "implicit_ceiling int_lib ceiling_hpa" by code_simp
qed (code_simp+)

end
