(* ===== verification/SimMetrics.thy ===== *)
theory SimMetrics
  imports Health
begin

section \<open>Overriding current metric values\<close>

text \<open>
  \<open>pkg/hpa/simulate\<close>: finding the metric a name denotes (\<open>simulate_metric_resolve.go\<close>), writing a
  new current value into a copy of the status (\<open>simulate_metric.go\<close>,
  \<open>simulate_metric_apply_*.go\<close>), and relative changes (\<open>simulate_metric_relative.go\<close>). The
  functions that mutate the copied HPA return the new one. A nil-pointer dereference or an
  index out of range is the error \<open>panic_err\<close>.
\<close>

definition panic_err :: go_error where
  "panic_err = sentinel_err RuntimePanic"

subsection \<open>Names\<close>

definition metricSpecNameMatches :: "('p, 's) metric_union \<Rightarrow> string \<Rightarrow> bool" where
  "metricSpecNameMatches spec name =
     (let wanted = to_lower (trim_space name) in
      if mu_Type spec = ResourceMetricSourceType then
        (case mu_Resource spec of None \<Rightarrow> False | Some r \<Rightarrow> to_lower (rm_Name r) = wanted)
      else if mu_Type spec = ContainerResourceMetricSourceType then
        (case mu_ContainerResource spec of None \<Rightarrow> False | Some c \<Rightarrow> to_lower (cm_Name c) = wanted)
      else if mu_Type spec = PodsMetricSourceType then
        (case mu_Pods spec of None \<Rightarrow> False | Some p \<Rightarrow> to_lower (mi_Name (nm_Metric p)) = wanted)
      else if mu_Type spec = ObjectMetricSourceType then
        (case mu_Object spec of None \<Rightarrow> False | Some ob \<Rightarrow> to_lower (mi_Name (om_Metric ob)) = wanted)
      else if mu_Type spec = ExternalMetricSourceType then
        (case mu_External spec of None \<Rightarrow> False | Some e \<Rightarrow> to_lower (mi_Name (nm_Metric e)) = wanted)
      else False)"

definition MetricTargetPointer :: "('p, 's) metric_union \<Rightarrow> 'p option" where
  "MetricTargetPointer spec =
     (if mu_Type spec = ResourceMetricSourceType then map_option rm_Payload (mu_Resource spec)
      else if mu_Type spec = ContainerResourceMetricSourceType then map_option cm_Payload (mu_ContainerResource spec)
      else if mu_Type spec = PodsMetricSourceType then map_option nm_Payload (mu_Pods spec)
      else if mu_Type spec = ObjectMetricSourceType then map_option om_Payload (mu_Object spec)
      else if mu_Type spec = ExternalMetricSourceType then map_option nm_Payload (mu_External spec)
      else None)"

text \<open>Writing through that pointer.\<close>

definition set_target :: "'p \<Rightarrow> ('p, 's) metric_union \<Rightarrow> ('p, 's) metric_union" where
  "set_target t spec =
     (if mu_Type spec = ResourceMetricSourceType then
        spec\<lparr>mu_Resource := map_option (\<lambda>r. r\<lparr>rm_Payload := t\<rparr>) (mu_Resource spec)\<rparr>
      else if mu_Type spec = ContainerResourceMetricSourceType then
        spec\<lparr>mu_ContainerResource := map_option (\<lambda>c. c\<lparr>cm_Payload := t\<rparr>) (mu_ContainerResource spec)\<rparr>
      else if mu_Type spec = PodsMetricSourceType then
        spec\<lparr>mu_Pods := map_option (\<lambda>m. m\<lparr>nm_Payload := t\<rparr>) (mu_Pods spec)\<rparr>
      else if mu_Type spec = ObjectMetricSourceType then
        spec\<lparr>mu_Object := map_option (\<lambda>m. m\<lparr>om_Payload := t\<rparr>) (mu_Object spec)\<rparr>
      else if mu_Type spec = ExternalMetricSourceType then
        spec\<lparr>mu_External := map_option (\<lambda>m. m\<lparr>nm_Payload := t\<rparr>) (mu_External spec)\<rparr>
      else spec)"

definition resolveMetricSpecIndexUnique :: "('q, 's) hpa option \<Rightarrow> string \<Rightarrow> go_error + nat" where
  "resolveMetricSpecIndexUnique hp name = (case hp of
     None \<Rightarrow> Inl (sentinel_err ErrNilHPA)
   | Some h \<Rightarrow>
       (case indices_where (\<lambda>m. metricSpecNameMatches m name) (metricsOf h) of
          [] \<Rightarrow> Inl (sentinel_err ErrMetricNotFound)
        | [i] \<Rightarrow> Inr i
        | matches \<Rightarrow> Inl (errorf_is ErrMetricAmbiguous ('': '' @ go_quote name @ '' matches '' @
            show_int (int (length matches)) @
            '' metrics; use a unique metric name or remove duplicate selector/container variants''))))"

definition resolveMetricSpecUnique :: "('q, 's) hpa option \<Rightarrow> string \<Rightarrow> go_error + ('q, 's) metric_spec" where
  "resolveMetricSpecUnique hp name = (case resolveMetricSpecIndexUnique hp name of
     Inl e \<Rightarrow> Inl e
   | Inr i \<Rightarrow> (case hp of None \<Rightarrow> Inl panic_err | Some h \<Rightarrow> Inr (metricsOf h ! i)))"

definition resolveMetricSpec :: "('q, 's) hpa option \<Rightarrow> string \<Rightarrow> ('q, 's) metric_spec option" where
  "resolveMetricSpec hp name = (case resolveMetricSpecUnique hp name of Inl _ \<Rightarrow> None | Inr s \<Rightarrow> Some s)"

text \<open>\<open>%#v\<close> of a metric identity.\<close>

definition go_syntax_id :: "metric_id \<Rightarrow> string" where
  "go_syntax_id i = ''metricidentity.MetricID{Type:'' @ go_quote (id_Type i) @ '', Name:'' @ go_quote (id_Name i) @
     '', Container:'' @ go_quote (id_Container i) @ '', Selector:'' @ go_quote (id_Selector i) @
     '', DescribedObject:'' @ go_quote (id_DescribedObject i) @
     '', DescribedAPIVersion:'' @ go_quote (id_DescribedAPIVersion i) @ ''}''"

definition findCurrentMetricForSpec ::
    "('q, 's) k8s_lib \<Rightarrow> ('q, 's) hpa option \<Rightarrow> ('q, 's) metric_spec \<Rightarrow> go_error + nat option" where
  "findCurrentMetricForSpec K hp spec = (case hp of
     None \<Rightarrow> Inl (sentinel_err ErrNilHPA)
   | Some h \<Rightarrow>
       (case MetricIDFromSpec K spec of
          Inl e \<Rightarrow> Inl e
        | Inr specID \<Rightarrow>
            (case indices_where (\<lambda>cur. MetricIDFromStatus K cur = Inr specID) (currentMetricsOf h) of
               [] \<Rightarrow> Inr None
             | [i] \<Rightarrow> Inr (Some i)
             | _ \<Rightarrow> Inl (errorf_is ErrMetricAmbiguous
                 ('': current status contains duplicate identity '' @ go_syntax_id specID)))))"

definition findCurrentMetric :: "('q, 's) k8s_lib \<Rightarrow> ('q, 's) hpa option \<Rightarrow> string \<Rightarrow> nat option" where
  "findCurrentMetric K hp name = (case resolveMetricSpecUnique hp name of
     Inl _ \<Rightarrow> None
   | Inr spec \<Rightarrow> (case findCurrentMetricForSpec K hp spec of Inl _ \<Rightarrow> None | Inr i \<Rightarrow> i))"

subsection \<open>Absolute values\<close>

definition parseMetricQuantity :: "('q, 's) k8s_lib \<Rightarrow> string \<Rightarrow> string \<Rightarrow> go_error + 'q" where
  "parseMetricQuantity K val metricType = (case q_parse K val of
     Inl e \<Rightarrow> Inl (plain_err (''invalid '' @ metricType @ '' metric quantity '' @ go_quote val @ '': '' @ e))
   | Inr q \<Rightarrow> Inr q)"

definition no_value :: "'q metric_value" where
  "no_value = \<lparr>mv_Value = None, mv_AverageValue = None, mv_AverageUtilization = None\<rparr>"

definition update_current ::
    "('q, 's) hpa \<Rightarrow> nat \<Rightarrow> (('q, 's) metric_status \<Rightarrow> ('q, 's) metric_status) \<Rightarrow> go_error + ('q, 's) hpa" where
  "update_current h idx f =
     (if idx < length (currentMetricsOf h)
      then Inr (set_CurrentMetrics ((currentMetricsOf h)[idx := f (currentMetricsOf h ! idx)]) h)
      else Inl panic_err)"

definition parse_utilization :: "string \<Rightarrow> go_error + int" where
  "parse_utilization val = (case parse_int32 (trim_suffix val ''%'') of
     Inl e \<Rightarrow> Inl (wrap_err (''invalid utilization value '' @ go_quote val @ '': '')
                (strconv_err ''ParseInt'' (trim_suffix val ''%'') e))
   | Inr u \<Rightarrow> Inr u)"

definition ApplyResourceMetricOverride ::
    "('q, 's) k8s_lib \<Rightarrow> ('q, 's) hpa \<Rightarrow> ('q, 's) metric_spec \<Rightarrow> nat \<Rightarrow> string \<Rightarrow> go_error + ('q, 's) hpa" where
  "ApplyResourceMetricOverride K h spec idx val = (case mu_Resource spec of
     None \<Rightarrow> Inl panic_err
   | Some r \<Rightarrow>
       if mt_Type (rm_Payload r) = UtilizationMetricType then
         (case parse_utilization val of
            Inl e \<Rightarrow> Inl e
          | Inr u \<Rightarrow> update_current h idx (\<lambda>m. m\<lparr>mu_Resource := Some \<lparr>rm_Name = rm_Name r,
              rm_Payload = no_value\<lparr>mv_AverageUtilization := Some u\<rparr>\<rparr>\<rparr>))
       else if mt_Type (rm_Payload r) = AverageValueMetricType then
         (case parseMetricQuantity K val ''resource'' of
            Inl e \<Rightarrow> Inl e
          | Inr q \<Rightarrow> update_current h idx (\<lambda>m. m\<lparr>mu_Resource := Some \<lparr>rm_Name = rm_Name r,
              rm_Payload = no_value\<lparr>mv_AverageValue := Some q\<rparr>\<rparr>\<rparr>))
       else Inl (plain_err (''unsupported resource metric target type '' @ go_quote (mt_Type (rm_Payload r)))))"

definition ApplyContainerResourceMetricOverride ::
    "('q, 's) k8s_lib \<Rightarrow> ('q, 's) hpa \<Rightarrow> ('q, 's) metric_spec \<Rightarrow> nat \<Rightarrow> string \<Rightarrow> go_error + ('q, 's) hpa" where
  "ApplyContainerResourceMetricOverride K h spec idx val = (case mu_ContainerResource spec of
     None \<Rightarrow> Inl panic_err
   | Some c \<Rightarrow>
       (case (if mt_Type (cm_Payload c) = UtilizationMetricType then
                map_sum id (\<lambda>u. no_value\<lparr>mv_AverageUtilization := Some u\<rparr>) (parse_utilization val)
              else map_sum id (\<lambda>q. no_value\<lparr>mv_AverageValue := Some q\<rparr>)
                (parseMetricQuantity K val ''container resource'')) of
          Inl e \<Rightarrow> Inl e
        | Inr current \<Rightarrow> update_current h idx (\<lambda>m. m\<lparr>mu_ContainerResource :=
            Some \<lparr>cm_Name = cm_Name c, cm_Container = cm_Container c, cm_Payload = current\<rparr>\<rparr>)))"

definition ApplyExternalMetricOverride ::
    "('q, 's) k8s_lib \<Rightarrow> ('q, 's) hpa \<Rightarrow> ('q, 's) metric_spec \<Rightarrow> nat \<Rightarrow> string \<Rightarrow> go_error + ('q, 's) hpa" where
  "ApplyExternalMetricOverride K h spec idx val = (case parseMetricQuantity K val ''external'' of
     Inl e \<Rightarrow> Inl e
   | Inr q \<Rightarrow> (case mu_External spec of
       None \<Rightarrow> Inl panic_err
     | Some x \<Rightarrow>
         if mt_Type (nm_Payload x) = AverageValueMetricType then
           update_current h idx (\<lambda>m. m\<lparr>mu_External := Some \<lparr>nm_Metric = nm_Metric x,
             nm_Payload = no_value\<lparr>mv_AverageValue := Some q\<rparr>\<rparr>\<rparr>)
         else if mt_Type (nm_Payload x) = ValueMetricType then
           update_current h idx (\<lambda>m. m\<lparr>mu_External := Some \<lparr>nm_Metric = nm_Metric x,
             nm_Payload = no_value\<lparr>mv_Value := Some q\<rparr>\<rparr>\<rparr>)
         else Inl (plain_err (''unsupported external metric target type '' @ go_quote (mt_Type (nm_Payload x))))))"

definition ApplyPodsMetricOverride ::
    "('q, 's) k8s_lib \<Rightarrow> ('q, 's) hpa \<Rightarrow> ('q, 's) metric_spec \<Rightarrow> nat \<Rightarrow> string \<Rightarrow> go_error + ('q, 's) hpa" where
  "ApplyPodsMetricOverride K h spec idx val = (case parseMetricQuantity K val ''pods'' of
     Inl e \<Rightarrow> Inl e
   | Inr q \<Rightarrow> (case mu_Pods spec of
       None \<Rightarrow> Inl panic_err
     | Some p \<Rightarrow> update_current h idx (\<lambda>m. m\<lparr>mu_Pods := Some
         \<lparr>nm_Metric = \<lparr>mi_Name = mi_Name (nm_Metric p), mi_Selector = mi_Selector (nm_Metric p)\<rparr>,
          nm_Payload = no_value\<lparr>mv_AverageValue := Some q\<rparr>\<rparr>\<rparr>)))"

definition ApplyObjectMetricOverride ::
    "('q, 's) k8s_lib \<Rightarrow> ('q, 's) hpa \<Rightarrow> ('q, 's) metric_spec \<Rightarrow> nat \<Rightarrow> string \<Rightarrow> go_error + ('q, 's) hpa" where
  "ApplyObjectMetricOverride K h spec idx val = (case parseMetricQuantity K val ''object'' of
     Inl e \<Rightarrow> Inl e
   | Inr q \<Rightarrow> (case mu_Object spec of
       None \<Rightarrow> Inl panic_err
     | Some ob \<Rightarrow>
         (let current = (if mt_Type (om_Payload ob) = AverageValueMetricType \<or> mt_AverageValue (om_Payload ob) \<noteq> None
                         then no_value\<lparr>mv_AverageValue := Some q\<rparr> else no_value\<lparr>mv_Value := Some q\<rparr>)
          in update_current h idx (\<lambda>m. m\<lparr>mu_Object := Some \<lparr>om_Metric = om_Metric ob, om_Payload = current,
               om_DescribedObject = om_DescribedObject ob\<rparr>\<rparr>))))"

subsection \<open>Relative values\<close>

definition rel_format_err :: "string \<Rightarrow> string \<Rightarrow> go_error" where
  "rel_format_err val what = plain_err (''relative value '' @ go_quote val @ what)"

definition parseRelativePercentage :: "string \<Rightarrow> go_error + f64" where
  "parseRelativePercentage val =
     (if length val < 2 \<or> \<not> has_suffix val ''%'' then
        Inl (plain_err (''invalid relative value '' @ go_quote val @ '': expected format like +20% or -10%''))
      else
        let pctText = trim_suffix val ''%'' in
        case parse_float pctText of
          Inl e \<Rightarrow> Inl (wrap_err (''invalid percentage '' @ go_quote pctText @ '': '') (strconv_err ''ParseFloat'' pctText e))
        | Inr pct \<Rightarrow>
            if is_nan pct \<or> is_inf pct then
              Inl (plain_err (''invalid percentage '' @ go_quote pctText @ '': value must be finite''))
            else
              let factor = f_add (Fin 1) (f_div pct (Fin 100)) in
              if is_nan factor \<or> is_inf factor then
                Inl (plain_err (''invalid percentage '' @ go_quote pctText @ '': relative factor must be finite''))
              else Inr pct)"

definition parseRelativeValue :: "string \<Rightarrow> int \<Rightarrow> go_error + int" where
  "parseRelativeValue val current = (case parseRelativePercentage val of
     Inl e \<Rightarrow> Inl e
   | Inr pct \<Rightarrow>
       (let factor = f_add (Fin 1) (f_div pct (Fin 100));
            result = f_round (f_mul (f_of_int current) factor)
        in if is_nan result \<or> is_inf result then Inl (rel_format_err val '' produces a non-finite result'')
           else if f_lt result (f_of_int min_int32) \<or> f_lt (f_of_int max_int32) result then
             Inl (rel_format_err val '' produces a result outside the int32 range'')
           else let result = (if f_lt result (Fin 0) then Fin 0 else result)
                in Inr (wrap32 (f_trunc result))))"

definition parseRelativeQuantity :: "('q, 's) k8s_lib \<Rightarrow> string \<Rightarrow> 'q option \<Rightarrow> go_error + 'q" where
  "parseRelativeQuantity K val current = (case current of
     None \<Rightarrow> Inl (plain_err (''cannot apply relative value '' @ go_quote val @ '' to a nil quantity''))
   | Some cur \<Rightarrow>
       if q_sign K cur < 0 then
         Inl (plain_err (''cannot apply relative value '' @ go_quote val @ '' to a negative quantity''))
       else if q_cmp K cur (q_new_milli K max_int64 ''DecimalSI'') > 0 then
         Inl (plain_err ''current quantity is outside the supported int64 milli-unit range'')
       else case parseRelativePercentage val of
         Inl e \<Rightarrow> Inl e
       | Inr pct \<Rightarrow>
           if f_eq pct (Fin 0) then Inr cur
           else
             let factor = f_add (Fin 1) (f_div pct (Fin 100));
                 result = f_round (f_mul (f_of_int (q_milli K cur)) factor)
             in if is_nan result \<or> is_inf result then Inl (rel_format_err val '' produces a non-finite quantity'')
                else if f_lt result (f_of_int min_int64) \<or> f_le (f_of_int max_int64) result then
                  Inl (rel_format_err val '' produces a quantity outside the int64 range'')
                else let newMilliValue = f_trunc result;
                         newMilliValue = (if newMilliValue < 0 then 0 else newMilliValue)
                     in Inr (q_new_milli K newMilliValue (q_format K cur)))"

definition applyRelativeResourceOverride ::
    "('q, 's) k8s_lib \<Rightarrow> ('q, 's) hpa \<Rightarrow> ('q, 's) metric_spec \<Rightarrow> nat \<Rightarrow> string \<Rightarrow> go_error + ('q, 's) hpa" where
  "applyRelativeResourceOverride K h spec idx val =
     (if length (currentMetricsOf h) \<le> idx then Inl panic_err
      else case mu_Resource spec of
        None \<Rightarrow> Inl panic_err
      | Some r \<Rightarrow> (case mu_Resource (currentMetricsOf h ! idx) of
          None \<Rightarrow> Inl (plain_err (''cannot apply relative change: no current value for metric '' @ go_quote (rm_Name r)))
        | Some current \<Rightarrow>
            if mt_Type (rm_Payload r) = UtilizationMetricType then
              (case mv_AverageUtilization (rm_Payload current) of
                 None \<Rightarrow> Inl (plain_err (''cannot apply relative change: no current utilization for metric '' @ go_quote (rm_Name r)))
               | Some u \<Rightarrow> (case parseRelativeValue val u of
                   Inl e \<Rightarrow> Inl e
                 | Inr v \<Rightarrow> update_current h idx (\<lambda>m. m\<lparr>mu_Resource := Some \<lparr>rm_Name = rm_Name r,
                     rm_Payload = no_value\<lparr>mv_AverageUtilization := Some v\<rparr>\<rparr>\<rparr>)))
            else if mt_Type (rm_Payload r) = AverageValueMetricType then
              (case mv_AverageValue (rm_Payload current) of
                 None \<Rightarrow> Inl (plain_err (''cannot apply relative change: no current average value for metric '' @ go_quote (rm_Name r)))
               | Some q \<Rightarrow> (case parseRelativeQuantity K val (Some q) of
                   Inl e \<Rightarrow> Inl e
                 | Inr v \<Rightarrow> update_current h idx (\<lambda>m. m\<lparr>mu_Resource := Some \<lparr>rm_Name = rm_Name r,
                     rm_Payload = no_value\<lparr>mv_AverageValue := Some v\<rparr>\<rparr>\<rparr>)))
            else Inl (plain_err (''unsupported resource metric target type '' @ go_quote (mt_Type (rm_Payload r))))))"

definition applyRelativeExternalOverride ::
    "('q, 's) k8s_lib \<Rightarrow> ('q, 's) hpa \<Rightarrow> ('q, 's) metric_spec \<Rightarrow> nat \<Rightarrow> string \<Rightarrow> go_error + ('q, 's) hpa" where
  "applyRelativeExternalOverride K h spec idx val =
     (if length (currentMetricsOf h) \<le> idx then Inl panic_err
      else case mu_External spec of
        None \<Rightarrow> Inl panic_err
      | Some x \<Rightarrow> (case mu_External (currentMetricsOf h ! idx) of
          None \<Rightarrow> Inl (plain_err (''cannot apply relative change: no current value for external metric '' @
                    go_quote (mi_Name (nm_Metric x))))
        | Some current \<Rightarrow>
            let t = mt_Type (nm_Payload x) in
            if t \<noteq> AverageValueMetricType \<and> t \<noteq> ValueMetricType then
              Inl (plain_err (''unsupported external metric target type '' @ go_quote t))
            else
              let currentQuantity = (if t = AverageValueMetricType then mv_AverageValue (nm_Payload current)
                                     else mv_Value (nm_Payload current))
              in if currentQuantity = None then
                   Inl (plain_err (''cannot apply relative change: current value shape does not match '' @ go_quote t @
                     '' target for external metric '' @ go_quote (mi_Name (nm_Metric x))))
                 else case parseRelativeQuantity K val currentQuantity of
                   Inl e \<Rightarrow> Inl e
                 | Inr v \<Rightarrow>
                     (let nxt = (if t = AverageValueMetricType then no_value\<lparr>mv_AverageValue := Some v\<rparr>
                                 else no_value\<lparr>mv_Value := Some v\<rparr>)
                      in update_current h idx (\<lambda>m. m\<lparr>mu_External := Some \<lparr>nm_Metric = nm_Metric x, nm_Payload = nxt\<rparr>\<rparr>))))"

definition applyRelativeOverride ::
    "('q, 's) k8s_lib \<Rightarrow> ('q, 's) hpa \<Rightarrow> ('q, 's) metric_spec \<Rightarrow> nat \<Rightarrow> string \<Rightarrow> go_error + ('q, 's) hpa" where
  "applyRelativeOverride K h spec idx val =
     (if mu_Type spec = ResourceMetricSourceType then applyRelativeResourceOverride K h spec idx val
      else if mu_Type spec = ExternalMetricSourceType then applyRelativeExternalOverride K h spec idx val
      else Inl (plain_err (''relative overrides are only supported for Resource and External metrics, not '' @
        go_quote (mu_Type spec))))"

subsection \<open>The override\<close>

definition is_relative :: "string \<Rightarrow> bool" where
  "is_relative val \<longleftrightarrow> has_prefix val ''+'' \<or> has_prefix val ''-''"

definition apply_absolute ::
    "('q, 's) k8s_lib \<Rightarrow> ('q, 's) hpa \<Rightarrow> ('q, 's) metric_spec \<Rightarrow> string \<Rightarrow> nat \<Rightarrow> string \<Rightarrow> go_error + ('q, 's) hpa" where
  "apply_absolute K h spec name idx val =
     (if mu_Type spec = ResourceMetricSourceType then ApplyResourceMetricOverride K h spec idx val
      else if mu_Type spec = ContainerResourceMetricSourceType then ApplyContainerResourceMetricOverride K h spec idx val
      else if mu_Type spec = ExternalMetricSourceType then ApplyExternalMetricOverride K h spec idx val
      else if mu_Type spec = PodsMetricSourceType then ApplyPodsMetricOverride K h spec idx val
      else if mu_Type spec = ObjectMetricSourceType then ApplyObjectMetricOverride K h spec idx val
      else Inl (plain_err (''unsupported metric type '' @ go_quote (mu_Type spec) @ '' for metric '' @ go_quote name)))"

definition applyMetricOverride ::
    "('q, 's) k8s_lib \<Rightarrow> ('q, 's) hpa \<Rightarrow> string \<Rightarrow> string \<Rightarrow> go_error + ('q, 's) hpa" where
  "applyMetricOverride K h name val = (case resolveMetricSpecUnique (Some h) name of
     Inl e \<Rightarrow> Inl (wrap_err (''metric '' @ go_quote name @ '': '') e)
   | Inr spec \<Rightarrow> (case findCurrentMetricForSpec K (Some h) spec of
       Inl e \<Rightarrow> Inl (wrap_err (''metric '' @ go_quote name @ '' current value: '') e)
     | Inr None \<Rightarrow> Inl (plain_err (''metric '' @ go_quote name @
           '' has no current value in HPA status; cannot simulate without a baseline''))
     | Inr (Some idx) \<Rightarrow>
         if is_relative val then applyRelativeOverride K h spec idx val
         else apply_absolute K h spec name idx val))"

definition computeProjectedReplicas :: "int \<Rightarrow> f64 \<Rightarrow> int \<Rightarrow> int \<Rightarrow> int" where
  "computeProjectedReplicas currentReplicas ratio minReplicas maxReplicas =
     (let (projected, usable) = ProjectedReplicasForRatio currentReplicas ratio in
      if \<not> usable then currentReplicas
      else if projected < minReplicas then minReplicas
      else if projected > maxReplicas then maxReplicas
      else projected)"

definition formatMetricValue :: "('q, 's) k8s_lib \<Rightarrow> ('q, 's) metric_status \<Rightarrow> string \<Rightarrow> string" where
  "formatMetricValue K metric metricType =
     (let val = (if metricType = ResourceMetricSourceType then map_option rm_Payload (mu_Resource metric)
            else if metricType = ExternalMetricSourceType then map_option nm_Payload (mu_External metric)
            else if metricType = PodsMetricSourceType then map_option nm_Payload (mu_Pods metric)
            else if metricType = ObjectMetricSourceType then map_option om_Payload (mu_Object metric)
            else if metricType = ContainerResourceMetricSourceType then map_option cm_Payload (mu_ContainerResource metric)
            else None)
      in case val of Some v \<Rightarrow> FormatMetricValueStatus K v | None \<Rightarrow> ''<unknown>'')"

subsection \<open>Resolving a name\<close>

lemma distinct_singleton_list:
  assumes "set ys = {i}" and "distinct ys"
  shows "ys = [i]"
proof (cases ys)
  case (Cons a zs)
  with assms have "a = i" "\<forall>z \<in> set zs. z = i" "i \<notin> set zs" by auto
  then show ?thesis using Cons by (cases zs) simp_all
qed (use assms in simp)

lemma indices_where_unique:
  "indices_where p xs = [i] \<longleftrightarrow> i < length xs \<and> p (xs ! i) \<and> (\<forall>j < length xs. p (xs ! j) \<longrightarrow> j = i)"
  (is "?l \<longleftrightarrow> ?r")
proof
  assume ?l
  then have "(j < length xs \<and> p (xs ! j)) = (j = i)" for j
    unfolding set_indices_where [symmetric] by simp
  then show ?r by blast
next
  assume ?r
  then have "set (indices_where p xs) = {i}" unfolding set_eq_iff set_indices_where by blast
  with distinct_find_index_from [of 0 p xs] show ?l by (intro distinct_singleton_list)
qed

lemma indices_where_Nil: "indices_where p xs = [] \<longleftrightarrow> (\<forall>j < length xs. \<not> p (xs ! j))"
proof -
  have "indices_where p xs = [] \<longleftrightarrow> set (indices_where p xs) = {}" by simp
  then show ?thesis unfolding set_eq_iff set_indices_where by auto
qed

lemma resolve_index_Inr:
  "resolveMetricSpecIndexUnique (Some h) name = Inr i \<longleftrightarrow>
     i < length (metricsOf h) \<and> metricSpecNameMatches (metricsOf h ! i) name \<and>
     (\<forall>j < length (metricsOf h). metricSpecNameMatches (metricsOf h ! j) name \<longrightarrow> j = i)"
proof -
  have "resolveMetricSpecIndexUnique (Some h) name = Inr i \<longleftrightarrow>
      indices_where (\<lambda>m. metricSpecNameMatches m name) (metricsOf h) = [i]"
    by (simp add: resolveMetricSpecIndexUnique_def split: list.split)
  then show ?thesis by (simp only: indices_where_unique)
qed

lemma resolve_spec_Inr:
  assumes "resolveMetricSpecUnique (Some h) name = Inr spec"
  obtains i where "i < length (metricsOf h)" "spec = metricsOf h ! i" "metricSpecNameMatches spec name"
  using assms resolve_index_Inr [of h name]
  by (auto simp: resolveMetricSpecUnique_def split: sum.splits)

lemma find_current_Inr:
  assumes "findCurrentMetricForSpec K (Some h) spec = Inr (Some i)"
  shows "i < length (currentMetricsOf h)" and "MetricIDFromStatus K (currentMetricsOf h ! i) = MetricIDFromSpec K spec"
    and "\<exists>id. MetricIDFromSpec K spec = Inr id"
proof -
  from assms obtain specID where id: "MetricIDFromSpec K spec = Inr specID"
    and "indices_where (\<lambda>cur. MetricIDFromStatus K cur = Inr specID) (currentMetricsOf h) = [i]"
    by (auto simp: findCurrentMetricForSpec_def split: sum.splits list.splits)
  then show "i < length (currentMetricsOf h)" "MetricIDFromStatus K (currentMetricsOf h ! i) = MetricIDFromSpec K spec"
    "\<exists>id. MetricIDFromSpec K spec = Inr id"
    by (auto simp: indices_where_unique)
qed

subsection \<open>An override keeps every identity\<close>

text \<open>
  Two HPAs agree up to the current values: the same object but for the status entries, which
  are as many and have the same identities.
\<close>

definition same_identities :: "('q, 's) k8s_lib \<Rightarrow> ('q, 's) hpa \<Rightarrow> ('q, 's) hpa \<Rightarrow> bool" where
  "same_identities K h h' \<longleftrightarrow> set_CurrentMetrics (currentMetricsOf h) h' = h \<and>
     map (MetricIDFromStatus K) (currentMetricsOf h') = map (MetricIDFromStatus K) (currentMetricsOf h)"

lemma update_current_identities:
  assumes "update_current h idx f = Inr h'"
    and "MetricIDFromStatus K (f (currentMetricsOf h ! idx)) = MetricIDFromStatus K (currentMetricsOf h ! idx)"
  shows "same_identities K h h'"
  using assms
  by (auto simp: update_current_def same_identities_def hpa_setters map_update split: if_splits)
    (metis list_update_id length_map nth_map)

lemma identity_of_entry:
  assumes "MetricIDFromSpec K spec = Inr i" "MetricIDFromStatus K cur = Inr i"
  shows "mu_Type cur = mu_Type spec"
  using assms IdentityMatches_type [of K spec cur] by (simp add: IdentityMatches_def)

lemmas id_defs = MetricIDFromSpec_def MetricIDFromStatus_def descriptor_defs

lemma entry_resource:
  "mu_Type spec = ResourceMetricSourceType \<Longrightarrow> mu_Type m = ResourceMetricSourceType \<Longrightarrow>
     mu_Resource spec = Some r \<Longrightarrow>
     MetricIDFromStatus K (m\<lparr>mu_Resource := Some \<lparr>rm_Name = rm_Name r, rm_Payload = v\<rparr>\<rparr>) = MetricIDFromSpec K spec"
  by (simp add: id_defs Let_def)

lemma entry_container:
  "mu_Type spec = ContainerResourceMetricSourceType \<Longrightarrow> mu_Type m = ContainerResourceMetricSourceType \<Longrightarrow>
     mu_ContainerResource spec = Some c \<Longrightarrow>
     MetricIDFromStatus K (m\<lparr>mu_ContainerResource := Some \<lparr>cm_Name = cm_Name c, cm_Container = cm_Container c,
       cm_Payload = v\<rparr>\<rparr>) = MetricIDFromSpec K spec"
  by (simp add: id_defs Let_def)

lemma entry_external:
  "mu_Type spec = ExternalMetricSourceType \<Longrightarrow> mu_Type m = ExternalMetricSourceType \<Longrightarrow>
     mu_External spec = Some x \<Longrightarrow>
     MetricIDFromStatus K (m\<lparr>mu_External := Some \<lparr>nm_Metric = nm_Metric x, nm_Payload = v\<rparr>\<rparr>) = MetricIDFromSpec K spec"
  by (simp add: id_defs Let_def split: sum.split)

lemma entry_pods:
  "mu_Type spec = PodsMetricSourceType \<Longrightarrow> mu_Type m = PodsMetricSourceType \<Longrightarrow>
     mu_Pods spec = Some x \<Longrightarrow>
     MetricIDFromStatus K (m\<lparr>mu_Pods := Some \<lparr>nm_Metric = \<lparr>mi_Name = mi_Name (nm_Metric x),
       mi_Selector = mi_Selector (nm_Metric x)\<rparr>, nm_Payload = v\<rparr>\<rparr>) = MetricIDFromSpec K spec"
  by (simp add: id_defs Let_def split: sum.split)

lemma entry_object:
  "mu_Type spec = ObjectMetricSourceType \<Longrightarrow> mu_Type m = ObjectMetricSourceType \<Longrightarrow>
     mu_Object spec = Some x \<Longrightarrow>
     MetricIDFromStatus K (m\<lparr>mu_Object := Some \<lparr>om_Metric = om_Metric x, om_Payload = v,
       om_DescribedObject = om_DescribedObject x\<rparr>\<rparr>) = MetricIDFromSpec K spec"
  by (simp add: id_defs Let_def split: sum.split)

lemmas entry_ids = entry_resource entry_container entry_external entry_pods entry_object

text \<open>Every writer goes through \<open>update_current\<close> with an entry of the metric's identity.\<close>

definition writes :: "('q, 's) k8s_lib \<Rightarrow> ('q, 's) hpa \<Rightarrow> ('q, 's) metric_spec \<Rightarrow> nat \<Rightarrow> ('q, 's) hpa \<Rightarrow> bool" where
  "writes K h spec idx h' \<longleftrightarrow> (\<exists>f. update_current h idx f = Inr h' \<and>
     (mu_Type (currentMetricsOf h ! idx) = mu_Type spec \<longrightarrow>
        MetricIDFromStatus K (f (currentMetricsOf h ! idx)) = MetricIDFromSpec K spec))"

lemma writesI:
  assumes "update_current h idx f = Inr h'"
    and "\<And>m. mu_Type m = mu_Type spec \<Longrightarrow> MetricIDFromStatus K (f m) = MetricIDFromSpec K spec"
  shows "writes K h spec idx h'"
  using assms unfolding writes_def by blast

lemma absolute_writes:
  assumes "apply_absolute K h spec name idx val = Inr h'"
  shows "writes K h spec idx h'"
proof -
  consider "mu_Type spec = ResourceMetricSourceType" | "mu_Type spec = ContainerResourceMetricSourceType"
    | "mu_Type spec = ExternalMetricSourceType" | "mu_Type spec = PodsMetricSourceType"
    | "mu_Type spec = ObjectMetricSourceType"
    using assms by (auto simp: apply_absolute_def split: if_splits)
  then show ?thesis
  proof cases
    case 1
    with assms show ?thesis
      by (auto simp: apply_absolute_def ApplyResourceMetricOverride_def
          intro!: writesI entry_ids split: option.splits sum.splits if_splits)
  next
    case 2
    with assms show ?thesis
      by (auto simp: apply_absolute_def ApplyContainerResourceMetricOverride_def
          intro!: writesI entry_ids split: option.splits sum.splits)
  next
    case 3
    with assms show ?thesis
      by (auto simp: apply_absolute_def ApplyExternalMetricOverride_def
          intro!: writesI entry_ids split: option.splits sum.splits if_splits)
  next
    case 4
    with assms show ?thesis
      by (auto simp: apply_absolute_def ApplyPodsMetricOverride_def
          intro!: writesI entry_ids split: option.splits sum.splits)
  next
    case 5
    with assms show ?thesis
      by (auto simp: apply_absolute_def ApplyObjectMetricOverride_def Let_def
          intro!: writesI entry_ids split: option.splits sum.splits)
  qed
qed

lemma relative_writes:
  assumes "applyRelativeOverride K h spec idx val = Inr h'"
  shows "writes K h spec idx h'"
proof -
  consider "mu_Type spec = ResourceMetricSourceType" | "mu_Type spec = ExternalMetricSourceType"
    using assms by (auto simp: applyRelativeOverride_def split: if_splits)
  then show ?thesis
  proof cases
    case 1
    with assms show ?thesis
      by (auto simp: applyRelativeOverride_def applyRelativeResourceOverride_def
          intro!: writesI entry_ids split: option.splits sum.splits if_splits)
  next
    case 2
    with assms show ?thesis
      by (auto simp: applyRelativeOverride_def applyRelativeExternalOverride_def Let_def
          intro!: writesI entry_ids split: option.splits sum.splits if_splits)
  qed
qed

lemma override_identities:
  assumes "applyMetricOverride K h name val = Inr h'"
  shows "same_identities K h h'"
proof -
  from assms obtain spec idx where cur: "findCurrentMetricForSpec K (Some h) spec = Inr (Some idx)"
    and w: "writes K h spec idx h'"
    by (auto simp: applyMetricOverride_def dest: absolute_writes relative_writes
        split: sum.splits option.splits if_splits)
  note found = find_current_Inr [OF cur]
  from found have "mu_Type (currentMetricsOf h ! idx) = mu_Type spec"
    using identity_of_entry [of K spec] by auto
  with w found(2) obtain f where "update_current h idx f = Inr h'"
    "MetricIDFromStatus K (f (currentMetricsOf h ! idx)) = MetricIDFromStatus K (currentMetricsOf h ! idx)"
    by (auto simp: writes_def)
  then show ?thesis by (rule update_current_identities)
qed

subsection \<open>Relative changes of a utilization\<close>

lemma mk_FinD: "mk x = Fin y \<Longrightarrow> y = rnd x"
  by (auto simp: mk_def Let_def split: if_splits)

lemma relative_percentage_finite:
  assumes "parseRelativePercentage val = Inr pct"
  obtains p f where "pct = Fin p" "f_add (Fin 1) (f_div pct (Fin 100)) = Fin f"
proof -
  let ?f = "f_add (Fin 1) (f_div pct (Fin 100))"
  from assms have fin: "\<not> is_nan pct" "\<not> is_inf pct" "\<not> is_nan ?f" "\<not> is_inf ?f"
    by (auto simp: parseRelativePercentage_def Let_def split: if_splits sum.splits)
  then obtain p where "pct = Fin p" by (cases pct) (auto simp: is_nan_def is_inf_def)
  moreover from fin obtain f where "?f = Fin f" by (cases ?f) (auto simp: is_nan_def is_inf_def)
  ultimately show ?thesis by (rule that)
qed

lemma relative_factor:
  assumes "f_add (Fin 1) (f_div (Fin p) (Fin 100)) = Fin f"
  shows "0 \<le> p \<Longrightarrow> 1 \<le> f" and "p \<le> 0 \<Longrightarrow> f \<le> 1"
proof -
  obtain q where q: "mk (p / 100) = Fin q"
    using assms by (cases "mk (p / 100)") auto
  then have f: "f = rnd (1 + q)" using assms mk_FinD [of "1 + q" f] by simp
  have q': "q = rnd (p / 100)" using q by (rule mk_FinD)
  show "1 \<le> f" if "0 \<le> p"
    using that rnd_nonneg [of "p / 100"] rnd_ge_int [of 1 "1 + q"] by (simp add: f q')
  show "f \<le> 1" if "p \<le> 0"
  proof -
    have "q \<le> 0" using that rnd_le_int [of 0 "p / 100"] by (simp add: q')
    then show ?thesis using rnd_le_int [of 1 "1 + q"] by (simp add: f)
  qed
qed

text \<open>The value a successful relative change computes.\<close>

lemma relative_value_Inr:
  assumes "parseRelativeValue val current = Inr v" and "in32 current"
  obtains p f x n where "parseRelativePercentage val = Inr (Fin p)"
    and "f_add (Fin 1) (f_div (Fin p) (Fin 100)) = Fin f"
    and "x = rnd (of_int current * f)" and "n = (if 0 \<le> x then \<lfloor>x + 1 / 2\<rfloor> else \<lceil>x - 1 / 2\<rceil>)"
    and "min_int32 \<le> n" and "n \<le> max_int32" and "v = max 0 n"
proof -
  from assms(1) obtain pct where pct: "parseRelativePercentage val = Inr pct"
    by (auto simp: parseRelativeValue_def split: sum.splits)
  obtain p f where p: "pct = Fin p" and f: "f_add (Fin 1) (f_div pct (Fin 100)) = Fin f"
    using relative_percentage_finite [OF pct] .
  define result where "result = f_round (mk (of_int current * f))"
  have cur: "f_of_int current = Fin (of_int current)" using assms(2) by simp
  have ok: "\<not> is_nan result" "\<not> is_inf result" "\<not> f_lt result (f_of_int min_int32)"
    "\<not> f_lt (f_of_int max_int32) result"
    and v: "v = wrap32 (f_trunc (if f_lt result (Fin 0) then Fin 0 else result))"
    using assms(1) pct f cur unfolding result_def
    by (auto simp: parseRelativeValue_def Let_def split: if_splits)
  then obtain r where r: "result = Fin r" by (cases result) (auto simp: is_nan_def is_inf_def)
  then obtain x where mkx: "mk (of_int current * f) = Fin x"
    unfolding result_def by (cases "mk (of_int current * f)") (auto simp: f_round_def)
  then have x: "x = rnd (of_int current * f)" by (rule mk_FinD)
  define n where "n = (if 0 \<le> x then \<lfloor>x + 1 / 2\<rfloor> else \<lceil>x - 1 / 2\<rceil>)"
  have rn: "r = rnd (of_int n)"
    using r mkx mk_FinD [of "of_int n" r] unfolding result_def n_def by (simp add: f_round_def)
  have range: "of_int min_int32 \<le> r" "r \<le> of_int max_int32" using ok(3,4) r by simp_all
  have n: "min_int32 \<le> n" "n \<le> max_int32"
  proof -
    show "min_int32 \<le> n"
    proof (rule ccontr)
      assume "\<not> min_int32 \<le> n"
      then have "n \<le> - 2147483649" by simp
      then have "rnd (of_int n) \<le> of_int (- 2147483649)" by (intro rnd_le_int) simp_all
      with range rn show False by simp
    qed
    show "n \<le> max_int32"
    proof (rule ccontr)
      assume "\<not> n \<le> max_int32"
      then have "2147483648 \<le> n" by simp
      then have "of_int 2147483648 \<le> rnd (of_int n)" by (intro rnd_ge_int) simp_all
      with range rn show False by simp
    qed
  qed
  then have "r = of_int n" using rn rnd_int [of n] by simp
  with v r n have "v = max 0 n" by (auto simp: f_trunc_def in32_def max_def)
  with that [of p f x n] pct p f x n n_def show ?thesis by simp
qed

subsection \<open>Properties\<close>

text \<open>A metric name resolves to a position exactly when one metric of the spec, and no other,
  matches it; no match and several matches are told apart by their sentinel errors.\<close>

theorem resolve_metric_unique:
  "case resolveMetricSpecIndexUnique (Some h) name of
     Inr i \<Rightarrow> {j. j < length (metricsOf h) \<and> metricSpecNameMatches (metricsOf h ! j) name} = {i}
   | Inl e \<Rightarrow> (let n = card {j. j < length (metricsOf h) \<and> metricSpecNameMatches (metricsOf h ! j) name}
       in n \<noteq> 1 \<and> (err_Is e ErrMetricNotFound \<longleftrightarrow> n = 0) \<and> (err_Is e ErrMetricAmbiguous \<longleftrightarrow> 2 \<le> n))"
proof -
  let ?is = "indices_where (\<lambda>m. metricSpecNameMatches m name) (metricsOf h)"
  have set: "{j. j < length (metricsOf h) \<and> metricSpecNameMatches (metricsOf h ! j) name} = set ?is"
    unfolding set_eq_iff set_indices_where by simp
  have card: "card (set ?is) = length ?is"
    using distinct_find_index_from by (rule distinct_card)
  consider "?is = []" | i where "?is = [i]" | i j js where "?is = i # j # js"
    by (metis neq_Nil_conv)
  then show ?thesis
    unfolding set card by cases (simp_all add: resolveMetricSpecIndexUnique_def Let_def)
qed

text \<open>Overriding a current metric value changes nothing but the status entries, keeps their
  number, and keeps the canonical identity of every entry, so the overridden status still
  matches the spec the way the original did.\<close>

theorem override_keeps_identities:
  assumes "applyMetricOverride K h name val = Inr h'"
  shows "set_CurrentMetrics (currentMetricsOf h) h' = h
    \<and> map (MetricIDFromStatus K) (currentMetricsOf h') = map (MetricIDFromStatus K) (currentMetricsOf h)"
  using override_identities [OF assms] by (simp add: same_identities_def)

lemma override_keeps_identities_witness:
  "case applyMetricOverride int_lib ceiling_hpa ''CPU'' ''+20%'' of
     Inr h' \<Rightarrow> length (currentMetricsOf h') = 1 \<and>
       map (MetricIDFromStatus int_lib) (currentMetricsOf h') = map (MetricIDFromStatus int_lib) (currentMetricsOf ceiling_hpa)
   | Inl _ \<Rightarrow> False"
proof -
  have "\<not> isl (applyMetricOverride int_lib ceiling_hpa ''CPU'' ''+20%'')" by code_simp
  then obtain h' where e: "applyMetricOverride int_lib ceiling_hpa ''CPU'' ''+20%'' = Inr h'"
    using not_isl_Inr by blast
  note kept = override_keeps_identities [OF e]
  have "length (currentMetricsOf h') = length (currentMetricsOf ceiling_hpa)"
    using conjunct2 [OF kept] by (rule map_eq_imp_length_eq)
  then show ?thesis using kept e by (simp add: ceiling_hpa_def Let_def)
qed

text \<open>A relative change of a utilization, when it succeeds, gives
  a non-negative 32-bit value that moves in the direction of its sign.\<close>

theorem relative_value_direction:
  assumes "parseRelativeValue val current = Inr v" and "0 \<le> current" and "current \<le> max_int32"
  shows "0 \<le> v \<and> v \<le> max_int32 \<and>
    (\<exists>p. parseRelativePercentage val = Inr (Fin p) \<and> (if 0 \<le> p then current \<le> v else v \<le> current))"
proof -
  from assms(2,3) have c: "in32 current" by simp
  obtain p f x n where p: "parseRelativePercentage val = Inr (Fin p)"
    and f: "f_add (Fin 1) (f_div (Fin p) (Fin 100)) = Fin f"
    and x: "x = rnd (of_int current * f)" and n: "n = (if 0 \<le> x then \<lfloor>x + 1 / 2\<rfloor> else \<lceil>x - 1 / 2\<rceil>)"
    and "min_int32 \<le> n" "n \<le> max_int32" and v: "v = max 0 n"
    using relative_value_Inr [OF assms(1) c] .
  have small: "\<bar>current\<bar> \<le> 9007199254740992" using assms(2,3) by simp
  have up: "current \<le> v" if "0 \<le> p"
  proof -
    have "of_int current \<le> of_int current * f"
      using relative_factor(1) [OF f that] assms(2) by (simp add: mult_le_cancel_left1)
    then have "of_int current \<le> x" unfolding x by (rule rnd_ge_int [OF small])
    then have "current \<le> n" using assms(2) unfolding n by (auto simp: le_floor_iff; linarith)
    then show ?thesis by (simp add: v)
  qed
  have down: "v \<le> current" if "\<not> 0 \<le> p"
  proof -
    have "of_int current * f \<le> of_int current"
      using relative_factor(2) [OF f] that assms(2) by (simp add: mult_le_cancel_left2)
    then have "x \<le> of_int current" unfolding x by (rule rnd_le_int [OF small])
    then have "n \<le> current" unfolding n by (auto simp: floor_le_iff ceiling_le_iff; linarith)
    then show ?thesis using assms(2) by (simp add: v)
  qed
  show ?thesis using up down p \<open>n \<le> max_int32\<close> v by auto
qed

lemma relative_value_direction_witness:
  "parseRelativeValue ''-15%'' 80 = Inr 68 \<and> (0::int) \<le> 68 \<and> (68::int) \<le> max_int32"
proof -
  have e: "parseRelativeValue ''-15%'' 80 = Inr 68" by code_simp
  from relative_value_direction [OF e] e show ?thesis by simp
qed

end
