(* ===== verification/SimPolicy.thy ===== *)
theory SimPolicy
  imports Health
begin

section \<open>Normalizing a simulated recommendation\<close>

text \<open>
  \<open>pkg/hpa/simulate/simulate_policy.go\<close>: how a projected replica count is combined with the
  replica bounds and the scaling-rate policies. The limit function is the interface
  \<open>rate_limit\<close>; \<open>normalize_with\<close> is the code over it, and its facts are proved once in the
  locale and instantiated for \<open>simulatedPolicyReplicaLimit\<close>.
\<close>

definition legacySimulatedScaleUpLimit :: "int \<Rightarrow> int" where
  "legacySimulatedScaleUpLimit current =
     (let limit = max (current * 2) 4 in if limit > max_int32 then max_int32 else limit)"

definition selectedPolicyReplicaLimit :: "int \<Rightarrow> bool \<Rightarrow> string \<Rightarrow> scaling_policy list \<Rightarrow> int option" where
  "selectedPolicyReplicaLimit current scaleUp selectPolicy policies =
     Limit current scaleUp selectPolicy policies 0 []"

definition simulatedPolicyReplicaLimit :: "int \<Rightarrow> bool \<Rightarrow> 'q scaling_rules option \<Rightarrow> int" where
  "simulatedPolicyReplicaLimit current scaleUp rules =
     (let policy = (case rules of
            Some r \<Rightarrow> (case r_SelectPolicy r of Some p \<Rightarrow> p | None \<Rightarrow> MaxChangePolicySelect)
          | None \<Rightarrow> MaxChangePolicySelect)
      in if policy = DisabledPolicySelect then current
         else let policies = (case rules of
                    Some r \<Rightarrow> (case r_Policies r of Some ps \<Rightarrow> ps | None \<Rightarrow> DefaultPolicies scaleUp)
                  | None \<Rightarrow> DefaultPolicies scaleUp)
              in case selectedPolicyReplicaLimit current scaleUp policy policies of
                   None \<Rightarrow> current
                 | Some limit \<Rightarrow> limit)"

text \<open>The three parts of the function: without a behavior block, towards more, towards fewer replicas.\<close>

definition normalize_legacy :: "int \<Rightarrow> int \<Rightarrow> int \<Rightarrow> int \<Rightarrow> int \<times> bool \<times> string" where
  "normalize_legacy current desired minReplicas maxReplicas =
     (let scaleUpLimit = legacySimulatedScaleUpLimit current;
          (maximumAllowed, reason) =
            (if maxReplicas > scaleUpLimit then (scaleUpLimit, ''ScaleUpLimit'') else (maxReplicas, ''TooManyReplicas''))
      in if desired < minReplicas then (minReplicas, True, ''TooFewReplicas'')
         else if desired > maximumAllowed then (maximumAllowed, True, reason)
         else (desired, False, ''DesiredWithinRange''))"

definition normalize_up ::
    "(int \<Rightarrow> bool \<Rightarrow> 'r \<Rightarrow> int) \<Rightarrow> int \<Rightarrow> 'r \<Rightarrow> int \<Rightarrow> int \<Rightarrow> int \<times> bool \<times> string" where
  "normalize_up limit current rules desired maxReplicas =
     (let scaleUpLimit = limit current True rules;
          scaleUpLimit = (if scaleUpLimit < current then current else scaleUpLimit);
          (maximumAllowed, reason) =
            (if maxReplicas > scaleUpLimit then (scaleUpLimit, ''ScaleUpLimit'') else (maxReplicas, ''TooManyReplicas''))
      in if desired > maximumAllowed then (maximumAllowed, True, reason)
         else (desired, False, ''DesiredWithinRange''))"

definition normalize_down ::
    "(int \<Rightarrow> bool \<Rightarrow> 'r \<Rightarrow> int) \<Rightarrow> int \<Rightarrow> 'r \<Rightarrow> int \<Rightarrow> int \<Rightarrow> int \<times> bool \<times> string" where
  "normalize_down limit current rules desired minReplicas =
     (let scaleDownLimit = limit current False rules;
          scaleDownLimit = (if scaleDownLimit > current then current else scaleDownLimit);
          (minimumAllowed, reason) =
            (if minReplicas < scaleDownLimit then (scaleDownLimit, ''ScaleDownLimit'') else (minReplicas, ''TooFewReplicas''))
      in if desired < minimumAllowed then (minimumAllowed, True, reason)
         else (desired, False, ''DesiredWithinRange''))"

definition normalize_with ::
    "(int \<Rightarrow> bool \<Rightarrow> 'r \<Rightarrow> int) \<Rightarrow> int \<Rightarrow> 'r \<Rightarrow> 'r \<Rightarrow> int \<Rightarrow> int \<Rightarrow> int \<Rightarrow> int \<times> bool \<times> string" where
  "normalize_with limit current upRules downRules desired minReplicas maxReplicas =
     (if desired > current then normalize_up limit current upRules desired maxReplicas
      else if desired < current then normalize_down limit current downRules desired minReplicas
      else (desired, False, ''DesiredWithinRange''))"

definition normalizeSimulatedDesired ::
    "('q, 's) hpa \<Rightarrow> int \<Rightarrow> int \<Rightarrow> int \<Rightarrow> int \<times> bool \<times> string" where
  "normalizeSimulatedDesired h desired minReplicas maxReplicas = (case behaviorOf h of
     None \<Rightarrow> normalize_legacy (currentOf h) desired minReplicas maxReplicas
   | Some b \<Rightarrow> normalize_with simulatedPolicyReplicaLimit (currentOf h) (b_ScaleUp b) (b_ScaleDown b)
                 desired minReplicas maxReplicas)"

lemmas normalize_defs = normalize_with_def normalize_up_def normalize_down_def

subsection \<open>Facts of any rate limit\<close>

text \<open>The result as a clamp.\<close>

definition clamp_up :: "int \<Rightarrow> int \<Rightarrow> int \<Rightarrow> int" where
  "clamp_up desired maxReplicas rate = min desired (min maxReplicas rate)"

definition clamp_down :: "int \<Rightarrow> int \<Rightarrow> int \<Rightarrow> int" where
  "clamp_down desired minReplicas rate = max desired (max minReplicas rate)"

context rate_limit
begin

lemma normalize_value:
  "fst (normalize_with limit c u d desired lo hi) =
     (if desired > c then clamp_up desired hi (limit c True u)
      else if desired < c then clamp_down desired lo (limit c False d) else desired)"
proof -
  have "\<not> limit c True u < c" "\<not> c < limit c False d" using up [of c u] down [of c d] by auto
  then show ?thesis by (auto simp: normalize_defs clamp_up_def clamp_down_def Let_def)
qed

lemma normalize_limited:
  "fst (snd (normalize_with limit c u d desired lo hi)) \<longleftrightarrow>
     fst (normalize_with limit c u d desired lo hi) \<noteq> desired"
  by (auto simp: normalize_defs Let_def)

lemma normalize_reason:
  "snd (snd (normalize_with limit c u d desired lo hi)) =
     (if fst (normalize_with limit c u d desired lo hi) = desired then ''DesiredWithinRange''
      else if desired > c then (if hi > limit c True u then ''ScaleUpLimit'' else ''TooManyReplicas'')
      else (if lo < limit c False d then ''ScaleDownLimit'' else ''TooFewReplicas''))"
proof -
  have "\<not> limit c True u < c" "\<not> c < limit c False d" using up [of c u] down [of c d] by auto
  then show ?thesis by (simp add: normalize_defs Let_def)
qed

lemma normalize_between:
  assumes "lo \<le> c" "c \<le> hi"
  shows "min c desired \<le> fst (normalize_with limit c u d desired lo hi)"
    and "fst (normalize_with limit c u d desired lo hi) \<le> max c desired"
  using assms up [of c u] down [of c d]
  by (auto simp: normalize_value clamp_up_def clamp_down_def)

lemma normalize_in_bounds:
  assumes "lo \<le> c" "c \<le> hi"
  shows "lo \<le> fst (normalize_with limit c u d desired lo hi)"
    and "fst (normalize_with limit c u d desired lo hi) \<le> hi"
  using assms up [of c u] down [of c d]
  by (auto simp: normalize_value clamp_up_def clamp_down_def)

lemma normalize_idem:
  assumes "lo \<le> c" "c \<le> hi"
  shows "normalize_with limit c u d (fst (normalize_with limit c u d desired lo hi)) lo hi =
    (fst (normalize_with limit c u d desired lo hi), False, ''DesiredWithinRange'')"
proof -
  let ?r = "fst (normalize_with limit c u d desired lo hi)"
  have "fst (normalize_with limit c u d ?r lo hi) = ?r"
    using assms up [of c u] down [of c d]
    by (cases desired c rule: linorder_cases)
      (auto simp: normalize_value clamp_up_def clamp_down_def min_def max_def)
  then show ?thesis
    using normalize_limited [of c u d ?r lo hi] normalize_reason [of c u d ?r lo hi]
    by (simp add: prod_eq_iff)
qed

lemma normalize_mono:
  assumes "lo \<le> c" "c \<le> hi" "d1 \<le> d2"
  shows "fst (normalize_with limit c u d d1 lo hi) \<le> fst (normalize_with limit c u d d2 lo hi)"
  using assms up [of c u] down [of c d]
  by (auto simp: normalize_value clamp_up_def clamp_down_def)

end

subsection \<open>The simulated policy limit is a rate limit\<close>

interpretation sim: rate_limit simulatedPolicyReplicaLimit
proof (unfold_locales)
  fix c d r
  show "c \<le> simulatedPolicyReplicaLimit c True r"
    using Limit_direction [where scaleUp = True and current = c]
    by (auto simp: simulatedPolicyReplicaLimit_def selectedPolicyReplicaLimit_def Let_def split: option.splits)
  show "simulatedPolicyReplicaLimit c False r \<le> c"
    using Limit_direction [where scaleUp = False and current = c]
    by (auto simp: simulatedPolicyReplicaLimit_def selectedPolicyReplicaLimit_def Let_def split: option.splits)
  assume "0 \<le> c" "c \<le> max_int32"
  then show "0 \<le> simulatedPolicyReplicaLimit c d r \<and> simulatedPolicyReplicaLimit c d r \<le> max_int32"
    using Limit_range [where scaleUp = d and current = c]
    by (auto simp: simulatedPolicyReplicaLimit_def selectedPolicyReplicaLimit_def Let_def split: option.splits)
qed

subsection \<open>Properties\<close>

lemma legacy_value:
  "fst (normalize_legacy current desired lo hi) =
     (if desired < lo then lo else min desired (min hi (legacySimulatedScaleUpLimit current)))"
  "fst (snd (normalize_legacy current desired lo hi)) \<longleftrightarrow> fst (normalize_legacy current desired lo hi) \<noteq> desired"
  by (auto simp: normalize_legacy_def Let_def)

text \<open>C1. With a behavior block, from whatever current count: a recommendation is never moved past the rate limit of its
  direction, and a limitation is reported exactly when the recommendation was changed. From a count inside the bounds the
  result stays inside them and between the current and the desired count, and a second normalization changes nothing. From
  a count outside the bounds, a recommendation that points back is followed at the permitted rate: the result is at the
  wanted count, at the bound on the far side, or at the rate limit, whichever is met first, even where that is still outside the range. (A
  recommendation that points further outward is set to the violated bound in one step, against the comment; that is
  \<open>normalize_skips_rate\<close> below.)\<close>

theorem normalize_sound:
  assumes "behaviorOf h = Some b" and "normalizeSimulatedDesired h desired lo hi = (d, limited, reason)"
    and "up = simulatedPolicyReplicaLimit (currentOf h) True (b_ScaleUp b)"
    and "down = simulatedPolicyReplicaLimit (currentOf h) False (b_ScaleDown b)"
  shows "(currentOf h \<le> desired \<longrightarrow> d \<le> up) \<and> (desired \<le> currentOf h \<longrightarrow> down \<le> d)
    \<and> (limited \<longleftrightarrow> d \<noteq> desired)
    \<and> (lo \<le> currentOf h \<and> currentOf h \<le> hi \<longrightarrow>
         lo \<le> d \<and> d \<le> hi \<and> min (currentOf h) desired \<le> d \<and> d \<le> max (currentOf h) desired
         \<and> normalizeSimulatedDesired h d lo hi = (d, False, ''DesiredWithinRange''))
    \<and> (hi < currentOf h \<and> desired < currentOf h \<longrightarrow> d = max desired (max lo down))
    \<and> (currentOf h < lo \<and> currentOf h < desired \<longrightarrow> d = min desired (min hi up))"
proof -
  let ?N = "\<lambda>x. normalize_with simulatedPolicyReplicaLimit (currentOf h) (b_ScaleUp b) (b_ScaleDown b) x lo hi"
  have N: "?N desired = (d, limited, reason)" using assms(1,2) by (simp add: normalizeSimulatedDesired_def)
  then have d: "d = fst (?N desired)" and l: "limited = fst (snd (?N desired))" by simp_all
  note clamp = sim.normalize_value [of "currentOf h" "b_ScaleUp b" "b_ScaleDown b" desired lo hi]
  have "(currentOf h \<le> desired \<longrightarrow> d \<le> up) \<and> (desired \<le> currentOf h \<longrightarrow> down \<le> d)"
    using sim.up [of "currentOf h" "b_ScaleUp b"] sim.down [of "currentOf h" "b_ScaleDown b"]
    by (auto simp: d clamp clamp_up_def clamp_down_def assms(3,4))
  moreover have "limited \<longleftrightarrow> d \<noteq> desired" using sim.normalize_limited by (simp add: d l)
  moreover have "lo \<le> d \<and> d \<le> hi \<and> min (currentOf h) desired \<le> d \<and> d \<le> max (currentOf h) desired
      \<and> normalizeSimulatedDesired h d lo hi = (d, False, ''DesiredWithinRange'')" if "lo \<le> currentOf h" "currentOf h \<le> hi"
    using sim.normalize_in_bounds [OF that, where u = "b_ScaleUp b" and d = "b_ScaleDown b" and desired = desired]
      sim.normalize_between [OF that, where u = "b_ScaleUp b" and d = "b_ScaleDown b" and desired = desired]
      sim.normalize_idem [OF that, where u = "b_ScaleUp b" and d = "b_ScaleDown b" and desired = desired] assms(1)
    by (simp add: d normalizeSimulatedDesired_def)
  moreover have "d = max desired (max lo down)" if "desired < currentOf h"
    using that by (simp add: d clamp clamp_down_def assms(4))
  moreover have "d = min desired (min hi up)" if "currentOf h < desired"
    using that by (simp add: d clamp clamp_up_def assms(3))
  ultimately show ?thesis by blast
qed

definition fast_behavior :: "int behavior" where
  "fast_behavior =
     \<lparr>b_ScaleUp = None,
      b_ScaleDown = Some \<lparr>r_StabilizationWindowSeconds = None, r_SelectPolicy = Some DisabledPolicySelect,
        r_Policies = None, r_Tolerance = None\<rparr>\<rparr>"

lemma normalize_sound_witness:
  "normalizeSimulatedDesired (set_Behavior (Some fast_behavior) (sample_hpa 10 [])) 30 2 25 = (20, True, ''ScaleUpLimit'')
   \<and> normalizeSimulatedDesired (set_Behavior (Some fast_behavior) (sample_hpa 10 [])) 20 2 25 = (20, False, ''DesiredWithinRange'')
   \<and> fst (normalizeSimulatedDesired (set_Behavior (Some fast_behavior) (sample_hpa 10 [])) 3 2 8) = 10"
proof -
  let ?h = "set_Behavior (Some fast_behavior) (sample_hpa 10 [])"
  have b: "behaviorOf ?h = Some fast_behavior" "currentOf ?h = 10" by (simp_all add: sample_hpa_def set_Behavior_def)
  have e: "normalizeSimulatedDesired ?h 30 2 25 = (20, True, ''ScaleUpLimit'')" by code_simp
  have down: "simulatedPolicyReplicaLimit (currentOf ?h) False (b_ScaleDown fast_behavior) = 10" by code_simp
  obtain d l r where o: "normalizeSimulatedDesired ?h 3 2 8 = (d, l, r)" by (metis prod_cases3)
  have "d = 10" using normalize_sound [OF b(1) o refl refl] down b(2) by simp
  then show ?thesis using normalize_sound [OF b(1) e refl refl] e o b(2) by simp
qed

text \<open>Raising the desired count never lowers the normalized one.\<close>

theorem normalize_monotone:
  assumes "behaviorOf h = Some b" and "lo \<le> currentOf h" and "currentOf h \<le> hi" and "d1 \<le> d2"
  shows "fst (normalizeSimulatedDesired h d1 lo hi) \<le> fst (normalizeSimulatedDesired h d2 lo hi)"
  using assms sim.normalize_mono [OF assms(2,3,4)] by (simp add: normalizeSimulatedDesired_def)

lemma normalize_monotone_witness:
  "fst (normalizeSimulatedDesired (set_Behavior (Some fast_behavior) (sample_hpa 10 [])) 11 2 25)
   \<le> fst (normalizeSimulatedDesired (set_Behavior (Some fast_behavior) (sample_hpa 10 [])) 30 2 25)"
  by (rule normalize_monotone [of _ fast_behavior]) (simp_all add: sample_hpa_def set_Behavior_def)

text \<open>A recommendation that points further away from a violated maximum is clamped to the maximum
  in one step, whatever the scale-down policies allow: above maxReplicas a still higher
  recommendation gives maxReplicas.\<close>

theorem normalize_skips_rate:
  assumes "behaviorOf h = Some b" and "hi < currentOf h" and "currentOf h < desired"
  shows "normalizeSimulatedDesired h desired lo hi = (hi, True, ''TooManyReplicas'')"
  using assms sim.up [of "currentOf h" "b_ScaleUp b"]
  by (auto simp: normalizeSimulatedDesired_def normalize_defs Let_def)

lemma normalize_skips_rate_witness:
  "simulatedPolicyReplicaLimit 10 False (b_ScaleDown fast_behavior) = 10
   \<and> normalizeSimulatedDesired (set_Behavior (Some fast_behavior) (sample_hpa 10 [])) 30 2 4 = (4, True, ''TooManyReplicas'')"
  using normalize_skips_rate [of "set_Behavior (Some fast_behavior) (sample_hpa 10 [])" fast_behavior 4 30 2]
  by (simp add: sample_hpa_def set_Behavior_def simulatedPolicyReplicaLimit_def fast_behavior_def)

end
