(* ===== verification/SimOverrides.thy ===== *)
theory SimOverrides
  imports SimMetrics SimPolicy
begin

section \<open>Overriding the specification\<close>

text \<open>
  \<open>pkg/hpa/simulate/simulate_overrides.go\<close> and \<open>simulate_helpers.go\<close>: the dot-notation paths of
  an override, the values they accept, what each changes in the copied specification, and the
  validation of the result. A function that returns only an error is an \<open>option\<close>, \<^const>\<open>None\<close>
  being nil.
\<close>

subsection \<open>Values\<close>

definition parseInt32 :: "string \<Rightarrow> go_error + int" where
  "parseInt32 val = (case parse_int32 val of
     Inl e \<Rightarrow> Inl (wrap_err (''invalid integer '' @ go_quote val @ '': '') (strconv_err ''ParseInt'' val e))
   | Inr v \<Rightarrow> Inr v)"

text \<open>\<open>fmt.Errorf("%w: %w", ErrInvalidSimulationValue, err)\<close>.\<close>

definition invalid_because :: "go_error \<Rightarrow> go_error" where
  "invalid_because e = \<lparr>err_is = ErrInvalidSimulationValue # err_is e,
     err_msg = sentinel_text ErrInvalidSimulationValue @ '': '' @ err_msg e\<rparr>"

definition parseNonNegativeInt32 :: "string \<Rightarrow> int \<Rightarrow> string \<Rightarrow> go_error + int" where
  "parseNonNegativeInt32 val minVal errMsg = (case parseInt32 val of
     Inl e \<Rightarrow> Inl (invalid_because e)
   | Inr v \<Rightarrow> if v < minVal then Inl (errorf_is ErrInvalidSimulationValue ('': '' @ errMsg)) else Inr v)"

definition parsePositiveInt32 :: "string \<Rightarrow> go_error + int" where
  "parsePositiveInt32 val = (case parseInt32 val of
     Inl e \<Rightarrow> Inl e
   | Inr v \<Rightarrow> if v \<le> 0 then Inl (errorf_is ErrInvalidSimulationValue
                 ('': targetAverageUtilization must be > 0, got '' @ show_int v))
             else Inr v)"

definition selectPolicy :: "string \<Rightarrow> go_error + string" where
  "selectPolicy val =
     (let v = to_lower (trim_space val) in
      if v = ''max'' then Inr MaxChangePolicySelect
      else if v = ''min'' then Inr MinChangePolicySelect
      else if v = ''disabled'' then Inr DisabledPolicySelect
      else Inl (errorf_is ErrInvalidSimulationValue
        ('': selectPolicy must be Max, Min, or Disabled, got '' @ go_quote val)))"

subsection \<open>Changes of the specification\<close>

fun set_utilization :: "int \<Rightarrow> ('q, 's) metric_spec list \<Rightarrow> go_error + ('q, 's) metric_spec list" where
  "set_utilization v [] = Inr []"
| "set_utilization v (m # ms) =
     (if mu_Type m = ResourceMetricSourceType then
        (case mu_Resource m of
           None \<Rightarrow> Inl panic_err
         | Some r \<Rightarrow> map_sum id ((#) (m\<lparr>mu_Resource := Some (r\<lparr>rm_Payload :=
             (rm_Payload r)\<lparr>mt_AverageUtilization := Some v, mt_Type := UtilizationMetricType\<rparr>\<rparr>)\<rparr>))
             (set_utilization v ms))
      else map_sum id ((#) m) (set_utilization v ms))"

definition applyAverageUtilizationToResourceMetrics :: "('q, 's) hpa \<Rightarrow> int \<Rightarrow> go_error + ('q, 's) hpa" where
  "applyAverageUtilizationToResourceMetrics h v =
     map_sum id (\<lambda>ms. set_Metrics ms h) (set_utilization v (metricsOf h))"

definition no_rules :: "'q scaling_rules" where
  "no_rules = \<lparr>r_StabilizationWindowSeconds = None, r_SelectPolicy = None, r_Policies = None, r_Tolerance = None\<rparr>"

definition ensured :: "'q behavior option \<Rightarrow> 'q scaling_rules \<times> 'q scaling_rules" where
  "ensured b = (case b of
     None \<Rightarrow> (no_rules, no_rules)
   | Some b \<Rightarrow> ((case b_ScaleUp b of None \<Rightarrow> no_rules | Some r \<Rightarrow> r),
                (case b_ScaleDown b of None \<Rightarrow> no_rules | Some r \<Rightarrow> r)))"

text \<open>
  \<open>ensureBehavior\<close>, followed by an assignment to one of the two rule blocks.
\<close>

definition ensureBehavior :: "('q, 's) hpa \<Rightarrow> ('q, 's) hpa" where
  "ensureBehavior h = (let (up, down) = ensured (behaviorOf h)
     in set_Behavior (Some \<lparr>b_ScaleUp = Some up, b_ScaleDown = Some down\<rparr>) h)"

definition update_rules ::
    "('q scaling_rules \<Rightarrow> 'q scaling_rules) \<Rightarrow> ('q scaling_rules \<Rightarrow> 'q scaling_rules)
     \<Rightarrow> ('q, 's) hpa \<Rightarrow> ('q, 's) hpa" where
  "update_rules f g h = (case behaviorOf h of
     None \<Rightarrow> h
   | Some b \<Rightarrow> set_Behavior (Some \<lparr>b_ScaleUp = map_option f (b_ScaleUp b),
                                  b_ScaleDown = map_option g (b_ScaleDown b)\<rparr>) h)"

definition normalizeSimulationPath :: "string \<Rightarrow> string" where
  "normalizeSimulationPath path =
     (let p = to_lower (trim_space path) in
      if p = ''scaledown.stabilizationwindow'' then ''scaledown.stabilizationwindowseconds''
      else if p = ''scaleup.stabilizationwindow'' then ''scaleup.stabilizationwindowseconds''
      else p)"

text \<open>The two functions that handle a group of paths; \<^const>\<open>None\<close> when the path is not of the group.\<close>

definition applyReplicaSimulationOverride ::
    "('q, 's) hpa \<Rightarrow> string \<Rightarrow> string \<Rightarrow> (go_error + ('q, 's) hpa) option" where
  "applyReplicaSimulationOverride h normalizedPath val =
     (if normalizedPath = ''maxreplicas'' then
        Some (map_sum id (\<lambda>v. set_MaxReplicas v h) (parseNonNegativeInt32 val 1 ''maxReplicas must be >= 1''))
      else if normalizedPath = ''minreplicas'' then
        Some (map_sum id (\<lambda>v. set_MinReplicas (Some v) h) (parseNonNegativeInt32 val 0 ''minReplicas must be >= 0''))
      else if normalizedPath = ''targetaverageutilization'' then
        Some (case parsePositiveInt32 val of
                Inl e \<Rightarrow> Inl e
              | Inr v \<Rightarrow> applyAverageUtilizationToResourceMetrics h v)
      else None)"

definition stabilization_override :: "string \<Rightarrow> string \<Rightarrow> go_error" where
  "stabilization_override direction val =
     (case parseNonNegativeInt32 val 0 ''stabilizationWindowSeconds must be >= 0'' of
        Inl e \<Rightarrow> e
      | Inr window \<Rightarrow>
          if window > 3600 then errorf_is ErrInvalidSimulationValue '': stabilizationWindowSeconds must be <= 3600''
          else errorf_is ErrUnsupportedSimulationSemantics
            ('': '' @ direction @ '' stabilization cannot be projected without recommendation history''))"

definition applyBehaviorSimulationOverride ::
    "('q, 's) hpa \<Rightarrow> string \<Rightarrow> string \<Rightarrow> (go_error + ('q, 's) hpa) option" where
  "applyBehaviorSimulationOverride h normalizedPath val =
     (if normalizedPath = ''scaledown.stabilizationwindowseconds'' then
        Some (Inl (stabilization_override ''scaleDown'' val))
      else if normalizedPath = ''scaleup.stabilizationwindowseconds'' then
        Some (Inl (stabilization_override ''scaleUp'' val))
      else if normalizedPath = ''scaledown.selectpolicy'' then
        Some (map_sum id (\<lambda>p. update_rules id (\<lambda>r. r\<lparr>r_SelectPolicy := Some p\<rparr>) (ensureBehavior h)) (selectPolicy val))
      else if normalizedPath = ''scaleup.selectpolicy'' then
        Some (map_sum id (\<lambda>p. update_rules (\<lambda>r. r\<lparr>r_SelectPolicy := Some p\<rparr>) id (ensureBehavior h)) (selectPolicy val))
      else None)"

definition applyToleranceOverride ::
    "('q, 's) k8s_lib \<Rightarrow> ('q, 's) hpa \<Rightarrow> string \<Rightarrow> string \<Rightarrow> go_error + ('q, 's) hpa" where
  "applyToleranceOverride K h direction val = (case q_parse K val of
     Inl e \<Rightarrow> Inl (plain_err (''invalid tolerance '' @ go_quote val @ '': '' @ e))
   | Inr tol \<Rightarrow>
       (let floatValue = q_float K tol in
        if is_nan floatValue \<or> is_inf floatValue \<or> f_lt floatValue (Fin 0) then
          Inl (errorf_is ErrInvalidSimulationValue ('': tolerance must be non-negative, got '' @ go_quote val))
        else
          let set = (\<lambda>r. r\<lparr>r_Tolerance := Some tol\<rparr>)
          in Inr (update_rules (if direction = ''both'' \<or> direction = ''up'' then set else id)
                    (if direction = ''both'' \<or> direction = ''down'' then set else id) (ensureBehavior h))))"

definition applyMetricTargetOverride ::
    "('q, 's) k8s_lib \<Rightarrow> ('q, 's) hpa \<Rightarrow> string \<Rightarrow> string \<Rightarrow> go_error + ('q, 's) hpa" where
  "applyMetricTargetOverride K h name val = (case resolveMetricSpecIndexUnique (Some h) name of
     Inl e \<Rightarrow> Inl (wrap_err (''metric '' @ go_quote name @ '': '') e)
   | Inr index \<Rightarrow>
       (let spec = metricsOf h ! index;
            put = (\<lambda>t. Inr (set_Metrics ((metricsOf h)[index := set_target t spec]) h))
        in case MetricTargetPointer spec of
             None \<Rightarrow> Inl (plain_err (''metric '' @ go_quote name @ '' has no target''))
           | Some target \<Rightarrow>
               if mt_Type target = UtilizationMetricType \<or> mt_AverageUtilization target \<noteq> None then
                 (case parsePositiveInt32 (trim_suffix val ''%'') of
                    Inl e \<Rightarrow> Inl (wrap_err (''invalid utilization target '' @ go_quote val @ '' for metric '' @
                               go_quote name @ '': '') e)
                  | Inr u \<Rightarrow> put \<lparr>mt_Type = UtilizationMetricType, mt_Value = None, mt_AverageValue = None,
                                 mt_AverageUtilization = Some u\<rparr>)
               else
                 let bad = (\<lambda>e. Inl (plain_err (''invalid quantity target '' @ go_quote val @ '' for metric '' @
                              go_quote name @ '': '' @ e)))
                 in case q_parse K val of
                      Inl e \<Rightarrow> bad e
                    | Inr q \<Rightarrow>
                        if q_sign K q \<le> 0 then bad ''target must be greater than zero''
                        else if mt_Type target = ValueMetricType \<or> mt_Value target \<noteq> None then
                          put \<lparr>mt_Type = ValueMetricType, mt_Value = Some q, mt_AverageValue = None,
                               mt_AverageUtilization = None\<rparr>
                        else put \<lparr>mt_Type = AverageValueMetricType, mt_Value = None, mt_AverageValue = Some q,
                                  mt_AverageUtilization = None\<rparr>))"

subsection \<open>The table of paths\<close>

definition simulationOverrideDefinitions :: "(string \<times> string) list" where
  "simulationOverrideDefinitions =
     [(''maxreplicas'', ''maxReplicas''), (''minreplicas'', ''minReplicas''),
      (''targetaverageutilization'', ''targetAverageUtilization''),
      (''scaledown.stabilizationwindowseconds'', ''scaleDown.stabilizationWindowSeconds''),
      (''scaleup.stabilizationwindowseconds'', ''scaleUp.stabilizationWindowSeconds''),
      (''scaledown.selectpolicy'', ''scaleDown.selectPolicy''), (''scaleup.selectpolicy'', ''scaleUp.selectPolicy''),
      (''tolerance'', ''tolerance''), (''scaleup.tolerance'', ''scaleUp.tolerance''),
      (''scaledown.tolerance'', ''scaleDown.tolerance'')]"

definition supportedSimulationPaths :: "string list" where
  "supportedSimulationPaths = sort (map snd simulationOverrideDefinitions @
     [''scaleDown.stabilizationWindow'', ''scaleUp.stabilizationWindow''])"

text \<open>The \<open>Apply\<close> function of the table's entry for a path of the table.\<close>

definition definition_Apply ::
    "('q, 's) k8s_lib \<Rightarrow> string \<Rightarrow> ('q, 's) hpa \<Rightarrow> string \<Rightarrow> go_error + ('q, 's) hpa" where
  "definition_Apply K key h val =
     (if key = ''tolerance'' then applyToleranceOverride K h ''both'' val
      else if key = ''scaleup.tolerance'' then applyToleranceOverride K h ''up'' val
      else if key = ''scaledown.tolerance'' then applyToleranceOverride K h ''down'' val
      else case applyReplicaSimulationOverride h key val of
             Some r \<Rightarrow> r
           | None \<Rightarrow> (case applyBehaviorSimulationOverride h key val of Some r \<Rightarrow> r | None \<Rightarrow> Inr h))"

definition applySimulationOverride ::
    "('q, 's) k8s_lib \<Rightarrow> ('q, 's) hpa \<Rightarrow> string \<Rightarrow> string \<Rightarrow> go_error + ('q, 's) hpa" where
  "applySimulationOverride K h path val =
     (let p = normalizeSimulationPath path in
      if has_prefix p ''scaleup.policies'' \<or> has_prefix p ''scaledown.policies'' then
        Inl (errorf_is ErrUnsupportedSimulationSemantics '': rate-policy overrides need scaling-event history'')
      else if has_prefix p ''metric.'' \<and> has_suffix p ''.target'' then
        applyMetricTargetOverride K h (trim_suffix (trim_prefix p ''metric.'') ''.target'') val
      else if has_suffix p ''.targetaverageutilization'' then
        applyMetricTargetOverride K h (trim_suffix p ''.targetaverageutilization'') val
      else if p \<in> set (map fst simulationOverrideDefinitions) then definition_Apply K p h val
      else Inl (errorf_is ErrUnsupportedSimulationPath ('' '' @ go_quote path @ ''; supported: '' @
             join_str '', '' supportedSimulationPaths @ '', metric.<name>.target'')))"

subsection \<open>The value a path has before the override\<close>

definition originalDirectionalTolerance :: "('q, 's) k8s_lib \<Rightarrow> ('q, 's) hpa \<Rightarrow> bool \<Rightarrow> string" where
  "originalDirectionalTolerance K h scaleUp =
     (let (val, configured) = DirectionalTolerance K (Some h) (if scaleUp then Fin 2 else Fin 0)
      in if \<not> configured then show_g 3 val @ '' (default)'' else show_g 3 val)"

definition originalMinReplicas :: "('q, 's) hpa \<Rightarrow> string" where
  "originalMinReplicas h = (case minReplicasOf h of Some v \<Rightarrow> show_int v | None \<Rightarrow> ''1'')"

definition scale_up_rules :: "('q, 's) hpa \<Rightarrow> 'q scaling_rules option" where
  "scale_up_rules h = (case behaviorOf h of None \<Rightarrow> None | Some b \<Rightarrow> b_ScaleUp b)"

definition scale_down_rules :: "('q, 's) hpa \<Rightarrow> 'q scaling_rules option" where
  "scale_down_rules h = (case behaviorOf h of None \<Rightarrow> None | Some b \<Rightarrow> b_ScaleDown b)"

definition originalScaleDownStabilizationWindow :: "('q, 's) hpa \<Rightarrow> string" where
  "originalScaleDownStabilizationWindow h =
     (case Option.bind (scale_down_rules h) r_StabilizationWindowSeconds of
        Some w \<Rightarrow> show_int w
      | None \<Rightarrow> show_int DefaultScaleDownStabilizationWindowSeconds)"

definition originalScaleUpStabilizationWindow :: "('q, 's) hpa \<Rightarrow> string" where
  "originalScaleUpStabilizationWindow h =
     (case Option.bind (scale_up_rules h) r_StabilizationWindowSeconds of
        Some w \<Rightarrow> show_int w
      | None \<Rightarrow> ''0'')"

definition original_select_policy :: "'q scaling_rules option \<Rightarrow> string" where
  "original_select_policy rules = (case Option.bind rules r_SelectPolicy of Some p \<Rightarrow> p | None \<Rightarrow> ''Max'')"

fun original_utilization :: "('q, 's) metric_spec list \<Rightarrow> go_error + string" where
  "original_utilization [] = Inr ''<not set>''"
| "original_utilization (m # ms) =
     (if mu_Type m = ResourceMetricSourceType then
        (case mu_Resource m of
           None \<Rightarrow> Inl panic_err
         | Some r \<Rightarrow> (case mt_AverageUtilization (rm_Payload r) of
             Some u \<Rightarrow> Inr (show_int u)
           | None \<Rightarrow> original_utilization ms))
      else original_utilization ms)"

definition originalTargetAverageUtilization :: "('q, 's) hpa \<Rightarrow> go_error + string" where
  "originalTargetAverageUtilization h = original_utilization (metricsOf h)"

text \<open>The \<open>Original\<close> function of the table's entry for a path of the table.\<close>

definition definition_Original :: "('q, 's) k8s_lib \<Rightarrow> string \<Rightarrow> ('q, 's) hpa \<Rightarrow> go_error + string" where
  "definition_Original K key h =
     (if key = ''maxreplicas'' then Inr (show_int (maxReplicasOf h))
      else if key = ''minreplicas'' then Inr (originalMinReplicas h)
      else if key = ''targetaverageutilization'' then originalTargetAverageUtilization h
      else if key = ''scaledown.stabilizationwindowseconds'' then Inr (originalScaleDownStabilizationWindow h)
      else if key = ''scaleup.stabilizationwindowseconds'' then Inr (originalScaleUpStabilizationWindow h)
      else if key = ''scaledown.selectpolicy'' then Inr (original_select_policy (scale_down_rules h))
      else if key = ''scaleup.selectpolicy'' then Inr (original_select_policy (scale_up_rules h))
      else if key = ''tolerance'' then
        (let (up, down) = EffectiveDirectionalTolerances K (Some h)
         in Inr (''scaleUp='' @ show_g 3 up @ '',scaleDown='' @ show_g 3 down))
      else if key = ''scaleup.tolerance'' then Inr (originalDirectionalTolerance K h True)
      else Inr (originalDirectionalTolerance K h False))"

definition originalValue :: "('q, 's) k8s_lib \<Rightarrow> ('q, 's) hpa \<Rightarrow> string \<Rightarrow> go_error + string" where
  "originalValue K h path =
     (let p = normalizeSimulationPath path in
      if p \<in> set (map fst simulationOverrideDefinitions) then definition_Original K p h
      else if has_prefix p ''metric.'' \<and> has_suffix p ''.target'' then
        (case resolveMetricSpecUnique (Some h) (trim_suffix (trim_prefix p ''metric.'') ''.target'') of
           Inl _ \<Rightarrow> Inr ''<unknown>''
         | Inr spec \<Rightarrow> (case MetricTargetPointer spec of
             None \<Rightarrow> Inr ''<unknown>''
           | Some target \<Rightarrow> Inr (FormatMetricTarget K target)))
      else Inr ''<unknown>'')"

subsection \<open>Validation\<close>

definition validateSimulatedScalingPolicy :: "string \<Rightarrow> nat \<Rightarrow> scaling_policy \<Rightarrow> go_error option" where
  "validateSimulatedScalingPolicy direction index policy =
     (let bad = (\<lambda>s. Some (errorf_is ErrInvalidSimulationValue
            ('': '' @ direction @ ''.policies['' @ show_int (int index) @ '']'' @ s)))
      in if p_Type policy \<noteq> PodsScalingPolicy \<and> p_Type policy \<noteq> PercentScalingPolicy then
           bad (''.type must be Pods or Percent, got '' @ go_quote (p_Type policy))
         else if p_Value policy \<le> 0 then bad ''.value must be > 0''
         else if p_PeriodSeconds policy \<le> 0 then bad ''.periodSeconds must be > 0''
         else if p_PeriodSeconds policy > 1800 then bad ''.periodSeconds must be <= 1800''
         else None)"

fun validate_policies :: "string \<Rightarrow> nat \<Rightarrow> scaling_policy list \<Rightarrow> go_error option" where
  "validate_policies direction i [] = None"
| "validate_policies direction i (p # ps) =
     (case validateSimulatedScalingPolicy direction i p of
        Some e \<Rightarrow> Some e
      | None \<Rightarrow> validate_policies direction (Suc i) ps)"

definition validateSimulatedScalingRules :: "string \<Rightarrow> 'q scaling_rules option \<Rightarrow> go_error option" where
  "validateSimulatedScalingRules direction rules = (case rules of
     None \<Rightarrow> None
   | Some r \<Rightarrow>
       if (case r_StabilizationWindowSeconds r of Some w \<Rightarrow> w < 0 | None \<Rightarrow> False) then
         Some (errorf_is ErrInvalidSimulationValue ('': '' @ direction @ ''.stabilizationWindowSeconds must be >= 0''))
       else if (case r_StabilizationWindowSeconds r of Some w \<Rightarrow> w > 3600 | None \<Rightarrow> False) then
         Some (errorf_is ErrInvalidSimulationValue ('': '' @ direction @ ''.stabilizationWindowSeconds must be <= 3600''))
       else (case (case r_SelectPolicy r of
                     Some p \<Rightarrow> (case selectPolicy p of Inl e \<Rightarrow> Some (wrap_err (direction @ '': '') e) | Inr _ \<Rightarrow> None)
                   | None \<Rightarrow> None) of
               Some e \<Rightarrow> Some e
             | None \<Rightarrow>
                 if r_Policies r = Some [] then
                   Some (errorf_is ErrInvalidSimulationValue ('': '' @ direction @ ''.policies must contain at least one policy''))
                 else validate_policies direction 0 (case r_Policies r of Some ps \<Rightarrow> ps | None \<Rightarrow> [])))"

definition validateSimulatedHPA :: "('q, 's) hpa \<Rightarrow> go_error option" where
  "validateSimulatedHPA h =
     (let minReplicas = (case minReplicasOf h of Some v \<Rightarrow> v | None \<Rightarrow> 1) in
      if minReplicas < 0 then
        Some (errorf_is ErrInvalidSimulationValue ('': minReplicas must be >= 0, got '' @ show_int minReplicas))
      else if maxReplicasOf h < 1 then
        Some (errorf_is ErrInvalidSimulationValue ('': maxReplicas must be >= 1, got '' @ show_int (maxReplicasOf h)))
      else if maxReplicasOf h < minReplicas then
        Some (errorf_is ErrInvalidSimulationValue ('': maxReplicas ('' @ show_int (maxReplicasOf h) @
          '') must be >= minReplicas ('' @ show_int minReplicas @ '')''))
      else case behaviorOf h of
        None \<Rightarrow> None
      | Some b \<Rightarrow> (case validateSimulatedScalingRules ''scaleUp'' (b_ScaleUp b) of
            Some e \<Rightarrow> Some e
          | None \<Rightarrow> validateSimulatedScalingRules ''scaleDown'' (b_ScaleDown b)))"

subsection \<open>What validation accepts\<close>

definition valid_policy :: "scaling_policy \<Rightarrow> bool" where
  "valid_policy p \<longleftrightarrow> p_Type p \<in> {PodsScalingPolicy, PercentScalingPolicy} \<and> 0 < p_Value p \<and>
     0 < p_PeriodSeconds p \<and> p_PeriodSeconds p \<le> 1800"

definition valid_rules :: "'q scaling_rules \<Rightarrow> bool" where
  "valid_rules r \<longleftrightarrow>
     (case r_StabilizationWindowSeconds r of None \<Rightarrow> True | Some w \<Rightarrow> 0 \<le> w \<and> w \<le> 3600) \<and>
     (case r_SelectPolicy r of None \<Rightarrow> True
      | Some p \<Rightarrow> to_lower (trim_space p) \<in> {''max'', ''min'', ''disabled''}) \<and>
     (case r_Policies r of None \<Rightarrow> True | Some ps \<Rightarrow> ps \<noteq> [] \<and> (\<forall>p \<in> set ps. valid_policy p))"

definition valid_hpa :: "('q, 's) hpa \<Rightarrow> bool" where
  "valid_hpa h \<longleftrightarrow>
     (let m = (case minReplicasOf h of Some v \<Rightarrow> v | None \<Rightarrow> 1) in 0 \<le> m \<and> m \<le> maxReplicasOf h) \<and>
     1 \<le> maxReplicasOf h \<and>
     (\<forall>r. scale_up_rules h = Some r \<longrightarrow> valid_rules r) \<and> (\<forall>r. scale_down_rules h = Some r \<longrightarrow> valid_rules r)"

lemma validate_policy_iff: "validateSimulatedScalingPolicy d i p = None \<longleftrightarrow> valid_policy p"
  by (auto simp: validateSimulatedScalingPolicy_def valid_policy_def Let_def)

lemma validate_policies_iff: "validate_policies d i ps = None \<longleftrightarrow> (\<forall>p \<in> set ps. valid_policy p)"
proof (induction ps arbitrary: i)
  case (Cons p ps)
  show ?case
    using Cons validate_policy_iff [of d i p]
    by (cases "validateSimulatedScalingPolicy d i p") auto
qed simp

lemma selectPolicy_iff: "isl (selectPolicy p) \<longleftrightarrow> to_lower (trim_space p) \<notin> {''max'', ''min'', ''disabled''}"
  by (simp add: selectPolicy_def Let_def)

lemma validate_rules_iff:
  "validateSimulatedScalingRules d rules = None \<longleftrightarrow> (case rules of None \<Rightarrow> True | Some r \<Rightarrow> valid_rules r)"
proof (cases rules)
  case (Some r)
  have sel: "(case selectPolicy p of Inl e \<Rightarrow> Some (wrap_err (d @ '': '') e) | Inr _ \<Rightarrow> None) = None
      \<longleftrightarrow> to_lower (trim_space p) \<in> {''max'', ''min'', ''disabled''}" for p
    using selectPolicy_iff [of p] by (cases "selectPolicy p") auto
  show ?thesis
  proof (cases "r_SelectPolicy r")
    case None
    then show ?thesis using Some
      by (auto simp: validateSimulatedScalingRules_def valid_rules_def validate_policies_iff split: option.splits)
  next
    case (Some p)
    show ?thesis using \<open>rules = Some r\<close> Some sel [of p]
      by (cases "selectPolicy p")
        (auto simp: validateSimulatedScalingRules_def valid_rules_def validate_policies_iff split: option.splits)
  qed
qed (simp add: validateSimulatedScalingRules_def)

lemma validate_iff: "validateSimulatedHPA h = None \<longleftrightarrow> valid_hpa h"
proof (cases "behaviorOf h")
  case None
  then show ?thesis
    by (auto simp: validateSimulatedHPA_def valid_hpa_def scale_up_rules_def scale_down_rules_def Let_def)
next
  case (Some b)
  then show ?thesis
    using validate_rules_iff [of "''scaleUp''" "b_ScaleUp b"] validate_rules_iff [of "''scaleDown''" "b_ScaleDown b"]
    by (auto simp: validateSimulatedHPA_def valid_hpa_def scale_up_rules_def scale_down_rules_def Let_def
        split: option.splits)
qed

subsection \<open>What an override changes\<close>

lemma update_rules_status [simp]: "hpa_Status (update_rules f g h) = hpa_Status h"
  by (simp add: update_rules_def split: option.split)

lemma ensureBehavior_status [simp]: "hpa_Status (ensureBehavior h) = hpa_Status h"
  by (simp add: ensureBehavior_def Let_def split: prod.split)

lemma target_override_status: "applyMetricTargetOverride K h name val = Inr h' \<Longrightarrow> hpa_Status h' = hpa_Status h"
  by (auto simp: applyMetricTargetOverride_def Let_def split: sum.splits option.splits if_splits)

lemma tolerance_override_status: "applyToleranceOverride K h d val = Inr h' \<Longrightarrow> hpa_Status h' = hpa_Status h"
  by (auto simp: applyToleranceOverride_def Let_def split: sum.splits if_splits)

lemma map_sum_Inr: "map_sum id f x = Inr y \<longleftrightarrow> (\<exists>v. x = Inr v \<and> y = f v)"
  by (cases x) auto

lemma replica_override_status:
  "applyReplicaSimulationOverride h p val = Some (Inr h') \<Longrightarrow> hpa_Status h' = hpa_Status h"
  by (auto simp: applyReplicaSimulationOverride_def applyAverageUtilizationToResourceMetrics_def map_sum_Inr
      split: if_splits sum.splits)

lemma behavior_override_status:
  "applyBehaviorSimulationOverride h p val = Some (Inr h') \<Longrightarrow> hpa_Status h' = hpa_Status h"
  by (auto simp: applyBehaviorSimulationOverride_def map_sum_Inr split: if_splits)

lemma override_status: "applySimulationOverride K h path val = Inr h' \<Longrightarrow> hpa_Status h' = hpa_Status h"
  by (auto simp: applySimulationOverride_def definition_Apply_def Let_def
      dest: target_override_status tolerance_override_status replica_override_status behavior_override_status
      split: if_splits option.splits)

text \<open>A global utilization target leaves the quantity fields of every target as they were.\<close>

definition same_quantities :: "'q metric_target \<Rightarrow> 'q metric_target \<Rightarrow> bool" where
  "same_quantities t t' \<longleftrightarrow> mt_Value t' = mt_Value t \<and> mt_AverageValue t' = mt_AverageValue t"

lemma set_utilization_targets:
  "set_utilization v ms = Inr ms' \<Longrightarrow> same_quantities (find_target_in K ms i) (find_target_in K ms' i)"
proof (induction ms arbitrary: ms')
  case Nil
  then show ?case by (simp add: same_quantities_def)
next
  case (Cons m ms)
  show ?case
  proof (cases "mu_Type m = ResourceMetricSourceType")
    case True
    with Cons.prems obtain r ms2 where r: "mu_Resource m = Some r" and ms2: "set_utilization v ms = Inr ms2"
      and ms': "ms' = m\<lparr>mu_Resource := Some (r\<lparr>rm_Payload :=
          (rm_Payload r)\<lparr>mt_AverageUtilization := Some v, mt_Type := UtilizationMetricType\<rparr>\<rparr>)\<rparr> # ms2"
      by (auto simp: map_sum_Inr split: option.splits)
    from Cons.IH [OF ms2] True r show ?thesis
      by (simp add: ms' id_defs Let_def same_quantities_def)
  next
    case False
    with Cons.prems obtain ms2 where "set_utilization v ms = Inr ms2" "ms' = m # ms2"
      by (auto simp: map_sum_Inr)
    with Cons.IH show ?thesis by (auto simp: same_quantities_def split: sum.split option.split)
  qed
qed

lemma ratio_without_utilization:
  assumes "mv_AverageUtilization cur = None" and "same_quantities t t'"
  shows "calculateRatioAndNote K cur t' = calculateRatioAndNote K cur t"
  using assms by (simp add: calculateRatioAndNote_def same_quantities_def)

subsection \<open>Properties\<close>

lemma parseNonNegative_show:
  "lo \<le> n \<Longrightarrow> 0 \<le> n \<Longrightarrow> n \<le> max_int32 \<Longrightarrow> parseNonNegativeInt32 (show_int n) lo msg = Inr n"
  by (simp add: parseNonNegativeInt32_def parseInt32_def parse_show_int)

text \<open>C35. Validation of a simulated HPA accepts exactly the objects whose bounds are ordered and whose
  rules are well-formed.\<close>

theorem validate_exact: "validateSimulatedHPA h = None \<longleftrightarrow> valid_hpa h"
  by (rule validate_iff)

text \<open>For a validated HPA the rate limit is always computed from a policy: the fallback for rules
  without a usable policy is never taken.\<close>

theorem validated_limit_exists:
  assumes "validateSimulatedHPA h = None" and "behaviorOf h = Some b"
    and "rules = (if scaleUp then b_ScaleUp b else b_ScaleDown b)"
  shows "selectedPolicyReplicaLimit current scaleUp sel
    (case Option.bind rules r_Policies of Some ps \<Rightarrow> ps | None \<Rightarrow> DefaultPolicies scaleUp) \<noteq> None"
proof -
  have "valid_rules r" if "rules = Some r" for r
    using assms that by (auto simp: validate_iff valid_hpa_def scale_up_rules_def scale_down_rules_def split: if_splits)
  then have "\<exists>p \<in> set (case Option.bind rules r_Policies of Some ps \<Rightarrow> ps | None \<Rightarrow> DefaultPolicies scaleUp).
      0 < p_Value p \<and> p_Type p \<in> {PodsScalingPolicy, PercentScalingPolicy}"
  proof (cases "Option.bind rules r_Policies")
    case None
    then show ?thesis by (cases scaleUp) (auto simp: DefaultPolicies_def)
  next
    case (Some ps)
    then obtain r where "rules = Some r" "r_Policies r = Some ps" by (auto simp: Option.bind_eq_Some_conv)
    with \<open>\<And>r. rules = Some r \<Longrightarrow> valid_rules r\<close> have "ps \<noteq> []" "\<forall>p \<in> set ps. valid_policy p"
      by (auto simp: valid_rules_def)
    then show ?thesis using Some by (cases ps) (auto simp: valid_policy_def)
  qed
  then show ?thesis unfolding selectedPolicyReplicaLimit_def by (intro Limit_Some disjI2)
qed

lemma validated_limit_exists_witness:
  "selectedPolicyReplicaLimit 10 False MaxChangePolicySelect (DefaultPolicies False) \<noteq> None"
proof -
  have "validateSimulatedHPA (set_Behavior (Some fast_behavior) (sample_hpa 10 [])) = None" by code_simp
  from validated_limit_exists [OF this, of fast_behavior "b_ScaleDown fast_behavior" False 10 MaxChangePolicySelect]
  show ?thesis by (simp add: fast_behavior_def)
qed

text \<open>An override of the specification never touches the status.\<close>

theorem override_keeps_status:
  assumes "applySimulationOverride K h path val = Inr h'"
  shows "hpa_Status h' = hpa_Status h"
  using assms by (rule override_status)

lemma override_keeps_status_witness:
  "hpa_Status (set_MaxReplicas 30 (sample_hpa 4 [])) = hpa_Status (sample_hpa 4 [])"
proof (rule override_keeps_status)
  have "normalizeSimulationPath '' MaxReplicas '' = ''maxreplicas''" by code_simp
  moreover have "parseNonNegativeInt32 ''30'' 1 ''maxReplicas must be >= 1'' = Inr 30" by code_simp
  ultimately show "applySimulationOverride int_lib (sample_hpa 4 []) '' MaxReplicas '' ''30'' =
    Inr (set_MaxReplicas 30 (sample_hpa 4 []))"
    by (simp add: applySimulationOverride_def has_prefix_def has_suffix_def simulationOverrideDefinitions_def
        definition_Apply_def applyReplicaSimulationOverride_def)
qed

text \<open>Writing a replica bound in decimal and reading the path back gives the same text, whatever
  the case and the surrounding blanks of the path.\<close>

theorem override_roundtrip:
  assumes "1 \<le> n" and "n \<le> max_int32"
    and "normalizeSimulationPath path = (if upper then ''maxreplicas'' else ''minreplicas'')"
  shows "\<exists>h'. applySimulationOverride K h path (show_int n) = Inr h' \<and>
    h' = (if upper then set_MaxReplicas n h else set_MinReplicas (Some n) h) \<and>
    originalValue K h' path = Inr (show_int n)"
  using assms
  by (cases upper)
    (simp_all add: applySimulationOverride_def originalValue_def has_prefix_def has_suffix_def
      simulationOverrideDefinitions_def definition_Apply_def definition_Original_def
      applyReplicaSimulationOverride_def parseNonNegative_show originalMinReplicas_def)

lemma override_roundtrip_witness:
  "\<exists>h'. applySimulationOverride int_lib (sample_hpa 4 []) '' MinReplicas'' (show_int 3) = Inr h' \<and>
     originalValue int_lib h' '' MinReplicas'' = Inr (show_int 3)"
proof -
  have p: "normalizeSimulationPath '' MinReplicas'' = (if False then ''maxreplicas'' else ''minreplicas'')"
    by code_simp
  from override_roundtrip [OF _ _ p, of 3 int_lib "sample_hpa 4 []"] show ?thesis by auto
qed

text \<open>Overrides of a stabilization window are always rejected, with the sentinel of an invalid
  value or of unavailable history; their effect is never simulated.\<close>

theorem stabilization_rejected:
  assumes "normalizeSimulationPath path \<in>
    {''scaledown.stabilizationwindowseconds'', ''scaleup.stabilizationwindowseconds''}"
  shows "\<exists>e. applySimulationOverride K h path val = Inl e \<and>
    (err_Is e ErrInvalidSimulationValue \<or> err_Is e ErrUnsupportedSimulationSemantics)"
proof -
  have rejected: "err_Is (stabilization_override d val) ErrInvalidSimulationValue \<or>
      err_Is (stabilization_override d val) ErrUnsupportedSimulationSemantics" for d
    by (auto simp: stabilization_override_def parseNonNegativeInt32_def invalid_because_def err_Is_def
        errorf_is_def split: sum.splits if_splits)
  have "\<exists>d. applySimulationOverride K h path val = Inl (stabilization_override d val)"
    using assms
    by (auto simp: applySimulationOverride_def has_prefix_def has_suffix_def simulationOverrideDefinitions_def
        definition_Apply_def applyReplicaSimulationOverride_def applyBehaviorSimulationOverride_def)
  with rejected show ?thesis by blast
qed

lemma stabilization_rejected_witness:
  "isl (applySimulationOverride int_lib (sample_hpa 4 []) ''scaleDown.stabilizationWindow'' ''30'')"
proof -
  have "normalizeSimulationPath ''scaleDown.stabilizationWindow'' = ''scaledown.stabilizationwindowseconds''"
    by code_simp
  then show ?thesis
    using stabilization_rejected [of "''scaleDown.stabilizationWindow''" int_lib "sample_hpa 4 []" "''30''"] by auto
qed

text \<open>The global utilization target has no effect on a resource metric whose status reports no
  utilization: the quantity target it leaves in place still decides the ratio.\<close>

theorem utilization_override_stale:
  assumes "normalizeSimulationPath path = ''targetaverageutilization''"
    and "applySimulationOverride K h path val = Inr h'"
    and "mu_Type m = ResourceMetricSourceType"
    and "mu_Resource m = Some r" and "mv_AverageUtilization (rm_Payload r) = None"
  shows "metricImpactRatio K h' m = metricImpactRatio K h m"
proof -
  from assms(1,2) obtain v ms where "set_utilization v (metricsOf h) = Inr ms" and h': "h' = set_Metrics ms h"
    by (auto simp: applySimulationOverride_def has_prefix_def has_suffix_def simulationOverrideDefinitions_def
        definition_Apply_def applyReplicaSimulationOverride_def applyAverageUtilizationToResourceMetrics_def
        map_sum_Inr split: sum.splits)
  then have "same_quantities (FindResourceTargetSpec K h (rm_Name r)) (FindResourceTargetSpec K h' (rm_Name r))"
    by (simp add: FindResourceTargetSpec_def findTargetSpec_def h' set_utilization_targets)
  then have "calculateRatioAndNote K (rm_Payload r) (FindResourceTargetSpec K h' (rm_Name r)) =
      calculateRatioAndNote K (rm_Payload r) (FindResourceTargetSpec K h (rm_Name r))"
    by (rule ratio_without_utilization [OF assms(5)])
  then show ?thesis
    using assms(3-5)
    by (simp add: metricImpactRatio_def handlerFor_def resource_ImpactRatio_def Let_def)
qed

definition stale_hpa :: "(int, string) hpa" where
  "stale_hpa = set_Metrics
     [\<lparr>mu_Type = ResourceMetricSourceType,
       mu_Resource = Some \<lparr>rm_Name = ''cpu'', rm_Payload = \<lparr>mt_Type = AverageValueMetricType,
         mt_Value = None, mt_AverageValue = Some 4, mt_AverageUtilization = None\<rparr>\<rparr>,
       mu_ContainerResource = None, mu_Pods = None, mu_Object = None, mu_External = None\<rparr>] (sample_hpa 4 [])"

definition stale_status :: "(int, string) metric_status" where
  "stale_status =
     \<lparr>mu_Type = ResourceMetricSourceType,
      mu_Resource = Some \<lparr>rm_Name = ''cpu'', rm_Payload = \<lparr>mv_Value = None, mv_AverageValue = Some 8,
        mv_AverageUtilization = None\<rparr>\<rparr>,
      mu_ContainerResource = None, mu_Pods = None, mu_Object = None, mu_External = None\<rparr>"

lemma utilization_override_stale_witness:
  "case applySimulationOverride int_lib stale_hpa ''targetAverageUtilization'' ''50'' of
     Inr h' \<Rightarrow> metricImpactRatio int_lib h' stale_status = metricImpactRatio int_lib stale_hpa stale_status
   | Inl _ \<Rightarrow> False"
proof -
  have p: "normalizeSimulationPath ''targetAverageUtilization'' = ''targetaverageutilization''" by code_simp
  have "\<not> isl (applySimulationOverride int_lib stale_hpa ''targetAverageUtilization'' ''50'')" by code_simp
  then obtain h' where e: "applySimulationOverride int_lib stale_hpa ''targetAverageUtilization'' ''50'' = Inr h'"
    by (cases "applySimulationOverride int_lib stale_hpa ''targetAverageUtilization'' ''50''") auto
  show ?thesis using utilization_override_stale [OF p e, of stale_status] e by (simp add: stale_status_def)
qed

end
