(* ===== verification/SimDesired.thy ===== *)
theory SimDesired
  imports SimOverrides
begin

section \<open>Recomputing the desired count of a simulated HPA\<close>

text \<open>
  \<open>pkg/hpa/simulate/simulate_desired.go\<close>, \<open>simulate_conditions.go\<close> and the injected ratio function
  of \<open>simulation_types.go\<close>. The function pointer the root package installs is a parameter \<open>F\<close>:
  \<^const>\<open>None\<close> before registration, and \<open>Some (metricImpactRatio K)\<close> after
  \<open>simulate_init.go\<close> has run.
\<close>

type_synonym ('q, 's) ratio_func = "('q, 's) hpa \<Rightarrow> ('q, 's) metric_status \<Rightarrow> string \<times> f64 option"

definition metricImpactRatioInvoker ::
    "('q, 's) ratio_func option \<Rightarrow> ('q, 's) hpa \<Rightarrow> ('q, 's) metric_status \<Rightarrow> go_error + f64 option" where
  "metricImpactRatioInvoker F h metric = (case F of
     None \<Rightarrow> Inl (errorf_is ErrDependencyMissing
       '': metricImpactRatio (import github.com/mattsu2020/kubectl-hpa-status/pkg/hpa or call SetMetricImpactRatioFunc)'')
   | Some ratioFn \<Rightarrow> Inr (snd (ratioFn h metric)))"

subsection \<open>Conditions\<close>

definition simulatedConditionTrue :: "('q, 's) hpa \<Rightarrow> string \<Rightarrow> bool" where
  "simulatedConditionTrue h conditionType = (case find (\<lambda>c. c_Type c = conditionType) (conditionsOf h) of
     None \<Rightarrow> False
   | Some c \<Rightarrow> c_Status c = ConditionTrue)"

definition replaceSimulatedScalingActive ::
    "('q, 's) hpa \<Rightarrow> string \<Rightarrow> string \<Rightarrow> string \<Rightarrow> ('q, 's) hpa" where
  "replaceSimulatedScalingActive h status reason message =
     set_Conditions (filter (\<lambda>c. c_Type c \<noteq> ScalingActive) (conditionsOf h) @
       [\<lparr>c_Type = ScalingActive, c_Status = status, c_Reason = reason, c_Message = message\<rparr>]) h"

definition kept_condition :: "hpa_condition \<Rightarrow> bool" where
  "kept_condition c \<longleftrightarrow>
     \<not> (c_Type c = ScalingLimited \<or> c_Type c = ScaledToZero) \<and>
     \<not> (c_Type c = AbleToScale \<and> (c_Reason c = ReasonScaleUpStabilized \<or> c_Reason c = ReasonScaleDownStabilized))"

definition replaceSimulatedControllerConditions :: "('q, 's) hpa \<Rightarrow> bool \<Rightarrow> string \<Rightarrow> ('q, 's) hpa" where
  "replaceSimulatedControllerConditions h limited reason =
     (let kept = filter kept_condition (conditionsOf h);
          status = (if limited then ConditionTrue else ConditionFalse);
          message = (if limited
            then ''the projected desired replica count is constrained by the simulated limits''
            else ''the projected desired replica count is within the simulated limits'')
      in set_Conditions (kept @
           [\<lparr>c_Type = ScalingLimited, c_Status = status, c_Reason = reason, c_Message = message\<rparr>]) h)"

subsection \<open>The evidence for a scale-down\<close>

fun collect_spec_targets ::
    "('q, 's) k8s_lib \<Rightarrow> ('q, 's) metric_spec list \<Rightarrow> (metric_id \<times> string) list
     \<Rightarrow> (metric_id \<times> string) list option" where
  "collect_spec_targets K [] specTargets = Some specTargets"
| "collect_spec_targets K (spec # specs) specTargets = (case MetricIDFromSpec K spec of
     Inl _ \<Rightarrow> None
   | Inr i \<Rightarrow>
       if i \<in> fst ` set specTargets then None
       else (case MetricTargetPointer spec of
               None \<Rightarrow> None
             | Some target \<Rightarrow> collect_spec_targets K specs ((i, mt_Type target) # specTargets)))"

fun collect_status_ids ::
    "('q, 's) k8s_lib \<Rightarrow> (metric_id \<times> string) list \<Rightarrow> ('q, 's) metric_status list \<Rightarrow> metric_id list
     \<Rightarrow> metric_id list option" where
  "collect_status_ids K specTargets [] statusIDs = Some statusIDs"
| "collect_status_ids K specTargets (current # currents) statusIDs = (case MetricIDFromStatus K current of
     Inl _ \<Rightarrow> None
   | Inr i \<Rightarrow>
       if i \<in> set statusIDs then None
       else (case map_of specTargets i of
               None \<Rightarrow> None
             | Some targetType \<Rightarrow> (case CurrentMetricValueStatus K current of
                 None \<Rightarrow> None
               | Some val \<Rightarrow>
                   if \<not> HasValueForTarget val targetType then None
                   else collect_status_ids K specTargets currents (i # statusIDs))))"

definition hasOneToOneCanonicalMetricStatus :: "('q, 's) k8s_lib \<Rightarrow> ('q, 's) hpa option \<Rightarrow> bool" where
  "hasOneToOneCanonicalMetricStatus K hp = (case hp of
     None \<Rightarrow> False
   | Some h \<Rightarrow>
       if length (metricsOf h) \<noteq> length (currentMetricsOf h) then False
       else (case collect_spec_targets K (metricsOf h) [] of
               None \<Rightarrow> False
             | Some specTargets \<Rightarrow> (case collect_status_ids K specTargets (currentMetricsOf h) [] of
                 None \<Rightarrow> False
               | Some statusIDs \<Rightarrow> list_all (\<lambda>i. i \<in> set statusIDs) (map fst specTargets))))"

subsection \<open>The recommendation of the metrics\<close>

definition estimatedSimulatedMetricDesired ::
    "('q, 's) k8s_lib \<Rightarrow> ('q, 's) hpa \<Rightarrow> ('q, 's) metric_status \<Rightarrow> f64 \<Rightarrow> int option" where
  "estimatedSimulatedMetricDesired K h metric ratio =
     (if currentOf h \<noteq> 0 then Some (EstimatedDesiredForRatio K h ratio)
      else if mu_Type metric \<noteq> ObjectMetricSourceType \<and> mu_Type metric \<noteq> ExternalMetricSourceType then None
      else case MatchingTarget K h metric of
             None \<Rightarrow> None
           | Some target \<Rightarrow>
               if mt_Type target \<noteq> ValueMetricType \<or> mt_Value target = None then None
               else let projected = f_ceil ratio
                    in if f_lt (f_of_int max_int32) projected then Some max_int32
                       else Some (wrap32 (f_trunc projected)))"

definition usable_ratio :: "f64 option \<Rightarrow> f64 option" where
  "usable_ratio r = (case r of
     None \<Rightarrow> None
   | Some x \<Rightarrow> if is_nan x \<or> is_inf x \<or> f_lt x (Fin 0) then None else Some x)"

fun desired_loop ::
    "('q, 's) ratio_func option \<Rightarrow> ('q, 's) k8s_lib \<Rightarrow> ('q, 's) hpa \<Rightarrow> ('q, 's) metric_status list
     \<Rightarrow> int option \<Rightarrow> go_error + int option" where
  "desired_loop F K h [] desired = Inr desired"
| "desired_loop F K h (metric # metrics) desired = (case metricImpactRatioInvoker F h metric of
     Inl e \<Rightarrow> Inl e
   | Inr r \<Rightarrow> (case usable_ratio r of
       None \<Rightarrow> desired_loop F K h metrics desired
     | Some ratio \<Rightarrow> (case estimatedSimulatedMetricDesired K h metric ratio of
         None \<Rightarrow> desired_loop F K h metrics desired
       | Some metricDesired \<Rightarrow>
           desired_loop F K h metrics (Some (case desired of
             None \<Rightarrow> metricDesired
           | Some d \<Rightarrow> if metricDesired > d then metricDesired else d)))))"

text \<open>The pair (desired, found) of the code is an option.\<close>

definition simulatedDesiredFromMetrics ::
    "('q, 's) ratio_func option \<Rightarrow> ('q, 's) k8s_lib \<Rightarrow> ('q, 's) hpa \<Rightarrow> go_error + int option" where
  "simulatedDesiredFromMetrics F K h = desired_loop F K h (currentMetricsOf h) None"

subsection \<open>Scale from zero\<close>

definition hasSimulatedObjectOrExternalMetric :: "('q, 's) hpa \<Rightarrow> bool" where
  "hasSimulatedObjectOrExternalMetric h =
     list_ex (\<lambda>m. mu_Type m = ObjectMetricSourceType \<or> mu_Type m = ExternalMetricSourceType) (metricsOf h)"

definition shouldComputeSimulatedMetricsFromZero :: "('q, 's) hpa \<Rightarrow> int \<Rightarrow> bool \<Rightarrow> bool" where
  "shouldComputeSimulatedMetricsFromZero h minReplicas scaledToZero =
     (if \<not> scaledToZero then False else minReplicas \<noteq> 0 \<or> hasSimulatedObjectOrExternalMetric h)"

definition effective_min :: "('q, 's) hpa \<Rightarrow> int" where
  "effective_min h = (case minReplicasOf h of Some v \<Rightarrow> v | None \<Rightarrow> 1)"

fun zero_projection_loop ::
    "('q, 's) ratio_func option \<Rightarrow> ('q, 's) k8s_lib \<Rightarrow> ('q, 's) hpa \<Rightarrow> ('q, 's) metric_status list \<Rightarrow> go_error option" where
  "zero_projection_loop F K h [] = Some (errorf_is ErrUnsupportedSimulationSemantics
     '': scale-from-zero projection requires a visible Object or External Value metric'')"
| "zero_projection_loop F K h (metric # metrics) = (case metricImpactRatioInvoker F h metric of
     Inl e \<Rightarrow> Some e
   | Inr r \<Rightarrow> (case usable_ratio r of
       None \<Rightarrow> zero_projection_loop F K h metrics
     | Some ratio \<Rightarrow> (case estimatedSimulatedMetricDesired K h metric ratio of
         Some _ \<Rightarrow> None
       | None \<Rightarrow> zero_projection_loop F K h metrics)))"

definition validateSimulatedZeroProjection ::
    "('q, 's) ratio_func option \<Rightarrow> ('q, 's) k8s_lib \<Rightarrow> ('q, 's) hpa \<Rightarrow> go_error option" where
  "validateSimulatedZeroProjection F K h =
     (if currentOf h \<noteq> 0 then None
      else let scaledToZero = simulatedConditionTrue h ScaledToZero
           in if \<not> shouldComputeSimulatedMetricsFromZero h (effective_min h) scaledToZero then None
              else zero_projection_loop F K h (currentMetricsOf h))"

subsection \<open>The recomputation\<close>

definition recomputeSimulatedDesired ::
    "('q, 's) ratio_func option \<Rightarrow> ('q, 's) k8s_lib \<Rightarrow> ('q, 's) hpa \<Rightarrow> go_error + ('q, 's) hpa" where
  "recomputeSimulatedDesired F K h =
     (let minReplicas = effective_min h;
          scaledToZero = simulatedConditionTrue h ScaledToZero
      in if currentOf h = 0 \<and> \<not> shouldComputeSimulatedMetricsFromZero h minReplicas scaledToZero then
           Inr (replaceSimulatedControllerConditions
             (replaceSimulatedScalingActive (set_DesiredReplicas 0 h) ConditionFalse ''ScalingDisabled''
                ''scaling is disabled because the target was manually scaled to zero'')
             False ''DesiredWithinRange'')
         else case simulatedDesiredFromMetrics F K h of
           Inl e \<Rightarrow> Inl e
         | Inr found \<Rightarrow>
             let desired = (case found of Some d \<Rightarrow> d | None \<Rightarrow> desiredOf h);
                 desired = (if \<not> hasOneToOneCanonicalMetricStatus K (Some h) \<and> desired < currentOf h
                            then currentOf h else desired);
                 (desired, limited, limitedReason) =
                   normalizeSimulatedDesired h desired minReplicas (maxReplicasOf h);
                 desired = (if currentOf h = 0 \<and> minReplicas \<noteq> 0 \<and> scaledToZero \<and> desired < minReplicas
                            then minReplicas else desired);
                 h1 = set_DesiredReplicas desired h;
                 h2 = (if currentOf h = 0 \<and> scaledToZero \<and> found \<noteq> None
                       then replaceSimulatedScalingActive h1 ConditionTrue ''ValidMetricFound''
                              ''the projected replica count was calculated from visible metric data''
                       else h1)
             in Inr (replaceSimulatedControllerConditions h2 limited limitedReason))"

subsection \<open>One status entry per metric\<close>

text \<open>
  What the check promises: the identities of the spec are pairwise distinct, so are those of
  the status, both are the same set, and every status entry has a value for the target type
  of the spec metric of its identity.
\<close>

definition spec_ids :: "('q, 's) k8s_lib \<Rightarrow> ('q, 's) hpa \<Rightarrow> (go_error + metric_id) list" where
  "spec_ids K h = map (MetricIDFromSpec K) (metricsOf h)"

definition status_ids :: "('q, 's) k8s_lib \<Rightarrow> ('q, 's) hpa \<Rightarrow> (go_error + metric_id) list" where
  "status_ids K h = map (MetricIDFromStatus K) (currentMetricsOf h)"

definition valued :: "('q, 's) k8s_lib \<Rightarrow> ('q, 's) metric_spec \<Rightarrow> ('q, 's) metric_status \<Rightarrow> bool" where
  "valued K spec cur \<longleftrightarrow> (\<exists>t v. MetricTargetPointer spec = Some t \<and> CurrentMetricValueStatus K cur = Some v
     \<and> HasValueForTarget v (mt_Type t))"

definition one_to_one :: "('q, 's) k8s_lib \<Rightarrow> ('q, 's) hpa \<Rightarrow> bool" where
  "one_to_one K h \<longleftrightarrow>
     distinct (spec_ids K h) \<and> distinct (status_ids K h) \<and> set (spec_ids K h) = set (status_ids K h) \<and>
     (\<forall>i \<in> set (spec_ids K h). \<not> isl i) \<and>
     (\<forall>spec \<in> set (metricsOf h). \<forall>cur \<in> set (currentMetricsOf h).
        MetricIDFromSpec K spec = MetricIDFromStatus K cur \<longrightarrow> valued K spec cur)"

lemma target_of_identified: "MetricIDFromSpec K spec = Inr i \<Longrightarrow> \<exists>t. MetricTargetPointer spec = Some t"
  by (auto simp: id_defs MetricTargetPointer_def Let_def map_sum_Inr split: if_splits option.splits)

text \<open>The map the first loop builds.\<close>

definition target_type :: "('q metric_target, 's) metric_union \<Rightarrow> string" where
  "target_type spec = mt_Type (the (MetricTargetPointer spec))"

lemma collect_spec_targets_eq:
  "collect_spec_targets K specs acc =
     (if (\<forall>s \<in> set specs. \<not> isl (MetricIDFromSpec K s)) \<and>
         distinct (map (projr \<circ> MetricIDFromSpec K) specs) \<and>
         (\<forall>s \<in> set specs. projr (MetricIDFromSpec K s) \<notin> fst ` set acc)
      then Some (rev (map (\<lambda>s. (projr (MetricIDFromSpec K s), target_type s)) specs) @ acc) else None)"
proof (induction specs arbitrary: acc)
  case (Cons s specs)
  show ?case
  proof (cases "MetricIDFromSpec K s")
    case (Inr i)
    with target_of_identified obtain t where "MetricTargetPointer s = Some t" by blast
    with Inr Cons show ?thesis by (auto simp: target_type_def)
  qed simp
qed simp

definition status_ok ::
    "('q, 's) k8s_lib \<Rightarrow> (metric_id \<times> string) list \<Rightarrow> ('q, 's) metric_status \<Rightarrow> bool" where
  "status_ok K targets c \<longleftrightarrow> \<not> isl (MetricIDFromStatus K c) \<and>
     (\<exists>ty v. map_of targets (projr (MetricIDFromStatus K c)) = Some ty \<and>
        CurrentMetricValueStatus K c = Some v \<and> HasValueForTarget v ty)"

lemma collect_status_step:
  "collect_status_ids K targets (c # curs) acc =
     (if status_ok K targets c \<and> projr (MetricIDFromStatus K c) \<notin> set acc
      then collect_status_ids K targets curs (projr (MetricIDFromStatus K c) # acc) else None)"
  by (auto simp: status_ok_def split: sum.splits option.splits)

lemma collect_status_ids_eq:
  "collect_status_ids K targets curs acc =
     (if (\<forall>c \<in> set curs. status_ok K targets c) \<and>
         distinct (map (projr \<circ> MetricIDFromStatus K) curs) \<and>
         (\<forall>c \<in> set curs. projr (MetricIDFromStatus K c) \<notin> set acc)
      then Some (rev (map (projr \<circ> MetricIDFromStatus K) curs) @ acc) else None)"
proof (induction curs arbitrary: acc)
  case (Cons c curs)
  then show ?case
    by (auto simp: collect_status_step image_iff dest: sym simp del: collect_status_ids.simps(2))
qed simp

lemma map_of_targets:
  assumes "distinct (map (projr \<circ> MetricIDFromSpec K) specs)"
  shows "map_of (rev (map (\<lambda>s. (projr (MetricIDFromSpec K s), target_type s)) specs)) i = Some ty \<longleftrightarrow>
    (\<exists>s \<in> set specs. i = projr (MetricIDFromSpec K s) \<and> ty = target_type s)"
proof -
  let ?ps = "map (\<lambda>s. (projr (MetricIDFromSpec K s), target_type s)) specs"
  have "map fst ?ps = map (projr \<circ> MetricIDFromSpec K) specs" by simp
  with assms have d: "distinct (map fst (rev ?ps))" by (simp add: rev_map [symmetric] comp_def)
  show ?thesis unfolding map_of_eq_Some_iff [OF d] by auto
qed

text \<open>Identities without errors: distinctness and membership through \<open>projr\<close>.\<close>

lemma projr_ids:
  assumes "\<forall>x \<in> set xs. \<not> isl (f x)"
  shows "distinct (map (projr \<circ> f) xs) = distinct (map f xs)"
proof -
  have "inj_on projr (f ` set xs)"
    using assms by (auto simp: inj_on_def) (metis sum.collapse(2))
  then have "distinct (map projr (map f xs)) = distinct (map f xs)"
    unfolding distinct_map [of projr] by simp
  then show ?thesis by simp
qed

lemma one_to_one_iff: "hasOneToOneCanonicalMetricStatus K (Some h) \<longleftrightarrow> one_to_one K h"
proof -
  let ?S = "metricsOf h" and ?C = "currentMetricsOf h"
  let ?targets = "rev (map (\<lambda>s. (projr (MetricIDFromSpec K s), target_type s)) ?S)"
  let ?okS = "(\<forall>s \<in> set ?S. \<not> isl (MetricIDFromSpec K s)) \<and> distinct (map (projr \<circ> MetricIDFromSpec K) ?S)"
  let ?okC = "(\<forall>c \<in> set ?C. status_ok K ?targets c) \<and> distinct (map (projr \<circ> MetricIDFromStatus K) ?C)"
  have "hasOneToOneCanonicalMetricStatus K (Some h) \<longleftrightarrow> length ?S = length ?C \<and> ?okS \<and> ?okC \<and>
      (\<forall>s \<in> set ?S. \<exists>c \<in> set ?C. projr (MetricIDFromSpec K s) = projr (MetricIDFromStatus K c))"
    by (auto simp: hasOneToOneCanonicalMetricStatus_def collect_spec_targets_eq collect_status_ids_eq
        list_all_iff image_iff)
  also have "\<dots> \<longleftrightarrow> one_to_one K h"
  proof (cases ?okS)
    case True
    note okS = True
    have ids: "distinct (spec_ids K h)" using okS projr_ids [of ?S "MetricIDFromSpec K"] by (simp add: spec_ids_def)
    have ok_iff: "status_ok K ?targets c \<longleftrightarrow> \<not> isl (MetricIDFromStatus K c) \<and>
        (\<exists>s \<in> set ?S. MetricIDFromSpec K s = MetricIDFromStatus K c \<and> valued K s c)" for c
    proof -
      have "projr (MetricIDFromStatus K c) = projr (MetricIDFromSpec K s) \<longleftrightarrow> MetricIDFromSpec K s = MetricIDFromStatus K c"
        if "s \<in> set ?S" "\<not> isl (MetricIDFromStatus K c)" for s
        using that okS by (metis sum.collapse(2))
      moreover have "(\<exists>v. CurrentMetricValueStatus K c = Some v \<and> HasValueForTarget v (target_type s)) = valued K s c"
        if "s \<in> set ?S" for s
        using that okS target_of_identified [of K s "projr (MetricIDFromSpec K s)"]
        by (auto simp: valued_def target_type_def)
      ultimately show ?thesis
        unfolding status_ok_def map_of_targets [OF conjunct2 [OF okS]] by blast
    qed
    show ?thesis
    proof
      assume *: "length ?S = length ?C \<and> ?okS \<and> ?okC \<and>
        (\<forall>s \<in> set ?S. \<exists>c \<in> set ?C. projr (MetricIDFromSpec K s) = projr (MetricIDFromStatus K c))"
      then have nl: "\<forall>c \<in> set ?C. \<not> isl (MetricIDFromStatus K c)" by (auto simp: ok_iff)
      have "distinct (status_ids K h)" using * nl projr_ids [of ?C "MetricIDFromStatus K"] by (simp add: status_ids_def)
      moreover have "set (spec_ids K h) \<subseteq> set (status_ids K h)"
      proof
        fix i assume "i \<in> set (spec_ids K h)"
        then obtain s where s: "s \<in> set ?S" "i = MetricIDFromSpec K s" by (auto simp: spec_ids_def)
        with * obtain c where c: "c \<in> set ?C" "projr (MetricIDFromSpec K s) = projr (MetricIDFromStatus K c)" by blast
        with s okS nl have "i = MetricIDFromStatus K c" by (metis sum.collapse(2))
        with c show "i \<in> set (status_ids K h)" by (auto simp: status_ids_def)
      qed
      moreover have "set (status_ids K h) \<subseteq> set (spec_ids K h)"
        using * by (auto simp: ok_iff status_ids_def spec_ids_def image_iff) metis
      moreover have "valued K s c" if "s \<in> set ?S" "c \<in> set ?C" "MetricIDFromSpec K s = MetricIDFromStatus K c" for s c
      proof -
        from * that obtain s' where s': "s' \<in> set ?S" "MetricIDFromSpec K s' = MetricIDFromStatus K c" "valued K s' c"
          by (auto simp: ok_iff)
        with that ids have "s' = s" by (auto simp: spec_ids_def distinct_map inj_on_def)
        with s' show ?thesis by simp
      qed
      ultimately show "one_to_one K h" using ids okS by (auto simp: one_to_one_def spec_ids_def)
    next
      assume one: "one_to_one K h"
      then have "length (spec_ids K h) = length (status_ids K h)"
        by (metis one_to_one_def distinct_card)
      then have len: "length ?S = length ?C" by (simp add: spec_ids_def status_ids_def)
      have nl: "\<forall>c \<in> set ?C. \<not> isl (MetricIDFromStatus K c)"
        using one by (auto simp: one_to_one_def status_ids_def)
      have "distinct (map (projr \<circ> MetricIDFromStatus K) ?C)"
        using one projr_ids [OF nl] by (simp add: one_to_one_def status_ids_def)
      moreover have "status_ok K ?targets c" if "c \<in> set ?C" for c
      proof -
        have "MetricIDFromStatus K c \<in> set (spec_ids K h)"
          using one that by (auto simp: one_to_one_def status_ids_def)
        then obtain s where "s \<in> set ?S" "MetricIDFromSpec K s = MetricIDFromStatus K c"
          by (auto simp: spec_ids_def)
        then show ?thesis using one nl that by (auto simp: ok_iff one_to_one_def)
      qed
      moreover have "\<exists>c \<in> set ?C. projr (MetricIDFromSpec K s) = projr (MetricIDFromStatus K c)" if "s \<in> set ?S" for s
      proof -
        have "MetricIDFromSpec K s \<in> set (status_ids K h)"
          using one that by (auto simp: one_to_one_def spec_ids_def)
        then show ?thesis by (auto simp: status_ids_def)
      qed
      ultimately show "length ?S = length ?C \<and> ?okS \<and> ?okC \<and>
        (\<forall>s \<in> set ?S. \<exists>c \<in> set ?C. projr (MetricIDFromSpec K s) = projr (MetricIDFromStatus K c))"
        using okS len by blast
    qed
  next
    case False
    have "?okS" if "one_to_one K h"
      using that projr_ids [of ?S "MetricIDFromSpec K"] by (auto simp: one_to_one_def spec_ids_def)
    with False show ?thesis by blast
  qed
  finally show ?thesis .
qed

subsection \<open>Properties\<close>

text \<open>C21. The controller-convergence check used by the simulator (two loops over maps keyed by the
  metric identity, then a third over the spec identities) accepts exactly the objects in which the
  identities of the spec and of the status are pairwise distinct, form the same set, and every
  status entry carries a value of the kind its spec target asks for; a nil HPA is rejected.\<close>

theorem one_to_one_refines:
  "hasOneToOneCanonicalMetricStatus K hp = (case hp of None \<Rightarrow> False | Some h \<Rightarrow> one_to_one K h)"
  by (cases hp) (simp_all add: one_to_one_iff, simp add: hasOneToOneCanonicalMetricStatus_def)

subsection \<open>Facts of the recomputation\<close>

lemma legacy_limit_up: "0 \<le> c \<Longrightarrow> c \<le> max_int32 \<Longrightarrow> c \<le> legacySimulatedScaleUpLimit c"
  by (auto simp: legacySimulatedScaleUpLimit_def Let_def)

lemma normalized_in_bounds:
  assumes "lo \<le> currentOf h" and "currentOf h \<le> hi" and "0 \<le> currentOf h" and "currentOf h \<le> max_int32"
  shows "lo \<le> fst (normalizeSimulatedDesired h desired lo hi)
    \<and> fst (normalizeSimulatedDesired h desired lo hi) \<le> hi
    \<and> (currentOf h \<le> desired \<longrightarrow> currentOf h \<le> fst (normalizeSimulatedDesired h desired lo hi))"
proof (cases "behaviorOf h")
  case None
  then show ?thesis
    using assms legacy_limit_up [OF assms(3,4)] by (auto simp: normalizeSimulatedDesired_def legacy_value)
next
  case (Some b)
  then show ?thesis
    using assms sim.normalize_in_bounds [OF assms(1,2), where u = "b_ScaleUp b" and d = "b_ScaleDown b" and desired = desired]
      sim.normalize_between(1) [OF assms(1,2), where u = "b_ScaleUp b" and d = "b_ScaleDown b" and desired = desired]
    by (auto simp: normalizeSimulatedDesired_def min_def split: if_splits)
qed

text \<open>The projection of the running case, as a function of the recommendation.\<close>

definition projected :: "('q, 's) k8s_lib \<Rightarrow> ('q, 's) hpa \<Rightarrow> int option \<Rightarrow> int" where
  "projected K h found =
     (let desired = (case found of Some d \<Rightarrow> d | None \<Rightarrow> desiredOf h)
      in if \<not> hasOneToOneCanonicalMetricStatus K (Some h) \<and> desired < currentOf h then currentOf h else desired)"

lemma recompute_running:
  assumes "recomputeSimulatedDesired F K h = Inr h'" and "currentOf h \<noteq> 0"
  obtains found where "simulatedDesiredFromMetrics F K h = Inr found"
    and "desiredOf h' = fst (normalizeSimulatedDesired h (projected K h found) (effective_min h) (maxReplicasOf h))"
  using assms
  by (auto simp: recomputeSimulatedDesired_def projected_def Let_def replaceSimulatedControllerConditions_def
      split: sum.splits prod.splits)

lemma kept_conditions:
  "conditionsOf (replaceSimulatedControllerConditions h l r) =
     filter kept_condition (conditionsOf h) @ [last (conditionsOf (replaceSimulatedControllerConditions h l r))]"
  "c_Type (last (conditionsOf (replaceSimulatedControllerConditions h l r))) = ScalingLimited"
  by (simp_all add: replaceSimulatedControllerConditions_def Let_def)

lemma recompute_closed:
  assumes "recomputeSimulatedDesired F K h = Inr h'"
    and "0 < currentOf h" and "currentOf h \<le> max_int32"
    and "effective_min h \<le> currentOf h" and "currentOf h \<le> maxReplicasOf h"
  shows "effective_min h \<le> desiredOf h' \<and> desiredOf h' \<le> maxReplicasOf h
    \<and> (desiredOf h' < currentOf h \<longrightarrow> one_to_one K h)"
proof -
  from assms(1,2) obtain found where d: "desiredOf h' =
      fst (normalizeSimulatedDesired h (projected K h found) (effective_min h) (maxReplicasOf h))"
    by (auto elim: recompute_running)
  have "currentOf h \<le> projected K h found" if "\<not> one_to_one K h"
    using that by (auto simp: projected_def Let_def one_to_one_iff)
  then show ?thesis
    using normalized_in_bounds [OF assms(4,5) _ assms(3), of "projected K h found"] assms(2)
    by (auto simp: d)
qed

text \<open>Whatever the bounds, a recommendation of at least the current count is lowered only to maxReplicas.\<close>

lemma normalized_not_below:
  assumes "0 < currentOf h" "currentOf h \<le> max_int32" "currentOf h \<le> maxReplicasOf h" "currentOf h \<le> desired"
  shows "currentOf h \<le> fst (normalizeSimulatedDesired h desired lo (maxReplicasOf h))"
proof (cases "behaviorOf h")
  case None
  then show ?thesis using assms legacy_limit_up [of "currentOf h"]
    by (auto simp: normalizeSimulatedDesired_def legacy_value)
next
  case (Some b)
  then show ?thesis using assms sim.up [of "currentOf h" "b_ScaleUp b"]
    by (auto simp: normalizeSimulatedDesired_def sim.normalize_value clamp_up_def)
qed

text \<open>C3. A running target whose count does not exceed maxReplicas never drops below its current count unless every spec
  metric has exactly one usable status entry of the same identity (an incomplete or duplicated status never projects a
  scale-down); and if the current count is inside both bounds, so is the projected count.\<close>

theorem recompute_fails_closed:
  assumes "recomputeSimulatedDesired F K h = Inr h'" and "0 < currentOf h" and "currentOf h \<le> max_int32"
  shows "(desiredOf h' < currentOf h \<longrightarrow> one_to_one K h \<or> maxReplicasOf h < currentOf h)
    \<and> (effective_min h \<le> currentOf h \<and> currentOf h \<le> maxReplicasOf h \<longrightarrow>
        effective_min h \<le> desiredOf h' \<and> desiredOf h' \<le> maxReplicasOf h)"
proof -
  from assms(1,2) obtain found where d: "desiredOf h' =
      fst (normalizeSimulatedDesired h (projected K h found) (effective_min h) (maxReplicasOf h))"
    by (auto elim: recompute_running)
  have "currentOf h \<le> projected K h found" if "\<not> one_to_one K h"
    using that by (auto simp: projected_def Let_def one_to_one_iff)
  then have "desiredOf h' < currentOf h \<longrightarrow> one_to_one K h \<or> maxReplicasOf h < currentOf h"
    using normalized_not_below [OF assms(2,3), where desired = "projected K h found" and lo = "effective_min h"]
    unfolding d by linarith
  then show ?thesis using recompute_closed [OF assms] by blast
qed

definition under_half :: "(int, string) hpa" where
  "under_half = set_CurrentMetrics (currentMetricsOf ceiling_hpa @ currentMetricsOf ceiling_hpa) ceiling_hpa"

lemma recompute_fails_closed_witness:
  "\<exists>h'. recomputeSimulatedDesired (Some (metricImpactRatio int_lib)) int_lib under_half = Inr h' \<and> 10 \<le> desiredOf h' \<and> desiredOf h' \<le> 10"
proof -
  have "\<not> isl (recomputeSimulatedDesired (Some (metricImpactRatio int_lib)) int_lib under_half)" by code_simp
  then obtain h' where h': "recomputeSimulatedDesired (Some (metricImpactRatio int_lib)) int_lib under_half = Inr h'"
    using not_isl_Inr by blast
  have "\<not> hasOneToOneCanonicalMetricStatus int_lib (Some under_half)" by code_simp
  moreover have "effective_min under_half \<le> currentOf under_half" "currentOf under_half \<le> maxReplicasOf under_half"
    "currentOf under_half = 10" "maxReplicasOf under_half = 10"
    by code_simp+
  ultimately show ?thesis
    using recompute_fails_closed [OF h'] h' by (auto simp: one_to_one_iff)
qed

lemma recompute_only:
  assumes "recomputeSimulatedDesired F K h = Inr h'"
  shows "h' = set_Conditions (conditionsOf h') (set_DesiredReplicas (desiredOf h') h)
    \<and> conditionsOf h' \<noteq> [] \<and> filter (\<lambda>c. c_Type c = ScalingLimited) (conditionsOf h') = [last (conditionsOf h')]
    \<and> filter (\<lambda>c. c_Type c = ScaledToZero) (conditionsOf h') = []"
proof -
  let ?shape = "\<exists>g l r d. h' = replaceSimulatedControllerConditions g l r \<and>
    (g = set_DesiredReplicas d h \<or> (\<exists>st re m. g = replaceSimulatedScalingActive (set_DesiredReplicas d h) st re m))"
  have ?shape
  proof (cases "simulatedDesiredFromMetrics F K h")
    case (Inl e)
    with assms show ?thesis unfolding recomputeSimulatedDesired_def Let_def by (simp split: if_splits) blast
  next
    case (Inr found)
    obtain d l r where n: "normalizeSimulatedDesired h (projected K h found) (effective_min h) (maxReplicasOf h) = (d, l, r)"
      by (rule prod_cases3)
    note n = n [unfolded projected_def Let_def]
    show ?thesis
      using assms unfolding recomputeSimulatedDesired_def Let_def Inr sum.case n prod.case
      by (cases "currentOf h = 0 \<and> \<not> shouldComputeSimulatedMetricsFromZero h (effective_min h) (simulatedConditionTrue h ScaledToZero)";
          cases "currentOf h = 0 \<and> simulatedConditionTrue h ScaledToZero \<and> found \<noteq> None")
        (simp_all only: if_True if_False simp_thms sum.inject, blast+)
  qed
  then obtain g l r d cs where h': "h' = replaceSimulatedControllerConditions g l r"
    and g: "g = set_DesiredReplicas d h \<or> g = set_Conditions cs (set_DesiredReplicas d h)"
    by (metis replaceSimulatedScalingActive_def)
  from g have "h' = set_Conditions (conditionsOf h') (set_DesiredReplicas (desiredOf h') h)"
    by (auto simp: h' replaceSimulatedControllerConditions_def Let_def set_Conditions_def set_DesiredReplicas_def)
  moreover have "filter (\<lambda>c. c_Type c = ScalingLimited) (filter kept_condition cs) = []"
    "filter (\<lambda>c. c_Type c = ScaledToZero) (filter kept_condition cs) = []" for cs
    by (auto simp: filter_empty_conv kept_condition_def)
  ultimately show ?thesis
    by (simp add: h' replaceSimulatedControllerConditions_def Let_def)
qed

text \<open>The recomputation changes nothing but the desired count and the conditions; afterwards
  exactly one ScalingLimited condition is present, at the end, and no ScaledToZero condition is
  left.\<close>

theorem recompute_frame:
  assumes "recomputeSimulatedDesired F K h = Inr h'"
  shows "h' = set_Conditions (conditionsOf h') (set_DesiredReplicas (desiredOf h') h)
    \<and> conditionsOf h' \<noteq> [] \<and> filter (\<lambda>c. c_Type c = ScalingLimited) (conditionsOf h') = [last (conditionsOf h')]
    \<and> filter (\<lambda>c. c_Type c = ScaledToZero) (conditionsOf h') = []"
  by (rule recompute_only [OF assms])

lemma recompute_frame_witness:
  "\<exists>h'. recomputeSimulatedDesired (Some (metricImpactRatio int_lib)) int_lib under_half = Inr h'
    \<and> hpa_Spec h' = hpa_Spec under_half \<and> c_Type (last (conditionsOf h')) = ScalingLimited"
proof -
  have "\<not> isl (recomputeSimulatedDesired (Some (metricImpactRatio int_lib)) int_lib under_half)" by code_simp
  then obtain h' where h': "recomputeSimulatedDesired (Some (metricImpactRatio int_lib)) int_lib under_half = Inr h'"
    using not_isl_Inr by blast
  have "last (conditionsOf h') \<in> set (filter (\<lambda>c. c_Type c = ScalingLimited) (conditionsOf h'))"
    using recompute_frame [OF h'] by simp
  then have "c_Type (last (conditionsOf h')) = ScalingLimited" by simp
  moreover have "hpa_Spec h' = hpa_Spec under_half"
    using recompute_frame [OF h'] by (metis hpa_getters_of_setters(1,3))
  ultimately show ?thesis using h' by blast
qed

end
