(* ===== verification/Durations.thy ===== *)
theory Durations
  imports KubeApi
begin

section \<open>Durations, bars and padding\<close>

text \<open>
  \<open>pkg/hpa/rendutil/format.go\<close> and the padding verbs of package \<open>fmt\<close> its callers use. A
  \<open>time.Duration\<close> is its number of nanoseconds, a 64-bit integer. Strings are byte strings, so
  the block characters are their UTF-8 bytes.
\<close>

definition go_rem :: "int \<Rightarrow> int \<Rightarrow> int" where
  "go_rem a b = a - b * quot a b"

abbreviation Second :: int where "Second \<equiv> 1000000000"
abbreviation Minute :: int where "Minute \<equiv> 60000000000"
abbreviation Hour :: int where "Hour \<equiv> 3600000000000"

definition dur_minutes :: "int \<Rightarrow> f64" where
  "dur_minutes d = f_add (f_of_int (quot d Minute)) (f_div (f_of_int (go_rem d Minute)) (Fin 60000000000))"

definition dur_hours :: "int \<Rightarrow> f64" where
  "dur_hours d = f_add (f_of_int (quot d Hour)) (f_div (f_of_int (go_rem d Hour)) (Fin 3600000000000))"

text \<open>\<open>Duration.Round\<close>: to the nearest multiple, halves away from zero, saturating.\<close>

definition dur_round :: "int \<Rightarrow> int \<Rightarrow> int" where
  "dur_round d m =
     (if m \<le> 0 then d
      else let r = go_rem d m
           in if d < 0 then
                (if 2 * (- r) < m then d - r
                 else if d - m - r < min_int64 then min_int64 else d - m - r)
              else (if 2 * r < m then d - r
                    else if d + m - r > max_int64 then max_int64 else d + m - r))"

subsection \<open>The duration formats\<close>

definition DurationCompactMinutes :: "int \<Rightarrow> string" where
  "DurationCompactMinutes d0 =
     (let d = dur_round d0 Minute
      in if d < Minute then ''0m''
         else let h = f_trunc (dur_hours d);
                  m = go_rem (f_trunc (dur_minutes d)) 60
              in if h > 0 \<and> m > 0 then show_int h @ ''h'' @ show_int m @ ''m''
                 else if h > 0 then show_int h @ ''h''
                 else show_int m @ ''m'')"

definition DurationSpaced :: "int \<Rightarrow> string" where
  "DurationSpaced d =
     (if d \<le> 0 then ''0s''
      else let seconds = quot d Second;
               hours = quot seconds 3600;
               minutes = quot (go_rem seconds 3600) 60;
               secs = go_rem seconds 60
           in if hours > 0 then show_int hours @ ''h '' @ show_int minutes @ ''m''
              else if minutes > 0 then show_int minutes @ ''m '' @ show_int secs @ ''s''
              else show_int secs @ ''s'')"

definition DurationCompact :: "int \<Rightarrow> string" where
  "DurationCompact d0 =
     (let d = (if d0 < 0 then wrap64 (- d0) else d0);
          seconds = quot d Second;
          days = quot seconds 86400;
          hours = quot (go_rem seconds 86400) 3600;
          minutes = quot (go_rem seconds 3600) 60;
          secs = go_rem seconds 60
      in if days > 0 \<and> hours > 0 then show_int days @ ''d'' @ show_int hours @ ''h''
         else if days > 0 then show_int days @ ''d''
         else if hours > 0 \<and> minutes > 0 then show_int hours @ ''h'' @ show_int minutes @ ''m''
         else if hours > 0 then show_int hours @ ''h''
         else if minutes > 0 \<and> secs > 0 then show_int minutes @ ''m'' @ show_int secs @ ''s''
         else if minutes > 0 then show_int minutes @ ''m''
         else show_int secs @ ''s'')"

definition DurationCompactHMS :: "int \<Rightarrow> string" where
  "DurationCompactHMS d0 =
     (let d = (if d0 < 0 then wrap64 (- d0) else d0);
          seconds = quot d Second;
          hours = quot seconds 3600;
          minutes = quot (go_rem seconds 3600) 60;
          secs = go_rem seconds 60
      in if hours > 0 then show_int hours @ ''h'' @ show_int minutes @ ''m''
         else if minutes > 0 then show_int minutes @ ''m'' @ show_int secs @ ''s''
         else show_int secs @ ''s'')"

subsection \<open>Progress bars\<close>

definition full_block :: string where "full_block = [CHR 0xE2, CHR 0x96, CHR 0x88]"
definition light_shade :: string where "light_shade = [CHR 0xE2, CHR 0x96, CHR 0x91]"

text \<open>\<open>strings.Repeat\<close> panics on a negative count: no value.\<close>

definition go_repeat :: "string \<Rightarrow> int \<Rightarrow> string option" where
  "go_repeat s n = (if n < 0 then None else Some (concat (replicate (nat n) s)))"

definition bar_filled :: "int \<Rightarrow> int \<Rightarrow> int \<Rightarrow> bool \<Rightarrow> int" where
  "bar_filled v whole width rounding =
     (let filled = (if whole > 0 \<and> v > 0
            then quot (let f = wrap64 (v * width) in if rounding then wrap64 (f + quot whole 2) else f) whole
            else 0)
      in if filled > width then width else filled)"

definition progressBar :: "int \<Rightarrow> int \<Rightarrow> int \<Rightarrow> bool \<Rightarrow> string option" where
  "progressBar v whole width rounding =
     (if width \<le> 0 then Some []
      else let filled = bar_filled v whole width rounding
           in case (go_repeat full_block filled, go_repeat light_shade (width - filled)) of
                (Some a, Some b) \<Rightarrow> Some (a @ b)
              | _ \<Rightarrow> None)"

definition ProgressBar :: "int \<Rightarrow> int \<Rightarrow> int \<Rightarrow> string option" where
  "ProgressBar v whole width = progressBar v whole width True"

definition ProgressBarFloor :: "int \<Rightarrow> int \<Rightarrow> int \<Rightarrow> string option" where
  "ProgressBarFloor v whole width = progressBar v whole width False"

subsection \<open>Padding\<close>

text \<open>\<open>%wd\<close> and \<open>%ws\<close> of an ASCII text: blanks on the left, on the right for a negative width.\<close>

definition pad_field :: "int \<Rightarrow> string \<Rightarrow> string" where
  "pad_field w s = (if w < 0 then s @ replicate (nat (- w) - length s) (CHR '' '')
                    else replicate (nat w - length s) (CHR '' '') @ s)"

subsection \<open>Glyphs of the text graphs\<close>

definition bar_char :: string where "bar_char = [CHR 0xE2, CHR 0x94, CHR 0x82]"
definition dash_char :: string where "dash_char = [CHR 0xE2, CHR 0x94, CHR 0x80]"
definition corner_left :: string where "corner_left = [CHR 0xE2, CHR 0x94, CHR 0x94]"
definition corner_right :: string where "corner_right = [CHR 0xE2, CHR 0x94, CHR 0x98]"
definition newline :: string where "newline = [CHR 0x0A]"

subsection \<open>Facts\<close>

lemma go_rem_nonneg: "0 \<le> a \<Longrightarrow> 0 < b \<Longrightarrow> go_rem a b = a mod b"
  by (simp add: go_rem_def quot_nonneg minus_mult_div_eq_mod)

lemma bar_filled_exact:
  assumes "0 < v" "0 < whole" "0 < width" "v * width + whole \<le> max_int64"
  shows "bar_filled v whole width rounding =
    min width ((v * width + (if rounding then whole div 2 else 0)) div whole)"
proof -
  have p: "0 \<le> v * width" using assms by simp
  have a: "in64 (v * width)" using assms(2,4) p unfolding in64_def by linarith
  have h: "0 \<le> whole div 2" "whole div 2 \<le> whole" using assms(2) by simp_all
  have b: "in64 (v * width + whole div 2)" using assms(4) p h unfolding in64_def by linarith
  show ?thesis
    using assms p a b h by (simp add: bar_filled_def Let_def quot_nonneg min_def)
qed

text \<open>A progress bar within 64 bits always has exactly \<open>width\<close> cells: \<open>f\<close> filled ones and
  \<open>width - f\<close> empty ones; the floor variant is full exactly when the value has reached the total,
  and the rounding one is never emptier.\<close>

theorem progress_bar_cells:
  assumes "0 < v" "0 < whole" "0 < width" "v * width + whole \<le> max_int64"
  shows "\<exists>f g. ProgressBarFloor v whole width
        = Some (concat (replicate (nat f) full_block) @ concat (replicate (nat (width - f)) light_shade))
    \<and> ProgressBar v whole width
        = Some (concat (replicate (nat g) full_block) @ concat (replicate (nat (width - g)) light_shade))
    \<and> 0 \<le> f \<and> f \<le> g \<and> g \<le> width \<and> (f = width \<longleftrightarrow> whole \<le> v)"
proof -
  let ?f = "bar_filled v whole width False" and ?g = "bar_filled v whole width True"
  note ex = bar_filled_exact [OF assms]
  have p: "0 \<le> v * width" using assms by simp
  have f0: "0 \<le> ?f" using assms p by (simp add: ex pos_imp_zdiv_nonneg_iff)
  have fg: "?f \<le> ?g" using assms(2) by (simp add: ex min.coboundedI2 zdiv_mono1)
  have gw: "?g \<le> width" by (simp add: ex)
  have full: "?f = width \<longleftrightarrow> whole \<le> v"
  proof -
    have "?f = width \<longleftrightarrow> width \<le> v * width div whole" by (auto simp: ex min_def)
    also have "\<dots> \<longleftrightarrow> width * whole \<le> v * width"
    proof
      assume "width \<le> v * width div whole"
      then have "width * whole \<le> v * width div whole * whole" using assms(2) by simp
      also have "\<dots> \<le> v * width" using assms(2) by (simp add: minus_mod_eq_div_mult [symmetric])
      finally show "width * whole \<le> v * width" .
    next
      assume "width * whole \<le> v * width"
      then have "width * whole div whole \<le> v * width div whole" using assms(2) by (rule zdiv_mono1)
      then show "width \<le> v * width div whole" using assms(2) by simp
    qed
    also have "\<dots> \<longleftrightarrow> whole \<le> v" using assms(3) by (simp add: mult.commute)
    finally show ?thesis .
  qed
  show ?thesis
    using f0 fg gw full assms(3)
    by (rule_tac x = ?f in exI, rule_tac x = ?g in exI)
      (simp add: Let_def ProgressBarFloor_def ProgressBar_def progressBar_def go_repeat_def)
qed

lemma progress_bar_cells_witness:
  "\<exists>f g. ProgressBarFloor 96 100 10
        = Some (concat (replicate (nat f) full_block) @ concat (replicate (nat (10 - f)) light_shade))
    \<and> f < 10 \<and> f \<le> g"
  using progress_bar_cells [of 96 100 10] by fastforce

end
