(* ===== verification/SimTypes.thy ===== *)
theory SimTypes
  imports SimDesired Durations
begin

section \<open>The types of the simulator and its registration\<close>

text \<open>
  \<open>pkg/hpa/simulate/simulation_types.go\<close>, \<open>pkg/hpa/model/health.go\<close> and
  \<open>pkg/hpa/simulate_init.go\<close>: the copies of the analysis types the simulator works on, the
  conversion of the health weights, and the registration of the two functions of the root package.
  The atomic function pointer of the analysis is the option \<open>A\<close>; its content is
  \<open>registered_analysis\<close> of the root package's \<open>AnalyzeWithOptions\<close>, which is a parameter here.
\<close>

subsection \<open>Types\<close>

record sim_metric =
  sm_Type :: string
  sm_Name :: string
  sm_Selector :: string
  sm_Current :: string
  sm_Target :: string
  sm_CurrentReplicas :: int
  sm_AverageValue :: string
  sm_Note :: string
  sm_Ratio :: "f64 option"

record sim_weights =
  sw_Overrides :: "health_weights option"
  sw_Limited :: int
  sw_NotReady :: int
  sw_Falling :: int
  sw_MetricUnavailable :: int

record sim_analysis =
  sa_Namespace :: string
  sa_Name :: string
  sa_Target :: string
  sa_Current :: int
  sa_Desired :: int
  sa_Min :: int
  sa_Max :: int
  sa_Health :: string
  sa_HealthScore :: int
  sa_Summary :: string
  sa_Metrics :: "sim_metric list"
  sa_Conditions :: "hpa_condition list"

record analysis_options =
  ao_HealthWeights :: sim_weights
  ao_IncludeMetrics :: bool
  ao_IncludeConditions :: bool
  ao_EnableObservations :: bool
  ao_ForTesting :: bool

record simulation_state =
  ss_DesiredReplicas :: int
  ss_Health :: string
  ss_HealthScore :: int
  ss_Summary :: string
  ss_ScalingLimited :: bool
  ss_Metrics :: "sim_metric list"

record projected_state =
  ps_TimeOffset :: int
  ps_ProjectedReplicas :: int
  ps_ProjectedMetricRatio :: f64

record extended_options =
  eo_DurationSeconds :: int
  eo_StepSeconds :: int

record metric_simulation =
  ms_MetricName :: string
  ms_OriginalValue :: string
  ms_SimulatedValue :: string
  ms_ProjectedRatio :: "f64 option"
  ms_ProjectedReplicas :: int
  ms_ToleranceImpact :: string

record simulation_result =
  sr_Parameter :: string
  sr_OriginalValue :: string
  sr_SimulatedValue :: string
  sr_Before :: simulation_state
  sr_After :: simulation_state
  sr_Confidence :: string
  sr_RiskAssessment :: string
  sr_Interpretation :: "string list"
  sr_MetricSimulations :: "metric_simulation list"
  sr_TimeSeriesProjection :: "projected_state list"
  sr_RiskWarnings :: "string list"

type_synonym ('q, 's) analysis_func = "('q, 's) hpa \<Rightarrow> bool \<Rightarrow> analysis_options \<Rightarrow> sim_analysis"

subsection \<open>Health weights\<close>

text \<open>\<open>Clone\<close> allocates every penalty anew; values have no sharing in the model.\<close>

definition Clone :: "health_weights \<Rightarrow> health_weights" where
  "Clone w =
     (let clonePtr = (\<lambda>p. case p of None \<Rightarrow> None | Some v \<Rightarrow> Some v)
      in \<lparr>hw_ScalingInactive = clonePtr (hw_ScalingInactive w),
          hw_UnableToScale = clonePtr (hw_UnableToScale w),
          hw_ScalingLimited = clonePtr (hw_ScalingLimited w),
          hw_ImplicitMaxReplicas = clonePtr (hw_ImplicitMaxReplicas w),
          hw_ScaleDownStabilized = clonePtr (hw_ScaleDownStabilized w),
          hw_AtMinimumReplicas = clonePtr (hw_AtMinimumReplicas w),
          hw_KEDAInactiveTrigger = clonePtr (hw_KEDAInactiveTrigger w),
          hw_VPAConflict = clonePtr (hw_VPAConflict w),
          hw_Churn = clonePtr (hw_Churn w)\<rparr>)"

definition HealthWeightsWithOverrides :: "health_weights \<Rightarrow> sim_weights" where
  "HealthWeightsWithOverrides weights =
     (let cloned = Clone weights;
          legacy = (\<lambda>p. case p of None \<Rightarrow> 0 | Some v \<Rightarrow> v)
      in \<lparr>sw_Overrides = Some cloned, sw_Limited = legacy (hw_ScalingLimited cloned),
          sw_NotReady = legacy (hw_UnableToScale cloned), sw_Falling = legacy (hw_ScaleDownStabilized cloned),
          sw_MetricUnavailable = legacy (hw_ScalingInactive cloned)\<rparr>)"

definition HealthWeightsFrom :: "int option \<Rightarrow> int option \<Rightarrow> int option \<Rightarrow> sim_weights" where
  "HealthWeightsFrom limited notReady falling = HealthWeightsWithOverrides
     (no_weights\<lparr>hw_ScalingLimited := limited, hw_UnableToScale := notReady, hw_ScaleDownStabilized := falling\<rparr>)"

definition intPtr :: "int \<Rightarrow> int option" where
  "intPtr v = (if v = 0 then None else Some v)"

definition convertSimulateHealthWeights :: "sim_weights \<Rightarrow> health_weights" where
  "convertSimulateHealthWeights w = (case sw_Overrides w of
     Some o' \<Rightarrow> Clone o'
   | None \<Rightarrow> no_weights\<lparr>hw_ScalingInactive := intPtr (sw_MetricUnavailable w),
       hw_ScalingLimited := intPtr (sw_Limited w), hw_UnableToScale := intPtr (sw_NotReady w),
       hw_ScaleDownStabilized := intPtr (sw_Falling w)\<rparr>)"

subsection \<open>The registered analysis\<close>

definition convertMetricsToSimulate :: "metric list \<Rightarrow> sim_metric list" where
  "convertMetricsToSimulate metrics = map (\<lambda>m.
     \<lparr>sm_Type = m_Type m, sm_Name = m_Name m, sm_Selector = m_Selector m, sm_Current = m_Current m,
      sm_Target = m_Target m, sm_CurrentReplicas = 0, sm_AverageValue = [], sm_Note = m_Note m,
      sm_Ratio = m_Ratio m\<rparr>) metrics"

definition convertConditionsToSimulate :: "hpa_condition list \<Rightarrow> hpa_condition list" where
  "convertConditionsToSimulate conditions = map (\<lambda>c.
     \<lparr>c_Type = c_Type c, c_Status = c_Status c, c_Reason = c_Reason c, c_Message = c_Message c\<rparr>) conditions"

text \<open>The fields of the root package's \<open>Analysis\<close> the closure reads.\<close>

record root_analysis =
  ra_Namespace :: string
  ra_Name :: string
  ra_Target :: string
  ra_Current :: int
  ra_Desired :: int
  ra_Min :: int
  ra_Max :: int
  ra_Health :: string
  ra_HealthScore :: int
  ra_Summary :: string
  ra_Metrics :: "metric list"
  ra_Conditions :: "hpa_condition list"

definition registered_analysis ::
    "(('q, 's) hpa \<Rightarrow> bool \<Rightarrow> health_weights \<Rightarrow> root_analysis) \<Rightarrow> ('q, 's) analysis_func" where
  "registered_analysis AnalyzeWithOptions h includeMetrics opts =
     (let result = AnalyzeWithOptions h True (convertSimulateHealthWeights (ao_HealthWeights opts))
      in \<lparr>sa_Namespace = ra_Namespace result, sa_Name = ra_Name result, sa_Target = ra_Target result,
          sa_Current = ra_Current result, sa_Desired = ra_Desired result, sa_Min = ra_Min result,
          sa_Max = ra_Max result, sa_Health = ra_Health result, sa_HealthScore = ra_HealthScore result,
          sa_Summary = ra_Summary result, sa_Metrics = convertMetricsToSimulate (ra_Metrics result),
          sa_Conditions = convertConditionsToSimulate (ra_Conditions result)\<rparr>)"

definition AnalysisFuncInvoker ::
    "('q, 's) analysis_func option \<Rightarrow> ('q, 's) hpa \<Rightarrow> bool \<Rightarrow> analysis_options \<Rightarrow> go_error + sim_analysis" where
  "AnalysisFuncInvoker A h includeMetrics opts = (case A of
     None \<Rightarrow> Inl (errorf_is ErrDependencyMissing
       '': analysis (import github.com/mattsu2020/kubectl-hpa-status/pkg/hpa or call SetAnalyzeFunc)'')
   | Some analyze \<Rightarrow> Inr (analyze h includeMetrics opts))"

subsection \<open>Properties\<close>

lemma Clone_same [simp]: "Clone w = w"
  by (cases w) (simp add: Clone_def Let_def option.case_eq_if)

text \<open>The weights survive the trip through the simulator's copy of the type: what the command
  hands to the simulator comes back unchanged in the analysis, explicit zeros (a disabled penalty)
  included.\<close>

theorem weights_roundtrip: "convertSimulateHealthWeights (HealthWeightsWithOverrides w) = w"
  by (simp add: convertSimulateHealthWeights_def HealthWeightsWithOverrides_def Let_def)

end
