(* ===== verification/SimProjection.thy ===== *)
theory SimProjection
  imports SimTypes
begin

section \<open>Replica trajectories\<close>

text \<open>
  \<open>pkg/hpa/simulate/simulate_projection.go\<close> and \<open>format_helpers.go\<close>: the time series of projected
  replica counts and its ASCII graph. The analysis is the parameter \<open>A\<close> of \<open>SimTypes\<close>. The graph
  functions return \<^const>\<open>None\<close> where an index out of range panics.
\<close>

definition defaultProjectionDurationSeconds :: int where "defaultProjectionDurationSeconds = 300"
definition defaultProjectionStepSeconds :: int where "defaultProjectionStepSeconds = 30"
definition maxProjectionPoints :: int where "maxProjectionPoints = 10000"

definition default_options :: analysis_options where
  "default_options =
     \<lparr>ao_HealthWeights = \<lparr>sw_Overrides = None, sw_Limited = 0, sw_NotReady = 0, sw_Falling = 0, sw_MetricUnavailable = 0\<rparr>,
      ao_IncludeMetrics = False, ao_IncludeConditions = False, ao_EnableObservations = False, ao_ForTesting = False\<rparr>"

definition computeEndReplicas :: "('q, 's) analysis_func option \<Rightarrow> ('q, 's) hpa \<Rightarrow> go_error + int" where
  "computeEndReplicas A modified = (case AnalysisFuncInvoker A modified False default_options of
     Inl e \<Rightarrow> Inl e
   | Inr modifiedAnalysis \<Rightarrow> Inr (sa_Desired modifiedAnalysis))"

definition computeStabilizationDelay :: "('q, 's) hpa \<Rightarrow> int \<Rightarrow> int \<Rightarrow> int" where
  "computeStabilizationDelay modified startReplicas endReplicas = (case behaviorOf modified of
     None \<Rightarrow> 0
   | Some b \<Rightarrow>
       let rules = (if endReplicas > startReplicas then b_ScaleUp b else b_ScaleDown b)
       in case rules of
            None \<Rightarrow> 0
          | Some r \<Rightarrow> (case r_StabilizationWindowSeconds r of Some w \<Rightarrow> w | None \<Rightarrow> 0))"

definition interpolateReplicas :: "int \<Rightarrow> int \<Rightarrow> int \<Rightarrow> int \<Rightarrow> int" where
  "interpolateReplicas startReplicas endReplicas offset stabilizationDelay =
     (if startReplicas = endReplicas then startReplicas
      else if offset < stabilizationDelay then startReplicas
      else if endReplicas > startReplicas then endReplicas
      else endReplicas)"

definition computeMetricRatio :: "int \<Rightarrow> int \<Rightarrow> f64" where
  "computeMetricRatio startReplicas currentReplicas =
     (if startReplicas \<le> 0 \<or> currentReplicas \<le> 0 then Fin 0
      else let ratio = f_div (f_of_int startReplicas) (f_of_int currentReplicas)
           in f_div (f_round (f_mul ratio (Fin 100))) (Fin 100))"

definition projection_point :: "int \<Rightarrow> int \<Rightarrow> int \<Rightarrow> int \<Rightarrow> projected_state" where
  "projection_point startReplicas endReplicas stabilizationDelay offset =
     (let replicas = interpolateReplicas startReplicas endReplicas offset stabilizationDelay
      in \<lparr>ps_TimeOffset = offset, ps_ProjectedReplicas = replicas,
          ps_ProjectedMetricRatio = computeMetricRatio startReplicas replicas\<rparr>)"

text \<open>
  The loop over \<open>elapsed\<close>; the step is positive where the code enters it, which is the guard the
  recursion needs.
\<close>

function projection_loop ::
    "(int \<Rightarrow> projected_state) \<Rightarrow> int \<Rightarrow> int \<Rightarrow> int \<Rightarrow> projected_state list" where
  "projection_loop point step duration elapsed =
     (if elapsed \<le> duration \<and> 0 < step
      then point (wrap32 elapsed) # projection_loop point step duration (elapsed + step)
      else [])"
  by pat_completeness auto
termination by (relation "measure (\<lambda>(_, _, duration, elapsed). nat (duration + 1 - elapsed))") auto

declare projection_loop.simps [simp del]

definition projection_duration :: "extended_options \<Rightarrow> int" where
  "projection_duration opts =
     (if eo_DurationSeconds opts \<le> 0 then defaultProjectionDurationSeconds else eo_DurationSeconds opts)"

definition projection_step :: "extended_options \<Rightarrow> int" where
  "projection_step opts =
     (let step = (if eo_StepSeconds opts \<le> 0 then defaultProjectionStepSeconds else eo_StepSeconds opts)
      in if step > projection_duration opts then projection_duration opts else step)"

definition projection_count :: "extended_options \<Rightarrow> int" where
  "projection_count opts =
     quot (projection_duration opts + projection_step opts - 1) (projection_step opts) + 1"

definition ProjectReplicaTrajectory ::
    "('q, 's) analysis_func option \<Rightarrow> ('q, 's) hpa option \<Rightarrow> ('q, 's) hpa option \<Rightarrow> extended_options
     \<Rightarrow> go_error + projected_state list" where
  "ProjectReplicaTrajectory A original modified opts = (case (original, modified) of
     (Some org, Some md) \<Rightarrow>
       let duration = projection_duration opts;
           step = projection_step opts;
           pointCount = projection_count opts
       in if pointCount > maxProjectionPoints then
            Inl (errorf_is ErrInvalidSimulationValue ('': projection would generate '' @ show_int pointCount @
              '' points (limit '' @ show_int maxProjectionPoints @ ''); reduce duration or increase step''))
          else let startReplicas = desiredOf org
          in case computeEndReplicas A md of
               Inl e \<Rightarrow> Inl e
             | Inr endReplicas \<Rightarrow>
                 let stabilizationDelay = computeStabilizationDelay md startReplicas endReplicas;
                     point = projection_point startReplicas endReplicas stabilizationDelay;
                     states = projection_loop point step duration 0
                 in Inr (if states \<noteq> [] \<and> ps_TimeOffset (last states) < duration
                         then states @ [point duration] else states)
   | _ \<Rightarrow> Inl (sentinel_err ErrNilHPA))"

subsection \<open>The ASCII graph\<close>

definition repeatChar :: "int \<Rightarrow> string \<Rightarrow> string" where
  "repeatChar count char = (if count \<le> 0 then [] else concat (replicate (nat count) char))"

definition formatDuration :: "int \<Rightarrow> string" where
  "formatDuration seconds = DurationSpaced (wrap64 (seconds * Second))"

fun bounds_loop :: "projected_state list \<Rightarrow> int \<Rightarrow> int \<Rightarrow> int \<times> int" where
  "bounds_loop [] minReplicas maxReplicas = (minReplicas, maxReplicas)"
| "bounds_loop (s # ss) minReplicas maxReplicas =
     bounds_loop ss
       (if ps_ProjectedReplicas s < minReplicas then ps_ProjectedReplicas s else minReplicas)
       (if ps_ProjectedReplicas s > maxReplicas then ps_ProjectedReplicas s else maxReplicas)"

definition replicaBounds :: "projected_state list \<Rightarrow> (int \<times> int) option" where
  "replicaBounds states = (case states of
     [] \<Rightarrow> None
   | s # _ \<Rightarrow> Some (bounds_loop states (ps_ProjectedReplicas s) (ps_ProjectedReplicas s)))"

definition plot_column :: "int \<Rightarrow> int \<Rightarrow> int \<Rightarrow> int" where
  "plot_column width maxOffset offset =
     (let x = f_trunc (f_mul (f_div (f_of_int offset) (f_of_int maxOffset)) (f_of_int (width - 1)))
      in if x \<ge> width then width - 1 else x)"

definition plot_row :: "int \<Rightarrow> int \<Rightarrow> int \<Rightarrow> int \<Rightarrow> int" where
  "plot_row graphHeight minReplicas replicaRange replicas =
     (let y = graphHeight - 1 - f_trunc (f_mul (f_div (f_of_int (wrap32 (replicas - minReplicas)))
                (f_of_int replicaRange)) (f_of_int (graphHeight - 1)));
          y = (if y < 0 then 0 else y)
      in if y \<ge> graphHeight then graphHeight - 1 else y)"

definition set_cell :: "string list list \<Rightarrow> int \<Rightarrow> int \<Rightarrow> string \<Rightarrow> string list list option" where
  "set_cell rows y x c =
     (if 0 \<le> y \<and> y < int (length rows) \<and> 0 \<le> x \<and> x < int (length (rows ! nat y))
      then Some (rows[nat y := (rows ! nat y)[nat x := c]]) else None)"

fun plotTrajectoryPoints ::
    "string list list \<Rightarrow> projected_state list \<Rightarrow> int \<Rightarrow> int \<Rightarrow> int \<Rightarrow> int \<Rightarrow> int \<Rightarrow> string list list option" where
  "plotTrajectoryPoints rows [] width graphHeight maxOffset minReplicas replicaRange = Some rows"
| "plotTrajectoryPoints rows (s # ss) width graphHeight maxOffset minReplicas replicaRange =
     (if maxOffset \<le> 0 then plotTrajectoryPoints rows ss width graphHeight maxOffset minReplicas replicaRange
      else case set_cell rows (plot_row graphHeight minReplicas replicaRange (ps_ProjectedReplicas s))
                  (plot_column width maxOffset (ps_TimeOffset s)) full_block of
             None \<Rightarrow> None
           | Some rows' \<Rightarrow> plotTrajectoryPoints rows' ss width graphHeight maxOffset minReplicas replicaRange)"

definition graph_height :: int where "graph_height = 5"

definition row_label :: "int \<Rightarrow> int \<Rightarrow> int \<Rightarrow> int" where
  "row_label maxReplicas replicaRange i = wrap32 (maxReplicas - quot (wrap32 (i * replicaRange)) graph_height)"

definition row_line :: "int \<Rightarrow> string list \<Rightarrow> string" where
  "row_line label row = pad_field 3 (show_int label) @ '' '' @ bar_char @ concat row @ bar_char @ newline"

definition FormatTrajectoryASCII :: "projected_state list \<Rightarrow> int \<Rightarrow> string option" where
  "FormatTrajectoryASCII states width0 = (case replicaBounds states of
     None \<Rightarrow> Some []
   | Some (minReplicas, maxReplicas) \<Rightarrow>
       let width = (if width0 \<le> 0 then 40 else width0);
           maxOffset = ps_TimeOffset (last states);
           replicaRange = wrap32 (maxReplicas - minReplicas);
           replicaRange = (if replicaRange = 0 then 1 else replicaRange);
           rows = replicate (nat graph_height) (replicate (nat width) '' '')
       in case plotTrajectoryPoints rows states width graph_height maxOffset minReplicas replicaRange of
            None \<Rightarrow> None
          | Some rows \<Rightarrow> Some (
              concat (map2 (\<lambda>i row. row_line (row_label maxReplicas replicaRange (int i)) row) [0..<length rows] rows) @
              ''    '' @ corner_left @ repeatChar width dash_char @ corner_right @ newline @
              ''     0s'' @ pad_field (width - 4) (formatDuration maxOffset) @ newline))"

subsection \<open>Facts of the trajectory\<close>

lemma projection_params:
  assumes "in32 (eo_DurationSeconds opts)" and "in32 (eo_StepSeconds opts)"
  shows "0 < projection_step opts" and "projection_step opts \<le> projection_duration opts"
    and "in32 (projection_duration opts)"
  using assms
  by (auto simp: projection_step_def projection_duration_def Let_def in32_def
      defaultProjectionDurationSeconds_def defaultProjectionStepSeconds_def)

lemma wrap32_between: "0 \<le> x \<Longrightarrow> x \<le> d \<Longrightarrow> in32 d \<Longrightarrow> wrap32 x = x"
  by (simp add: in32_def)

lemma projection_loop_eq:
  assumes "0 < step" and "in32 duration" and "0 \<le> elapsed"
  shows "projection_loop point step duration elapsed =
    map (\<lambda>k. point (elapsed + int k * step)) [0..<nat ((duration - elapsed) div step + 1)]"
  using assms
proof (induction point step duration elapsed rule: projection_loop.induct)
  case (1 point step duration elapsed)
  show ?case
  proof (cases "elapsed \<le> duration")
    case False
    then have "(duration - elapsed) div step < 0" using 1(2) by (simp add: div_neg_pos_less0)
    with False show ?thesis by (simp add: projection_loop.simps)
  next
    case True
    let ?m = "nat ((duration - (elapsed + step)) div step + 1)"
    have d: "(duration - elapsed) div step = (duration - (elapsed + step)) div step + 1"
      using 1(2) div_add_self2 [of step "duration - (elapsed + step)"] by (simp add: algebra_simps)
    have "0 \<le> (duration - elapsed) div step" using True 1(2) by (simp add: pos_imp_zdiv_nonneg_iff)
    then have n: "nat ((duration - elapsed) div step + 1) = Suc ?m" by (simp add: d)
    have "projection_loop point step duration (elapsed + step) = map (\<lambda>k. point (elapsed + step + int k * step)) [0..<?m]"
      using 1 True by simp
    moreover have "wrap32 elapsed = elapsed" using True 1 by (simp add: wrap32_between)
    ultimately show ?thesis
      using True 1(2) unfolding n
      by (subst projection_loop.simps)
        (simp add: upt_conv_Cons map_Suc_upt [symmetric] comp_def algebra_simps del: upt_Suc)
  qed
qed

text \<open>The offsets: multiples of the step, the last one cut to the duration.\<close>

lemma projection_points:
  assumes "0 < step" and "step \<le> duration" and "in32 duration" and "\<And>t. ps_TimeOffset (point t) = t"
  defines "states \<equiv> projection_loop point step duration 0"
  shows "states \<noteq> [] \<and> (if states \<noteq> [] \<and> ps_TimeOffset (last states) < duration then states @ [point duration] else states)
    = map (\<lambda>k. point (min (int k * step) duration)) [0..<nat (quot (duration + step - 1) step + 1)]"
proof -
  let ?q = "duration div step" and ?r = "duration mod step"
  have q: "0 < ?q" and r: "0 \<le> ?r" "?r < step" and dqr: "duration = ?q * step + ?r"
    using assms(1,2) by (auto simp: pos_imp_zdiv_pos_iff)
  have le: "int k * step \<le> duration" if "k \<le> nat ?q" for k
  proof -
    have "int k * step \<le> ?q * step" using that q assms(1) by (intro mult_right_mono) auto
    then show ?thesis using r dqr by linarith
  qed
  have st: "states = map (\<lambda>k. point (min (int k * step) duration)) [0..<Suc (nat ?q)]"
    using assms(1-3) q le by (auto simp: states_def projection_loop_eq nat_add_distrib min_def simp del: upt_Suc)
  have last: "ps_TimeOffset (last states) = ?q * step"
    using q le [of "nat ?q"] by (simp add: st assms(4))
  show ?thesis
  proof (cases "?r = 0")
    case True
    then have e: "duration + step - 1 = (step - 1) + step * ?q" using dqr by (simp add: mult.commute)
    have "(duration + step - 1) div step = ?q" using assms(1) by (subst e, subst div_mult_self2) auto
    then have "quot (duration + step - 1) step + 1 = ?q + 1" using assms(1,2) by (simp add: quot_nonneg)
    then show ?thesis using last True dqr q by (simp add: st nat_add_distrib)
  next
    case False
    have e: "duration + step - 1 = (?r - 1) + step * (?q + 1)" using dqr by (simp add: algebra_simps)
    have "(duration + step - 1) div step = ?q + 1" using assms(1) r False by (subst e, subst div_mult_self2) auto
    then have n: "quot (duration + step - 1) step + 1 = ?q + 2" using assms(1,2) by (simp add: quot_nonneg)
    have "duration \<le> (?q + 1) * step" unfolding distrib_right using dqr r by linarith
    moreover have "?q * step < duration" using dqr r False by linarith
    moreover have "nat (?q + 2) = Suc (Suc (nat ?q))" "int (Suc (nat ?q)) = ?q + 1" using q by auto
    ultimately show ?thesis unfolding n last using q
      by (simp add: st min_absorb2 add.commute)
  qed
qed

text \<open>C36. A trajectory is exactly the sequence of the points at the multiples of the effective step,
  cut to the effective duration: it starts at offset 0, ends at the duration, has at most 10000
  points, and every point holds the current count before the stabilization delay and the end count
  from it on.\<close>

theorem trajectory_exact:
  assumes "in32 (eo_DurationSeconds opts)" and "in32 (eo_StepSeconds opts)"
    and "ProjectReplicaTrajectory A (Some org) (Some md) opts = Inr states"
    and "computeEndReplicas A md = Inr endReplicas"
  shows "length states = nat (projection_count opts) \<and> projection_count opts \<le> 10000 \<and>
    states = map (\<lambda>k. let t = min (int k * projection_step opts) (projection_duration opts);
                        n = (if t < computeStabilizationDelay md (desiredOf org) endReplicas
                             then desiredOf org else endReplicas)
                    in \<lparr>ps_TimeOffset = t, ps_ProjectedReplicas = n,
                        ps_ProjectedMetricRatio = computeMetricRatio (desiredOf org) n\<rparr>)
      [0..<nat (projection_count opts)]"
proof -
  let ?point = "projection_point (desiredOf org) endReplicas (computeStabilizationDelay md (desiredOf org) endReplicas)"
  note par = projection_params [OF assms(1,2)]
  have pts: "states = map (\<lambda>k. ?point (min (int k * projection_step opts) (projection_duration opts)))
      [0..<nat (projection_count opts)]"
    and le: "projection_count opts \<le> 10000"
    using assms(3,4) projection_points [OF par, of ?point]
    by (auto simp: ProjectReplicaTrajectory_def Let_def maxProjectionPoints_def projection_count_def
        projection_point_def split: if_splits)
  moreover have "?point t = (let n = (if t < computeStabilizationDelay md (desiredOf org) endReplicas
                             then desiredOf org else endReplicas)
                    in \<lparr>ps_TimeOffset = t, ps_ProjectedReplicas = n,
                        ps_ProjectedMetricRatio = computeMetricRatio (desiredOf org) n\<rparr>)" for t
    by (simp add: projection_point_def interpolateReplicas_def Let_def)
  ultimately show ?thesis by (simp add: Let_def)
qed

definition fixed_analysis :: "int \<Rightarrow> (int, string) analysis_func" where
  "fixed_analysis d h includeMetrics opts =
     \<lparr>sa_Namespace = hpa_Namespace h, sa_Name = hpa_Name h, sa_Target = [], sa_Current = currentOf h, sa_Desired = d,
      sa_Min = 2, sa_Max = 10, sa_Health = ''OK'', sa_HealthScore = 100, sa_Summary = [], sa_Metrics = [],
      sa_Conditions = []\<rparr>"

lemma trajectory_exact_witness:
  "\<exists>states. ProjectReplicaTrajectory (Some (fixed_analysis 4)) (Some (sample_hpa 10 [])) (Some (sample_hpa 10 []))
      \<lparr>eo_DurationSeconds = 100, eo_StepSeconds = 30\<rparr> = Inr states
    \<and> map ps_TimeOffset states = [0, 30, 60, 90, 100] \<and> map ps_ProjectedReplicas states = [4, 4, 4, 4, 4]"
proof -
  let ?o = "\<lparr>eo_DurationSeconds = 100, eo_StepSeconds = 30\<rparr>"
  have "\<not> isl (ProjectReplicaTrajectory (Some (fixed_analysis 4)) (Some (sample_hpa 10 [])) (Some (sample_hpa 10 [])) ?o)"
    by code_simp
  then obtain states where st: "ProjectReplicaTrajectory (Some (fixed_analysis 4)) (Some (sample_hpa 10 []))
      (Some (sample_hpa 10 [])) ?o = Inr states"
    using not_isl_Inr by blast
  have e: "computeEndReplicas (Some (fixed_analysis 4)) (sample_hpa 10 []) = Inr 4" by code_simp
  have p: "nat (projection_count ?o) = 5" "projection_step ?o = 30" "projection_duration ?o = 100" by code_simp+
  have "states = map (\<lambda>k. let t = min (int k * 30) 100; n = 4
      in \<lparr>ps_TimeOffset = t, ps_ProjectedReplicas = n, ps_ProjectedMetricRatio = computeMetricRatio 10 n\<rparr>) [0..<5]"
    using trajectory_exact [OF _ _ st e]
    by (simp add: p Let_def sample_hpa_def computeStabilizationDelay_def min_less_iff_disj)
  then have "map ps_TimeOffset states = map (\<lambda>k. min (int k * 30) 100) [0..<5]"
    "map ps_ProjectedReplicas states = map (\<lambda>k. 4) [0..<5]"
    by (simp_all add: comp_def Let_def)
  moreover have "map (\<lambda>k. min (int k * 30) 100) [0..<5] = [0, 30, 60, 90, 100]"
    "map (\<lambda>k. 4 :: int) [0..<5 :: nat] = [4, 4, 4, 4, 4]"
    by code_simp+
  ultimately have "map ps_TimeOffset states = [0, 30, 60, 90, 100]" "map ps_ProjectedReplicas states = [4, 4, 4, 4, 4]"
    by simp_all
  then show ?thesis using st by (intro exI [of _ states] conjI)
qed

text \<open>The ratio of every projected point is a finite number (an infinity or a NaN would make the
  JSON output fail), also when a count is zero or negative.\<close>

theorem ratio_finite:
  assumes "in32 startReplicas" and "in32 currentReplicas"
  shows "\<exists>r. computeMetricRatio startReplicas currentReplicas = Fin r \<and> 0 \<le> r"
proof (cases "startReplicas \<le> 0 \<or> currentReplicas \<le> 0")
  case False
  let ?x = "of_int startReplicas / of_int currentReplicas :: rat"
  from False have pos: "0 < startReplicas" "0 < currentReplicas" "(1::rat) \<le> of_int currentReplicas" by auto
  have le: "(of_int startReplicas :: rat) \<le> of_int max_int32" using assms(1) by (simp add: in32_def)
  have "?x \<le> of_int startReplicas / 1" using pos by (intro divide_left_mono) auto
  then have x: "0 \<le> ?x" "?x \<le> 2147483647" using pos le by auto
  have rx: "0 \<le> rnd ?x" "rnd ?x \<le> 2147483647"
    using x rnd_nonneg rnd_le_int [of 2147483647 ?x] by auto
  have mx: "mk ?x = Fin (rnd ?x)" using x by (intro mk_small) auto
  let ?y = "rnd ?x * 100"
  have ry: "0 \<le> rnd ?y" "rnd ?y \<le> 214748364700"
    using rx rnd_nonneg [of ?y] rnd_le_int [of 214748364700 ?y] by auto
  have my: "mk ?y = Fin (rnd ?y)" using rx by (intro mk_small) auto
  let ?z = "of_int \<lfloor>rnd ?y + 1 / 2\<rfloor> :: rat"
  have z: "0 \<le> ?z" "?z \<le> 214748364701" using ry by (simp, linarith)
  then have "mk ?z = Fin ?z" by (intro mk_int) simp
  moreover have "0 \<le> ?z / 100" "?z / 100 \<le> 9007199254740992" using z by auto
  then have "mk (?z / 100) = Fin (rnd (?z / 100))" "0 \<le> rnd (?z / 100)" by (auto intro: mk_small rnd_nonneg)
  ultimately show ?thesis
    using False pos assms mx my ry by (simp add: computeMetricRatio_def Let_def f_round_def)
qed (auto simp: computeMetricRatio_def)

lemma ratio_finite_witness: "\<exists>r. computeMetricRatio 10 3 = Fin r \<and> 0 \<le> r"
  by (rule ratio_finite) simp_all

subsection \<open>Facts of the graph\<close>

lemma plot_row_range: "0 \<le> plot_row graph_height lo rg r \<and> plot_row graph_height lo rg r < graph_height"
  by (auto simp: plot_row_def Let_def graph_height_def)

lemma plot_column_range:
  assumes "0 \<le> offset" "0 < maxOffset" "0 < width" "in32 offset" "in32 maxOffset" "width \<le> max_int32"
  shows "0 \<le> plot_column width maxOffset offset \<and> plot_column width maxOffset offset < width"
proof -
  let ?q = "of_int offset / of_int maxOffset :: rat"
  have "0 \<le> ?q" using assms by simp
  moreover have "?q \<le> of_int offset / 1" using assms by (intro divide_left_mono) auto
  ultimately have q: "0 \<le> ?q" "?q \<le> 2147483647" using assms(4) by (auto simp: in32_def)
  then have m: "mk ?q = Fin (rnd ?q)" by (intro mk_small) auto
  have "0 \<le> rnd ?q * of_int (width - 1)" using q(1) assms(3) by (simp add: rnd_nonneg)
  then have "0 \<le> f_trunc (mk (rnd ?q * of_int (width - 1)))"
    by (rule mk_nonneg_cases) (simp_all add: f_trunc_def)
  moreover have "in32 (width - 1)" using assms by simp
  ultimately show ?thesis using assms m by (auto simp: plot_column_def Let_def)
qed

lemma set_cell_shape:
  assumes "length rows = n" "\<forall>row \<in> set rows. length row = w" "0 \<le> y" "y < int n" "0 \<le> x" "x < int w"
  obtains rows' where "set_cell rows y x c = Some rows'" "length rows' = n" "\<forall>row \<in> set rows'. length row = w"
proof -
  have "nat y < length rows" using assms by linarith
  then have l: "length (rows ! nat y) = w" using assms(2) by simp
  have sub: "set (rows[nat y := (rows ! nat y)[nat x := c]]) \<subseteq> insert ((rows ! nat y)[nat x := c]) (set rows)"
    by (rule set_update_subset_insert)
  show ?thesis
  proof (rule that)
    show "set_cell rows y x c = Some (rows[nat y := (rows ! nat y)[nat x := c]])"
      using assms l by (simp add: set_cell_def)
    show "\<forall>row \<in> set (rows[nat y := (rows ! nat y)[nat x := c]]). length row = w"
      using assms(2) l sub by auto
  qed (simp add: assms(1))
qed

lemma plot_total:
  assumes "length rows = nat graph_height" "\<forall>row \<in> set rows. length row = nat width"
    and "0 < width" "width \<le> max_int32" "in32 maxOffset"
    and "\<forall>s \<in> set states. 0 \<le> ps_TimeOffset s \<and> in32 (ps_TimeOffset s)"
  shows "plotTrajectoryPoints rows states width graph_height maxOffset lo rg \<noteq> None"
  using assms(1,2,6)
proof (induction states arbitrary: rows)
  case (Cons s states)
  show ?case
  proof (cases "maxOffset \<le> 0")
    case False
    have "0 \<le> plot_column width maxOffset (ps_TimeOffset s) \<and> plot_column width maxOffset (ps_TimeOffset s) < width"
      using False assms(3-5) Cons.prems(3) by (intro plot_column_range) auto
    then obtain rows' where "set_cell rows (plot_row graph_height lo rg (ps_ProjectedReplicas s))
        (plot_column width maxOffset (ps_TimeOffset s)) full_block = Some rows'"
      "length rows' = nat graph_height" "\<forall>row \<in> set rows'. length row = nat width"
      using set_cell_shape [OF Cons.prems(1,2)] plot_row_range [of lo rg "ps_ProjectedReplicas s"] assms(3)
      by (metis int_nat_eq order_less_le graph_height_def zero_le_numeral)
    then show ?thesis using Cons False by simp
  qed (use Cons in simp)
qed simp

text \<open>Drawing a trajectory with non-negative offsets never indexes outside the grid, whatever the
  replica counts are and whatever width is asked for.\<close>

theorem graph_total:
  assumes "\<forall>s \<in> set states. 0 \<le> ps_TimeOffset s \<and> in32 (ps_TimeOffset s)" and "width \<le> max_int32"
  shows "FormatTrajectoryASCII states width \<noteq> None"
proof (cases "replicaBounds states")
  case (Some b)
  then have "states \<noteq> []" by (auto simp: replicaBounds_def)
  then have "in32 (ps_TimeOffset (last states))" using assms(1) by simp
  then show ?thesis
  proof (cases b)
    case (Pair lo hi)
    let ?w = "if width \<le> 0 then 40 else width"
    have "plotTrajectoryPoints (replicate (nat graph_height) (replicate (nat ?w) '' '')) states ?w graph_height
        (ps_TimeOffset (last states)) lo rg \<noteq> None" for rg
      using assms \<open>in32 (ps_TimeOffset (last states))\<close> by (intro plot_total) auto
    then show ?thesis
      using Some Pair by (simp add: FormatTrajectoryASCII_def Let_def option.case_eq_if)
  qed
qed (simp add: FormatTrajectoryASCII_def)

text \<open>The label of the last row is above the count drawn in it: the labels divide the range by the
  five rows and the points by four, so the minimum of a growing or shrinking trajectory always
  stands beside a larger number.\<close>

theorem graph_label_too_high:
  assumes "0 \<le> lo" and "lo < hi" and "hi \<le> 500000000"
  shows "plot_row graph_height lo (hi - lo) lo = 4 \<and> lo < row_label hi (hi - lo) 4"
proof -
  have "wrap32 (4 * (hi - lo)) = 4 * (hi - lo)" using assms by simp
  moreover have "quot (4 * (hi - lo)) 5 = 4 * (hi - lo) div 5" using assms by (simp add: quot_nonneg)
  moreover have d: "4 * (hi - lo) div 5 < hi - lo" "0 \<le> 4 * (hi - lo) div 5" using assms by presburger+
  ultimately have "row_label hi (hi - lo) 4 = hi - 4 * (hi - lo) div 5"
    using assms by (simp add: row_label_def graph_height_def)
  moreover have "in32 (hi - lo)" using assms by simp
  ultimately show ?thesis
    using assms d mk_int [of 0]
    by (simp add: plot_row_def graph_height_def Let_def f_trunc_def)
qed

lemma graph_label_too_high_witness: "plot_row graph_height 10 10 10 = 4 \<and> 10 < row_label 20 10 4"
  using graph_label_too_high [of 10 20] by simp

definition two_points :: "projected_state list" where
  "two_points = [\<lparr>ps_TimeOffset = 0, ps_ProjectedReplicas = 10, ps_ProjectedMetricRatio = Fin 1\<rparr>,
     \<lparr>ps_TimeOffset = 30, ps_ProjectedReplicas = 20, ps_ProjectedMetricRatio = Fin (1 / 2)\<rparr>]"

lemma graph_total_witness: "FormatTrajectoryASCII two_points 40 \<noteq> None"
  by (rule graph_total) (simp_all add: two_points_def)

end
