(* ===== verification/Simulate.thy ===== *)
theory Simulate
  imports SimProjection
begin

section \<open>Simulation scenarios\<close>

text \<open>
  \<open>pkg/hpa/simulate/simulate.go\<close>, \<open>simulate_metric_result.go\<close>, \<open>simulate_extended.go\<close> and the
  interpretation half of \<open>simulate_helpers.go\<close>: the entry points that apply overrides to a copy of
  an HPA, analyze it before and after and explain the difference. A Go map is the list of its
  entries, with distinct keys, in the order the runtime happens to iterate them. A run-time panic is
  the error \<open>panic_err\<close>.
\<close>

type_synonym overrides = "(string \<times> string) list"

definition sortedMapKeys :: "overrides \<Rightarrow> string list" where
  "sortedMapKeys values = sort (map fst values)"

text \<open>\<open>m[k]\<close>: the zero value when the key is absent.\<close>

definition map_get :: "overrides \<Rightarrow> string \<Rightarrow> string" where
  "map_get m k = (case map_of m k of Some v \<Rightarrow> v | None \<Rightarrow> [])"

definition simulationParameterPairs :: "overrides \<Rightarrow> overrides \<Rightarrow> string list" where
  "simulationParameterPairs ov mo =
     map (\<lambda>key. key @ ''='' @ map_get ov key) (sortedMapKeys ov) @
     map (\<lambda>key. ''metric.'' @ key @ ''='' @ map_get mo key) (sortedMapKeys mo)"

definition nonEmptyStrings :: "string list \<Rightarrow> string list" where
  "nonEmptyStrings values = filter (\<lambda>v. v \<noteq> []) values"

definition simulationStateFromAnalysis :: "sim_analysis \<Rightarrow> simulation_state" where
  "simulationStateFromAnalysis a =
     \<lparr>ss_DesiredReplicas = sa_Desired a, ss_Health = sa_Health a, ss_HealthScore = sa_HealthScore a,
      ss_Summary = sa_Summary a,
      ss_ScalingLimited = list_ex (\<lambda>c. c_Type c = ScalingLimited \<and> c_Status c = ''True'') (sa_Conditions a),
      ss_Metrics = sa_Metrics a\<rparr>"

subsection \<open>Applying the overrides\<close>

fun apply_overrides ::
    "('q, 's) k8s_lib \<Rightarrow> overrides \<Rightarrow> string list \<Rightarrow> ('q, 's) hpa \<Rightarrow> go_error + ('q, 's) hpa" where
  "apply_overrides K m [] modified = Inr modified"
| "apply_overrides K m (path # paths) modified =
     (case applySimulationOverride K modified path (map_get m path) of
        Inl e \<Rightarrow> Inl (wrap_err (''override '' @ path @ ''='' @ map_get m path @ '': '') e)
      | Inr modified' \<Rightarrow> apply_overrides K m paths modified')"

fun apply_metric_overrides ::
    "('q, 's) k8s_lib \<Rightarrow> overrides \<Rightarrow> string list \<Rightarrow> ('q, 's) hpa \<Rightarrow> go_error + ('q, 's) hpa" where
  "apply_metric_overrides K m [] modified = Inr modified"
| "apply_metric_overrides K m (name # names) modified =
     (case applyMetricOverride K modified name (map_get m name) of
        Inl e \<Rightarrow> Inl (wrap_err (''metric override '' @ name @ ''='' @ map_get m name @ '': '') e)
      | Inr modified' \<Rightarrow> apply_metric_overrides K m names modified')"

definition BuildSimulatedHPA ::
    "('q, 's) ratio_func option \<Rightarrow> ('q, 's) k8s_lib \<Rightarrow> ('q, 's) hpa option \<Rightarrow> overrides \<Rightarrow> overrides
     \<Rightarrow> go_error + ('q, 's) hpa" where
  "BuildSimulatedHPA F K hp ov mo = (case hp of
     None \<Rightarrow> Inl (sentinel_err ErrNilHPA)
   | Some h \<Rightarrow> (case apply_overrides K ov (sortedMapKeys ov) h of
       Inl e \<Rightarrow> Inl e
     | Inr h1 \<Rightarrow> (case apply_metric_overrides K mo (sortedMapKeys mo) h1 of
         Inl e \<Rightarrow> Inl e
       | Inr h2 \<Rightarrow> (case validateSimulatedHPA h2 of
           Some e \<Rightarrow> Inl e
         | None \<Rightarrow>
             if length ov > 0 \<or> length mo > 0 then
               (case validateSimulatedZeroProjection F K h2 of
                  Some e \<Rightarrow> Inl e
                | None \<Rightarrow> recomputeSimulatedDesired F K h2)
             else Inr h2))))"

subsection \<open>The effect of one metric override\<close>

definition tolerance_text :: "('q, 's) k8s_lib \<Rightarrow> ('q, 's) hpa \<Rightarrow> f64 \<Rightarrow> string" where
  "tolerance_text K h ratio =
     (let (inside, toleranceValue) = RatioWithinTolerance K (Some h) ratio
      in if inside
         then Direction ratio @ '' tolerance '' @ show_fixed 3 toleranceValue @ '' suppresses scaling''
         else ''outside '' @ Direction ratio @ '' tolerance '' @ show_fixed 3 toleranceValue)"

definition buildMetricSimulation ::
    "('q, 's) ratio_func option \<Rightarrow> ('q, 's) k8s_lib \<Rightarrow> ('q, 's) hpa \<Rightarrow> ('q, 's) hpa \<Rightarrow> string \<Rightarrow> string
     \<Rightarrow> simulation_state \<Rightarrow> go_error + metric_simulation" where
  "buildMetricSimulation F K original modified name val after =
     (let ms = \<lparr>ms_MetricName = name, ms_OriginalValue = [], ms_SimulatedValue = val, ms_ProjectedRatio = None,
                ms_ProjectedReplicas = ss_DesiredReplicas after, ms_ToleranceImpact = []\<rparr>
      in case resolveMetricSpecUnique (Some original) name of
           Inl specErr \<Rightarrow> Inr (ms\<lparr>ms_OriginalValue :=
             (if err_Is specErr ErrMetricAmbiguous then ''<ambiguous metric name>'' else ''<not found>'')\<rparr>)
         | Inr spec \<Rightarrow> (case findCurrentMetricForSpec K (Some original) spec of
             Inl _ \<Rightarrow> Inr (ms\<lparr>ms_OriginalValue := ''<no current value>''\<rparr>)
           | Inr None \<Rightarrow> Inr (ms\<lparr>ms_OriginalValue := ''<no current value>''\<rparr>)
           | Inr (Some idx) \<Rightarrow>
               let ms = ms\<lparr>ms_OriginalValue := formatMetricValue K (currentMetricsOf original ! idx) (mu_Type spec)\<rparr>
               in case findCurrentMetricForSpec K (Some modified) spec of
                    Inl _ \<Rightarrow> Inr ms
                  | Inr None \<Rightarrow> Inr ms
                  | Inr (Some modifiedIdx) \<Rightarrow>
                      let metric = currentMetricsOf modified ! modifiedIdx;
                          relative = (\<lambda>ms. if has_prefix val ''+'' \<or> has_prefix val ''-''
                            then ms\<lparr>ms_SimulatedValue := formatMetricValue K metric (mu_Type spec)\<rparr> else ms)
                      in case metricImpactRatioInvoker F modified metric of
                           Inl ratioErr \<Rightarrow> Inl ratioErr
                         | Inr None \<Rightarrow> Inr (relative ms)
                         | Inr (Some ratio) \<Rightarrow>
                             let ms = ms\<lparr>ms_ProjectedRatio := Some ratio\<rparr>
                             in case estimatedSimulatedMetricDesired K modified metric ratio of
                                  None \<Rightarrow> Inr ms
                                | Some metricDesired \<Rightarrow>
                                    let minReplicas = (case minReplicasOf modified of Some v \<Rightarrow> v | None \<Rightarrow> 1);
                                        (normalized, _, _) =
                                          normalizeSimulatedDesired modified metricDesired minReplicas (maxReplicasOf modified)
                                    in Inr (relative (ms\<lparr>ms_ProjectedReplicas := normalized,
                                              ms_ToleranceImpact := tolerance_text K modified ratio\<rparr>))))"

subsection \<open>Interpretation and risk\<close>

definition change_line :: "simulation_state \<Rightarrow> simulation_state \<Rightarrow> string list" where
  "change_line before after =
     (if ss_DesiredReplicas before \<noteq> ss_DesiredReplicas after
      then [''desiredReplicas would change from '' @ show_int (ss_DesiredReplicas before) @ '' to '' @ show_int (ss_DesiredReplicas after)]
      else [''desiredReplicas unchanged at '' @ show_int (ss_DesiredReplicas before)])"

definition health_line :: "simulation_state \<Rightarrow> simulation_state \<Rightarrow> string list" where
  "health_line before after =
     (if ss_Health before \<noteq> ss_Health after
      then [''health would change from '' @ ss_Health before @ '' ('' @ show_int (ss_HealthScore before) @ '') to '' @
            ss_Health after @ '' ('' @ show_int (ss_HealthScore after) @ '')'']
      else [])"

definition limited_line :: "string \<Rightarrow> simulation_state \<Rightarrow> simulation_state \<Rightarrow> string list" where
  "limited_line appears before after =
     (if ss_ScalingLimited before \<and> \<not> ss_ScalingLimited after then [''ScalingLimited condition would be resolved'']
      else if \<not> ss_ScalingLimited before \<and> ss_ScalingLimited after then [appears]
      else [])"

definition buildSimulationInterpretation ::
    "simulation_state \<Rightarrow> simulation_state \<Rightarrow> ('q, 's) hpa \<Rightarrow> string list" where
  "buildSimulationInterpretation before after modified =
     change_line before after @ health_line before after @
     limited_line ''Warning: SimulationLimited condition would appear'' before after @
     (if maxReplicasOf modified > 0 \<and> ss_DesiredReplicas before \<ge> maxReplicasOf modified
      then [''desiredReplicas='' @ show_int (ss_DesiredReplicas after) @ '' still at or above new maxReplicas='' @
            show_int (maxReplicasOf modified) @ ''; further increase may be needed'']
      else [])"

definition metric_line :: "metric_simulation \<Rightarrow> string list" where
  "metric_line ms = (case ms_ProjectedRatio ms of
     None \<Rightarrow> []
   | Some ratio \<Rightarrow>
       if f_lt (Fin 1) ratio then
         [ms_MetricName ms @ '': value '' @ show_fixed 2 ratio @ ''x above target, projected '' @
          show_int (ms_ProjectedReplicas ms) @ '' replicas'']
       else if f_lt ratio (Fin 1) then
         [ms_MetricName ms @ '': value '' @ show_fixed 2 ratio @ ''x below target, projected '' @
          show_int (ms_ProjectedReplicas ms) @ '' replicas'']
       else [ms_MetricName ms @ '': at target, projected '' @ show_int (ms_ProjectedReplicas ms) @ '' replicas''])"

definition buildMetricSimulationInterpretation ::
    "simulation_state \<Rightarrow> simulation_state \<Rightarrow> metric_simulation list \<Rightarrow> string list" where
  "buildMetricSimulationInterpretation before after simulations =
     change_line before after @ concat (map metric_line simulations) @ health_line before after @
     limited_line ''Warning: ScalingLimited condition would appear'' before after"

definition stabilization_risk :: "int \<Rightarrow> string" where
  "stabilization_risk window =
     ''Reducing scaleDown stabilization to '' @ show_int window @ ''s may cause thrashing; monitor for flapping''"

definition assessSimulationRisk :: "('q, 's) hpa \<Rightarrow> ('q, 's) hpa \<Rightarrow> string" where
  "assessSimulationRisk original modified =
     (let risks =
        (if maxReplicasOf modified > maxReplicasOf original then
           [''Raising maxReplicas from '' @ show_int (maxReplicasOf original) @ '' to '' @ show_int (maxReplicasOf modified) @
            '' ('' @ show_fixed 1 (f_div (f_of_int (maxReplicasOf modified)) (f_of_int (maxReplicasOf original))) @
            ''x capacity); verify node and quota headroom'']
         else []) @
        (case (minReplicasOf modified, minReplicasOf original) of
           (Some m, Some org) \<Rightarrow>
             (if m < org then [''Lowering minReplicas from '' @ show_int org @ '' to '' @ show_int m @
                '' may reduce availability during low-traffic periods''] else []) @
             (if m > org then [''Raising minReplicas from '' @ show_int org @ '' to '' @ show_int m @
                '' increases baseline resource consumption''] else [])
         | _ \<Rightarrow> []) @
        (case Option.bind (scale_down_rules modified) r_StabilizationWindowSeconds of
           Some window \<Rightarrow> if window < 60 then [stabilization_risk window] else []
         | None \<Rightarrow> [])
      in if risks = [] then [] else join_str ''; '' risks)"

definition metric_risks :: "('q, 's) hpa \<Rightarrow> metric_simulation \<Rightarrow> string list" where
  "metric_risks original ms = (case ms_ProjectedRatio ms of
     None \<Rightarrow> []
   | Some ratio \<Rightarrow>
       (if f_le (Fin 2) ratio then
          [ms_MetricName ms @ '' at '' @ show_fixed 1 ratio @
           ''x target is very high; verify the workload can tolerate this pressure and that node capacity is available'']
        else []) @
       (if ms_ProjectedReplicas ms \<ge> maxReplicasOf original then
          [ms_MetricName ms @ '' would reach maxReplicas='' @ show_int (maxReplicasOf original) @
           ''; consider raising maxReplicas if demand is genuine'']
        else []) @
       (if f_le ratio (Fin (1 / 2)) \<and> (case minReplicasOf original of Some v \<Rightarrow> v | None \<Rightarrow> 1) > 0 then
          [ms_MetricName ms @ '' at '' @ show_fixed 1 ratio @
           ''x target is very low; scale-down may be rapid if stabilization window is short'']
        else []))"

definition assessMetricSimulationRisk :: "('q, 's) hpa \<Rightarrow> metric_simulation list \<Rightarrow> string" where
  "assessMetricSimulationRisk original simulations =
     (let risks = concat (map (metric_risks original) simulations)
      in if risks = [] then [] else join_str ''; '' risks)"

subsection \<open>Extended risk\<close>

text \<open>\<open>caseInsensitiveEqual\<close>: bytes, with \<open>_\<close> read as a dot and ASCII capitals as small letters.\<close>

definition fold_byte :: "char \<Rightarrow> char" where
  "fold_byte c = lower_char (if c = CHR ''_'' then CHR ''.'' else c)"

definition caseInsensitiveEqual :: "string \<Rightarrow> string \<Rightarrow> bool" where
  "caseInsensitiveEqual a b \<longleftrightarrow> length a = length b \<and> list_all2 (\<lambda>ca cb. fold_byte ca = fold_byte cb) a b"

fun getOverrideValue :: "overrides \<Rightarrow> string \<Rightarrow> string" where
  "getOverrideValue [] key = []"
| "getOverrideValue ((k, v) # kvs) key = (if caseInsensitiveEqual k key then v else getOverrideValue kvs key)"

text \<open>\<open>fmt.Sscanf(s, "%d", &window)\<close>: blanks, a sign and decimal digits; the rest of the text is ignored.\<close>

definition scan_int :: "string \<Rightarrow> int option" where
  "scan_int s =
     (let t = dropWhile (\<lambda>c. is_space c \<and> c \<noteq> CHR 0x0A) s;
          signed = (t \<noteq> [] \<and> (hd t = CHR ''-'' \<or> hd t = CHR ''+''));
          sgn = (if signed then [hd t] else []);
          digits = takeWhile is_digit (if signed then tl t else t)
      in if digits = [] then None
         else case parse_int_base10 min_int64 max_int64 (sgn @ digits) of
                Inl _ \<Rightarrow> None
              | Inr w \<Rightarrow> Some w)"

definition arrow :: string where "arrow = [CHR 0xE2, CHR 0x86, CHR 0x92]"

definition stabilization_key :: string where
  "stabilization_key = ''scaledown.stabilizationwindowseconds''"

definition assessExtendedRisk ::
    "('q, 's) hpa \<Rightarrow> overrides \<Rightarrow> simulation_state \<Rightarrow> simulation_state \<Rightarrow> string list" where
  "assessExtendedRisk modifiedHPA ov before after =
     (let minReplicas = (case minReplicasOf modifiedHPA of Some v \<Rightarrow> v | None \<Rightarrow> 1);
          modified = getOverrideValue ov stabilization_key
      in (if modified \<noteq> [] then
            (case scan_int modified of
               Some window \<Rightarrow> if window < 60 then [stabilization_risk window] else []
             | None \<Rightarrow> [])
          else []) @
         (if ss_DesiredReplicas before > 0 then
            (let delta = f_abs (f_of_int (wrap32 (ss_DesiredReplicas after - ss_DesiredReplicas before)));
                 ratio = f_div delta (f_of_int (ss_DesiredReplicas before))
             in if f_lt (Fin (1 / 2)) ratio then
                  [''Large replica swing: '' @ show_int (ss_DesiredReplicas before) @ '' '' @ arrow @ '' '' @
                   show_int (ss_DesiredReplicas after) @ '' ('' @ show_fixed 0 (f_mul ratio (Fin 100)) @
                   ''% change); verify cluster capacity'']
                else [])
          else []) @
         (if ss_DesiredReplicas after \<ge> maxReplicasOf modifiedHPA then
            [''Projected replicas='' @ show_int (ss_DesiredReplicas after) @ '' at maxReplicas='' @
             show_int (maxReplicasOf modifiedHPA) @ ''; further scale-out would be blocked'']
          else []) @
         (if ss_DesiredReplicas after \<le> minReplicas then
            [''Projected replicas='' @ show_int (ss_DesiredReplicas after) @ '' at minReplicas='' @
             show_int minReplicas @ ''; further scale-in would be blocked'']
          else []) @
         (if ss_HealthScore after < ss_HealthScore before then
            (let delta = wrap64 (ss_HealthScore before - ss_HealthScore after)
             in if delta \<ge> 20 then
                  [''Health score would drop by '' @ show_int delta @ '' points ('' @ ss_Health before @ '' '' @ arrow @
                   '' '' @ ss_Health after @ ''); consider adjusting parameters'']
                else [])
          else []))"

subsection \<open>The scenario\<close>

definition populateSimulationParameters ::
    "('q, 's) k8s_lib \<Rightarrow> simulation_result \<Rightarrow> ('q, 's) hpa \<Rightarrow> overrides \<Rightarrow> overrides \<Rightarrow> go_error + simulation_result" where
  "populateSimulationParameters K result h ov mo =
     (let parameterCount = length ov + length mo
      in if parameterCount = 1 \<and> length ov = 1 then
           (let path = hd (sortedMapKeys ov)
            in map_sum id (\<lambda>org. result\<lparr>sr_Parameter := path, sr_SimulatedValue := map_get ov path, sr_OriginalValue := org\<rparr>)
                 (originalValue K h path))
         else if parameterCount = 1 then
           (let name = hd (sortedMapKeys mo);
                result = result\<lparr>sr_Parameter := ''metric.'' @ name, sr_SimulatedValue := map_get mo name\<rparr>
            in Inr (case resolveMetricSpecUnique (Some h) name of
                 Inl _ \<Rightarrow> result
               | Inr spec \<Rightarrow> (case findCurrentMetricForSpec K (Some h) spec of
                   Inr (Some idx) \<Rightarrow>
                     result\<lparr>sr_OriginalValue := formatMetricValue K (currentMetricsOf h ! idx) (mu_Type spec)\<rparr>
                 | _ \<Rightarrow> result)))
         else Inr (result\<lparr>sr_Parameter := join_str '', '' (simulationParameterPairs ov mo)\<rparr>))"

fun metric_simulations ::
    "('q, 's) ratio_func option \<Rightarrow> ('q, 's) k8s_lib \<Rightarrow> ('q, 's) hpa \<Rightarrow> ('q, 's) hpa \<Rightarrow> overrides \<Rightarrow> string list
     \<Rightarrow> simulation_state \<Rightarrow> go_error + metric_simulation list" where
  "metric_simulations F K h modified mo [] after = Inr []"
| "metric_simulations F K h modified mo (name # names) after =
     (case buildMetricSimulation F K h modified name (map_get mo name) after of
        Inl e \<Rightarrow> Inl e
      | Inr ms \<Rightarrow> map_sum id (\<lambda>rest. ms # rest) (metric_simulations F K h modified mo names after))"

definition options_with :: "sim_weights \<Rightarrow> analysis_options" where
  "options_with weights = default_options\<lparr>ao_HealthWeights := weights\<rparr>"

definition empty_result :: "simulation_state \<Rightarrow> simulation_state \<Rightarrow> simulation_result" where
  "empty_result before after =
     \<lparr>sr_Parameter = [], sr_OriginalValue = [], sr_SimulatedValue = [], sr_Before = before, sr_After = after,
      sr_Confidence = [], sr_RiskAssessment = [], sr_Interpretation = [], sr_MetricSimulations = [],
      sr_TimeSeriesProjection = [], sr_RiskWarnings = []\<rparr>"

text \<open>The second half of \<open>Scenario\<close>, once both analyses are there.\<close>

definition finish_scenario ::
    "('q, 's) analysis_func option \<Rightarrow> ('q, 's) ratio_func option \<Rightarrow> ('q, 's) k8s_lib \<Rightarrow> ('q, 's) hpa \<Rightarrow> ('q, 's) hpa
     \<Rightarrow> overrides \<Rightarrow> overrides \<Rightarrow> extended_options \<Rightarrow> simulation_state \<Rightarrow> simulation_state \<Rightarrow> go_error + simulation_result" where
  "finish_scenario A F K h modified ov mo extOpts before after =
     (case populateSimulationParameters K (empty_result before after) h ov mo of
        Inl e \<Rightarrow> Inl e
      | Inr result \<Rightarrow> (case metric_simulations F K h modified mo (sortedMapKeys mo) after of
          Inl e \<Rightarrow> Inl e
        | Inr sims \<Rightarrow>
            let result = result\<lparr>sr_MetricSimulations := sims,
                  sr_Interpretation := (if length sims > 0 then buildMetricSimulationInterpretation before after sims
                                        else buildSimulationInterpretation before after modified),
                  sr_RiskAssessment := join_str ''; '' (nonEmptyStrings
                    [assessSimulationRisk h modified, assessMetricSimulationRisk h sims]),
                  sr_Confidence := ''estimated''\<rparr>;
                finish = (\<lambda>result. Inr (result\<lparr>sr_RiskWarnings := assessExtendedRisk modified ov before after\<rparr>))
            in if eo_DurationSeconds extOpts > 0 then
                 (case ProjectReplicaTrajectory A (Some h) (Some modified) extOpts of
                    Inl e \<Rightarrow> Inl e
                  | Inr projection \<Rightarrow> finish (result\<lparr>sr_TimeSeriesProjection := projection\<rparr>))
               else finish result))"

definition Scenario ::
    "('q, 's) analysis_func option \<Rightarrow> ('q, 's) ratio_func option \<Rightarrow> ('q, 's) k8s_lib \<Rightarrow> ('q, 's) hpa option
     \<Rightarrow> overrides \<Rightarrow> overrides \<Rightarrow> sim_weights \<Rightarrow> extended_options \<Rightarrow> go_error + simulation_result" where
  "Scenario A F K hp ov mo weights extOpts = (case hp of
     None \<Rightarrow> Inl (sentinel_err ErrNilHPA)
   | Some h \<Rightarrow> (case AnalysisFuncInvoker A h True (options_with weights) of
       Inl e \<Rightarrow> Inl e
     | Inr beforeAnalysis \<Rightarrow> (case BuildSimulatedHPA F K hp ov mo of
         Inl e \<Rightarrow> Inl e
       | Inr modified \<Rightarrow> (case AnalysisFuncInvoker A modified True (options_with weights) of
           Inl e \<Rightarrow> Inl e
         | Inr afterAnalysis \<Rightarrow>
             finish_scenario A F K h modified ov mo extOpts
               (simulationStateFromAnalysis beforeAnalysis) (simulationStateFromAnalysis afterAnalysis)))))"

abbreviation no_extension :: extended_options where
  "no_extension \<equiv> \<lparr>eo_DurationSeconds = 0, eo_StepSeconds = 0\<rparr>"

definition simulate_HPA ::
    "('q, 's) analysis_func option \<Rightarrow> ('q, 's) ratio_func option \<Rightarrow> ('q, 's) k8s_lib \<Rightarrow> ('q, 's) hpa option
     \<Rightarrow> overrides \<Rightarrow> sim_weights \<Rightarrow> go_error + simulation_result" where
  "simulate_HPA A F K hp ov weights = Scenario A F K hp ov [] weights no_extension"

definition MetricChange ::
    "('q, 's) analysis_func option \<Rightarrow> ('q, 's) ratio_func option \<Rightarrow> ('q, 's) k8s_lib \<Rightarrow> ('q, 's) hpa option
     \<Rightarrow> overrides \<Rightarrow> sim_weights \<Rightarrow> go_error + simulation_result" where
  "MetricChange A F K hp mo weights = Scenario A F K hp [] mo weights no_extension"

definition Extended ::
    "('q, 's) analysis_func option \<Rightarrow> ('q, 's) ratio_func option \<Rightarrow> ('q, 's) k8s_lib \<Rightarrow> ('q, 's) hpa option
     \<Rightarrow> overrides \<Rightarrow> sim_weights \<Rightarrow> extended_options \<Rightarrow> go_error + simulation_result" where
  "Extended A F K hp ov weights extOpts = Scenario A F K hp ov [] weights extOpts"

definition show_bool :: "bool \<Rightarrow> string" where
  "show_bool b = (if b then ''true'' else ''false'')"

text \<open>The rendering; the columns are padded by bytes, which are the runes of the ASCII cells.\<close>

definition table_row :: "string \<Rightarrow> string \<Rightarrow> string \<Rightarrow> string" where
  "table_row a b c = ''  '' @ pad_field (- 20) a @ '' '' @ pad_field 12 b @ '' '' @ pad_field 12 c"

definition FormatSimulationExtended :: "simulation_result option \<Rightarrow> string option" where
  "FormatSimulationExtended rp = (case rp of
     None \<Rightarrow> Some []
   | Some result \<Rightarrow>
       let b = sr_Before result; a = sr_After result;
           comparison = [''Simulation Comparison:'', table_row ''Field'' ''Before'' ''After'',
             table_row ''Desired Replicas'' (show_int (ss_DesiredReplicas b)) (show_int (ss_DesiredReplicas a)),
             table_row ''Health'' (ss_Health b) (ss_Health a),
             table_row ''Health Score'' (show_int (ss_HealthScore b)) (show_int (ss_HealthScore a)),
             table_row ''Scaling Limited'' (show_bool (ss_ScalingLimited b)) (show_bool (ss_ScalingLimited a))];
           warnings = (if sr_RiskWarnings result \<noteq> []
             then [[], ''Risk Warnings:''] @ map (\<lambda>w. ''  WARNING: '' @ w) (sr_RiskWarnings result) else []);
           lines = comparison @ warnings
       in if sr_TimeSeriesProjection result \<noteq> []
          then map_option (\<lambda>graph. join_str newline (lines @ [[], ''Projected Trajectory:'', graph]))
                 (FormatTrajectoryASCII (sr_TimeSeriesProjection result) 40)
          else Some (join_str newline lines))"

subsection \<open>What the overrides leave alone\<close>

definition down_window :: "('q, 's) hpa \<Rightarrow> int option" where
  "down_window h = Option.bind (scale_down_rules h) r_StabilizationWindowSeconds"

lemma down_window_spec: "hpa_Spec h' = hpa_Spec h \<Longrightarrow> down_window h' = down_window h"
  by (simp add: down_window_def scale_down_rules_def)

lemma down_window_simps [simp]:
  "down_window (set_MinReplicas v h) = down_window h"
  "down_window (set_MaxReplicas w h) = down_window h"
  "down_window (set_Metrics ms h) = down_window h"
  by (simp_all add: down_window_def scale_down_rules_def hpa_setters)

lemma down_window_ensured [simp]: "down_window (ensureBehavior h) = down_window h"
  by (auto simp: down_window_def scale_down_rules_def ensureBehavior_def ensured_def no_rules_def hpa_setters Let_def
      split: option.split)

lemma down_window_update:
  assumes "\<And>r. r_StabilizationWindowSeconds (g r) = r_StabilizationWindowSeconds r"
  shows "down_window (update_rules f g h) = down_window h"
  by (cases "behaviorOf h")
    (auto simp: down_window_def scale_down_rules_def update_rules_def hpa_setters assms split: Option.bind_splits)

lemma override_window:
  assumes "applySimulationOverride K h path val = Inr h'"
  shows "down_window h' = down_window h"
proof -
  have target: "applyMetricTargetOverride K h name val = Inr h' \<Longrightarrow> ?thesis" for name
    by (auto simp: applyMetricTargetOverride_def Let_def split: sum.splits option.splits if_splits)
  have tolerance: "applyToleranceOverride K h d val = Inr h' \<Longrightarrow> ?thesis" for d
    by (auto simp: applyToleranceOverride_def Let_def down_window_update split: sum.splits if_splits)
  have replica: "applyReplicaSimulationOverride h p val = Some (Inr h') \<Longrightarrow> ?thesis" for p
    by (auto simp: applyReplicaSimulationOverride_def applyAverageUtilizationToResourceMetrics_def map_sum_Inr
        split: if_splits sum.splits)
  have behavior: "applyBehaviorSimulationOverride h p val = Some (Inr h') \<Longrightarrow> ?thesis" for p
    by (auto simp: applyBehaviorSimulationOverride_def map_sum_Inr down_window_update split: if_splits)
  show ?thesis
    using assms
    by (auto simp: applySimulationOverride_def definition_Apply_def Let_def
        dest: target tolerance replica behavior split: if_splits option.splits)
qed

lemma apply_overrides_keep:
  assumes "apply_overrides K m ks h = Inr h'"
  shows "hpa_Status h' = hpa_Status h \<and> down_window h' = down_window h \<and>
    (\<forall>k \<in> set ks. \<exists>g g'. applySimulationOverride K g k (map_get m k) = Inr g')"
  using assms
proof (induction ks arbitrary: h)
  case (Cons k ks)
  then obtain h1 where h1: "applySimulationOverride K h k (map_get m k) = Inr h1"
    and r: "apply_overrides K m ks h1 = Inr h'"
    by (auto split: sum.splits)
  show ?case using Cons.IH [OF r] override_status [OF h1] override_window [OF h1] h1 by auto
qed simp

lemma same_identities_refl: "same_identities K h h"
  by (simp add: same_identities_def hpa_setters)

lemma same_identities_trans: "same_identities K h h1 \<Longrightarrow> same_identities K h1 h2 \<Longrightarrow> same_identities K h h2"
  by (auto simp: same_identities_def hpa_setters)
    (metis (no_types, lifting) hpa.surjective hpa.update_convs(4) hpa_status.surjective hpa_status.update_convs(3))

lemma apply_metric_overrides_keep:
  "apply_metric_overrides K m ks h = Inr h' \<Longrightarrow> same_identities K h h'"
proof (induction ks arbitrary: h)
  case (Cons k ks)
  then show ?case by (auto split: sum.splits intro: same_identities_trans override_identities)
qed (simp add: same_identities_refl)

lemma same_identities_spec: "same_identities K h h' \<Longrightarrow> hpa_Spec h' = hpa_Spec h"
  unfolding same_identities_def by (metis hpa_getters_of_setters(2))


lemma build_stages:
  assumes "BuildSimulatedHPA F K (Some h) ov mo = Inr h'"
  obtains h1 h2 where "apply_overrides K ov (sortedMapKeys ov) h = Inr h1"
    and "apply_metric_overrides K mo (sortedMapKeys mo) h1 = Inr h2"
    and "validateSimulatedHPA h2 = None"
    and "if ov = [] \<and> mo = [] then h' = h2 else recomputeSimulatedDesired F K h2 = Inr h'"
  using assms by (auto simp: BuildSimulatedHPA_def split: sum.splits option.splits if_splits)

lemma recompute_spec: "recomputeSimulatedDesired F K h = Inr h' \<Longrightarrow> hpa_Spec h' = hpa_Spec h"
  using recompute_only by (metis hpa_getters_of_setters(1,3))


lemma sortedMapKeys_cong:
  assumes "distinct (map fst m)" "distinct (map fst m')" "map_of m = map_of m'"
  shows "sortedMapKeys m = sortedMapKeys m'" and "map_get m = map_get m'" and "length m = length m'"
proof -
  have dom: "set (map fst m) = set (map fst m')" using assms(3) by (metis dom_map_of_conv_image_fst list.set_map)
  then show "sortedMapKeys m = sortedMapKeys m'"
    unfolding sortedMapKeys_def using assms(1,2)
    by (intro sorted_distinct_set_unique) auto
  show "map_get m = map_get m'" by (rule ext) (simp add: map_get_def assms(3))
  show "length m = length m'" using assms(1,2) dom by (metis distinct_card length_map)
qed

lemma apply_overrides_cong: "map_get m = map_get m' \<Longrightarrow> apply_overrides K m ks h = apply_overrides K m' ks h"
  by (induction ks arbitrary: h) (auto split: sum.split)

lemma apply_metric_overrides_cong:
  "map_get m = map_get m' \<Longrightarrow> apply_metric_overrides K m ks h = apply_metric_overrides K m' ks h"
  by (induction ks arbitrary: h) (auto split: sum.split)

subsection \<open>Properties\<close>

text \<open>The simulated object does not depend on the order in which the runtime iterates the two
  override maps: entries listed in any order give the same object or the same error.\<close>

theorem build_order_irrelevant:
  assumes "distinct (map fst ov)" "distinct (map fst ov')" "map_of ov = map_of ov'"
    and "distinct (map fst mo)" "distinct (map fst mo')" "map_of mo = map_of mo'"
  shows "BuildSimulatedHPA F K hp ov mo = BuildSimulatedHPA F K hp ov' mo'"
  unfolding BuildSimulatedHPA_def
    sortedMapKeys_cong(1,3) [OF assms(1-3)] sortedMapKeys_cong(1,3) [OF assms(4-6)]
    apply_overrides_cong [OF sortedMapKeys_cong(2) [OF assms(1-3)]]
    apply_metric_overrides_cong [OF sortedMapKeys_cong(2) [OF assms(4-6)]] ..

lemma build_order_irrelevant_witness:
  "BuildSimulatedHPA None int_lib (Some (sample_hpa 4 [])) [(''maxReplicas'', ''9''), (''minReplicas'', ''1'')] []
   = BuildSimulatedHPA None int_lib (Some (sample_hpa 4 [])) [(''minReplicas'', ''1''), (''maxReplicas'', ''9'')] []"
  by (rule build_order_irrelevant) (auto simp: fun_eq_iff)



text \<open>No accepted override changes the scale-down stabilization window, so the risk text "Reducing
  scaleDown stabilization" of a simulation speaks about a window the simulation has left as it was.\<close>

theorem reduced_window_unchanged:
  assumes "BuildSimulatedHPA F K (Some h) ov mo = Inr h'"
  shows "down_window h' = down_window h"
proof -
  obtain h1 h2 where h1: "apply_overrides K ov (sortedMapKeys ov) h = Inr h1"
    and h2: "apply_metric_overrides K mo (sortedMapKeys mo) h1 = Inr h2"
    and h': "if ov = [] \<and> mo = [] then h' = h2 else recomputeSimulatedDesired F K h2 = Inr h'"
    using build_stages [OF assms] .
  have "hpa_Spec h' = hpa_Spec h1"
    using h' recompute_spec [of F K h2 h'] same_identities_spec [OF apply_metric_overrides_keep [OF h2]]
    by (simp split: if_splits)
  then show ?thesis using apply_overrides_keep [OF h1] down_window_spec [of h' h1] by simp
qed

text \<open>The interpretation compares the maximum with the count before the change and prints the count
  after it: it calls a count "at or above" a maximum that exceeds it.\<close>

lemma interpretation_contradicts:
  assumes "0 < maxReplicasOf h" and "maxReplicasOf h \<le> ss_DesiredReplicas before"
    and "ss_DesiredReplicas after < maxReplicasOf h"
  shows "''desiredReplicas='' @ show_int (ss_DesiredReplicas after) @ '' still at or above new maxReplicas='' @
      show_int (maxReplicasOf h) @ ''; further increase may be needed''
    \<in> set (buildSimulationInterpretation before after h)"
  using assms by (simp add: buildSimulationInterpretation_def)

subsection \<open>The warning about the stabilization window\<close>

lemma fold_byte_lower:
  assumes "fold_byte c = fold_byte d" "lower_char d = d" "d \<noteq> CHR ''.''" "d \<noteq> CHR ''_''"
  shows "lower_char c = d"
  using assms lower_char_idem [of c] by (auto simp: fold_byte_def lower_char_def split: if_splits)

lemma lower_char_other:
  assumes "lower_char c = d" and "\<not> (97 \<le> (of_char d :: nat) \<and> (of_char d :: nat) \<le> 122)"
  shows "c = d"
proof (rule ccontr)
  assume "c \<noteq> d"
  with assms(1) have n: "65 \<le> (of_char c :: nat)" "(of_char c :: nat) \<le> 90" and d: "d = char_of ((of_char c :: nat) + 32)"
    by (auto simp: lower_char_def Let_def split: if_splits)
  then have "(of_char d :: nat) = of_char c + 32" by simp
  with n assms(2) show False by simp
qed

lemma fold_byte_dot: "fold_byte c = CHR ''.'' \<Longrightarrow> lower_char c = CHR ''.'' \<or> lower_char c = CHR ''_''"
  by (cases "c = CHR ''_''") (auto simp: fold_byte_def lower_char_def)

lemma fold_word:
  assumes "list_all2 (\<lambda>ca cb. fold_byte ca = fold_byte cb) a w"
    and "list_all (\<lambda>d. lower_char d = d \<and> d \<noteq> CHR ''.'' \<and> d \<noteq> CHR ''_'') w"
  shows "to_lower a = w"
  using assms by (induction rule: list_all2_induct) (auto simp: to_lower_def intro: fold_byte_lower)

text \<open>The two lower-case spellings the comparison accepts.\<close>

lemma fold_stabilization_key:
  assumes "caseInsensitiveEqual k stabilization_key"
  shows "to_lower k = stabilization_key \<or> to_lower k = ''scaledown_stabilizationwindowseconds''"
proof -
  let ?R = "\<lambda>ca cb. fold_byte ca = fold_byte cb"
  have "stabilization_key = ''scaledown'' @ ''.'' @ ''stabilizationwindowseconds''" by (simp add: stabilization_key_def)
  with assms have "list_all2 ?R k (''scaledown'' @ ''.'' @ ''stabilizationwindowseconds'')"
    by (simp add: caseInsensitiveEqual_def del: append.simps)
  then obtain a b c where k: "k = a @ b @ c" and "list_all2 ?R a ''scaledown''" "list_all2 ?R b ''.''"
    "list_all2 ?R c ''stabilizationwindowseconds''"
    unfolding list_all2_append2 by blast
  then have "to_lower a = ''scaledown''" "to_lower c = ''stabilizationwindowseconds''"
    by (auto intro!: fold_word simp: lower_char_def)
  moreover obtain d where b: "b = [d]" "fold_byte d = CHR ''.''"
    using \<open>list_all2 ?R b ''.''\<close> by (auto simp: list_all2_Cons2 fold_byte_def lower_char_def)
  ultimately show ?thesis using fold_byte_dot [OF b(2)] by (auto simp: k to_lower_def stabilization_key_def)
qed

lemma dropWhile_none: "\<forall>c \<in> set s. \<not> P c \<Longrightarrow> dropWhile P s = s"
  by (cases s) auto

lemma trim_space_none: "\<forall>c \<in> set s. \<not> is_space c \<Longrightarrow> trim_space s = s"
  by (simp add: trim_space_def dropWhile_none)

lemma space_of_lower: "is_space c \<Longrightarrow> is_space (lower_char c)"
  by (auto simp: is_space_def lower_char_def)

lemma stabilization_key_rejected:
  assumes "caseInsensitiveEqual k stabilization_key"
  shows "applySimulationOverride K g k val \<noteq> Inr g'"
proof -
  have low: "to_lower k \<in> {stabilization_key, ''scaledown_stabilizationwindowseconds''}"
    using fold_stabilization_key [OF assms] by blast
  have "\<not> is_space c" if "c \<in> set k" for c
  proof
    assume "is_space c"
    then have "is_space (lower_char c)" by (rule space_of_lower)
    moreover have "lower_char c \<in> set (to_lower k)" using that by (simp add: to_lower_def)
    ultimately show False using low by (auto simp: stabilization_key_def is_space_def)
  qed
  then have "trim_space k = k" using trim_space_none by blast
  with low have "normalizeSimulationPath k \<in> {stabilization_key, ''scaledown_stabilizationwindowseconds''}"
    by (auto simp: normalizeSimulationPath_def stabilization_key_def)
  then show ?thesis
    by (auto simp: applySimulationOverride_def has_prefix_def has_suffix_def simulationOverrideDefinitions_def
        stabilization_key_def definition_Apply_def applyReplicaSimulationOverride_def applyBehaviorSimulationOverride_def)
qed

lemma getOverrideValue_entry:
  "getOverrideValue m key \<noteq> [] \<Longrightarrow> \<exists>k \<in> set (map fst m). caseInsensitiveEqual k key"
  by (induction m key rule: getOverrideValue.induct) (auto split: if_splits)

text \<open>The first warning of the extended risk assessment is dead: whenever the object could be built,
  the overrides hold no value for the scale-down stabilization window under any spelling the lookup
  accepts, because such an override is always rejected.\<close>

theorem stabilization_warning_dead:
  assumes "BuildSimulatedHPA F K (Some h) ov mo = Inr h'"
  shows "getOverrideValue ov stabilization_key = []"
proof (rule ccontr)
  assume "getOverrideValue ov stabilization_key \<noteq> []"
  then obtain k where k: "k \<in> set (map fst ov)" "caseInsensitiveEqual k stabilization_key"
    using getOverrideValue_entry by blast
  obtain h1 h2 where "apply_overrides K ov (sortedMapKeys ov) h = Inr h1"
    using build_stages [OF assms] .
  then obtain g g' where "applySimulationOverride K g k (map_get ov k) = Inr g'"
    using apply_overrides_keep k(1) by (fastforce simp: sortedMapKeys_def)
  then show False using stabilization_key_rejected [OF k(2)] by blast
qed

lemma stabilization_warning_dead_witness:
  "\<not> isl (BuildSimulatedHPA (Some (metricImpactRatio int_lib)) int_lib (Some ceiling_hpa) [(''maxReplicas'', ''12'')] [])
   \<and> getOverrideValue [(''maxReplicas'', ''12'')] stabilization_key = []"
proof -
  let ?b = "BuildSimulatedHPA (Some (metricImpactRatio int_lib)) int_lib (Some ceiling_hpa) [(''maxReplicas'', ''12'')] []"
  have n: "\<not> isl ?b" by code_simp
  then obtain h' where "?b = Inr h'" using not_isl_Inr by blast
  from stabilization_warning_dead [OF this] n show ?thesis by blast
qed

lemma reduced_window_unchanged_witness:
  "\<exists>h'. BuildSimulatedHPA (Some (metricImpactRatio int_lib)) int_lib (Some ceiling_hpa) [(''scaleDown.selectPolicy'', ''min'')] []
     = Inr h' \<and> down_window h' = None"
proof -
  let ?b = "BuildSimulatedHPA (Some (metricImpactRatio int_lib)) int_lib (Some ceiling_hpa) [(''scaleDown.selectPolicy'', ''min'')] []"
  have "\<not> isl ?b" by code_simp
  then obtain h' where h': "?b = Inr h'" using not_isl_Inr by blast
  moreover have "down_window ceiling_hpa = None" by code_simp
  ultimately show ?thesis using reduced_window_unchanged [OF h'] by simp
qed

end
