(* ===== verification/Events.thy ===== *)
theory Events
  imports Durations
begin

section \<open>Events and direction flips\<close>

text \<open>
  \<open>pkg/hpa/internal/event\<close>: the events of the autoscaler, the replica counts read from their
  messages, the normalization of a series of rescales and the walk that counts reversals. An
  instant is its number of nanoseconds on a common time line; \<open>Sub\<close> saturates like
  \<open>time.Time.Sub\<close>.
\<close>

record hpa_event =
  ev_Reason :: string
  ev_Message :: string
  ev_Timestamp :: int

datatype rescale = Rescale (rd_Timestamp: int) (rd_NewSize: int)

text \<open>The comparison \<open>NormalizeRescales\<close> hands to \<open>sort.Slice\<close>: by instant, then by size.\<close>

definition rescale_before :: "rescale \<Rightarrow> rescale \<Rightarrow> bool" where
  "rescale_before a b \<longleftrightarrow> (if rd_Timestamp a = rd_Timestamp b then rd_NewSize a < rd_NewSize b
     else rd_Timestamp a < rd_Timestamp b)"

instantiation rescale :: linorder
begin

definition less_eq_rescale :: "rescale \<Rightarrow> rescale \<Rightarrow> bool" where
  "less_eq_rescale a b \<longleftrightarrow> rd_Timestamp a < rd_Timestamp b \<or>
     (rd_Timestamp a = rd_Timestamp b \<and> rd_NewSize a \<le> rd_NewSize b)"

definition less_rescale :: "rescale \<Rightarrow> rescale \<Rightarrow> bool" where
  "less_rescale a b \<longleftrightarrow> rescale_before a b"

instance
  by standard (auto simp: less_eq_rescale_def less_rescale_def rescale_before_def rescale.expand)

end

definition Sub :: "int \<Rightarrow> int \<Rightarrow> int" where
  "Sub t u = max min_int64 (min max_int64 (t - u))"

definition ReasonSuccessfulRescale :: string where "ReasonSuccessfulRescale = ''SuccessfulRescale''"
definition ReasonFailedRescale :: string where "ReasonFailedRescale = ''FailedRescale''"

subsection \<open>Reading an event\<close>

text \<open>The fields of a \<open>corev1.Event\<close> the conversion reads; a zero time is \<^const>\<open>None\<close>.\<close>

record core_event =
  ce_Reason :: string
  ce_Message :: string
  ce_LastTimestamp :: "int option"
  ce_EventTime :: "int option"

text \<open>The zero \<open>time.Time\<close>, year 1, relative to the Unix epoch.\<close>

definition zero_time :: int where "zero_time = - 62135596800 * Second"

definition timestamp :: "core_event \<Rightarrow> int" where
  "timestamp e = (case ce_LastTimestamp e of
     Some t \<Rightarrow> t
   | None \<Rightarrow> (case ce_EventTime e of Some t \<Rightarrow> t | None \<Rightarrow> zero_time))"

definition FromCore :: "core_event \<Rightarrow> hpa_event" where
  "FromCore e = \<lparr>ev_Reason = ce_Reason e,
     ev_Message = map (\<lambda>c. if c = CHR 0x0A then CHR '' '' else c) (ce_Message e),
     ev_Timestamp = timestamp e\<rparr>"

definition FromCoreSlice :: "core_event list \<Rightarrow> hpa_event list" where
  "FromCoreSlice coreEvents = map FromCore coreEvents"

text \<open>
  The regular expression \<open>(?i)new size:\s*(\d+)\<close>, leftmost match. Case folding of the letter s
  also accepts U+017F, the bytes C5 BF.
\<close>

fun match_letter :: "char \<Rightarrow> string \<Rightarrow> string option" where
  "match_letter c [] = None"
| "match_letter c (d # ds) =
     (if lower_char d = c then Some ds
      else if c = CHR ''s'' \<and> d = CHR 0xC5 \<and> ds \<noteq> [] \<and> hd ds = CHR 0xBF then Some (tl ds)
      else None)"

fun match_word :: "string \<Rightarrow> string \<Rightarrow> string option" where
  "match_word [] s = Some s"
| "match_word (c # cs) s = (case match_letter c s of None \<Rightarrow> None | Some rest \<Rightarrow> match_word cs rest)"

definition regexp_space :: "char \<Rightarrow> bool" where
  "regexp_space c \<longleftrightarrow> (of_char c :: nat) \<in> {9, 10, 12, 13, 32}"

definition match_new_size :: "string \<Rightarrow> string option" where
  "match_new_size s = (case match_word ''new size:'' s of
     None \<Rightarrow> None
   | Some rest \<Rightarrow>
       let digits = takeWhile is_digit (dropWhile regexp_space rest)
       in if digits = [] then None else Some digits)"

fun find_new_size :: "string \<Rightarrow> string option" where
  "find_new_size [] = None"
| "find_new_size (c # cs) = (case match_new_size (c # cs) of Some ds \<Rightarrow> Some ds | None \<Rightarrow> find_new_size cs)"

definition ParseNewSize :: "string \<Rightarrow> int option" where
  "ParseNewSize message = (case find_new_size message of
     None \<Rightarrow> None
   | Some ds \<Rightarrow> (case parse_int32 ds of Inl _ \<Rightarrow> None | Inr v \<Rightarrow> Some v))"

subsection \<open>Normalization\<close>

text \<open>
  The loop over the sorted series: a group of one instant gives its first element unless the
  sizes of the group differ.
\<close>

function normalize_groups :: "rescale list \<Rightarrow> rescale list" where
  "normalize_groups [] = []"
| "normalize_groups (r # rs) =
     (let same = takeWhile (\<lambda>x. rd_Timestamp x = rd_Timestamp r) rs;
          rest = dropWhile (\<lambda>x. rd_Timestamp x = rd_Timestamp r) rs;
          ambiguous = list_ex (\<lambda>x. rd_NewSize x \<noteq> rd_NewSize r) same
      in (if ambiguous then [] else [r]) @ normalize_groups rest)"
  by pat_completeness auto
termination
  by (relation "measure length") (auto simp: less_Suc_eq_le length_dropWhile_le)

definition NormalizeRescales :: "rescale list \<Rightarrow> rescale list" where
  "NormalizeRescales rescales = normalize_groups (sort rescales)"

subsection \<open>Directions\<close>

definition size_direction :: "int \<Rightarrow> int" where
  "size_direction delta = (if delta > 0 then 1 else if delta < 0 then - 1 else 0)"

fun flip_loop :: "nat \<Rightarrow> int \<Rightarrow> int \<Rightarrow> int list \<Rightarrow> nat list" where
  "flip_loop i prevDirection prevSize [] = []"
| "flip_loop i prevDirection prevSize (s # ss) =
     (let direction = size_direction (wrap32 (s - prevSize))
      in if direction = 0 then flip_loop (Suc i) prevDirection s ss
         else (if prevDirection \<noteq> 0 \<and> direction \<noteq> prevDirection then [i] else []) @
              flip_loop (Suc i) direction s ss)"

definition FlipPoints :: "int list \<Rightarrow> nat list" where
  "FlipPoints sizes = (case sizes of [] \<Rightarrow> [] | s # ss \<Rightarrow> flip_loop 1 0 s ss)"

definition CountDirectionFlips :: "int list \<Rightarrow> int" where
  "CountDirectionFlips sizes = int (length (FlipPoints sizes))"

definition RescaleSizes :: "rescale list \<Rightarrow> int list" where
  "RescaleSizes rescales = map rd_NewSize rescales"

subsection \<open>The contract of a normalization\<close>

text \<open>
  What the analyses rely on: strictly increasing instants, and exactly the observations of the
  input that are not contradicted by another one of the same instant.
\<close>

locale rescale_normalizer =
  fixes normalize :: "rescale list \<Rightarrow> rescale list"
  assumes strict: "sorted_wrt (\<lambda>a b. rd_Timestamp a < rd_Timestamp b) (normalize rs)"
    and members: "r \<in> set (normalize rs) \<longleftrightarrow> r \<in> set rs \<and> (\<forall>x \<in> set rs. rd_Timestamp x = rd_Timestamp r \<longrightarrow> x = r)"
begin

lemma strictly_sorted: "sorted_wrt (<) (normalize rs)"
  by (rule sorted_wrt_mono_rel [OF _ strict]) (simp add: less_rescale_def rescale_before_def)

lemma set_invariant:
  assumes "set rs = set rs'"
  shows "normalize rs = normalize rs'"
proof (rule strict_sorted_equal [OF strictly_sorted strictly_sorted])
  show "set (normalize rs) = set (normalize rs')" using members assms by blast
qed

lemma idempotent: "normalize (normalize rs) = normalize rs"
proof (rule strict_sorted_equal [OF strictly_sorted strictly_sorted])
  have "x = r" if "x \<in> set (normalize rs)" "r \<in> set (normalize rs)" "rd_Timestamp x = rd_Timestamp r" for x r
    using that members [of _ rs] by blast
  then show "set (normalize (normalize rs)) = set (normalize rs)" using members [of _ "normalize rs"] by blast
qed

lemma monotone_instants: "i < j \<Longrightarrow> j < length (normalize rs) \<Longrightarrow>
    rd_Timestamp (normalize rs ! i) < rd_Timestamp (normalize rs ! j)"
  using strict by (rule sorted_wrt_nth_less)

end

subsection \<open>The code keeps the contract\<close>

lemma sorted_instants: "sorted (r # rs) \<Longrightarrow> x \<in> set rs \<Longrightarrow> rd_Timestamp r \<le> rd_Timestamp x"
  by (auto simp: less_eq_rescale_def)

lemma later_instants:
  assumes "sorted (r # rs)" and "x \<in> set (dropWhile (\<lambda>x. rd_Timestamp x = rd_Timestamp r) rs)"
  shows "rd_Timestamp r < rd_Timestamp x"
proof -
  let ?d = "dropWhile (\<lambda>x. rd_Timestamp x = rd_Timestamp r) rs"
  obtain y ys where d: "?d = y # ys" using assms(2) by (cases ?d) auto
  then have ne: "rd_Timestamp y \<noteq> rd_Timestamp r" using hd_dropWhile [of "\<lambda>x. rd_Timestamp x = rd_Timestamp r" rs] by simp
  have "y \<in> set rs" using d by (metis list.set_intros(1) set_dropWhileD)
  then have lt: "rd_Timestamp r < rd_Timestamp y" using ne sorted_instants [OF assms(1)] by fastforce
  have "sorted ?d" using assms(1) by (simp add: sorted_dropWhile)
  then have "x = y \<or> rd_Timestamp y \<le> rd_Timestamp x" using assms(2) sorted_instants [of y ys] unfolding d by auto
  with lt show ?thesis by auto
qed

lemma same_instants:
  assumes "sorted (r # rs)"
  shows "set (takeWhile (\<lambda>x. rd_Timestamp x = rd_Timestamp r) rs) = {x \<in> set rs. rd_Timestamp x = rd_Timestamp r}"
proof -
  have "set rs = set (takeWhile (\<lambda>x. rd_Timestamp x = rd_Timestamp r) rs) \<union>
      set (dropWhile (\<lambda>x. rd_Timestamp x = rd_Timestamp r) rs)"
    by (metis set_append takeWhile_dropWhile_id)
  then show ?thesis using later_instants [OF assms] by (fastforce dest: set_takeWhileD)
qed

lemma normalize_groups_subset: "set (normalize_groups rs) \<subseteq> set rs"
  by (induction rs rule: normalize_groups.induct) (auto simp: Let_def dest!: subsetD set_dropWhileD)

lemma normalize_groups_members:
  assumes "sorted rs"
  shows "r \<in> set (normalize_groups rs) \<longleftrightarrow> r \<in> set rs \<and> (\<forall>x \<in> set rs. rd_Timestamp x = rd_Timestamp r \<longrightarrow> x = r)"
  using assms
proof (induction rs rule: normalize_groups.induct)
  case (2 q rs)
  let ?P = "\<lambda>x. rd_Timestamp x = rd_Timestamp q"
  let ?same = "takeWhile ?P rs" and ?rest = "dropWhile ?P rs"
  have split: "set rs = set ?same \<union> set ?rest" by (metis set_append takeWhile_dropWhile_id)
  note same = same_instants [OF 2(2)] and later = later_instants [OF 2(2)]
  have "sorted ?rest" using 2(2) by (simp add: sorted_dropWhile)
  then have IH: "r \<in> set (normalize_groups ?rest) \<longleftrightarrow>
      r \<in> set ?rest \<and> (\<forall>x \<in> set ?rest. rd_Timestamp x = rd_Timestamp r \<longrightarrow> x = r)"
    using 2(1) by simp
  have amb: "list_ex (\<lambda>x. rd_NewSize x \<noteq> rd_NewSize q) ?same \<longleftrightarrow> (\<exists>x \<in> set rs. ?P x \<and> x \<noteq> q)"
    unfolding list_ex_iff same by (auto simp: rescale.expand)
  have step: "r \<in> set (normalize_groups (q # rs)) \<longleftrightarrow>
      (r = q \<and> \<not> (\<exists>x \<in> set rs. ?P x \<and> x \<noteq> q)) \<or> r \<in> set (normalize_groups ?rest)"
    by (auto simp: Let_def amb)
  show ?case
  proof (cases "?P r")
    case True
    then have "r \<notin> set ?rest" using later by force
    then show ?thesis using True unfolding step IH by auto
  next
    case False
    have mem: "x \<in> set (q # rs) \<and> rd_Timestamp x = rd_Timestamp r \<longleftrightarrow> x \<in> set ?rest \<and> rd_Timestamp x = rd_Timestamp r" for x
    proof -
      have "x \<in> set rs \<longleftrightarrow> (x \<in> set rs \<and> rd_Timestamp x = rd_Timestamp q) \<or> x \<in> set ?rest"
        using split same by blast
      then show ?thesis using False by auto
    qed
    then have "r \<in> set (q # rs) \<longleftrightarrow> r \<in> set ?rest" by blast
    moreover have "(\<forall>x \<in> set ?rest. rd_Timestamp x = rd_Timestamp r \<longrightarrow> x = r) \<longleftrightarrow>
        (\<forall>x \<in> set (q # rs). rd_Timestamp x = rd_Timestamp r \<longrightarrow> x = r)"
      using mem by blast
    ultimately show ?thesis using False unfolding step IH by auto
  qed
qed simp

lemma normalize_groups_strict:
  assumes "sorted rs"
  shows "sorted_wrt (\<lambda>a b. rd_Timestamp a < rd_Timestamp b) (normalize_groups rs)"
  using assms
proof (induction rs rule: normalize_groups.induct)
  case (2 q rs)
  let ?rest = "dropWhile (\<lambda>x. rd_Timestamp x = rd_Timestamp q) rs"
  have "sorted ?rest" using 2(2) by (simp add: sorted_dropWhile)
  moreover have "rd_Timestamp q < rd_Timestamp x" if "x \<in> set (normalize_groups ?rest)" for x
    using that later_instants [OF 2(2)] normalize_groups_subset by blast
  ultimately show ?case using 2(1) by (auto simp: Let_def)
qed simp

interpretation norm: rescale_normalizer NormalizeRescales
proof
  fix rs r
  show "sorted_wrt (\<lambda>a b. rd_Timestamp a < rd_Timestamp b) (NormalizeRescales rs)"
    unfolding NormalizeRescales_def by (rule normalize_groups_strict) simp
  show "r \<in> set (NormalizeRescales rs) \<longleftrightarrow>
      r \<in> set rs \<and> (\<forall>x \<in> set rs. rd_Timestamp x = rd_Timestamp r \<longrightarrow> x = r)"
    unfolding NormalizeRescales_def using normalize_groups_members [of "sort rs"] by simp
qed

subsection \<open>Reversals\<close>

text \<open>The directions of the moves, standstills left out, and the number of changes in such a list.\<close>

fun moves :: "int \<Rightarrow> int list \<Rightarrow> int list" where
  "moves prev [] = []"
| "moves prev (s # ss) = (if s = prev then moves s ss else sgn (s - prev) # moves s ss)"

fun changes :: "int list \<Rightarrow> nat" where
  "changes (a # b # ds) = (if a = b then 0 else 1) + changes (b # ds)"
| "changes ds = 0"

definition counts :: "int list \<Rightarrow> bool" where
  "counts sizes \<longleftrightarrow> (\<forall>s \<in> set sizes. 0 \<le> s \<and> s \<le> max_int32)"

lemma direction_sgn:
  assumes "0 \<le> a" "a \<le> max_int32" "0 \<le> b" "b \<le> max_int32"
  shows "size_direction (wrap32 (b - a)) = sgn (b - a)"
proof -
  have "in32 (b - a)" using assms by (simp add: in32_def)
  then show ?thesis by (simp add: size_direction_def sgn_if)
qed

lemma flip_loop_changes:
  assumes "counts (s # ss)" and "p \<in> {- 1, 0, 1}"
  shows "length (flip_loop i p s ss) = changes ((if p = 0 then [] else [p]) @ moves s ss)"
  using assms
proof (induction ss arbitrary: i p s)
  case (Cons t ss)
  let ?d = "size_direction (wrap32 (t - s))"
  have d: "?d = sgn (t - s)" using Cons.prems(1) by (intro direction_sgn) (auto simp: counts_def)
  have c: "counts (t # ss)" using Cons.prems(1) by (simp add: counts_def)
  show ?case
  proof (cases "t = s")
    case True
    then show ?thesis using Cons.IH [OF c Cons.prems(2)] d by simp
  next
    case False
    then have "?d \<in> {- 1, 0, 1}" "?d \<noteq> 0" using d by (auto simp: sgn_if)
    then show ?thesis using Cons.IH [OF c, of ?d] False d by (auto simp: Let_def)
  qed
qed (auto)

lemma count_flips_changes:
  assumes "counts sizes"
  shows "CountDirectionFlips sizes = int (case sizes of [] \<Rightarrow> 0 | s # ss \<Rightarrow> changes (moves s ss))"
  using assms flip_loop_changes [of _ _ 0 1]
  by (cases sizes) (auto simp: CountDirectionFlips_def FlipPoints_def)

subsection \<open>Properties\<close>

text \<open>C37. The normalization of a rescale series depends only on which observations it holds, not on
  their order or multiplicity; its instants strictly increase, it keeps exactly the observations no
  other one of the same instant contradicts, and normalizing again changes nothing.\<close>

theorem normalize_rescales:
  assumes "set rs = set rs'"
  shows "NormalizeRescales rs = NormalizeRescales rs'
    \<and> sorted_wrt (\<lambda>a b. rd_Timestamp a < rd_Timestamp b) (NormalizeRescales rs)
    \<and> set (NormalizeRescales rs) = {r \<in> set rs. \<forall>x \<in> set rs. rd_Timestamp x = rd_Timestamp r \<longrightarrow> x = r}
    \<and> NormalizeRescales (NormalizeRescales rs) = NormalizeRescales rs"
  using norm.set_invariant [OF assms] norm.strict [of rs] norm.members [of _ rs] norm.idempotent [of rs] by blast

lemma normalize_rescales_witness:
  "NormalizeRescales [Rescale 60 5, Rescale 0 3, Rescale 30 4, Rescale 30 6, Rescale 60 5] = [Rescale 0 3, Rescale 60 5]"
proof -
  have "set [Rescale 60 5, Rescale 0 3, Rescale 30 4, Rescale 30 6, Rescale 60 5]
      = set [Rescale 0 3, Rescale 30 4, Rescale 30 6, Rescale 60 5]" by auto
  from conjunct1 [OF normalize_rescales [OF this]] show ?thesis
    by (simp add: NormalizeRescales_def less_eq_rescale_def)
qed

end
