(* ===== verification/PatchJson.thy ===== *)
theory PatchJson
  imports Conditions
begin

section \<open>Patch texts\<close>

text \<open>
  The builders of \<open>pkg/hpa/internal/util\<close>: JSON merge patches made of nested maps, and the
  \<open>kubectl patch\<close> command line around them. The Go values are the datatype \<open>patch_value\<close>; its
  encoding is that of \<open>encoding/json\<close> for the values the builders pass, integers and ASCII strings,
  with the keys of a map in sorted order.
\<close>

datatype patch_value = PInt int | PStr string | PList "patch_value list" | PMap "(string \<times> patch_value) list"

definition json_char :: "char \<Rightarrow> string" where
  "json_char c =
     (let n = (of_char c :: nat) in
      if c = CHR 0x22 then [CHR 0x5C, CHR 0x22]
      else if c = CHR 0x5C then [CHR 0x5C, CHR 0x5C]
      else if n = 8 then [CHR 0x5C, CHR ''b'']
      else if n = 12 then [CHR 0x5C, CHR ''f'']
      else if n = 10 then [CHR 0x5C, CHR ''n'']
      else if n = 13 then [CHR 0x5C, CHR ''r'']
      else if n = 9 then [CHR 0x5C, CHR ''t'']
      else if n < 32 \<or> c = CHR ''<'' \<or> c = CHR ''>'' \<or> c = CHR ''&'' then
        [CHR 0x5C] @ ''u00'' @ [hex_digit (n div 16), hex_digit (n mod 16)]
      else [c])"

definition json_string :: "string \<Rightarrow> string" where
  "json_string s = [CHR 0x22] @ concat (map json_char s) @ [CHR 0x22]"

fun MustMarshalJSON :: "patch_value \<Rightarrow> string" where
  "MustMarshalJSON (PInt n) = show_int n"
| "MustMarshalJSON (PStr s) = json_string s"
| "MustMarshalJSON (PList vs) = ''['' @ join_str '','' (map MustMarshalJSON vs) @ '']''"
| "MustMarshalJSON (PMap kvs) =
     ''{'' @ join_str '','' (map (\<lambda>(k, v). json_string k @ '':'' @ v)
        (sort_key fst (map (\<lambda>(k, v). (k, MustMarshalJSON v)) kvs))) @ ''}''"

definition ScaleDownBehaviorPatch :: "(string \<times> patch_value) list \<Rightarrow> string" where
  "ScaleDownBehaviorPatch flds = MustMarshalJSON
     (PMap [(''spec'', PMap [(''behavior'', PMap [(''scaleDown'', PMap flds)])])])"

definition MissingPolicies :: "'q behavior option \<Rightarrow> string \<Rightarrow> bool" where
  "MissingPolicies behavior direction = (case behavior of
     None \<Rightarrow> True
   | Some b \<Rightarrow>
       let rules = (if direction = ''scaleUp'' then b_ScaleUp b
                    else if direction = ''scaleDown'' then b_ScaleDown b else None)
       in case rules of
            None \<Rightarrow> True
          | Some r \<Rightarrow> (case r_Policies r of None \<Rightarrow> True | Some ps \<Rightarrow> ps = []))"

datatype dry_run_mode = DryRunServer | DryRunClient | DryRunNone

definition KubectlPatchCommandWithDryRun :: "('q, 's) hpa \<Rightarrow> string \<Rightarrow> dry_run_mode \<Rightarrow> string" where
  "KubectlPatchCommandWithDryRun h patch mode =
     ''kubectl patch hpa '' @ hpa_Name h @ '' -n '' @ hpa_Namespace h @ '' --type=merge -p '' @
     [CHR 0x27] @ patch @ [CHR 0x27] @
     (case mode of
        DryRunServer \<Rightarrow> '' --dry-run=server''
      | DryRunClient \<Rightarrow> '' --dry-run=client''
      | DryRunNone \<Rightarrow> [])"

definition KubectlPatchCommand :: "('q, 's) hpa \<Rightarrow> string \<Rightarrow> string" where
  "KubectlPatchCommand h patch = KubectlPatchCommandWithDryRun h patch DryRunServer"

lemma window_patch_text:
  "ScaleDownBehaviorPatch [(''stabilizationWindowSeconds'', PInt w)] =
     [CHR 0x7B, CHR 0x22] @ ''spec'' @ [CHR 0x22, CHR 0x3A, CHR 0x7B, CHR 0x22] @ ''behavior'' @
     [CHR 0x22, CHR 0x3A, CHR 0x7B, CHR 0x22] @ ''scaleDown'' @ [CHR 0x22, CHR 0x3A, CHR 0x7B, CHR 0x22] @
     ''stabilizationWindowSeconds'' @ [CHR 0x22, CHR 0x3A] @ show_int w @ ''}}}}''"
  by (simp add: ScaleDownBehaviorPatch_def json_string_def json_char_def)

end
