(* ===== verification/Churn.thy ===== *)
theory Churn
  imports Health Events PatchJson
begin

section \<open>Churn\<close>

text \<open>
  \<open>pkg/hpa/churn/churn.go\<close>: the score, level and recommendations for a history of rescale
  events. The score is computed in float64 as in the code.
\<close>

subsection \<open>Levels\<close>

datatype churn_level = ChurnLow | ChurnMedium | ChurnHigh | ChurnCritical

fun level_rank :: "churn_level \<Rightarrow> nat" where
  "level_rank ChurnLow = 0"
| "level_rank ChurnMedium = 1"
| "level_rank ChurnHigh = 2"
| "level_rank ChurnCritical = 3"

instantiation churn_level :: linorder
begin

definition less_eq_churn_level :: "churn_level \<Rightarrow> churn_level \<Rightarrow> bool" where
  "less_eq_churn_level a b \<longleftrightarrow> level_rank a \<le> level_rank b"

definition less_churn_level :: "churn_level \<Rightarrow> churn_level \<Rightarrow> bool" where
  "less_churn_level a b \<longleftrightarrow> level_rank a < level_rank b"

instance
proof
  fix a b :: churn_level
  show "a \<le> b \<Longrightarrow> b \<le> a \<Longrightarrow> a = b"
    by (cases a; cases b) (simp_all add: less_eq_churn_level_def)
qed (auto simp: less_eq_churn_level_def less_churn_level_def)

end

definition churnLevelFromScore :: "int \<Rightarrow> churn_level" where
  "churnLevelFromScore score =
     (if score \<le> 25 then ChurnLow else if score \<le> 50 then ChurnMedium
      else if score \<le> 75 then ChurnHigh else ChurnCritical)"

definition maxChurnTransitionGap :: int where "maxChurnTransitionGap = Hour"
definition fullChurnTransitionsPerHour :: f64 where "fullChurnTransitionsPerHour = Fin 4"

subsection \<open>Recommendations\<close>

record churn_recommendation =
  cr_Type :: string
  cr_CurrentValue :: string
  cr_RecommendedValue :: string
  cr_Rationale :: string
  cr_Patch :: string
  cr_Confidence :: string

definition stabilizationWindowRecommendation :: "('q, 's) hpa option \<Rightarrow> churn_recommendation option" where
  "stabilizationWindowRecommendation hp =
     (let currentWindow = EffectiveScaleDownStabilizationWindow hp
      in case NextScaleDownStabilizationWindow currentWindow of
           None \<Rightarrow> None
         | Some recommendedWindow \<Rightarrow> Some
             \<lparr>cr_Type = ''stabilization-window'', cr_CurrentValue = show_int currentWindow @ ''s'',
              cr_RecommendedValue = show_int recommendedWindow @ ''s'',
              cr_Rationale = ''Increasing the scale-down stabilization window gives the HPA more time to observe sustained metric changes before reversing a scaling decision, reducing oscillation.'',
              cr_Patch = ScaleDownBehaviorPatch [(''stabilizationWindowSeconds'', PInt recommendedWindow)],
              cr_Confidence = ''medium''\<rparr>)"

definition scaleDownRules :: "('q, 's) hpa option \<Rightarrow> 'q scaling_rules option" where
  "scaleDownRules hp = (case hp of
     None \<Rightarrow> None
   | Some h \<Rightarrow> (case behaviorOf h of None \<Rightarrow> None | Some b \<Rightarrow> b_ScaleDown b))"

definition policies_of :: "'q scaling_rules \<Rightarrow> scaling_policy list" where
  "policies_of r = (case r_Policies r of None \<Rightarrow> [] | Some ps \<Rightarrow> ps)"

definition policy_text :: "scaling_policy \<Rightarrow> string" where
  "policy_text p =
     (if p_Type p = PercentScalingPolicy then show_int (p_Value p) @ ''%/'' @ show_int (p_PeriodSeconds p) @ ''s''
      else if p_Type p = PodsScalingPolicy then show_int (p_Value p) @ '' pods/'' @ show_int (p_PeriodSeconds p) @ ''s''
      else p_Type p @ '' '' @ show_int (p_Value p) @ ''/'' @ show_int (p_PeriodSeconds p) @ ''s'')"

definition formatScaleDownPolicies :: "'q scaling_rules option \<Rightarrow> string" where
  "formatScaleDownPolicies rules = (case rules of
     None \<Rightarrow> ''default scale-down policy (up to 100%/15s)''
   | Some r \<Rightarrow>
       if policies_of r = [] then ''default scale-down policy (up to 100%/15s)''
       else (case r_SelectPolicy r of Some p \<Rightarrow> p | None \<Rightarrow> MaxChangePolicySelect) @ '' selectPolicy: '' @
            join_str '', '' (sort (map policy_text (policies_of r))))"

definition behaviorPolicyRecommendation :: "('q, 's) hpa option \<Rightarrow> churn_recommendation" where
  "behaviorPolicyRecommendation hp =
     (let rules = scaleDownRules hp
      in if (case rules of None \<Rightarrow> False | Some r \<Rightarrow> r_SelectPolicy r = Some DisabledPolicySelect) then
           \<lparr>cr_Type = ''behavior-policy'', cr_CurrentValue = ''scale-down disabled'',
            cr_RecommendedValue = ''keep the existing disabled policy and investigate metric noise'',
            cr_Rationale = ''Scale-down is already disabled, which is stricter than a 50% rate limit. No automatic patch is emitted because enabling scale-down could increase churn or change availability behavior.'',
            cr_Patch = [], cr_Confidence = ''high''\<rparr>
         else if (case rules of None \<Rightarrow> False | Some r \<Rightarrow> policies_of r \<noteq> []) then
           \<lparr>cr_Type = ''behavior-policy'', cr_CurrentValue = formatScaleDownPolicies rules,
            cr_RecommendedValue = ''keep the existing policy; review it with scaling history before changing it'',
            cr_Rationale = ''An explicit scale-down policy is already configured. Replacing it with a generic 50%/60s policy could loosen an existing stricter limit, so no automatic patch is emitted.'',
            cr_Patch = [], cr_Confidence = ''medium''\<rparr>
         else
           \<lparr>cr_Type = ''behavior-policy'', cr_CurrentValue = ''default scale-down policy (up to 100%/15s)'',
            cr_RecommendedValue = ''50%/60s scale-down limit'',
            cr_Rationale = ''No explicit scale-down policy is present. A 50%/60s limit is more conservative than the Kubernetes default and bounds rapid replica removal without changing other behavior fields.'',
            cr_Patch = ScaleDownBehaviorPatch [(''policies'', PList [PMap
              [(''type'', PStr ''Percent''), (''value'', PInt 50), (''periodSeconds'', PInt 60)]])],
            cr_Confidence = ''medium''\<rparr>)"

definition generateChurnRecommendations :: "churn_level \<Rightarrow> ('q, 's) hpa option \<Rightarrow> churn_recommendation list" where
  "generateChurnRecommendations level hp =
     (if level = ChurnLow then []
      else (case stabilizationWindowRecommendation hp of Some r \<Rightarrow> [r] | None \<Rightarrow> []) @
           (if level = ChurnHigh \<or> level = ChurnCritical then [behaviorPolicyRecommendation hp] else []))"

subsection \<open>The analysis\<close>

record churn_analysis =
  ca_Score :: int
  ca_Level :: churn_level
  ca_ScaleUpCount :: int
  ca_ScaleDownCount :: int
  ca_DirectionFlips :: int
  ca_AvgReplicaDelta :: f64
  ca_MaxReplicaDelta :: int
  ca_TimeWindow :: int
  ca_Recommendations :: "churn_recommendation list"

text \<open>The loop that walks back from the last rescale; the segment is what remains.\<close>

fun latest_segment :: "rescale list \<Rightarrow> rescale list \<Rightarrow> rescale list" where
  "latest_segment [] segment = segment"
| "latest_segment (r # before) segment = (case segment of
     [] \<Rightarrow> latest_segment before [r]
   | s # _ \<Rightarrow> if Sub (rd_Timestamp s) (rd_Timestamp r) > maxChurnTransitionGap then segment
              else latest_segment before (r # segment))"

definition latestContinuousRescaleSegment :: "rescale list \<Rightarrow> rescale list" where
  "latestContinuousRescaleSegment rescales = latest_segment (rev rescales) []"

definition churnActivityFactor :: "int \<Rightarrow> int \<Rightarrow> f64" where
  "churnActivityFactor transitions window =
     (if transitions \<le> 0 then Fin 0
      else if window \<le> 0 then Fin 1
      else let ratePerHour = f_div (f_of_int transitions) (dur_hours window)
           in if f_le fullChurnTransitionsPerHour ratePerHour then Fin 1
              else f_div ratePerHour fullChurnTransitionsPerHour)"

text \<open>The accumulators of the loop over neighbours: ups, downs, total and largest change.\<close>

fun churn_loop :: "int \<Rightarrow> int list \<Rightarrow> int \<times> int \<times> f64 \<times> int \<Rightarrow> int \<times> int \<times> f64 \<times> int" where
  "churn_loop prev [] acc = acc"
| "churn_loop prev (s # ss) (ups, downs, totalDelta, maxDelta) =
     (let delta = wrap32 (s - prev);
          absDelta = (if delta < 0 then wrap32 (- delta) else delta);
          d = size_direction delta
      in churn_loop s ss
           (if d = 1 then ups + 1 else ups, if d = - 1 then downs + 1 else downs,
            f_add totalDelta (f_of_int absDelta), if absDelta > maxDelta then absDelta else maxDelta))"

definition churn_score :: "int \<Rightarrow> int \<Rightarrow> int \<Rightarrow> int" where
  "churn_score directionFlips totalEvents timeWindow =
     (let oscillationRate = f_div (f_of_int directionFlips) (f_of_int totalEvents);
          baseScore = f_add (f_of_int (directionFlips * 15)) (f_mul oscillationRate (Fin 40));
          score = f_trunc (f_add (f_mul baseScore (churnActivityFactor totalEvents timeWindow)) (Fin (1 / 2)))
      in if score > 100 then 100 else score)"

definition analyze_segment :: "rescale list \<Rightarrow> ('q, 's) hpa option \<Rightarrow> churn_analysis option" where
  "analyze_segment rescales hp =
     (let sizes = RescaleSizes rescales;
          (ups, downs, totalDelta, maxDelta) = churn_loop (hd sizes) (tl sizes) (0, 0, Fin 0, 0);
          directionFlips = CountDirectionFlips sizes;
          totalEvents = ups + downs
      in if totalEvents = 0 then None
         else let timeWindow = Sub (rd_Timestamp (last rescales)) (rd_Timestamp (hd rescales));
                  score = churn_score directionFlips totalEvents timeWindow;
                  level = churnLevelFromScore score
              in Some \<lparr>ca_Score = score, ca_Level = level, ca_ScaleUpCount = ups, ca_ScaleDownCount = downs,
                   ca_DirectionFlips = directionFlips, ca_AvgReplicaDelta = f_div totalDelta (f_of_int totalEvents),
                   ca_MaxReplicaDelta = maxDelta, ca_TimeWindow = timeWindow,
                   ca_Recommendations = generateChurnRecommendations level hp\<rparr>)"

definition buildChurnAnalysis :: "rescale list \<Rightarrow> ('q, 's) hpa option \<Rightarrow> churn_analysis option" where
  "buildChurnAnalysis rescales hp =
     (let rescales = NormalizeRescales rescales
      in if length rescales < 3 then None
         else let rescales = latestContinuousRescaleSegment rescales
              in if length rescales < 3 then None else analyze_segment rescales hp)"

definition AnalyzeFromRescales :: "rescale list \<Rightarrow> ('q, 's) hpa option \<Rightarrow> churn_analysis option" where
  "AnalyzeFromRescales rescales hp = buildChurnAnalysis rescales hp"

definition extract_rescales :: "hpa_event list \<Rightarrow> rescale list" where
  "extract_rescales events = concat (map (\<lambda>ev.
     if ev_Reason ev \<noteq> ReasonSuccessfulRescale then []
     else (case ParseNewSize (ev_Message ev) of
             None \<Rightarrow> []
           | Some newSize \<Rightarrow> [Rescale (ev_Timestamp ev) newSize])) events)"

definition AnalyzeChurnFromEvents :: "hpa_event list \<Rightarrow> ('q, 's) hpa option \<Rightarrow> churn_analysis option" where
  "AnalyzeChurnFromEvents events hp = buildChurnAnalysis (extract_rescales events) hp"

subsection \<open>Non-negative floating-point values\<close>

definition f_nonneg :: "f64 \<Rightarrow> bool" where
  "f_nonneg a \<longleftrightarrow> (case a of Fin x \<Rightarrow> 0 \<le> x | NInf \<Rightarrow> False | _ \<Rightarrow> True)"

lemma f_nonneg_mk: "0 \<le> x \<Longrightarrow> f_nonneg (mk x)"
  by (erule mk_nonneg_cases) (simp_all add: f_nonneg_def)

lemma f_nonneg_ops [intro]:
  "f_nonneg a \<Longrightarrow> f_nonneg b \<Longrightarrow> f_nonneg (f_add a b)"
  "f_nonneg a \<Longrightarrow> f_nonneg b \<Longrightarrow> f_nonneg (f_mul a b)"
  "f_nonneg a \<Longrightarrow> f_nonneg b \<Longrightarrow> f_nonneg (f_div a b)"
  "0 \<le> n \<Longrightarrow> f_nonneg (f_of_int n)"
  by (cases a; cases b; auto simp: f_nonneg_def inf_of_sign_def f_of_int_def
      intro: f_nonneg_mk [unfolded f_nonneg_def])+

lemma f_trunc_nonneg: "f_nonneg a \<Longrightarrow> 0 \<le> f_trunc a"
  by (cases a) (auto simp: f_nonneg_def f_trunc_def)

subsection \<open>Facts of the analysis\<close>

lemma go_rem_quot_nonneg: "0 < w \<Longrightarrow> 0 < b \<Longrightarrow> 0 \<le> quot w b \<and> 0 \<le> go_rem w b"
  by (simp add: go_rem_nonneg quot_nonneg pos_imp_zdiv_nonneg_iff)

lemma dur_hours_nonneg: "0 < w \<Longrightarrow> f_nonneg (dur_hours w)"
  unfolding dur_hours_def
  using go_rem_quot_nonneg [of w Hour] by (intro f_nonneg_ops) (simp_all add: f_nonneg_def)

lemma activity_factor_nonneg: "f_nonneg (churnActivityFactor t w)"
proof -
  have "f_nonneg (f_div (f_of_int t) (dur_hours w))" if "0 < t" "0 < w"
    using that dur_hours_nonneg by (intro f_nonneg_ops) simp_all
  then show ?thesis
    by (auto simp: churnActivityFactor_def fullChurnTransitionsPerHour_def Let_def f_nonneg_def [of "Fin _"])
qed

lemma churn_score_range:
  assumes "0 \<le> flips" "0 < events"
  shows "0 \<le> churn_score flips events w \<and> churn_score flips events w \<le> 100"
proof -
  have "f_nonneg (f_add (f_mul (f_add (f_of_int (flips * 15)) (f_mul (f_div (f_of_int flips) (f_of_int events)) (Fin 40)))
      (churnActivityFactor events w)) (Fin (1 / 2)))"
    using assms activity_factor_nonneg by (intro f_nonneg_ops) (simp_all add: f_nonneg_def [of "Fin _"])
  from f_trunc_nonneg [OF this] show ?thesis by (simp add: churn_score_def Let_def)
qed

lemma churn_score_no_flips:
  assumes "0 < events" "events \<le> max_int32"
  shows "churn_score 0 events w = 0"
proof -
  have z: "mk 0 = Fin 0" "mk (1 / 2) = Fin (1 / 2)" using mk_int [of 0] by (simp_all, code_simp)
  have e: "f_of_int events = Fin (of_int events)" using assms by simp
  have "f_of_int 0 = Fin 0" by (simp add: f_of_int_def z)
  then have base: "f_add (f_of_int (0 * 15)) (f_mul (f_div (f_of_int 0) (f_of_int events)) (Fin 40)) = Fin 0"
    using assms by (simp add: e z)
  have "f_trunc (f_add (f_mul (Fin 0) y) (Fin (1 / 2))) = 0" for y
    by (cases y) (simp_all add: z f_trunc_def inf_of_sign_def floor_eq_iff)
  then show ?thesis unfolding churn_score_def Let_def base by simp
qed

lemma churn_loop_counts:
  assumes "counts (s # ss)"
  shows "fst (churn_loop s ss (u, d, t, m)) + fst (snd (churn_loop s ss (u, d, t, m))) = u + d + int (length (moves s ss))"
  using assms
proof (induction ss arbitrary: s u d t m)
  case (Cons x xs)
  have dir: "size_direction (wrap32 (x - s)) = sgn (x - s)"
    using Cons.prems by (intro direction_sgn) (auto simp: counts_def)
  have "counts (x # xs)" using Cons.prems by (simp add: counts_def)
  note IH = Cons.IH [OF this]
  show ?case
  proof (cases "x = s")
    case True
    show ?thesis using dir IH [unfolded True] by (simp add: True Let_def)
  next
    case False
    then show ?thesis using dir by (cases x s rule: linorder_cases) (simp_all add: Let_def IH)
  qed
qed simp

lemma changes_less: "ds \<noteq> [] \<Longrightarrow> changes ds < length ds"
  by (induction ds rule: changes.induct) auto

lemma latest_segment_suffix:
  "\<exists>dropped. rev rs @ segment = dropped @ latest_segment rs segment"
proof (induction rs segment rule: latest_segment.induct)
  case (2 r before segment)
  show ?case
  proof (cases segment)
    case (Cons x xs)
    with 2(2) [OF Cons] show ?thesis by (cases "maxChurnTransitionGap < Sub (rd_Timestamp x) (rd_Timestamp r)") auto
  qed (use 2(1) in simp)
qed simp

lemma segment_suffix: "\<exists>dropped. rs = dropped @ latestContinuousRescaleSegment rs"
  using latest_segment_suffix [of "rev rs" "[]"] by (simp add: latestContinuousRescaleSegment_def)

text \<open>Consecutive elements of a list are in a relation.\<close>

fun linked :: "('a \<Rightarrow> 'a \<Rightarrow> bool) \<Rightarrow> 'a list \<Rightarrow> bool" where
  "linked R (x # y # zs) = (R x y \<and> linked R (y # zs))"
| "linked R zs = True"

definition close_rescales :: "rescale \<Rightarrow> rescale \<Rightarrow> bool" where
  "close_rescales r s \<longleftrightarrow> Sub (rd_Timestamp s) (rd_Timestamp r) \<le> Hour"

lemma latest_segment_linked: "linked close_rescales segment \<Longrightarrow> linked close_rescales (latest_segment rs segment)"
  by (induction rs segment rule: latest_segment.induct)
    (auto simp: close_rescales_def maxChurnTransitionGap_def split: list.split)

lemma latest_segment_maximal:
  "segment \<noteq> [] \<Longrightarrow> rev rs @ segment = dropped @ latest_segment rs segment \<Longrightarrow> dropped \<noteq> [] \<Longrightarrow>
     \<not> close_rescales (last dropped) (hd (latest_segment rs segment))"
proof (induction rs segment rule: latest_segment.induct)
  case (2 r before segment)
  then obtain s ss where seg: "segment = s # ss" by (cases segment) auto
  show ?case
  proof (cases "close_rescales r s")
    case True
    then show ?thesis using 2 seg by (simp add: close_rescales_def maxChurnTransitionGap_def)
  next
    case False
    then have e: "latest_segment (r # before) segment = segment"
      by (simp add: seg close_rescales_def maxChurnTransitionGap_def)
    then have "dropped = rev before @ [r]" using 2(4) by simp
    then show ?thesis unfolding e using False by (simp add: seg)
  qed
qed simp

text \<open>The analysis of a segment of plausible counts.\<close>

lemma analyze_segment_sound:
  assumes "analyze_segment rs hp = Some a" and "counts (RescaleSizes rs)" and "rs \<noteq> []"
    and "int (length rs) \<le> max_int32"
  shows "0 \<le> ca_Score a \<and> ca_Score a \<le> 100 \<and> ca_Level a = churnLevelFromScore (ca_Score a)
    \<and> 0 \<le> ca_DirectionFlips a \<and> ca_DirectionFlips a < ca_ScaleUpCount a + ca_ScaleDownCount a
    \<and> ca_ScaleUpCount a + ca_ScaleDownCount a < int (length rs)
    \<and> (ca_DirectionFlips a = 0 \<longrightarrow> ca_Score a = 0 \<and> ca_Recommendations a = [])"
proof -
  let ?sizes = "RescaleSizes rs"
  obtain s ss where ss: "?sizes = s # ss" using assms(3) by (cases rs) (auto simp: RescaleSizes_def)
  obtain ups downs tot m where loop: "churn_loop s ss (0, 0, Fin 0, 0) = (ups, downs, tot, m)" by (metis prod_cases4)
  have n: "ups + downs = int (length (moves s ss))"
    using churn_loop_counts [of s ss 0 0 "Fin 0" 0] assms(2) by (simp add: ss loop)
  have len: "length (moves s ss) \<le> length ss" by (induction ss arbitrary: s) (auto simp: le_SucI)
  have lens: "Suc (length ss) = length rs" using ss by (metis RescaleSizes_def length_Cons length_map)
  have fl: "CountDirectionFlips ?sizes = int (changes (moves s ss))"
    using count_flips_changes [OF assms(2)] by (simp add: ss)
  have nz: "ups + downs \<noteq> 0" using assms(1) by (auto simp: analyze_segment_def Let_def ss loop)
  let ?score = "churn_score (CountDirectionFlips ?sizes) (ups + downs) (Sub (rd_Timestamp (last rs)) (rd_Timestamp (hd rs)))"
  have a: "ca_Score a = ?score" "ca_Level a = churnLevelFromScore ?score" "ca_ScaleUpCount a = ups" "ca_ScaleDownCount a = downs"
    "ca_DirectionFlips a = CountDirectionFlips ?sizes"
    "ca_Recommendations a = generateChurnRecommendations (churnLevelFromScore ?score) hp"
    using assms(1) nz by (auto simp: analyze_segment_def Let_def ss loop)
  have pos: "0 < ups + downs" "ups + downs \<le> max_int32" "ups + downs < int (length rs)"
    using n nz len lens assms(4) by linarith+
  have "moves s ss \<noteq> []" using pos n by auto
  then have "CountDirectionFlips ?sizes < ups + downs" using changes_less fl n by fastforce
  moreover have "0 \<le> CountDirectionFlips ?sizes" by (simp add: CountDirectionFlips_def)
  moreover have "?score = 0" if "CountDirectionFlips ?sizes = 0" using that churn_score_no_flips pos by simp
  ultimately show ?thesis
    using churn_score_range pos
    by (auto simp: a generateChurnRecommendations_def churnLevelFromScore_def)
qed

subsection \<open>Properties\<close>

text \<open>A churn report depends only on the set of events, not on the order or the repetitions in
  which the API lists them.\<close>

theorem churn_order_irrelevant:
  assumes "set events = set events'"
  shows "AnalyzeChurnFromEvents events hp = AnalyzeChurnFromEvents events' hp"
proof -
  have "set (extract_rescales events) = set (extract_rescales events')"
    using assms by (simp add: extract_rescales_def)
  from norm.set_invariant [OF this] show ?thesis by (simp add: AnalyzeChurnFromEvents_def buildChurnAnalysis_def)
qed

definition rescaled :: "int \<Rightarrow> string \<Rightarrow> hpa_event" where
  "rescaled t message = \<lparr>ev_Reason = ReasonSuccessfulRescale, ev_Message = message, ev_Timestamp = t * Second\<rparr>"

lemma churn_order_irrelevant_witness:
  "AnalyzeChurnFromEvents [rescaled 0 ''New size: 2'', rescaled 60 ''New size: 5''] (Some (sample_hpa 4 [])) =
   AnalyzeChurnFromEvents [rescaled 60 ''New size: 5'', rescaled 0 ''New size: 2''] (Some (sample_hpa 4 []))"
  by (rule churn_order_irrelevant) auto

text \<open>A churn report has a score between 0 and 100 and the level of that score, counts fewer
  reversals than moves, and for a history without a reversal the score is 0 and nothing is
  recommended.\<close>

theorem churn_report_sound:
  assumes "buildChurnAnalysis rs hp = Some a" and "\<forall>r \<in> set rs. 0 \<le> rd_NewSize r \<and> rd_NewSize r \<le> max_int32"
    and "int (length (NormalizeRescales rs)) \<le> max_int32"
  shows "0 \<le> ca_Score a \<and> ca_Score a \<le> 100 \<and> ca_Level a = churnLevelFromScore (ca_Score a)
    \<and> 0 \<le> ca_DirectionFlips a \<and> ca_DirectionFlips a < ca_ScaleUpCount a + ca_ScaleDownCount a
    \<and> (ca_DirectionFlips a = 0 \<longrightarrow> ca_Score a = 0 \<and> ca_Recommendations a = [])"
proof -
  let ?seg = "latestContinuousRescaleSegment (NormalizeRescales rs)"
  have seg: "analyze_segment ?seg hp = Some a" "3 \<le> length ?seg"
    using assms(1) by (auto simp: buildChurnAnalysis_def Let_def split: if_splits)
  obtain dropped where d: "NormalizeRescales rs = dropped @ ?seg" using segment_suffix by blast
  then have "set ?seg \<subseteq> set rs" using norm.members by (metis Un_upper2 set_append subset_iff)
  then have "counts (RescaleSizes ?seg)" using assms(2) by (auto simp: counts_def RescaleSizes_def)
  moreover have "length ?seg \<le> length (NormalizeRescales rs)" using d by (metis le_add2 length_append)
  ultimately show ?thesis using analyze_segment_sound [OF seg(1)] seg(2) assms(3) by force
qed

lemma churn_report_sound_witness:
  "\<exists>a. buildChurnAnalysis [Rescale 0 2, Rescale (60 * Second) 5, Rescale (120 * Second) 3, Rescale (180 * Second) 6]
      (Some (sample_hpa 4 [])) = Some a \<and> 0 \<le> ca_Score a \<and> ca_Score a \<le> 100
      \<and> ca_DirectionFlips a < ca_ScaleUpCount a + ca_ScaleDownCount a"
proof -
  let ?rs = "[Rescale 0 2, Rescale (60 * Second) 5, Rescale (120 * Second) 3, Rescale (180 * Second) 6]"
  have "buildChurnAnalysis ?rs (Some (sample_hpa 4 [])) \<noteq> None" by code_simp
  then obtain a where a: "buildChurnAnalysis ?rs (Some (sample_hpa 4 [])) = Some a" by blast
  have "length (NormalizeRescales ?rs) = 4" by code_simp
  then show ?thesis using churn_report_sound [OF a] a by simp
qed

text \<open>The analyzed segment is the longest suffix of the history in which neighbouring rescales are
  at most an hour apart.\<close>

theorem segment_longest:
  "\<exists>dropped. rs = dropped @ latestContinuousRescaleSegment rs
     \<and> linked close_rescales (latestContinuousRescaleSegment rs)
     \<and> (dropped \<noteq> [] \<longrightarrow> \<not> close_rescales (last dropped) (hd (latestContinuousRescaleSegment rs)))"
proof (cases "rev rs")
  case (Cons r before)
  then have rs: "rs = rev before @ [r]" by (metis rev.simps(2) rev_rev_ident)
  have seg: "latestContinuousRescaleSegment rs = latest_segment before [r]"
    by (simp add: latestContinuousRescaleSegment_def Cons)
  obtain dropped where d: "rev before @ [r] = dropped @ latest_segment before [r]"
    using latest_segment_suffix [of before "[r]"] by blast
  have e: "rs = dropped @ latest_segment before [r]" using rs d by (rule trans)
  have "dropped \<noteq> [] \<longrightarrow> \<not> close_rescales (last dropped) (hd (latest_segment before [r]))"
    using latest_segment_maximal [OF _ d] by simp
  moreover have "linked close_rescales (latest_segment before [r])" by (rule latest_segment_linked) simp
  ultimately show ?thesis using e unfolding seg by blast
qed (simp add: latestContinuousRescaleSegment_def)

lemma segment_longest_witness:
  "latestContinuousRescaleSegment [Rescale 0 1, Rescale (2 * Hour) 2, Rescale (3 * Hour) 3]
     = [Rescale (2 * Hour) 2, Rescale (3 * Hour) 3] \<and> \<not> close_rescales (Rescale 0 1) (Rescale (2 * Hour) 2)"
proof -
  let ?rs = "[Rescale 0 1, Rescale (2 * Hour) 2, Rescale (3 * Hour) 3]"
  have e: "latestContinuousRescaleSegment ?rs = [Rescale (2 * Hour) 2, Rescale (3 * Hour) 3]" by code_simp
  obtain dropped where "?rs = dropped @ latestContinuousRescaleSegment ?rs"
    and far: "dropped \<noteq> [] \<longrightarrow> \<not> close_rescales (last dropped) (hd (latestContinuousRescaleSegment ?rs))"
    using segment_longest [of ?rs] by blast
  then have "dropped = [Rescale 0 1]" unfolding e by (simp add: append_eq_Cons_conv Cons_eq_append_conv)
  with far e show ?thesis by simp
qed

end
