(* ===== verification/Flapping.thy ===== *)
theory Flapping
  imports Churn
begin

section \<open>Flapping\<close>

text \<open>
  \<open>pkg/hpa/flapping\<close>: the diagnosis of oscillating histories with its causes and fixes, the
  what-if simulation of stabilization windows, and the classification of recorded traces.
\<close>

definition currentStabilizationWindowSeconds :: "('q, 's) hpa option \<Rightarrow> int" where
  "currentStabilizationWindowSeconds hp = EffectiveScaleDownStabilizationWindow hp"

definition extractRescaleEvents :: "hpa_event list \<Rightarrow> rescale list" where
  "extractRescaleEvents events = concat (map (\<lambda>ev.
     if ev_Reason ev \<noteq> ReasonSuccessfulRescale then []
     else (case ParseNewSize (ev_Message ev) of
             None \<Rightarrow> []
           | Some newSize \<Rightarrow> [Rescale (ev_Timestamp ev) newSize])) events)"

subsection \<open>Causes and fixes\<close>

record cause =
  cause_Type :: string
  cause_Description :: string
  cause_Confidence :: string

record fix_action =
  fix_Action :: string
  fix_Patch :: string
  fix_Rationale :: string

fun small_deltas :: "int \<Rightarrow> int list \<Rightarrow> int" where
  "small_deltas prev [] = 0"
| "small_deltas prev (s # ss) =
     (let delta = wrap32 (s - prev);
          delta = (if delta < 0 then wrap32 (- delta) else delta)
      in (if delta \<le> 2 then 1 else 0) + small_deltas s ss)"

definition isTightTarget :: "rescale list \<Rightarrow> bool" where
  "isTightTarget rescales =
     (if length rescales < 3 then False
      else let sizes = RescaleSizes rescales
           in small_deltas (hd sizes) (tl sizes) > quot (int (length rescales) - 1) 2)"

definition diagnoseFlappingCauses :: "('q, 's) hpa \<Rightarrow> rescale list \<Rightarrow> cause list" where
  "diagnoseFlappingCauses h rescales =
     (let window = currentStabilizationWindowSeconds (Some h) in
      (if isTightTarget rescales then
         [\<lparr>cause_Type = ''tight-target'',
           cause_Description = ''Metric values are oscillating around the target threshold, causing the HPA to repeatedly scale up and down by small amounts.'',
           cause_Confidence = ''medium''\<rparr>] else []) @
      (if window < DefaultScaleDownStabilizationWindowSeconds then
         [\<lparr>cause_Type = ''short-stabilization-window'',
           cause_Description = ''The scaleDown stabilizationWindowSeconds is '' @ show_int window @ ''s (< '' @
             show_int DefaultScaleDownStabilizationWindowSeconds @
             ''s default). A short window allows the HPA to reverse scaling decisions before metrics stabilize.'',
           cause_Confidence = ''high''\<rparr>] else []) @
      (if (case scaleDownRules (Some h) of None \<Rightarrow> True | Some r \<Rightarrow> policies_of r = []) then
         [\<lparr>cause_Type = ''missing-scaledown-policy'',
           cause_Description = ''No explicit scaleDown policies are configured. The controller uses default behavior which may allow rapid downscaling followed by immediate upscaling.'',
           cause_Confidence = ''high''\<rparr>] else []))"

definition fixes_for :: "('q, 's) hpa \<Rightarrow> cause \<Rightarrow> fix_action list" where
  "fixes_for h c =
     (if cause_Type c = ''tight-target'' then
        [\<lparr>fix_Action = ''Increase the scaleDown tolerance or widen the target range'', fix_Patch = [],
          fix_Rationale = ''A wider tolerance band around the target prevents the HPA from reacting to small metric fluctuations near the threshold.''\<rparr>]
      else if cause_Type c = ''short-stabilization-window'' then
        (let currentWindow = currentStabilizationWindowSeconds (Some h)
         in case NextScaleDownStabilizationWindow currentWindow of
              None \<Rightarrow> []
            | Some recommendedWindow \<Rightarrow>
                [\<lparr>fix_Action = ''Increase scaleDown stabilizationWindowSeconds from '' @ show_int currentWindow @ ''s to '' @
                   show_int recommendedWindow @ ''s'',
                  fix_Patch = ScaleDownBehaviorPatch [(''stabilizationWindowSeconds'', PInt recommendedWindow)],
                  fix_Rationale = ''A longer stabilization window gives the HPA more time to observe sustained metric changes before reversing a scaling decision.''\<rparr>])
      else if cause_Type c = ''missing-scaledown-policy'' then
        [\<lparr>fix_Action = ''Add explicit scaleDown policy (50%/60s)'',
          fix_Patch = ScaleDownBehaviorPatch
            [(''stabilizationWindowSeconds'', PInt (currentStabilizationWindowSeconds (Some h))),
             (''selectPolicy'', PStr ''Max''),
             (''policies'', PList [PMap [(''type'', PStr ''Percent''), (''value'', PInt 50), (''periodSeconds'', PInt 60)]])],
          fix_Rationale = ''Explicit scaleDown policies bound the rate of replica removal, preventing rapid downscale followed by immediate upscale cycles.''\<rparr>]
      else [])"

definition generateFlappingFixes :: "('q, 's) hpa \<Rightarrow> cause list \<Rightarrow> fix_action list" where
  "generateFlappingFixes h causes = concat (map (fixes_for h) causes)"

subsection \<open>The diagnosis\<close>

record direction_flip =
  df_timestamp :: int
  df_from :: int
  df_to :: int
  df_direction :: int

record diagnosis =
  dg_Detected :: bool
  dg_Severity :: string
  dg_Pattern :: string
  dg_FlipCount :: int
  dg_WindowSeconds :: int
  dg_EstimatedCauses :: "cause list"
  dg_Recommendations :: "fix_action list"
  dg_EventTTLLimitation :: string

definition detectDirectionFlips :: "rescale list \<Rightarrow> direction_flip list" where
  "detectDirectionFlips rescales = map (\<lambda>i.
     let delta = wrap32 (rd_NewSize (rescales ! i) - rd_NewSize (rescales ! (i - 1)))
     in \<lparr>df_timestamp = rd_Timestamp (rescales ! i), df_from = rd_NewSize (rescales ! (i - 1)),
         df_to = rd_NewSize (rescales ! i), df_direction = size_direction delta\<rparr>)
   (FlipPoints (RescaleSizes rescales))"

text \<open>\<open>Duration.Seconds\<close>.\<close>

definition dur_seconds :: "int \<Rightarrow> f64" where
  "dur_seconds d = f_add (f_of_int (quot d Second)) (f_div (f_of_int (go_rem d Second)) (Fin 1000000000))"

definition windowFromFlips :: "direction_flip list \<Rightarrow> int" where
  "windowFromFlips flips =
     (if length flips < 2 then 0
      else f_trunc (dur_seconds (Sub (df_timestamp (last flips)) (df_timestamp (hd flips)))))"

definition flappingSeverity :: "int \<Rightarrow> int \<Rightarrow> string" where
  "flappingSeverity flipCount windowSeconds =
     (let defaultWindow = DefaultScaleDownStabilizationWindowSeconds
      in if flipCount \<ge> 6 \<or> (flipCount \<ge> 3 \<and> windowSeconds > 0 \<and> windowSeconds < defaultWindow) then ''CRITICAL''
         else if flipCount \<ge> 3 \<or> (flipCount \<ge> 2 \<and> windowSeconds > 0 \<and> windowSeconds < 2 * defaultWindow) then ''HIGH''
         else if flipCount \<ge> 2 then ''MEDIUM''
         else ''LOW'')"

definition describeFlappingPattern :: "direction_flip list \<Rightarrow> string" where
  "describeFlappingPattern flips =
     (if flips = [] then []
      else let windowDesc = DurationCompactMinutes (wrap64 (windowFromFlips flips * Second))
           in if length flips = 1 then
                (if df_direction (hd flips) = 1 then ''down-up'' else ''up-down'') @ '' reversal in '' @ windowDesc
              else show_int (int (length flips)) @ '' direction flips in '' @ windowDesc)"

definition ttl_note :: string where
  "ttl_note = ''Events are retained for ~1 hour by default; older flapping patterns may not be visible. Use '' @
     [CHR 0x27] @ ''record'' @ [CHR 0x27] @ '' for long-term monitoring.''"

definition DiagnoseFlapping :: "hpa_event list \<Rightarrow> ('q, 's) hpa option \<Rightarrow> diagnosis option" where
  "DiagnoseFlapping events hp = (case hp of
     None \<Rightarrow> None
   | Some h \<Rightarrow>
       if events = [] then None
       else let rescales = NormalizeRescales (extractRescaleEvents events)
            in if length rescales < 3 then None
               else let flips = detectDirectionFlips rescales
                    in if flips = [] then
                         Some \<lparr>dg_Detected = False, dg_Severity = ''LOW'', dg_Pattern = [], dg_FlipCount = 0,
                               dg_WindowSeconds = 0, dg_EstimatedCauses = [], dg_Recommendations = [],
                               dg_EventTTLLimitation = []\<rparr>
                       else let windowSeconds = windowFromFlips flips;
                                causes = diagnoseFlappingCauses h rescales
                            in Some \<lparr>dg_Detected = True,
                                 dg_Severity = flappingSeverity (int (length flips)) windowSeconds,
                                 dg_Pattern = describeFlappingPattern flips, dg_FlipCount = int (length flips),
                                 dg_WindowSeconds = windowSeconds, dg_EstimatedCauses = causes,
                                 dg_Recommendations = generateFlappingFixes h causes,
                                 dg_EventTTLLimitation = ttl_note\<rparr>)"

subsection \<open>What-if windows\<close>

record window_simulation =
  ws_WindowSeconds :: int
  ws_EstimatedFlapReduction :: f64
  ws_EstimatedDirectionFlips :: int
  ws_Rationale :: string
  ws_Patch :: string
  ws_Confidence :: string

record prevention_report =
  pr_CurrentWindow :: int
  pr_CurrentDirectionFlips :: int
  pr_ObservationWindow :: string
  pr_Recommendations :: "window_simulation list"
  pr_Summary :: string

definition countDirectionFlips :: "rescale list \<Rightarrow> int" where
  "countDirectionFlips rescales = CountDirectionFlips (RescaleSizes rescales)"

text \<open>Adding the candidates that have not been seen; the list \<open>seen\<close> stands for the map.\<close>

fun add_candidates :: "int list \<Rightarrow> int list \<Rightarrow> int list \<Rightarrow> int list" where
  "add_candidates seen candidates [] = candidates"
| "add_candidates seen candidates (v # vs) =
     (if v \<in> set seen then add_candidates seen candidates vs
      else add_candidates (v # seen) (candidates @ [v]) vs)"

definition candidateWindowMultipliers :: "f64 list" where
  "candidateWindowMultipliers = [Fin (3 / 2), Fin 2, Fin 3]"

definition fixedCandidateWindows :: "int list" where
  "fixedCandidateWindows =
     [DefaultScaleDownStabilizationWindowSeconds, 2 * DefaultScaleDownStabilizationWindowSeconds]"

definition buildCandidateWindows :: "int \<Rightarrow> int list" where
  "buildCandidateWindows currentWindow =
     sort (add_candidates [currentWindow] []
       (map (\<lambda>mult. wrap32 (f_trunc (f_mul (f_of_int currentWindow) mult))) candidateWindowMultipliers @
        fixedCandidateWindows))"

text \<open>The walk over the gaps: the previous size, the last direction and the instant it was seen.\<close>

fun window_loop :: "int \<Rightarrow> int \<Rightarrow> int \<Rightarrow> int \<Rightarrow> rescale list \<Rightarrow> nat" where
  "window_loop window prevSize prevDirection prevTime [] = 0"
| "window_loop window prevSize prevDirection prevTime (r # rs) =
     (let direction = size_direction (wrap32 (rd_NewSize r - prevSize));
          gap = Sub (rd_Timestamp r) prevTime
      in if direction = 0 then window_loop window (rd_NewSize r) prevDirection prevTime rs
         else (if prevDirection \<noteq> 0 \<and> direction \<noteq> prevDirection \<and> gap \<ge> window then 1 else 0) +
              window_loop window (rd_NewSize r) direction (rd_Timestamp r) rs)"

text \<open>\<open>rescales[0]\<close> of an empty slice panics: no value.\<close>

definition simulateWindow :: "rescale list \<Rightarrow> int \<Rightarrow> int option" where
  "simulateWindow rescales windowSeconds = (case rescales of
     [] \<Rightarrow> None
   | r # rs \<Rightarrow> Some (int (window_loop (wrap64 (windowSeconds * Second)) (rd_NewSize r) 0 (rd_Timestamp r) rs)))"

definition computeFlapReduction :: "int \<Rightarrow> int \<Rightarrow> f64" where
  "computeFlapReduction currentFlips remainingFlips =
     (if currentFlips = 0 then Fin 0
      else let reduction = f_mul (f_div (f_of_int (currentFlips - remainingFlips)) (f_of_int currentFlips)) (Fin 100)
           in if f_lt reduction (Fin 0) then Fin 0
              else if f_lt (Fin 100) reduction then Fin 100
              else reduction)"

definition flappingConfidence :: "f64 \<Rightarrow> string" where
  "flappingConfidence reduction =
     (if f_le (Fin 75) reduction then ''high'' else if f_le (Fin 40) reduction then ''medium'' else ''low'')"

definition window_candidate :: "int \<Rightarrow> int \<Rightarrow> int \<Rightarrow> window_simulation" where
  "window_candidate currentFlips windowSec remainingFlips =
     (let reduction = computeFlapReduction currentFlips remainingFlips
      in \<lparr>ws_WindowSeconds = windowSec, ws_EstimatedFlapReduction = reduction,
          ws_EstimatedDirectionFlips = remainingFlips,
          ws_Rationale = ''A '' @ show_int windowSec @ ''s stabilization window would suppress '' @
            show_int (currentFlips - remainingFlips) @ '' of '' @ show_int currentFlips @ '' direction flips ('' @
            show_fixed 0 reduction @ ''% reduction).'',
          ws_Patch = ScaleDownBehaviorPatch [(''stabilizationWindowSeconds'', PInt windowSec)],
          ws_Confidence = flappingConfidence reduction\<rparr>)"

fun simulateCandidates :: "rescale list \<Rightarrow> int \<Rightarrow> int list \<Rightarrow> window_simulation list option" where
  "simulateCandidates rescales currentFlips [] = Some []"
| "simulateCandidates rescales currentFlips (windowSec # windows) = (case simulateWindow rescales windowSec of
     None \<Rightarrow> None
   | Some remainingFlips \<Rightarrow>
       map_option (\<lambda>rest.
           if remainingFlips \<ge> currentFlips then rest
           else window_candidate currentFlips windowSec remainingFlips # rest)
         (simulateCandidates rescales currentFlips windows))"

text \<open>
  \<open>sort.Slice\<close> of at most twelve elements is an insertion sort: every element moves left past
  the ones it is less than.
\<close>

fun insert_back :: "('a \<Rightarrow> 'a \<Rightarrow> bool) \<Rightarrow> 'a \<Rightarrow> 'a list \<Rightarrow> 'a list" where
  "insert_back lt x [] = [x]"
| "insert_back lt x (y # ys) = (if lt x y then y # insert_back lt x ys else x # y # ys)"

definition insertion_sort :: "('a \<Rightarrow> 'a \<Rightarrow> bool) \<Rightarrow> 'a list \<Rightarrow> 'a list" where
  "insertion_sort lt xs = rev (foldl (\<lambda>sorted x. insert_back lt x sorted) [] xs)"

definition better_reduction :: "window_simulation \<Rightarrow> window_simulation \<Rightarrow> bool" where
  "better_reduction a b \<longleftrightarrow> f_lt (ws_EstimatedFlapReduction b) (ws_EstimatedFlapReduction a)"

definition formatFlappingDuration :: "int \<Rightarrow> string" where
  "formatFlappingDuration d = DurationCompactHMS d"

definition formatObservationWindow :: "rescale list \<Rightarrow> string" where
  "formatObservationWindow rescales =
     (if rescales = [] then []
      else formatFlappingDuration (Sub (rd_Timestamp (last rescales)) (rd_Timestamp (hd rescales))))"

definition buildFlappingSummary :: "int \<Rightarrow> int \<Rightarrow> window_simulation list \<Rightarrow> string" where
  "buildFlappingSummary directionFlips currentWindow recommendations =
     (if directionFlips = 0 then
        ''No direction flips detected with current '' @ show_int currentWindow @ ''s stabilization window.''
      else if recommendations = [] then
        show_int directionFlips @ '' direction flips detected; current '' @ show_int currentWindow @
        ''s window is already the best option among candidates.''
      else
        let best = hd recommendations
        in show_int directionFlips @ '' direction flips detected with '' @ show_int currentWindow @
           ''s window; increasing to '' @ show_int (ws_WindowSeconds best) @ ''s could reduce flips by '' @
           show_fixed 0 (ws_EstimatedFlapReduction best) @ ''%.'')"

definition AnalyzeFlappingPrevention :: "hpa_event list \<Rightarrow> ('q, 's) hpa option \<Rightarrow> prevention_report option" where
  "AnalyzeFlappingPrevention events hp =
     (let rescales = NormalizeRescales (extractRescaleEvents events)
      in if length rescales < 3 then None
         else let currentWindow = currentStabilizationWindowSeconds hp;
                  directionFlips = countDirectionFlips rescales
              in map_option (\<lambda>recs.
                   let recommendations = insertion_sort better_reduction recs
                   in \<lparr>pr_CurrentWindow = currentWindow, pr_CurrentDirectionFlips = directionFlips,
                       pr_ObservationWindow = formatObservationWindow rescales,
                       pr_Recommendations = recommendations,
                       pr_Summary = buildFlappingSummary directionFlips currentWindow recommendations\<rparr>)
                 (simulateCandidates rescales directionFlips (buildCandidateWindows currentWindow)))"

subsection \<open>Recorded traces\<close>

record trace_report =
  tr_Namespace :: string
  tr_Name :: string
  tr_Snapshots :: int
  tr_DesiredChanges :: int
  tr_DirectionFlips :: int
  tr_ReplicaMin :: int
  tr_ReplicaMax :: int
  tr_Level :: string
  tr_Suggestions :: "string list"

fun range_loop :: "int \<Rightarrow> int \<Rightarrow> int list \<Rightarrow> int \<times> int" where
  "range_loop minimum maximum [] = (minimum, maximum)"
| "range_loop minimum maximum (v # vs) =
     range_loop (if v < minimum then v else minimum) (if v > maximum then v else maximum) vs"

definition replicaRange :: "int list \<Rightarrow> int \<times> int" where
  "replicaRange desired = (case desired of [] \<Rightarrow> (0, 0) | d # ds \<Rightarrow> range_loop d d ds)"

text \<open>Changes and flips of the rest of the series.\<close>

fun trace_loop :: "int \<Rightarrow> int \<Rightarrow> int list \<Rightarrow> nat \<times> nat" where
  "trace_loop lastDesired lastDirection [] = (0, 0)"
| "trace_loop lastDesired lastDirection (desired # rest) =
     (if desired = lastDesired then trace_loop lastDesired lastDirection rest
      else let direction = (if desired < lastDesired then - 1 else 1);
               (c, f) = trace_loop desired direction rest
           in (c + 1, f + (if lastDirection \<noteq> 0 \<and> direction \<noteq> lastDirection then 1 else 0)))"

definition trace_level :: "int \<Rightarrow> int \<Rightarrow> string" where
  "trace_level flips desiredChanges =
     (if flips \<ge> 6 \<or> desiredChanges \<ge> 15 then ''CRITICAL''
      else if flips \<ge> 3 \<or> desiredChanges \<ge> 8 then ''HIGH''
      else if flips > 0 \<or> desiredChanges \<ge> 4 then ''MEDIUM''
      else ''LOW'')"

definition AnalyzeTrace :: "string \<Rightarrow> string \<Rightarrow> int list \<Rightarrow> trace_report" where
  "AnalyzeTrace namespace name desired =
     (let (c, f) = (case desired of [] \<Rightarrow> (0, 0) | d # ds \<Rightarrow> trace_loop d 0 ds);
          level = trace_level (int f) (int c)
      in \<lparr>tr_Namespace = namespace, tr_Name = name, tr_Snapshots = int (length desired),
          tr_DesiredChanges = int c, tr_DirectionFlips = int f,
          tr_ReplicaMin = fst (replicaRange desired), tr_ReplicaMax = snd (replicaRange desired),
          tr_Level = level,
          tr_Suggestions = (if level \<noteq> ''LOW'' then
            [''review scaleDown stabilization window and configured tolerance'',
             ''check whether target utilization is too close to normal traffic baseline''] else [])\<rparr>)"

subsection \<open>Facts\<close>

lemma trace_loop_moves:
  assumes "p \<in> {- 1, 0, 1}"
  shows "trace_loop s p ss = (length (moves s ss), changes ((if p = 0 then [] else [p]) @ moves s ss))"
  using assms
proof (induction ss arbitrary: s p)
  case (Cons x xs)
  let ?d = "if x < s then - 1 else 1 :: int"
  have d: "x \<noteq> s \<Longrightarrow> sgn (x - s) = ?d" by (auto simp: sgn_if)
  show ?case
  proof (cases "x = s")
    case False
    then show ?thesis using Cons.IH [of ?d x] d Cons.prems by (auto simp: Let_def)
  qed (use Cons in simp)
qed auto

lemma window_loop_anti:
  "w \<le> w' \<Longrightarrow> window_loop w' s p t rs \<le> window_loop w s p t rs"
  by (induction w' s p t rs rule: window_loop.induct) (auto simp: Let_def intro: le_SucI)

lemma window_loop_all:
  assumes "sorted_wrt (\<lambda>a b. rd_Timestamp a \<le> rd_Timestamp b) rs" and "\<forall>r \<in> set rs. t \<le> rd_Timestamp r" and "w \<le> 0"
  shows "window_loop w s p t rs = length (flip_loop i p s (map rd_NewSize rs))"
  using assms by (induction rs arbitrary: s p t i) (auto simp: Let_def Sub_def)

lemma add_candidates_set:
  "set (add_candidates seen cs vs) = set cs \<union> (set vs - set seen)"
  by (induction seen cs vs rule: add_candidates.induct) auto

lemma add_candidates_distinct:
  "distinct cs \<Longrightarrow> set cs \<subseteq> set seen \<Longrightarrow> distinct (add_candidates seen cs vs)"
  by (induction seen cs vs rule: add_candidates.induct) auto

lemma multiplied_window:
  assumes "0 < w" "w \<le> 700000000" "m = 2 \<or> m = 3"
  shows "wrap32 (f_trunc (f_mul (f_of_int w) (Fin (of_int m)))) = m * w"
proof -
  have "mk (of_int (w * m)) = Fin (of_int (w * m))" using assms by (intro mk_int) auto
  then have "f_mul (f_of_int w) (Fin (of_int m)) = Fin (of_int (w * m))" using assms by simp
  moreover have "in32 (m * w)" using assms by (auto simp: in32_def)
  ultimately show ?thesis using assms by (simp add: f_trunc_def mult.commute del: of_int_mult)
qed

lemma candidates_include:
  assumes "0 < w" "w \<le> 700000000"
  shows "{2 * w, 3 * w} \<union> ({300, 600} - {w}) \<subseteq> set (buildCandidateWindows w)"
  using assms multiplied_window [of w 2] multiplied_window [of w 3]
  by (auto simp: buildCandidateWindows_def add_candidates_set candidateWindowMultipliers_def
      fixedCandidateWindows_def DefaultScaleDownStabilizationWindowSeconds_def)

subsection \<open>Properties\<close>

text \<open>The recorded-trace analysis, which walks the series itself, counts the same reversals as the
  shared definition of a direction flip, and as many changes as there are moves.\<close>

theorem trace_flips_agree:
  assumes "counts desired"
  shows "tr_DirectionFlips (AnalyzeTrace namespace name desired) = CountDirectionFlips desired
    \<and> tr_DirectionFlips (AnalyzeTrace namespace name desired) \<le> tr_DesiredChanges (AnalyzeTrace namespace name desired)"
proof (cases desired)
  case (Cons d ds)
  have "changes (moves d ds) \<le> length (moves d ds)" using changes_less [of "moves d ds"] by (cases "moves d ds") auto
  then show ?thesis
    using count_flips_changes [OF assms] trace_loop_moves [of 0 d ds] Cons by (simp add: AnalyzeTrace_def Let_def)
qed (simp add: AnalyzeTrace_def CountDirectionFlips_def FlipPoints_def Let_def)

lemma trace_flips_agree_witness:
  "tr_DirectionFlips (AnalyzeTrace ''ns'' ''web'' [1, 3, 2, 5, 5, 1]) = CountDirectionFlips [1, 3, 2, 5, 5, 1]"
  using trace_flips_agree [of "[1, 3, 2, 5, 5, 1]"] by (simp add: counts_def)

text \<open>In the what-if simulation a longer window never leaves more reversals than a shorter one,
  and a window of zero leaves all of them.\<close>

theorem longer_window_fewer_flips:
  assumes "rs = NormalizeRescales observed" and "w \<le> w'" and "0 \<le> w" and "w' \<le> max_int32"
    and "simulateWindow rs w = Some n" and "simulateWindow rs w' = Some n'"
  shows "n' \<le> n \<and> n \<le> countDirectionFlips rs \<and> simulateWindow rs 0 = Some (countDirectionFlips rs)"
proof -
  obtain r rest where rs: "rs = r # rest" using assms(5) by (cases rs) (auto simp: simulateWindow_def)
  have s: "sorted_wrt (\<lambda>a b. rd_Timestamp a \<le> rd_Timestamp b) (r # rest)"
    using norm.strict [of observed] sorted_wrt_mono_rel [of "r # rest"] assms(1) rs
    by (metis (no_types, lifting) less_imp_le)
  have len: "length (flip_loop (Suc 0) 0 (rd_NewSize r) (map rd_NewSize rest)) = window_loop 0 (rd_NewSize r) 0 (rd_Timestamp r) rest"
    using s by (subst window_loop_all [where i = "Suc 0"]) auto
  have scale: "wrap64 (x * Second) = x * Second" if "0 \<le> x" "x \<le> max_int32" for x
    using that by (simp add: in64_def)
  have "n' \<le> n" using assms(2-6) by (auto simp: simulateWindow_def rs scale intro!: window_loop_anti)
  moreover have "n \<le> int (window_loop 0 (rd_NewSize r) 0 (rd_Timestamp r) rest)"
    using assms(2-5) by (auto simp: simulateWindow_def rs scale intro!: window_loop_anti)
  ultimately show ?thesis
    using scale [of 0] by (simp add: simulateWindow_def rs len countDirectionFlips_def CountDirectionFlips_def FlipPoints_def RescaleSizes_def)
qed

definition busy :: "rescale list" where
  "busy = [Rescale 0 2, Rescale (60 * Second) 5, Rescale (400 * Second) 3, Rescale (460 * Second) 6]"

lemma longer_window_fewer_flips_witness:
  "simulateWindow (NormalizeRescales busy) 100 = Some 1 \<and> simulateWindow (NormalizeRescales busy) 400 = Some 0 \<and> (0::int) \<le> 1"
proof -
  have e: "simulateWindow (NormalizeRescales busy) 100 = Some 1" "simulateWindow (NormalizeRescales busy) 400 = Some 0"
    by code_simp+
  from longer_window_fewer_flips [OF refl _ _ _ e] e show ?thesis by simp
qed

text \<open>Above a current window of twenty minutes the prevention analysis always tries a window beyond
  the hour the API accepts, and above ten minutes it always tries windows shorter than the current one.\<close>

theorem candidates_out_of_range:
  assumes "1200 < w" and "w \<le> 3600"
  shows "(\<exists>long \<in> set (buildCandidateWindows w). 3600 < long) \<and> (\<exists>short \<in> set (buildCandidateWindows w). short < w)"
proof -
  have "3 * w \<in> set (buildCandidateWindows w)" "300 \<in> set (buildCandidateWindows w)"
    using candidates_include [of w] assms by auto
  moreover have "3600 < 3 * w" "300 < w" using assms by simp_all
  ultimately show ?thesis by blast
qed

lemma candidates_out_of_range_witness: "\<exists>short \<in> set (buildCandidateWindows 1800). short < 1800"
  using candidates_out_of_range [of 1800] by simp

text \<open>
  What a user sees: with a half-hour window and four quick rescales the report advises
  "increasing" it to five minutes.
\<close>

definition half_hour_hpa :: "(int, string) hpa" where
  "half_hour_hpa = set_Behavior (Some \<lparr>b_ScaleUp = None, b_ScaleDown = Some
     \<lparr>r_StabilizationWindowSeconds = Some 1800, r_SelectPolicy = None, r_Policies = None, r_Tolerance = None\<rparr>\<rparr>)
     (sample_hpa 4 [])"

definition quick_events :: "hpa_event list" where
  "quick_events = [rescaled 0 ''New size: 2'', rescaled 60 ''New size: 5'', rescaled 120 ''New size: 3'',
     rescaled 180 ''New size: 6'']"

lemma increasing_to_shorter:
  "map_option (\<lambda>r. (pr_CurrentWindow r, ws_WindowSeconds (hd (pr_Recommendations r)), take 69 (pr_Summary r)))
     (AnalyzeFlappingPrevention quick_events (Some half_hour_hpa))
   = Some (1800, 300, ''2 direction flips detected with 1800s window; increasing to 300s coul'')"
  by code_simp

end
