(* ===== verification/HealthTrend.thy ===== *)
theory HealthTrend
  imports Events Durations "HOL-Library.Multiset"
begin

section \<open>Health trends\<close>

text \<open>
  Package \<open>pkg/hpa/healthtrend\<close>: the statistics, the state-flapping verdict, the anomalies and
  the drawings of a series of recorded health scores. An instant is its number of nanoseconds
  since the Unix epoch, a score a 64-bit integer. \<open>sort.Slice\<close> is not stable, so the order it
  leaves among equal instants is not determined: the sorting function is the argument \<open>srt\<close>.
  \<open>Time.Format("15:04")\<close> depends on the location a recorded instant carries, which the model
  drops: it is the argument \<open>clock\<close>.
\<close>

record health_snapshot =
  hs_Timestamp :: int
  hs_HealthScore :: int
  hs_HealthState :: string
  hs_DesiredReplicas :: int
  hs_CurrentReplicas :: int
  hs_Stabilizing :: bool

datatype anomaly_type = SuddenDegradation | StuckState | OscillationEscalation

fun anomaly_string :: "anomaly_type \<Rightarrow> string" where
  "anomaly_string SuddenDegradation = ''sudden-degradation''"
| "anomaly_string StuckState = ''stuck-state''"
| "anomaly_string OscillationEscalation = ''oscillation-escalation''"

record anomaly =
  an_Timestamp :: int
  an_Type :: anomaly_type
  an_Severity :: string
  an_ScoreBefore :: int
  an_ScoreAfter :: int
  an_Duration :: string
  an_CauseEstimate :: string
  an_Remediation :: string

record trend_result =
  tr_Snapshots :: "health_snapshot list"
  tr_Variance :: f64
  tr_MinScore :: int
  tr_MaxScore :: int
  tr_MeanScore :: f64
  tr_DegradationRate :: f64
  tr_FlappingDetected :: bool
  tr_FlappingSeverity :: string
  tr_Sparkline :: string
  tr_Anomalies :: "anomaly list"

definition empty_trend :: trend_result where
  "empty_trend = \<lparr>tr_Snapshots = [], tr_Variance = Fin 0, tr_MinScore = 0, tr_MaxScore = 0,
     tr_MeanScore = Fin 0, tr_DegradationRate = Fin 0, tr_FlappingDetected = False,
     tr_FlappingSeverity = [], tr_Sparkline = [], tr_Anomalies = []\<rparr>"

subsection \<open>Statistics\<close>

definition extractScores :: "health_snapshot list \<Rightarrow> int list" where
  "extractScores snapshots = map hs_HealthScore snapshots"

fun min_max_loop :: "int \<Rightarrow> int \<Rightarrow> int list \<Rightarrow> int \<times> int" where
  "min_max_loop lo hi [] = (lo, hi)"
| "min_max_loop lo hi (v # vs) =
     min_max_loop (if v < lo then v else lo) (if v > hi then v else hi) vs"

definition minMax :: "int list \<Rightarrow> int \<times> int" where
  "minMax xs = (case xs of [] \<Rightarrow> (0, 0) | v # vs \<Rightarrow> min_max_loop v v vs)"

definition meanValue :: "int list \<Rightarrow> f64" where
  "meanValue xs =
     (if xs = [] then Fin 0
      else f_div (f_of_int (foldl (\<lambda>s v. wrap64 (s + v)) 0 xs)) (f_of_int (int (length xs))))"

definition square_step :: "f64 \<Rightarrow> f64 \<Rightarrow> int \<Rightarrow> f64" where
  "square_step mean s v = (let diff = f_sub (f_of_int v) mean in f_add s (f_mul diff diff))"

definition varianceValue :: "int list \<Rightarrow> f64 \<Rightarrow> f64" where
  "varianceValue xs mean =
     (if length xs < 2 then Fin 0
      else f_div (foldl (square_step mean) (Fin 0) xs) (f_of_int (int (length xs))))"

definition ComputeHealthVariance :: "int list \<Rightarrow> f64" where
  "ComputeHealthVariance scores = (if scores = [] then Fin 0 else varianceValue scores (meanValue scores))"

definition unix_seconds :: "int \<Rightarrow> int" where
  "unix_seconds t = t div Second"

definition regression_step :: "int \<Rightarrow> f64 \<times> f64 \<times> f64 \<times> f64 \<Rightarrow> health_snapshot \<Rightarrow> f64 \<times> f64 \<times> f64 \<times> f64" where
  "regression_step startTime acc s =
     (case acc of (sumX, sumY, sumXY, sumX2) \<Rightarrow>
        let x = f_div (f_of_int (wrap64 (unix_seconds (hs_Timestamp s) - startTime))) (Fin 3600);
            y = f_of_int (hs_HealthScore s)
        in (f_add sumX x, f_add sumY y, f_add sumXY (f_mul x y), f_add sumX2 (f_mul x x)))"

definition computeDegradationRate :: "health_snapshot list \<Rightarrow> f64" where
  "computeDegradationRate snapshots =
     (if length snapshots < 2 then Fin 0
      else let n = f_of_int (int (length snapshots));
               startTime = unix_seconds (hs_Timestamp (hd snapshots));
               (sumX, sumY, sumXY, sumX2) =
                 foldl (regression_step startTime) (Fin 0, Fin 0, Fin 0, Fin 0) snapshots;
               denominator = f_sub (f_mul n sumX2) (f_mul sumX sumX)
           in if f_eq denominator (Fin 0) then Fin 0
              else let slope = f_div (f_sub (f_mul n sumXY) (f_mul sumX sumY)) denominator
                   in f_div (f_round (f_mul slope (Fin 100))) (Fin 100))"

subsection \<open>Flapping of the health state\<close>

fun count_transitions :: "string list \<Rightarrow> int" where
  "count_transitions (a # b # ss) = (if a \<noteq> b then 1 else 0) + count_transitions (b # ss)"
| "count_transitions _ = 0"

definition flappingMinTransitions :: int where "flappingMinTransitions = 4"
definition flappingCriticalTransitionRatio :: f64 where "flappingCriticalTransitionRatio = mk (7 / 10)"
definition flappingHighTransitionRatio :: f64 where "flappingHighTransitionRatio = Fin (1 / 2)"

definition DetectFlapping :: "health_snapshot list \<Rightarrow> bool \<times> string" where
  "DetectFlapping snapshots =
     (if length snapshots < 3 then (False, [])
      else let transitions = count_transitions (map hs_HealthState snapshots)
           in if transitions < flappingMinTransitions then (False, [])
              else let ratio = f_div (f_of_int transitions) (f_of_int (int (length snapshots) - 1))
                   in if f_lt flappingCriticalTransitionRatio ratio then (True, ''CRITICAL'')
                      else if f_lt flappingHighTransitionRatio ratio then (True, ''HIGH'')
                      else (True, ''MEDIUM''))"

subsection \<open>The sparkline\<close>

text \<open>The eight block characters, as UTF-8.\<close>

definition spark_chars :: "string list" where
  "spark_chars = map (\<lambda>c. [CHR 0xE2, CHR 0x96, c])
     [CHR 0x81, CHR 0x82, CHR 0x83, CHR 0x84, CHR 0x85, CHR 0x86, CHR 0x87, CHR 0x88]"

definition downsample_index :: "nat \<Rightarrow> int \<Rightarrow> nat \<Rightarrow> int" where
  "downsample_index n width i =
     (let step = f_div (f_of_int (int n)) (f_of_int width);
          idx = f_trunc (f_mul (f_of_int (int i)) step)
      in if idx \<ge> int n then int n - 1 else idx)"

definition downsample :: "int list \<Rightarrow> int \<Rightarrow> int list" where
  "downsample scores width =
     (if int (length scores) > width
      then map (\<lambda>i. scores ! nat (downsample_index (length scores) width i)) [0..<nat width]
      else scores)"

definition spark_index :: "int \<Rightarrow> int \<Rightarrow> int" where
  "spark_index maxVal score =
     (let idx = f_trunc (f_mul (f_div (f_of_int score) (f_of_int maxVal)) (Fin 7))
      in if idx < 0 then 0 else if idx \<ge> 8 then 7 else idx)"

definition FormatHealthSparkline :: "int list \<Rightarrow> int \<Rightarrow> string" where
  "FormatHealthSparkline scores width =
     (if scores = [] \<or> width \<le> 0 then []
      else let display = downsample scores width;
               hi = snd (minMax scores);
               maxVal = (if hi = 0 then 100 else hi)
           in concat (map (\<lambda>s. spark_chars ! nat (spark_index maxVal s)) display))"

subsection \<open>Anomalies\<close>

definition absInt :: "int \<Rightarrow> int" where
  "absInt x = (if x < 0 then wrap64 (- x) else x)"

definition formatDurationFromDuration :: "int \<Rightarrow> string" where
  "formatDurationFromDuration d = DurationCompact d"

definition sudden_anomaly :: "health_snapshot \<Rightarrow> health_snapshot \<Rightarrow> anomaly" where
  "sudden_anomaly prev cur =
     \<lparr>an_Timestamp = hs_Timestamp cur, an_Type = SuddenDegradation,
      an_Severity = (if wrap64 (hs_HealthScore prev - hs_HealthScore cur) > 40 then ''critical'' else ''warning''),
      an_ScoreBefore = hs_HealthScore prev, an_ScoreAfter = hs_HealthScore cur,
      an_Duration = formatDurationFromDuration (Sub (hs_Timestamp cur) (hs_Timestamp prev)),
      an_CauseEstimate = ''Rapid health score drop suggests a sudden metric pipeline failure, workload spike, or configuration change'',
      an_Remediation = ''Check for recent deployments, metric pipeline issues, or HPA spec changes''\<rparr>"

fun detectSuddenDegradation :: "health_snapshot list \<Rightarrow> anomaly list" where
  "detectSuddenDegradation (prev # cur # rest) =
     (let drop = wrap64 (hs_HealthScore prev - hs_HealthScore cur);
          timeDiff = Sub (hs_Timestamp cur) (hs_Timestamp prev)
      in if drop \<le> 20 then []
         else if timeDiff > 10 * Minute then []
         else [sudden_anomaly prev cur]) @ detectSuddenDegradation (cur # rest)"
| "detectSuddenDegradation _ = []"

definition stuck_anomaly :: "health_snapshot \<Rightarrow> health_snapshot \<Rightarrow> anomaly" where
  "stuck_anomaly s0 s1 =
     \<lparr>an_Timestamp = hs_Timestamp s1, an_Type = StuckState, an_Severity = ''info'',
      an_ScoreBefore = hs_HealthScore s0, an_ScoreAfter = hs_HealthScore s1,
      an_Duration = formatDurationFromDuration (Sub (hs_Timestamp s1) (hs_Timestamp s0)),
      an_CauseEstimate = ''Health score has plateaued, suggesting the HPA is in a steady state'',
      an_Remediation = ''Verify that the steady state is expected; check if scaling should be occurring but isn't''\<rparr>"

text \<open>The loop index runs to the length itself; the last round closes the open run.\<close>

function stuck_loop :: "health_snapshot list \<Rightarrow> nat \<Rightarrow> nat \<Rightarrow> anomaly list" where
  "stuck_loop snapshots runStart i =
     (if i > length snapshots then []
      else if i < length snapshots
              \<and> absInt (wrap64 (hs_HealthScore (snapshots ! i) - hs_HealthScore (snapshots ! runStart))) \<le> 2
      then stuck_loop snapshots runStart (Suc i)
      else (if int i - int runStart \<ge> 20
            then [stuck_anomaly (snapshots ! runStart) (snapshots ! (i - 1))] else [])
           @ stuck_loop snapshots i (Suc i))"
  by pat_completeness auto
termination by (relation "measure (\<lambda>(snapshots, _, i). Suc (length snapshots) - i)") auto

declare stuck_loop.simps [simp del]

definition detectStuckState :: "health_snapshot list \<Rightarrow> anomaly list" where
  "detectStuckState snapshots = (if length snapshots < 20 then [] else stuck_loop snapshots 0 1)"

definition buildOscillationAnomaly :: "health_snapshot list \<Rightarrow> anomaly" where
  "buildOscillationAnomaly snapshots =
     (let first = snapshots ! (length snapshots - 10); last = snapshots ! (length snapshots - 1)
      in \<lparr>an_Timestamp = hs_Timestamp last, an_Type = OscillationEscalation, an_Severity = ''warning'',
          an_ScoreBefore = hs_HealthScore first, an_ScoreAfter = hs_HealthScore last,
          an_Duration = formatDurationFromDuration (Sub (hs_Timestamp last) (hs_Timestamp first)),
          an_CauseEstimate = ''Health score oscillation is increasing, suggesting growing instability'',
          an_Remediation = ''Review HPA behavior configuration, consider increasing stabilization window''\<rparr>)"

definition detectOscillationEscalation :: "health_snapshot list \<Rightarrow> anomaly list" where
  "detectOscillationEscalation snapshots =
     (if length snapshots < 20 then []
      else let n = length snapshots;
               prevScores = extractScores (take 10 (drop (n - 20) snapshots));
               recentScores = extractScores (drop (n - 10) snapshots);
               prevVar = varianceValue prevScores (meanValue prevScores);
               recentVar = varianceValue recentScores (meanValue recentScores)
           in if f_eq prevVar (Fin 0)
              then (if f_lt (Fin 0) recentVar then [buildOscillationAnomaly snapshots] else [])
              else if f_lt (f_mul prevVar (Fin 2)) recentVar then [buildOscillationAnomaly snapshots]
              else [])"

definition DetectAnomalies :: "health_snapshot list \<Rightarrow> anomaly list" where
  "DetectAnomalies snapshots =
     (if length snapshots < 5 then []
      else detectSuddenDegradation snapshots @ detectStuckState snapshots
           @ detectOscillationEscalation snapshots)"

subsection \<open>The analysis\<close>

definition AnalyzeHealthTrend :: "(health_snapshot list \<Rightarrow> health_snapshot list) \<Rightarrow> health_snapshot list \<Rightarrow> trend_result" where
  "AnalyzeHealthTrend srt snapshots =
     (if snapshots = [] then empty_trend
      else let sorted = srt snapshots;
               scores = extractScores sorted;
               mean = meanValue scores;
               flap = DetectFlapping sorted
           in \<lparr>tr_Snapshots = sorted, tr_Variance = varianceValue scores mean,
               tr_MinScore = fst (minMax scores), tr_MaxScore = snd (minMax scores),
               tr_MeanScore = mean, tr_DegradationRate = computeDegradationRate sorted,
               tr_FlappingDetected = fst flap, tr_FlappingSeverity = snd flap,
               tr_Sparkline = FormatHealthSparkline scores 15,
               tr_Anomalies = DetectAnomalies sorted\<rparr>)"

subsection \<open>Statistics of a trend\<close>

definition is_time_sort :: "(health_snapshot list \<Rightarrow> health_snapshot list) \<Rightarrow> bool" where
  "is_time_sort srt \<longleftrightarrow> (\<forall>xs. mset (srt xs) = mset xs \<and> sorted (map hs_Timestamp (srt xs)))"

lemma is_time_sortD:
  assumes "is_time_sort srt"
  shows "mset (srt xs) = mset xs" "set (srt xs) = set xs" "length (srt xs) = length xs"
    "sorted (map hs_Timestamp (srt xs))" "srt xs = [] \<longleftrightarrow> xs = []"
proof -
  show m: "mset (srt xs) = mset xs" and "sorted (map hs_Timestamp (srt xs))"
    using assms by (simp_all add: is_time_sort_def)
  from m show "set (srt xs) = set xs" by (rule mset_eq_setD)
  from m show l: "length (srt xs) = length xs" by (rule mset_eq_length)
  from l show "srt xs = [] \<longleftrightarrow> xs = []" by (metis length_0_conv)
qed

lemma is_time_sort_key [simp]: "is_time_sort (sort_key hs_Timestamp)"
  by (simp add: is_time_sort_def)

lemma min_max_loop_eq:
  "lo \<le> hi \<Longrightarrow> min_max_loop lo hi vs = (Min (insert lo (set vs)), Max (insert hi (set vs)))"
proof (induction vs arbitrary: lo hi)
  case (Cons v vs)
  have "min_max_loop lo hi (v # vs) = min_max_loop (min lo v) (max hi v) vs"
    by (simp add: min_def max_def)
  also have "\<dots> = (Min (insert (min lo v) (set vs)), Max (insert (max hi v) (set vs)))"
    using Cons.prems by (intro Cons.IH) auto
  also have "\<dots> = (Min (insert lo (set (v # vs))), Max (insert hi (set (v # vs))))"
    by (cases "set vs = {}") (simp_all add: min.assoc max.assoc)
  finally show ?case .
qed simp

lemma minMax_eq: "xs \<noteq> [] \<Longrightarrow> minMax xs = (Min (set xs), Max (set xs))"
  by (cases xs) (simp_all add: minMax_def min_max_loop_eq)

lemma foldl_wrap_sum:
  assumes "\<forall>v\<in>set xs. \<bar>v\<bar> \<le> B" and "0 \<le> B" and "\<bar>s\<bar> + int (length xs) * B \<le> max_int64"
  shows "foldl (\<lambda>s v. wrap64 (s + v)) s xs = s + sum_list xs"
  using assms
proof (induction xs arbitrary: s)
  case (Cons v vs)
  have v: "\<bar>v\<bar> \<le> B" using Cons.prems by simp
  have e: "int (length (v # vs)) * B = B + int (length vs) * B" by (simp add: algebra_simps)
  have p: "0 \<le> int (length vs) * B" using Cons.prems by simp
  have "in64 (s + v)" unfolding in64_def using v e p Cons.prems(3) by linarith
  moreover have "foldl (\<lambda>s v. wrap64 (s + v)) (s + v) vs = s + v + sum_list vs"
    using Cons.prems v e by (intro Cons.IH) auto
  ultimately show ?case by simp
qed simp

lemma sum_list_bounds:
  fixes xs :: "int list"
  assumes "\<forall>v\<in>set xs. a \<le> v \<and> v \<le> b"
  shows "int (length xs) * a \<le> sum_list xs \<and> sum_list xs \<le> int (length xs) * b"
  using assms by (induction xs) (auto simp: algebra_simps)

text \<open>Scores and lengths for which the integer sum is exact as a double.\<close>

definition trend_input_ok :: "int list \<Rightarrow> bool" where
  "trend_input_ok xs \<longleftrightarrow> (\<forall>v\<in>set xs. \<bar>v\<bar> \<le> 1000000) \<and> length xs \<le> 1000000000"

lemma mean_between:
  assumes ok: "trend_input_ok xs" and ne: "xs \<noteq> []" and lo: "\<forall>v\<in>set xs. a \<le> v" and hi: "\<forall>v\<in>set xs. v \<le> b"
    and small: "\<bar>a\<bar> \<le> 1000000" "\<bar>b\<bar> \<le> 1000000"
  obtains m where "meanValue xs = Fin m" "of_int a \<le> m" "m \<le> of_int b"
proof -
  let ?n = "int (length xs)" and ?s = "sum_list xs"
  have n: "0 < ?n" "?n \<le> 1000000000" using ok ne by (simp_all add: trend_input_ok_def)
  have B: "\<forall>v\<in>set xs. - 1000000 \<le> v \<and> v \<le> 1000000" using ok by (auto simp: trend_input_ok_def)
  have s: "\<bar>?s\<bar> \<le> 9007199254740992" using sum_list_bounds [OF B] n by linarith
  have fold: "foldl (\<lambda>s v. wrap64 (s + v)) 0 xs = ?s"
    using foldl_wrap_sum [of xs 1000000 0] ok n by (simp add: trend_input_ok_def)
  have ab: "?n * a \<le> ?s \<and> ?s \<le> ?n * b" using lo hi by (intro sum_list_bounds) auto
  have "(of_int (?n * a) :: rat) \<le> of_int ?s" "(of_int ?s :: rat) \<le> of_int (?n * b)"
    using ab by (simp_all only: of_int_le_iff)
  then have q: "of_int a \<le> (of_int ?s / of_int ?n :: rat)" "(of_int ?s / of_int ?n :: rat) \<le> of_int b"
    using n by (simp_all add: pos_le_divide_eq pos_divide_le_eq mult.commute)
  have "\<bar>of_int ?s / of_int ?n :: rat\<bar> \<le> of_int 9007199254740992"
  proof -
    have "(- 1000000 :: rat) \<le> of_int a" "(of_int b :: rat) \<le> 1000000" using small by linarith+
    then show ?thesis using q by simp
  qed
  then have "mk (of_int ?s / of_int ?n) = Fin (rnd (of_int ?s / of_int ?n))" by (rule mk_small)
  moreover have "meanValue xs = mk (of_int ?s / of_int ?n)"
    using ne n s by (simp add: meanValue_def fold)
  moreover have "of_int a \<le> rnd (of_int ?s / of_int ?n)" using q small by (intro rnd_ge_int) auto
  moreover have "rnd (of_int ?s / of_int ?n) \<le> of_int b" using q small by (intro rnd_le_int) auto
  ultimately show ?thesis using that by simp
qed

definition f_nonneg :: "f64 \<Rightarrow> bool" where
  "f_nonneg a \<longleftrightarrow> (case a of Fin x \<Rightarrow> 0 \<le> x | PInf \<Rightarrow> True | _ \<Rightarrow> False)"

lemma mk_f_nonneg: "0 \<le> x \<Longrightarrow> f_nonneg (mk x)"
  by (erule mk_nonneg_cases) (simp_all add: f_nonneg_def)

lemma f_nonneg_add: "f_nonneg a \<Longrightarrow> f_nonneg b \<Longrightarrow> f_nonneg (f_add a b)"
  by (cases a; cases b) (auto simp: f_nonneg_def mk_f_nonneg [unfolded f_nonneg_def])

lemma f_nonneg_square: "a \<noteq> NaN \<Longrightarrow> f_nonneg (f_mul a a)"
  by (cases a) (auto simp: f_nonneg_def inf_of_sign_def intro: mk_f_nonneg [unfolded f_nonneg_def])

lemma mk_not_nan: "mk x \<noteq> NaN"
  by (simp add: mk_def Let_def)

lemma f_nonneg_div: "f_nonneg a \<Longrightarrow> 0 < y \<Longrightarrow> f_nonneg (f_div a (Fin y))"
  by (cases a) (auto simp: f_nonneg_def intro: mk_f_nonneg [unfolded f_nonneg_def])

lemma variance_nonneg:
  assumes "length xs \<le> 1000000000"
  shows "f_nonneg (varianceValue xs (Fin m))"
proof -
  have step: "f_nonneg (square_step (Fin m) s v)" if "f_nonneg s" for s v
  proof -
    have "f_sub (f_of_int v) (Fin m) \<noteq> NaN"
      using mk_not_nan [of "of_int v"]
      by (cases "mk (of_int v)") (auto simp: f_sub_def f_neg_def f_of_int_def mk_not_nan)
    then show ?thesis using that by (simp add: square_step_def Let_def f_nonneg_add f_nonneg_square)
  qed
  have "f_nonneg (foldl (square_step (Fin m)) s xs)" if "f_nonneg s" for s
    using that by (induction xs arbitrary: s) (simp_all add: step)
  then show ?thesis using assms
    by (auto simp: varianceValue_def f_nonneg_def [of "Fin 0"] intro!: f_nonneg_div)
qed

text \<open>C38. The statistics of a trend describe the recorded scores whatever the sorting algorithm does
  with equal instants: the snapshots are those given, in time order, the minimum and the maximum
  are attained, the mean is a finite number between them and the variance is a non-negative
  number.\<close>

theorem trend_statistics:
  assumes "is_time_sort srt" and "snapshots \<noteq> []" and "trend_input_ok (map hs_HealthScore snapshots)"
  shows "let r = AnalyzeHealthTrend srt snapshots; scores = set (map hs_HealthScore snapshots)
         in mset (tr_Snapshots r) = mset snapshots \<and> sorted (map hs_Timestamp (tr_Snapshots r))
          \<and> tr_MinScore r = Min scores \<and> tr_MaxScore r = Max scores
          \<and> f_le (f_of_int (tr_MinScore r)) (tr_MeanScore r) \<and> f_le (tr_MeanScore r) (f_of_int (tr_MaxScore r))
          \<and> f_nonneg (tr_Variance r)"
proof -
  let ?xs = "map hs_HealthScore (srt snapshots)"
  note srt = is_time_sortD [OF assms(1), of snapshots]
  have ne: "?xs \<noteq> []" using srt(5) assms(2) by simp
  have set: "set ?xs = set (map hs_HealthScore snapshots)" using srt(2) by simp
  have ok: "trend_input_ok ?xs" using assms(3) srt by (simp add: trend_input_ok_def)
  have in_set: "Min (set ?xs) \<in> set ?xs" "Max (set ?xs) \<in> set ?xs" using ne by (intro Min_in Max_in; simp)+
  then have small: "\<bar>Min (set ?xs)\<bar> \<le> 1000000" "\<bar>Max (set ?xs)\<bar> \<le> 1000000"
    using ok unfolding trend_input_ok_def by blast+
  obtain m where m: "meanValue ?xs = Fin m" "of_int (Min (set ?xs)) \<le> m" "m \<le> of_int (Max (set ?xs))"
    using mean_between [OF ok ne _ _ small] by auto
  have r: "tr_Snapshots (AnalyzeHealthTrend srt snapshots) = srt snapshots"
    "tr_MinScore (AnalyzeHealthTrend srt snapshots) = Min (set ?xs)"
    "tr_MaxScore (AnalyzeHealthTrend srt snapshots) = Max (set ?xs)"
    "tr_MeanScore (AnalyzeHealthTrend srt snapshots) = Fin m"
    "tr_Variance (AnalyzeHealthTrend srt snapshots) = varianceValue ?xs (Fin m)"
    using assms(2) ne m(1) by (simp_all add: AnalyzeHealthTrend_def extractScores_def minMax_eq Let_def)
  have f: "f_of_int (Min (set ?xs)) = Fin (of_int (Min (set ?xs)))"
    "f_of_int (Max (set ?xs)) = Fin (of_int (Max (set ?xs)))" using small by (intro f_of_int_exact; simp)+
  have v: "f_nonneg (varianceValue ?xs (Fin m))" using ok by (intro variance_nonneg) (simp add: trend_input_ok_def)
  have le: "f_le (Fin (of_int (Min (set ?xs)))) (Fin m)" "f_le (Fin m) (Fin (of_int (Max (set ?xs))))"
    using m(2,3) by (auto simp: f_le_def f_eq_def)
  show ?thesis unfolding Let_def r f using srt(1,4) v le set by simp
qed

definition sample_snapshot :: "int \<Rightarrow> int \<Rightarrow> string \<Rightarrow> health_snapshot" where
  "sample_snapshot t score state =
     \<lparr>hs_Timestamp = t, hs_HealthScore = score, hs_HealthState = state,
      hs_DesiredReplicas = 3, hs_CurrentReplicas = 3, hs_Stabilizing = False\<rparr>"

theorem trend_statistics_witness:
  "let r = AnalyzeHealthTrend (sort_key hs_Timestamp) [sample_snapshot 5 90 ''OK'', sample_snapshot 1 40 ''LIMITED'']
   in tr_MinScore r = 40 \<and> tr_MaxScore r = 90 \<and> f_nonneg (tr_Variance r)"
proof -
  have "trend_input_ok (map hs_HealthScore [sample_snapshot 5 90 ''OK'', sample_snapshot 1 40 ''LIMITED''])"
    by (simp add: trend_input_ok_def sample_snapshot_def)
  from trend_statistics [OF is_time_sort_key _ this]
  show ?thesis by (simp add: Let_def sample_snapshot_def)
qed

subsection \<open>The flapping thresholds\<close>

lemma count_transitions_bounds: "0 \<le> count_transitions ss \<and> count_transitions ss \<le> max 0 (int (length ss) - 1)"
  by (induction ss rule: count_transitions.induct) auto

lemma count_transitions_eq:
  "count_transitions ss = int (card {i. Suc i < length ss \<and> ss ! i \<noteq> ss ! Suc i})"
proof (induction ss rule: count_transitions.induct)
  case (1 a b ss)
  let ?P = "\<lambda>i xs. Suc i < length xs \<and> xs ! i \<noteq> xs ! Suc i"
  have split: "{i. ?P i (a # b # ss)} = (if a \<noteq> b then {0} else {}) \<union> Suc ` {i. ?P i (b # ss)}"
  proof (rule set_eqI)
    fix i
    show "i \<in> {i. ?P i (a # b # ss)} \<longleftrightarrow> i \<in> (if a \<noteq> b then {0} else {}) \<union> Suc ` {i. ?P i (b # ss)}"
      by (cases i) auto
  qed
  have fin: "finite {i. ?P i (b # ss)}" by (rule finite_subset [of _ "{..<length (b # ss)}"]) auto
  have "card {i. ?P i (a # b # ss)} = (if a \<noteq> b then 1 else 0) + card {i. ?P i (b # ss)}"
    unfolding split using fin by (subst card_Un_disjoint) (auto simp: card_image)
  with 1 show ?case by simp
qed simp_all

text \<open>A quotient of integers of moderate size exceeds a tenth exactly when its double does.\<close>

lemma rnd_quotient_gt:
  fixes t n :: int and k :: int
  assumes n: "0 < n" "n \<le> 1000000000" and gap: "rnd (of_int k / 10) < rnd (of_int k / 10 + 1 / 10000000000)"
  shows "rnd (of_int k / 10) < rnd (of_int t / of_int n) \<longleftrightarrow> k * n < 10 * t"
proof
  assume "k * n < 10 * t"
  then have "k * n + 1 \<le> 10 * t" by simp
  then have "(of_int (k * n + 1) :: rat) \<le> of_int (10 * t)" by (simp only: of_int_le_iff)
  then have "(of_int k * of_int n + 1 :: rat) / (10 * of_int n) \<le> 10 * of_int t / (10 * of_int n)"
    using n by (intro divide_right_mono) simp_all
  then have "of_int k / 10 + 1 / (10 * of_int n) \<le> (of_int t / of_int n :: rat)"
    using n by (simp add: add_divide_distrib)
  moreover have "(1 / 10000000000 :: rat) \<le> 1 / (10 * of_int n)"
    using n by (intro divide_left_mono) simp_all
  ultimately have "of_int k / 10 + 1 / 10000000000 \<le> (of_int t / of_int n :: rat)" by linarith
  from rnd_mono [OF this] gap show "rnd (of_int k / 10) < rnd (of_int t / of_int n)" by linarith
next
  assume l: "rnd (of_int k / 10) < rnd (of_int t / of_int n)"
  show "k * n < 10 * t"
  proof (rule ccontr)
    assume "\<not> k * n < 10 * t"
    then have "10 * t \<le> k * n" by simp
    then have "(of_int (10 * t) :: rat) \<le> of_int (k * n)" by (simp only: of_int_le_iff)
    then have "(of_int t / of_int n :: rat) \<le> of_int k / 10" using n by (simp add: pos_divide_le_eq)
    from rnd_mono [OF this] l show False by linarith
  qed
qed

lemma gap_tenths:
  "rnd (of_int 7 / 10) < rnd (of_int 7 / 10 + 1 / 10000000000)"
  "rnd (of_int 5 / 10) < rnd (of_int 5 / 10 + 1 / 10000000000)"
  "mk (7 / 10) = Fin (rnd (7 / 10))" "rnd (1 / 2) = 1 / 2"
  by code_simp+

text \<open>The state-flapping verdict in exact arithmetic: with \<open>t\<close> changes of state among the
  neighbouring pairs of \<open>n + 1\<close> snapshots there is a verdict exactly when \<open>t\<close> is at least 4 (and
  there are at least three snapshots), CRITICAL above seven tenths of the pairs, HIGH above half of
  them and MEDIUM otherwise; the doubles the ratio is computed in do not blur the thresholds.\<close>

theorem flapping_verdict:
  assumes "length snapshots \<le> 1000000000"
  shows "DetectFlapping snapshots =
    (let states = map hs_HealthState snapshots;
         t = int (card {i. Suc i < length states \<and> states ! i \<noteq> states ! Suc i});
         n = int (length snapshots) - 1
     in if t < 4 then (False, [])
        else (True, if 7 * n < 10 * t then ''CRITICAL'' else if n < 2 * t then ''HIGH'' else ''MEDIUM''))"
proof -
  let ?states = "map hs_HealthState snapshots" and ?n = "int (length snapshots) - 1"
  define t where "t = count_transitions ?states"
  have t: "0 \<le> t" "t \<le> max 0 ?n" using count_transitions_bounds [of ?states] by (simp_all add: t_def)
  show ?thesis
  proof (cases "t < 4")
    case True
    then show ?thesis by (simp add: DetectFlapping_def flappingMinTransitions_def Let_def count_transitions_eq [symmetric] t_def [symmetric])
  next
    case False
    then have len: "\<not> length snapshots < 3" and n: "0 < ?n" "?n \<le> 1000000000" using t assms by linarith+
    have tn: "\<bar>t\<bar> \<le> 9007199254740992" "\<bar>?n\<bar> \<le> 9007199254740992" using t n by linarith+
    have q: "\<bar>of_int t / of_int ?n :: rat\<bar> \<le> of_int 9007199254740992"
    proof -
      have "(of_int t :: rat) \<le> of_int ?n" using t n by simp
      then have "(of_int t / of_int ?n :: rat) \<le> 1" using n by (simp add: pos_divide_le_eq)
      moreover have "(0::rat) \<le> of_int t / of_int ?n" using t n by simp
      ultimately show ?thesis by (simp only: abs_of_nonneg)
    qed
    have ratio: "f_div (f_of_int t) (f_of_int ?n) = Fin (rnd (of_int t / of_int ?n))"
      using n tn mk_small [OF q] by simp
    have "f_lt flappingCriticalTransitionRatio (Fin (rnd (of_int t / of_int ?n))) \<longleftrightarrow> 7 * ?n < 10 * t"
      using rnd_quotient_gt [OF n gap_tenths(1), of t] by (simp add: flappingCriticalTransitionRatio_def gap_tenths(3))
    moreover have "f_lt flappingHighTransitionRatio (Fin (rnd (of_int t / of_int ?n))) \<longleftrightarrow> ?n < 2 * t"
      using rnd_quotient_gt [OF n gap_tenths(2), of t] by (simp add: flappingHighTransitionRatio_def gap_tenths(4)) linarith
    ultimately show ?thesis using False len
      by (simp add: DetectFlapping_def flappingMinTransitions_def Let_def count_transitions_eq [symmetric]
          t_def [symmetric] ratio)
  qed
qed

theorem flapping_verdict_witness:
  "DetectFlapping (map (sample_snapshot 0 50) [''OK'', ''LIMITED'', ''OK'', ''LIMITED'', ''OK'']) = (True, ''CRITICAL'')
   \<and> DetectFlapping (map (sample_snapshot 0 50) [''OK'', ''LIMITED'', ''OK'']) = (False, [])"
proof -
  let ?s = "map (sample_snapshot 0 50) [''OK'', ''LIMITED'', ''OK'', ''LIMITED'', ''OK'']"
    and ?r = "map (sample_snapshot 0 50) [''OK'', ''LIMITED'', ''OK'']"
  have c: "int (card {i. Suc i < length ss \<and> ss ! i \<noteq> ss ! Suc i}) = count_transitions ss" for ss :: "string list"
    by (simp add: count_transitions_eq)
  show ?thesis
    using flapping_verdict [of ?s] flapping_verdict [of ?r] unfolding Let_def c by (simp add: sample_snapshot_def)
qed

subsection \<open>Plateaus\<close>

text \<open>A plateau starts at a snapshot and goes on while the score stays within two of its first one.\<close>

definition near_score :: "health_snapshot \<Rightarrow> health_snapshot \<Rightarrow> bool" where
  "near_score s0 s \<longleftrightarrow> \<bar>hs_HealthScore s - hs_HealthScore s0\<bar> \<le> 2"

function plateaus :: "health_snapshot list \<Rightarrow> health_snapshot list list" where
  "plateaus [] = []"
| "plateaus (s # ss) = (s # takeWhile (near_score s) ss) # plateaus (dropWhile (near_score s) ss)"
  by pat_completeness auto
termination by (relation "measure length") (auto simp: le_imp_less_Suc length_dropWhile_le)

definition plateau_anomaly :: "health_snapshot list \<Rightarrow> anomaly list" where
  "plateau_anomaly r = (if 20 \<le> length r then [stuck_anomaly (hd r) (last r)] else [])"

lemma concat_plateaus: "concat (plateaus ss) = ss"
  by (induction ss rule: plateaus.induct) simp_all

lemma plateaus_unfold:
  assumes "i < j" "j \<le> length ss"
    and near: "\<forall>k. i < k \<and> k < j \<longrightarrow> near_score (ss ! i) (ss ! k)"
    and stop: "j = length ss \<or> \<not> near_score (ss ! i) (ss ! j)"
  shows "plateaus (drop i ss) = take (j - i) (drop i ss) # plateaus (drop j ss)"
proof -
  let ?t = "drop (Suc i) ss" and ?m = "j - Suc i"
  have d: "drop i ss = ss ! i # ?t" using assms(1,2) by (simp add: Cons_nth_drop_Suc)
  have all: "\<forall>x\<in>set (take ?m ?t). near_score (ss ! i) x"
    using near assms(1,2) by (auto simp: set_conv_nth)
  have stop': "drop ?m ?t = [] \<or> \<not> near_score (ss ! i) (hd (drop ?m ?t))"
    using stop assms(1,2) by (auto simp: hd_drop_conv_nth)
  have "takeWhile (near_score (ss ! i)) (take ?m ?t @ drop ?m ?t) = take ?m ?t"
    "dropWhile (near_score (ss ! i)) (take ?m ?t @ drop ?m ?t) = drop ?m ?t"
    using all stop' by (cases "drop ?m ?t"; simp add: takeWhile_append2 dropWhile_append2)+
  then have "takeWhile (near_score (ss ! i)) ?t = take ?m ?t" "dropWhile (near_score (ss ! i)) ?t = drop ?m ?t"
    by (simp_all only: append_take_drop_id)
  moreover have "take (j - i) (drop i ss) = ss ! i # take ?m ?t"
    using assms(1) by (simp add: d Suc_diff_Suc flip: take_Suc_Cons)
  moreover have "drop ?m ?t = drop j ss" using assms(1) by simp
  ultimately show ?thesis by (simp add: d)
qed

definition score_ok :: "health_snapshot \<Rightarrow> bool" where
  "score_ok s \<longleftrightarrow> \<bar>hs_HealthScore s\<bar> \<le> 1000000"

lemma near_score_machine:
  assumes "score_ok s0" "score_ok s"
  shows "absInt (wrap64 (hs_HealthScore s - hs_HealthScore s0)) \<le> 2 \<longleftrightarrow> near_score s0 s"
proof -
  have "in64 (hs_HealthScore s - hs_HealthScore s0)" "in64 (- (hs_HealthScore s - hs_HealthScore s0))"
    using assms unfolding in64_def score_ok_def by linarith+
  then show ?thesis by (auto simp: absInt_def near_score_def)
qed

lemma stuck_loop_plateaus:
  assumes "\<forall>s\<in>set ss. score_ok s" and "i \<le> length ss" and "run < i"
    and "\<forall>k. run < k \<and> k < i \<longrightarrow> near_score (ss ! run) (ss ! k)"
  shows "stuck_loop ss run i = concat (map plateau_anomaly (plateaus (drop run ss)))"
  using assms
proof (induction ss run i rule: stuck_loop.induct)
  case (1 ss run i)
  have ok: "score_ok (ss ! run)" "i < length ss \<Longrightarrow> score_ok (ss ! i)" using 1(3,4,5) by simp_all
  show ?case
  proof (cases "i < length ss \<and> near_score (ss ! run) (ss ! i)")
    case True
    then have "stuck_loop ss run i = stuck_loop ss run (Suc i)"
      using ok by (subst stuck_loop.simps) (simp add: near_score_machine)
    also have "\<dots> = concat (map plateau_anomaly (plateaus (drop run ss)))"
      using True 1(3,5,6) ok by (intro 1(1)) (auto simp: near_score_machine less_Suc_eq)
    finally show ?thesis .
  next
    case False
    let ?r = "take (i - run) (drop run ss)"
    have p: "plateaus (drop run ss) = ?r # plateaus (drop i ss)"
      using 1(4-6) False by (intro plateaus_unfold) auto
    have r: "length ?r = i - run" "hd ?r = ss ! run" "last ?r = ss ! (i - 1)"
      using 1(4,5) by (simp_all add: hd_drop_conv_nth last_conv_nth)
    have rest: "stuck_loop ss i (Suc i) = concat (map plateau_anomaly (plateaus (drop i ss)))"
    proof (cases "i = length ss")
      case True
      then show ?thesis by (subst stuck_loop.simps) simp
    next
      case ne: False
      show ?thesis using ne False 1(3,4) ok by (intro 1(2)) (auto simp: near_score_machine)
    qed
    have "stuck_loop ss run i = (if int i - int run \<ge> 20 then [stuck_anomaly (ss ! run) (ss ! (i - 1))] else [])
        @ stuck_loop ss i (Suc i)"
      using False ok 1(4) by (subst stuck_loop.simps) (auto simp: near_score_machine)
    moreover have "plateau_anomaly ?r = (if int i - int run \<ge> 20 then [stuck_anomaly (ss ! run) (ss ! (i - 1))] else [])"
      using 1(5) unfolding plateau_anomaly_def r by auto
    ultimately show ?thesis by (simp only: p rest list.map concat.simps)
  qed
qed

text \<open>The index loop that looks for a stuck health score implements the declarative reading:
  cut the series greedily into plateaus, each as long as its scores stay within two points of its
  first one, and report those of at least 20 snapshots, with their first and last score, in order.\<close>

theorem stuck_state_refines:
  assumes "\<forall>s\<in>set snapshots. score_ok s"
  shows "detectStuckState snapshots =
    map (\<lambda>r. stuck_anomaly (hd r) (last r)) (filter (\<lambda>r. 20 \<le> length r) (plateaus snapshots))"
proof (cases "length snapshots < 20")
  case True
  have "length r < 20" if "r \<in> set (plateaus snapshots)" for r
  proof -
    have "length r \<le> length (concat (plateaus snapshots))"
      using that unfolding length_concat by (intro member_le_sum_list) auto
    with True show ?thesis by (simp add: concat_plateaus)
  qed
  then have "filter (\<lambda>r. 20 \<le> length r) (plateaus snapshots) = []" by (auto simp: filter_empty_conv not_le)
  with True show ?thesis by (simp add: detectStuckState_def)
next
  case False
  have "concat (map plateau_anomaly rs) = map (\<lambda>r. stuck_anomaly (hd r) (last r)) (filter (\<lambda>r. 20 \<le> length r) rs)" for rs
    by (induction rs) (simp_all add: plateau_anomaly_def)
  note merge = this
  have "stuck_loop snapshots 0 1 = concat (map plateau_anomaly (plateaus (drop 0 snapshots)))"
    using False by (intro stuck_loop_plateaus [OF assms]) auto
  with False show ?thesis by (simp add: detectStuckState_def merge)
qed

theorem stuck_state_refines_witness:
  "detectStuckState (replicate 20 (sample_snapshot 7 50 ''OK'') @ [sample_snapshot 8 60 ''OK''])
     = [stuck_anomaly (sample_snapshot 7 50 ''OK'') (sample_snapshot 7 50 ''OK'')]"
proof -
  have "\<forall>s\<in>set (replicate 20 (sample_snapshot 7 50 ''OK'') @ [sample_snapshot 8 60 ''OK'']). score_ok s"
    by (simp add: score_ok_def sample_snapshot_def)
  from stuck_state_refines [OF this] show ?thesis
    by (simp add: numeral_eq_Suc near_score_def sample_snapshot_def)
qed

end
