(* ===== verification/HealthGraph.thy ===== *)
theory HealthGraph
  imports HealthTrend
begin

section \<open>Drawing a health trend\<close>

text \<open>
  \<open>healthtrend/graph.go\<close> and \<open>healthtrend/text.go\<close>. A line of runes is a list of cells, each the
  UTF-8 bytes of one rune. An index outside a slice is a panic, the value \<^const>\<open>None\<close>. The set of
  anomaly indices is the list of the indices put into it.
\<close>

definition graphYSteps :: int where "graphYSteps = 5"
definition graphAnomalyWindow :: int where "graphAnomalyWindow = 1"

definition cross_char :: string where "cross_char = [CHR 0xE2, CHR 0x95, CHR 0xB3]"
definition dot_char :: string where "dot_char = [CHR 0xE2, CHR 0x80, CHR 0xA2]"

definition snapshot_column :: "nat \<Rightarrow> int \<Rightarrow> nat \<Rightarrow> int" where
  "snapshot_column n width i =
     (let ratio = f_div (f_of_int (int i)) (f_of_int (int n - 1));
          col = f_trunc (f_round (f_mul ratio (f_of_int width)))
      in if col \<ge> width then width - 1 else col)"

definition mapSnapshotsToColumns :: "health_snapshot list \<Rightarrow> int \<Rightarrow> int list" where
  "mapSnapshotsToColumns snapshots width =
     (if length snapshots = 1 then [quot width 2]
      else map (snapshot_column (length snapshots) width) [0..<length snapshots])"

definition row_threshold :: "int \<Rightarrow> int" where
  "row_threshold yMax = (let threshold = yMax - quot 100 graphYSteps in if threshold < 0 then 0 else threshold)"

definition in_band :: "int \<Rightarrow> int \<Rightarrow> int \<Rightarrow> bool" where
  "in_band threshold yMax score \<longleftrightarrow> score > threshold \<and> score \<le> yMax"

text \<open>One data point: columns outside the line are skipped.\<close>

definition plot_point :: "int list \<Rightarrow> int \<Rightarrow> int \<Rightarrow> int \<Rightarrow> string list \<Rightarrow> nat \<times> int \<times> health_snapshot \<Rightarrow> string list" where
  "plot_point anomalyIndices threshold yMax width line p =
     (case p of (idx, col, snapshot) \<Rightarrow>
        if col < 0 \<or> col \<ge> width then line
        else if in_band threshold yMax (hs_HealthScore snapshot)
             then line[nat col := (if int idx \<in> set anomalyIndices then cross_char else dot_char)]
             else line)"

definition fill_cell :: "int \<Rightarrow> string list \<Rightarrow> int \<Rightarrow> string list" where
  "fill_cell width line c =
     (if c \<ge> 0 \<and> c < width \<and> line ! nat c = '' '' then line[nat c := dash_char] else line)"

fun connectAdjacentPoints :: "int \<Rightarrow> int \<Rightarrow> int \<Rightarrow> (int \<times> health_snapshot) list \<Rightarrow> string list \<Rightarrow> string list" where
  "connectAdjacentPoints threshold yMax width ((colI, si) # (colJ, sj) # rest) line =
     (let inBandI = in_band threshold yMax (hs_HealthScore si);
          inBandJ = in_band threshold yMax (hs_HealthScore sj);
          line' = (if \<not> inBandI \<and> \<not> inBandJ then line
                   else if colJ - colI \<le> 1 then line
                   else if inBandI \<and> inBandJ then foldl (fill_cell width) line [colI + 1..colJ - 1]
                   else line)
      in connectAdjacentPoints threshold yMax width ((colJ, sj) # rest) line')"
| "connectAdjacentPoints threshold yMax width _ line = line"

definition graph_cells :: "health_snapshot list \<Rightarrow> int list \<Rightarrow> int list \<Rightarrow> int \<Rightarrow> int \<Rightarrow> string list" where
  "graph_cells snapshots columns anomalyIndices yMax width =
     (let threshold = row_threshold yMax;
          line = foldl (plot_point anomalyIndices threshold yMax width) (replicate (nat width) '' '')
                   (zip [0..<length snapshots] (zip columns snapshots))
      in connectAdjacentPoints threshold yMax width (zip columns snapshots) line)"

definition renderGraphRow :: "health_snapshot list \<Rightarrow> int list \<Rightarrow> int list \<Rightarrow> int \<Rightarrow> int \<Rightarrow> string" where
  "renderGraphRow snapshots columns anomalyIndices yMax width =
     pad_field 3 (show_int yMax) @ '' '' @ bar_char @ concat (graph_cells snapshots columns anomalyIndices yMax width)"

definition evenlySpacedIndices :: "nat \<Rightarrow> int \<Rightarrow> int list" where
  "evenlySpacedIndices n cnt =
     (if int n \<le> cnt then [0..int n - 1]
      else map (\<lambda>i. f_trunc (f_div (f_mul (f_of_int i) (f_of_int (int n - 1))) (f_of_int (cnt - 1)))) [0..cnt - 1])"

definition place_label :: "string \<Rightarrow> int \<Rightarrow> int \<Rightarrow> string list \<Rightarrow> string list" where
  "place_label ts col width cells =
     (let n = int (length ts);
          start = col - quot n 2;
          start = (if start < 0 then 0 else start);
          start = (if start + n > width then width - n else start)
      in foldl (\<lambda>cs (j, r). let pos = start + int j
                 in if pos \<ge> 0 \<and> pos < width then cs[nat pos := [r]] else cs)
           cells (zip [0..<length ts] ts))"

fun place_labels :: "(int \<Rightarrow> string) \<Rightarrow> health_snapshot list \<Rightarrow> int list \<Rightarrow> int \<Rightarrow> int list \<Rightarrow> string list \<Rightarrow> string list option" where
  "place_labels clock snapshots columns width [] cells = Some cells"
| "place_labels clock snapshots columns width (idx # is) cells =
     (if 0 \<le> idx \<and> idx < int (length columns) \<and> idx < int (length snapshots)
      then place_labels clock snapshots columns width is
             (place_label (clock (hs_Timestamp (snapshots ! nat idx))) (columns ! nat idx) width cells)
      else None)"

definition max_labels :: "int \<Rightarrow> int" where
  "max_labels width =
     (let m = quot width 12; m = (if m < 2 then 2 else m) in if m > 6 then 6 else m)"

definition renderXAxis :: "(int \<Rightarrow> string) \<Rightarrow> health_snapshot list \<Rightarrow> int list \<Rightarrow> int \<Rightarrow> string option" where
  "renderXAxis clock snapshots columns width =
     (case place_labels clock snapshots columns width
             (evenlySpacedIndices (length snapshots) (max_labels width)) (replicate (nat width) '' '') of
        None \<Rightarrow> None
      | Some cells \<Rightarrow>
          Some (''  0 '' @ corner_left @ concat (replicate (nat width) dash_char) @ newline @ ''    '' @ concat cells))"

definition near_anomaly :: "health_snapshot \<Rightarrow> anomaly \<Rightarrow> bool" where
  "near_anomaly snapshot a =
     (let diff = Sub (hs_Timestamp snapshot) (an_Timestamp a);
          diff = (if diff < 0 then wrap64 (- diff) else diff)
      in diff \<le> Minute)"

definition mark_positions :: "nat \<Rightarrow> nat \<Rightarrow> int list" where
  "mark_positions n idx =
     filter (\<lambda>pos. pos \<ge> 0 \<and> pos < int n) (map (\<lambda>delta. int idx + delta) [- graphAnomalyWindow..graphAnomalyWindow])"

definition buildAnomalyIndexSet :: "health_snapshot list \<Rightarrow> anomaly list \<Rightarrow> int list" where
  "buildAnomalyIndexSet snapshots anomalies =
     concat (map (\<lambda>a. concat (map (\<lambda>(idx, s). if near_anomaly s a then mark_positions (length snapshots) idx else [])
       (zip [0..<length snapshots] snapshots))) anomalies)"

definition row_max :: "int \<Rightarrow> int" where
  "row_max row = 100 - row * quot 100 graphYSteps"

definition RenderHealthTrendASCII :: "(int \<Rightarrow> string) \<Rightarrow> health_snapshot list \<Rightarrow> int \<Rightarrow> string option" where
  "RenderHealthTrendASCII clock snapshots width =
     (if snapshots = [] \<or> width \<le> 0 then Some []
      else let anomalyIndices = buildAnomalyIndexSet snapshots (DetectAnomalies snapshots);
               columns = mapSnapshotsToColumns snapshots width;
               rows = map (\<lambda>row. renderGraphRow snapshots columns anomalyIndices (row_max row) width) [0..graphYSteps - 1]
           in case renderXAxis clock snapshots columns width of
                None \<Rightarrow> None
              | Some axis \<Rightarrow> Some (join_str newline (rows @ [axis]) @ newline))"

subsection \<open>Texts\<close>

definition FormatTrendText :: "trend_result \<Rightarrow> string" where
  "FormatTrendText result =
     (if tr_Snapshots result = [] then []
      else let parts = [''mean='' @ show_int (f_trunc (tr_MeanScore result)) @ '' min='' @ show_int (tr_MinScore result)
                        @ '' max='' @ show_int (tr_MaxScore result)]
               @ (if f_lt (Fin 0) (tr_Variance result) then [''variance='' @ show_fixed 1 (tr_Variance result)] else [])
               @ (if \<not> f_eq (tr_DegradationRate result) (Fin 0)
                  then [(if f_lt (tr_DegradationRate result) (Fin 0) then ''degrading'' else ''improving'')
                        @ '' ('' @ show_fixed 1 (tr_DegradationRate result) @ '' score/hour)''] else [])
               @ (if tr_FlappingDetected result then [''FLAPPING('' @ tr_FlappingSeverity result @ '')''] else [])
               @ (if tr_Sparkline result \<noteq> [] then [tr_Sparkline result] else [])
           in ''Health Trend: '' @ join_str '' '' parts)"

definition anomaly_lines :: "nat \<Rightarrow> anomaly \<Rightarrow> string list" where
  "anomaly_lines i a =
     [''  ['' @ show_int (int i + 1) @ ''] '' @ anomaly_string (an_Type a) @ '' ('' @ an_Severity a @ '') score ''
        @ show_int (an_ScoreBefore a) @ ''->'' @ show_int (an_ScoreAfter a) @ '' duration='' @ an_Duration a]
     @ (if an_CauseEstimate a \<noteq> [] then [''      cause: '' @ an_CauseEstimate a] else [])
     @ (if an_Remediation a \<noteq> [] then [''      fix:   '' @ an_Remediation a] else [])"

definition FormatTrendAnomalyText :: "trend_result \<Rightarrow> string" where
  "FormatTrendAnomalyText result =
     (let as = tr_Anomalies result
      in if as = [] then []
         else join_str newline ((''Anomalies: '' @ show_int (int (length as)) @ '' detected'')
           # concat (map2 anomaly_lines [0..<length as] as)))"

definition FormatTrendAnomalyGraph :: "(int \<Rightarrow> string) \<Rightarrow> trend_result \<Rightarrow> int \<Rightarrow> string option" where
  "FormatTrendAnomalyGraph clock result graphWidth =
     (let trendText = FormatTrendText result
      in if trendText = [] then Some []
         else let anomalyText = FormatTrendAnomalyText result
              in case RenderHealthTrendASCII clock (tr_Snapshots result) graphWidth of
                   None \<Rightarrow> None
                 | Some graph \<Rightarrow> Some (join_str (newline @ newline)
                     ([trendText] @ (if anomalyText \<noteq> [] then [anomalyText] else [])
                      @ (if graph \<noteq> [] then [graph] else []))))"

definition FormatTrendListRow :: "trend_result \<Rightarrow> string" where
  "FormatTrendListRow result =
     (if tr_Snapshots result = [] then []
      else join_str '' ''
        ((if tr_Sparkline result \<noteq> [] then [tr_Sparkline result] else [])
         @ (if f_lt (tr_DegradationRate result) (Fin (- 5)) then [''down'']
            else if f_lt (Fin 5) (tr_DegradationRate result) then [''up''] else [])
         @ (if tr_FlappingDetected result then [''FLAP:'' @ tr_FlappingSeverity result] else [])))"

subsection \<open>Columns and labels stay on the grid\<close>

lemma f_trunc_between:
  assumes "of_int a \<le> x" "x \<le> of_int b" "0 \<le> a"
  shows "a \<le> f_trunc (Fin x) \<and> f_trunc (Fin x) \<le> b"
proof -
  have "(0::rat) \<le> of_int a" using assms(3) by simp
  then have "0 \<le> x" using assms(1) by linarith
  then show ?thesis using assms by (simp add: f_trunc_def le_floor_iff floor_le_iff; linarith)
qed

lemma unit_quotient:
  fixes i m :: int
  assumes "0 \<le> i" "i \<le> m" "0 < m"
  shows "(0::rat) \<le> of_int i / of_int m" "(of_int i / of_int m :: rat) \<le> 1"
proof -
  have "(of_int i :: rat) \<le> of_int m" using assms by simp
  then show "(of_int i / of_int m :: rat) \<le> 1" using assms by (simp add: pos_divide_le_eq)
qed (use assms in simp)

lemma snapshot_column_range:
  assumes "2 \<le> n" "i < n" "int n \<le> 1000000000" "0 < width" "width \<le> 1000000000"
  shows "0 \<le> snapshot_column n width i \<and> snapshot_column n width i < width"
proof -
  let ?q = "of_int (int i) / of_int (int n - 1) :: rat"
  have q: "0 \<le> ?q" "?q \<le> 1" by (rule unit_quotient; use assms in linarith)+
  have "\<bar>?q\<bar> \<le> of_int 9007199254740992" using q unfolding abs_of_nonneg [OF q(1)] by linarith
  then have r: "mk ?q = Fin (rnd ?q)" by (rule mk_small)
  have rq: "0 \<le> rnd ?q" "rnd ?q \<le> 1" using q rnd_ge_int [of 0 ?q] rnd_le_int [of 1 ?q] by simp_all
  let ?p = "rnd ?q * of_int width"
  have p: "0 \<le> ?p" "?p \<le> of_int width"
    using rq assms(4) mult_right_mono [of "rnd ?q" 1 "of_int width"] by simp_all
  have "(of_int width :: rat) \<le> of_int 1000000000" using assms(5) by (simp only: of_int_le_iff)
  then have pb: "\<bar>?p\<bar> \<le> of_int 9007199254740992"
    unfolding abs_of_nonneg [OF p(1)] using p(2) by linarith
  let ?s = "rnd ?p"
  have s: "0 \<le> ?s" "?s \<le> of_int width"
    using p rnd_ge_int [of 0 ?p] rnd_le_int [of width ?p] assms by simp_all
  have fl: "0 \<le> \<lfloor>?s + 1 / 2\<rfloor>" "\<lfloor>?s + 1 / 2\<rfloor> \<le> width" using s by linarith+
  have "snapshot_column n width i = (let col = \<lfloor>?s + 1 / 2\<rfloor> in if col \<ge> width then width - 1 else col)"
    using assms r mk_small [OF pb] s fl
    by (simp add: snapshot_column_def f_round_def f_trunc_def Let_def)
  then show ?thesis using fl assms(4) by (simp add: Let_def)
qed

lemma columns_range:
  assumes "snapshots \<noteq> []" "int (length snapshots) \<le> 1000000000" "0 < width" "width \<le> 1000000000"
  shows "length (mapSnapshotsToColumns snapshots width) = length snapshots
    \<and> (\<forall>c\<in>set (mapSnapshotsToColumns snapshots width). 0 \<le> c \<and> c < width)"
proof (cases "length snapshots = 1")
  case True
  then show ?thesis using assms by (simp add: mapSnapshotsToColumns_def quot_nonneg)
next
  case False
  then have "2 \<le> length snapshots" using assms(1) by (cases snapshots) (auto simp: Suc_le_eq)
  then show ?thesis using assms False snapshot_column_range
    by (auto simp: mapSnapshotsToColumns_def)
qed

lemma spaced_indices_range:
  assumes "idx \<in> set (evenlySpacedIndices n cnt)" and "int n \<le> 1000000000" and "2 \<le> cnt" "cnt \<le> 6"
  shows "0 \<le> idx \<and> idx < int n"
proof (cases "int n \<le> cnt")
  case True
  then show ?thesis using assms(1) by (auto simp: evenlySpacedIndices_def)
next
  case False
  let ?m = "int n - 1" and ?c = "cnt - 1"
  from False assms obtain i where i: "0 \<le> i" "i \<le> ?c"
    and idx: "idx = f_trunc (f_div (f_mul (f_of_int i) (f_of_int ?m)) (f_of_int ?c))"
    by (auto simp: evenlySpacedIndices_def)
  have m: "0 \<le> ?m" "0 < ?c" using False assms by linarith+
  have im: "0 \<le> i * ?m" "i * ?m \<le> ?c * ?m" using i m by (simp_all add: mult_right_mono)
  have "?c * ?m \<le> 5 * ?m" using assms m by (intro mult_right_mono) auto
  with im(2) have "i * ?m \<le> 5 * ?m" by (rule order_trans)
  also have "5 * ?m \<le> 9007199254740992" using assms(2) by simp
  finally have small: "\<bar>i * ?m\<bar> \<le> 9007199254740992" by (simp only: abs_of_nonneg [OF im(1)])
  have e: "f_mul (f_of_int i) (f_of_int ?m) = Fin (of_int (i * ?m))"
    using i m assms mk_int [OF small] by simp
  let ?q = "of_int (i * ?m) / of_int ?c :: rat"
  have "(0::rat) \<le> of_int (i * ?m)" "(0::rat) < of_int ?c"
    using im(1) m(2) by (simp_all only: of_int_0_le_iff of_int_0_less_iff)
  then have q0: "of_int 0 \<le> ?q" by (simp only: of_int_0 divide_nonneg_pos)
  have "(of_int (i * ?m) :: rat) \<le> of_int (?c * ?m)" using im by (simp only: of_int_le_iff)
  then have q1: "?q \<le> of_int ?m" using m by (simp add: pos_divide_le_eq mult.commute)
  have "\<bar>?q\<bar> \<le> of_int 9007199254740992"
    unfolding abs_of_nonneg [OF q0 [unfolded of_int_0]]
    using order_trans [OF q1, of "of_int 9007199254740992"] assms(2) by linarith
  then have "mk ?q = Fin (rnd ?q)" by (rule mk_small)
  moreover have "f_of_int ?c = Fin (of_int ?c)" using m(2) assms(4) by (intro f_of_int_exact) auto
  moreover have "(of_int ?c :: rat) \<noteq> 0" using m(2) by simp
  ultimately have "idx = f_trunc (Fin (rnd ?q))" unfolding idx e by (simp only: f_div.simps if_False)
  moreover have "of_int 0 \<le> rnd ?q" "rnd ?q \<le> of_int ?m"
    using q0 q1 m assms by (intro rnd_ge_int rnd_le_int; simp)+
  ultimately show ?thesis using f_trunc_between [of 0 "rnd ?q" ?m] by simp
qed

lemma max_labels_range: "2 \<le> max_labels width \<and> max_labels width \<le> 6"
  by (simp add: max_labels_def Let_def)

lemma place_labels_total:
  assumes "\<forall>idx\<in>set is. 0 \<le> idx \<and> idx < int (length snapshots)" "length columns = length snapshots"
  shows "place_labels clock snapshots columns width is cells \<noteq> None"
  using assms by (induction clock snapshots columns width "is" cells rule: place_labels.induct) auto

subsection \<open>What a row shows\<close>

definition is_mark :: "string \<Rightarrow> bool" where
  "is_mark c \<longleftrightarrow> c = cross_char \<or> c = dot_char"

lemma blank_not_mark: "\<not> is_mark '' ''"
  by (simp add: is_mark_def cross_char_def dot_char_def)

lemma plot_point_length [simp]: "length (plot_point as th y w line p) = length line"
  by (simp add: plot_point_def split: prod.splits)

lemma plot_points_length [simp]: "length (foldl (plot_point as th y w) line ps) = length line"
  by (induction ps arbitrary: line) auto

lemma plot_point_keeps:
  "c < length line \<Longrightarrow> is_mark (line ! c) \<Longrightarrow> is_mark (plot_point as th y w line p ! c)"
  by (cases p, cases "nat (fst (snd p)) = c") (auto simp: plot_point_def is_mark_def)

lemma plot_points_keep:
  "c < length line \<Longrightarrow> is_mark (line ! c) \<Longrightarrow> is_mark (foldl (plot_point as th y w) line ps ! c)"
  by (induction ps arbitrary: line) (simp_all add: plot_point_keeps)

lemma plot_points_mark:
  assumes "(idx, col, s) \<in> set ps" "0 \<le> col" "col < w" "length line = nat w" "in_band th y (hs_HealthScore s)"
  shows "is_mark (foldl (plot_point as th y w) line ps ! nat col)"
  using assms
proof (induction ps arbitrary: line)
  case (Cons p ps)
  show ?case
  proof (cases "p = (idx, col, s)")
    case True
    then have "is_mark (plot_point as th y w line p ! nat col)"
      using Cons.prems by (simp add: plot_point_def is_mark_def)
    then show ?thesis using Cons.prems by (simp add: plot_points_keep)
  next
    case False
    then show ?thesis using Cons.prems by (simp add: Cons.IH)
  qed
qed simp

lemma fill_cell_length [simp]: "length (fill_cell w line c) = length line"
  by (simp add: fill_cell_def)

lemma fill_cells_length [simp]: "length (foldl (fill_cell w) line cs) = length line"
  by (induction cs arbitrary: line) auto

lemma fill_cell_keeps: "line ! k \<noteq> '' '' \<Longrightarrow> fill_cell w line c ! k = line ! k"
  by (auto simp: fill_cell_def intro!: nth_list_update_neq)

lemma fill_cells_keep: "line ! k \<noteq> '' '' \<Longrightarrow> foldl (fill_cell w) line cs ! k = line ! k"
  by (induction cs arbitrary: line) (simp_all add: fill_cell_keeps)

lemma connect_length [simp]: "length (connectAdjacentPoints th y w ps line) = length line"
  by (induction th y w ps line rule: connectAdjacentPoints.induct) (simp_all add: Let_def)

lemma connect_keeps: "line ! k \<noteq> '' '' \<Longrightarrow> connectAdjacentPoints th y w ps line ! k = line ! k"
proof (induction th y w ps line rule: connectAdjacentPoints.induct)
  case (1 threshold yMax width colI si colJ sj rest line)
  have e: "connectAdjacentPoints threshold yMax width ((colI, si) # (colJ, sj) # rest) line
      = connectAdjacentPoints threshold yMax width ((colJ, sj) # rest) line
    \<or> connectAdjacentPoints threshold yMax width ((colI, si) # (colJ, sj) # rest) line
      = connectAdjacentPoints threshold yMax width ((colJ, sj) # rest) (foldl (fill_cell width) line [colI + 1..colJ - 1])"
    by (simp add: Let_def)
  with 1 show ?case by (simp only: connectAdjacentPoints.simps Let_def) (auto simp: fill_cells_keep)
qed simp_all

lemma graph_cells_length: "length (graph_cells snapshots columns as yMax width) = nat width"
  by (simp add: graph_cells_def Let_def)

lemma graph_cells_mark:
  assumes "idx < length snapshots" "length columns = length snapshots"
    "0 \<le> columns ! idx" "columns ! idx < width" "in_band (row_threshold yMax) yMax (hs_HealthScore (snapshots ! idx))"
  shows "is_mark (graph_cells snapshots columns as yMax width ! nat (columns ! idx))"
proof -
  let ?ps = "zip [0..<length snapshots] (zip columns snapshots)"
  let ?line = "foldl (plot_point as (row_threshold yMax) yMax width) (replicate (nat width) '' '') ?ps"
  have "(idx, columns ! idx, snapshots ! idx) \<in> set ?ps"
    using assms(1,2) by (auto simp: set_zip intro!: exI [where x = idx])
  then have m: "is_mark (?line ! nat (columns ! idx))" using assms by (intro plot_points_mark) auto
  then have "?line ! nat (columns ! idx) \<noteq> '' ''" using blank_not_mark by metis
  from connect_keeps [OF this] m show ?thesis by (simp add: graph_cells_def Let_def)
qed

lemma row_bands:
  assumes "0 \<le> row" "row \<le> 4"
  shows "in_band (row_threshold (row_max row)) (row_max row) s \<longleftrightarrow> 100 - 20 * (row + 1) < s \<and> s \<le> 100 - 20 * row"
proof -
  have "quot 100 graphYSteps = 20" by (simp add: graphYSteps_def quot_def)
  then show ?thesis using assms by (auto simp: in_band_def row_threshold_def row_max_def)
qed

lemma one_band: "(\<exists>!row. 0 \<le> row \<and> row \<le> 4 \<and> 100 - 20 * (row + 1) < s \<and> s \<le> 100 - 20 * row) \<longleftrightarrow> 1 \<le> s \<and> s \<le> (100::int)"
  (is "(\<exists>!row. ?P row) \<longleftrightarrow> _")
proof
  assume "1 \<le> s \<and> s \<le> 100"
  then have p: "?P ((100 - s) div 20)" by auto
  moreover have "r = (100 - s) div 20" if "?P r" for r
  proof -
    have "r * 20 \<le> 100 - s" "100 - s < (r + 1) * 20" using that by auto
    then show ?thesis by simp
  qed
  ultimately show "\<exists>!row. ?P row" by blast
qed auto

text \<open>The graph of a health trend never panics, every row has exactly \<open>width\<close> cells, and a score
  is marked in its own column of exactly one row when it is between 1 and 100.\<close>

theorem health_graph_sound:
  assumes "snapshots \<noteq> []" "int (length snapshots) \<le> 1000000000" "0 < width" "width \<le> 1000000000"
  defines "columns \<equiv> mapSnapshotsToColumns snapshots width"
    and "cells \<equiv> \<lambda>row. graph_cells snapshots (mapSnapshotsToColumns snapshots width)
           (buildAnomalyIndexSet snapshots (DetectAnomalies snapshots)) (row_max row) width"
  shows "RenderHealthTrendASCII clock snapshots width \<noteq> None
    \<and> (\<forall>row. length (cells row) = nat width)
    \<and> (\<forall>idx < length snapshots.
        (\<exists>!row. 0 \<le> row \<and> row < graphYSteps
          \<and> in_band (row_threshold (row_max row)) (row_max row) (hs_HealthScore (snapshots ! idx))
          \<and> is_mark (cells row ! nat (columns ! idx)))
        \<longleftrightarrow> 1 \<le> hs_HealthScore (snapshots ! idx) \<and> hs_HealthScore (snapshots ! idx) \<le> 100)"
proof -
  note col = columns_range [OF assms(1-4)]
  have "renderXAxis clock snapshots columns width \<noteq> None"
  proof -
    have "\<forall>i\<in>set (evenlySpacedIndices (length snapshots) (max_labels width)). 0 \<le> i \<and> i < int (length snapshots)"
      using spaced_indices_range max_labels_range assms(2) by blast
    from place_labels_total [OF this, of columns] col show ?thesis
      by (simp add: renderXAxis_def columns_def split: option.splits)
  qed
  then have total: "RenderHealthTrendASCII clock snapshots width \<noteq> None"
    using assms(1,3) by (auto simp: RenderHealthTrendASCII_def columns_def Let_def split: option.splits)
  have len: "\<forall>row. length (cells row) = nat width" by (simp add: cells_def graph_cells_length)
  have rows: "(\<exists>!row. 0 \<le> row \<and> row < graphYSteps
      \<and> in_band (row_threshold (row_max row)) (row_max row) (hs_HealthScore (snapshots ! idx))
      \<and> is_mark (cells row ! nat (columns ! idx)))
    \<longleftrightarrow> 1 \<le> hs_HealthScore (snapshots ! idx) \<and> hs_HealthScore (snapshots ! idx) \<le> 100"
    if idx: "idx < length snapshots" for idx
  proof -
    let ?s = "hs_HealthScore (snapshots ! idx)"
    let ?P = "\<lambda>row. 0 \<le> row \<and> row \<le> 4 \<and> 100 - 20 * (row + 1) < ?s \<and> ?s \<le> 100 - 20 * row"
    have "columns ! idx \<in> set columns" using idx col by (simp add: columns_def)
    then have c: "0 \<le> columns ! idx" "columns ! idx < width" using col by (auto simp: columns_def)
    have mark: "is_mark (cells row ! nat (columns ! idx))" if "?P row" for row
      using graph_cells_mark [OF idx, of columns width "row_max row"] col c that
      by (simp add: cells_def columns_def row_bands)
    have g: "0 \<le> row \<and> row < graphYSteps \<longleftrightarrow> 0 \<le> row \<and> row \<le> 4" for row by (auto simp: graphYSteps_def)
    have "(0 \<le> row \<and> row < graphYSteps \<and> in_band (row_threshold (row_max row)) (row_max row) ?s
        \<and> is_mark (cells row ! nat (columns ! idx))) \<longleftrightarrow> ?P row" for row
      using mark [of row] g [of row] row_bands [of row ?s] by blast
    then show ?thesis by (simp only: one_band)
  qed
  show ?thesis using total len rows by blast
qed

theorem health_graph_sound_witness:
  "RenderHealthTrendASCII (\<lambda>_. ''12:00'') [sample_snapshot 0 90 ''OK'', sample_snapshot 60 35 ''ERROR''] 20 \<noteq> None"
  using health_graph_sound [of "[sample_snapshot 0 90 ''OK'', sample_snapshot 60 35 ''ERROR'']" 20 "\<lambda>_. ''12:00''"]
  by simp

text \<open>A health score of 0, the worst there is, is never drawn: for a series of zeros every data row
  of the graph is blank.\<close>

theorem zero_score_invisible:
  assumes "\<forall>s\<in>set snapshots. hs_HealthScore s = 0"
  shows "graph_cells snapshots columns anomalyIndices yMax width = replicate (nat width) '' ''"
proof -
  have band: "\<not> in_band (row_threshold yMax) yMax 0" by (auto simp: in_band_def row_threshold_def Let_def)
  have plot: "foldl (plot_point anomalyIndices (row_threshold yMax) yMax width) line ps = line"
    if "\<forall>(idx, col, s)\<in>set ps. hs_HealthScore s = 0" for line ps
    using that by (induction ps) (auto simp: plot_point_def band)
  have conn: "connectAdjacentPoints th yMax width ps line = line"
    if "\<forall>(col, s)\<in>set ps. hs_HealthScore s = 0" "\<not> in_band th yMax 0" for ps line th
    using that by (induction th yMax width ps line rule: connectAdjacentPoints.induct) (auto simp: Let_def)
  have "\<forall>(idx, col, s)\<in>set (zip [0..<length snapshots] (zip columns snapshots)). hs_HealthScore s = 0"
    "\<forall>(col, s)\<in>set (zip columns snapshots). hs_HealthScore s = 0"
    using assms by (auto dest!: set_zip_rightD)
  then show ?thesis by (simp add: graph_cells_def Let_def plot conn band)
qed

theorem zero_score_invisible_witness:
  "graph_cells [sample_snapshot 0 0 ''ERROR''] [5] [] 20 10 = replicate 10 '' ''"
  using zero_score_invisible [of "[sample_snapshot 0 0 ''ERROR'']" "[5]" "[]" 20 10]
  by (simp add: sample_snapshot_def)

end
