(* ===== verification/ScanCache.thy ===== *)
theory ScanCache
  imports HealthTrend "HOL-Library.Word" "HOL-Library.Monad_Syntax"
begin

section \<open>The cache of decoded history files\<close>

text \<open>
  \<open>internal/history/scan_cache.go\<close>: a process-wide cache of decoded history files, bounded in the
  number of files and of decoded records, with eviction of the least recently used file. All its
  operations run under one mutex, so concurrent use is a sequence of whole operations. The map
  is the list of its entries; the order in which Go ranges over it is arbitrary in every round and is
  drawn from the argument \<open>seed\<close>. The result of \<open>os.Stat\<close> is an argument, \<^const>\<open>None\<close> when it
  fails; \<open>os.SameFile\<close> compares the identity of two results. The eviction loop is written without a
  measure: \<^const>\<open>None\<close> would be a loop that does not end.
\<close>

record file_info =
  fi_ident :: nat
  fi_size :: int
  fi_mtime :: int

record history_scan =
  sc_total :: int
  sc_expired :: int
  sc_retained :: "health_snapshot list"
  sc_corruptLines :: "int list"

record cached_scan =
  ce_info :: file_info
  ce_cutoff :: int
  ce_scan :: history_scan
  ce_used :: "64 word"

record scan_cache =
  c_entries :: "(string \<times> cached_scan) list"
  c_records :: int
  c_sequence :: "64 word"

definition maxCachedHistoryStreams :: int where "maxCachedHistoryStreams = 128"
definition maxCachedHistoryRecords :: int where "maxCachedHistoryRecords = 100000"

definition empty_cache :: scan_cache where
  "empty_cache = \<lparr>c_entries = [], c_records = 0, c_sequence = 0\<rparr>"

definition scan_size :: "history_scan \<Rightarrow> int" where
  "scan_size s = int (length (sc_retained s)) + int (length (sc_corruptLines s))"

subsection \<open>Binary search and map iteration\<close>

text \<open>\<open>sort.Search\<close>.\<close>

function search_loop :: "(nat \<Rightarrow> bool) \<Rightarrow> nat \<Rightarrow> nat \<Rightarrow> nat" where
  "search_loop f i j =
     (if i < j then let h = (i + j) div 2 in if \<not> f h then search_loop f (Suc h) j else search_loop f i h
      else i)"
  by pat_completeness auto
termination by (relation "measure (\<lambda>(f, i, j). j - i)") auto

declare search_loop.simps [simp del]

definition go_search :: "nat \<Rightarrow> (nat \<Rightarrow> bool) \<Rightarrow> nat" where
  "go_search n f = search_loop f 0 n"

text \<open>A permutation chosen by a list of numbers; every permutation is the choice of some list.\<close>

fun iterate_map :: "nat list \<Rightarrow> 'a list \<Rightarrow> 'a list" where
  "iterate_map (k # ks) (x # xs) =
     (let ys = x # xs; i = k mod length ys in ys ! i # iterate_map ks (take i ys @ drop (Suc i) ys))"
| "iterate_map _ xs = xs"

subsection \<open>The operations\<close>

definition removeLocked :: "string \<Rightarrow> scan_cache \<Rightarrow> scan_cache" where
  "removeLocked path c = (case map_of (c_entries c) path of
     None \<Rightarrow> c
   | Some entry \<Rightarrow> c\<lparr>c_records := c_records c - scan_size (ce_scan entry),
                      c_entries := filter (\<lambda>e. fst e \<noteq> path) (c_entries c)\<rparr>)"

definition remove_entry :: "string \<Rightarrow> scan_cache \<Rightarrow> scan_cache" where
  "remove_entry path c = removeLocked path c"

definition same_file :: "file_info \<Rightarrow> file_info \<Rightarrow> bool" where
  "same_file a b \<longleftrightarrow> fi_ident a = fi_ident b \<and> fi_size a = fi_size b \<and> fi_mtime a = fi_mtime b"

text \<open>The part of a scan a later cutoff still retains.\<close>

definition trim_scan :: "int \<Rightarrow> history_scan \<Rightarrow> history_scan" where
  "trim_scan cutoff scan =
     (let start = go_search (length (sc_retained scan)) (\<lambda>i. hs_Timestamp (sc_retained scan ! i) > cutoff)
      in scan\<lparr>sc_expired := sc_expired scan + int start, sc_retained := drop start (sc_retained scan)\<rparr>)"

definition set_entry :: "string \<Rightarrow> cached_scan \<Rightarrow> (string \<times> cached_scan) list \<Rightarrow> (string \<times> cached_scan) list" where
  "set_entry path entry es =
     (if path \<in> set (map fst es) then map (\<lambda>e. if fst e = path then (path, entry) else e) es
      else es @ [(path, entry)])"

definition load_scan :: "file_info option \<Rightarrow> string \<Rightarrow> int \<Rightarrow> scan_cache \<Rightarrow> history_scan option \<times> scan_cache" where
  "load_scan stat path cutoff c = (case stat of
     None \<Rightarrow> (None, remove_entry path c)
   | Some info \<Rightarrow> (case map_of (c_entries c) path of
       None \<Rightarrow> (None, c)
     | Some cached \<Rightarrow>
         if cutoff < ce_cutoff cached \<or> \<not> same_file info (ce_info cached)
         then (None, removeLocked path c)
         else let s = c_sequence c + 1;
                  c' = c\<lparr>c_sequence := s, c_entries := set_entry path (cached\<lparr>ce_used := s\<rparr>) (c_entries c)\<rparr>
              in (Some (trim_scan cutoff (ce_scan cached)), c')))"

fun pick_oldest :: "string \<Rightarrow> 64 word \<Rightarrow> (string \<times> cached_scan) list \<Rightarrow> string" where
  "pick_oldest oldest used [] = oldest"
| "pick_oldest oldest used ((key, entry) # es) =
     (if oldest = [] \<or> ce_used entry < used then pick_oldest key (ce_used entry) es
      else pick_oldest oldest used es)"

definition too_big :: "int \<Rightarrow> (string \<times> cached_scan) list \<Rightarrow> int \<Rightarrow> bool" where
  "too_big n es records \<longleftrightarrow> int (length es) \<ge> maxCachedHistoryStreams \<or> records + n > maxCachedHistoryRecords"

partial_function (option) evict :: "(nat \<Rightarrow> nat list) \<Rightarrow> int \<Rightarrow> scan_cache \<Rightarrow> scan_cache option" where
  "evict seed n c =
     (if too_big n (c_entries c) (c_records c)
      then evict (\<lambda>k. seed (Suc k)) n (removeLocked (pick_oldest [] 0 (iterate_map (seed 0) (c_entries c))) c)
      else Some c)"

definition save_scan ::
    "(nat \<Rightarrow> nat list) \<Rightarrow> file_info option \<Rightarrow> string \<Rightarrow> int \<Rightarrow> history_scan \<Rightarrow> scan_cache \<Rightarrow> scan_cache option" where
  "save_scan seed stat path cutoff scan c = (case stat of
     None \<Rightarrow> Some (remove_entry path c)
   | Some info \<Rightarrow>
       let n = scan_size scan; c1 = removeLocked path c
       in if n > maxCachedHistoryRecords then Some c1
          else do {
            c2 \<leftarrow> evict seed n c1;
            let s = c_sequence c2 + 1;
            Some (c2\<lparr>c_sequence := s,
                c_entries := set_entry path \<lparr>ce_info = info, ce_cutoff = cutoff, ce_scan = scan, ce_used = s\<rparr> (c_entries c2),
                c_records := c_records c2 + n\<rparr>)
          })"

subsection \<open>Facts of the search\<close>

lemma search_loop_spec:
  assumes mono: "\<And>a b. a \<le> b \<Longrightarrow> b < n \<Longrightarrow> f a \<Longrightarrow> f b"
    and "i \<le> j" "j \<le> n" "\<forall>k < i. \<not> f k" "\<forall>k. j \<le> k \<and> k < n \<longrightarrow> f k"
  shows "search_loop f i j \<le> n \<and> (\<forall>k. k < search_loop f i j \<longrightarrow> \<not> f k)
    \<and> (\<forall>k. search_loop f i j \<le> k \<and> k < n \<longrightarrow> f k)"
  using assms(2-) mono
proof (induction f i j rule: search_loop.induct)
  case (1 f i j)
  show ?case
  proof (cases "i < j")
    case False
    have e: "search_loop f i j = i" by (subst search_loop.simps) (simp add: False)
    show ?thesis unfolding e using 1(3-6) False by simp
  next
    case True
    define h where "h = (i + j) div 2"
    have h: "i \<le> h" "h < j" using True by (auto simp: h_def)
    show ?thesis
    proof (cases "f h")
      case False
      have e: "search_loop f i j = search_loop f (Suc h) j"
        by (subst search_loop.simps) (use True False in \<open>simp add: h_def Let_def\<close>)
      have "\<forall>k < Suc h. \<not> f k" using False h 1(4,7) by (metis less_Suc_eq_le order_less_le_trans)
      then show ?thesis unfolding e using True False h 1(4,6,7) by (intro 1(1) [of h]) (auto simp: h_def)
    next
      case fh: True
      have e: "search_loop f i j = search_loop f i h"
        by (subst search_loop.simps) (use True fh in \<open>simp add: h_def Let_def\<close>)
      have "\<forall>k. h \<le> k \<and> k < n \<longrightarrow> f k" using fh 1(7) by blast
      then show ?thesis unfolding e using True fh h 1(4,5,7) by (intro 1(2) [of h]) (auto simp: h_def)
    qed
  qed
qed

lemma go_search_spec:
  assumes "\<And>a b. a \<le> b \<Longrightarrow> b < n \<Longrightarrow> f a \<Longrightarrow> f b"
  shows "go_search n f \<le> n" "k < go_search n f \<Longrightarrow> \<not> f k" "go_search n f \<le> k \<Longrightarrow> k < n \<Longrightarrow> f k"
proof -
  have "search_loop f 0 n \<le> n \<and> (\<forall>k. k < search_loop f 0 n \<longrightarrow> \<not> f k)
      \<and> (\<forall>k. search_loop f 0 n \<le> k \<and> k < n \<longrightarrow> f k)"
    by (rule search_loop_spec, rule assms) auto
  then show "go_search n f \<le> n" "k < go_search n f \<Longrightarrow> \<not> f k" "go_search n f \<le> k \<Longrightarrow> k < n \<Longrightarrow> f k"
    unfolding go_search_def by blast+
qed

text \<open>On a sorted series the search splits off exactly the elements that fail a monotone test.\<close>

lemma go_search_filter:
  assumes mono: "\<And>a b. a \<le> b \<Longrightarrow> b < length xs \<Longrightarrow> P (xs ! a) \<Longrightarrow> P (xs ! b)"
  defines "start \<equiv> go_search (length xs) (\<lambda>i. P (xs ! i))"
  shows "drop start xs = filter P xs" "take start xs = filter (\<lambda>x. \<not> P x) xs"
    "int start = int (length xs) - int (length (filter P xs))"
proof -
  note spec = go_search_spec [of "length xs" "\<lambda>i. P (xs ! i)", OF mono, folded start_def]
  have n: "\<forall>x\<in>set (take start xs). \<not> P x" using spec(1,2) by (auto simp: in_set_conv_nth)
  have p: "\<forall>x\<in>set (drop start xs). P x" using spec(1,3) by (auto simp: in_set_conv_nth)
  have "filter P (take start xs @ drop start xs) = drop start xs"
    using n p unfolding filter_append by (simp add: filter_id_conv filter_empty_conv)
  then show d: "drop start xs = filter P xs" by simp
  have "filter (\<lambda>x. \<not> P x) (take start xs @ drop start xs) = take start xs"
    using n p unfolding filter_append by (simp add: filter_id_conv filter_empty_conv)
  then show "take start xs = filter (\<lambda>x. \<not> P x) xs" by simp
  show "int start = int (length xs) - int (length (filter P xs))"
    using spec(1) by (simp add: d [symmetric])
qed

lemma mset_iterate_map [simp]: "mset (iterate_map ks xs) = mset xs"
proof (induction ks xs rule: iterate_map.induct)
  case (1 k ks x xs)
  let ?ys = "x # xs" and ?i = "k mod length (x # xs)"
  have i: "?i < length ?ys" by simp
  have "mset (iterate_map (k # ks) ?ys) = add_mset (?ys ! ?i) (mset (take ?i ?ys @ drop (Suc ?i) ?ys))"
    using 1 [OF refl refl] by (simp add: Let_def)
  also have "\<dots> = mset (take ?i ?ys @ ?ys ! ?i # drop (Suc ?i) ?ys)" by simp
  also have "\<dots> = mset ?ys" using id_take_nth_drop [OF i] by presburger
  finally show ?case .
qed simp_all

lemma set_iterate_map [simp]: "set (iterate_map ks xs) = set xs"
  using mset_eq_setD [OF mset_iterate_map] .

lemma iterate_map_Nil [simp]: "iterate_map ks xs = [] \<longleftrightarrow> xs = []"
  using mset_iterate_map [of ks xs] by (metis mset_zero_iff)

text \<open>Every iteration order is the choice of some list of numbers.\<close>

lemma iterate_map_complete: "mset ys = mset xs \<Longrightarrow> \<exists>ks. iterate_map ks xs = ys"
proof (induction ys arbitrary: xs)
  case Nil
  then show ?case by (intro exI [where x = "[]"]) simp
next
  case (Cons y ys)
  then have "y \<in> set xs" by (metis list.set_intros(1) mset_eq_setD)
  then obtain i where i: "i < length xs" "xs ! i = y" by (auto simp: in_set_conv_nth)
  let ?r = "take i xs @ drop (Suc i) xs"
  have "add_mset y (mset ?r) = mset (take i xs @ xs ! i # drop (Suc i) xs)" using i by simp
  also have "\<dots> = add_mset y (mset ys)" using Cons(2) by (simp only: id_take_nth_drop [OF i(1), symmetric]) simp
  finally obtain ks where "iterate_map ks ?r = ys" using Cons(1) [of ?r] by auto
  with i show ?case by (cases xs) (auto intro!: exI [where x = "i # ks"] simp: Let_def)
qed

subsection \<open>The invariant\<close>

definition records_of :: "(string \<times> cached_scan) list \<Rightarrow> int" where
  "records_of es = sum_list (map (\<lambda>e. scan_size (ce_scan (snd e))) es)"

text \<open>What every operation relies on, and what holds between operations.\<close>

definition cache_core :: "scan_cache \<Rightarrow> bool" where
  "cache_core c \<longleftrightarrow> distinct (map fst (c_entries c)) \<and> c_records c = records_of (c_entries c)"

definition cache_ok :: "scan_cache \<Rightarrow> bool" where
  "cache_ok c \<longleftrightarrow> cache_core c
     \<and> int (length (c_entries c)) \<le> maxCachedHistoryStreams \<and> c_records c \<le> maxCachedHistoryRecords"

lemma scan_size_nonneg [simp]: "0 \<le> scan_size s"
  by (simp add: scan_size_def)

lemma records_of_simps [simp]:
  "records_of [] = 0" "records_of (e # es) = scan_size (ce_scan (snd e)) + records_of es"
  "records_of (es @ fs) = records_of es + records_of fs"
  by (simp_all add: records_of_def)

lemma records_of_filter: "records_of (filter P es) \<le> records_of es"
  by (induction es) (auto simp: order_trans [of _ "records_of _"])

lemma records_of_remove:
  "distinct (map fst es) \<Longrightarrow> map_of es path = Some entry \<Longrightarrow>
   records_of (filter (\<lambda>e. fst e \<noteq> path) es) = records_of es - scan_size (ce_scan entry)"
proof (induction es)
  case (Cons e es)
  show ?case
  proof (cases "fst e = path")
    case True
    then have "filter (\<lambda>e. fst e \<noteq> path) es = es"
      using Cons.prems(1) by (intro filter_True) (auto simp: image_iff)
    with True Cons.prems show ?thesis by (simp split: if_splits)
  next
    case False
    with Cons show ?thesis by (cases e) (auto split: if_splits)
  qed
qed simp

lemma filter_absent: "map_of es path = None \<Longrightarrow> filter (\<lambda>e. fst e \<noteq> path) es = es"
  by (auto simp: map_of_eq_None_iff filter_id_conv)

lemma removeLocked_eq:
  assumes "cache_core c"
  shows "removeLocked path c = c\<lparr>c_entries := filter (\<lambda>e. fst e \<noteq> path) (c_entries c),
    c_records := records_of (filter (\<lambda>e. fst e \<noteq> path) (c_entries c))\<rparr>"
proof (cases "map_of (c_entries c) path")
  case None
  then show ?thesis using assms by (simp add: removeLocked_def filter_absent cache_core_def)
next
  case (Some entry)
  then show ?thesis using assms records_of_remove [of "c_entries c" path entry]
    by (simp add: removeLocked_def cache_core_def)
qed

lemma removeLocked_core: "cache_core c \<Longrightarrow> cache_core (removeLocked path c)"
  by (simp add: removeLocked_eq) (auto simp: cache_core_def distinct_map_filter)

lemma removeLocked_ok:
  assumes "cache_ok c"
  shows "cache_ok (removeLocked path c)"
proof -
  have len: "int (length (filter P es)) \<le> b" if "int (length es) \<le> b" for P and es :: "(string \<times> cached_scan) list" and b
    using that length_filter_le [of P es] by linarith
  have c: "cache_core c" using assms by (simp add: cache_ok_def)
  have "records_of (filter (\<lambda>e. fst e \<noteq> path) (c_entries c)) \<le> c_records c"
    using c records_of_filter by (simp add: cache_core_def)
  then show ?thesis
    using assms c removeLocked_core [OF c, of path] unfolding cache_ok_def by (simp add: removeLocked_eq len)
qed

lemma map_of_replace:
  "map_of (map (\<lambda>e. if fst e = path then (path, entry) else e) es) k =
    (if k = path \<and> path \<in> set (map fst es) then Some entry else map_of es k)"
proof (induction es)
  case (Cons e es)
  then show ?case by (cases e, cases "k = path", cases "path \<in> fst ` set es") simp_all
qed simp

lemma map_of_set_entry: "map_of (set_entry path entry es) = (map_of es)(path \<mapsto> entry)"
proof (rule ext)
  fix k
  have "map_of es path = None" if "path \<notin> set (map fst es)" using that by (simp add: map_of_eq_None_iff)
  then show "map_of (set_entry path entry es) k = ((map_of es)(path \<mapsto> entry)) k"
    by (auto simp: set_entry_def map_of_replace map_add_def split: option.splits)
qed

lemma set_entry_facts:
  assumes "distinct (map fst es)"
  shows "distinct (map fst (set_entry path entry es))"
    and "path \<notin> set (map fst es) \<Longrightarrow> records_of (set_entry path entry es) = records_of es + scan_size (ce_scan entry)"
    and "path \<notin> set (map fst es) \<Longrightarrow> length (set_entry path entry es) = Suc (length es)"
proof -
  have upd: "map fst (map (\<lambda>e. if fst e = path then (path, entry) else e) es) = map fst es"
    by (induction es) auto
  show "distinct (map fst (set_entry path entry es))" using assms upd
    by (auto simp: set_entry_def simp del: map_map)
  show "path \<notin> set (map fst es) \<Longrightarrow> records_of (set_entry path entry es) = records_of es + scan_size (ce_scan entry)"
    and "path \<notin> set (map fst es) \<Longrightarrow> length (set_entry path entry es) = Suc (length es)"
    unfolding set_entry_def by simp_all
qed

lemma set_entry_same_size:
  assumes "distinct (map fst es)" "map_of es path = Some old" "ce_scan entry = ce_scan old"
  shows "records_of (set_entry path entry es) = records_of es" "length (set_entry path entry es) = length es"
proof -
  have p: "path \<in> set (map fst es)"
    using assms(2) map_of_eq_None_iff [of es path] by (cases "path \<in> set (map fst es)") auto
  show "length (set_entry path entry es) = length es" using p by (simp add: set_entry_def)
  have "scan_size (ce_scan (snd (if fst e = path then (path, entry) else e))) = scan_size (ce_scan (snd e))"
    if "e \<in> set es" for e
  proof (cases "fst e = path")
    case True
    with that have "map_of es path = Some (snd e)" using assms(1) by (intro map_of_is_SomeI) auto
    then show ?thesis using True assms(2,3) by simp
  qed simp
  then show "records_of (set_entry path entry es) = records_of es"
    using p by (simp add: set_entry_def records_of_def comp_def cong: map_cong)
qed

lemma load_scan_ok: "cache_ok c \<Longrightarrow> cache_ok (snd (load_scan stat path cutoff c))"
proof -
  assume ok: "cache_ok c"
  then have core: "distinct (map fst (c_entries c))" "c_records c = records_of (c_entries c)"
    by (simp_all add: cache_ok_def cache_core_def)
  show ?thesis
    using ok removeLocked_ok [OF ok, of path] set_entry_facts(1) [OF core(1)]
      set_entry_same_size [OF core(1)] core(2)
    by (auto simp: load_scan_def remove_entry_def Let_def cache_ok_def cache_core_def split: option.splits)
qed

subsection \<open>Eviction\<close>

lemma pick_oldest_in: "es \<noteq> [] \<or> oldest \<in> K \<Longrightarrow> fst ` set es \<subseteq> K \<Longrightarrow> (es = [] \<or> oldest = [] \<or> oldest \<in> K)
    \<Longrightarrow> pick_oldest oldest used es \<in> K"
  by (induction oldest used es rule: pick_oldest.induct) auto

lemma pick_oldest_key: "es \<noteq> [] \<Longrightarrow> pick_oldest [] 0 (iterate_map ks es) \<in> fst ` set es"
  by (rule pick_oldest_in) (auto dest: arg_cong [where f = set])

lemma evict_round:
  fixes c :: scan_cache and ks :: "nat list"
  assumes "cache_core c" "c_entries c \<noteq> []"
  defines "c' \<equiv> removeLocked (pick_oldest [] 0 (iterate_map ks (c_entries c))) c"
  shows "cache_core c'" "length (c_entries c') < length (c_entries c)"
proof -
  let ?p = "pick_oldest [] 0 (iterate_map ks (c_entries c))"
  obtain e where "e \<in> set (c_entries c)" "fst e = ?p" using pick_oldest_key [OF assms(2), of ks] by auto
  then have "length (filter (\<lambda>e. fst e \<noteq> ?p) (c_entries c)) < length (c_entries c)"
    by (intro length_filter_less) auto
  then show "length (c_entries c') < length (c_entries c)" by (simp add: c'_def removeLocked_eq assms(1))
  show "cache_core c'" unfolding c'_def by (rule removeLocked_core [OF assms(1)])
qed

lemma too_big_nonempty:
  "cache_core c \<Longrightarrow> n \<le> maxCachedHistoryRecords \<Longrightarrow> too_big n (c_entries c) (c_records c) \<Longrightarrow> c_entries c \<noteq> []"
  by (auto simp: cache_core_def too_big_def maxCachedHistoryStreams_def)

text \<open>The loop ends, and what it leaves fits.\<close>

lemma evict_total:
  assumes "cache_core c" "n \<le> maxCachedHistoryRecords"
  shows "\<exists>c'. evict seed n c = Some c' \<and> cache_core c' \<and> \<not> too_big n (c_entries c') (c_records c')
    \<and> c_sequence c' = c_sequence c \<and> (\<exists>P. c_entries c' = filter P (c_entries c))"
  using assms
proof (induction "length (c_entries c)" arbitrary: c seed rule: less_induct)
  case less
  show ?case
  proof (cases "too_big n (c_entries c) (c_records c)")
    case False
    then show ?thesis using less.prems(1)
      by (subst evict.simps) (auto intro!: exI [where x = "\<lambda>_. True"])
  next
    case True
    let ?p = "pick_oldest [] 0 (iterate_map (seed 0) (c_entries c))"
    let ?c = "removeLocked ?p c"
    note r = evict_round [OF less.prems(1) too_big_nonempty [OF less.prems True], of "seed 0"]
    obtain c' P where c': "evict (\<lambda>k. seed (Suc k)) n ?c = Some c'" "cache_core c'"
      "\<not> too_big n (c_entries c') (c_records c')" "c_sequence c' = c_sequence ?c"
      "c_entries c' = filter P (c_entries ?c)"
      using less.hyps [OF r(2,1) less.prems(2)] by blast
    have "evict seed n c = Some c'" using True c'(1) by (subst evict.simps) simp
    moreover have "c_sequence c' = c_sequence c" "c_entries c' = filter (\<lambda>e. fst e \<noteq> ?p \<and> P e) (c_entries c)"
      using c'(4,5) less.prems(1) by (simp_all add: removeLocked_eq)
    ultimately show ?thesis using c' by blast
  qed
qed

subsection \<open>Least recently used first\<close>

lemma insort_key_snoc: "k a \<le> k x \<Longrightarrow> insort_key k a (ys @ [x]) = insort_key k a ys @ [x]"
  by (induction ys) auto

lemma sort_key_last: "\<forall>f\<in>set xs. k f \<le> k x \<Longrightarrow> sort_key k (xs @ [x]) = sort_key k xs @ [x]"
  by (induction xs) (simp_all add: insort_key_snoc)

text \<open>
  While the 64-bit sequence number has not wrapped, no two entries carry the same stamp. Then
  the loop drops entries in the order of their stamps, as many as needed and no more: this is
  \<open>lru_drop\<close> on the entries sorted by stamp.
\<close>

definition used_of :: "string \<times> cached_scan \<Rightarrow> 64 word" where
  "used_of e = ce_used (snd e)"

definition stamped :: "scan_cache \<Rightarrow> bool" where
  "stamped c \<longleftrightarrow> distinct (map used_of (c_entries c)) \<and> (\<forall>e\<in>set (c_entries c). used_of e \<le> c_sequence c)
     \<and> [] \<notin> set (map fst (c_entries c))"

fun lru_drop :: "int \<Rightarrow> (string \<times> cached_scan) list \<Rightarrow> (string \<times> cached_scan) list" where
  "lru_drop n [] = []"
| "lru_drop n (e # es) = (if too_big n (e # es) (records_of (e # es)) then lru_drop n es else e # es)"

lemma pick_oldest_least:
  assumes "[] \<notin> fst ` set es" "distinct (map used_of es)" "oldest = [] \<longrightarrow> es \<noteq> []"
    and "e \<in> set es" "\<forall>f\<in>set es. used_of e \<le> used_of f" "oldest \<noteq> [] \<longrightarrow> used_of e < used"
  shows "pick_oldest oldest used es = fst e"
  using assms
proof (induction oldest used es rule: pick_oldest.induct)
  case (2 oldest used key entry es)
  have stay: "pick_oldest (fst e) (used_of e) fs = fst e" if "\<forall>f\<in>set fs. used_of e \<le> used_of f" "fst e \<noteq> []" for fs
    using that by (induction fs) (auto simp: used_of_def not_less)
  have k: "fst e \<noteq> []" using 2(3,6) by (metis image_eqI)
  show ?case
  proof (cases "e = (key, entry)")
    case True
    have "pick_oldest oldest used ((key, entry) # es) = pick_oldest (fst e) (used_of e) es"
      using True 2(8) by (auto simp: used_of_def)
    then show ?thesis using stay [OF _ k, of es] 2(7) by simp
  next
    case False
    then have e: "e \<in> set es" using 2(6) by simp
    have "used_of e \<noteq> used_of (key, entry)" using 2(4) e by (metis distinct.simps(2) image_eqI list.set_map list.simps(9))
    then have lt: "used_of e < ce_used entry" using 2(7) by (force simp: used_of_def)
    show ?thesis
    proof (cases "oldest = [] \<or> ce_used entry < used")
      case True
      then show ?thesis using 2(1) [OF True] 2(3,4,7) e lt by (auto simp: used_of_def)
    next
      case nF: False
      then show ?thesis using 2(2) [OF nF] 2(3,4,7,8) e lt by auto
    qed
  qed
qed simp

lemma too_big_mset: "mset es = mset fs \<Longrightarrow> too_big n es (records_of es) = too_big n fs (records_of fs)"
proof -
  assume m: "mset es = mset fs"
  then have "length es = length fs" by (rule mset_eq_length)
  moreover have "records_of es = records_of fs"
    using arg_cong [OF m, of "\<lambda>M. sum_mset (image_mset (\<lambda>e. scan_size (ce_scan (snd e))) M)"]
    by (simp add: records_of_def sum_mset_sum_list flip: mset_map)
  ultimately show ?thesis by (simp add: too_big_def)
qed

lemma evict_lru:
  assumes "cache_core c" "stamped c" "n \<le> maxCachedHistoryRecords" "evict seed n c = Some c'"
  shows "sort_key used_of (c_entries c') = lru_drop n (sort_key used_of (c_entries c))"
  using assms
proof (induction "length (c_entries c)" arbitrary: c seed rule: less_induct)
  case less
  let ?es = "c_entries c"
  note core = less.prems(1) [unfolded cache_core_def]
  have tb: "too_big n ?es (c_records c) = too_big n (sort_key used_of ?es) (records_of (sort_key used_of ?es))"
    using too_big_mset [of ?es "sort_key used_of ?es" n] core by simp
  show ?case
  proof (cases "too_big n ?es (c_records c)")
    case False
    then have "c' = c" using less.prems(4) by (subst (asm) evict.simps) simp
    then show ?thesis using False tb by (cases "sort_key used_of ?es") simp_all
  next
    case True
    have ne: "?es \<noteq> []" using too_big_nonempty [OF less.prems(1,3) True] .
    then obtain e es where s: "sort_key used_of ?es = e # es" by (metis length_0_conv length_sort neq_Nil_conv)
    have e: "e \<in> set ?es" "\<forall>f\<in>set ?es. used_of e \<le> used_of f"
    proof -
      have "set ?es = set (e # es)" using s by (metis set_sort)
      moreover have "sorted (map used_of (e # es))" using s by (metis sorted_sort_key)
      ultimately show "e \<in> set ?es" "\<forall>f\<in>set ?es. used_of e \<le> used_of f" by auto
    qed
    have dist: "distinct (map used_of (iterate_map (seed 0) ?es))"
      using less.prems(2) mset_eq_imp_distinct_iff [of "map used_of (iterate_map (seed 0) ?es)" "map used_of ?es"]
      by (simp add: stamped_def)
    have p: "pick_oldest [] 0 (iterate_map (seed 0) ?es) = fst e"
      using dist e ne less.prems(2) by (intro pick_oldest_least) (auto simp: stamped_def)
    let ?c = "removeLocked (fst e) c"
    have ent: "c_entries ?c = filter (\<lambda>f. fst f \<noteq> fst e) ?es" using less.prems(1) by (simp add: removeLocked_eq)
    note r = evict_round [OF less.prems(1) ne, of "seed 0", unfolded p]
    have st: "stamped ?c" using less.prems(1,2) by (auto simp: stamped_def removeLocked_eq distinct_map_filter)
    have ev: "evict (\<lambda>k. seed (Suc k)) n ?c = Some c'"
      using less.prems(4) True p by (subst (asm) evict.simps) simp
    have "distinct (map fst (e # es))"
      using core s by (metis distinct_map distinct_sort set_sort)
    then have "filter (\<lambda>f. fst f \<noteq> fst e) (e # es) = es" by (auto intro!: filter_True simp: image_iff)
    then have "sort_key used_of (c_entries ?c) = es"
      unfolding ent filter_sort [symmetric] s .
    then have "sort_key used_of (c_entries c') = lru_drop n es"
      using less.hyps [OF r(2,1) st less.prems(3) ev] by simp
    moreover have "lru_drop n (e # es) = lru_drop n es" using True tb by (simp add: s)
    ultimately show ?thesis by (simp add: s)
  qed
qed

subsection \<open>Runs of the cache\<close>

text \<open>
  What any interleaving of callers can do: a sequence of whole operations, with any result of
  \<open>os.Stat\<close>, on paths that are not empty. The number counts them.
\<close>

inductive cache_run :: "nat \<Rightarrow> scan_cache \<Rightarrow> bool" where
  run_init: "cache_run 0 empty_cache"
| run_load: "cache_run k c \<Longrightarrow> path \<noteq> [] \<Longrightarrow> cache_run (Suc k) (snd (load_scan stat path cutoff c))"
| run_save: "cache_run k c \<Longrightarrow> path \<noteq> [] \<Longrightarrow> save_scan seed stat path cutoff scan c = Some c' \<Longrightarrow> cache_run (Suc k) c'"
| run_remove: "cache_run k c \<Longrightarrow> cache_run (Suc k) (remove_entry path c)"

inductive_cases cache_run_0E: "cache_run 0 c"

lemma cache_ok_core: "cache_ok c \<Longrightarrow> cache_core c"
  by (simp add: cache_ok_def)

lemma removeLocked_absent: "cache_core c \<Longrightarrow> path \<notin> set (map fst (c_entries (removeLocked path c)))"
  by (simp add: removeLocked_eq) auto

text \<open>The shape of a successful save.\<close>

lemma save_scan_shape:
  assumes core: "cache_core c" and n: "scan_size scan \<le> maxCachedHistoryRecords"
  obtains c2 P where "evict seed (scan_size scan) (removeLocked path c) = Some c2"
    "save_scan seed (Some info) path cutoff scan c = Some (c2\<lparr>c_sequence := c_sequence c + 1,
       c_entries := c_entries c2 @ [(path, \<lparr>ce_info = info, ce_cutoff = cutoff, ce_scan = scan, ce_used = c_sequence c + 1\<rparr>)],
       c_records := c_records c2 + scan_size scan\<rparr>)"
    "cache_core c2" "\<not> too_big (scan_size scan) (c_entries c2) (c_records c2)"
    "c_entries c2 = filter P (c_entries (removeLocked path c))" "path \<notin> set (map fst (c_entries c2))"
proof -
  note c1 = removeLocked_core [OF core, of path]
  obtain c2 P where c2: "evict seed (scan_size scan) (removeLocked path c) = Some c2" "cache_core c2"
      "\<not> too_big (scan_size scan) (c_entries c2) (c_records c2)"
      "c_sequence c2 = c_sequence (removeLocked path c)" "c_entries c2 = filter P (c_entries (removeLocked path c))"
    using evict_total [OF c1 n] by blast
  have "c_sequence c2 = c_sequence c" using c2(4) core by (simp add: removeLocked_eq)
  moreover have ab: "path \<notin> set (map fst (c_entries c2))"
    unfolding c2(5) using removeLocked_absent [OF core, of path] by auto
  moreover have "set_entry path e (c_entries c2) = c_entries c2 @ [(path, e)]" for e
    using ab by (simp add: set_entry_def)
  ultimately show ?thesis using that [OF c2(1) _ c2(2,3,5) ab] n c2(1) by (simp add: save_scan_def Let_def)
qed

lemma save_scan_total: "cache_ok c \<Longrightarrow> \<exists>c'. save_scan seed stat path cutoff scan c = Some c' \<and> cache_ok c'"
proof (cases stat)
  case None
  then show "cache_ok c \<Longrightarrow> ?thesis" by (simp add: save_scan_def remove_entry_def removeLocked_ok)
next
  case (Some info)
  assume ok: "cache_ok c"
  note core = cache_ok_core [OF ok]
  show ?thesis
  proof (cases "scan_size scan > maxCachedHistoryRecords")
    case True
    with ok Some show ?thesis by (simp add: save_scan_def Let_def removeLocked_ok)
  next
    case False
    then have n: "scan_size scan \<le> maxCachedHistoryRecords" by simp
    show ?thesis
      by (rule save_scan_shape [OF core n, of seed path info cutoff])
        (auto simp: Some cache_ok_def cache_core_def too_big_def)
  qed
qed

lemma cache_run_ok: "cache_run k c \<Longrightarrow> cache_ok c"
proof (induction rule: cache_run.induct)
  case run_init
  then show ?case by (simp add: empty_cache_def cache_ok_def cache_core_def maxCachedHistoryStreams_def maxCachedHistoryRecords_def)
next
  case (run_save k c path seed stat cutoff scan c')
  then show ?case using save_scan_total [of c seed stat path cutoff scan] by auto
qed (simp_all add: load_scan_ok remove_entry_def removeLocked_ok)

lemma stamped_remove: "cache_core c \<Longrightarrow> stamped c \<Longrightarrow> stamped (removeLocked path c)"
  by (auto simp: stamped_def removeLocked_eq distinct_map_filter)

lemma word_Suc_stamp:
  fixes w :: "64 word"
  assumes "unat w \<le> k" "Suc k < 2 ^ 64"
  shows "unat (w + 1) = Suc (unat w)" "u \<le> w \<Longrightarrow> u < w + 1"
proof -
  show e: "unat (w + 1) = Suc (unat w)"
    using assms by (simp add: unat_word_ariths)
  show "u \<le> w \<Longrightarrow> u < w + 1" by (simp add: word_le_nat_alt word_less_nat_alt e)
qed

lemma stamped_replace:
  assumes "stamped c" "distinct (map fst (c_entries c))" "path \<noteq> []" "path \<in> set (map fst (c_entries c))" "\<forall>u. u \<le> c_sequence c \<longrightarrow> u < s" "ce_used entry = s"
  shows "stamped (c\<lparr>c_sequence := s, c_entries := set_entry path entry (c_entries c)\<rparr>)"
proof -
  have d: "distinct (map used_of (map (\<lambda>e. if fst e = path then (path, entry) else e) es))
      \<and> (\<forall>e\<in>set (map (\<lambda>e. if fst e = path then (path, entry) else e) es). used_of e \<le> s)"
    if "distinct (map used_of es)" "distinct (map fst es)" "\<forall>e\<in>set es. used_of e < s" for es
    using that
  proof (induction es)
    case (Cons e es)
    show ?case
    proof (cases "fst e = path")
      case True
      then have "map (\<lambda>e. if fst e = path then (path, entry) else e) es = es"
        using Cons.prems(2) by (intro map_idI) (auto simp: image_iff)
      with True Cons.prems assms(6) show ?thesis by (auto simp: used_of_def)
    next
      case False
      have "used_of e \<noteq> used_of (path, entry)" using Cons.prems(3) assms(6) by (auto simp: used_of_def)
      with False Cons show ?thesis by (auto simp: image_iff)
    qed
  qed simp
  have "\<forall>e\<in>set (c_entries c). used_of e < s" using assms(1,5) by (simp add: stamped_def)
  from d [OF _ assms(2) this] show ?thesis
    using assms(1,3,4) by (auto simp: stamped_def set_entry_def image_iff)
qed

lemma cache_run_stamped: "cache_run k c \<Longrightarrow> k < 2 ^ 64 \<Longrightarrow> stamped c \<and> unat (c_sequence c) \<le> k"
proof (induction rule: cache_run.induct)
  case run_init
  show ?case by (simp add: empty_cache_def stamped_def)
next
  case (run_load k c path stat cutoff)
  then have IH: "stamped c" "unat (c_sequence c) \<le> k" by simp_all
  have core: "cache_core c" using cache_run_ok [OF run_load(1)] by (rule cache_ok_core)
  note s = word_Suc_stamp [OF IH(2), OF run_load(4)]
  have hit: "stamped (c\<lparr>c_sequence := c_sequence c + 1, c_entries := set_entry path (cached\<lparr>ce_used := c_sequence c + 1\<rparr>) (c_entries c)\<rparr>)"
    if "map_of (c_entries c) path = Some cached" for cached
  proof (rule stamped_replace [OF IH(1) _ run_load(2)])
    show "distinct (map fst (c_entries c))" using core by (simp add: cache_core_def)
    show "path \<in> set (map fst (c_entries c))"
      using that map_of_eq_None_iff [of "c_entries c" path] by (cases "path \<in> set (map fst (c_entries c))") auto
  qed (use s in auto)
  show ?case
    using IH hit s stamped_remove [OF core IH(1), of path]
    by (auto simp: load_scan_def remove_entry_def Let_def removeLocked_eq [OF core] split: option.splits)
next
  case (run_save k c path seed stat cutoff scan c')
  then have IH: "stamped c" "unat (c_sequence c) \<le> k" by simp_all
  have core: "cache_core c" using cache_run_ok [OF run_save(1)] by (rule cache_ok_core)
  note s = word_Suc_stamp [OF IH(2), OF run_save(5)]
  note rem = stamped_remove [OF core IH(1), of path]
  show ?case
  proof (cases "stat = None \<or> scan_size scan > maxCachedHistoryRecords")
    case True
    then have "c' = removeLocked path c" using run_save(3) by (auto simp: save_scan_def remove_entry_def Let_def split: option.splits)
    then show ?thesis using rem IH by (simp add: removeLocked_eq [OF core])
  next
    case False
    then obtain info where i: "stat = Some info" and n: "scan_size scan \<le> maxCachedHistoryRecords" by auto
    show ?thesis
    proof (rule save_scan_shape [OF core n, of seed path info cutoff])
      fix c2 P
      assume c2: "save_scan seed (Some info) path cutoff scan c = Some (c2\<lparr>c_sequence := c_sequence c + 1,
         c_entries := c_entries c2 @ [(path, \<lparr>ce_info = info, ce_cutoff = cutoff, ce_scan = scan, ce_used = c_sequence c + 1\<rparr>)],
         c_records := c_records c2 + scan_size scan\<rparr>)"
        and P: "c_entries c2 = filter P (c_entries (removeLocked path c))"
      have "distinct (map used_of (c_entries c2))"
        using rem distinct_map_filter unfolding P stamped_def by blast
      moreover have "\<forall>e\<in>set (c_entries c2). used_of e < c_sequence c + 1" "[] \<notin> set (map fst (c_entries c2))"
        using rem s(2) unfolding P by (auto simp: stamped_def removeLocked_eq [OF core])
      ultimately have st: "distinct (map used_of (c_entries c2))" "\<forall>e\<in>set (c_entries c2). used_of e < c_sequence c + 1"
          "[] \<notin> set (map fst (c_entries c2))" by blast+
      have "used_of (path, \<lparr>ce_info = info, ce_cutoff = cutoff, ce_scan = scan, ce_used = c_sequence c + 1\<rparr>) = c_sequence c + 1"
        by (simp add: used_of_def)
      moreover have "c_sequence c + 1 \<notin> used_of ` set (c_entries c2)"
        using st(2) by (metis imageE order_less_irrefl)
      moreover have "c' = c2\<lparr>c_sequence := c_sequence c + 1,
         c_entries := c_entries c2 @ [(path, \<lparr>ce_info = info, ce_cutoff = cutoff, ce_scan = scan, ce_used = c_sequence c + 1\<rparr>)],
         c_records := c_records c2 + scan_size scan\<rparr>"
        using run_save(3) c2 by (simp add: i)
      ultimately show ?thesis using st run_save(2) s(1) IH(2) by (simp add: stamped_def order_less_imp_le)
    qed
  qed
next
  case (run_remove k c path)
  then have IH: "stamped c" "unat (c_sequence c) \<le> k" by simp_all
  have core: "cache_core c" using cache_run_ok [OF run_remove(1)] by (rule cache_ok_core)
  show ?case using IH stamped_remove [OF core IH(1), of path] by (simp add: remove_entry_def removeLocked_eq [OF core])
qed

text \<open>C17. Whatever the callers do, the cache keeps its bounds and its books: at most 128 files and
  100000 records, one entry per path, and the record counter is exactly the number of snapshots and
  corrupt lines held.\<close>

theorem cache_invariant:
  assumes "cache_run k c"
  shows "length (c_entries c) \<le> 128 \<and> c_records c \<le> 100000 \<and> distinct (map fst (c_entries c))
    \<and> c_records c = sum_list (map (\<lambda>e. int (length (sc_retained (ce_scan (snd e))))
                                       + int (length (sc_corruptLines (ce_scan (snd e))))) (c_entries c))"
  using cache_run_ok [OF assms]
  by (auto simp: cache_ok_def cache_core_def records_of_def scan_size_def maxCachedHistoryStreams_def maxCachedHistoryRecords_def)

text \<open>C24. The eviction loop always ends: on every cache a run can reach, saving a scan of any size under
  any path returns, whatever order the map is ranged over in, and the next state is again within the
  bounds.\<close>

theorem save_terminates:
  assumes "cache_run k c"
  shows "\<exists>c'. save_scan seed stat path cutoff scan c = Some c' \<and> length (c_entries c') \<le> 128 \<and> c_records c' \<le> 100000"
  using save_scan_total [OF cache_run_ok [OF assms], of seed stat path cutoff scan]
  by (auto simp: cache_ok_def maxCachedHistoryStreams_def maxCachedHistoryRecords_def)

definition sample_info :: file_info where
  "sample_info = \<lparr>fi_ident = 1, fi_size = 40, fi_mtime = 5\<rparr>"

definition sample_scan :: history_scan where
  "sample_scan = \<lparr>sc_total = 1, sc_expired = 0, sc_retained = [sample_snapshot 50 90 ''OK''], sc_corruptLines = []\<rparr>"

definition sample_cache :: scan_cache where
  "sample_cache = \<lparr>c_entries = [(''a'', \<lparr>ce_info = sample_info, ce_cutoff = 10, ce_scan = sample_scan, ce_used = 1\<rparr>)],
     c_records = 1, c_sequence = 1\<rparr>"

lemma sample_save: "save_scan seed (Some sample_info) ''a'' 10 sample_scan empty_cache = Some sample_cache"
  by (subst save_scan_def, simp add: Let_def, subst evict.simps)
    (simp add: empty_cache_def sample_scan_def scan_size_def removeLocked_def too_big_def set_entry_def sample_cache_def
      maxCachedHistoryRecords_def maxCachedHistoryStreams_def)

lemma sample_run: "cache_run (Suc 0) sample_cache"
  by (rule run_save [OF run_init _ sample_save]) simp

theorem cache_invariant_witness: "length (c_entries sample_cache) \<le> 128 \<and> c_records sample_cache = 1"
  using cache_invariant [OF sample_run] by (simp add: sample_cache_def)

theorem save_terminates_witness:
  "\<exists>c'. save_scan (\<lambda>k. []) (Some sample_info) ''b'' 10 sample_scan sample_cache = Some c' \<and> c_records c' \<le> 100000"
  using save_terminates [OF sample_run, of "\<lambda>k. []" "Some sample_info" "''b''" 10 sample_scan] by blast

text \<open>C26. Saving evicts least recently used first, and only as much as it must: sorted by use, the
  entries afterwards are those before, without the saved path and without the shortest prefix whose
  removal makes room, followed by the new entry; the random iteration order of the map has no influence
  on the result.\<close>

theorem save_evicts_lru:
  assumes run: "cache_run k c" and k: "Suc k < 2 ^ 64" and n: "scan_size scan \<le> 100000" and path: "path \<noteq> []"
  shows "\<exists>c' e. save_scan seed (Some info) path cutoff scan c = Some c'
    \<and> save_scan seed' (Some info) path cutoff scan c = Some c'
    \<and> fst e = path \<and> ce_scan (snd e) = scan \<and> ce_cutoff (snd e) = cutoff \<and> ce_info (snd e) = info
    \<and> sort_key used_of (c_entries c') =
        lru_drop (scan_size scan) (sort_key used_of (filter (\<lambda>e. fst e \<noteq> path) (c_entries c))) @ [e]"
proof -
  have n': "scan_size scan \<le> maxCachedHistoryRecords" using n by (simp add: maxCachedHistoryRecords_def)
  have core: "cache_core c" using cache_run_ok [OF run] by (rule cache_ok_core)
  have st: "stamped c" "unat (c_sequence c) \<le> k" using cache_run_stamped [OF run] k by simp_all
  note s = word_Suc_stamp [OF st(2) k]
  let ?c1 = "removeLocked path c"
  have core1: "cache_core ?c1" and st1: "stamped ?c1" using removeLocked_core stamped_remove core st(1) by blast+
  define e where "e = (path, \<lparr>ce_info = info, ce_cutoff = cutoff, ce_scan = scan, ce_used = c_sequence c + 1\<rparr>)"
  have res: "\<exists>fs P. save_scan sd (Some info) path cutoff scan c = Some \<lparr>c_entries = fs @ [e],
         c_records = records_of fs + scan_size scan, c_sequence = c_sequence c + 1\<rparr>
      \<and> fs = filter P (c_entries ?c1)
      \<and> sort_key used_of fs = lru_drop (scan_size scan) (sort_key used_of (c_entries ?c1))" for sd
  proof (rule save_scan_shape [OF core n', of sd path info cutoff])
    fix c2 P
    assume c2: "evict sd (scan_size scan) ?c1 = Some c2" "cache_core c2" "c_entries c2 = filter P (c_entries ?c1)"
      and sv: "save_scan sd (Some info) path cutoff scan c = Some (c2\<lparr>c_sequence := c_sequence c + 1,
       c_entries := c_entries c2 @ [(path, \<lparr>ce_info = info, ce_cutoff = cutoff, ce_scan = scan, ce_used = c_sequence c + 1\<rparr>)],
       c_records := c_records c2 + scan_size scan\<rparr>)"
    have "save_scan sd (Some info) path cutoff scan c = Some \<lparr>c_entries = c_entries c2 @ [e],
         c_records = records_of (c_entries c2) + scan_size scan, c_sequence = c_sequence c + 1\<rparr>"
      using sv c2(2) by (simp add: e_def cache_core_def)
    then show ?thesis using c2(3) evict_lru [OF core1 st1 n' c2(1)] by blast
  qed
  obtain fs P where fs: "save_scan seed (Some info) path cutoff scan c = Some \<lparr>c_entries = fs @ [e],
         c_records = records_of fs + scan_size scan, c_sequence = c_sequence c + 1\<rparr>"
      "fs = filter P (c_entries ?c1)"
      "sort_key used_of fs = lru_drop (scan_size scan) (sort_key used_of (c_entries ?c1))" using res [of seed] by blast
  obtain gs Q where gs: "save_scan seed' (Some info) path cutoff scan c = Some \<lparr>c_entries = gs @ [e],
         c_records = records_of gs + scan_size scan, c_sequence = c_sequence c + 1\<rparr>"
      "gs = filter Q (c_entries ?c1)"
      "sort_key used_of gs = lru_drop (scan_size scan) (sort_key used_of (c_entries ?c1))" using res [of seed'] by blast
  have "set fs = set gs" using fs(3) gs(3) by (metis set_sort)
  then have "filter P (c_entries ?c1) = filter Q (c_entries ?c1)" unfolding fs(2) gs(2) by (intro filter_cong) auto
  then have eq: "fs = gs" using fs(2) gs(2) by simp
  have "\<forall>f\<in>set fs. used_of f < used_of e"
    using s(2) st1 core unfolding fs(2) by (auto simp: stamped_def e_def used_of_def [of "(path, _)"] removeLocked_eq)
  then have "sort_key used_of (fs @ [e]) = sort_key used_of fs @ [e]"
    by (intro sort_key_last) (auto simp: order_less_imp_le)
  moreover have "c_entries ?c1 = filter (\<lambda>e. fst e \<noteq> path) (c_entries c)" using core by (simp add: removeLocked_eq)
  ultimately show ?thesis using fs gs(1) eq by (intro exI [where x = "\<lparr>c_entries = fs @ [e],
         c_records = records_of fs + scan_size scan, c_sequence = c_sequence c + 1\<rparr>"] exI [where x = e])
      (simp add: e_def)
qed

theorem save_evicts_lru_witness:
  "\<exists>c' e. save_scan (\<lambda>_. [3, 1]) (Some sample_info) ''b'' 10 sample_scan sample_cache = Some c'
    \<and> sort_key used_of (c_entries c') = sort_key used_of (c_entries sample_cache) @ [e]"
proof -
  have "scan_size sample_scan = 1" by (simp add: scan_size_def sample_scan_def)
  then show ?thesis
    using save_evicts_lru [OF sample_run, of sample_scan "''b''" "\<lambda>_. [3, 1]" sample_info 10 "\<lambda>_. []"]
    by (auto simp: sample_cache_def too_big_def maxCachedHistoryStreams_def maxCachedHistoryRecords_def)
qed

subsection \<open>The contract the history store relies on\<close>

text \<open>
  What a file's reader may assume of a cache of scans: it never fails, it holds nothing but what was
  stored, forgetting forgets, and a hit is a stored scan for the same file with an earlier cutoff,
  trimmed to the new one. Nothing promises that something is found.
\<close>

type_synonym held = "file_info \<times> int \<times> history_scan"

locale scan_memo =
  fixes ok :: "'c \<Rightarrow> bool"
    and held :: "'c \<Rightarrow> string \<Rightarrow> held option"
    and look :: "file_info option \<Rightarrow> string \<Rightarrow> int \<Rightarrow> 'c \<Rightarrow> history_scan option \<times> 'c"
    and keep :: "file_info option \<Rightarrow> string \<Rightarrow> int \<Rightarrow> history_scan \<Rightarrow> 'c \<Rightarrow> 'c option"
    and forget :: "string \<Rightarrow> 'c \<Rightarrow> 'c"
  assumes forget_ok: "ok c \<Longrightarrow> ok (forget p c)"
    and look_ok: "ok c \<Longrightarrow> ok (snd (look i p t c))"
    and keep_ok: "ok c \<Longrightarrow> \<exists>c'. keep i p t s c = Some c' \<and> ok c'"
    and forget_held: "ok c \<Longrightarrow> held (forget p c) = (held c)(p := None)"
    and look_held: "ok c \<Longrightarrow> held (snd (look i p t c)) \<subseteq>\<^sub>m held c"
    and keep_held: "ok c \<Longrightarrow> keep (Some i1) p t s c = Some c' \<Longrightarrow> held c' \<subseteq>\<^sub>m (held c)(p \<mapsto> (i1, t, s))"
    and keep_none: "ok c \<Longrightarrow> keep None p t s c = Some c' \<Longrightarrow> held c' \<subseteq>\<^sub>m held c"
    and look_hit: "ok c \<Longrightarrow> look i p t c = (Some r, c') \<Longrightarrow>
      \<exists>i0 i1 t0 s. i = Some i1 \<and> held c p = Some (i0, t0, s) \<and> same_file i1 i0 \<and> t0 \<le> t \<and> r = trim_scan t s"
begin

text \<open>A property of everything held is an invariant once it holds of what is stored.\<close>

definition all_held :: "(string \<Rightarrow> held \<Rightarrow> bool) \<Rightarrow> 'c \<Rightarrow> bool" where
  "all_held P c \<longleftrightarrow> (\<forall>p h. held c p = Some h \<longrightarrow> P p h)"

lemma all_held_mono: "all_held P c \<Longrightarrow> held c' \<subseteq>\<^sub>m held c \<Longrightarrow> all_held P c'"
  unfolding all_held_def map_le_def by (metis domI)

lemma all_held_look: "ok c \<Longrightarrow> all_held P c \<Longrightarrow> all_held P (snd (look i p t c))"
  using all_held_mono look_held by blast

lemma all_held_forget:
  "ok c \<Longrightarrow> (\<And>q h. q \<noteq> p \<Longrightarrow> held c q = Some h \<Longrightarrow> P q h) \<Longrightarrow> all_held P (forget p c)"
  unfolding all_held_def by (simp add: forget_held)

lemma all_held_keep:
  assumes "ok c" "keep i p t s c = Some c'" "all_held P c" "\<And>i1. i = Some i1 \<Longrightarrow> P p (i1, t, s)"
  shows "all_held P c'"
proof (cases i)
  case None
  then show ?thesis using assms keep_none all_held_mono by blast
next
  case (Some i1)
  have le: "held c' \<subseteq>\<^sub>m (held c)(p \<mapsto> (i1, t, s))" using keep_held assms(1,2) Some by blast
  show ?thesis unfolding all_held_def
  proof (intro allI impI)
    fix q h
    assume "held c' q = Some h"
    with le have "((held c)(p \<mapsto> (i1, t, s))) q = Some h" unfolding map_le_def by (metis domI)
    then show "P q h" using assms(3) assms(4) [OF Some] unfolding all_held_def
      by (cases "q = p") (simp_all del: split_paired_All)
  qed
qed

end

definition cache_held :: "scan_cache \<Rightarrow> string \<Rightarrow> held option" where
  "cache_held c path = map_option (\<lambda>e. (ce_info e, ce_cutoff e, ce_scan e)) (map_of (c_entries c) path)"

lemma map_of_filter_keys: "map_of (filter (\<lambda>e. fst e \<noteq> path) es) = (map_of es)(path := None)"
proof (induction es)
  case (Cons e es)
  then show ?case by (cases e) (auto simp: fun_eq_iff)
qed simp

lemma map_of_filter_le:
  assumes "distinct (map fst es)"
  shows "map_of (filter P es) \<subseteq>\<^sub>m map_of es"
  unfolding map_le_def
proof
  fix k
  assume "k \<in> dom (map_of (filter P es))"
  then obtain v where v: "map_of (filter P es) k = Some v" by blast
  then have "(k, v) \<in> set es" using map_of_SomeD by fastforce
  with assms v show "map_of (filter P es) k = map_of es k" by simp
qed

lemma cache_held_remove: "cache_ok c \<Longrightarrow> cache_held (removeLocked path c) = (cache_held c)(path := None)"
  by (auto simp: cache_held_def removeLocked_eq [OF cache_ok_core] map_of_filter_keys fun_eq_iff)

lemma cache_held_load: "cache_ok c \<Longrightarrow> cache_held (snd (load_scan i p t c)) \<subseteq>\<^sub>m cache_held c"
proof -
  assume ok: "cache_ok c"
  have "cache_held (c\<lparr>c_sequence := s, c_entries := set_entry p (e\<lparr>ce_used := s\<rparr>) (c_entries c)\<rparr>) = cache_held c"
    if "map_of (c_entries c) p = Some e" for e s
    using that by (simp add: cache_held_def map_of_set_entry fun_eq_iff)
  then show ?thesis
    using cache_held_remove [OF ok, of p]
    by (auto simp: load_scan_def remove_entry_def Let_def map_le_def split: option.splits)
qed

interpretation memo: scan_memo cache_ok cache_held load_scan "save_scan seed" remove_entry
proof (unfold_locales, goal_cases)
  case (1 c p)
  then show ?case by (simp add: remove_entry_def removeLocked_ok)
next
  case (2 c i p t)
  then show ?case by (rule load_scan_ok)
next
  case (3 c i p t s)
  then show ?case by (rule save_scan_total)
next
  case (4 c p)
  then show ?case by (simp add: remove_entry_def cache_held_remove)
next
  case (5 c i p t)
  then show ?case by (rule cache_held_load)
next
  case (6 c i p t s c')
  note core = cache_ok_core [OF 6(1)]
  show ?case
  proof (cases "scan_size s > maxCachedHistoryRecords")
    case True
    then have "c' = removeLocked p c" using 6(2) by (simp add: save_scan_def Let_def)
    then show ?thesis using cache_held_remove [OF 6(1)] by (auto simp: map_le_def)
  next
    case False
    then have n: "scan_size s \<le> maxCachedHistoryRecords" by simp
    show ?thesis
    proof (rule save_scan_shape [OF core n, of seed p i t])
      fix c2 P
      assume c2: "save_scan seed (Some i) p t s c = Some (c2\<lparr>c_sequence := c_sequence c + 1,
         c_entries := c_entries c2 @ [(p, \<lparr>ce_info = i, ce_cutoff = t, ce_scan = s, ce_used = c_sequence c + 1\<rparr>)],
         c_records := c_records c2 + scan_size s\<rparr>)"
        and P: "c_entries c2 = filter P (c_entries (removeLocked p c))" and p: "p \<notin> set (map fst (c_entries c2))"
      have "map_of (c_entries c2) \<subseteq>\<^sub>m map_of (c_entries (removeLocked p c))"
        unfolding P using removeLocked_core [OF core] by (intro map_of_filter_le) (simp add: cache_core_def)
      moreover have "map_of (c_entries (removeLocked p c)) \<subseteq>\<^sub>m map_of (c_entries c)"
        using core map_of_filter_le [of "c_entries c"] by (simp add: removeLocked_eq cache_core_def)
      ultimately have le: "map_of (c_entries c2) \<subseteq>\<^sub>m map_of (c_entries c)" by (rule map_le_trans)
      have c': "cache_held c' = (cache_held c2)(p \<mapsto> (i, t, s))"
        using 6(2) c2 map_of_eq_None_iff [THEN iffD2, OF p [unfolded set_map]]
        by (auto simp: cache_held_def fun_eq_iff map_add_def split: option.splits)
      show ?thesis unfolding c'
      proof (unfold map_le_def, intro ballI)
        fix q
        assume "q \<in> dom ((cache_held c2)(p \<mapsto> (i, t, s)))"
        then show "((cache_held c2)(p \<mapsto> (i, t, s))) q = ((cache_held c)(p \<mapsto> (i, t, s))) q"
          using le by (cases "q = p") (auto simp: map_le_def cache_held_def dom_def)
      qed
    qed
  qed
next
  case (7 c p t s c')
  then have "c' = removeLocked p c" by (simp add: save_scan_def remove_entry_def)
  then show ?case using cache_held_remove [OF 7(1)] by (auto simp: map_le_def)
next
  case (8 c i p t r c')
  then show ?case
    by (auto simp: load_scan_def cache_held_def Let_def not_less split: option.splits if_splits)
qed

end
