(* ===== verification/HistoryStore.thy ===== *)
theory HistoryStore
  imports ScanCache
begin

section \<open>The history store\<close>

text \<open>
  \<open>internal/history/store.go\<close>, \<open>recorder.go\<close>, \<open>key.go\<close>, \<open>filename.go\<close> and \<open>lock.go\<close>. The files are a
  map from paths to what \<open>os.Stat\<close> reports and the bytes; every operation runs under the file's lock,
  so it sees one state of its file. What the operating system may do to a call is the argument
  \<open>io\<close>: which step fails and how much of a write went through. The JSON codec of a snapshot is the
  argument \<open>C\<close>; its decoder sees one trimmed line. SHA-256 is the argument \<open>sha\<close> of the file name.
\<close>

subsection \<open>Keys and file names\<close>

record snapshot_key =
  sk_Cluster :: string
  sk_Namespace :: string
  sk_Name :: string
  sk_UID :: string

definition key_string :: "snapshot_key \<Rightarrow> string" where
  "key_string k = sk_Cluster k @ ''/'' @ sk_Namespace k @ ''/'' @ sk_Name k @ ''@'' @ sk_UID k"

definition key_validate :: "snapshot_key \<Rightarrow> go_error option" where
  "key_validate k =
     (if sk_Namespace k = [] \<or> sk_Name k = [] then Some (plain_err ''namespace and name must not be empty'') else None)"

definition maxHistoryFilenameLength :: nat where "maxHistoryFilenameLength = 240"
definition maxFilenameSegmentLength :: nat where "maxFilenameSegmentLength = 200"

definition clean_char :: "char \<Rightarrow> char" where
  "clean_char c = (if (of_char c :: nat) < 32 \<or> (of_char c :: nat) = 127 then CHR ''_''
     else if c = CHR ''/'' then CHR ''_'' else if c = CHR 0x5C then CHR ''_'' else c)"

definition sanitizeFilename :: "string \<Rightarrow> string" where
  "sanitizeFilename s0 =
     (let s = map clean_char s0;
          s = (if s = [] \<or> s = ''.'' \<or> has_prefix s ''..'' then ''_'' @ s else s)
      in if length s > maxFilenameSegmentLength then take maxFilenameSegmentLength s else s)"

definition hex_byte :: "nat \<Rightarrow> string" where
  "hex_byte n = [hex_digit (n div 16), hex_digit (n mod 16)]"

definition key_digest :: "(string \<Rightarrow> nat list) \<Rightarrow> snapshot_key \<Rightarrow> nat list" where
  "key_digest sha k =
     take 6 (sha (sk_Cluster k @ [CHR 0x00] @ sk_Namespace k @ [CHR 0x00] @ sk_Name k @ [CHR 0x00] @ sk_UID k))"

definition file_name :: "(string \<Rightarrow> nat list) \<Rightarrow> snapshot_key \<Rightarrow> string" where
  "file_name sha k =
     (let prefix = sanitizeFilename (sk_Cluster k) @ ''_'' @ sanitizeFilename (sk_Namespace k) @ ''_'' @ sanitizeFilename (sk_Name k);
          suffix = ''_'' @ concat (map hex_byte (key_digest sha k)) @ ''.jsonl'';
          prefix = (if length prefix + length suffix > maxHistoryFilenameLength
                    then take (maxHistoryFilenameLength - length suffix) prefix else prefix)
      in prefix @ suffix)"

text \<open>\<open>filepath.Join\<close> of a cleaned directory and a plain name.\<close>

definition filePath :: "string \<Rightarrow> (string \<Rightarrow> nat list) \<Rightarrow> snapshot_key \<Rightarrow> string" where
  "filePath dir sha k = dir @ ''/'' @ file_name sha k"

subsection \<open>Files and what can go wrong\<close>

record hfile =
  hf_info :: file_info
  hf_data :: string

type_synonym fs = "string \<Rightarrow> hfile option"

record snap_codec =
  enc :: "health_snapshot \<Rightarrow> go_error + string"
  dec :: "string \<Rightarrow> health_snapshot option"

record io_plan =
  io_lock :: "go_error option"
  io_stat_load :: bool
  io_stat_save :: bool
  io_read_open :: "go_error option"
  io_read :: "(nat \<times> go_error) option"
  io_open :: "go_error option"
  io_chmod :: "go_error option"
  io_write :: "(nat \<times> go_error) option"
  io_sync :: "go_error option"
  io_close :: "go_error option"
  io_create :: "go_error option"
  io_tmp_write :: "(nat \<times> go_error) option"
  io_flush :: "go_error option"
  io_rename :: "go_error option"
  io_ident :: nat
  io_mtime :: int

text \<open>No failure: the file written last gets identity \<open>k\<close> and modification time \<open>t\<close>.\<close>

definition io_fine :: "nat \<Rightarrow> int \<Rightarrow> io_plan" where
  "io_fine k t = \<lparr>io_lock = None, io_stat_load = True, io_stat_save = True, io_read_open = None, io_read = None,
     io_open = None, io_chmod = None, io_write = None, io_sync = None, io_close = None, io_create = None,
     io_tmp_write = None, io_flush = None, io_rename = None, io_ident = k, io_mtime = t\<rparr>"

definition os_stat :: "bool \<Rightarrow> fs \<Rightarrow> string \<Rightarrow> file_info option" where
  "os_stat works files path = (if works then map_option hf_info (files path) else None)"

subsection \<open>Scanning a file\<close>

text \<open>
  \<open>bufio.Scanner\<close> with \<open>ScanLines\<close> and a buffer of one megabyte: the text up to a line feed, a carriage
  return before it dropped, the rest of the file as the last line unless it is empty; a line that
  does not fit ends the scan.
\<close>

fun split_lines :: "string \<Rightarrow> string \<Rightarrow> string list" where
  "split_lines line [] = (if line = [] then [] else [line])"
| "split_lines line (c # cs) = (if c = CHR 0x0A then line # split_lines [] cs else split_lines (line @ [c]) cs)"

definition max_line :: nat where "max_line = 1048576"

definition drop_cr :: "string \<Rightarrow> string" where
  "drop_cr line = (if line \<noteq> [] \<and> last line = CHR 0x0D then butlast line else line)"

definition empty_scan :: history_scan where
  "empty_scan = \<lparr>sc_total = 0, sc_expired = 0, sc_retained = [], sc_corruptLines = []\<rparr>"

definition read_error :: "int \<Rightarrow> go_error \<Rightarrow> go_error" where
  "read_error lineNum e = wrap_err (''reading health store file at line '' @ show_int lineNum @ '': '') e"

definition classify_line :: "snap_codec \<Rightarrow> int \<Rightarrow> int \<Rightarrow> string \<Rightarrow> history_scan \<Rightarrow> history_scan" where
  "classify_line C cutoff lineNum raw scan =
     (let line = trim_space (drop_cr raw)
      in if line = [] then scan
         else case dec C line of
                None \<Rightarrow> scan\<lparr>sc_corruptLines := sc_corruptLines scan @ [lineNum]\<rparr>
              | Some snap \<Rightarrow>
                  if hs_Timestamp snap > cutoff
                  then scan\<lparr>sc_total := sc_total scan + 1, sc_retained := sc_retained scan @ [snap]\<rparr>
                  else scan\<lparr>sc_total := sc_total scan + 1, sc_expired := sc_expired scan + 1\<rparr>)"

fun scan_loop :: "snap_codec \<Rightarrow> int \<Rightarrow> int \<Rightarrow> history_scan \<Rightarrow> string list \<Rightarrow> history_scan \<times> go_error option" where
  "scan_loop C cutoff lineNum scan [] = (scan, None)"
| "scan_loop C cutoff lineNum scan (raw # rest) =
     (if length raw \<ge> max_line then (scan, Some (read_error lineNum (plain_err ''bufio.Scanner: token too long'')))
      else scan_loop C cutoff (lineNum + 1) (classify_line C cutoff (lineNum + 1) raw scan) rest)"

definition sort_retained :: "health_snapshot list \<Rightarrow> health_snapshot list" where
  "sort_retained ss = (if sorted (map hs_Timestamp ss) then ss else sort_key hs_Timestamp ss)"

definition add_duration :: "int \<Rightarrow> int \<Rightarrow> int" where
  "add_duration t d = t + d"

definition cutoff_of :: "int \<Rightarrow> int \<Rightarrow> int" where
  "cutoff_of now retention = add_duration now (wrap64 (- retention))"

definition scan_bytes :: "snap_codec \<Rightarrow> int \<Rightarrow> string \<Rightarrow> history_scan \<times> go_error option" where
  "scan_bytes C cutoff bytes = scan_loop C cutoff 0 empty_scan (split_lines [] bytes)"

definition scanHistoryFile :: "snap_codec \<Rightarrow> io_plan \<Rightarrow> fs \<Rightarrow> string \<Rightarrow> int \<Rightarrow> int \<Rightarrow> history_scan \<times> go_error option" where
  "scanHistoryFile C io files path retention now = (case files path of
     None \<Rightarrow> (empty_scan, None)
   | Some f \<Rightarrow> (case io_read_open io of
       Some e \<Rightarrow> (empty_scan, Some (wrap_err ''opening health store file: '' e))
     | None \<Rightarrow>
         (let cutoff = cutoff_of now retention;
              bytes = (case io_read io of None \<Rightarrow> hf_data f | Some (n, _) \<Rightarrow> take n (hf_data f))
          in case scan_bytes C cutoff bytes of
               (scan, Some e) \<Rightarrow> (scan, Some e)
             | (scan, None) \<Rightarrow> (case io_read io of
                 Some (_, e) \<Rightarrow> (scan, Some (read_error (int (length (split_lines [] bytes))) e))
               | None \<Rightarrow> (scan\<lparr>sc_retained := sort_retained (sc_retained scan)\<rparr>, None)))))"

text \<open>The result and the cache after it; \<^const>\<open>None\<close> if the eviction loop did not end.\<close>

definition cachedHistoryScan ::
    "snap_codec \<Rightarrow> (nat \<Rightarrow> nat list) \<Rightarrow> io_plan \<Rightarrow> fs \<Rightarrow> scan_cache \<Rightarrow> string \<Rightarrow> int \<Rightarrow> int
      \<Rightarrow> ((history_scan \<times> go_error option) \<times> scan_cache) option" where
  "cachedHistoryScan C seed io files c path retention now =
     (let cutoff = cutoff_of now retention
      in case load_scan (os_stat (io_stat_load io) files path) path cutoff c of
           (Some scan, c1) \<Rightarrow> Some ((scan, None), c1)
         | (None, c1) \<Rightarrow>
             (case scanHistoryFile C io files path retention now of
                (scan, None) \<Rightarrow> do {
                  c2 \<leftarrow> save_scan seed (os_stat (io_stat_save io) files path) path cutoff scan c1;
                  Some ((scan, None), c2)
                }
              | (scan, Some e) \<Rightarrow> Some ((scan, Some e), c1)))"

subsection \<open>Writing a file\<close>

definition write_file :: "fs \<Rightarrow> string \<Rightarrow> nat \<Rightarrow> int \<Rightarrow> string \<Rightarrow> fs" where
  "write_file files path ident mtime bytes =
     files(path \<mapsto> \<lparr>hf_info = \<lparr>fi_ident = ident, fi_size = int (length bytes), fi_mtime = mtime\<rparr>, hf_data = bytes\<rparr>)"

definition append_file :: "fs \<Rightarrow> string \<Rightarrow> io_plan \<Rightarrow> string \<Rightarrow> fs" where
  "append_file files path io bytes = (case files path of
     None \<Rightarrow> write_file files path (io_ident io) (io_mtime io) bytes
   | Some f \<Rightarrow> write_file files path (fi_ident (hf_info f)) (io_mtime io) (hf_data f @ bytes))"

text \<open>Opening for append creates a missing file and leaves an existing one as it is.\<close>

definition create_missing :: "fs \<Rightarrow> string \<Rightarrow> io_plan \<Rightarrow> fs" where
  "create_missing files path io =
     (if files path = None then write_file files path (io_ident io) (io_mtime io) [] else files)"

definition line_feed :: string where "line_feed = [CHR 0x0A]"

definition appendSnapshotLine ::
    "snap_codec \<Rightarrow> io_plan \<Rightarrow> fs \<Rightarrow> scan_cache \<Rightarrow> string \<Rightarrow> health_snapshot \<Rightarrow> fs \<times> scan_cache \<times> go_error option" where
  "appendSnapshotLine C io files c0 path snapshot =
     (let c = remove_entry path c0
      in case io_open io of
           Some e \<Rightarrow> (files, c, Some (wrap_err ''opening health store file: '' e))
         | None \<Rightarrow>
       (let files1 = create_missing files path io
        in case io_chmod io of
             Some e \<Rightarrow> (files1, c, Some (wrap_err ''securing health store file: '' e))
           | None \<Rightarrow>
         (case enc C snapshot of
            Inl e \<Rightarrow> (files1, c, Some (wrap_err ''marshaling health snapshot: '' e))
          | Inr text \<Rightarrow>
         (case io_write io of
            Some (n, e) \<Rightarrow> (append_file files1 path io (take n (text @ line_feed)), c, Some (wrap_err ''writing health snapshot: '' e))
          | None \<Rightarrow>
         (let files2 = append_file files1 path io (text @ line_feed)
          in case io_sync io of
               Some e \<Rightarrow> (files2, c, Some (wrap_err ''syncing health snapshot: '' e))
             | None \<Rightarrow> (case io_close io of
                 Some e \<Rightarrow> (files2, c, Some (wrap_err ''closing health snapshot: '' e))
               | None \<Rightarrow> (files2, c, None)))))))"

text \<open>The lines of a rewritten file; the buffered write may fail at any snapshot.\<close>

fun encode_all :: "snap_codec \<Rightarrow> (nat \<times> go_error) option \<Rightarrow> nat \<Rightarrow> health_snapshot list \<Rightarrow> go_error + string" where
  "encode_all C fail k [] = Inr []"
| "encode_all C fail k (s # ss) = (case enc C s of
     Inl e \<Rightarrow> Inl (wrap_err ''marshaling retained health snapshot: '' e)
   | Inr text \<Rightarrow>
       (if (case fail of Some (n, _) \<Rightarrow> n = k | None \<Rightarrow> False)
        then Inl (wrap_err ''writing retained health snapshot: '' (snd (the fail)))
        else case encode_all C fail (Suc k) ss of
               Inl e \<Rightarrow> Inl e
             | Inr rest \<Rightarrow> Inr (text @ line_feed @ rest)))"

definition replaceSnapshots ::
    "snap_codec \<Rightarrow> io_plan \<Rightarrow> fs \<Rightarrow> scan_cache \<Rightarrow> string \<Rightarrow> health_snapshot list \<Rightarrow> fs \<times> scan_cache \<times> go_error option" where
  "replaceSnapshots C io files c0 path snapshots =
     (let c = remove_entry path c0
      in case io_create io of
           Some e \<Rightarrow> (files, c, Some (wrap_err ''creating temporary health store file: '' e))
         | None \<Rightarrow> (case io_chmod io of
           Some e \<Rightarrow> (files, c, Some (wrap_err ''securing health store file: '' e))
         | None \<Rightarrow> (case encode_all C (io_tmp_write io) 0 snapshots of
           Inl e \<Rightarrow> (files, c, Some e)
         | Inr bytes \<Rightarrow> (case io_flush io of
           Some e \<Rightarrow> (files, c, Some (wrap_err ''flushing health store file: '' e))
         | None \<Rightarrow> (case io_sync io of
           Some e \<Rightarrow> (files, c, Some (wrap_err ''syncing health store file: '' e))
         | None \<Rightarrow> (case io_close io of
           Some e \<Rightarrow> (files, c, Some (wrap_err ''closing health store file: '' e))
         | None \<Rightarrow> (case io_rename io of
           Some e \<Rightarrow> (files, c, Some (wrap_err ''replacing health store file: '' e))
         | None \<Rightarrow> (write_file files path (io_ident io) (io_mtime io) bytes, c, None))))))))"

subsection \<open>The operations of the store\<close>

definition show_int_list :: "int list \<Rightarrow> string" where
  "show_int_list xs = ''['' @ join_str '' '' (map show_int xs) @ '']''"

definition corrupt_error :: "string \<Rightarrow> int list \<Rightarrow> go_error" where
  "corrupt_error path ls = plain_err (''history file '' @ path @ '' contains '' @ show_int (int (length ls))
     @ '' corrupt line(s): '' @ show_int_list ls)"

definition compactionMinExpired :: int where "compactionMinExpired = 64"

definition shouldCompact :: "int \<Rightarrow> int \<Rightarrow> bool" where
  "shouldCompact whole expired =
     (if expired \<le> 0 then False else expired \<ge> compactionMinExpired \<or> expired * 2 \<ge> whole)"

text \<open>The files and the cache after a call, the snapshots it returns and its error.\<close>

type_synonym store_result = "(fs \<times> scan_cache) \<times> health_snapshot list \<times> go_error option"

definition Append_snapshot ::
    "snap_codec \<Rightarrow> io_plan \<Rightarrow> string \<Rightarrow> snapshot_key \<Rightarrow> fs \<Rightarrow> scan_cache \<Rightarrow> health_snapshot \<Rightarrow> store_result" where
  "Append_snapshot C io path key files c snapshot = (case key_validate key of
     Some e \<Rightarrow> ((files, c), [], Some e)
   | None \<Rightarrow> (case io_lock io of
       Some e \<Rightarrow> ((files, c), [], Some e)
     | None \<Rightarrow> (case appendSnapshotLine C io files c path snapshot of (files', c', err) \<Rightarrow> ((files', c'), [], err))))"

definition corrupt_of :: "string \<Rightarrow> history_scan \<Rightarrow> go_error option" where
  "corrupt_of path scan = (if sc_corruptLines scan \<noteq> [] then Some (corrupt_error path (sc_corruptLines scan)) else None)"

definition loadHistoryFileAt ::
    "snap_codec \<Rightarrow> (nat \<Rightarrow> nat list) \<Rightarrow> io_plan \<Rightarrow> fs \<Rightarrow> scan_cache \<Rightarrow> string \<Rightarrow> int \<Rightarrow> int \<Rightarrow> store_result option" where
  "loadHistoryFileAt C seed io files c path since now = do {
     ((scan, err), c1) \<leftarrow> cachedHistoryScan C seed io files c path since now;
     Some (case err of
       Some e \<Rightarrow> ((files, c1), sc_retained scan, Some e)
     | None \<Rightarrow> ((files, c1), sc_retained scan, corrupt_of path scan))
   }"

definition LoadAt ::
    "snap_codec \<Rightarrow> (nat \<Rightarrow> nat list) \<Rightarrow> io_plan \<Rightarrow> fs \<Rightarrow> scan_cache \<Rightarrow> string \<Rightarrow> int \<Rightarrow> int \<Rightarrow> store_result option" where
  "LoadAt C seed io files c path since now = (case io_lock io of
     Some e \<Rightarrow> Some ((files, c), [], Some e)
   | None \<Rightarrow> loadHistoryFileAt C seed io files c path since now)"

definition PruneAt ::
    "snap_codec \<Rightarrow> (nat \<Rightarrow> nat list) \<Rightarrow> io_plan \<Rightarrow> fs \<Rightarrow> scan_cache \<Rightarrow> string \<Rightarrow> int \<Rightarrow> int \<Rightarrow> store_result option" where
  "PruneAt C seed io files c path retention now = (case io_lock io of
     Some e \<Rightarrow> Some ((files, c), [], Some e)
   | None \<Rightarrow> do {
       ((scan, loadErr), c1) \<leftarrow> cachedHistoryScan C seed io files c path retention now;
       Some (case loadErr of
         Some e \<Rightarrow> ((files, c1), [], Some e)
       | None \<Rightarrow> (case replaceSnapshots C io files c1 path (sc_retained scan) of
           (files2, c2, Some e) \<Rightarrow> ((files2, c2), [], Some e)
         | (files2, c2, None) \<Rightarrow> ((files2, c2), [], corrupt_of path scan)))
     })"

text \<open>The insertion after equal instants.\<close>

definition insert_snapshot :: "health_snapshot \<Rightarrow> health_snapshot list \<Rightarrow> health_snapshot list" where
  "insert_snapshot snapshot retained =
     (let index = go_search (length retained) (\<lambda>i. hs_Timestamp (retained ! i) > hs_Timestamp snapshot)
      in take index retained @ [snapshot] @ drop index retained)"

definition window_from :: "int \<Rightarrow> health_snapshot list \<Rightarrow> health_snapshot list" where
  "window_from cutoff retained =
     drop (go_search (length retained) (\<lambda>i. \<not> hs_Timestamp (retained ! i) < cutoff)) retained"

definition RecordAndLoad ::
    "snap_codec \<Rightarrow> (nat \<Rightarrow> nat list) \<Rightarrow> io_plan \<Rightarrow> string \<Rightarrow> snapshot_key \<Rightarrow> fs \<Rightarrow> scan_cache \<Rightarrow> health_snapshot
      \<Rightarrow> int \<Rightarrow> int \<Rightarrow> int \<Rightarrow> store_result option" where
  "RecordAndLoad C seed io path key files c snapshot retention since now = (case key_validate key of
     Some e \<Rightarrow> Some ((files, c), [], Some e)
   | None \<Rightarrow> (case io_lock io of
       Some e \<Rightarrow> Some ((files, c), [], Some e)
     | None \<Rightarrow> do {
         ((scan, err), c1) \<leftarrow> cachedHistoryScan C seed io files c path retention now;
         (case err of
            Some e \<Rightarrow> Some ((files, c1), [], Some e)
          | None \<Rightarrow>
              let retained = insert_snapshot snapshot (sc_retained scan);
                  compact = shouldCompact (sc_total scan) (sc_expired scan)
              in (case (if compact then replaceSnapshots C io files c1 path retained
                        else appendSnapshotLine C io files c1 path snapshot) of
                    (files2, c2, Some e) \<Rightarrow> Some ((files2, c2), [], Some e)
                  | (files2, c2, None) \<Rightarrow> do {
                      let written =
                        (if compact then \<lparr>sc_total = int (length retained), sc_expired = 0, sc_retained = retained, sc_corruptLines = []\<rparr>
                         else \<lparr>sc_total = sc_total scan + 1, sc_expired = sc_expired scan, sc_retained = retained,
                               sc_corruptLines = sc_corruptLines scan\<rparr>);
                      c3 \<leftarrow> save_scan seed (os_stat (io_stat_save io) files2 path) path (cutoff_of now retention) written c2;
                      Some ((files2, c3), window_from (cutoff_of now since) retained, corrupt_of path scan)
                    }))
       }))"

subsection \<open>The recorder\<close>

record record_input =
  ri_Cluster :: string
  ri_UID :: string
  ri_Namespace :: string
  ri_Name :: string
  ri_HealthScore :: int
  ri_HealthState :: string
  ri_DesiredReplicas :: int
  ri_CurrentReplicas :: int
  ri_Stabilizing :: bool
  ri_Since :: int
  ri_Retention :: int

record record_result =
  rr_Trend :: "trend_result option"
  rr_Warnings :: "string list"

text \<open>The two shapes of a store the recorder accepts; \<open>'w\<close> is the state behind them.\<close>

datatype 'w snapshot_store =
  Transactional "snapshot_key \<Rightarrow> health_snapshot \<Rightarrow> int \<Rightarrow> int \<Rightarrow> int \<Rightarrow> 'w \<Rightarrow> 'w \<times> health_snapshot list \<times> go_error option"
| Stepwise "snapshot_key \<Rightarrow> health_snapshot \<Rightarrow> 'w \<Rightarrow> 'w \<times> go_error option"
    "snapshot_key \<Rightarrow> int \<Rightarrow> int \<Rightarrow> 'w \<Rightarrow> 'w \<times> go_error option"
    "snapshot_key \<Rightarrow> int \<Rightarrow> int \<Rightarrow> 'w \<Rightarrow> 'w \<times> health_snapshot list \<times> go_error option"

definition warn :: "string \<Rightarrow> go_error option \<Rightarrow> string list" where
  "warn prefix err = (case err of None \<Rightarrow> [] | Some e \<Rightarrow> [prefix @ err_msg e])"

definition trend_of :: "(health_snapshot list \<Rightarrow> health_snapshot list) \<Rightarrow> health_snapshot list \<Rightarrow> trend_result option" where
  "trend_of srt snapshots = (if snapshots \<noteq> [] then Some (AnalyzeHealthTrend srt snapshots) else None)"

definition RecordAndAnalyze ::
    "(health_snapshot list \<Rightarrow> health_snapshot list) \<Rightarrow> 'w snapshot_store option \<Rightarrow> int \<Rightarrow> record_input \<Rightarrow> 'w
      \<Rightarrow> 'w \<times> record_result" where
  "RecordAndAnalyze srt store now input w = (case store of
     None \<Rightarrow> (w, \<lparr>rr_Trend = None, rr_Warnings = [''health trend store unavailable'']\<rparr>)
   | Some st \<Rightarrow>
       (let snapshot = \<lparr>hs_Timestamp = now, hs_HealthScore = ri_HealthScore input, hs_HealthState = ri_HealthState input,
              hs_DesiredReplicas = ri_DesiredReplicas input, hs_CurrentReplicas = ri_CurrentReplicas input,
              hs_Stabilizing = ri_Stabilizing input\<rparr>;
            key = \<lparr>sk_Cluster = ri_Cluster input, sk_Namespace = ri_Namespace input, sk_Name = ri_Name input, sk_UID = ri_UID input\<rparr>
        in case st of
             Transactional recordAndLoad \<Rightarrow>
               (case recordAndLoad key snapshot (ri_Retention input) (ri_Since input) now w of
                  (w', snapshots, err) \<Rightarrow>
                    (w', \<lparr>rr_Trend = trend_of srt snapshots, rr_Warnings = warn ''health trend transaction warning: '' err\<rparr>))
           | Stepwise appendS pruneAt loadAt \<Rightarrow>
               (case appendS key snapshot w of (w1, e1) \<Rightarrow>
                case pruneAt key (ri_Retention input) now w1 of (w2, e2) \<Rightarrow>
                case loadAt key (ri_Since input) now w2 of (w3, snapshots, e3) \<Rightarrow>
                  (w3, \<lparr>rr_Trend = trend_of srt snapshots,
                        rr_Warnings = warn ''health trend append failed: '' e1 @ warn ''health trend prune failed: '' e2
                                      @ warn ''health trend load warning: '' e3\<rparr>))))"

subsection \<open>What a file says\<close>

text \<open>The lines of a file, decoded; a scan is a function of them and of the cutoff.\<close>

definition line_text :: "string \<Rightarrow> string" where
  "line_text raw = trim_space (drop_cr raw)"

definition decode_line :: "snap_codec \<Rightarrow> string \<Rightarrow> health_snapshot option" where
  "decode_line C raw = (if line_text raw = [] then None else dec C (line_text raw))"

definition decoded :: "snap_codec \<Rightarrow> string list \<Rightarrow> health_snapshot list" where
  "decoded C ls = List.map_filter (decode_line C) ls"

fun corrupt_at :: "snap_codec \<Rightarrow> int \<Rightarrow> string list \<Rightarrow> int list" where
  "corrupt_at C n [] = []"
| "corrupt_at C n (raw # ls) =
     (if line_text raw \<noteq> [] \<and> dec C (line_text raw) = None then [n + 1] else []) @ corrupt_at C (n + 1) ls"

definition decoded_scan :: "snap_codec \<Rightarrow> string list \<Rightarrow> int \<Rightarrow> history_scan" where
  "decoded_scan C ls cutoff =
     \<lparr>sc_total = int (length (decoded C ls)),
      sc_expired = int (length (filter (\<lambda>s. \<not> hs_Timestamp s > cutoff) (decoded C ls))),
      sc_retained = sort_key hs_Timestamp (filter (\<lambda>s. hs_Timestamp s > cutoff) (decoded C ls)),
      sc_corruptLines = corrupt_at C 0 ls\<rparr>"

definition readable :: "string list \<Rightarrow> bool" where
  "readable ls \<longleftrightarrow> (\<forall>l\<in>set ls. length l < max_line)"

lemma decoded_simps [simp]:
  "decoded C [] = []" "decoded C (l # ls) = (case decode_line C l of None \<Rightarrow> [] | Some s \<Rightarrow> [s]) @ decoded C ls"
  "decoded C (xs @ ys) = decoded C xs @ decoded C ys"
  by (simp_all add: decoded_def map_filter_def split: option.splits)

lemma corrupt_at_append: "corrupt_at C n (xs @ ys) = corrupt_at C n xs @ corrupt_at C (n + int (length xs)) ys"
  by (induction xs arbitrary: n) (simp_all add: add.assoc add.commute add.left_commute)

lemma scan_loop_eq:
  assumes "readable ls"
  shows "scan_loop C cutoff n scan ls = (scan\<lparr>sc_total := sc_total scan + int (length (decoded C ls)),
     sc_expired := sc_expired scan + int (length (filter (\<lambda>s. \<not> hs_Timestamp s > cutoff) (decoded C ls))),
     sc_retained := sc_retained scan @ filter (\<lambda>s. hs_Timestamp s > cutoff) (decoded C ls),
     sc_corruptLines := sc_corruptLines scan @ corrupt_at C n ls\<rparr>, None)"
  using assms
proof (induction ls arbitrary: n scan)
  case (Cons l ls)
  have "\<not> length l \<ge> max_line" "readable ls" using Cons.prems by (auto simp: readable_def)
  then show ?case
    using Cons.IH [of "n + 1" "classify_line C cutoff (n + 1) l scan"]
    by (auto simp: classify_line_def decode_line_def line_text_def Let_def split: option.splits)
qed simp

lemma sort_retained_eq: "sort_retained ss = sort_key hs_Timestamp ss"
  by (simp add: sort_retained_def sort_key_id_if_sorted)

lemma scanHistoryFile_eq:
  assumes "io_read_open io = None" "io_read io = None" "\<And>f. files path = Some f \<Longrightarrow> readable (split_lines [] (hf_data f))"
  shows "scanHistoryFile C io files path retention now =
    ((case files path of None \<Rightarrow> empty_scan
      | Some f \<Rightarrow> decoded_scan C (split_lines [] (hf_data f)) (cutoff_of now retention)), None)"
  using assms
  by (cases "files path") (simp_all add: scanHistoryFile_def scan_bytes_def scan_loop_eq decoded_scan_def
      sort_retained_eq empty_scan_def Let_def)

text \<open>The binary searches over a series in time order.\<close>

lemma search_times:
  assumes "sorted (map hs_Timestamp xs)" and up: "\<And>a b. a \<le> b \<Longrightarrow> Q a \<Longrightarrow> Q b"
  shows "drop (go_search (length xs) (\<lambda>i. Q (hs_Timestamp (xs ! i)))) xs = filter (\<lambda>s. Q (hs_Timestamp s)) xs"
    and "take (go_search (length xs) (\<lambda>i. Q (hs_Timestamp (xs ! i)))) xs = filter (\<lambda>s. \<not> Q (hs_Timestamp s)) xs"
    and "int (go_search (length xs) (\<lambda>i. Q (hs_Timestamp (xs ! i)))) =
      int (length xs) - int (length (filter (\<lambda>s. Q (hs_Timestamp s)) xs))"
proof -
  have mono: "Q (hs_Timestamp (xs ! a)) \<Longrightarrow> Q (hs_Timestamp (xs ! b))" if "a \<le> b" "b < length xs" for a b
    using sorted_nth_mono [OF assms(1), of a b] that up by simp
  show "drop (go_search (length xs) (\<lambda>i. Q (hs_Timestamp (xs ! i)))) xs = filter (\<lambda>s. Q (hs_Timestamp s)) xs"
    by (rule go_search_filter(1) [of xs "\<lambda>s. Q (hs_Timestamp s)"]) (rule mono)
  show "take (go_search (length xs) (\<lambda>i. Q (hs_Timestamp (xs ! i)))) xs = filter (\<lambda>s. \<not> Q (hs_Timestamp s)) xs"
    by (rule go_search_filter(2) [of xs "\<lambda>s. Q (hs_Timestamp s)"]) (rule mono)
  show "int (go_search (length xs) (\<lambda>i. Q (hs_Timestamp (xs ! i)))) =
      int (length xs) - int (length (filter (\<lambda>s. Q (hs_Timestamp s)) xs))"
    by (rule go_search_filter(3) [of xs "\<lambda>s. Q (hs_Timestamp s)"]) (rule mono)
qed

text \<open>A later cutoff of a scan is the scan with the later cutoff.\<close>

lemma trim_decoded_scan:
  assumes "t0 \<le> t"
  shows "trim_scan t (decoded_scan C ls t0) = decoded_scan C ls t"
proof -
  let ?xs = "decoded C ls"
  define r where "r = sort_key hs_Timestamp (filter (\<lambda>s. hs_Timestamp s > t0) ?xs)"
  have "filter (\<lambda>s. hs_Timestamp s > t) (filter (\<lambda>s. hs_Timestamp s > t0) ?xs) = filter (\<lambda>s. hs_Timestamp s > t) ?xs"
    unfolding filter_filter using assms by (intro filter_cong) auto
  then have later: "filter (\<lambda>s. hs_Timestamp s > t) r = sort_key hs_Timestamp (filter (\<lambda>s. hs_Timestamp s > t) ?xs)"
    by (simp only: r_def filter_sort)
  have len: "length (filter (\<lambda>s. \<not> hs_Timestamp s > t0) ys) + length (filter (\<lambda>s. hs_Timestamp s > t0) ys)
      = length (filter (\<lambda>s. \<not> hs_Timestamp s > t) ys) + length (filter (\<lambda>s. hs_Timestamp s > t) ys)" for ys :: "health_snapshot list"
    by (induction ys) auto
  have "length r = length (filter (\<lambda>s. hs_Timestamp s > t0) ?xs)" by (simp add: r_def)
  moreover have "sorted (map hs_Timestamp r)" by (simp add: r_def)
  note search_times(1,3) [OF this, of "\<lambda>x. x > t"]
  ultimately show ?thesis
    using len [of ?xs] unfolding trim_scan_def decoded_scan_def Let_def r_def [symmetric]
    by (simp add: later)
qed

subsection \<open>The cache never changes what is read\<close>

text \<open>
  Every entry whose recorded size, time and identity are those of the file now is the scan of the
  file's present content. Writers that go behind the store keep this as long as they change one of
  the three.
\<close>

definition entry_coherent :: "snap_codec \<Rightarrow> fs \<Rightarrow> string \<Rightarrow> held \<Rightarrow> bool" where
  "entry_coherent C files p h = (case h of (i, t, s) \<Rightarrow>
     \<forall>f. files p = Some f \<and> same_file (hf_info f) i \<longrightarrow> s = decoded_scan C (split_lines [] (hf_data f)) t)"

definition coherent :: "snap_codec \<Rightarrow> fs \<Rightarrow> scan_cache \<Rightarrow> bool" where
  "coherent C files c \<longleftrightarrow> memo.all_held (entry_coherent C files) c"

definition files_readable :: "fs \<Rightarrow> string \<Rightarrow> bool" where
  "files_readable files path \<longleftrightarrow> (\<forall>f. files path = Some f \<longrightarrow> readable (split_lines [] (hf_data f)))"

lemma cached_scan_eq:
  assumes ok: "cache_ok c" and coh: "coherent C files c" and io: "io_read_open io = None" "io_read io = None"
    and rd: "files_readable files path"
  shows "\<exists>c'. cachedHistoryScan C seed io files c path retention now
      = Some (scanHistoryFile C io files path retention now, c') \<and> cache_ok c' \<and> coherent C files c'"
proof -
  let ?t = "cutoff_of now retention"
  let ?i = "os_stat (io_stat_load io) files path" and ?j = "os_stat (io_stat_save io) files path"
  obtain r c1 where l: "load_scan ?i path ?t c = (r, c1)" by (cases "load_scan ?i path ?t c")
  have ok1: "cache_ok c1" using memo.look_ok [OF ok, of ?i path ?t] l by simp
  have coh1: "coherent C files c1"
    using memo.all_held_look [OF ok, of "entry_coherent C files" ?i path ?t] coh l by (simp add: coherent_def)
  have eq: "scanHistoryFile C io files path retention now =
    ((case files path of None \<Rightarrow> empty_scan | Some f \<Rightarrow> decoded_scan C (split_lines [] (hf_data f)) ?t), None)"
    using rd by (intro scanHistoryFile_eq io) (simp add: files_readable_def)
  show ?thesis
  proof (cases r)
    case (Some scan)
    with memo.look_hit [OF ok, of ?i path ?t scan c1] l obtain i0 i1 t0 s where h:
      "?i = Some i1" "cache_held c path = Some (i0, t0, s)" "same_file i1 i0" "t0 \<le> ?t" "scan = trim_scan ?t s"
      by auto
    then obtain f where f: "files path = Some f" "hf_info f = i1" by (auto simp: os_stat_def split: if_splits)
    have "entry_coherent C files path (i0, t0, s)"
      using coh h(2) unfolding coherent_def memo.all_held_def by blast
    then have "s = decoded_scan C (split_lines [] (hf_data f)) t0" using f h(3) by (simp add: entry_coherent_def)
    then have "scan = decoded_scan C (split_lines [] (hf_data f)) ?t" using h(4,5) trim_decoded_scan by simp
    then show ?thesis using Some l f eq ok1 coh1 by (simp add: cachedHistoryScan_def)
  next
    case None
    let ?s = "fst (scanHistoryFile C io files path retention now)"
    obtain c2 where c2: "save_scan seed ?j path ?t ?s c1 = Some c2" "cache_ok c2"
      using memo.keep_ok [OF ok1] by blast
    have "coherent C files c2" unfolding coherent_def
    proof (rule memo.all_held_keep [OF ok1 c2(1)])
      show "memo.all_held (entry_coherent C files) c1" using coh1 by (simp add: coherent_def)
      fix i1
      assume "?j = Some i1"
      then show "entry_coherent C files path (i1, ?t, ?s)"
        by (auto simp: os_stat_def entry_coherent_def eq split: if_splits)
    qed
    then show ?thesis using None l c2 eq by (simp add: cachedHistoryScan_def)
  qed
qed

text \<open>C16. The cache changes performance only: on a reachable cache that agrees with the files, reading a
  history through the cache gives exactly what reading the file gives, for every retention and every
  order of evictions, and leaves a cache that agrees with the files again.\<close>

theorem cached_scan_exact:
  assumes "cache_run k c" and "coherent C files c" and "io_read_open io = None" "io_read io = None"
    and "files_readable files path"
  shows "\<exists>c'. cachedHistoryScan C seed io files c path retention now
      = Some (scanHistoryFile C io files path retention now, c') \<and> coherent C files c'"
  using cached_scan_eq [OF cache_run_ok [OF assms(1)] assms(2-5)] by blast

subsection \<open>Lines that are written\<close>

definition terminated :: "string \<Rightarrow> bool" where
  "terminated bytes \<longleftrightarrow> bytes = [] \<or> last bytes = CHR 0x0A"

text \<open>What the codec must do for a snapshot: one short trimmed line that decodes to it again.\<close>

definition codes :: "snap_codec \<Rightarrow> health_snapshot \<Rightarrow> bool" where
  "codes C s \<longleftrightarrow> (case enc C s of Inl _ \<Rightarrow> False | Inr text \<Rightarrow>
     text \<noteq> [] \<and> CHR 0x0A \<notin> set text \<and> trim_space text = text \<and> length text < max_line \<and> dec C text = Some s)"

lemma split_lines_clean: "CHR 0x0A \<notin> set xs \<Longrightarrow> split_lines line (xs @ ys) = split_lines (line @ xs) ys"
  by (induction xs arbitrary: line) auto

lemma split_lines_append:
  "terminated bytes \<Longrightarrow> bytes \<noteq> [] \<Longrightarrow> split_lines line (bytes @ ys) = split_lines line bytes @ split_lines [] ys"
proof (induction line bytes rule: split_lines.induct)
  case (2 line c cs)
  then show ?case by (cases "cs = []") (auto simp: terminated_def)
qed simp

lemma split_lines_terminated: "terminated bytes \<Longrightarrow> split_lines [] (bytes @ ys) = split_lines [] bytes @ split_lines [] ys"
  by (cases "bytes = []") (simp_all add: split_lines_append)

lemma split_lines_line:
  "CHR 0x0A \<notin> set xs \<Longrightarrow> split_lines [] (xs @ line_feed @ ys) = xs # split_lines [] ys"
  by (simp add: split_lines_clean line_feed_def)

lemma trimmed_no_cr: "trim_space text = text \<Longrightarrow> drop_cr text = text"
proof -
  assume t: "trim_space text = text"
  let ?d = "dropWhile is_space (rev (dropWhile is_space text))"
  show ?thesis
  proof (cases "text = []")
    case False
    have d: "rev text = ?d" using arg_cong [OF t, of rev] by (simp add: trim_space_def)
    then have "\<not> is_space (hd ?d)" using False by (metis hd_dropWhile rev_is_Nil_conv)
    then have "\<not> is_space (last text)" using d False by (metis hd_rev)
    moreover have "is_space (CHR 0x0D)" by (simp add: is_space_def)
    ultimately show ?thesis by (auto simp: drop_cr_def)
  qed (simp add: drop_cr_def)
qed

lemma codesD:
  assumes "codes C s"
  obtains t where "enc C s = Inr t" "CHR 0x0A \<notin> set t" "t \<noteq> []" "line_text t = t"
    "length t < max_line" "decode_line C t = Some s"
  using assms trimmed_no_cr by (auto simp: codes_def line_text_def decode_line_def split: sum.splits)

text \<open>One more line, and the lines of a rewritten file.\<close>

lemma decoded_one_more:
  assumes "terminated bytes" "codes C s" "enc C s = Inr tx"
  shows "split_lines [] (bytes @ tx @ line_feed) = split_lines [] bytes @ [tx]"
    and "decoded C (split_lines [] (bytes @ tx @ line_feed)) = decoded C (split_lines [] bytes) @ [s]"
    and "corrupt_at C 0 (split_lines [] (bytes @ tx @ line_feed)) = corrupt_at C 0 (split_lines [] bytes)"
    and "readable (split_lines [] bytes) \<Longrightarrow> readable (split_lines [] (bytes @ tx @ line_feed))"
proof -
  obtain t where t: "enc C s = Inr t" "CHR 0x0A \<notin> set t" "t \<noteq> []" "line_text t = t" "length t < max_line"
    "decode_line C t = Some s" by (rule codesD [OF assms(2)])
  then have tt: "t = tx" using assms(3) by simp
  show sp: "split_lines [] (bytes @ tx @ line_feed) = split_lines [] bytes @ [tx]"
    using split_lines_terminated [OF assms(1)] split_lines_line [of tx "[]"] t(2) tt by simp
  show "decoded C (split_lines [] (bytes @ tx @ line_feed)) = decoded C (split_lines [] bytes) @ [s]"
    using t tt by (simp add: sp)
  have "dec C tx = Some s" using t(4,6) tt by (simp add: decode_line_def split: if_splits)
  then show "corrupt_at C 0 (split_lines [] (bytes @ tx @ line_feed)) = corrupt_at C 0 (split_lines [] bytes)"
    using t(4) tt by (simp add: sp corrupt_at_append)
  show "readable (split_lines [] bytes) \<Longrightarrow> readable (split_lines [] (bytes @ tx @ line_feed))"
    using t(5) tt by (auto simp: sp readable_def)
qed

lemma encode_all_lines:
  assumes "\<forall>s\<in>set ss. codes C s"
  shows "\<exists>bytes. encode_all C None k ss = Inr bytes \<and> terminated bytes \<and> decoded C (split_lines [] bytes) = ss
    \<and> readable (split_lines [] bytes) \<and> (\<forall>n. corrupt_at C n (split_lines [] bytes) = [])"
  using assms
proof (induction ss arbitrary: k)
  case Nil
  show ?case by (simp add: terminated_def readable_def)
next
  case (Cons s ss)
  obtain t where t: "enc C s = Inr t" "CHR 0x0A \<notin> set t" "t \<noteq> []" "line_text t = t" "length t < max_line"
    "decode_line C t = Some s" using Cons.prems by (auto elim: codesD)
  obtain bytes where b: "encode_all C None (Suc k) ss = Inr bytes" "terminated bytes" "decoded C (split_lines [] bytes) = ss"
    "readable (split_lines [] bytes)" "\<forall>n. corrupt_at C n (split_lines [] bytes) = []"
    using Cons.IH [of "Suc k"] Cons.prems by auto
  have sp: "split_lines [] (t @ line_feed @ bytes) = t # split_lines [] bytes" by (rule split_lines_line [OF t(2)])
  have "dec C t = Some s" using t(4,6) by (simp add: decode_line_def split: if_splits)
  moreover have "terminated (t @ line_feed @ bytes)" using b(2) by (auto simp: terminated_def line_feed_def)
  ultimately show ?case using t b by (simp add: sp readable_def)
qed

text \<open>Inserting after equal instants is a stable sort of the longer series.\<close>

lemma sort_key_insert:
  assumes "sorted (map f (as @ bs))" "\<forall>x\<in>set as. f x \<le> f s" "\<forall>x\<in>set bs. f s < f x"
  shows "sort_key f ((as @ bs) @ [s]) = as @ s # bs"
proof (rule properties_for_sort_key)
  show "mset (as @ s # bs) = mset ((as @ bs) @ [s])" by simp
  fix k
  have "filter (\<lambda>x. f k = f x) bs = []" if "f k = f s" using assms(3) that by (auto simp: filter_empty_conv)
  then show "filter (\<lambda>x. f k = f x) (as @ s # bs) = filter (\<lambda>x. f k = f x) ((as @ bs) @ [s])" by simp
next
  show "sorted (map f (as @ s # bs))" using assms by (auto simp: sorted_append order_less_imp_le)
qed

lemma insert_snapshot_eq:
  assumes "sorted (map hs_Timestamp xs)"
  shows "insert_snapshot s xs = sort_key hs_Timestamp (xs @ [s])"
proof -
  define i where "i = go_search (length xs) (\<lambda>i. hs_Timestamp (xs ! i) > hs_Timestamp s)"
  note split = search_times(1,2) [OF assms, of "\<lambda>x. x > hs_Timestamp s", folded i_def]
  have d: "drop i xs = filter (\<lambda>x. hs_Timestamp x > hs_Timestamp s) xs" by (rule split(1)) simp
  have t: "take i xs = filter (\<lambda>x. \<not> hs_Timestamp x > hs_Timestamp s) xs" by (rule split(2)) simp
  have "sort_key hs_Timestamp ((take i xs @ drop i xs) @ [s]) = take i xs @ s # drop i xs"
    by (rule sort_key_insert) (simp_all only: append_take_drop_id assms, simp_all add: d t)
  then show ?thesis by (simp add: insert_snapshot_def i_def Let_def)
qed

lemma window_from_eq:
  assumes "sorted (map hs_Timestamp xs)"
  shows "window_from t xs = filter (\<lambda>s. t \<le> hs_Timestamp s) xs"
  unfolding window_from_def using search_times(1) [OF assms, of "\<lambda>x. \<not> x < t"] by (simp add: not_less)

lemma sort_key_sorted_append: "sort_key f (sort_key f xs @ ys) = sort_key f (xs @ ys)"
proof (rule properties_for_sort_key)
  show "mset (sort_key f (xs @ ys)) = mset (sort_key f xs @ ys)" by simp
  show "filter (\<lambda>x. f k = f x) (sort_key f (xs @ ys)) = filter (\<lambda>x. f k = f x) (sort_key f xs @ ys)" for k
    using sort_key_stable [of f "f k"] by (simp add: eq_commute [of "f k"])
qed simp

subsection \<open>What recording does\<close>

lemma coherent_write:
  assumes ok: "cache_ok c" and coh: "coherent C files c"
  shows "coherent C (write_file files path k t bytes) (remove_entry path c)"
  unfolding coherent_def
proof (rule memo.all_held_forget [OF ok])
  fix q h
  assume "q \<noteq> path" "cache_held c q = Some h"
  then show "entry_coherent C (write_file files path k t bytes) q h"
    using coh by (auto simp: coherent_def memo.all_held_def entry_coherent_def write_file_def split: prod.splits)
qed

lemma coherent_save:
  assumes ok: "cache_ok c" and coh: "coherent C files c" and f: "files path = Some f"
    and s: "s = decoded_scan C (split_lines [] (hf_data f)) t"
  shows "\<exists>c'. save_scan seed (os_stat b files path) path t s c = Some c' \<and> cache_ok c' \<and> coherent C files c'"
proof -
  obtain c' where c': "save_scan seed (os_stat b files path) path t s c = Some c'" "cache_ok c'"
    using memo.keep_ok [OF ok] by blast
  have "coherent C files c'" unfolding coherent_def
  proof (rule memo.all_held_keep [OF ok c'(1)])
    show "memo.all_held (entry_coherent C files) c" using coh by (simp add: coherent_def)
    show "entry_coherent C files path (i1, t, s)" if "os_stat b files path = Some i1" for i1
      using that f s by (simp add: entry_coherent_def)
  qed
  with c' show ?thesis by blast
qed

text \<open>The file's decoded snapshots, none for a missing file.\<close>

definition file_lines :: "fs \<Rightarrow> string \<Rightarrow> string list" where
  "file_lines files path = (case files path of None \<Rightarrow> [] | Some f \<Rightarrow> split_lines [] (hf_data f))"

definition file_ok :: "snap_codec \<Rightarrow> fs \<Rightarrow> string \<Rightarrow> bool" where
  "file_ok C files path \<longleftrightarrow> files_readable files path
     \<and> (\<forall>f. files path = Some f \<longrightarrow> terminated (hf_data f))
     \<and> (\<forall>s\<in>set (decoded C (file_lines files path)). codes C s)"

lemma scan_file_lines:
  assumes "io_read_open io = None" "io_read io = None" "files_readable files path"
  shows "scanHistoryFile C io files path retention now = (decoded_scan C (file_lines files path) (cutoff_of now retention), None)"
  using scanHistoryFile_eq [OF assms(1,2), of files path C retention now] assms(3)
  by (auto simp: files_readable_def file_lines_def decoded_scan_def empty_scan_def split: option.splits)

lemma append_fine:
  assumes "codes C s" "file_ok C files path"
  shows "\<exists>f :: hfile. appendSnapshotLine C (io_fine k t) files c path s = (write_file files path (fi_ident (hf_info f)) t (hf_data f), remove_entry path c, None)
    \<and> decoded C (split_lines [] (hf_data f)) = decoded C (file_lines files path) @ [s]
    \<and> corrupt_at C 0 (split_lines [] (hf_data f)) = corrupt_at C 0 (file_lines files path)
    \<and> readable (split_lines [] (hf_data f))"
proof -
  obtain tx where e: "enc C s = Inr tx" using assms(1) by (auto elim: codesD)
  show ?thesis
  proof (cases "files path")
    case None
    note d = decoded_one_more [of "[]", OF _ assms(1) e]
    show ?thesis
      by (rule exI [where x = "\<lparr>hf_info = \<lparr>fi_ident = k, fi_size = 0, fi_mtime = 0\<rparr>, hf_data = tx @ line_feed\<rparr>"])
        (use None e d in \<open>simp add: appendSnapshotLine_def io_fine_def create_missing_def append_file_def write_file_def
          file_lines_def terminated_def readable_def Let_def\<close>)
  next
    case (Some f)
    have "terminated (hf_data f)" "readable (split_lines [] (hf_data f))"
      using assms(2) Some by (simp_all add: file_ok_def files_readable_def)
    note rd = this(2)
    note d = decoded_one_more [OF \<open>terminated (hf_data f)\<close> assms(1) e]
    show ?thesis
      by (rule exI [where x = "f\<lparr>hf_data := hf_data f @ tx @ line_feed\<rparr>"])
        (use Some e d rd in \<open>simp add: appendSnapshotLine_def io_fine_def create_missing_def append_file_def write_file_def
          file_lines_def Let_def\<close>)
  qed
qed

lemma replace_fine:
  assumes "\<forall>s\<in>set ss. codes C s"
  shows "\<exists>bytes. replaceSnapshots C (io_fine k t) files c path ss = (write_file files path k t bytes, remove_entry path c, None)
    \<and> decoded C (split_lines [] bytes) = ss \<and> corrupt_at C 0 (split_lines [] bytes) = []
    \<and> readable (split_lines [] bytes)"
proof -
  obtain bytes where "encode_all C None 0 ss = Inr bytes" "decoded C (split_lines [] bytes) = ss"
    "\<forall>n. corrupt_at C n (split_lines [] bytes) = []" "readable (split_lines [] bytes)"
    using encode_all_lines [OF assms, of 0] by blast
  then show ?thesis by (auto simp: replaceSnapshots_def io_fine_def)
qed

lemma decoded_scan_cong:
  "decoded C ls = xs \<Longrightarrow> corrupt_at C 0 ls = ns \<Longrightarrow> decoded_scan C ls t =
     \<lparr>sc_total = int (length xs), sc_expired = int (length (filter (\<lambda>s. \<not> hs_Timestamp s > t) xs)),
      sc_retained = sort_key hs_Timestamp (filter (\<lambda>s. hs_Timestamp s > t) xs), sc_corruptLines = ns\<rparr>"
  by (simp add: decoded_scan_def)

text \<open>C14. Recording and reading agree: when no step of the operating system fails, on a file of whole
  lines and for a snapshot inside the retention, \<open>RecordAndLoad\<close> returns the window of the retained
  snapshots with the new one, in time order and after its equals, leaves a file whose fresh scan gives the
  same retained snapshots (whether it appended or compacted), changes no other file, and leaves the
  cache in agreement with the files.\<close>

theorem record_roundtrip:
  assumes run: "cache_run k c" and coh: "coherent C files c" and fok: "file_ok C files path"
    and key: "key_validate key = None" and snap: "codes C snapshot"
    and fresh: "cutoff_of now retention < hs_Timestamp snapshot"
  defines "old \<equiv> decoded_scan C (file_lines files path) (cutoff_of now retention)"
    and "retained \<equiv> sort_key hs_Timestamp (filter (\<lambda>s. hs_Timestamp s > cutoff_of now retention)
           (decoded C (file_lines files path)) @ [snapshot])"
  shows "\<exists>files' c'. RecordAndLoad C seed (io_fine ident mtime) path key files c snapshot retention since now
      = Some ((files', c'), filter (\<lambda>s. cutoff_of now since \<le> hs_Timestamp s) retained, corrupt_of path old)
    \<and> sc_retained (fst (scanHistoryFile C (io_fine ident mtime) files' path retention now)) = retained
    \<and> (\<forall>q. q \<noteq> path \<longrightarrow> files' q = files q) \<and> coherent C files' c'"
proof -
  let ?io = "io_fine ident mtime" and ?t = "cutoff_of now retention" and ?xs = "decoded C (file_lines files path)"
  have io: "io_read_open ?io = None" "io_read ?io = None" "io_lock ?io = None" by (simp_all add: io_fine_def)
  have rd: "files_readable files path" using fok by (simp add: file_ok_def)
  note scan = scan_file_lines [OF io(1,2) rd, of C retention now, folded old_def]
  obtain c1 where c1: "cachedHistoryScan C seed ?io files c path retention now = Some ((old, None), c1)"
      "cache_ok c1" "coherent C files c1"
    using cached_scan_eq [OF cache_run_ok [OF run] coh io(1,2) rd, of seed retention now] unfolding scan by blast
  have sorted: "sorted (map hs_Timestamp (sc_retained old))" by (simp add: old_def decoded_scan_def)
  have ins: "insert_snapshot snapshot (sc_retained old) = retained"
    using insert_snapshot_eq [OF sorted] by (simp add: old_def retained_def decoded_scan_def sort_key_sorted_append)
  have rsorted: "sorted (map hs_Timestamp retained)" by (simp add: retained_def)
  have rset: "set retained = insert snapshot {s \<in> set ?xs. hs_Timestamp s > ?t}" by (auto simp: retained_def)
  let ?compact = "shouldCompact (sc_total old) (sc_expired old)"
  let ?written = "if ?compact then \<lparr>sc_total = int (length retained), sc_expired = 0, sc_retained = retained, sc_corruptLines = []\<rparr>
     else \<lparr>sc_total = sc_total old + 1, sc_expired = sc_expired old, sc_retained = retained, sc_corruptLines = sc_corruptLines old\<rparr>"
  have wr: "\<exists>i bytes. (if ?compact then replaceSnapshots C ?io files c1 path retained
        else appendSnapshotLine C ?io files c1 path snapshot) = (write_file files path i mtime bytes, remove_entry path c1, None)
      \<and> ?written = decoded_scan C (split_lines [] bytes) ?t \<and> readable (split_lines [] bytes)"
  proof (cases ?compact)
    case True
    have "\<forall>s\<in>set retained. codes C s" using rset snap fok by (auto simp: file_ok_def)
    from replace_fine [OF this, of ident mtime files c1 path] obtain bytes where b:
      "replaceSnapshots C ?io files c1 path retained = (write_file files path ident mtime bytes, remove_entry path c1, None)"
      "decoded C (split_lines [] bytes) = retained" "corrupt_at C 0 (split_lines [] bytes) = []" "readable (split_lines [] bytes)" by blast
    have fl: "filter (\<lambda>s. hs_Timestamp s > ?t) retained = retained" "filter (\<lambda>s. \<not> hs_Timestamp s > ?t) retained = []"
      using rset fresh by (auto simp: filter_id_conv filter_empty_conv)
    have "decoded_scan C (split_lines [] bytes) ?t = ?written"
      unfolding decoded_scan_cong [OF b(2,3)] fl using True rsorted by (simp add: sort_key_id_if_sorted)
    then show ?thesis using True b(1,4) by (intro exI [where x = ident] exI [where x = bytes]) simp
  next
    case False
    obtain f :: hfile where f: "appendSnapshotLine C ?io files c1 path snapshot =
        (write_file files path (fi_ident (hf_info f)) mtime (hf_data f), remove_entry path c1, None)"
      "decoded C (split_lines [] (hf_data f)) = ?xs @ [snapshot]"
      "corrupt_at C 0 (split_lines [] (hf_data f)) = corrupt_at C 0 (file_lines files path)"
      "readable (split_lines [] (hf_data f))"
      using append_fine [OF snap fok] by blast
    have "decoded_scan C (split_lines [] (hf_data f)) ?t = ?written"
      unfolding decoded_scan_cong [OF f(2,3)] using False fresh by (simp add: old_def decoded_scan_def retained_def)
    then show ?thesis using False f(1,4)
      by (intro exI [where x = "fi_ident (hf_info f)"] exI [where x = "hf_data f"]) simp
  qed
  then obtain i bytes where w: "(if ?compact then replaceSnapshots C ?io files c1 path retained
        else appendSnapshotLine C ?io files c1 path snapshot) = (write_file files path i mtime bytes, remove_entry path c1, None)"
      "?written = decoded_scan C (split_lines [] bytes) ?t" "readable (split_lines [] bytes)" by blast
  let ?files = "write_file files path i mtime bytes"
  have here: "?files path = Some \<lparr>hf_info = \<lparr>fi_ident = i, fi_size = int (length bytes), fi_mtime = mtime\<rparr>, hf_data = bytes\<rparr>"
    by (simp add: write_file_def)
  have coh2: "coherent C ?files (remove_entry path c1)" by (rule coherent_write [OF c1(2,3)])
  have ok2: "cache_ok (remove_entry path c1)" by (rule memo.forget_ok [OF c1(2)])
  obtain c3 where c3: "save_scan seed (os_stat (io_stat_save ?io) ?files path) path ?t ?written (remove_entry path c1) = Some c3"
      "coherent C ?files c3"
    using coherent_save [OF ok2 coh2 here, of ?written ?t seed "io_stat_save ?io"] w(2) by auto
  have "RecordAndLoad C seed ?io path key files c snapshot retention since now
      = Some ((?files, c3), window_from (cutoff_of now since) retained, corrupt_of path old)"
    using key io(3) c1(1) w(1) c3(1) by (simp add: RecordAndLoad_def ins Let_def)
  moreover have "sc_retained (fst (scanHistoryFile C ?io ?files path retention now)) = retained"
  proof -
    have "files_readable ?files path" using w(3) by (simp add: files_readable_def write_file_def)
    from scan_file_lines [OF io(1,2) this, of C retention now]
    have "fst (scanHistoryFile C ?io ?files path retention now) = ?written"
      using w(2) by (simp add: file_lines_def write_file_def)
    then show ?thesis by simp
  qed
  ultimately show ?thesis
    using c3(2) window_from_eq [OF rsorted, of "cutoff_of now since"]
    by (intro exI [where x = ?files] exI [where x = c3]) (simp add: write_file_def)
qed

text \<open>A codec that knows one snapshot, for evaluation.\<close>

definition one_codec :: "health_snapshot \<Rightarrow> snap_codec" where
  "one_codec s = \<lparr>enc = (\<lambda>x. if x = s then Inr ''s'' else Inl (plain_err ''unsupported'')),
     dec = (\<lambda>line. if line = ''s'' then Some s else None)\<rparr>"

lemma one_codec_codes: "codes (one_codec s) s"
  by (simp add: codes_def one_codec_def trim_space_def is_space_def max_line_def)

definition sample_key :: snapshot_key where
  "sample_key = \<lparr>sk_Cluster = ''dev'', sk_Namespace = ''default'', sk_Name = ''web'', sk_UID = ''u1''\<rparr>"

lemma empty_run: "cache_run 0 empty_cache"
  by (rule run_init)

lemma empty_coherent: "coherent C files empty_cache"
  by (simp add: coherent_def memo.all_held_def cache_held_def empty_cache_def)

theorem cached_scan_exact_witness:
  "\<exists>c'. cachedHistoryScan (one_codec (sample_snapshot 50 90 ''OK'')) (\<lambda>_. []) (io_fine 1 9) (\<lambda>_. None) sample_cache ''a'' 100 60
    = Some ((empty_scan, None), c')"
proof -
  have "coherent (one_codec (sample_snapshot 50 90 ''OK'')) (\<lambda>_. None) sample_cache"
    by (simp add: coherent_def memo.all_held_def entry_coherent_def split: prod.splits)
  from cached_scan_exact [OF sample_run this, of "io_fine 1 9" "''a''" "\<lambda>_. []" 100 60] show ?thesis
    by (auto simp: io_fine_def files_readable_def scanHistoryFile_def)
qed

theorem record_roundtrip_witness:
  "\<exists>files' c'. RecordAndLoad (one_codec (sample_snapshot 50 90 ''OK'')) (\<lambda>_. []) (io_fine 1 9) ''p'' sample_key (\<lambda>_. None)
      empty_cache (sample_snapshot 50 90 ''OK'') 40 10 60 = Some ((files', c'), [sample_snapshot 50 90 ''OK''], None)"
proof -
  have "file_ok (one_codec (sample_snapshot 50 90 ''OK'')) (\<lambda>_. None) ''p''"
    by (simp add: file_ok_def files_readable_def file_lines_def)
  from record_roundtrip [OF empty_run empty_coherent this, of sample_key "sample_snapshot 50 90 ''OK''" 60 40 "\<lambda>_. []" 1 9 10]
  show ?thesis
    by (auto simp: one_codec_codes sample_key_def key_validate_def cutoff_of_def add_duration_def sample_snapshot_def
        file_lines_def decoded_scan_def corrupt_of_def wrap64_def)
qed

subsection \<open>A torn last line\<close>

text \<open>C40. A write that was cut off leaves a last line without its line feed. The next record is glued
  to it: the append reports success and the snapshot is returned to the caller, but a fresh scan of the
  file cannot decode the joined line, so the snapshot is lost.\<close>

theorem torn_line_swallows_record:
  assumes good: "terminated good" and torn: "torn \<noteq> []" "CHR 0x0A \<notin> set torn"
    and line: "enc C snapshot = Inr tx" "CHR 0x0A \<notin> set tx"
    and joined: "dec C (line_text (torn @ tx)) = None"
    and here: "files path = Some f" "hf_data f = good @ torn"
  shows "\<exists>files' c' f'. appendSnapshotLine C (io_fine k t) files c path snapshot = (files', c', None)
    \<and> files' path = Some f' \<and> hf_data f' = good @ torn @ tx @ line_feed
    \<and> decoded C (split_lines [] (hf_data f')) = decoded C (split_lines [] good)"
proof -
  have "split_lines [] (good @ torn @ tx @ line_feed) = split_lines [] good @ [torn @ tx]"
    using split_lines_terminated [OF good] split_lines_line [of "torn @ tx" "[]"] torn(2) line(2) by simp
  then have "decoded C (split_lines [] (good @ torn @ tx @ line_feed)) = decoded C (split_lines [] good)"
    using joined by (simp add: decode_line_def)
  then show ?thesis using line here
    by (simp add: appendSnapshotLine_def io_fine_def create_missing_def append_file_def write_file_def Let_def)
qed

theorem torn_line_swallows_record_witness:
  "\<exists>files' c' f'. appendSnapshotLine (one_codec (sample_snapshot 50 90 ''OK'')) (io_fine 1 9)
      [''p'' \<mapsto> \<lparr>hf_info = sample_info, hf_data = ''{''\<rparr>] empty_cache ''p'' (sample_snapshot 50 90 ''OK'') = (files', c', None)
    \<and> files' ''p'' = Some f' \<and> decoded (one_codec (sample_snapshot 50 90 ''OK'')) (split_lines [] (hf_data f')) = []"
proof -
  have "dec (one_codec (sample_snapshot 50 90 ''OK'')) (line_text ''{s'') = None"
    by (simp add: one_codec_def line_text_def drop_cr_def trim_space_def is_space_def)
  moreover have "enc (one_codec (sample_snapshot 50 90 ''OK'')) (sample_snapshot 50 90 ''OK'') = Inr ''s''"
    by (simp add: one_codec_def)
  ultimately have "\<exists>files' c' f'. appendSnapshotLine (one_codec (sample_snapshot 50 90 ''OK'')) (io_fine 1 9)
      [''p'' \<mapsto> \<lparr>hf_info = sample_info, hf_data = ''{''\<rparr>] empty_cache ''p'' (sample_snapshot 50 90 ''OK'') = (files', c', None)
    \<and> files' ''p'' = Some f' \<and> hf_data f' = [] @ ''{'' @ ''s'' @ line_feed
    \<and> decoded (one_codec (sample_snapshot 50 90 ''OK'')) (split_lines [] (hf_data f'))
      = decoded (one_codec (sample_snapshot 50 90 ''OK'')) (split_lines [] [])"
    by (intro torn_line_swallows_record [where f = "\<lparr>hf_info = sample_info, hf_data = ''{''\<rparr>"]) (simp_all add: terminated_def)
  moreover have "split_lines [] [] = []" by simp
  ultimately show ?thesis by (simp only: decoded_simps) blast
qed

subsection \<open>Pruning\<close>

text \<open>Pruning a file whose retained snapshots can be written back leaves exactly them: a fresh scan of the
  new file has nothing expired and no corrupt line, the same retained snapshots as before, and the cache
  still agrees with the files; the corrupt lines it dropped are reported once.\<close>

theorem prune_exact:
  fixes now retention :: int
  assumes run: "cache_run k c" and coh: "coherent C files c" and rd: "files_readable files path"
    and codes: "\<forall>s\<in>set (decoded C (file_lines files path)). codes C s"
  defines "old \<equiv> decoded_scan C (file_lines files path) (cutoff_of now retention)"
  shows "\<exists>files' c'. PruneAt C seed (io_fine ident mtime) files c path retention now = Some ((files', c'), [], corrupt_of path old)
    \<and> scanHistoryFile C (io_fine ident mtime) files' path retention now =
        (\<lparr>sc_total = int (length (sc_retained old)), sc_expired = 0, sc_retained = sc_retained old, sc_corruptLines = []\<rparr>, None)
    \<and> (\<forall>q. q \<noteq> path \<longrightarrow> files' q = files q) \<and> coherent C files' c'"
proof -
  let ?io = "io_fine ident mtime" and ?t = "cutoff_of now retention"
  have io: "io_read_open ?io = None" "io_read ?io = None" "io_lock ?io = None" by (simp_all add: io_fine_def)
  note scan = scan_file_lines [OF io(1,2) rd, of C retention now, folded old_def]
  obtain c1 where c1: "cachedHistoryScan C seed ?io files c path retention now = Some ((old, None), c1)"
      "cache_ok c1" "coherent C files c1"
    using cached_scan_eq [OF cache_run_ok [OF run] coh io(1,2) rd, of seed retention now] unfolding scan by blast
  have late: "\<forall>s\<in>set (sc_retained old). hs_Timestamp s > ?t \<and> codes C s"
    using codes by (auto simp: old_def decoded_scan_def)
  then obtain bytes where b: "replaceSnapshots C ?io files c1 path (sc_retained old) =
      (write_file files path ident mtime bytes, remove_entry path c1, None)"
    "decoded C (split_lines [] bytes) = sc_retained old" "corrupt_at C 0 (split_lines [] bytes) = []" "readable (split_lines [] bytes)"
    using replace_fine [of "sc_retained old" C ident mtime files c1 path] by blast
  let ?files = "write_file files path ident mtime bytes"
  have "files_readable ?files path" using b(4) by (simp add: files_readable_def write_file_def)
  from scan_file_lines [OF io(1,2) this, of C retention now]
  have "scanHistoryFile C ?io ?files path retention now = (decoded_scan C (split_lines [] bytes) ?t, None)"
    by (simp add: file_lines_def write_file_def)
  moreover have "filter (\<lambda>s. hs_Timestamp s > ?t) (sc_retained old) = sc_retained old"
    "filter (\<lambda>s. \<not> hs_Timestamp s > ?t) (sc_retained old) = []"
    using late by (auto simp: filter_id_conv filter_empty_conv)
  moreover have "sort_key hs_Timestamp (sc_retained old) = sc_retained old"
    by (rule sort_key_id_if_sorted) (simp add: old_def decoded_scan_def)
  moreover have "PruneAt C seed ?io files c path retention now = Some ((?files, remove_entry path c1), [], corrupt_of path old)"
    using c1(1) b(1) io(3) by (simp add: PruneAt_def)
  moreover have "coherent C ?files (remove_entry path c1)" by (rule coherent_write [OF c1(2,3)])
  ultimately show ?thesis unfolding decoded_scan_cong [OF b(2,3)]
    by (intro exI [where x = ?files] exI [where x = "remove_entry path c1"]) (simp add: write_file_def)
qed

theorem prune_exact_witness:
  "\<exists>files' c'. PruneAt (one_codec (sample_snapshot 50 90 ''OK'')) (\<lambda>_. []) (io_fine 1 9) (\<lambda>_. None) empty_cache ''p'' 40 60
    = Some ((files', c'), [], None)"
proof -
  have "files_readable (\<lambda>_. None) ''p''" by (simp add: files_readable_def)
  from prune_exact [OF empty_run empty_coherent this, where C = "one_codec (sample_snapshot 50 90 ''OK'')"
      and now = 60 and retention = 40 and seed = "\<lambda>_. []" and ident = 1 and mtime = 9]
  show ?thesis by (auto simp: file_lines_def decoded_scan_def corrupt_of_def)
qed

end
