(* ===== verification/HistoryFiles.thy ===== *)
theory HistoryFiles
  imports HistoryStore
begin

section \<open>History file names and locks\<close>

text \<open>
  What the names of the history files promise (\<open>internal/history/filename.go\<close>), and the lock
  around every access (\<open>internal/history/lock.go\<close>).
\<close>

subsection \<open>Safe names\<close>

text \<open>No separator and no control character.\<close>

definition plain_char :: "char \<Rightarrow> bool" where
  "plain_char c \<longleftrightarrow> 32 \<le> (of_char c :: nat) \<and> (of_char c :: nat) \<noteq> 127 \<and> c \<noteq> CHR ''/'' \<and> c \<noteq> CHR 0x5C"

lemma clean_char_plain: "plain_char (clean_char c)"
  by (auto simp: clean_char_def plain_char_def)

lemma plain_chars: "\<forall>c\<in>set ''_..jsonl''. plain_char c"
  by (simp add: plain_char_def)

lemma hex_digit_plain: "n < 16 \<Longrightarrow> plain_char (hex_digit n)"
  unfolding plain_char_def hex_digit_def by (cases "n < 10") (auto simp: of_char_of char_of_eq_iff take_bit_eq_mod)

lemma hex_digit_inj:
  assumes "m < 16" "n < 16" "hex_digit m = hex_digit n"
  shows "m = n"
proof -
  have "(of_char (hex_digit k) :: nat) = (if k < 10 then 48 + k else 87 + k)" if "k < 16" for k
    using that by (simp add: hex_digit_def of_char_of)
  from this [OF assms(1)] this [OF assms(2)] show ?thesis
    using assms by (simp only: assms(3)) (simp split: if_splits)
qed

lemma sanitize_plain: "c \<in> set (sanitizeFilename s) \<Longrightarrow> plain_char c"
proof -
  assume c: "c \<in> set (sanitizeFilename s)"
  have "set (sanitizeFilename s) \<subseteq> insert (CHR ''_'') (clean_char ` set s)"
    by (auto simp: sanitizeFilename_def Let_def simp del: map_eq_Cons_conv dest!: in_set_takeD)
  with c show ?thesis using clean_char_plain plain_chars by auto
qed

lemma hex_byte_plain: "n < 256 \<Longrightarrow> c \<in> set (hex_byte n) \<Longrightarrow> plain_char c"
  by (auto simp: hex_byte_def hex_digit_plain)

lemma hex_byte_inj:
  assumes "m < 256" "n < 256" "hex_byte m = hex_byte n"
  shows "m = n"
proof -
  have "hex_digit (m div 16) = hex_digit (n div 16)" "hex_digit (m mod 16) = hex_digit (n mod 16)"
    using assms(3) by (simp_all add: hex_byte_def)
  moreover have "m div 16 < 16" "n div 16 < 16" "m mod 16 < 16" "n mod 16 < 16" using assms(1,2) by auto
  ultimately have "m div 16 = n div 16" "m mod 16 = n mod 16" using hex_digit_inj by blast+
  then show "m = n" by (metis div_mult_mod_eq)
qed

lemma length_hex_text: "length (concat (map hex_byte xs)) = 2 * length xs"
  by (induction xs) (simp_all add: hex_byte_def)

lemma hex_text_inj:
  "\<forall>n\<in>set xs. n < 256 \<Longrightarrow> \<forall>n\<in>set ys. n < 256 \<Longrightarrow> concat (map hex_byte xs) = concat (map hex_byte ys) \<Longrightarrow> xs = ys"
proof (induction xs arbitrary: ys)
  case Nil
  then show ?case by (cases ys) (auto simp: hex_byte_def)
next
  case (Cons x xs)
  then obtain y zs where ys: "ys = y # zs" by (cases ys) (auto simp: hex_byte_def)
  have "length (hex_byte x) = length (hex_byte y)" by (simp add: hex_byte_def)
  with Cons.prems(3) ys have "hex_byte x = hex_byte y" "concat (map hex_byte xs) = concat (map hex_byte zs)"
    by (auto simp: append_eq_append_conv)
  then show ?case using Cons.IH [of zs] Cons.prems hex_byte_inj [of x y] ys by simp
qed

text \<open>The six digest bytes, and the parts of a key, which hold no NUL.\<close>

definition digest_ok :: "(string \<Rightarrow> nat list) \<Rightarrow> snapshot_key \<Rightarrow> bool" where
  "digest_ok sha k \<longleftrightarrow> length (key_digest sha k) = 6 \<and> (\<forall>b\<in>set (key_digest sha k). b < 256)"

definition key_text :: "snapshot_key \<Rightarrow> string" where
  "key_text k = sk_Cluster k @ [CHR 0x00] @ sk_Namespace k @ [CHR 0x00] @ sk_Name k @ [CHR 0x00] @ sk_UID k"

definition no_nul :: "snapshot_key \<Rightarrow> bool" where
  "no_nul k \<longleftrightarrow> CHR 0x00 \<notin> set (sk_Cluster k) \<and> CHR 0x00 \<notin> set (sk_Namespace k) \<and> CHR 0x00 \<notin> set (sk_Name k)"

lemma split_at_nul: "a @ z # x = b @ z # y \<Longrightarrow> z \<notin> set a \<Longrightarrow> z \<notin> set b \<Longrightarrow> a = b \<and> x = y"
proof (induction a arbitrary: b)
  case Nil
  then show ?case by (cases b) auto
next
  case (Cons c a)
  then show ?case by (cases b) auto
qed

lemma key_text_inj:
  assumes "no_nul k" "no_nul k'" "key_text k = key_text k'"
  shows "k = k'"
proof -
  have c: "sk_Cluster k = sk_Cluster k'"
    and r: "sk_Namespace k @ CHR 0x00 # sk_Name k @ CHR 0x00 # sk_UID k = sk_Namespace k' @ CHR 0x00 # sk_Name k' @ CHR 0x00 # sk_UID k'"
    using split_at_nul [OF assms(3) [unfolded key_text_def append_Cons append_Nil]] assms(1,2)
    by (auto simp: no_nul_def)
  have n: "sk_Namespace k = sk_Namespace k'" and r': "sk_Name k @ CHR 0x00 # sk_UID k = sk_Name k' @ CHR 0x00 # sk_UID k'"
    using split_at_nul [OF r] assms(1,2) by (auto simp: no_nul_def)
  have "sk_Name k = sk_Name k' \<and> sk_UID k = sk_UID k'" using split_at_nul [OF r'] assms(1,2) by (auto simp: no_nul_def)
  with c n show ?thesis by simp
qed

definition name_suffix :: "(string \<Rightarrow> nat list) \<Rightarrow> snapshot_key \<Rightarrow> string" where
  "name_suffix sha k = ''_'' @ concat (map hex_byte (key_digest sha k)) @ ''.jsonl''"

lemma file_name_shape:
  assumes "digest_ok sha k"
  obtains p where "file_name sha k = p @ name_suffix sha k" "length p \<le> 221" "\<forall>c\<in>set p. plain_char c"
    "length (name_suffix sha k) = 19"
proof -
  have len: "length (name_suffix sha k) = 19" using assms by (simp add: name_suffix_def digest_ok_def length_hex_text)
  define p where "p = sanitizeFilename (sk_Cluster k) @ ''_'' @ sanitizeFilename (sk_Namespace k) @ ''_'' @ sanitizeFilename (sk_Name k)"
  have pl: "\<forall>c\<in>set p. plain_char c" using sanitize_plain plain_chars by (auto simp: p_def)
  define q where "q = (if length p + length (name_suffix sha k) > maxHistoryFilenameLength
      then take (maxHistoryFilenameLength - length (name_suffix sha k)) p else p)"
  have "file_name sha k = q @ name_suffix sha k"
    by (simp only: file_name_def Let_def q_def p_def name_suffix_def)
  moreover have "length q \<le> 221" using len by (auto simp: q_def maxHistoryFilenameLength_def)
  moreover have "\<forall>c\<in>set q. plain_char c" using pl by (auto simp: q_def dest: in_set_takeD)
  ultimately show ?thesis using that len by blast
qed

text \<open>The name of a history file is one safe path segment: at most 240 bytes, without a separator or
  control character, neither "." nor ".."; and two different keys share a file only if their truncated
  SHA-256 collides, even where the readable prefixes are cut to the same text.\<close>

theorem file_name_safe:
  assumes "digest_ok sha k"
  shows "length (file_name sha k) \<le> 240 \<and> (\<forall>c\<in>set (file_name sha k). plain_char c)
    \<and> file_name sha k \<noteq> ''.'' \<and> file_name sha k \<noteq> ''..''
    \<and> (\<forall>k'. digest_ok sha k' \<and> no_nul k \<and> no_nul k' \<and> k \<noteq> k' \<and> file_name sha k = file_name sha k'
        \<longrightarrow> key_text k \<noteq> key_text k' \<and> take 6 (sha (key_text k)) = take 6 (sha (key_text k')))"
proof (intro conjI)
  obtain p where p: "file_name sha k = p @ name_suffix sha k" "length p \<le> 221" "\<forall>c\<in>set p. plain_char c"
    "length (name_suffix sha k) = 19" by (rule file_name_shape [OF assms])
  then show "length (file_name sha k) \<le> 240" by simp
  have "length (file_name sha k) \<noteq> 1" "length (file_name sha k) \<noteq> 2" using p by simp_all
  then show "file_name sha k \<noteq> ''.''" "file_name sha k \<noteq> ''..''" by auto
  have "\<forall>c\<in>set (name_suffix sha k). plain_char c"
    using assms hex_byte_plain plain_chars by (auto simp: name_suffix_def digest_ok_def)
  then show "\<forall>c\<in>set (file_name sha k). plain_char c" using p(1,3) by auto
  show "\<forall>k'. digest_ok sha k' \<and> no_nul k \<and> no_nul k' \<and> k \<noteq> k' \<and> file_name sha k = file_name sha k'
        \<longrightarrow> key_text k \<noteq> key_text k' \<and> take 6 (sha (key_text k)) = take 6 (sha (key_text k'))"
  proof (intro allI impI)
    fix k'
    assume a: "digest_ok sha k' \<and> no_nul k \<and> no_nul k' \<and> k \<noteq> k' \<and> file_name sha k = file_name sha k'"
    then obtain p' where p': "file_name sha k' = p' @ name_suffix sha k'" "length (name_suffix sha k') = 19"
      using file_name_shape by metis
    have "name_suffix sha k = name_suffix sha k'" using a p p' by (metis append_eq_append_conv)
    then have "concat (map hex_byte (key_digest sha k)) = concat (map hex_byte (key_digest sha k'))"
      by (simp add: name_suffix_def)
    then have "key_digest sha k = key_digest sha k'"
      using a assms by (intro hex_text_inj) (auto simp: digest_ok_def)
    then show "key_text k \<noteq> key_text k' \<and> take 6 (sha (key_text k)) = take 6 (sha (key_text k'))"
      using a key_text_inj by (auto simp: key_digest_def key_text_def)
  qed
qed

theorem file_name_safe_witness:
  "length (file_name (\<lambda>_. [1, 2, 3, 4, 5, 255]) \<lparr>sk_Cluster = [], sk_Namespace = ''../x'', sk_Name = ''web'', sk_UID = ''u''\<rparr>) \<le> 240"
  using file_name_safe [of "\<lambda>_. [1, 2, 3, 4, 5, 255]" "\<lparr>sk_Cluster = [], sk_Namespace = ''../x'', sk_Name = ''web'', sk_UID = ''u''\<rparr>"]
  by (simp add: digest_ok_def key_digest_def)

subsection \<open>The lock\<close>

text \<open>
  \<open>acquireLockContext\<close> polls: the attempt \<open>k\<close> finds the context's error, the result of the system
  call that tries the lock, and the clock; the wait of ten milliseconds ends with the next attempt or
  with the cancellation. An outcome says whether the file is left locked and whether the descriptor is
  left open. The loop has no measure of its own: \<^const>\<open>None\<close> is a wait without end.
\<close>

record lock_env =
  le_open :: "go_error option"
  le_ctx :: "nat \<Rightarrow> go_error option"
  le_ctx_held :: "nat \<Rightarrow> go_error option"
  le_try :: "nat \<Rightarrow> go_error option"
  le_clock :: "nat \<Rightarrow> int"
  le_woken :: "nat \<Rightarrow> go_error option"

record lock_outcome =
  lo_result :: "go_error option"
  lo_locked :: bool
  lo_open :: bool

definition lock_failed :: "go_error \<Rightarrow> lock_outcome" where
  "lock_failed e = \<lparr>lo_result = Some e, lo_locked = False, lo_open = False\<rparr>"

definition lockTimeout :: int where "lockTimeout = 2 * Second"

partial_function (option) lock_loop :: "lock_env \<Rightarrow> string \<Rightarrow> int \<Rightarrow> nat \<Rightarrow> lock_outcome option" where
  "lock_loop E lockPath deadline k =
     (case le_ctx E k of
        Some e \<Rightarrow> Some (lock_failed (wrap_err (''acquiring history lock '' @ lockPath @ '': '') e))
      | None \<Rightarrow> (case le_try E k of
          None \<Rightarrow> (case le_ctx_held E k of
              Some e \<Rightarrow> Some (lock_failed (wrap_err (''acquiring history lock '' @ lockPath @ '': '') e))
            | None \<Rightarrow> Some \<lparr>lo_result = None, lo_locked = True, lo_open = True\<rparr>)
        | Some _ \<Rightarrow>
            if le_clock E k > deadline
            then Some (lock_failed (plain_err (''timed out waiting for history lock '' @ lockPath)))
            else (case le_woken E k of
                Some e \<Rightarrow> Some (lock_failed (wrap_err (''waiting for history lock '' @ lockPath @ '': '') e))
              | None \<Rightarrow> lock_loop E lockPath deadline (Suc k))))"

definition acquireLockContext :: "lock_env \<Rightarrow> int \<Rightarrow> go_error option \<Rightarrow> string \<Rightarrow> lock_outcome option" where
  "acquireLockContext E start ctxErr path = (case ctxErr of
     Some e \<Rightarrow> Some (lock_failed (wrap_err ''acquiring history lock: '' e))
   | None \<Rightarrow> (case le_open E of
       Some e \<Rightarrow> Some (lock_failed (wrap_err ''opening history lock: '' e))
     | None \<Rightarrow> lock_loop E (path @ ''.lock'') (start + lockTimeout) 0))"

text \<open>The clock moves on by the wait between two attempts.\<close>

definition ticking :: "lock_env \<Rightarrow> int \<Rightarrow> bool" where
  "ticking E start \<longleftrightarrow> start \<le> le_clock E 0 \<and> (\<forall>k. le_clock E k + 10000000 \<le> le_clock E (Suc k))"

lemma ticking_clock: "ticking E start \<Longrightarrow> start + int k * 10000000 \<le> le_clock E k"
proof (induction k)
  case (Suc k)
  then have "le_clock E k + 10000000 \<le> le_clock E (Suc k)" by (simp add: ticking_def)
  with Suc show ?case by simp
qed (simp add: ticking_def)

definition lock_settled :: "lock_outcome option \<Rightarrow> bool" where
  "lock_settled x = (case x of None \<Rightarrow> False
     | Some r \<Rightarrow> (lo_locked r \<longleftrightarrow> lo_result r = None) \<and> lo_open r = lo_locked r)"

lemma lock_settled_simps [simp]:
  "lock_settled (Some (lock_failed e))" "lock_settled (Some \<lparr>lo_result = None, lo_locked = True, lo_open = True\<rparr>)"
  by (simp_all add: lock_settled_def lock_failed_def)

text \<open>One round: it settles the call, or it was before the deadline and the next round decides.\<close>

lemma lock_round:
  assumes "le_clock E k > deadline \<or> lock_settled (lock_loop E p deadline (Suc k))"
  shows "lock_settled (lock_loop E p deadline k)"
proof -
  note round = lock_loop.simps [of E p deadline k]
  show ?thesis
  proof (cases "le_ctx E k = None \<and> le_try E k \<noteq> None \<and> \<not> le_clock E k > deadline \<and> le_woken E k = None")
    case True
    then have "lock_loop E p deadline k = lock_loop E p deadline (Suc k)" unfolding round by (auto split: option.splits)
    with True assms show ?thesis by simp
  next
    case False
    then show ?thesis unfolding round
      by (cases "le_ctx E k"; cases "le_try E k"; cases "le_ctx_held E k"; cases "le_woken E k"; cases "le_clock E k > deadline")
        simp_all
  qed
qed

lemma lock_loop_total:
  assumes "ticking E start" "k + m = 201"
  shows "lock_settled (lock_loop E p (start + lockTimeout) k)"
  using assms(2)
proof (induction m arbitrary: k)
  case 0
  then have "le_clock E k > start + lockTimeout"
    using ticking_clock [OF assms(1), of k] by (simp add: lockTimeout_def)
  then show ?case by (rule lock_round [OF disjI1])
next
  case (Suc m)
  then have "lock_settled (lock_loop E p (start + lockTimeout) (Suc k))" by simp
  then show ?case by (rule lock_round [OF disjI2])
qed

text \<open>What a call may look at: the open call and the rounds up to \<open>k\<close>.\<close>

definition same_rounds :: "nat \<Rightarrow> lock_env \<Rightarrow> lock_env \<Rightarrow> bool" where
  "same_rounds k E E' \<longleftrightarrow> le_open E' = le_open E \<and> (\<forall>j\<le>k. le_ctx E' j = le_ctx E j \<and> le_ctx_held E' j = le_ctx_held E j
     \<and> le_try E' j = le_try E j \<and> le_clock E' j = le_clock E j \<and> le_woken E' j = le_woken E j)"

lemma lock_loop_local:
  assumes "ticking E start" "k + m = 201"
  shows "\<exists>n. k \<le> n \<and> n \<le> 201 \<and> (\<forall>j. k \<le> j \<and> j < n \<longrightarrow> le_clock E j \<le> start + lockTimeout)
    \<and> (\<forall>E'. same_rounds n E E' \<longrightarrow> lock_loop E' p (start + lockTimeout) k = lock_loop E p (start + lockTimeout) k)"
  using assms(2)
proof (induction m arbitrary: k)
  case (Suc m)
  let ?go = "\<lambda>E. le_ctx E k = None \<and> le_try E k \<noteq> None \<and> \<not> le_clock E k > start + lockTimeout \<and> le_woken E k = None"
  show ?case
  proof (cases "?go E")
    case True
    have next_round: "lock_loop F p (start + lockTimeout) k = lock_loop F p (start + lockTimeout) (Suc k)" if "?go F" for F
      using that by (subst lock_loop.simps) (auto split: option.splits)
    obtain n where n: "Suc k \<le> n" "n \<le> 201" "\<forall>j. Suc k \<le> j \<and> j < n \<longrightarrow> le_clock E j \<le> start + lockTimeout"
      "\<forall>E'. same_rounds n E E' \<longrightarrow> lock_loop E' p (start + lockTimeout) (Suc k) = lock_loop E p (start + lockTimeout) (Suc k)"
      using Suc.IH [of "Suc k"] Suc.prems by auto
    have "lock_loop E' p (start + lockTimeout) k = lock_loop E p (start + lockTimeout) k" if s: "same_rounds n E E'" for E'
    proof -
      have "?go E'" using s True n(1) by (simp add: same_rounds_def)
      then show ?thesis using next_round [of E'] next_round [of E] True n(4) s by simp
    qed
    moreover have "le_clock E j \<le> start + lockTimeout" if "k \<le> j" "j < n" for j
      using n(3) True that by (cases "j = k") auto
    ultimately show ?thesis using n(1,2) by (intro exI [of _ n]) simp
  next
    case False
    have "lock_loop E' p (start + lockTimeout) k = lock_loop E p (start + lockTimeout) k" if "same_rounds k E E'" for E'
      using that False by (subst (1 2) lock_loop.simps) (auto simp: same_rounds_def split: option.splits)
    then show ?thesis using Suc.prems by (intro exI [of _ k]) simp
  qed
next
  case 0
  have "\<not> le_clock E k \<le> start + lockTimeout"
    using ticking_clock [OF assms(1), of k] 0 by (simp add: lockTimeout_def)
  then have "lock_loop E' p (start + lockTimeout) k = lock_loop E p (start + lockTimeout) k" if "same_rounds k E E'" for E'
    using that by (subst (1 2) lock_loop.simps) (auto simp: same_rounds_def split: option.splits)
  then show ?case using 0 by (intro exI [of _ k]) simp
qed

text \<open>C27. Waiting for the lock ends by its deadline: if the clock advances by the ten milliseconds of each wait, the
  call returns, all attempts before the last are made within two seconds of the start, there are at most 202 of them
  (the result does not depend on what a later attempt would find), and the file is locked and its descriptor open
  exactly when there is no error.\<close>

theorem lock_terminates:
  assumes "ticking E start"
  shows "\<exists>k r. k \<le> 201 \<and> (\<forall>j<k. le_clock E j \<le> start + 2000000000)
    \<and> acquireLockContext E start ctxErr path = Some r
    \<and> (\<forall>E'. same_rounds k E E' \<longrightarrow> acquireLockContext E' start ctxErr path = Some r)
    \<and> (lo_locked r \<longleftrightarrow> lo_result r = None) \<and> lo_open r = lo_locked r"
proof -
  have settled: "lock_settled (acquireLockContext E start ctxErr path)"
    using lock_loop_total [OF assms, of 0 201 "path @ ''.lock''"]
    by (simp add: acquireLockContext_def split: option.splits)
  then obtain r where r: "acquireLockContext E start ctxErr path = Some r"
    unfolding lock_settled_def by (cases "acquireLockContext E start ctxErr path") auto
  obtain k where k: "k \<le> 201" "\<forall>j<k. le_clock E j \<le> start + lockTimeout"
      "\<forall>E'. same_rounds k E E' \<longrightarrow> lock_loop E' (path @ ''.lock'') (start + lockTimeout) 0 = lock_loop E (path @ ''.lock'') (start + lockTimeout) 0"
    using lock_loop_local [OF assms, of 0 201 "path @ ''.lock''"] by auto
  have same: "acquireLockContext E' start ctxErr path = Some r" if s: "same_rounds k E E'" for E'
  proof -
    have "le_open E' = le_open E" using s by (simp add: same_rounds_def)
    then have "acquireLockContext E' start ctxErr path = acquireLockContext E start ctxErr path"
      using s k(3) by (simp add: acquireLockContext_def split: option.split)
    then show ?thesis using r by simp
  qed
  show ?thesis using k(1,2) r same settled
    by (intro exI [of _ k] exI [of _ r]) (simp add: lockTimeout_def lock_settled_def)
qed

definition quiet_env :: "nat \<Rightarrow> lock_env" where
  "quiet_env n = \<lparr>le_open = None, le_ctx = (\<lambda>_. None), le_ctx_held = (\<lambda>_. None),
     le_try = (\<lambda>k. if k < n then Some (plain_err ''busy'') else None),
     le_clock = (\<lambda>k. int k * 10000000), le_woken = (\<lambda>_. None)\<rparr>"

lemma quiet_ticking: "ticking (quiet_env n) 0"
  by (simp add: ticking_def quiet_env_def algebra_simps)

theorem lock_terminates_witness:
  "\<exists>k r. k \<le> (201::nat) \<and> acquireLockContext (quiet_env 500) 0 None ''f'' = Some r \<and> (lo_locked r \<longleftrightarrow> lo_result r = None)"
  using lock_terminates [OF quiet_ticking, of 500 None "''f''"] by (elim exE conjE) (intro exI conjI)

text \<open>A lock that becomes free in time is acquired: if nothing cancels the wait and the attempt \<open>n\<close>
  is the first to succeed, with the clock not past the deadline before it, the call returns with the
  lock.\<close>

theorem lock_acquired:
  assumes free: "le_try E n = None" and busy: "\<forall>k < n. le_try E k \<noteq> None \<and> le_clock E k \<le> start + lockTimeout"
    and calm: "le_open E = None" "\<forall>k \<le> n. le_ctx E k = None \<and> le_woken E k = None" "le_ctx_held E n = None"
  shows "acquireLockContext E start None path = Some \<lparr>lo_result = None, lo_locked = True, lo_open = True\<rparr>"
proof -
  have "lock_loop E p (start + lockTimeout) k = Some \<lparr>lo_result = None, lo_locked = True, lo_open = True\<rparr>"
    if "k + m = n" for k m p
    using that
  proof (induction m arbitrary: k)
    case 0
    then show ?case using free calm by (subst lock_loop.simps) simp
  next
    case (Suc m)
    then have "lock_loop E p (start + lockTimeout) (Suc k) = Some \<lparr>lo_result = None, lo_locked = True, lo_open = True\<rparr>" by simp
    moreover have "le_ctx E k = None" "le_woken E k = None" "le_try E k \<noteq> None" "le_clock E k \<le> start + lockTimeout"
      using Suc.prems busy calm by simp_all
    ultimately show ?case by (subst lock_loop.simps) (auto simp: not_less)
  qed
  from this [of 0 n "path @ ''.lock''"] show ?thesis using calm(1) by (simp add: acquireLockContext_def)
qed

theorem lock_acquired_witness:
  "acquireLockContext (quiet_env 5) 0 None ''f'' = Some \<lparr>lo_result = None, lo_locked = True, lo_open = True\<rparr>"
  by (rule lock_acquired [of _ 5]) (simp_all add: quiet_env_def lockTimeout_def)

end
