(* ===== verification/JsonTree.thy ===== *)
theory JsonTree
  imports KubeApi
begin

section \<open>JSON values\<close>

text \<open>
  The values \<open>encoding/json\<close> and \<open>sigs.k8s.io/yaml\<close> decode into an \<open>any\<close>: null, booleans, numbers
  (\<open>float64\<close>), strings, \<open>[]any\<close> and \<open>map[string]any\<close>. A Go map has no order; it is kept here as its
  entries in the order of their keys, which is the order \<open>json.Marshal\<close> writes them in, so that equal
  maps are equal lists (\<open>json_ok\<close>). \<open>put\<close> and \<open>del\<close> are the assignment \<open>m[k] = v\<close> and \<open>delete(m, k)\<close>.
\<close>

datatype json = JNull | JBool bool | JNum f64 | JStr string | JArr "json list" | JObj "(string \<times> json) list"

type_synonym fields_map = "(string \<times> json) list"

fun put :: "string \<Rightarrow> json \<Rightarrow> fields_map \<Rightarrow> fields_map" where
  "put k v [] = [(k, v)]"
| "put k v ((a, x) # es) =
     (if k < a then (k, v) # (a, x) # es else if k = a then (k, v) # es else (a, x) # put k v es)"

definition del :: "string \<Rightarrow> fields_map \<Rightarrow> fields_map" where
  "del k es = filter (\<lambda>e. fst e \<noteq> k) es"

definition keys_ok :: "fields_map \<Rightarrow> bool" where
  "keys_ok es \<longleftrightarrow> sorted_wrt (<) (map fst es)"

fun json_ok :: "json \<Rightarrow> bool" where
  "json_ok (JArr xs) = list_all json_ok xs"
| "json_ok (JObj es) = (keys_ok es \<and> list_all (\<lambda>(k, v). json_ok v) es)"
| "json_ok v = True"

lemma keys_ok_simps [simp]: "keys_ok []" "keys_ok ((a, x) # es) \<longleftrightarrow> (\<forall>k\<in>fst ` set es. a < k) \<and> keys_ok es"
  by (auto simp: keys_ok_def)

lemma keys_ok_distinct: "keys_ok es \<Longrightarrow> distinct (map fst es)"
  by (simp add: keys_ok_def strict_sorted_iff)

lemma put_keys: "fst ` set (put k v es) = insert k (fst ` set es)"
  by (induction k v es rule: put.induct) auto

lemma put_ok [simp]: "keys_ok es \<Longrightarrow> keys_ok (put k v es)"
  by (induction k v es rule: put.induct) (auto simp: put_keys)

lemma map_of_put [simp]: "keys_ok es \<Longrightarrow> map_of (put k v es) = (map_of es)(k \<mapsto> v)"
proof (induction k v es rule: put.induct)
  case (2 k v a x es)
  have "map_of es a = None" using 2(2) by (auto simp: map_of_eq_None_iff)
  with 2 show ?case by (auto simp: fun_eq_iff)
qed simp

lemma del_ok [simp]: "keys_ok es \<Longrightarrow> keys_ok (del k es)"
  by (simp add: keys_ok_def del_def sorted_wrt_map sorted_wrt_filter)

lemma map_of_del [simp]: "map_of (del k es) = (map_of es)(k := None)"
  by (induction es) (auto simp: del_def fun_eq_iff)

text \<open>Two maps with the same entries are the same list.\<close>

lemma keys_ok_ext:
  assumes "keys_ok xs" "keys_ok ys" "map_of xs = map_of ys"
  shows "xs = ys"
proof -
  have "set xs = set ys"
    using map_of_eq_Some_iff [OF keys_ok_distinct [OF assms(1)]] map_of_eq_Some_iff [OF keys_ok_distinct [OF assms(2)]] assms(3)
    by (auto simp: set_eq_iff)
  then show ?thesis
    using assms(1,2) map_sorted_distinct_set_unique [of fst xs ys] map_of_eq_dom [OF assms(3)]
    by (auto simp: keys_ok_def strict_sorted_iff inj_on_def distinct_map dom_map_of_conv_image_fst)
qed

lemma json_ok_map_of: "keys_ok es \<Longrightarrow> list_all (\<lambda>(k, v). json_ok v) es \<longleftrightarrow> (\<forall>k v. map_of es k = Some v \<longrightarrow> json_ok v)"
  by (auto simp: list_all_iff map_of_eq_Some_iff [OF keys_ok_distinct])

lemma fields_ok: "json_ok (JObj es) \<longleftrightarrow> keys_ok es \<and> (\<forall>k v. map_of es k = Some v \<longrightarrow> json_ok v)"
  using json_ok_map_of by auto

text \<open>Assignments to different keys commute: a loop over a Go map that assigns one entry per key does
  not depend on the iteration order.\<close>

lemma put_commute: "keys_ok es \<Longrightarrow> a \<noteq> b \<Longrightarrow> put a x (put b y es) = put b y (put a x es)"
  by (rule keys_ok_ext) (auto simp: fun_eq_iff)

lemma put_in_size: "map_of es k = Some v \<Longrightarrow> size v < size (JObj es)"
proof (induction es)
  case (Cons e es)
  then show ?case by (cases e) (auto split: if_splits)
qed simp

end
