(* ===== verification/PatchMerge.thy ===== *)
theory PatchMerge
  imports JsonTree
begin

section \<open>Merging JSON merge patches\<close>

text \<open>
  \<open>internal/patch/merge.go\<close>: the patches of several suggestions are merged into one, which is applied
  in a single request. \<open>DeepMerge\<close> is the recursive merge of two maps, \<open>MergePatches\<close> the loop over the
  patches with its error. \<open>json.Unmarshal\<close> into a map and \<open>json.Marshal\<close> are the arguments \<open>parse\<close> and
  \<open>marshal\<close>. The specification is RFC 7396, which says what a patch does to a document.
\<close>

subsection \<open>The code\<close>

function DeepMerge :: "fields_map \<Rightarrow> fields_map \<Rightarrow> fields_map" where
  "DeepMerge result [] = result"
| "DeepMerge result ((k, v) # b) = DeepMerge (put k (case map_of result k of
       None \<Rightarrow> v
     | Some (JObj aMap) \<Rightarrow> (case v of JObj bMap \<Rightarrow> JObj (DeepMerge aMap bMap) | _ \<Rightarrow> v)
     | Some _ \<Rightarrow> v) result) b"
  by pat_completeness auto
termination by (relation "measure (\<lambda>(a, b). size (JObj b))") auto

record merge_patch =
  mp_Title :: string
  mp_JSON :: string

fun merge_top :: "fields_map \<Rightarrow> fields_map \<Rightarrow> fields_map" where
  "merge_top merged [] = merged"
| "merge_top merged ((k, v) # parsed) = merge_top (put k (case map_of merged k of
       None \<Rightarrow> v
     | Some (JObj existingMap) \<Rightarrow> (case v of JObj vMap \<Rightarrow> JObj (DeepMerge existingMap vMap) | _ \<Rightarrow> v)
     | Some _ \<Rightarrow> v) merged) parsed"

fun merge_loop :: "(string \<Rightarrow> go_error + fields_map) \<Rightarrow> fields_map \<Rightarrow> merge_patch list \<Rightarrow> go_error + fields_map" where
  "merge_loop parse merged [] = Inr merged"
| "merge_loop parse merged (p # ps) = (case parse (mp_JSON p) of
       Inl e \<Rightarrow> Inl e
     | Inr parsed \<Rightarrow> merge_loop parse (merge_top merged parsed) ps)"

definition MergePatches ::
    "(string \<Rightarrow> go_error + fields_map) \<Rightarrow> (json \<Rightarrow> go_error + string) \<Rightarrow> merge_patch list \<Rightarrow> go_error + string" where
  "MergePatches parse marshal patches = (case patches of
       [] \<Rightarrow> Inr ''{}''
     | [p] \<Rightarrow> Inr (mp_JSON p)
     | _ \<Rightarrow> (case merge_loop parse [] patches of
           Inl e \<Rightarrow> Inl e
         | Inr merged \<Rightarrow> marshal (JObj merged)))"

subsection \<open>What a patch means\<close>

text \<open>RFC 7396, section 2: \<open>apply_patch\<close> is \<open>MergePatch(Target, Patch)\<close>.\<close>

definition obj_fields :: "json \<Rightarrow> fields_map" where
  "obj_fields t = (case t of JObj es \<Rightarrow> es | _ \<Rightarrow> [])"

definition field_or_null :: "fields_map \<Rightarrow> string \<Rightarrow> json" where
  "field_or_null es k = (case map_of es k of None \<Rightarrow> JNull | Some v \<Rightarrow> v)"

function apply_patch :: "json \<Rightarrow> json \<Rightarrow> json" and apply_fields :: "fields_map \<Rightarrow> fields_map \<Rightarrow> fields_map" where
  "apply_patch t p = (case p of JObj ps \<Rightarrow> JObj (apply_fields (obj_fields t) ps) | _ \<Rightarrow> p)"
| "apply_fields es [] = es"
| "apply_fields es ((k, v) # ps) =
     apply_fields (if v = JNull then del k es else put k (apply_patch (field_or_null es k) v) es) ps"
  by pat_completeness auto
termination by (relation "measure (\<lambda>x. case x of Inl (t, p) \<Rightarrow> 2 * size p | Inr (es, ps) \<Rightarrow> 2 * size (JObj ps) - 1)") auto

declare apply_patch.simps [simp del]

lemma apply_patch_obj [simp]: "apply_patch t (JObj ps) = JObj (apply_fields (obj_fields t) ps)"
  by (simp add: apply_patch.simps)

lemma apply_patch_other: "(\<And>ps. v \<noteq> JObj ps) \<Longrightarrow> apply_patch t v = v"
  by (cases v) (auto simp: apply_patch.simps)

text \<open>The value both loops assign to one key.\<close>

definition merged_value :: "json option \<Rightarrow> json \<Rightarrow> json" where
  "merged_value old v = (case (old, v) of
     (Some (JObj a), JObj b) \<Rightarrow> JObj (DeepMerge a b) | _ \<Rightarrow> v)"

lemma DeepMerge_step [simp]: "DeepMerge r ((k, v) # b) = DeepMerge (put k (merged_value (map_of r k) v) r) b"
  by (simp add: merged_value_def split: option.split json.split)

lemma merge_top_eq: "merge_top a b = DeepMerge a b"
  by (induction a b rule: merge_top.induct) (auto simp: merged_value_def split: option.split json.split)

declare DeepMerge.simps(2) [simp del]

lemma DeepMerge_entries:
  "keys_ok a \<Longrightarrow> keys_ok b \<Longrightarrow> keys_ok (DeepMerge a b) \<and> map_of (DeepMerge a b) =
     (\<lambda>k. case map_of b k of None \<Rightarrow> map_of a k | Some v \<Rightarrow> Some (merged_value (map_of a k) v))"
proof (induction b arbitrary: a)
  case (Cons e b)
  obtain k v where e: "e = (k, v)" by (cases e)
  with Cons.prems have "map_of b k = None" "keys_ok b" by (auto simp: map_of_eq_None_iff)
  with Cons.IH [of "put k (merged_value (map_of a k) v) a"] Cons.prems(1) e show ?case
    by (auto simp: fun_eq_iff split: option.split)
qed simp

lemmas DeepMerge_ok = DeepMerge_entries [THEN conjunct1]
  and map_of_DeepMerge = DeepMerge_entries [THEN conjunct2]

definition patched_value :: "json option \<Rightarrow> json \<Rightarrow> json option" where
  "patched_value old v = (if v = JNull then None
     else Some (apply_patch (case old of None \<Rightarrow> JNull | Some x \<Rightarrow> x) v))"

lemma apply_fields_entries:
  "keys_ok es \<Longrightarrow> keys_ok ps \<Longrightarrow> keys_ok (apply_fields es ps) \<and> map_of (apply_fields es ps) =
     (\<lambda>k. case map_of ps k of None \<Rightarrow> map_of es k | Some v \<Rightarrow> patched_value (map_of es k) v)"
proof (induction ps arbitrary: es)
  case (Cons e ps)
  obtain k v where e: "e = (k, v)" by (cases e)
  with Cons.prems have "map_of ps k = None" "keys_ok ps" by (auto simp: map_of_eq_None_iff)
  with Cons.IH [of "if v = JNull then del k es else put k (apply_patch (field_or_null es k) v) es"] Cons.prems(1) e
  show ?case
    by (auto simp: fun_eq_iff patched_value_def field_or_null_def split: option.split)
qed simp

lemmas apply_fields_ok = apply_fields_entries [THEN conjunct1]
  and map_of_apply_fields = apply_fields_entries [THEN conjunct2]

lemma obj_fields_ok [simp]: "json_ok t \<Longrightarrow> keys_ok (obj_fields t)"
  by (cases t) (auto simp: obj_fields_def)

lemma obj_fields_Obj [simp]: "obj_fields (JObj es) = es" "obj_fields JNull = []"
  by (simp_all add: obj_fields_def)

subsection \<open>When one merged patch stands for all\<close>

text \<open>No later patch writes an object where an earlier one writes something else.\<close>

function compatible :: "fields_map \<Rightarrow> fields_map \<Rightarrow> bool" where
  "compatible a [] = True"
| "compatible a ((k, v) # b) = ((case v of JObj bMap \<Rightarrow> (case map_of a k of None \<Rightarrow> True
       | Some (JObj aMap) \<Rightarrow> compatible aMap bMap | Some _ \<Rightarrow> False) | _ \<Rightarrow> True) \<and> compatible a b)"
  by pat_completeness auto
termination by (relation "measure (\<lambda>(a, b). size (JObj b))") auto

definition fits :: "json option \<Rightarrow> json \<Rightarrow> bool" where
  "fits old v = (case v of JObj b \<Rightarrow> (case old of None \<Rightarrow> True | Some (JObj a) \<Rightarrow> compatible a b | Some _ \<Rightarrow> False) | _ \<Rightarrow> True)"

lemma compatible_iff: "compatible a b \<longleftrightarrow> (\<forall>(k, v)\<in>set b. fits (map_of a k) v)"
  by (induction b) (auto simp: fits_def)

declare compatible.simps(2) [simp del]

lemma compatible_fields: "keys_ok b \<Longrightarrow> compatible a b \<longleftrightarrow> (\<forall>k v. map_of b k = Some v \<longrightarrow> fits (map_of a k) v)"
  by (auto simp: compatible_iff map_of_eq_Some_iff [OF keys_ok_distinct])

lemma fields_value: "json_ok (JObj es) \<Longrightarrow> map_of es k = Some v \<Longrightarrow> json_ok v"
  using fields_ok by blast

lemma obj_fields_json [simp]: "json_ok t \<Longrightarrow> json_ok (JObj (obj_fields t))"
  by (cases t) (auto simp: obj_fields_def)

text \<open>One key: merging and then applying, or applying one after the other.\<close>

lemma value_sound:
  assumes "fits pk v"
    and "\<And>a b t. pk = Some (JObj a) \<Longrightarrow> v = JObj b \<Longrightarrow> compatible a b \<Longrightarrow> t = (case old of None \<Rightarrow> JNull | Some x \<Rightarrow> x) \<Longrightarrow>
      apply_fields (obj_fields t) (DeepMerge a b) = apply_fields (apply_fields (obj_fields t) a) b"
  shows "patched_value old (merged_value pk v) = patched_value (case pk of None \<Rightarrow> old | Some u \<Rightarrow> patched_value old u) v"
proof (cases v)
  case (JObj b)
  then show ?thesis using assms
    by (cases pk) (auto simp: fits_def merged_value_def patched_value_def split: json.splits)
qed (auto simp: merged_value_def patched_value_def apply_patch_other split: option.split json.split)

lemma applied_at:
  assumes "keys_ok es" "keys_ok p" "keys_ok q"
  shows "map_of (apply_fields es (DeepMerge p q)) k = (case map_of q k of
        None \<Rightarrow> (case map_of p k of None \<Rightarrow> map_of es k | Some u \<Rightarrow> patched_value (map_of es k) u)
      | Some v \<Rightarrow> patched_value (map_of es k) (merged_value (map_of p k) v))"
    and "map_of (apply_fields (apply_fields es p) q) k = (case map_of q k of
        None \<Rightarrow> (case map_of p k of None \<Rightarrow> map_of es k | Some u \<Rightarrow> patched_value (map_of es k) u)
      | Some v \<Rightarrow> patched_value (case map_of p k of None \<Rightarrow> map_of es k | Some u \<Rightarrow> patched_value (map_of es k) u) v)"
  using assms by (simp_all add: map_of_apply_fields map_of_DeepMerge apply_fields_ok DeepMerge_ok split: option.split)

lemma merge_then_apply:
  assumes "json_ok (JObj es)" "json_ok (JObj p)" "json_ok (JObj q)" "compatible p q"
  shows "apply_fields es (DeepMerge p q) = apply_fields (apply_fields es p) q"
  using assms
proof (induction "size (JObj q)" arbitrary: es p q rule: less_induct)
  case less
  have ok: "keys_ok es" "keys_ok p" "keys_ok q" using less.prems by auto
  have "map_of (apply_fields es (DeepMerge p q)) k = map_of (apply_fields (apply_fields es p) q) k" for k
  proof (cases "map_of q k")
    case (Some v)
    have fits: "fits (map_of p k) v" using less.prems(4) Some ok by (simp add: compatible_fields)
    have "patched_value (map_of es k) (merged_value (map_of p k) v)
        = patched_value (case map_of p k of None \<Rightarrow> map_of es k | Some u \<Rightarrow> patched_value (map_of es k) u) v"
    proof (rule value_sound [OF fits])
      fix a b t
      assume *: "map_of p k = Some (JObj a)" "v = JObj b" "compatible a b" "t = (case map_of es k of None \<Rightarrow> JNull | Some x \<Rightarrow> x)"
      have "json_ok t" using *(4) fields_value [OF less.prems(1)] by (auto split: option.split)
      then show "apply_fields (obj_fields t) (DeepMerge a b) = apply_fields (apply_fields (obj_fields t) a) b"
        using less.hyps [of b "obj_fields t" a] put_in_size [OF Some] fields_value [OF less.prems(3) Some]
          fields_value [OF less.prems(2) *(1)] *(2,3) by (simp del: json_ok.simps)
    qed
    with Some show ?thesis by (simp add: applied_at [OF ok])
  qed (simp add: applied_at [OF ok])
  then show ?case using ok by (intro keys_ok_ext) (auto simp: apply_fields_ok DeepMerge_ok)
qed

text \<open>The condition is necessary: an entry the later patch does not name tells the two apart.\<close>

lemma fresh_key: "\<exists>z :: string. z \<notin> fst ` set b"
  using infinite_UNIV_listI [where 'a = char] ex_new_if_finite [of "fst ` set b"] by auto

lemma incompatible_differs:
  assumes "json_ok (JObj p)" "json_ok (JObj q)" "\<not> compatible p q"
  shows "\<exists>es. json_ok (JObj es) \<and> apply_fields es (DeepMerge p q) \<noteq> apply_fields (apply_fields es p) q"
  using assms
proof (induction "size (JObj q)" arbitrary: p q rule: less_induct)
  case less
  have ok: "keys_ok p" "keys_ok q" using less.prems by auto
  then obtain k v where kv: "map_of q k = Some v" "\<not> fits (map_of p k) v"
    using less.prems(3) by (auto simp: compatible_fields)
  then obtain b u where b: "v = JObj b" "map_of p k = Some u" by (auto simp: fits_def split: json.splits option.splits)
  have "\<exists>x. json_ok (JObj x) \<and> patched_value (Some (JObj x)) (merged_value (Some u) v)
      \<noteq> patched_value (patched_value (Some (JObj x)) u) v"
  proof (cases "\<exists>a. u = JObj a")
    case True
    then obtain a where a: "u = JObj a" "\<not> compatible a b" using kv b by (auto simp: fits_def)
    then show ?thesis
      using less.hyps [of b a] put_in_size [OF kv(1)] fields_value [OF less.prems(2) kv(1)]
        fields_value [OF less.prems(1) b(2)] b(1)
      by (auto simp: merged_value_def patched_value_def simp del: json_ok.simps)
  next
    case False
    obtain z where z: "z \<notin> fst ` set b" using fresh_key by blast
    have "keys_ok b" using fields_value [OF less.prems(2) kv(1)] b(1) by simp
    moreover have "map_of b z = None" using z by (simp add: map_of_eq_None_iff)
    ultimately have "map_of (apply_fields [(z, JNull)] b) z = Some JNull" "map_of (apply_fields [] b) z = None"
      by (simp_all add: map_of_apply_fields)
    then have "apply_fields [(z, JNull)] b \<noteq> apply_fields [] b" by auto
    moreover have "obj_fields u = []" "apply_patch t u = u" "merged_value (Some u) v = v" for t
      using False by (auto simp: obj_fields_def apply_patch_other merged_value_def split: json.split)
    ultimately show ?thesis using b(1) by (intro exI [where x = "[(z, JNull)]"]) (auto simp: patched_value_def)
  qed
  then obtain x where x: "json_ok (JObj x)" "patched_value (Some (JObj x)) (merged_value (Some u) v)
      \<noteq> patched_value (patched_value (Some (JObj x)) u) v" by blast
  have one: "keys_ok [(k, JObj x)]" by simp
  have "map_of (apply_fields [(k, JObj x)] (DeepMerge p q)) k \<noteq> map_of (apply_fields (apply_fields [(k, JObj x)] p) q) k"
    using x(2) kv(1) b(2) by (simp add: applied_at [OF one ok])
  then show ?case using x(1) by (intro exI [where x = "[(k, JObj x)]"]) auto
qed

lemma DeepMerge_json_ok:
  "json_ok (JObj a) \<Longrightarrow> json_ok (JObj b) \<Longrightarrow> json_ok (JObj (DeepMerge a b))"
proof (induction "size (JObj b)" arbitrary: a b rule: less_induct)
  case less
  have ok: "keys_ok a" "keys_ok b" using less.prems by auto
  have "json_ok (merged_value (map_of a k) v)" if k: "map_of b k = Some v" for k v
  proof (cases "\<exists>x y. map_of a k = Some (JObj x) \<and> v = JObj y")
    case True
    then show ?thesis
      using less.hyps put_in_size [OF k] fields_value [OF less.prems(1)] fields_value [OF less.prems(2) k]
      by (auto simp: merged_value_def simp del: json_ok.simps)
  next
    case False
    then show ?thesis using fields_value [OF less.prems(2) k]
      by (auto simp: merged_value_def simp del: json_ok.simps split: option.split json.split)
  qed
  then show ?case using ok fields_value [OF less.prems(1)]
    by (auto simp: fields_ok DeepMerge_ok map_of_DeepMerge simp del: json_ok.simps split: option.splits)
qed

lemma DeepMerge_empty: "keys_ok b \<Longrightarrow> DeepMerge [] b = b"
  by (rule keys_ok_ext) (auto simp: DeepMerge_ok map_of_DeepMerge merged_value_def fun_eq_iff split: option.split)

fun compatible_chain :: "fields_map \<Rightarrow> fields_map list \<Rightarrow> bool" where
  "compatible_chain m [] = True"
| "compatible_chain m (p # ps) = (compatible m p \<and> compatible_chain (DeepMerge m p) ps)"

abbreviation patch_all :: "fields_map list \<Rightarrow> json \<Rightarrow> json" where
  "patch_all ps t \<equiv> fold (\<lambda>p t. apply_patch t (JObj p)) ps t"

lemma apply_fields_json_ok:
  "json_ok t \<Longrightarrow> json_ok p \<Longrightarrow> json_ok (apply_patch t p)"
proof (induction "size p" arbitrary: t p rule: less_induct)
  case less
  show ?case
  proof (cases p)
    case (JObj ps)
    let ?es = "obj_fields t"
    have ok: "keys_ok ?es" "keys_ok ps" using less.prems JObj by auto
    have "json_ok x" if k: "map_of ps k = Some v" and x: "patched_value (map_of ?es k) v = Some x" for k v x
    proof -
      have "json_ok (case map_of ?es k of None \<Rightarrow> JNull | Some y \<Rightarrow> y)"
        using fields_value [OF obj_fields_json [OF less.prems(1)]] by (auto split: option.split)
      then show ?thesis using less.hyps [of v] put_in_size [OF k] fields_value [of ps k v] less.prems(2) JObj k x
        by (auto simp: patched_value_def simp del: json_ok.simps split: if_splits)
    qed
    then show ?thesis using JObj ok fields_value [OF obj_fields_json [OF less.prems(1)]]
      by (auto simp: fields_ok apply_fields_ok map_of_apply_fields simp del: json_ok.simps split: option.splits)
  qed (use less.prems in \<open>simp_all add: apply_patch_other\<close>)
qed

lemma merge_loop_applies:
  assumes "list_all2 (\<lambda>p a. parse (mp_JSON p) = Inr a) patches ps"
    and "json_ok (JObj m)" "list_all (\<lambda>a. json_ok (JObj a)) ps" "compatible_chain m ps"
  shows "\<exists>r. merge_loop parse m patches = Inr r \<and> json_ok (JObj r)
    \<and> (\<forall>t. json_ok t \<longrightarrow> apply_patch t (JObj r) = patch_all (m # ps) t)"
  using assms
proof (induction patches ps arbitrary: m rule: list_all2_induct)
  case (Cons p patches a ps)
  have a: "json_ok (JObj a)" using Cons.prems by simp
  obtain r where r: "merge_loop parse (DeepMerge m a) patches = Inr r" "json_ok (JObj r)"
      "\<And>t. json_ok t \<Longrightarrow> apply_patch t (JObj r) = patch_all (DeepMerge m a # ps) t"
    using Cons.IH [of "DeepMerge m a"] DeepMerge_json_ok [OF Cons.prems(1) a] Cons.prems by auto
  moreover have "apply_patch t (JObj (DeepMerge m a)) = apply_patch (apply_patch t (JObj m)) (JObj a)" if "json_ok t" for t
    using merge_then_apply [OF obj_fields_json [OF that] Cons.prems(1) a] Cons.prems(3) by simp
  ultimately show ?case using Cons.hyps(1) by (auto simp: merge_top_eq simp del: json_ok.simps apply_patch_obj)
qed simp

text \<open>C9. Two or more patches that parse, none of which writes an object where the earlier ones, merged, write a null, a
  scalar or a list, are merged into one patch that does on every document what they do one after the other; the order of
  the entries in the maps plays no part. Without that proviso the claim is false: see \<open>merge_loses_reset\<close> below.\<close>

theorem merged_patch_refines:
  assumes "list_all2 (\<lambda>p a. parse (mp_JSON p) = Inr a) patches ps" and "length patches \<ge> 2"
    and "list_all (\<lambda>a. json_ok (JObj a)) ps" and "compatible_chain [] ps"
  shows "\<exists>r. MergePatches parse marshal patches = marshal (JObj r) \<and> json_ok (JObj r)
    \<and> (\<forall>t. json_ok t \<longrightarrow> apply_patch t (JObj r) = patch_all ps t)"
proof -
  obtain r where r: "merge_loop parse [] patches = Inr r" "json_ok (JObj r)"
      "\<And>t. json_ok t \<Longrightarrow> apply_patch t (JObj r) = patch_all ([] # ps) t"
    using merge_loop_applies [OF assms(1) _ assms(3,4)] by auto
  obtain p q rest where l: "patches = p # q # rest"
    using assms(2) by (cases patches rule: list.exhaust; cases "tl patches") auto
  with assms(1) obtain a ps' where "ps = a # ps'" by (auto simp: list_all2_Cons1)
  then have "patch_all ([] # ps) t = patch_all ps t" for t by simp
  moreover have "MergePatches parse marshal patches = marshal (JObj r)"
    using r(1) unfolding MergePatches_def l list.case by (simp del: merge_loop.simps)
  ultimately show ?thesis using r(2,3) by metis
qed

definition sample_parse :: "string \<Rightarrow> go_error + fields_map" where
  "sample_parse s = (if s = ''max'' then Inr [(''spec'', JObj [(''maxReplicas'', JNum (Fin 10))])]
     else if s = ''null'' then Inr [(''spec'', JNull)]
     else Inr [(''spec'', JObj [(''minReplicas'', JNum (Fin 2))])])"

theorem merged_patch_refines_witness:
  "\<exists>r. MergePatches sample_parse (\<lambda>_. Inr []) [\<lparr>mp_Title = [], mp_JSON = ''max''\<rparr>, \<lparr>mp_Title = [], mp_JSON = ''min''\<rparr>] = Inr []
    \<and> apply_patch (JObj []) (JObj r) = JObj [(''spec'', JObj [(''maxReplicas'', JNum (Fin 10)), (''minReplicas'', JNum (Fin 2))])]"
proof -
  let ?ps = "[[(''spec'', JObj [(''maxReplicas'', JNum (Fin 10))])], [(''spec'', JObj [(''minReplicas'', JNum (Fin 2))])]]"
  have "\<exists>r. MergePatches sample_parse (\<lambda>_. Inr []) [\<lparr>mp_Title = [], mp_JSON = ''max''\<rparr>, \<lparr>mp_Title = [], mp_JSON = ''min''\<rparr>]
      = (\<lambda>_. Inr []) (JObj r) \<and> json_ok (JObj r)
    \<and> (\<forall>t. json_ok t \<longrightarrow> apply_patch t (JObj r) = patch_all ?ps t)"
    by (rule merged_patch_refines) (simp_all add: sample_parse_def compatible.simps(2) merged_value_def)
  then obtain r where r: "MergePatches sample_parse (\<lambda>_. Inr []) [\<lparr>mp_Title = [], mp_JSON = ''max''\<rparr>, \<lparr>mp_Title = [], mp_JSON = ''min''\<rparr>]
      = (\<lambda>_. Inr []) (JObj r)" "\<forall>t. json_ok t \<longrightarrow> apply_patch t (JObj r) = patch_all ?ps t"
    by (elim exE conjE)
  have "json_ok (JObj [])" by simp
  with r(2) have "apply_patch (JObj []) (JObj r) = patch_all ?ps (JObj [])" by blast
  moreover note r(1)
  moreover have "patch_all ?ps (JObj []) = JObj [(''spec'', JObj [(''maxReplicas'', JNum (Fin 10)), (''minReplicas'', JNum (Fin 2))])]"
    by (simp add: field_or_null_def apply_patch.simps obj_fields_def)
  ultimately show ?thesis by (metis (no_types))
qed

text \<open>C34. The condition is necessary: if a later patch writes an object where the earlier one writes a null
  or a scalar, some document distinguishes the merged patch from the two in order. A null that removes
  a field is lost when a later patch writes below it.\<close>

theorem merge_loses_reset:
  assumes "parse (mp_JSON p) = Inr a" "parse (mp_JSON q) = Inr b" "json_ok (JObj a)" "json_ok (JObj b)"
    and "\<not> compatible a b"
  shows "\<exists>r t. MergePatches parse marshal [p, q] = marshal (JObj r) \<and> json_ok t
    \<and> apply_patch t (JObj r) \<noteq> apply_patch (apply_patch t (JObj a)) (JObj b)"
proof -
  obtain es where es: "json_ok (JObj es)" "apply_fields es (DeepMerge a b) \<noteq> apply_fields (apply_fields es a) b"
    using incompatible_differs [OF assms(3-5)] by blast
  have "MergePatches parse marshal [p, q] = marshal (JObj (DeepMerge a b))"
    using assms(1-3) by (simp add: MergePatches_def merge_top_eq DeepMerge_empty)
  with es show ?thesis by (intro exI [where x = "DeepMerge a b"] exI [where x = "JObj es"]) simp
qed

theorem merge_loses_reset_witness:
  "\<exists>r t. MergePatches sample_parse (\<lambda>_. Inr []) [\<lparr>mp_Title = [], mp_JSON = ''null''\<rparr>, \<lparr>mp_Title = [], mp_JSON = ''min''\<rparr>] = Inr [] \<and> json_ok t
    \<and> apply_patch t (JObj r) \<noteq> apply_patch (apply_patch t (JObj [(''spec'', JNull)])) (JObj [(''spec'', JObj [(''minReplicas'', JNum (Fin 2))])])"
  using merge_loses_reset [of sample_parse "\<lparr>mp_Title = [], mp_JSON = ''null''\<rparr>" "[(''spec'', JNull)]" "\<lparr>mp_Title = [], mp_JSON = ''min''\<rparr>"
      "[(''spec'', JObj [(''minReplicas'', JNum (Fin 2))])]" "\<lambda>_. Inr []"]
  by (simp add: sample_parse_def compatible.simps(2))

end
