(* ===== verification/Parallel.thy ===== *)
theory Parallel
  imports KubeApi
begin

section \<open>Concurrent collection and exit codes\<close>

text \<open>
  \<open>cmd/parallel.go\<close>: commands over several HPAs build their outputs in goroutines of an error group
  with a limit; \<open>cmd/exitcode.go\<close> and the aggregation of \<open>cmd/status_batch.go\<close>: what the process
  reports. The goroutines are a step relation over a shared state. \<open>errgroup.Go\<close> starts the goroutine
  of the next name and blocks while the limit is reached, \<open>Wait\<close> returns when none is left; the context
  may be cancelled between any two steps. What \<open>build\<close> may return for a name is the argument \<open>B\<close>, a
  relation, since it reads a cluster.
\<close>

subsection \<open>The goroutines of \<open>mapPerHPA\<close>\<close>

record 'a per_result =
  pr_name :: string
  pr_value :: 'a
  pr_err :: "go_error option"

datatype phase = Started | Building

record 'a group_state =
  gs_next :: nat
  gs_running :: "(nat \<times> phase) list"
  gs_results :: "'a per_result list"
  gs_ctx :: "go_error option"

text \<open>\<open>make\<close> fills the slice with the zero value \<open>zero\<close> of the result type; the names are set before the
  first goroutine starts.\<close>

definition fresh_result :: "'a \<Rightarrow> string \<Rightarrow> 'a per_result" where
  "fresh_result zero name = \<lparr>pr_name = name, pr_value = zero, pr_err = None\<rparr>"

definition group_init :: "'a \<Rightarrow> go_error option \<Rightarrow> string list \<Rightarrow> 'a group_state" where
  "group_init zero ctx names =
     \<lparr>gs_next = 0, gs_running = [], gs_results = map (fresh_result zero) names, gs_ctx = ctx\<rparr>"

text \<open>\<open>results[i].err = err\<close> or \<open>results[i].value = value\<close>.\<close>

definition with_outcome :: "go_error + 'a \<Rightarrow> 'a per_result \<Rightarrow> 'a per_result" where
  "with_outcome r p = (case r of Inl e \<Rightarrow> p\<lparr>pr_err := Some e\<rparr> | Inr v \<Rightarrow> p\<lparr>pr_value := v\<rparr>)"

definition store_result :: "nat \<Rightarrow> go_error + 'a \<Rightarrow> 'a per_result list \<Rightarrow> 'a per_result list" where
  "store_result i r rs = rs[i := with_outcome r (rs ! i)]"

definition defaultConcurrency :: "int \<Rightarrow> int" where
  "defaultConcurrency numCPU = min numCPU 10"

definition perHPAConcurrency :: "int \<Rightarrow> int option \<Rightarrow> int" where
  "perHPAConcurrency numCPU concurrency = (case concurrency of
     None \<Rightarrow> defaultConcurrency numCPU
   | Some n \<Rightarrow> if n < 1 then defaultConcurrency numCPU else n)"

definition group_limit :: "int \<Rightarrow> int \<Rightarrow> int" where
  "group_limit numCPU n = (if n < 1 then defaultConcurrency numCPU else n)"

inductive group_step ::
    "int \<Rightarrow> string list \<Rightarrow> (string \<Rightarrow> go_error + 'a \<Rightarrow> bool) \<Rightarrow> 'a group_state \<Rightarrow> 'a group_state \<Rightarrow> bool"
  for bound names B where
  launch: "gs_next s < length names \<Longrightarrow> int (length (gs_running s)) < bound \<Longrightarrow>
     group_step bound names B s (s\<lparr>gs_next := Suc (gs_next s), gs_running := (gs_next s, Started) # gs_running s\<rparr>)"
| stopped: "gs_running s = us @ (i, Started) # vs \<Longrightarrow> gs_ctx s = Some e \<Longrightarrow>
     group_step bound names B s (s\<lparr>gs_running := us @ vs, gs_results := store_result i (Inl e) (gs_results s)\<rparr>)"
| enter: "gs_running s = us @ (i, Started) # vs \<Longrightarrow> gs_ctx s = None \<Longrightarrow>
     group_step bound names B s (s\<lparr>gs_running := us @ (i, Building) # vs\<rparr>)"
| finish: "gs_running s = us @ (i, Building) # vs \<Longrightarrow> B (pr_name (gs_results s ! i)) r \<Longrightarrow>
     group_step bound names B s (s\<lparr>gs_running := us @ vs, gs_results := store_result i r (gs_results s)\<rparr>)"
| cancel: "gs_ctx s = None \<Longrightarrow> group_step bound names B s (s\<lparr>gs_ctx := Some e\<rparr>)"

definition group_done :: "string list \<Rightarrow> 'a group_state \<Rightarrow> bool" where
  "group_done names s \<longleftrightarrow> gs_next s = length names \<and> gs_running s = []"

abbreviation group_reach ::
    "int \<Rightarrow> string list \<Rightarrow> (string \<Rightarrow> go_error + 'a \<Rightarrow> bool) \<Rightarrow> 'a \<Rightarrow> go_error option \<Rightarrow> 'a group_state \<Rightarrow> bool" where
  "group_reach bound names B zero ctx \<equiv> (group_step bound names B)\<^sup>*\<^sup>* (group_init zero ctx names)"

text \<open>\<open>collectPerHPA\<close>: the values in input order, or the first error in input order.\<close>

fun collect_results :: "'a list \<Rightarrow> 'a per_result list \<Rightarrow> go_error + 'a list" where
  "collect_results values [] = Inr values"
| "collect_results values (r # rs) = (case pr_err r of
     Some e \<Rightarrow> Inl e
   | None \<Rightarrow> collect_results (values @ [pr_value r]) rs)"

definition collectPerHPA :: "'a group_state \<Rightarrow> go_error + 'a list" where
  "collectPerHPA s = collect_results [] (gs_results s)"

subsection \<open>The invariant of the group\<close>

text \<open>The result of a finished goroutine: the outcome of \<open>build\<close>, or the error of a cancelled context.\<close>

definition settled :: "(string \<Rightarrow> go_error + 'a \<Rightarrow> bool) \<Rightarrow> 'a \<Rightarrow> go_error option \<Rightarrow> string \<Rightarrow> 'a per_result \<Rightarrow> bool" where
  "settled B zero ctx name p \<longleftrightarrow> (\<exists>r. (B name r \<or> (\<exists>e. ctx = Some e \<and> r = Inl e)) \<and> p = with_outcome r (fresh_result zero name))"

definition finished :: "'a group_state \<Rightarrow> nat \<Rightarrow> bool" where
  "finished s i \<longleftrightarrow> i < gs_next s \<and> i \<notin> fst ` set (gs_running s)"

definition group_ok :: "int \<Rightarrow> string list \<Rightarrow> (string \<Rightarrow> go_error + 'a \<Rightarrow> bool) \<Rightarrow> 'a \<Rightarrow> 'a group_state \<Rightarrow> bool" where
  "group_ok bound names B zero s \<longleftrightarrow> gs_next s \<le> length names
     \<and> int (length (gs_running s)) \<le> bound
     \<and> distinct (map fst (gs_running s)) \<and> (\<forall>i\<in>fst ` set (gs_running s). i < gs_next s)
     \<and> length (gs_results s) = length names
     \<and> (\<forall>i<length names. if finished s i then settled B zero (gs_ctx s) (names ! i) (gs_results s ! i)
          else gs_results s ! i = fresh_result zero (names ! i))"

lemma group_init_ok: "0 \<le> bound \<Longrightarrow> group_ok bound names B zero (group_init zero ctx names)"
  by (simp add: group_ok_def group_init_def finished_def)

lemma settled_cancel: "settled B zero None name p \<Longrightarrow> settled B zero c name p"
  by (auto simp: settled_def)

lemma store_result_nth: "i < length rs \<Longrightarrow> store_result i r rs ! j = (if j = i then with_outcome r (rs ! i) else rs ! j)"
  by (simp add: store_result_def nth_list_update)

lemma outcome_name [simp]: "pr_name (with_outcome r p) = pr_name p"
  by (simp add: with_outcome_def split: sum.split)

lemma length_store_result [simp]: "length (store_result i r rs) = length rs"
  by (simp add: store_result_def)

text \<open>A goroutine that ends leaves the running list and settles its own result, nobody else's.\<close>

lemma group_ok_leave:
  assumes ok: "group_ok bound names B zero s" and run: "gs_running s = us @ (i, p) # vs"
    and r: "B (names ! i) r \<or> (\<exists>e. gs_ctx s = Some e \<and> r = Inl e)"
  shows "group_ok bound names B zero (s\<lparr>gs_running := us @ vs, gs_results := store_result i r (gs_results s)\<rparr>)"
proof -
  have i: "i < gs_next s" "i < length names" "i < length (gs_results s)" "i \<notin> fst ` set (us @ vs)" "\<not> finished s i"
    using ok run by (auto simp: group_ok_def finished_def)
  then have fresh: "gs_results s ! i = fresh_result zero (names ! i)"
    using ok by (simp add: group_ok_def)
  have "settled B zero (gs_ctx s) (names ! i) (with_outcome r (gs_results s ! i))"
    using r fresh by (auto simp: settled_def)
  moreover have "finished (s\<lparr>gs_running := us @ vs, gs_results := rs\<rparr>) j \<longleftrightarrow> j = i \<or> finished s j" for rs j
    using i run by (auto simp: finished_def)
  moreover have "int (length (us @ vs)) \<le> bound" "distinct (map fst (us @ vs))" "\<forall>j\<in>fst ` set (us @ vs). j < gs_next s"
    using ok run by (auto simp: group_ok_def)
  ultimately show ?thesis using ok i(3) by (simp add: group_ok_def store_result_nth)
qed

lemma group_step_ok:
  assumes "group_step bound names B s t" and "group_ok bound names B zero s"
  shows "group_ok bound names B zero t"
  using assms
proof (induction rule: group_step.induct)
  case (launch s)
  moreover have "finished (s\<lparr>gs_next := Suc (gs_next s), gs_running := (gs_next s, Started) # gs_running s\<rparr>) i \<longleftrightarrow> finished s i" for i
    by (auto simp: finished_def)
  moreover have "gs_next s \<notin> fst ` set (gs_running s)" using launch by (auto simp: group_ok_def)
  ultimately show ?case by (auto simp: group_ok_def less_Suc_eq)
next
  case (stopped s us i vs e)
  then show ?case by (intro group_ok_leave) auto
next
  case (enter s us i vs)
  have "finished (s\<lparr>gs_running := us @ (i, Building) # vs\<rparr>) j \<longleftrightarrow> finished s j" for j
    using enter(1) by (auto simp: finished_def)
  with enter show ?case by (auto simp: group_ok_def)
next
  case (finish s us i vs r)
  then have "i < length names" "\<not> finished s i" by (auto simp: group_ok_def finished_def)
  then have "gs_results s ! i = fresh_result zero (names ! i)" using finish(3) by (simp add: group_ok_def)
  with finish show ?case by (intro group_ok_leave) (auto simp: fresh_result_def)
next
  case (cancel s e)
  then have "\<forall>i<length names. finished s i \<longrightarrow> settled B zero (Some e) (names ! i) (gs_results s ! i)"
    using settled_cancel [of B zero] by (auto simp: group_ok_def)
  moreover have "finished (s\<lparr>gs_ctx := Some e\<rparr>) i \<longleftrightarrow> finished s i" for i by (simp add: finished_def)
  ultimately show ?case using cancel by (simp add: group_ok_def)
qed

lemma group_reach_ok:
  assumes "group_reach bound names B zero ctx s" and "0 \<le> bound"
  shows "group_ok bound names B zero s"
  using assms(1) by (induction rule: rtranclp_induct) (auto intro: group_init_ok [OF assms(2)] group_step_ok)

subsection \<open>The group ends\<close>

definition phase_work :: "phase \<Rightarrow> nat" where
  "phase_work p = (case p of Started \<Rightarrow> 2 | Building \<Rightarrow> 1)"

definition work :: "string list \<Rightarrow> 'a group_state \<Rightarrow> nat" where
  "work names s = 3 * (length names - gs_next s) + sum_list (map (phase_work \<circ> snd) (gs_running s))
     + (if gs_ctx s = None then 1 else 0)"

lemma group_step_work: "group_step bound names B s t \<Longrightarrow> work names t < work names s"
  by (induction rule: group_step.induct) (auto simp: work_def phase_work_def)

lemma group_steps_work: "(group_step bound names B ^^ n) s t \<Longrightarrow> n + work names t \<le> work names s"
proof (induction n arbitrary: t)
  case (Suc n)
  then obtain u where "(group_step bound names B ^^ n) s u" "group_step bound names B u t" by auto
  with Suc.IH [of u] group_step_work [of bound names B u t] show ?case by simp
qed simp

lemma group_progress:
  assumes ok: "group_ok bound names B zero s" and "1 \<le> bound" and B: "\<And>name. name \<in> set names \<Longrightarrow> \<exists>r. B name r"
    and "\<not> group_done names s"
  shows "\<exists>t. group_step bound names B s t"
proof (cases "gs_running s")
  case Nil
  then have "gs_next s < length names" "int (length (gs_running s)) < bound"
    using assms by (auto simp: group_done_def group_ok_def)
  then show ?thesis by (blast intro: launch)
next
  case (Cons g vs)
  then obtain i p where g: "gs_running s = [] @ (i, p) # vs" by (cases g) auto
  then have i: "i < length names" "\<not> finished s i" using ok by (auto simp: group_ok_def finished_def)
  then have "gs_results s ! i = fresh_result zero (names ! i)" using ok by (simp add: group_ok_def)
  then obtain r where r: "B (pr_name (gs_results s ! i)) r" using B [of "names ! i"] i by (auto simp: fresh_result_def)
  show ?thesis
  proof (cases p)
    case Building
    then show ?thesis using g r group_step.finish [where us = "[]"] by blast
  next
    case Started
    then show ?thesis using g stopped [where us = "[]"] enter [where us = "[]"] by (cases "gs_ctx s") blast+
  qed
qed

lemma group_limit_pos: "1 \<le> numCPU \<Longrightarrow> 1 \<le> group_limit numCPU n"
  by (auto simp: group_limit_def defaultConcurrency_def)

lemma group_reach_limit:
  "group_reach (group_limit numCPU n) names B zero ctx s \<Longrightarrow> 1 \<le> numCPU \<Longrightarrow> group_ok (group_limit numCPU n) names B zero s"
  using group_reach_ok group_limit_pos [of numCPU n] by fastforce

lemma settled_name: "settled B zero c name p \<Longrightarrow> pr_name p = name"
  by (auto simp: settled_def fresh_result_def)

lemma settled_value: "settled B zero c name p \<Longrightarrow> pr_err p = None \<Longrightarrow> B name (Inr (pr_value p))"
  unfolding settled_def
proof (elim exE conjE)
  fix r assume "B name r \<or> (\<exists>e. c = Some e \<and> r = Inl e)" "p = with_outcome r (fresh_result zero name)" "pr_err p = None"
  then show "B name (Inr (pr_value p))" by (cases r) (auto simp: with_outcome_def)
qed

lemma group_names:
  assumes "group_reach (group_limit numCPU n) names B zero ctx s" and "1 \<le> numCPU"
  shows "map pr_name (gs_results s) = names"
proof (rule nth_equalityI)
  note ok = group_reach_limit [OF assms]
  then show "length (map pr_name (gs_results s)) = length names" by (simp add: group_ok_def)
  fix i assume "i < length (map pr_name (gs_results s))"
  with ok show "map pr_name (gs_results s) ! i = names ! i"
    using settled_name [of B zero "gs_ctx s" "names ! i" "gs_results s ! i"]
    by (cases "finished s i") (auto simp: group_ok_def fresh_result_def)
qed

lemma group_done_settled:
  assumes "group_reach (group_limit numCPU n) names B zero ctx s" and "1 \<le> numCPU" and "group_done names s"
  shows "\<forall>i<length names. settled B zero (gs_ctx s) (names ! i) (gs_results s ! i)"
  using group_reach_limit [OF assms(1,2)] assms(3) by (auto simp: group_ok_def group_done_def finished_def)

text \<open>C30. At most \<open>limit\<close> goroutines run at any time, never two for one name, and a result belongs to
  the name at its own index: it is untouched until its goroutine ends, and then holds what \<open>build\<close> returned
  for that name or the error of the cancelled context.\<close>

theorem group_invariant:
  assumes "group_reach (group_limit numCPU n) names B zero ctx s" and "1 \<le> numCPU"
  shows "int (length (gs_running s)) \<le> group_limit numCPU n \<and> distinct (map fst (gs_running s))
    \<and> map pr_name (gs_results s) = names
    \<and> (\<forall>i<length names. gs_results s ! i = fresh_result zero (names ! i)
         \<or> finished s i \<and> settled B zero (gs_ctx s) (names ! i) (gs_results s ! i))"
proof -
  note ok = group_reach_limit [OF assms]
  have "gs_results s ! i = fresh_result zero (names ! i) \<or> finished s i \<and> settled B zero (gs_ctx s) (names ! i) (gs_results s ! i)"
    if "i < length names" for i using ok that by (cases "finished s i") (auto simp: group_ok_def)
  then show ?thesis using ok group_names [OF assms] by (simp add: group_ok_def)
qed

text \<open>C28. The collection always ends: if \<open>build\<close> returns for every name, then whatever the scheduler does
  and whenever the context is cancelled, no run has more than three steps a name and one more, and a
  run that cannot go on has finished every goroutine, with every result settled.\<close>

theorem group_ends:
  assumes "group_reach (group_limit numCPU n) names B zero ctx s" and "1 \<le> numCPU"
    and "\<forall>name\<in>set names. \<exists>r. B name r"
  shows "(\<forall>k t. (group_step (group_limit numCPU n) names B ^^ k) s t \<longrightarrow> k \<le> 3 * length names + 1)
    \<and> ((\<nexists>t. group_step (group_limit numCPU n) names B s t) \<longrightarrow> group_done names s
        \<and> (\<forall>i<length names. settled B zero (gs_ctx s) (names ! i) (gs_results s ! i)))"
proof -
  let ?bound = "group_limit numCPU n"
  note bound = group_limit_pos [OF assms(2), of n] and ok = group_reach_limit [OF assms(1,2)]
  obtain k0 where k0: "(group_step ?bound names B ^^ k0) (group_init zero ctx names) s"
    using assms(1) by (auto dest: rtranclp_imp_relpowp)
  have "work names (group_init zero ctx names) \<le> 3 * length names + 1" by (simp add: work_def group_init_def)
  then have "k \<le> 3 * length names + 1" if "(group_step ?bound names B ^^ k) s t" for k t
    using group_steps_work [OF that] group_steps_work [OF k0] by simp
  moreover have "group_done names s" if "\<nexists>t. group_step ?bound names B s t"
    using group_progress [OF ok bound] assms(3) that by blast
  ultimately show ?thesis using group_done_settled [OF assms(1,2)] by blast
qed

subsection \<open>The outcome does not depend on the schedule\<close>

text \<open>The loop over the names the collection stands for: it stops at the first error.\<close>

fun sequential_loop :: "(string \<Rightarrow> go_error + 'a) \<Rightarrow> 'a list \<Rightarrow> string list \<Rightarrow> go_error + 'a list" where
  "sequential_loop f values [] = Inr values"
| "sequential_loop f values (name # names) = (case f name of
     Inl e \<Rightarrow> Inl e | Inr v \<Rightarrow> sequential_loop f (values @ [v]) names)"

lemma collect_sequential:
  "collect_results vals (map (\<lambda>name. with_outcome (f name) (fresh_result zero name)) names) = sequential_loop f vals names"
  by (induction f vals names rule: sequential_loop.induct) (auto simp: with_outcome_def fresh_result_def split: sum.split)

text \<open>C8. The outcome does not depend on the schedule: if \<open>build\<close> has one outcome for each name and the
  context is not cancelled, every finished run, whatever the limit and the interleaving, collects exactly
  what the loop over the names in input order returns, its first error included.\<close>

theorem collect_is_sequential:
  assumes "group_reach (group_limit numCPU n) names (\<lambda>name r. r = f name) zero ctx s" and "1 \<le> numCPU"
    and "group_done names s" and "gs_ctx s = None"
  shows "collectPerHPA s = sequential_loop f [] names"
proof -
  have "gs_results s ! i = with_outcome (f (names ! i)) (fresh_result zero (names ! i))" if "i < length names" for i
    using group_done_settled [OF assms(1-3)] assms(4) that by (auto simp: settled_def)
  moreover have "length (gs_results s) = length names"
    using group_reach_limit [OF assms(1,2)] by (simp add: group_ok_def)
  ultimately have "gs_results s = map (\<lambda>name. with_outcome (f name) (fresh_result zero name)) names"
    by (intro nth_equalityI) auto
  then show ?thesis by (simp add: collectPerHPA_def collect_sequential)
qed

text \<open>A run over two names that interleaves them.\<close>

definition sample_build :: "string \<Rightarrow> go_error + nat" where
  "sample_build name = (if name = ''b'' then Inl (plain_err ''gone'') else Inr (length name))"

definition pair_done :: "(string \<Rightarrow> go_error + 'a) \<Rightarrow> 'a \<Rightarrow> string \<Rightarrow> string \<Rightarrow> 'a group_state" where
  "pair_done f zero a b = \<lparr>gs_next = 2, gs_running = [],
     gs_results = [with_outcome (f a) (fresh_result zero a), with_outcome (f b) (fresh_result zero b)], gs_ctx = None\<rparr>"

lemma group_finish:
  assumes "gs_running s = us @ (i, Building) # vs" and "B (pr_name (gs_results s ! i)) r"
    and "t = s\<lparr>gs_running := us @ vs, gs_results := store_result i r (gs_results s)\<rparr>"
  shows "group_step bound names B s t"
  unfolding assms(3) using assms(1,2) by (rule group_step.finish)

lemma pair_reach: "group_reach (group_limit 4 2) [a, b] (\<lambda>name r. r = f name) zero None (pair_done f zero a b)"
proof -
  let ?step = "group_step (group_limit 4 2) [a, b] (\<lambda>name r. r = f name)"
  let ?a = "fresh_result zero a" and ?b = "fresh_result zero b"
  let ?st = "\<lambda>k run rs. \<lparr>gs_next = k, gs_running = run, gs_results = rs, gs_ctx = None\<rparr>"
  have l: "group_limit 4 2 = 2" by (simp add: group_limit_def)
  have 1: "?step (?st 0 [] [?a, ?b]) (?st 1 [(0, Started)] [?a, ?b])"
    using launch [of "?st 0 [] [?a, ?b]" "[a, b]" 2] by (simp add: l)
  have 2: "?step (?st 1 [(0, Started)] [?a, ?b]) (?st 2 [(1, Started), (0, Started)] [?a, ?b])"
    using launch [of "?st 1 [(0, Started)] [?a, ?b]" "[a, b]" 2] by (simp add: l numeral_2_eq_2)
  have 3: "?step (?st 2 [(1, Started), (0, Started)] [?a, ?b]) (?st 2 [(1, Building), (0, Started)] [?a, ?b])"
    using enter [of "?st 2 [(1, Started), (0, Started)] [?a, ?b]" "[]" 1] by simp
  have 4: "?step (?st 2 [(1, Building), (0, Started)] [?a, ?b]) (?st 2 [(1, Building), (0, Building)] [?a, ?b])"
    using enter [of "?st 2 [(1, Building), (0, Started)] [?a, ?b]" "[(1, Building)]" 0 "[]"] by simp
  have 5: "?step (?st 2 [(1, Building), (0, Building)] [?a, ?b]) (?st 2 [(0, Building)] [?a, with_outcome (f b) ?b])"
    by (rule group_finish [where us = "[]" and i = 1 and vs = "[(0, Building)]" and r = "f b"])
      (simp_all add: store_result_def fresh_result_def)
  have 6: "?step (?st 2 [(0, Building)] [?a, with_outcome (f b) ?b]) (pair_done f zero a b)"
    by (rule group_finish [where us = "[]" and i = 0 and vs = "[]" and r = "f a"])
      (simp_all add: store_result_def pair_done_def fresh_result_def)
  note more = converse_rtranclp_into_rtranclp [where r = ?step] and stay = rtranclp.rtrancl_refl [where r = ?step]
  have "?step\<^sup>*\<^sup>* (?st 0 [] [?a, ?b]) (pair_done f zero a b)"
    by (rule more [OF 1 more [OF 2 more [OF 3 more [OF 4 more [OF 5 more [OF 6 stay]]]]]])
  then show ?thesis by (simp add: group_init_def)
qed

lemma pair_finished: "group_done [a, b] (pair_done f zero a b)" "gs_ctx (pair_done f zero a b) = None"
  by (simp_all add: pair_done_def group_done_def)

lemma sample_build_simps: "sample_build ''a'' = Inr 1" "sample_build ''b'' = Inl (plain_err ''gone'')"
  by (simp_all add: sample_build_def)

theorem collect_is_sequential_witness: "collectPerHPA (pair_done sample_build 0 ''a'' ''b'') = Inl (plain_err ''gone'')"
  using collect_is_sequential [OF pair_reach [where f = sample_build and zero = 0 and a = "''a''" and b = "''b''"] _ pair_finished] by (simp add: sample_build_simps)

theorem group_invariant_witness:
  "length (gs_running (pair_done sample_build 0 ''a'' ''b'')) \<le> 2 \<and> map pr_name (gs_results (pair_done sample_build 0 ''a'' ''b'')) = [''a'', ''b'']"
  using group_invariant [OF pair_reach [where f = sample_build and zero = 0 and a = "''a''" and b = "''b''"]] by (simp add: group_limit_def)

theorem group_ends_witness:
  "\<forall>t. \<not> (group_step (group_limit 4 2) [''a'', ''b''] (\<lambda>name r. r = sample_build name) ^^ 8)
    (pair_done sample_build 0 ''a'' ''b'') t"
  using group_ends [OF pair_reach [where f = sample_build and zero = 0 and a = "''a''" and b = "''b''"]]
  by (fastforce simp del: relpowp.simps)

end
