(* ===== verification/Batch.thy ===== *)
theory Batch
  imports Parallel
begin

section \<open>Batches and exit codes\<close>

text \<open>
  \<open>cmd/status_batch.go\<close>: the results of the goroutines become the items of the batch envelope;
  \<open>cmd/exitcode.go\<close> and \<open>main.go\<close>: the error a command returns decides the exit code of the process.
  An error is the tree its \<open>Unwrap\<close> methods span, which \<open>errors.As\<close> and \<open>errors.Is\<close> search depth
  first. Of a status report only the fields the code reads are named; \<open>rp_body\<close> is the rest.
\<close>

subsection \<open>Error trees\<close>

datatype error_tree =
    PlainErr string
  | ErrHPANotFound
  | Canceled
  | Wrapped string error_tree
  | ExitCodeError int error_tree
  | Joined "error_tree list"

fun find_exit :: "error_tree \<Rightarrow> int option" and find_exits :: "error_tree list \<Rightarrow> int option" where
  "find_exit (ExitCodeError code e) = Some code"
| "find_exit (Wrapped msg e) = find_exit e"
| "find_exit (Joined es) = find_exits es"
| "find_exit _ = None"
| "find_exits [] = None"
| "find_exits (e # es) = (case find_exit e of Some code \<Rightarrow> Some code | None \<Rightarrow> find_exits es)"

fun tree_is :: "error_tree \<Rightarrow> error_tree \<Rightarrow> bool" where
  "tree_is target (ExitCodeError code e) = tree_is target e"
| "tree_is target (Wrapped msg e) = tree_is target e"
| "tree_is target (Joined es) = list_ex (tree_is target) es"
| "tree_is target e = (e = target)"

definition ExitSuccess :: int where "ExitSuccess = 0"
definition ExitError :: int where "ExitError = 1"
definition ExitWarning :: int where "ExitWarning = 2"
definition ExitNotFound :: int where "ExitNotFound = 3"
definition exitInterrupted :: int where "exitInterrupted = 130"

definition classifyError :: "error_tree option \<Rightarrow> int \<times> bool" where
  "classifyError err = (case err of
     None \<Rightarrow> (ExitSuccess, True)
   | Some e \<Rightarrow> (case find_exit e of
       Some code \<Rightarrow> (code, True)
     | None \<Rightarrow> if tree_is ErrHPANotFound e then (ExitNotFound, True) else (ExitError, False)))"

definition exitCodeForError :: "error_tree option \<Rightarrow> int" where
  "exitCodeForError err = fst (classifyError err)"

definition ExitCodeForMain :: "error_tree option \<Rightarrow> int" where
  "ExitCodeForMain err = (if err = None then ExitSuccess else exitCodeForError err)"

text \<open>\<open>run\<close> of \<open>main.go\<close>: \<open>interrupted\<close> says whether the signal context is done.\<close>

definition main_run :: "bool \<Rightarrow> error_tree option \<Rightarrow> int" where
  "main_run interrupted err = (case err of
     None \<Rightarrow> 0
   | Some e \<Rightarrow> if tree_is Canceled e \<and> interrupted then exitInterrupted else ExitCodeForMain err)"

subsection \<open>Reports of a batch\<close>

record 'r status_report =
  rp_Health :: string
  rp_Name :: string
  rp_Namespace :: string
  rp_body :: 'r

record 'r report_result =
  rr_name :: string
  rr_namespace :: string
  rr_report :: "'r status_report"
  rr_hasReport :: bool
  rr_err :: "go_error option"

datatype batch_status = BatchStatusError | BatchStatusWarning | BatchStatusOK

definition healthIsWarning :: "string \<Rightarrow> bool" where
  "healthIsWarning health \<longleftrightarrow> health = ''ERROR'' \<or> health = ''LIMITED'' \<or> health = ''WARNING''"

definition batchStatus :: "'r report_result \<Rightarrow> batch_status" where
  "batchStatus r = (if \<not> rr_hasReport r then BatchStatusError
     else let health = rp_Health (rr_report r)
          in if health = ''ERROR'' \<or> health = ''LIMITED'' \<or> health = ''WARNING'' then BatchStatusWarning else BatchStatusOK)"

definition warningExitCode :: "string \<Rightarrow> string \<Rightarrow> string \<Rightarrow> bool \<Rightarrow> error_tree option" where
  "warningExitCode health name namespace watchMode =
     (if watchMode then None
      else if healthIsWarning health
      then Some (ExitCodeError ExitWarning (PlainErr (''HPA '' @ namespace @ ''/'' @ name @ '' health is '' @ health)))
      else None)"

definition buildReports :: "string \<Rightarrow> 'r status_report per_result list \<Rightarrow> 'r report_result list" where
  "buildReports namespace built = map (\<lambda>item. \<lparr>rr_name = pr_name item, rr_namespace = namespace,
     rr_report = pr_value item, rr_hasReport = (pr_err item = None), rr_err = pr_err item\<rparr>) built"

record 'r batch_item =
  bi_Namespace :: string
  bi_Name :: string
  bi_Status :: batch_status
  bi_Report :: "'r status_report option"
  bi_Error :: string

text \<open>The items of the envelope; a failed result without an error would be a nil dereference (\<^const>\<open>None\<close>).\<close>

fun buildStatusBatch :: "'r report_result list \<Rightarrow> 'r batch_item list option" where
  "buildStatusBatch [] = Some []"
| "buildStatusBatch (r # rs) = (case (if rr_hasReport r then Some [] else map_option err_msg (rr_err r)) of
     None \<Rightarrow> None
   | Some msg \<Rightarrow> map_option (Cons \<lparr>bi_Namespace = rr_namespace r, bi_Name = rr_name r, bi_Status = batchStatus r,
       bi_Report = (if rr_hasReport r then Some (rr_report r) else None), bi_Error = msg\<rparr>) (buildStatusBatch rs))"

definition successReports :: "'r report_result list \<Rightarrow> 'r status_report list" where
  "successReports results = map rr_report (filter rr_hasReport results)"

definition countFailed :: "'r report_result list \<Rightarrow> int" where
  "countFailed results = int (length (filter (\<lambda>r. \<not> rr_hasReport r) results))"

fun batch_scan :: "bool \<Rightarrow> 'r report_result list \<Rightarrow> bool \<times> bool" where
  "batch_scan hasWarning [] = (False, hasWarning)"
| "batch_scan hasWarning (r # rs) =
     (if \<not> rr_hasReport r then (True, hasWarning)
      else batch_scan (healthIsWarning (rp_Health (rr_report r)) \<or> hasWarning) rs)"

fun first_warning :: "bool \<Rightarrow> 'r report_result list \<Rightarrow> error_tree option" where
  "first_warning watchMode [] = None"
| "first_warning watchMode (r # rs) =
     (case warningExitCode (rp_Health (rr_report r)) (rp_Name (rr_report r)) (rp_Namespace (rr_report r)) watchMode of
        Some e \<Rightarrow> Some e | None \<Rightarrow> first_warning watchMode rs)"

definition aggregateBatchExitCode :: "'r report_result list \<Rightarrow> bool \<Rightarrow> error_tree option" where
  "aggregateBatchExitCode results watchMode =
     (let (hasError, hasWarning) = batch_scan False results
      in if hasError
         then Some (ExitCodeError ExitError (PlainErr (show_int (countFailed results) @ '' of '' @
                show_int (int (length results)) @ '' HPA(s) could not be reported; see output for details'')))
         else if hasWarning \<and> \<not> watchMode then first_warning watchMode results
         else None)"

definition joinOutputAndExit :: "error_tree option \<Rightarrow> error_tree option \<Rightarrow> error_tree option" where
  "joinOutputAndExit outputErr exitErr = (if outputErr \<noteq> None then outputErr else exitErr)"

subsection \<open>The exit code\<close>

lemma batchStatus_simps:
  "batchStatus r = BatchStatusError \<longleftrightarrow> \<not> rr_hasReport r"
  "batchStatus r = BatchStatusWarning \<longleftrightarrow> rr_hasReport r \<and> healthIsWarning (rp_Health (rr_report r))"
  by (auto simp: batchStatus_def healthIsWarning_def Let_def)

lemma batch_scan_error: "fst (batch_scan w rs) \<longleftrightarrow> (\<exists>r\<in>set rs. \<not> rr_hasReport r)"
  by (induction w rs rule: batch_scan.induct) auto

lemma batch_scan_warning:
  "\<forall>r\<in>set rs. rr_hasReport r \<Longrightarrow> snd (batch_scan w rs) \<longleftrightarrow> w \<or> (\<exists>r\<in>set rs. healthIsWarning (rp_Health (rr_report r)))"
  by (induction w rs rule: batch_scan.induct) auto

lemma first_warning_code: "first_warning w rs = Some e \<Longrightarrow> find_exit e = Some ExitWarning"
  by (induction w rs rule: first_warning.induct) (auto simp: warningExitCode_def split: option.splits if_splits)

lemma first_warning_None:
  "first_warning False rs = None \<longleftrightarrow> (\<forall>r\<in>set rs. \<not> healthIsWarning (rp_Health (rr_report r)))"
  by (induction rs) (auto simp: warningExitCode_def)

lemma in_set_map: "x \<in> set (map f rs) \<longleftrightarrow> (\<exists>r\<in>set rs. f r = x)"
  by auto

definition severity :: "bool \<Rightarrow> batch_status list \<Rightarrow> int" where
  "severity watchMode sts = (if BatchStatusError \<in> set sts then ExitError
     else if BatchStatusWarning \<in> set sts \<and> \<not> watchMode then ExitWarning else ExitSuccess)"

lemma aggregate_code:
  "exitCodeForError (aggregateBatchExitCode rs watchMode) = severity watchMode (map batchStatus rs)"
proof (cases "\<exists>r\<in>set rs. \<not> rr_hasReport r")
  case True
  then have "severity watchMode (map batchStatus rs) = ExitError"
    unfolding severity_def in_set_map batchStatus_simps by simp
  then show ?thesis using True
    by (simp add: aggregateBatchExitCode_def exitCodeForError_def classifyError_def case_prod_beta batch_scan_error)
next
  case False
  then have sev: "severity watchMode (map batchStatus rs) =
      (if (\<exists>r\<in>set rs. healthIsWarning (rp_Health (rr_report r))) \<and> \<not> watchMode then ExitWarning else ExitSuccess)"
    unfolding severity_def in_set_map batchStatus_simps by auto
  have agg: "aggregateBatchExitCode rs watchMode =
      (if (\<exists>r\<in>set rs. healthIsWarning (rp_Health (rr_report r))) \<and> \<not> watchMode then first_warning watchMode rs else None)"
    using False batch_scan_error [of False rs] batch_scan_warning [of rs False]
    by (simp add: aggregateBatchExitCode_def case_prod_beta)
  show ?thesis
  proof (cases "(\<exists>r\<in>set rs. healthIsWarning (rp_Health (rr_report r))) \<and> \<not> watchMode")
    case True
    then obtain e where "first_warning watchMode rs = Some e" using first_warning_None [of rs] by auto
    with True show ?thesis using first_warning_code [of watchMode rs e]
      unfolding sev agg by (simp add: exitCodeForError_def classifyError_def)
  next
    case False
    then show ?thesis unfolding sev agg by (simp only: if_False) (simp add: exitCodeForError_def classifyError_def)
  qed
qed

lemma build_batch_total:
  "\<exists>items. buildStatusBatch (buildReports namespace ps) = Some items \<and> map bi_Name items = map pr_name ps
    \<and> map bi_Status items = map batchStatus (buildReports namespace ps)
    \<and> map bi_Report items = map (\<lambda>p. if pr_err p = None then Some (pr_value p) else None) ps"
  by (induction ps) (auto simp: buildReports_def split: option.split)

text \<open>C29. The exit code of a batch agrees with the envelope it printed, whatever the schedule: when every
  goroutine has finished, an item with status error gives 1, otherwise an item with status warning gives 2
  (0 while watching), otherwise the process exits with 0, provided the output itself was written; the items carry
  the names in input order. After a failed write the process reports that failure alone.\<close>

theorem batch_exit_agrees:
  assumes "group_reach (group_limit numCPU n) names B zero ctx s" and "1 \<le> numCPU" and "group_done names s"
  shows "\<exists>items. buildStatusBatch (buildReports namespace (gs_results s)) = Some items \<and> map bi_Name items = names
    \<and> (\<forall>i<length names. bi_Status (items ! i) = BatchStatusError
         \<or> (\<exists>report. B (names ! i) (Inr report) \<and> bi_Report (items ! i) = Some report))
    \<and> ExitCodeForMain (joinOutputAndExit None (aggregateBatchExitCode (buildReports namespace (gs_results s)) watchMode))
       = severity watchMode (map bi_Status items)"
proof -
  let ?rs = "buildReports namespace (gs_results s)"
  have names: "map pr_name (gs_results s) = names" using group_names [OF assms(1,2)] .
  obtain items where i: "buildStatusBatch ?rs = Some items" "map bi_Name items = map pr_name (gs_results s)"
    "map bi_Status items = map batchStatus ?rs"
    "map bi_Report items = map (\<lambda>p. if pr_err p = None then Some (pr_value p) else None) (gs_results s)"
    using build_batch_total by blast
  have "bi_Status (items ! i) = BatchStatusError \<or> (\<exists>report. B (names ! i) (Inr report) \<and> bi_Report (items ! i) = Some report)"
    if "i < length names" for i
  proof -
    have l: "i < length items" "i < length (gs_results s)"
      using that arg_cong [OF i(2), of length] arg_cong [OF names, of length] by simp_all
    have settled: "settled B zero (gs_ctx s) (names ! i) (gs_results s ! i)"
      using group_done_settled [OF assms(1-3)] that by blast
    have at: "bi_Status (items ! i) = batchStatus (?rs ! i)"
      "bi_Report (items ! i) = (if pr_err (gs_results s ! i) = None then Some (pr_value (gs_results s ! i)) else None)"
      using l arg_cong [OF i(3), of "\<lambda>xs. xs ! i"] arg_cong [OF i(4), of "\<lambda>xs. xs ! i"] by (simp_all add: buildReports_def)
    show ?thesis
    proof (cases "pr_err (gs_results s ! i)")
      case None
      with settled have "B (names ! i) (Inr (pr_value (gs_results s ! i)))" by (rule settled_value)
      with at None show ?thesis by simp
    qed (use at l in \<open>simp add: buildReports_def batchStatus_simps\<close>)
  qed
  moreover have "ExitCodeForMain e = exitCodeForError e" for e
    by (simp add: ExitCodeForMain_def exitCodeForError_def classifyError_def)
  ultimately show ?thesis using i names aggregate_code [of ?rs watchMode]
    by (auto simp: joinOutputAndExit_def simp del: buildStatusBatch.simps)
qed

text \<open>
  A comment of \<open>runStatusMultiple\<close> says that the write error of an export is joined with the exit code of the batch, so
  that it never masks the outcomes of the items; the code returns the write error alone, and a batch of warnings exits with 1.
\<close>

lemma write_error_masks:
  "ExitCodeForMain (joinOutputAndExit (Some (PlainErr text)) (Some (ExitCodeError ExitWarning e))) = 1"
  "ExitCodeForMain (joinOutputAndExit None (Some (ExitCodeError ExitWarning e))) = 2"
  by (simp_all add: joinOutputAndExit_def ExitCodeForMain_def exitCodeForError_def classifyError_def ExitError_def ExitWarning_def)

definition sample_report :: "string \<Rightarrow> go_error + nat status_report" where
  "sample_report name = (if name = ''b'' then Inl (plain_err ''gone'')
     else Inr \<lparr>rp_Health = ''LIMITED'', rp_Name = name, rp_Namespace = ''ns'', rp_body = 0\<rparr>)"

definition blank_report :: "nat status_report" where
  "blank_report = \<lparr>rp_Health = [], rp_Name = [], rp_Namespace = [], rp_body = 0\<rparr>"

theorem batch_exit_agrees_witness:
  "\<exists>items :: nat batch_item list. map bi_Name items = [''a'', ''b''] \<and> ExitCodeForMain (joinOutputAndExit None
      (aggregateBatchExitCode (buildReports ''ns'' (gs_results (pair_done sample_report blank_report ''a'' ''b''))) False))
    = severity False (map bi_Status items)"
proof -
  have "1 \<le> (4 :: int)" by simp
  note batch_exit_agrees [OF pair_reach [where f = sample_report and zero = blank_report and a = "''a''" and b = "''b''"]
      this pair_finished(1), of "''ns''" False]
  then obtain items :: "nat batch_item list" where "map bi_Name items = [''a'', ''b'']" "ExitCodeForMain (joinOutputAndExit None
      (aggregateBatchExitCode (buildReports ''ns'' (gs_results (pair_done sample_report blank_report ''a'' ''b''))) False))
    = severity False (map bi_Status items)" by (elim exE conjE) (rule that)
  then show ?thesis by (intro exI [where x = items] conjI)
qed

primrec exit_codes :: "error_tree \<Rightarrow> int list" where
  "exit_codes (PlainErr s) = []"
| "exit_codes ErrHPANotFound = []"
| "exit_codes Canceled = []"
| "exit_codes (Wrapped s e) = exit_codes e"
| "exit_codes (ExitCodeError code e) = code # exit_codes e"
| "exit_codes (Joined es) = concat (map exit_codes es)"

primrec leaves :: "error_tree \<Rightarrow> error_tree set" where
  "leaves (PlainErr s) = {PlainErr s}"
| "leaves ErrHPANotFound = {ErrHPANotFound}"
| "leaves Canceled = {Canceled}"
| "leaves (Wrapped s e) = leaves e"
| "leaves (ExitCodeError code e) = leaves e"
| "leaves (Joined es) = \<Union> (set (map leaves es))"

lemma find_exit_codes: "find_exit e = (case exit_codes e of [] \<Rightarrow> None | c # _ \<Rightarrow> Some c)"
  and find_exits_codes: "find_exits es = (case concat (map exit_codes es) of [] \<Rightarrow> None | c # _ \<Rightarrow> Some c)"
  by (induction e and es rule: find_exit_find_exits.induct) (auto split: list.split simp del: concat_eq_Nil_conv)

lemma tree_is_leaves: "tree_is ErrHPANotFound e \<longleftrightarrow> ErrHPANotFound \<in> leaves e"
  by (induction e) (auto simp: list_ex_iff)

text \<open>The search through wrapped and joined errors: the first exit code met decides, wherever it is
  nested; without one, the process exits with 3 if the not-found sentinel is anywhere in the tree and
  with 1 otherwise.\<close>

theorem exit_code_of_tree:
  "exitCodeForError (Some e) = (case exit_codes e of c # _ \<Rightarrow> c
     | [] \<Rightarrow> if ErrHPANotFound \<in> leaves e then ExitNotFound else ExitError)"
  by (simp add: exitCodeForError_def classifyError_def find_exit_codes tree_is_leaves split: list.split)

end
