(* ===== verification/Regex.thy ===== *)
theory Regex
  imports Prelude
begin

section \<open>Regular expressions\<close>

text \<open>
  What the program uses of Go's package \<open>regexp\<close>: characters and classes, concatenation, ordered
  alternatives, the greedy repetitions, groups, \<open>^\<close>, \<open>$\<close> and \<open>\b\<close>, and \<open>ReplaceAllString\<close>. A match
  prefers what a backtracking search would find first, which is the order \<open>rx\<close> lists the matches in, and
  the leftmost match wins. A position is the character before it, the rest of the text, and the texts
  of the groups closed so far, the latest first. \<open>(?i)\<close> folds the letters of the ASCII range (Go also
  folds the Kelvin sign and the long s). No pattern of the program matches the empty text
  (\<open>nullable\<close>), so \<open>ReplaceAllString\<close> is written without Go's rule for empty matches.
\<close>

datatype regex =
    RChar "char \<Rightarrow> bool"
  | REps
  | RSeq regex regex
  | RAlt regex regex
  | RStar regex
  | RGroup nat regex
  | RBound
  | RBegin
  | REnd

type_synonym rx_caps = "(nat \<times> string) list"
type_synonym rx_pos = "char option \<times> string \<times> rx_caps"

definition word_char :: "char \<Rightarrow> bool" where
  "word_char c \<longleftrightarrow> is_digit c \<or> c = CHR ''_'' \<or> (97 \<le> (of_char (lower_char c) :: nat) \<and> (of_char (lower_char c) :: nat) \<le> 122)"

definition at_bound :: "char option \<Rightarrow> string \<Rightarrow> bool" where
  "at_bound p s \<longleftrightarrow> (case p of None \<Rightarrow> False | Some c \<Rightarrow> word_char c) \<noteq> (case s of [] \<Rightarrow> False | c # _ \<Rightarrow> word_char c)"

fun rx_repeat :: "(rx_pos \<Rightarrow> rx_pos list) \<Rightarrow> nat \<Rightarrow> rx_pos \<Rightarrow> rx_pos list" where
  "rx_repeat f 0 pos = [pos]"
| "rx_repeat f (Suc n) pos =
     concat (map (rx_repeat f n) (filter (\<lambda>q. length (fst (snd q)) < length (fst (snd pos))) (f pos))) @ [pos]"

primrec rx :: "regex \<Rightarrow> rx_pos \<Rightarrow> rx_pos list" where
  "rx (RChar P) = (\<lambda>(p, s, g). case s of [] \<Rightarrow> [] | c # cs \<Rightarrow> if P c then [(Some c, cs, g)] else [])"
| "rx REps = (\<lambda>pos. [pos])"
| "rx (RSeq a b) = (\<lambda>pos. concat (map (rx b) (rx a pos)))"
| "rx (RAlt a b) = (\<lambda>pos. rx a pos @ rx b pos)"
| "rx (RStar r) = (\<lambda>pos. rx_repeat (rx r) (length (fst (snd pos))) pos)"
| "rx (RGroup n r) = (\<lambda>(p, s, g). map (\<lambda>(p', s', g'). (p', s', (n, take (length s - length s') s) # g')) (rx r (p, s, g)))"
| "rx RBound = (\<lambda>(p, s, g). if at_bound p s then [(p, s, g)] else [])"
| "rx RBegin = (\<lambda>(p, s, g). if p = None then [(p, s, g)] else [])"
| "rx REnd = (\<lambda>(p, s, g). if s = [] then [(p, s, g)] else [])"

abbreviation RPlus :: "regex \<Rightarrow> regex" where "RPlus r \<equiv> RSeq r (RStar r)"
abbreviation ROpt :: "regex \<Rightarrow> regex" where "ROpt r \<equiv> RAlt r REps"

definition rx_group :: "nat \<Rightarrow> rx_caps \<Rightarrow> string" where
  "rx_group n g = (case map_of g n of None \<Rightarrow> [] | Some s \<Rightarrow> s)"

function replace_from :: "regex \<Rightarrow> (rx_caps \<Rightarrow> string) \<Rightarrow> char option \<Rightarrow> string \<Rightarrow> string" where
  "replace_from r template p s = (case rx r (p, s, []) of
       (p', s', g) # _ \<Rightarrow>
         if length s' < length s then template g @ replace_from r template p' s'
         else (case s of [] \<Rightarrow> [] | c # cs \<Rightarrow> c # replace_from r template (Some c) cs)
     | [] \<Rightarrow> (case s of [] \<Rightarrow> [] | c # cs \<Rightarrow> c # replace_from r template (Some c) cs))"
  by pat_completeness auto
termination by (relation "measure (\<lambda>(r, t, p, s). length s)") auto

declare replace_from.simps [simp del]

definition ReplaceAllString :: "regex \<Rightarrow> (rx_caps \<Rightarrow> string) \<Rightarrow> string \<Rightarrow> string" where
  "ReplaceAllString r template s = replace_from r template None s"

definition MatchString :: "regex \<Rightarrow> string \<Rightarrow> bool" where
  "MatchString r s \<longleftrightarrow> (\<exists>i\<in>set [0..<Suc (length s)]. rx r (if i = 0 then None else Some (s ! (i - 1)), drop i s, []) \<noteq> [])"

subsection \<open>Building patterns\<close>

definition rx_seq :: "regex list \<Rightarrow> regex" where "rx_seq rs = foldr RSeq rs REps"

fun rx_alt :: "regex list \<Rightarrow> regex" where
  "rx_alt [] = RChar (\<lambda>_. False)"
| "rx_alt [r] = r"
| "rx_alt (r # rs) = RAlt r (rx_alt rs)"

text \<open>A text under \<open>(?i)\<close>.\<close>

definition rx_text :: "string \<Rightarrow> regex" where
  "rx_text s = rx_seq (map (\<lambda>a. RChar (\<lambda>c. lower_char c = lower_char a)) s)"

definition rx_space :: "char \<Rightarrow> bool" where
  "rx_space c \<longleftrightarrow> c = CHR 0x09 \<or> c = CHR 0x0A \<or> c = CHR 0x0C \<or> c = CHR 0x0D \<or> c = CHR '' ''"

definition rx_none_of :: "string \<Rightarrow> regex" where
  "rx_none_of cs = RChar (\<lambda>c. c \<notin> set cs)"

definition rx_alnum :: "char \<Rightarrow> bool" where
  "rx_alnum c \<longleftrightarrow> is_digit c \<or> (97 \<le> (of_char (lower_char c) :: nat) \<and> (of_char (lower_char c) :: nat) \<le> 122)"

subsection \<open>Evaluation\<close>

text \<open>The character tests by the bits of the character.\<close>

lemma lower_char_bits [code]:
  "lower_char (Char b0 b1 b2 b3 b4 b5 b6 b7) =
     (if \<not> b7 \<and> b6 \<and> \<not> b5 \<and> (b0 \<or> b1 \<or> b2 \<or> b3 \<or> b4) \<and> \<not> (b4 \<and> b3 \<and> (b2 \<or> b1 \<and> b0))
      then Char b0 b1 b2 b3 b4 True b6 b7 else Char b0 b1 b2 b3 b4 b5 b6 b7)"
  by (cases b0; cases b1; cases b2; cases b3; cases b4; cases b5; cases b6; cases b7) (simp_all add: lower_char_def char_of_def bit_iff_odd)

lemma is_digit_bits [code]:
  "is_digit (Char b0 b1 b2 b3 b4 b5 b6 b7) \<longleftrightarrow> \<not> b7 \<and> \<not> b6 \<and> b5 \<and> b4 \<and> (\<not> b3 \<or> \<not> b2 \<and> \<not> b1)"
  by (cases b0; cases b1; cases b2; cases b3; cases b4; cases b5; cases b6; cases b7) (simp_all add: is_digit_def)

lemma rx_alnum_bits [code]:
  "rx_alnum (Char b0 b1 b2 b3 b4 b5 b6 b7) \<longleftrightarrow> is_digit (Char b0 b1 b2 b3 b4 b5 b6 b7)
     \<or> \<not> b7 \<and> b6 \<and> (b0 \<or> b1 \<or> b2 \<or> b3 \<or> b4) \<and> \<not> (b4 \<and> b3 \<and> (b2 \<or> b1 \<and> b0))"
  by (cases b0; cases b1; cases b2; cases b3; cases b4; cases b5; cases b6; cases b7) (simp_all add: rx_alnum_def is_digit_def lower_char_def)

subsection \<open>Matches make progress\<close>

primrec nullable :: "regex \<Rightarrow> bool" where
  "nullable (RChar P) = False"
| "nullable REps = True"
| "nullable (RSeq a b) = (nullable a \<and> nullable b)"
| "nullable (RAlt a b) = (nullable a \<or> nullable b)"
| "nullable (RStar r) = True"
| "nullable (RGroup n r) = nullable r"
| "nullable RBound = True"
| "nullable RBegin = True"
| "nullable REnd = True"

text \<open>A match consumes a part of the text; its end is a position of the text.\<close>

definition reaches :: "rx_pos \<Rightarrow> rx_pos \<Rightarrow> bool" where
  "reaches a b \<longleftrightarrow> (\<exists>u. fst (snd a) = u @ fst (snd b) \<and> fst b = (if u = [] then fst a else Some (last u)))"

lemma reaches_refl [simp]: "reaches a a"
  by (simp add: reaches_def)

lemma reaches_trans: "reaches a b \<Longrightarrow> reaches b c \<Longrightarrow> reaches a c"
  unfolding reaches_def
proof (elim exE conjE)
  fix u v assume "fst (snd a) = u @ fst (snd b)" "fst b = (if u = [] then fst a else Some (last u))"
    "fst (snd b) = v @ fst (snd c)" "fst c = (if v = [] then fst b else Some (last v))"
  then show "\<exists>w. fst (snd a) = w @ fst (snd c) \<and> fst c = (if w = [] then fst a else Some (last w))"
    by (intro exI [where x = "u @ v"]) auto
qed

lemma rx_repeat_reaches:
  assumes "\<And>a b. b \<in> set (f a) \<Longrightarrow> reaches a b"
  shows "b \<in> set (rx_repeat f n a) \<Longrightarrow> reaches a b"
  using assms by (induction f n a rule: rx_repeat.induct) (auto, meson reaches_trans)

lemma rx_reaches: "b \<in> set (rx r a) \<Longrightarrow> reaches a b"
proof (induction r arbitrary: a b)
  case (RStar r)
  then show ?case using rx_repeat_reaches [of "rx r"] by auto
next
  case (RSeq r1 r2)
  then obtain c where "c \<in> set (rx r1 a)" "b \<in> set (rx r2 c)" by auto
  with RSeq.IH show ?case by (blast intro: reaches_trans)
next
  case (RGroup n r)
  then obtain p s g where a: "a = (p, s, g)" by (cases a)
  with RGroup.prems obtain q where "q \<in> set (rx r (p, s, g))" "fst b = fst q" "fst (snd b) = fst (snd q)"
    by (auto simp: case_prod_beta)
  with RGroup.IH [of q "(p, s, g)"] a show ?case by (simp add: reaches_def)
next
  case (RChar P)
  obtain p s g where a: "a = (p, s, g)" by (cases a)
  with RChar obtain c cs where "s = c # cs" "b = (Some c, cs, g)" by (cases s) (auto split: if_splits)
  with a show ?case unfolding reaches_def by (intro exI [where x = "[c]"]) simp
next
  case (RAlt r1 r2)
  then have "b \<in> set (rx r1 a) \<or> b \<in> set (rx r2 a)" by simp
  with RAlt.IH show ?case by blast
qed (auto split: if_splits)

lemma rx_shrinks: "\<not> nullable r \<Longrightarrow> b \<in> set (rx r a) \<Longrightarrow> length (fst (snd b)) < length (fst (snd a))"
proof (induction r arbitrary: a b)
  case (RSeq r1 r2)
  then obtain c where c: "c \<in> set (rx r1 a)" "b \<in> set (rx r2 c)" by auto
  have "length (fst (snd b)) \<le> length (fst (snd c))" "length (fst (snd c)) \<le> length (fst (snd a))"
    using rx_reaches [OF c(1)] rx_reaches [OF c(2)] by (auto simp: reaches_def)
  then show ?case using RSeq.IH(1) [OF _ c(1)] RSeq.IH(2) [OF _ c(2)] RSeq.prems(1) by fastforce
next
  case (RAlt r1 r2)
  then have "b \<in> set (rx r1 a) \<or> b \<in> set (rx r2 a)" "\<not> nullable r1" "\<not> nullable r2" by simp_all
  with RAlt.IH show ?case by blast
next
  case (RGroup n r)
  then obtain p s g where a: "a = (p, s, g)" by (cases a)
  with RGroup.prems obtain q where "q \<in> set (rx r (p, s, g))" "fst (snd b) = fst (snd q)"
    by (auto simp: case_prod_beta)
  with RGroup.IH [of q "(p, s, g)"] RGroup.prems(1) a show ?case by simp
next
  case (RChar P)
  then show ?case by (auto split: list.splits if_splits)
qed auto

text \<open>One character against a class, and the longest run of a class.\<close>

lemma rx_repeat_stop: "f pos = [] \<Longrightarrow> rx_repeat f n pos = [pos]"
  by (cases n) simp_all

lemma rx_run_first:
  assumes "\<forall>c\<in>set v. P c" and "rest = [] \<or> \<not> P (hd rest)" and "length v \<le> n"
  shows "\<exists>qs. rx_repeat (rx (RChar P)) n (p, v @ rest, g) = ((if v = [] then p else Some (last v)), rest, g) # qs"
  using assms
proof (induction v arbitrary: p n)
  case Nil
  then have "rx (RChar P) (p, rest, g) = []" by (cases rest) simp_all
  then show ?case by (simp add: rx_repeat_stop)
next
  case (Cons c v)
  then obtain m where n: "n = Suc m" by (cases n) auto
  with Cons.IH [of m "Some c"] Cons.prems obtain qs where
    "rx_repeat (rx (RChar P)) m (Some c, v @ rest, g) = ((if v = [] then Some c else Some (last v)), rest, g) # qs" by auto
  with n Cons.prems(1) show ?case by auto
qed

end
