(* ===== verification/Redact.thy ===== *)
theory Redact
  imports Regex
begin

section \<open>Redaction of texts\<close>

text \<open>
  \<open>cmd/bundle/redact.go\<close>, the passes over plain text: credentials by pattern, selectors, IP addresses,
  node names, UIDs and cloud host names, in the order of \<open>RedactBytes\<close>. \<open>net.ParseIP\<close> is written out
  as \<open>parse_ip\<close> (the address grammar of package \<open>netip\<close>, without zones).
\<close>

subsection \<open>Credential patterns\<close>

definition rx_dash :: regex where "rx_dash = RChar (\<lambda>c. c = CHR ''-'' \<or> c = CHR ''_'')"

definition sensitiveNameCorePattern :: regex where
  "sensitiveNameCorePattern = rx_alt [
     rx_seq [rx_text ''access'', ROpt rx_dash, rx_text ''token''],
     rx_seq [rx_text ''auth'', ROpt rx_dash, rx_text ''token''],
     rx_text ''token'', rx_text ''password'', rx_text ''passwd'',
     rx_seq [rx_text ''credential'', ROpt (rx_text ''s'')],
     rx_seq [rx_text ''api'', ROpt rx_dash, rx_text ''key''],
     rx_text ''apikey'',
     rx_seq [rx_text ''client'', ROpt rx_dash, rx_text ''secret''],
     rx_text ''secret'',
     rx_seq [rx_text ''access'', ROpt rx_dash, rx_text ''key'', ROpt (rx_seq [ROpt rx_dash, rx_text ''id''])],
     rx_seq [rx_text ''secret'', ROpt rx_dash, rx_text ''access'', ROpt rx_dash, rx_text ''key''],
     rx_text ''authorization'',
     rx_seq [rx_text ''proxy'', ROpt rx_dash, rx_text ''authorization''],
     rx_text ''cookie'']"

definition sensitiveNamePattern :: regex where
  "sensitiveNamePattern = RSeq (RStar (RSeq (RPlus (RChar rx_alnum)) rx_dash)) sensitiveNameCorePattern"

definition dquote :: char where "dquote = CHR 0x22"
definition squote :: char where "squote = CHR 0x27"
definition backslash :: char where "backslash = CHR 0x5C"

abbreviation rx_char :: "char \<Rightarrow> regex" where "rx_char c \<equiv> RChar (\<lambda>x. x = c)"

text \<open>A quoted value, or a run of the characters \<open>P\<close>.\<close>

definition rx_value :: "(char \<Rightarrow> bool) \<Rightarrow> regex" where
  "rx_value P = rx_alt [
     rx_seq [rx_char dquote, RStar (RChar (\<lambda>c. c \<noteq> dquote)), rx_char dquote],
     rx_seq [rx_char squote, RStar (RChar (\<lambda>c. c \<noteq> squote)), rx_char squote],
     RPlus (RChar P)]"

definition redacted :: string where "redacted = ''[REDACTED]''"

definition flag_value_char :: "char \<Rightarrow> bool" where
  "flag_value_char c \<longleftrightarrow> \<not> rx_space c \<and> c \<notin> {dquote, squote, CHR '','', CHR '';''}"

definition flag_pattern :: regex where
  "flag_pattern = rx_seq [RGroup 1 (RSeq (rx_text ''--'') sensitiveNamePattern),
     RGroup 2 (RAlt (rx_char CHR ''='') (RPlus (RChar rx_space))), rx_value flag_value_char]"

definition assign_pattern :: regex where
  "assign_pattern = rx_seq [RGroup 1 (rx_seq [RBound, sensitiveNamePattern, RStar (RChar rx_space), rx_char CHR ''='', RStar (RChar rx_space)]),
     rx_value (\<lambda>c. \<not> rx_space c \<and> c \<notin> {CHR ''&'', CHR ''#'', CHR '','', CHR '';''})]"

definition inline_pattern :: regex where
  "inline_pattern = rx_seq [RGroup 1 (rx_seq [ROpt (RChar (\<lambda>c. c = dquote \<or> c = squote)), sensitiveNamePattern,
       ROpt (RChar (\<lambda>c. c = dquote \<or> c = squote)), RStar (RChar rx_space), rx_char CHR '':'', RStar (RChar rx_space)]),
     rx_value (\<lambda>c. \<not> rx_space c \<and> c \<notin> {CHR '','', CHR ''}'', CHR '']''})]"

definition header_pattern :: "string list \<Rightarrow> regex" where
  "header_pattern names = rx_seq [RGroup 1 (rx_seq [RBound, rx_alt (map rx_text names), RStar (RChar rx_space),
       RChar (\<lambda>c. c = CHR '':'' \<or> c = CHR ''=''), RStar (RChar rx_space)]),
     rx_value (\<lambda>c. c \<notin> {dquote, squote, CHR 0x0D, CHR 0x0A})]"

definition userinfo_pattern :: regex where
  "userinfo_pattern = rx_seq [
     RGroup 1 (rx_seq [RBound, RChar (\<lambda>c. rx_alnum c \<and> \<not> is_digit c),
       RStar (RChar (\<lambda>c. rx_alnum c \<or> c \<in> {CHR ''+'', CHR ''.'', CHR ''-''})), rx_text ''://'',
       RPlus (RChar (\<lambda>c. \<not> rx_space c \<and> c \<notin> {CHR '':'', CHR ''/'', CHR ''@''})), rx_char CHR '':'']),
     RGroup 2 (RPlus (RChar (\<lambda>c. \<not> rx_space c \<and> c \<notin> {CHR ''@'', CHR ''/''}))),
     RGroup 3 (rx_char CHR ''@'')]"

definition selectorTextPattern :: regex where
  "selectorTextPattern = rx_seq [
     RGroup 1 (rx_seq [rx_text ''selector='', ROpt (rx_char backslash), rx_char dquote]),
     RStar (RChar (\<lambda>c. c \<noteq> dquote \<and> c \<noteq> backslash)),
     RGroup 2 (RSeq (ROpt (rx_char backslash)) (rx_char dquote))]"

definition selectorJSONPattern :: regex where
  "selectorJSONPattern = rx_seq [
     RGroup 1 (rx_seq [rx_char dquote, rx_text ''selector'', rx_char dquote, RStar (RChar rx_space), rx_char CHR '':'',
       RStar (RChar rx_space), rx_char dquote]),
     RStar (RChar (\<lambda>c. c \<noteq> dquote \<and> c \<noteq> backslash)),
     RGroup 2 (rx_char dquote)]"

definition keep_one :: "rx_caps \<Rightarrow> string" where "keep_one g = rx_group 1 g @ redacted"
definition keep_around :: "nat \<Rightarrow> rx_caps \<Rightarrow> string" where "keep_around n g = rx_group 1 g @ redacted @ rx_group n g"

definition sensitiveStringPatterns :: "(regex \<times> (rx_caps \<Rightarrow> string)) list" where
  "sensitiveStringPatterns = [
     (flag_pattern, \<lambda>g. rx_group 1 g @ rx_group 2 g @ redacted),
     (assign_pattern, keep_one),
     (inline_pattern, keep_one),
     (header_pattern [''authorization'', ''proxy-authorization''], keep_one),
     (header_pattern [''cookie'', ''set-cookie''], keep_one),
     (userinfo_pattern, keep_around 3)]"

definition redactSensitiveString :: "string \<Rightarrow> string" where
  "redactSensitiveString s = fold (\<lambda>(re, template) v. ReplaceAllString re template v) sensitiveStringPatterns s"

definition trim_set :: "char set \<Rightarrow> string \<Rightarrow> string" where
  "trim_set cs s = rev (dropWhile (\<lambda>c. c \<in> cs) (rev (dropWhile (\<lambda>c. c \<in> cs) s)))"

definition isStandaloneSensitiveFlag :: "string \<Rightarrow> bool" where
  "isStandaloneSensitiveFlag text =
     (let v = trim_set {dquote, squote} (trim_space text)
      in if \<not> has_prefix v ''--'' \<or> CHR ''='' \<in> set v then False
         else MatchString (rx_seq [RBegin, sensitiveNamePattern, REnd])
           (map (\<lambda>c. if c = CHR ''_'' then CHR ''-'' else c) (to_lower (trim_prefix v ''--''))))"

subsection \<open>IP addresses\<close>

text \<open>\<open>parseIPv4Fields\<close>: \<open>prev\<close> is the character before, \<open>n\<close> the digits of the field, \<open>k\<close> the fields done.\<close>

fun ipv4_fields :: "char option \<Rightarrow> int \<Rightarrow> nat \<Rightarrow> nat \<Rightarrow> string \<Rightarrow> bool" where
  "ipv4_fields prev val n k [] = (k = 3)"
| "ipv4_fields prev val n k (c # s) =
     (if is_digit c
      then if n = 1 \<and> val = 0 then False
           else let v = val * 10 + digit_val c in if v > 255 then False else ipv4_fields (Some c) v (Suc n) k s
      else if c = CHR ''.''
      then if prev = None \<or> s = [] \<or> prev = Some CHR ''.'' \<or> k = 3 then False else ipv4_fields (Some c) 0 0 (Suc k) s
      else False)"

definition parse_ipv4 :: "string \<Rightarrow> bool" where
  "parse_ipv4 s = ipv4_fields None 0 0 0 s"

definition hex_char :: "char \<Rightarrow> bool" where
  "hex_char c \<longleftrightarrow> is_digit c \<or> (97 \<le> (of_char (lower_char c) :: nat) \<and> (of_char (lower_char c) :: nat) \<le> 102)"

text \<open>The groups of \<open>parseIPv6\<close>: \<open>i\<close> bytes are done, \<open>e\<close> says whether an ellipsis was seen.\<close>

function ipv6_groups :: "nat \<Rightarrow> bool \<Rightarrow> string \<Rightarrow> bool" where
  "ipv6_groups i e s =
     (if i \<ge> 16 then s = [] \<and> \<not> e
      else let d = takeWhile hex_char s; rest = dropWhile hex_char s
      in if d = [] \<or> length d > 4 then False
         else case rest of
           [] \<Rightarrow> i + 2 = 16 \<longleftrightarrow> \<not> e
         | c # more \<Rightarrow>
             if c = CHR ''.'' then (if (\<not> e \<and> i \<noteq> 12) \<or> i + 4 > 16 then False
               else parse_ipv4 s \<and> (i + 4 = 16 \<longleftrightarrow> \<not> e))
             else if c \<noteq> CHR '':'' then False
             else (case more of
               [] \<Rightarrow> False
             | x # xs \<Rightarrow> if x \<noteq> CHR '':'' then ipv6_groups (i + 2) e more
                 else if e then False
                 else if xs = [] then i + 2 < 16
                 else ipv6_groups (i + 2) True xs))"
  by pat_completeness auto
termination by (relation "measure (\<lambda>(i, e, s). 16 - i)") auto

declare ipv6_groups.simps [simp del]

definition parse_ipv6 :: "string \<Rightarrow> bool" where
  "parse_ipv6 s = (if CHR ''%'' \<in> set s then False
     else if has_prefix s ''::'' then (if drop 2 s = [] then True else ipv6_groups 0 True (drop 2 s))
     else ipv6_groups 0 False s)"

definition parse_ip :: "string \<Rightarrow> bool" where
  "parse_ip s = (case dropWhile (\<lambda>c. c \<notin> {CHR ''.'', CHR '':'', CHR ''%''}) s of
     [] \<Rightarrow> False
   | c # _ \<Rightarrow> if c = CHR ''.'' then parse_ipv4 s else if c = CHR '':'' then parse_ipv6 s else False)"

definition isIPTokenChar :: "char \<Rightarrow> bool" where
  "isIPTokenChar c \<longleftrightarrow> hex_char c \<or> c = CHR '':'' \<or> c = CHR ''.''"

definition isDecimalPort :: "string \<Rightarrow> bool" where
  "isDecimalPort s \<longleftrightarrow> s \<noteq> [] \<and> length s \<le> 5 \<and> list_all is_digit s"

text \<open>The text around the last colon, if there is one.\<close>

definition last_colon :: "string \<Rightarrow> (string \<times> string) option" where
  "last_colon s = (if CHR '':'' \<notin> set s then None
     else let tail = rev (takeWhile (\<lambda>c. c \<noteq> CHR '':'') (rev s)) in Some (take (length s - Suc (length tail)) s, tail))"

definition splitIPTokenHostPort :: "string \<Rightarrow> (string \<times> string) option" where
  "splitIPTokenHostPort token = (case last_colon token of
     None \<Rightarrow> None
   | Some (host, port) \<Rightarrow>
       if host = [] \<or> port = [] then None
       else if \<not> parse_ip host \<or> \<not> isDecimalPort port then None
       else Some (host, CHR '':'' # port))"

definition redacted_ip :: string where "redacted_ip = ''[REDACTED-IP]''"

definition redactAddressToken :: "string \<Rightarrow> string" where
  "redactAddressToken token = (if parse_ip token then redacted_ip
     else case splitIPTokenHostPort token of Some (_, port) \<Rightarrow> redacted_ip @ port | None \<Rightarrow> token)"

text \<open>The text in brackets and what follows it, when the text is an address.\<close>

definition bracketed :: "string \<Rightarrow> string option" where
  "bracketed s = (let inner = takeWhile (\<lambda>c. c \<noteq> CHR '']'') s
     in if CHR '']'' \<in> set s \<and> length inner \<le> 45 \<and> parse_ip inner then Some (drop (Suc (length inner)) s) else None)"

function redactIPAddresses :: "string \<Rightarrow> string" where
  "redactIPAddresses [] = []"
| "redactIPAddresses (c # s) = (case (if c = CHR ''['' then bracketed s else None) of
     Some rest \<Rightarrow> redacted_ip @ redactIPAddresses rest
   | None \<Rightarrow>
       if \<not> isIPTokenChar c then c # redactIPAddresses s
       else redactAddressToken (takeWhile isIPTokenChar (c # s)) @ redactIPAddresses (dropWhile isIPTokenChar (c # s)))"
  by pat_completeness auto
termination
  by (relation "measure length")
    (auto simp: bracketed_def Let_def less_Suc_eq_le length_dropWhile_le split: if_splits)

declare redactIPAddresses.simps(2) [simp del]

subsection \<open>Node names, UIDs and host names\<close>

fun str_index :: "string \<Rightarrow> string \<Rightarrow> nat option" where
  "str_index p [] = (if p = [] then Some 0 else None)"
| "str_index p (c # s) = (if has_prefix (c # s) p then Some 0 else map_option Suc (str_index p s))"

lemma has_prefix_length: "has_prefix s p \<Longrightarrow> length p \<le> length s"
proof -
  assume p: "has_prefix s p"
  have "length (take (length p) s) \<le> length s" by simp
  then show ?thesis by (simp only: p [unfolded has_prefix_def])
qed

lemma str_index_bound: "str_index p s = Some i \<Longrightarrow> i + length p \<le> length s"
proof (induction s arbitrary: i)
  case (Cons c s)
  then show ?case using has_prefix_length [of "c # s" p] by (cases "has_prefix (c # s) p") auto
qed (simp split: if_splits)

lemma shorter:
  assumes "str_index k r = Some i" "k \<noteq> []"
  shows "length r - (i + length k) < length r" and "length (dropWhile P (drop (i + length k) r)) < length r"
proof -
  have "0 < length k" using assms(2) by simp
  with str_index_bound [OF assms(1)] show "length r - (i + length k) < length r" by linarith
  with length_dropWhile_le [of P "drop (i + length k) r"]
  show "length (dropWhile P (drop (i + length k) r)) < length r" by simp
qed

definition value_end :: "char \<Rightarrow> bool" where
  "value_end c \<longleftrightarrow> c \<in> {CHR '' '', CHR 0x0A, CHR 0x0D, CHR 0x09, CHR '','', CHR ''}'', CHR '']''}"

definition redacted_node :: string where "redacted_node = ''[REDACTED-NODE]''"

text \<open>No keyword of the program is empty; the guard gives the loop its measure.\<close>

function replaceAfterKeyword :: "string \<Rightarrow> string \<Rightarrow> string" where
  "replaceAfterKeyword keyword remaining = (case (if keyword = [] then None else str_index keyword remaining) of
     None \<Rightarrow> remaining
   | Some idx \<Rightarrow>
       (let start = idx + length keyword; rest = drop start remaining;
            v = takeWhile (\<lambda>c. \<not> value_end c) rest; after = dropWhile (\<lambda>c. \<not> value_end c) rest
        in take start remaining @
           (if v = [] then replaceAfterKeyword keyword rest
            else if has_prefix rest ''[REDACTED'' then v @ replaceAfterKeyword keyword after
            else redacted_node @ replaceAfterKeyword keyword after)))"
  by pat_completeness auto
termination
by (relation "measure (\<lambda>(k, r). length r)") (auto split: if_splits intro: shorter)

declare replaceAfterKeyword.simps [simp del]

definition node_keywords :: "string list" where
  "node_keywords = [''node: '', ''Node: '', ''node='', ''NodeName: '', ''nodeName: '', ''nodename: '', ''nodeName='']"

definition redactNodeNames :: "string \<Rightarrow> string" where
  "redactNodeNames s = fold replaceAfterKeyword node_keywords s"

definition isUUID :: "string \<Rightarrow> bool" where
  "isUUID s \<longleftrightarrow> length s = 36 \<and> (\<forall>i\<in>set [0..<36].
     if i = 8 \<or> i = 13 \<or> i = 18 \<or> i = 23 then s ! i = CHR ''-'' else hex_char (s ! i))"

definition redacted_uid :: string where "redacted_uid = ''[REDACTED-UID]''"

function redactUIDs :: "string \<Rightarrow> string" where
  "redactUIDs s = (if s = [] then []
     else if 36 \<le> length s \<and> isUUID (take 36 s) then redacted_uid @ redactUIDs (drop 36 s)
     else hd s # redactUIDs (tl s))"
  by pat_completeness auto
termination by (relation "measure length") auto

declare redactUIDs.simps [simp del]

definition host_end :: "char \<Rightarrow> bool" where
  "host_end c \<longleftrightarrow> c \<in> {CHR '' '', CHR 0x0A, CHR 0x0D, CHR 0x09, CHR '','', dquote, squote}"

definition host_prefixes :: "string list" where
  "host_prefixes = [''ip-'', ''ec2-'', ''gke-'', ''aks-'', ''eks-'']"

definition redacted_host :: string where "redacted_host = ''[REDACTED-HOSTNAME]''"

function redactHostnames :: "string \<Rightarrow> string" where
  "redactHostnames s = (if s = [] then []
     else if list_ex (has_prefix s) host_prefixes
     then redacted_host @ redactHostnames (dropWhile (\<lambda>c. \<not> host_end c) s)
     else hd s # redactHostnames (tl s))"
  by pat_completeness auto
termination
proof (relation "measure length")
  fix s :: string assume s: "s \<noteq> []" and p: "list_ex (has_prefix s) host_prefixes"
  obtain c cs where c: "s = c # cs" using s by (cases s) auto
  have "c \<in> {CHR ''i'', CHR ''e'', CHR ''g'', CHR ''a''}"
    using p unfolding c host_prefixes_def by (auto simp: has_prefix_def)
  then have "\<not> host_end c" by (auto simp: host_end_def dquote_def squote_def)
  then show "(dropWhile (\<lambda>c. \<not> host_end c) s, s) \<in> measure length"
    using c length_dropWhile_le [of "\<lambda>c. \<not> host_end c" cs] by simp
qed auto

declare redactHostnames.simps [simp del]

definition RedactString :: "string \<Rightarrow> string" where
  "RedactString data = (if data = [] then data
     else let s = redactSensitiveString data;
              s = ReplaceAllString selectorTextPattern (keep_around 2) s;
              s = ReplaceAllString selectorJSONPattern (keep_around 2) s
          in redactHostnames (redactUIDs (redactNodeNames (redactIPAddresses s))))"

subsection \<open>UIDs\<close>

lemma isUUID_chars:
  assumes "isUUID v"
  shows "c \<in> set v \<Longrightarrow> hex_char c \<or> c = CHR ''-''"
proof -
  assume "c \<in> set v"
  then obtain i where "i < length v" "c = v ! i" by (auto simp: in_set_conv_nth)
  moreover then have "i \<in> set [0..<36]" using assms by (simp add: isUUID_def)
  then have "if i = 8 \<or> i = 13 \<or> i = 18 \<or> i = 23 then v ! i = CHR ''-'' else hex_char (v ! i)"
    using assms unfolding isUUID_def by blast
  ultimately show ?thesis by (auto split: if_splits)
qed

lemma isUUID_no_bracket: "isUUID v \<Longrightarrow> CHR ''['' \<notin> set v" "isUUID v \<Longrightarrow> CHR '']'' \<notin> set v"
  using isUUID_chars [of v "CHR ''[''"] isUUID_chars [of v "CHR '']''"]
  by (auto simp: hex_char_def is_digit_def lower_char_def)

lemma redactUIDs_Nil [simp]: "redactUIDs [] = []"
  by (simp add: redactUIDs.simps)

lemma redactUIDs_mark: "36 \<le> length s \<Longrightarrow> isUUID (take 36 s) \<Longrightarrow> redactUIDs s = redacted_uid @ redactUIDs (drop 36 s)"
  using redactUIDs.simps [of s] by auto

lemma redactUIDs_copy:
  "\<not> (36 \<le> length (c # s) \<and> isUUID (take 36 (c # s))) \<Longrightarrow> redactUIDs (c # s) = c # redactUIDs s"
  using redactUIDs.simps [of "c # s"] by (simp only: if_False) simp

text \<open>What the output copies up to the first bracket is a prefix of the input.\<close>

lemma redactUIDs_prefix: "redactUIDs s = u @ w \<Longrightarrow> CHR ''['' \<notin> set u \<Longrightarrow> \<exists>x. s = u @ x"
proof (induction s arbitrary: u w rule: redactUIDs.induct)
  case (1 s)
  show ?case
  proof (cases "s = [] \<or> u = []")
    case False
    then obtain c s' d u' where c: "s = c # s'" "u = d # u'" by (cases s; cases u) auto
    have copy: "\<not> (36 \<le> length s \<and> isUUID (take 36 s))"
    proof (rule notI, elim conjE)
      assume "36 \<le> length s" "isUUID (take 36 s)"
      from 1(3) [unfolded redactUIDs_mark [OF this]] show False using 1(4) c by (auto simp: redacted_uid_def)
    qed
    then have "redactUIDs s = c # redactUIDs s'" using c redactUIDs_copy [of c s'] by simp
    then have "d = c" "redactUIDs s' = u' @ w" using 1(3) c by auto
    moreover have "CHR ''['' \<notin> set u'" using 1(4) c by simp
    ultimately show ?thesis using 1(2) [OF _ copy, of u' w] c by auto
  qed (use 1(3) in auto)
qed

definition uuid_free :: "string \<Rightarrow> bool" where
  "uuid_free t \<longleftrightarrow> (\<forall>u v w. t = u @ v @ w \<longrightarrow> \<not> isUUID v)"

lemma uuid_free_Cons: "uuid_free t \<Longrightarrow> (\<And>v w. c # t = v @ w \<Longrightarrow> \<not> isUUID v) \<Longrightarrow> uuid_free (c # t)"
  unfolding uuid_free_def by (auto simp: Cons_eq_append_conv)

lemma append_split:
  assumes "x @ t = u @ y"
  obtains z where "u = x @ z" "t = z @ y" | z where "x = u @ z" "z \<noteq> []" "z @ t = y"
proof -
  from assms obtain us where "x = u @ us \<and> us @ t = y \<or> x @ us = u \<and> t = us @ y"
    unfolding append_eq_append_conv2 by blast
  then show thesis using that by (cases "us = []") auto
qed

lemma uuid_free_mark:
  assumes "uuid_free t" shows "uuid_free (redacted_uid @ t)"
  unfolding uuid_free_def
proof (intro allI impI notI)
  fix u v w assume e: "redacted_uid @ t = u @ v @ w" and v: "isUUID v"
  have l: "length v = 36" "CHR '']'' \<notin> set v" using v isUUID_no_bracket by (auto simp: isUUID_def)
  from e show False
  proof (cases rule: append_split)
    case (1 z)
    then show ?thesis using assms v by (auto simp: uuid_free_def)
  next
    case (2 z)
    have z: "last z = CHR '']''" "length z \<le> 14"
      using arg_cong [OF 2(1), of last] arg_cong [OF 2(1), of length] 2(2) by (simp_all add: redacted_uid_def)
    from 2(3) show ?thesis
    proof (cases rule: append_split)
      case (1 y)
      then show ?thesis using l z(1) last_in_set [OF 2(2)] by auto
    next
      case (2 y)
      then show ?thesis using l(1) z(2) by auto
    qed
  qed
qed

text \<open>C33. After the UID pass no 36 consecutive characters of the text form a UID, wherever the UIDs stood
  and whatever surrounds them: replacing one cannot bring another into being.\<close>

theorem no_uid_survives: "redactUIDs s = u @ v @ w \<Longrightarrow> \<not> isUUID v"
proof -
  have "uuid_free (redactUIDs s)"
  proof (induction s rule: redactUIDs.induct)
    case (1 s)
    show ?case
    proof (cases "s = []")
      case True
      then show ?thesis by (auto simp: uuid_free_def isUUID_def)
    next
      case s: False
      show ?thesis
      proof (cases "36 \<le> length s \<and> isUUID (take 36 s)")
        case True
        then show ?thesis using 1(1) s uuid_free_mark by (simp add: redactUIDs_mark)
      next
        case False
        then have r: "redactUIDs s = hd s # redactUIDs (tl s)" using s redactUIDs_copy [of "hd s" "tl s"] by simp
        have "\<not> isUUID v" if e: "hd s # redactUIDs (tl s) = v @ w" for v w
        proof
          assume v: "isUUID v"
          obtain x where "s = v @ x" using redactUIDs_prefix [of s v w] r e isUUID_no_bracket(1) [OF v] by auto
          moreover have "length v = 36" using v by (simp add: isUUID_def)
          ultimately show False using False v by simp
        qed
        then show ?thesis using 1(2) [OF s False] uuid_free_Cons r by metis
      qed
    qed
  qed
  then show "redactUIDs s = u @ v @ w \<Longrightarrow> \<not> isUUID v" by (auto simp: uuid_free_def)
qed

theorem no_uid_survives_witness:
  "redactUIDs ''uid 12345678-1234-1234-1234-123456789abc!'' = ''uid [REDACTED-UID]!''
    \<and> \<not> isUUID ''uid [REDACTED-UID]!''"
proof -
  have r: "redactUIDs ''uid 12345678-1234-1234-1234-123456789abc!'' = [] @ ''uid [REDACTED-UID]!'' @ []" by code_simp
  show ?thesis using r no_uid_survives [OF r] by simp
qed

subsection \<open>Addresses\<close>

lemma redactIP_other: "\<not> isIPTokenChar c \<Longrightarrow> c \<noteq> CHR ''['' \<Longrightarrow> redactIPAddresses (c # s) = c # redactIPAddresses s"
  by (simp add: redactIPAddresses.simps(2))

lemma bracket_no_token: "\<not> isIPTokenChar CHR ''[''"
  by (simp add: isIPTokenChar_def hex_char_def is_digit_def lower_char_def)

lemma redactIP_token:
  assumes "t \<noteq> []" "\<forall>c\<in>set t. isIPTokenChar c" "rest = [] \<or> \<not> isIPTokenChar (hd rest)"
  shows "redactIPAddresses (t @ rest) = redactAddressToken t @ redactIPAddresses rest"
proof -
  obtain c cs where c: "t = c # cs" using assms(1) by (cases t) auto
  have w: "takeWhile isIPTokenChar (t @ rest) = t" "dropWhile isIPTokenChar (t @ rest) = rest"
    using assms(2,3) by (cases rest; simp add: takeWhile_append2 dropWhile_append2)+
  have "c \<noteq> CHR ''[''" "isIPTokenChar c" using assms(2) c bracket_no_token by auto
  then show ?thesis using w unfolding c by (simp add: redactIPAddresses.simps(2))
qed

text \<open>A text splits at the start of a token.\<close>

lemma redactIP_append:
  assumes "CHR ''['' \<notin> set pre" and "pre = [] \<or> \<not> isIPTokenChar (last pre)"
  shows "redactIPAddresses (pre @ s) = redactIPAddresses pre @ redactIPAddresses s"
  using assms
proof (induction "length pre" arbitrary: pre rule: less_induct)
  case less
  show ?case
  proof (cases pre)
    case (Cons c cs)
    show ?thesis
    proof (cases "isIPTokenChar c")
      case False
      have "redactIPAddresses (cs @ s) = redactIPAddresses cs @ redactIPAddresses s"
        using less.hyps [of cs] less.prems Cons by (cases cs) auto
      then show ?thesis using Cons False less.prems(1) redactIP_other [OF False, of "cs @ s"] redactIP_other [OF False, of cs] by auto
    next
      case True
      let ?t = "takeWhile isIPTokenChar pre" and ?d = "dropWhile isIPTokenChar pre"
      have "?d \<noteq> []" using less.prems(2) Cons last_in_set [of pre] by (simp only: dropWhile_eq_Nil_conv) blast
      then have d: "\<not> isIPTokenChar (hd ?d)" "last ?d = last pre" "?d \<noteq> []"
        using hd_dropWhile [of isIPTokenChar pre] last_appendR [of ?d ?t] by (auto simp: takeWhile_dropWhile_id)
      have t: "?t \<noteq> []" "\<forall>c\<in>set ?t. isIPTokenChar c" using Cons True by (auto dest: set_takeWhileD)
      have "length ?t + length ?d = length pre"
        by (simp flip: length_append)
      then have "length ?d < length pre" using t(1) by (cases ?t) auto
      moreover have "CHR ''['' \<notin> set ?d" using less.prems(1) set_dropWhileD by fastforce
      ultimately have ih: "redactIPAddresses (?d @ s) = redactIPAddresses ?d @ redactIPAddresses s"
        using less.hyps [of ?d] less.prems(2) d Cons by auto
      have "redactIPAddresses (pre @ s) = redactIPAddresses (?t @ ?d @ s)" by (simp flip: append_assoc)
      also have "\<dots> = redactAddressToken ?t @ redactIPAddresses (?d @ s)"
        using d by (intro redactIP_token t) (cases ?d, auto)
      also have "\<dots> = redactIPAddresses (?t @ ?d) @ redactIPAddresses s"
        using ih redactIP_token [OF t, of ?d] d by simp
      finally show ?thesis by simp
    qed
  qed simp
qed

lemma ipv4_fields_chars: "ipv4_fields prev val n k s \<Longrightarrow> c \<in> set s \<Longrightarrow> is_digit c \<or> c = CHR ''.''"
  by (induction prev val n k s rule: ipv4_fields.induct) (auto simp: Let_def split: if_splits)

lemma ipv4_fields_no_trailing_dot: "\<not> ipv4_fields prev val n k (s @ ''.'')"
  by (induction s arbitrary: prev val n k) (auto simp: Let_def is_digit_def)

lemma parse_ipv4_dot: "parse_ipv4 s \<Longrightarrow> CHR ''.'' \<in> set s"
proof (rule ccontr)
  have "CHR ''.'' \<notin> set s \<Longrightarrow> ipv4_fields prev val n k s \<Longrightarrow> k = 3" for prev val n k
    by (induction prev val n k s rule: ipv4_fields.induct) (auto simp: Let_def split: if_splits)
  moreover assume "parse_ipv4 s" "CHR ''.'' \<notin> set s"
  ultimately show False unfolding parse_ipv4_def by fastforce
qed

lemma parse_ipv4_chars: "parse_ipv4 s \<Longrightarrow> c \<in> set s \<Longrightarrow> is_digit c \<or> c = CHR ''.''"
  unfolding parse_ipv4_def by (rule ipv4_fields_chars)

lemma ipv4_token: "parse_ipv4 ip \<Longrightarrow> \<forall>c\<in>set ip. isIPTokenChar c" "parse_ipv4 ip \<Longrightarrow> ip \<noteq> []"
  using parse_ipv4_chars [of ip] parse_ipv4_dot [of ip] by (auto simp: isIPTokenChar_def hex_char_def)

lemma ipv4_no_colon: "parse_ipv4 ip \<Longrightarrow> CHR '':'' \<notin> set ip"
  using parse_ipv4_chars [of ip "CHR '':''"] by (auto simp: is_digit_def)

text \<open>Text that starts like an IPv4 address is an address only if the IPv4 parser accepts all of it.\<close>

lemma parse_ip_ipv4:
  assumes "parse_ipv4 ip" shows "parse_ip (ip @ s) \<longleftrightarrow> parse_ipv4 (ip @ s)"
proof -
  obtain u c v where u: "ip = u @ c # v" "c = CHR ''.''" "CHR ''.'' \<notin> set u"
    using split_list_first [OF parse_ipv4_dot [OF assms]] by blast
  have "x \<notin> {CHR ''.'', CHR '':'', CHR ''%''}" if "x \<in> set u" for x
    using u that parse_ipv4_chars [OF assms, of x] by (auto simp: is_digit_def)
  then have "dropWhile (\<lambda>c. c \<notin> {CHR ''.'', CHR '':'', CHR ''%''}) (u @ c # v @ s) = CHR ''.'' # v @ s"
    using dropWhile_append2 [of u "\<lambda>c. c \<notin> {CHR ''.'', CHR '':'', CHR ''%''}" "c # v @ s"] u(2) by simp
  then show ?thesis using u(1) by (simp add: parse_ip_def)
qed

lemma not_ipv4: "c \<in> set s \<Longrightarrow> \<not> is_digit c \<Longrightarrow> c \<noteq> CHR ''.'' \<Longrightarrow> \<not> parse_ipv4 s"
  using parse_ipv4_chars by blast

lemma last_colon_append:
  assumes "CHR '':'' \<notin> set port" shows "last_colon (host @ CHR '':'' # port) = Some (host, port)"
proof -
  have "takeWhile (\<lambda>c. c \<noteq> CHR '':'') (rev port @ CHR '':'' # rev host) = rev port"
    using assms takeWhile_append2 [of "rev port" "\<lambda>c. c \<noteq> CHR '':''" "CHR '':'' # rev host"] by auto
  then show ?thesis by (simp add: last_colon_def)
qed

lemma digits_no_colon: "list_all is_digit port \<Longrightarrow> CHR '':'' \<notin> set port"
  by (auto simp: list_all_iff is_digit_def)

lemma ipv4_redacted:
  assumes "parse_ipv4 ip"
  shows "redactAddressToken ip = redacted_ip"
    and "isDecimalPort port \<Longrightarrow> redactAddressToken (ip @ CHR '':'' # port) = redacted_ip @ CHR '':'' # port"
proof -
  show "redactAddressToken ip = redacted_ip"
    using parse_ip_ipv4 [OF assms, of "[]"] assms by (simp add: redactAddressToken_def)
  assume p: "isDecimalPort port"
  have "\<not> parse_ip (ip @ CHR '':'' # port)" unfolding parse_ip_ipv4 [OF assms]
    by (rule not_ipv4 [where c = "CHR '':''"]) (simp_all add: is_digit_def)
  moreover have "parse_ip ip" using parse_ip_ipv4 [OF assms, of "[]"] assms by simp
  ultimately show "redactAddressToken (ip @ CHR '':'' # port) = redacted_ip @ CHR '':'' # port"
    using p ipv4_token(2) [OF assms] digits_no_colon [of port]
    by (simp add: redactAddressToken_def splitIPTokenHostPort_def last_colon_append isDecimalPort_def)
qed

text \<open>A trailing dot or colon belongs to the token.\<close>

lemma ipv4_leaks:
  assumes "parse_ipv4 ip"
  shows "redactAddressToken (ip @ ''.'') = ip @ ''.''"
    and "redactAddressToken (ip @ '':'') = ip @ '':''"
    and "list_all is_digit port \<Longrightarrow> redactAddressToken (ip @ CHR '':'' # port @ '':'') = ip @ CHR '':'' # port @ '':''"
proof -
  have "\<not> parse_ip (ip @ ''.'')" unfolding parse_ip_ipv4 [OF assms]
    by (simp add: parse_ipv4_def ipv4_fields_no_trailing_dot)
  then show "redactAddressToken (ip @ ''.'') = ip @ ''.''"
    using ipv4_no_colon [OF assms]
    by (simp add: redactAddressToken_def splitIPTokenHostPort_def last_colon_def)
  have colon: "\<not> parse_ip (ip @ s)" if "CHR '':'' \<in> set s" for s unfolding parse_ip_ipv4 [OF assms]
    by (rule not_ipv4 [where c = "CHR '':''"]) (use that in \<open>simp_all add: is_digit_def\<close>)
  show "redactAddressToken (ip @ '':'') = ip @ '':''"
    using colon [of "'':''"] last_colon_append [of "[]" ip]
    by (simp add: redactAddressToken_def splitIPTokenHostPort_def)
  show "redactAddressToken (ip @ CHR '':'' # port @ '':'') = ip @ CHR '':'' # port @ '':''"
    using colon [of "CHR '':'' # port @ '':''"] last_colon_append [of "[]" "ip @ CHR '':'' # port"]
    by (simp add: redactAddressToken_def splitIPTokenHostPort_def)
qed

definition boundary :: "string \<Rightarrow> bool" where
  "boundary s \<longleftrightarrow> s = [] \<or> \<not> isIPTokenChar (hd s)"

text \<open>An IPv4 address that stands on its own, or with a port, is replaced, and the text around it is
  treated as if it stood alone: the port stays readable, nothing of the address does.\<close>

theorem address_redacted:
  assumes "parse_ipv4 ip" and "port = [] \<or> (\<exists>p. port = CHR '':'' # p \<and> isDecimalPort p)"
    and "CHR ''['' \<notin> set pre" and "pre = [] \<or> \<not> isIPTokenChar (last pre)" and "boundary post"
  shows "redactIPAddresses (pre @ ip @ port @ post) = redactIPAddresses pre @ redacted_ip @ port @ redactIPAddresses post"
proof -
  have "\<forall>c\<in>set port. isIPTokenChar c"
    using assms(2) by (auto simp: isIPTokenChar_def hex_char_def isDecimalPort_def list_all_iff)
  then have "\<forall>c\<in>set (ip @ port). isIPTokenChar c" "ip @ port \<noteq> []" using ipv4_token [OF assms(1)] by auto
  then have "redactIPAddresses ((ip @ port) @ post) = redactAddressToken (ip @ port) @ redactIPAddresses post"
    using assms(5) by (intro redactIP_token) (auto simp: boundary_def)
  moreover have "redactAddressToken (ip @ port) = redacted_ip @ port"
    using ipv4_redacted [OF assms(1)] assms(2) by auto
  ultimately show ?thesis using redactIP_append [OF assms(3,4)] by simp
qed

theorem address_redacted_witness: "redactIPAddresses ''at 10.0.0.5:80 now'' = ''at [REDACTED-IP]:80 now''"
proof -
  have "parse_ipv4 ''10.0.0.5''" "isDecimalPort ''80''" "boundary '' now''" "\<not> isIPTokenChar CHR '' ''"
    "redactIPAddresses ''at '' = ''at ''" "redactIPAddresses '' now'' = '' now''"
    by code_simp+
  then show ?thesis using address_redacted [of "''10.0.0.5''" "'':80''" "''at ''" "'' now''"] by (simp add: redacted_ip_def)
qed

text \<open>A dot or a colon after the address protects it: a sentence that ends with an address, and the
  \<open>host:port:\<close> of a dial error, keep it in clear text.\<close>

theorem address_leaks:
  assumes "parse_ipv4 ip" and "mark = ''.'' \<or> mark = '':'' \<or> (\<exists>port. mark = CHR '':'' # port @ '':'' \<and> list_all is_digit port)"
    and "CHR ''['' \<notin> set pre" and "pre = [] \<or> \<not> isIPTokenChar (last pre)" and "boundary post"
  shows "redactIPAddresses (pre @ ip @ mark @ post) = redactIPAddresses pre @ ip @ mark @ redactIPAddresses post"
proof -
  have "\<forall>c\<in>set mark. isIPTokenChar c"
    using assms(2) by (auto simp: isIPTokenChar_def hex_char_def list_all_iff)
  then have "\<forall>c\<in>set (ip @ mark). isIPTokenChar c" "ip @ mark \<noteq> []" using ipv4_token [OF assms(1)] by auto
  then have "redactIPAddresses ((ip @ mark) @ post) = redactAddressToken (ip @ mark) @ redactIPAddresses post"
    using assms(5) by (intro redactIP_token) (auto simp: boundary_def)
  moreover have "redactAddressToken (ip @ mark) = ip @ mark" using ipv4_leaks [OF assms(1)] assms(2) by auto
  ultimately show ?thesis using redactIP_append [OF assms(3,4)] by simp
qed

theorem address_leaks_witness:
  "redactIPAddresses ''dial tcp 10.0.0.5:8080: connect'' = ''dial tcp 10.0.0.5:8080: connect''"
proof -
  have "parse_ipv4 ''10.0.0.5''" "list_all is_digit ''8080''" "boundary '' connect''" "\<not> isIPTokenChar CHR '' ''"
    "redactIPAddresses ''dial tcp '' = ''dial tcp ''" "redactIPAddresses '' connect'' = '' connect''"
    by code_simp+
  then show ?thesis using address_leaks [of "''10.0.0.5''" "'':8080:''" "''dial tcp ''" "'' connect''"] by simp
qed

subsection \<open>Credentials in flags\<close>

text \<open>A flag whose name the pattern matches up to the equals sign, followed by an unquoted value.\<close>

lemma flag_first:
  assumes name: "rx (RSeq (rx_text ''--'') sensitiveNamePattern) (None, ''--'' @ name @ CHR ''='' # v, []) = (q, CHR ''='' # v, []) # others"
    and v: "v \<noteq> []" "\<forall>c\<in>set v. flag_value_char c"
  shows "ReplaceAllString flag_pattern template (''--'' @ name @ CHR ''='' # v) = template [(2, ''=''), (1, ''--'' @ name)]"
proof -
  let ?s = "''--'' @ name @ CHR ''='' # v"
  obtain c cs where c: "v = c # cs" using v(1) by (cases v) auto
  have cv: "flag_value_char c" "c \<noteq> dquote" "c \<noteq> squote" using v(2) c by (auto simp: flag_value_char_def)
  obtain qs where "rx_repeat (rx (RChar flag_value_char)) (length cs) (Some c, cs @ [], [(2, ''=''), (1, ''--'' @ name)])
      = ((if cs = [] then Some c else Some (last cs)), [], [(2, ''=''), (1, ''--'' @ name)]) # qs"
    using rx_run_first [of cs flag_value_char "[]" "length cs" "Some c" "[(2, ''=''), (1, ''--'' @ name)]"] v(2) c by auto
  then have "\<exists>p qs. rx (rx_value flag_value_char) (Some CHR ''='', v, [(2, ''=''), (1, ''--'' @ name)])
      = (p, [], [(2, ''=''), (1, ''--'' @ name)]) # qs"
    using cv c by (simp add: rx_value_def rx_seq_def)
  moreover have "\<exists>qs. rx flag_pattern (None, ?s, []) =
      rx (RSeq (rx_value flag_value_char) REps) (Some CHR ''='', v, [(2, ''=''), (1, ''--'' @ name)]) @ qs"
    using name by (simp add: flag_pattern_def rx_seq_def rx_space_def numeral_2_eq_2 del: rx.simps(3))
      (simp add: rx_space_def)
  ultimately obtain p qs where "rx flag_pattern (None, ?s, []) = (p, [], [(2, ''=''), (1, ''--'' @ name)]) # qs" by auto
  moreover have "replace_from flag_pattern template p [] = []" for p
    using rx_shrinks [of flag_pattern _ "(p, [], [])"]
    by (subst replace_from.simps) (cases "rx flag_pattern (p, [], [])", auto simp: flag_pattern_def rx_seq_def rx_text_def)
  ultimately show ?thesis unfolding ReplaceAllString_def by (subst replace_from.simps) simp
qed

text \<open>No pattern of the program matches the empty text.\<close>

lemma patterns_not_nullable:
  "\<forall>(re, template)\<in>set sensitiveStringPatterns. \<not> nullable re" "\<not> nullable selectorTextPattern" "\<not> nullable selectorJSONPattern"
  by (simp_all add: sensitiveStringPatterns_def flag_pattern_def assign_pattern_def inline_pattern_def header_pattern_def
      userinfo_pattern_def selectorTextPattern_def selectorJSONPattern_def rx_seq_def rx_text_def rx_value_def
      sensitiveNamePattern_def sensitiveNameCorePattern_def)

definition flag_names :: "string list" where
  "flag_names = [''token'', ''password'', ''api-key'', ''client_secret'']"

lemmas rx_names = rx_text_def rx_seq_def sensitiveNamePattern_def sensitiveNameCorePattern_def rx_dash_def
  rx_alnum_def lower_char_def is_digit_def

lemma flag_name_match:
  "name \<in> set flag_names \<Longrightarrow>
     rx (RSeq (rx_text ''--'') sensitiveNamePattern) (None, ''--'' @ name @ CHR ''='' # v, [])
      = (Some (last name), CHR ''='' # v, []) # (if name = ''client_secret'' then [(Some (last name), CHR ''='' # v, [])] else [])"
  unfolding flag_names_def
proof (simp only: list.set insert_iff empty_iff simp_thms, elim disjE)
  assume "name = ''token''"
  then show ?thesis by (simp add: rx_names)
next
  assume "name = ''password''"
  then show ?thesis by (simp add: rx_names)
next
  assume "name = ''api-key''"
  then show ?thesis by (simp add: rx_names)
next
  assume "name = ''client_secret''"
  then show ?thesis by (simp add: rx_names)
qed

text \<open>The passes after the first see a text without the secret.\<close>

definition later_passes :: "string \<Rightarrow> string" where
  "later_passes s = (let s = fold (\<lambda>(re, template) v. ReplaceAllString re template v) (tl sensitiveStringPatterns) s;
     s = ReplaceAllString selectorTextPattern (keep_around 2) s;
     s = ReplaceAllString selectorJSONPattern (keep_around 2) s
   in redactHostnames (redactUIDs (redactNodeNames (redactIPAddresses s))))"

definition quiet :: "string \<Rightarrow> bool" where
  "quiet s \<longleftrightarrow> ReplaceAllString assign_pattern keep_one s = s \<and> ReplaceAllString inline_pattern keep_one s = s
     \<and> ReplaceAllString (header_pattern [''authorization'', ''proxy-authorization'']) keep_one s = s
     \<and> ReplaceAllString (header_pattern [''cookie'', ''set-cookie'']) keep_one s = s
     \<and> ReplaceAllString userinfo_pattern (keep_around 3) s = s
     \<and> ReplaceAllString selectorTextPattern (keep_around 2) s = s
     \<and> ReplaceAllString selectorJSONPattern (keep_around 2) s = s
     \<and> redactIPAddresses s = s \<and> redactNodeNames s = s \<and> redactUIDs s = s \<and> redactHostnames s = s"

lemma quiet_token: "quiet ''--token=[REDACTED]''"
  unfolding quiet_def by (intro conjI; code_simp)

lemma quiet_password: "quiet ''--password=[REDACTED]''"
  unfolding quiet_def by (intro conjI; code_simp)

lemma quiet_api_key: "quiet ''--api-key=[REDACTED]''"
  unfolding quiet_def by (intro conjI; code_simp)

lemma quiet_client_secret: "quiet ''--client_secret=[REDACTED]''"
  unfolding quiet_def by (intro conjI; code_simp)

lemma quiet_flags: "name \<in> set flag_names \<Longrightarrow> quiet (''--'' @ name @ ''=[REDACTED]'')"
  using quiet_token quiet_password quiet_api_key quiet_client_secret by (auto simp: flag_names_def)

lemma later_passes_quiet: "quiet s \<Longrightarrow> later_passes s = s"
  by (simp add: later_passes_def sensitiveStringPatterns_def quiet_def)

text \<open>A text that is exactly one long flag \<open>--name=value\<close>, for the four names of \<open>flag_names\<close> and a value without blanks,
  quotes, commas and semicolons, leaves the whole of \<open>RedactString\<close> as the flag and the placeholder.\<close>

theorem flag_value_removed:
  assumes "name \<in> set flag_names" and "v \<noteq> []" and "\<forall>c\<in>set v. flag_value_char c"
  shows "RedactString (''--'' @ name @ CHR ''='' # v) = ''--'' @ name @ ''=[REDACTED]''"
proof -
  let ?s = "''--'' @ name @ CHR ''='' # v"
  have "RedactString ?s = later_passes (ReplaceAllString flag_pattern (\<lambda>g. rx_group 1 g @ rx_group 2 g @ redacted) ?s)"
    by (simp add: RedactString_def later_passes_def redactSensitiveString_def sensitiveStringPatterns_def)
  also have "\<dots> = later_passes (''--'' @ name @ ''=[REDACTED]'')"
    using flag_first [OF flag_name_match [OF assms(1)] assms(2,3)] by (simp add: rx_group_def redacted_def)
  finally show ?thesis using later_passes_quiet [OF quiet_flags [OF assms(1)]] by simp
qed

theorem flag_value_removed_witness: "RedactString ''--api-key=k3y!'' = ''--api-key=[REDACTED]''"
  using flag_value_removed [of "''api-key''" "''k3y!''"]
  by (simp add: flag_names_def flag_value_char_def rx_space_def dquote_def squote_def)

text \<open>A comma or a semicolon ends the value for the pattern, so what follows it stays in the text.\<close>

lemma comma_leaks: "RedactString ''--password=ab,cd'' = ''--password=[REDACTED],cd''"
  by code_simp

end
