(* ===== verification/RedactTree.thy ===== *)
theory RedactTree
  imports Redact JsonTree
begin

section \<open>Redaction of Kubernetes objects\<close>

text \<open>
  \<open>cmd/bundle/redact.go\<close>, the pass over decoded YAML and JSON: values of fields whose name or parent
  marks them as sensitive are replaced whatever they are, other texts go through \<open>RedactString\<close>, keys and
  shape stay. The code overwrites the decoded maps in place; they are trees without sharing, so the
  model returns the new tree. Decoding and encoding are the arguments \<open>unmarshal\<close>, \<open>valid_json\<close>,
  \<open>indent\<close> and \<open>yaml\<close>.
\<close>

definition redactedParentKeys :: "string set" where
  "redactedParentKeys = {''annotations'', ''labels'', ''matchlabels'', ''data'', ''stringdata''}"

definition redactedFieldKeys :: "string set" where
  "redactedFieldKeys = {''data'', ''stringdata'', ''authorization'', ''cookie''}"

definition redactedKeyMarkers :: "string list" where
  "redactedKeyMarkers = [''password'', ''passwd'', ''token'', ''secret'', ''apikey'', ''clientkey'', ''privatekey'', ''credential'']"

definition nodeFieldKeys :: "string set" where "nodeFieldKeys = {''nodename'', ''hostname''}"
definition nodeFieldParentKeys :: "string set" where "nodeFieldParentKeys = {''source''}"

definition nodeRedactableField :: "string \<Rightarrow> string \<Rightarrow> bool" where
  "nodeRedactableField key parentKey \<longleftrightarrow> key \<in> nodeFieldKeys \<or> key = ''host'' \<and> parentKey \<in> nodeFieldParentKeys"

definition shouldRedactStructuredField :: "string \<Rightarrow> string \<Rightarrow> bool" where
  "shouldRedactStructuredField key parentKey =
     (if parentKey \<in> redactedParentKeys \<or> key \<in> redactedFieldKeys \<or> parentKey = ''matchexpressions'' \<and> key = ''values'' then True
      else if key = ''selector'' then False
      else if key = ''value'' \<and> parentKey = ''env'' then True
      else if key = ''name'' \<and> (contains_str parentKey ''secret'' \<or> contains_str parentKey ''configmap'') then True
      else list_ex (contains_str key) redactedKeyMarkers)"

fun redactStructuredFieldValue :: "json \<Rightarrow> json" where
  "redactStructuredFieldValue (JObj es) = JObj (map (\<lambda>(k, v). (k, JStr redacted)) es)"
| "redactStructuredFieldValue (JArr xs) = JArr (map (\<lambda>x. JStr redacted) xs)"
| "redactStructuredFieldValue v = JStr redacted"

definition normalize_key :: "string \<Rightarrow> string" where
  "normalize_key key = to_lower (filter (\<lambda>c. c \<noteq> CHR ''_'') (filter (\<lambda>c. c \<noteq> CHR ''-'') key))"

fun is_str :: "json \<Rightarrow> bool" where
  "is_str (JStr s) = True"
| "is_str v = False"

fun redactStructuredValue :: "string \<Rightarrow> json \<Rightarrow> json"
  and redact_fields :: "string \<Rightarrow> fields_map \<Rightarrow> fields_map"
  and redact_items :: "string \<Rightarrow> bool \<Rightarrow> json list \<Rightarrow> json list" where
  "redactStructuredValue parentKey (JObj es) = JObj (redact_fields parentKey es)"
| "redactStructuredValue parentKey (JArr xs) = JArr (redact_items parentKey False xs)"
| "redactStructuredValue parentKey (JStr s) = JStr (RedactString s)"
| "redactStructuredValue parentKey v = v"
| "redact_fields parentKey [] = []"
| "redact_fields parentKey ((key, child) # es) =
     (key,
      let normalized = normalize_key key
      in if shouldRedactStructuredField normalized parentKey then redactStructuredFieldValue child
         else if normalized = ''selector'' \<and> is_str child then JStr redacted
         else if nodeRedactableField normalized parentKey \<and> is_str child \<and> child \<noteq> JStr [] then JStr redacted_node
         else redactStructuredValue normalized child) # redact_fields parentKey es"
| "redact_items parentKey redactNext [] = []"
| "redact_items parentKey redactNext (JStr s # xs) =
     (if redactNext then JStr redacted # redact_items parentKey False xs
      else JStr (RedactString s) #
        redact_items parentKey ((parentKey = ''args'' \<or> parentKey = ''command'') \<and> isStandaloneSensitiveFlag s) xs)"
| "redact_items parentKey redactNext (x # xs) = redactStructuredValue parentKey x # redact_items parentKey False xs"

definition RedactStructuredBytes ::
    "(string \<Rightarrow> json option) \<Rightarrow> (string \<Rightarrow> bool) \<Rightarrow> (json \<Rightarrow> string option) \<Rightarrow> (json \<Rightarrow> string option) \<Rightarrow> string \<Rightarrow> string" where
  "RedactStructuredBytes unmarshal valid_json indent yaml data =
     (if data = [] then data
      else case unmarshal data of
        None \<Rightarrow> RedactString data
      | Some v \<Rightarrow>
          (let v = redactStructuredValue [] v
           in case (if valid_json data then indent v else yaml v) of
                None \<Rightarrow> RedactString data
              | Some out \<Rightarrow> out))"

subsection \<open>Sensitive values do not show\<close>

text \<open>
  Two documents agree if they differ only in sensitive places: the shape of a sensitive value, that is
  the keys of a map or the length of a list, is not a secret, its contents are. A selector text, the
  name of a node and the word after a credential flag are secrets as well.
\<close>

fun same_shape :: "json \<Rightarrow> json \<Rightarrow> bool" where
  "same_shape (JObj es) w = (case w of JObj fs \<Rightarrow> map fst es = map fst fs | _ \<Rightarrow> False)"
| "same_shape (JArr xs) w = (case w of JArr ys \<Rightarrow> length xs = length ys | _ \<Rightarrow> False)"
| "same_shape v w = (case w of JObj fs \<Rightarrow> False | JArr ys \<Rightarrow> False | _ \<Rightarrow> True)"

inductive agree :: "string \<Rightarrow> json \<Rightarrow> json \<Rightarrow> bool"
  and agree_fields :: "string \<Rightarrow> fields_map \<Rightarrow> fields_map \<Rightarrow> bool"
  and agree_items :: "string \<Rightarrow> bool \<Rightarrow> json list \<Rightarrow> json list \<Rightarrow> bool" where
  scalar: "agree p v v"
| obj: "agree_fields p es fs \<Longrightarrow> agree p (JObj es) (JObj fs)"
| arr: "agree_items p False xs ys \<Longrightarrow> agree p (JArr xs) (JArr ys)"
| fields_nil: "agree_fields p [] []"
| field_secret: "shouldRedactStructuredField (normalize_key k) p \<Longrightarrow> same_shape v w \<Longrightarrow> agree_fields p es fs
    \<Longrightarrow> agree_fields p ((k, v) # es) ((k, w) # fs)"
| field_selector: "normalize_key k = ''selector'' \<Longrightarrow> agree_fields p es fs
    \<Longrightarrow> agree_fields p ((k, JStr s) # es) ((k, JStr t) # fs)"
| field_node: "nodeRedactableField (normalize_key k) p \<Longrightarrow> normalize_key k \<noteq> ''selector'' \<Longrightarrow> s \<noteq> [] \<Longrightarrow> t \<noteq> []
    \<Longrightarrow> agree_fields p es fs \<Longrightarrow> agree_fields p ((k, JStr s) # es) ((k, JStr t) # fs)"
| field_child: "agree (normalize_key k) v w \<Longrightarrow> agree_fields p es fs \<Longrightarrow> agree_fields p ((k, v) # es) ((k, w) # fs)"
| items_nil: "agree_items p b [] []"
| item_secret: "agree_items p False xs ys \<Longrightarrow> agree_items p True (JStr s # xs) (JStr t # ys)"
| item_str: "agree_items p ((p = ''args'' \<or> p = ''command'') \<and> isStandaloneSensitiveFlag s) xs ys
    \<Longrightarrow> agree_items p False (JStr s # xs) (JStr s # ys)"
| item_child: "\<not> is_str x \<Longrightarrow> \<not> is_str y \<Longrightarrow> agree p x y \<Longrightarrow> agree_items p False xs ys
    \<Longrightarrow> agree_items p b (x # xs) (y # ys)"

lemma same_shape_redacted: "same_shape v w \<Longrightarrow> redactStructuredFieldValue v = redactStructuredFieldValue w"
proof (cases v)
  case (JObj es)
  moreover assume "same_shape v w"
  ultimately obtain fs where "w = JObj fs" "map fst es = map fst fs" by (auto split: json.splits)
  moreover have "map (\<lambda>(k, v). (k, JStr redacted)) xs = map (\<lambda>k. (k, JStr redacted)) (map fst xs)" for xs :: fields_map
    by (induction xs) auto
  ultimately show ?thesis using JObj by (simp only: redactStructuredFieldValue.simps)
qed (auto split: json.splits simp: map_replicate_const)

lemma agree_shape:
  "agree p v w \<Longrightarrow> same_shape v w \<and> is_str v = is_str w \<and> (v = JStr [] \<longleftrightarrow> w = JStr [])"
  "agree_fields p es fs \<Longrightarrow> map fst es = map fst fs"
  "agree_items p b xs ys \<Longrightarrow> length xs = length ys"
proof (induction rule: agree_agree_fields_agree_items.inducts)
  case (scalar p v)
  then show ?case by (cases v) auto
qed auto

lemma redact_items_child: "\<not> is_str x \<Longrightarrow> redact_items p b (x # xs) = redactStructuredValue p x # redact_items p False xs"
  by (cases x) auto

lemma agree_redacted:
  "agree p v w \<Longrightarrow> redactStructuredValue p v = redactStructuredValue p w"
  "agree_fields p es fs \<Longrightarrow> redact_fields p es = redact_fields p fs"
  "agree_items p b xs ys \<Longrightarrow> redact_items p b xs = redact_items p b ys"
proof (induction rule: agree_agree_fields_agree_items.inducts)
  case (field_secret k p v w es fs)
  then show ?case using same_shape_redacted [of v w] by simp
next
  case (field_child k v w p es fs)
  then show ?case using same_shape_redacted [of v w] agree_shape(1) [of "normalize_key k" v w] by (auto simp: Let_def)
next
  case (item_child x y p xs ys b)
  then show ?case by (simp add: redact_items_child)
qed (auto simp: Let_def)

text \<open>C7. A bundle does not depend on its secrets: two objects that differ only in sensitive places, the
  values of sensitive fields at any depth, selector texts, node names and the words after credential flags,
  are redacted to the same bytes.\<close>

theorem secrets_do_not_show:
  assumes "unmarshal d1 = Some v" "unmarshal d2 = Some w" "agree [] v w" "valid_json d1 = valid_json d2"
    and "d1 \<noteq> []" "d2 \<noteq> []" "\<forall>x. indent x \<noteq> None \<and> yaml x \<noteq> None"
  shows "RedactStructuredBytes unmarshal valid_json indent yaml d1 = RedactStructuredBytes unmarshal valid_json indent yaml d2"
proof -
  obtain s t where "indent (redactStructuredValue [] w) = Some s" "yaml (redactStructuredValue [] w) = Some t"
    using assms(7) by blast
  then show ?thesis using assms(1,2,4-6) agree_redacted(1) [OF assms(3)] by (simp add: RedactStructuredBytes_def Let_def)
qed

definition sample_secret :: "string \<Rightarrow> json" where
  "sample_secret s = JObj [(''args'', JArr [JStr ''--token'', JStr s]),
     (''spec'', JObj [(''nodeName'', JStr (''n'' @ s)), (''password'', JArr [JStr s])])]"

lemma sample_agree: "agree [] (sample_secret s) (sample_secret t)"
proof -
  have flag: "isStandaloneSensitiveFlag ''--token''" by code_simp
  have names: "shouldRedactStructuredField (normalize_key ''password'') (normalize_key ''spec'')"
    "nodeRedactableField (normalize_key ''nodeName'') (normalize_key ''spec'')" "normalize_key ''nodeName'' \<noteq> ''selector''"
    "normalize_key ''args'' = ''args''" by code_simp+
  have items: "agree_items ''args'' False [JStr ''--token'', JStr s] [JStr ''--token'', JStr t]"
    using flag by (intro item_str) (auto intro: item_secret items_nil)
  have "agree_fields (normalize_key ''spec'') [(''nodeName'', JStr (''n'' @ s)), (''password'', JArr [JStr s])]
      [(''nodeName'', JStr (''n'' @ t)), (''password'', JArr [JStr t])]"
    using names by (intro field_node field_secret fields_nil) auto
  moreover have "agree (normalize_key ''args'') (JArr [JStr ''--token'', JStr s]) (JArr [JStr ''--token'', JStr t])"
    unfolding names(4) by (rule arr [OF items])
  ultimately show ?thesis unfolding sample_secret_def
    by (rule obj [OF field_child [OF _ field_child [OF obj fields_nil]], rotated])
qed

theorem secrets_do_not_show_witness:
  "RedactStructuredBytes (\<lambda>d. Some (sample_secret d)) (\<lambda>_. True) (\<lambda>_. Some []) (\<lambda>_. Some []) ''hunter2''
     = RedactStructuredBytes (\<lambda>d. Some (sample_secret d)) (\<lambda>_. True) (\<lambda>_. Some []) (\<lambda>_. Some []) ''1234''"
  by (rule secrets_do_not_show [OF refl refl sample_agree]) simp_all

end
