(* ===== verification/SeasonCron.thy ===== *)
theory SeasonCron
  imports Durations PatchJson
begin

section \<open>Pre-scaling schedules\<close>

text \<open>
  \<open>pkg/hpa/seasonality/recommend.go\<close>: a detected peak window becomes two cron expressions, one that
  raises the replica floor ahead of the ramp and one that releases it. A weekday is a number, Sunday
  being 0. The specification reads a cron expression as the set of minutes of the week it fires at.
\<close>

subsection \<open>Texts\<close>

fun split_on :: "char \<Rightarrow> string \<Rightarrow> string list" where
  "split_on sep [] = [[]]"
| "split_on sep (c # s) = (if c = sep then [] # split_on sep s
     else (case split_on sep s of [] \<Rightarrow> [[c]] | p # ps \<Rightarrow> (c # p) # ps))"

text \<open>\<open>strings.Cut\<close> at a character.\<close>

definition cut_at :: "char \<Rightarrow> string \<Rightarrow> (string \<times> string) option" where
  "cut_at sep s = (if sep \<in> set s
     then Some (takeWhile (\<lambda>c. c \<noteq> sep) s, tl (dropWhile (\<lambda>c. c \<noteq> sep) s)) else None)"

abbreviation atoi :: "string \<Rightarrow> parse_error + int" where
  "atoi \<equiv> parse_int_base10 min_int64 max_int64"

text \<open>\<open>Duration.String\<close>.\<close>

definition frac_text :: "nat \<Rightarrow> int \<Rightarrow> string" where
  "frac_text k v = (let ds = rev (dropWhile (\<lambda>c. c = CHR ''0'') (rev (pad_zeros k (digits_of (v mod 10 ^ k)))))
     in if ds = [] then [] else CHR ''.'' # ds)"

definition duration_string :: "int \<Rightarrow> string" where
  "duration_string d =
     (let u = \<bar>d\<bar>; sign = (if d < 0 then ''-'' else [])
      in if u = 0 then ''0s''
         else if u < 1000 then sign @ digits_of u @ ''ns''
         else if u < 1000000 then sign @ digits_of (u div 1000) @ frac_text 3 u @ [CHR 0xC2, CHR 0xB5] @ ''s''
         else if u < Second then sign @ digits_of (u div 1000000) @ frac_text 6 u @ ''ms''
         else (let s = u div Second; m = s div 60; h = m div 60
               in sign @ (if h > 0 then digits_of h @ ''h'' else []) @ (if m > 0 then digits_of (m mod 60) @ ''m'' else [])
                  @ digits_of (s mod 60) @ frac_text 9 u @ ''s''))"

subsection \<open>Cron fields\<close>

abbreviation minutesPerDay :: int where "minutesPerDay \<equiv> 1440"

text \<open>\<open>((a % b) + b) % b\<close> of the code for a positive \<open>b\<close>.\<close>

definition wrap_mod :: "int \<Rightarrow> int \<Rightarrow> int" where
  "wrap_mod a b = go_rem (go_rem a b + b) b"

definition floorDiv :: "int \<Rightarrow> int \<Rightarrow> int" where
  "floorDiv a b = (let q = quot a b in if go_rem a b \<noteq> 0 \<and> (a < 0) \<noteq> (b < 0) then q - 1 else q)"

definition pad2 :: "int \<Rightarrow> string" where
  "pad2 n = pad_zeros 2 (show_int n)"

definition formatMinute :: "int \<Rightarrow> string" where
  "formatMinute minute = (let m = wrap_mod minute minutesPerDay in pad2 (quot m 60) @ '':'' @ pad2 (go_rem m 60))"

definition cronAt :: "int \<Rightarrow> string \<Rightarrow> string" where
  "cronAt minute dayOfWeek = (let m = wrap_mod minute minutesPerDay
     in show_int (go_rem m 60) @ '' '' @ show_int (quot m 60) @ '' * * '' @ dayOfWeek)"

definition cronDayOfWeek :: "int list \<Rightarrow> string" where
  "cronDayOfWeek days =
     (if days = [] then ''*''
      else let nums = sort (remdups days)
           in if length nums = 7 then ''*''
              else if length nums = 1 then show_int (hd nums)
              else if length nums \<ge> 3 \<and> last nums - hd nums = int (length nums) - 1
              then show_int (hd nums) @ ''-'' @ show_int (last nums)
              else join_str '','' (map show_int nums))"

text \<open>The days of \<open>for d := lo; d <= hi && d-lo < 7; d++\<close>.\<close>

definition range_days :: "int \<Rightarrow> int \<Rightarrow> int list" where
  "range_days lo hi = map (\<lambda>k. lo + int k) (filter (\<lambda>k. lo + int k \<le> hi) [0..<7])"

fun shift_parts :: "int \<Rightarrow> int list \<Rightarrow> string list \<Rightarrow> int list option" where
  "shift_parts shift days [] = Some days"
| "shift_parts shift days (part # parts) = (case cut_at CHR ''-'' part of
     Some (start, stop) \<Rightarrow> (case (atoi start, atoi stop) of
         (Inr lo, Inr hi) \<Rightarrow> shift_parts shift (days @ map (\<lambda>d. wrap_mod (d + shift) 7) (range_days lo hi)) parts
       | _ \<Rightarrow> None)
   | None \<Rightarrow> (case atoi part of
         Inr d \<Rightarrow> shift_parts shift (days @ [wrap_mod (d + shift) 7]) parts
       | Inl _ \<Rightarrow> None))"

definition shiftCronDayOfWeek :: "string \<Rightarrow> int \<Rightarrow> string" where
  "shiftCronDayOfWeek field shift0 =
     (let shift = wrap_mod shift0 7
      in if shift = 0 \<or> field = [] then field
         else if field = ''*'' then ''*''
         else (case shift_parts shift [] (split_on CHR '','' field) of
             None \<Rightarrow> field
           | Some days \<Rightarrow> if length days = 7 then ''*'' else cronDayOfWeek days))"

subsection \<open>The recommendation\<close>

record peak_window =
  pw_StartMinute :: int
  pw_EndMinute :: int
  pw_Start :: string
  pw_End :: string
  pw_CrossesMidnight :: bool
  pw_PeakDesired :: int
  pw_PeakSignal :: f64
  pw_OnsetDesired :: int
  pw_Weekdays :: "string list"
  pw_DaysMatched :: int
  pw_DaysCovered :: int

record prescale_recommendation =
  pr_MinReplicas :: int
  pr_LeadTime :: string
  pr_PrescaleAt :: string
  pr_CronExpression :: string
  pr_ReleaseCronExpression :: string
  pr_KEDATrigger :: string
  pr_Patch :: string
  pr_Rationale :: string
  pr_Confidence :: string

definition confidenceLabel :: "f64 \<Rightarrow> string" where
  "confidenceLabel score = (if f_le (mk (8 / 10)) score then ''high'' else if f_le (Fin (1 / 2)) score then ''medium'' else ''low'')"

definition nl :: string where "nl = [CHR 0x0A]"

definition kedaCronTrigger :: "peak_window \<Rightarrow> int \<Rightarrow> string \<Rightarrow> string \<Rightarrow> string \<Rightarrow> string" where
  "kedaCronTrigger peak prescaleMinute prescaleDayOfWeek endDayOfWeek timezone =
     ''triggers:'' @ nl @ ''- type: cron'' @ nl @ ''  metadata:'' @ nl
     @ ''    timezone: '' @ timezone @ nl
     @ ''    start: '' @ cronAt prescaleMinute prescaleDayOfWeek @ nl
     @ ''    end: '' @ cronAt (pw_EndMinute peak) endDayOfWeek @ nl
     @ ''    desiredReplicas: '' @ go_quote (show_int (pw_OnsetDesired peak)) @ nl"

definition lead_minutes :: "int \<Rightarrow> int" where
  "lead_minutes leadTime = f_trunc (dur_minutes leadTime)"

definition buildRecommendation :: "peak_window \<Rightarrow> int list \<Rightarrow> bool \<Rightarrow> int \<Rightarrow> string \<Rightarrow> f64 \<Rightarrow> prescale_recommendation" where
  "buildRecommendation peak schedule narrowed leadTime timezone confidence =
     (let dow = (if narrowed then cronDayOfWeek schedule else ''*'');
          prescaleMinute = pw_StartMinute peak - lead_minutes leadTime;
          prescaleDOW = shiftCronDayOfWeek dow (floorDiv prescaleMinute minutesPerDay);
          endDOW = (if pw_CrossesMidnight peak then shiftCronDayOfWeek dow 1 else dow)
      in \<lparr>pr_MinReplicas = pw_OnsetDesired peak,
          pr_LeadTime = duration_string leadTime,
          pr_PrescaleAt = formatMinute prescaleMinute,
          pr_CronExpression = cronAt prescaleMinute prescaleDOW,
          pr_ReleaseCronExpression = cronAt (pw_EndMinute peak) endDOW,
          pr_KEDATrigger = kedaCronTrigger peak prescaleMinute prescaleDOW endDOW timezone,
          pr_Patch = MustMarshalJSON (PMap [(''spec'', PMap [(''minReplicas'', PInt (pw_OnsetDesired peak))])]),
          pr_Rationale = ''desiredReplicas recurrently reaches '' @ show_int (pw_OnsetDesired peak) @ '' by '' @ pw_Start peak
            @ ''. Raising the floor to '' @ show_int (pw_OnsetDesired peak) @ '' at '' @ formatMinute prescaleMinute @ '' (''
            @ duration_string leadTime
            @ '' ahead of the ramp) lets pods be scheduled, pulled, and ready before demand arrives, instead of after the HPA observes the metric breach.'',
          pr_Confidence = confidenceLabel confidence\<rparr>)"

subsection \<open>When a cron expression fires\<close>

text \<open>The weekdays a field names, and the minutes of the week (Sunday 00:00 is 0) an expression fires at.\<close>

definition part_days :: "string \<Rightarrow> int set" where
  "part_days part = (if part = ''*'' then {0..6} else case cut_at CHR ''-'' part of
     Some (start, stop) \<Rightarrow> (case (atoi start, atoi stop) of (Inr lo, Inr hi) \<Rightarrow> {lo..hi} | _ \<Rightarrow> {})
   | None \<Rightarrow> (case atoi part of Inr d \<Rightarrow> {d} | _ \<Rightarrow> {}))"

definition field_days :: "string \<Rightarrow> int set" where
  "field_days field = (\<Union>part\<in>set (split_on CHR '','' field). part_days part)"

definition fires_at :: "string \<Rightarrow> int \<Rightarrow> bool" where
  "fires_at expr t = (case split_on CHR '' '' expr of
     [m, h, mday, mon, dow] \<Rightarrow> mday = ''*'' \<and> mon = ''*'' \<and> atoi m = Inr (t mod 60) \<and> atoi h = Inr (t mod 1440 div 60)
       \<and> t div 1440 \<in> field_days dow
   | _ \<Rightarrow> False)"

lemma split_on_none: "sep \<notin> set s \<Longrightarrow> split_on sep s = [s]"
  by (induction s) auto

lemma split_on_append: "sep \<notin> set s \<Longrightarrow> split_on sep (s @ sep # t) = s # split_on sep t"
  by (induction s) auto

lemma split_on_join: "ps \<noteq> [] \<Longrightarrow> \<forall>p\<in>set ps. sep \<notin> set p \<Longrightarrow> split_on sep (join_str [sep] ps) = ps"
proof (induction ps)
  case (Cons p ps)
  then show ?case by (cases ps) (auto simp: split_on_none split_on_append)
qed simp

lemma wrap_mod_eq: "0 < b \<Longrightarrow> wrap_mod a b = a mod b"
proof -
  assume b: "0 < b"
  have r: "go_rem x b = (if x < 0 then - ((- x) mod b) else x mod b)" for x
    using b by (auto simp: go_rem_def quot_def sgn_if minus_div_mult_eq_mod [symmetric] algebra_simps)
  have "(- a) mod b \<le> b" "0 \<le> a mod b" using b by (simp_all add: less_imp_le)
  then have "go_rem a b + b \<ge> 0" using b by (simp add: r [of a])
  then have "wrap_mod a b = (go_rem a b + b) mod b" using r [of "go_rem a b + b"] by (simp add: wrap_mod_def)
  also have "\<dots> = a mod b"
    using less_imp_neq [OF pos_mod_bound [OF b, of a]] by (simp add: r [of a] zmod_zminus1_eq_if)
  finally show ?thesis .
qed

lemma floorDiv_eq: "0 < b \<Longrightarrow> floorDiv a b = a div b"
proof -
  assume b: "0 < b"
  show ?thesis
  proof (cases "a < 0")
    case True
    then have q: "quot a b = - ((- a) div b)" using b by (simp add: quot_def sgn_if)
    then have "go_rem a b = - ((- a) mod b)" by (simp add: go_rem_def minus_div_mult_eq_mod [symmetric] algebra_simps)
    then show ?thesis using q b True less_imp_neq [OF pos_mod_bound [OF b, of a]]
      by (auto simp: floorDiv_def Let_def zdiv_zminus1_eq_if zmod_zminus1_eq_if)
  next
    case False
    then have "quot a b = a div b" using b by (simp add: quot_nonneg)
    then show ?thesis using b False by (auto simp: floorDiv_def Let_def)
  qed
qed


text \<open>Decimal texts hold digits only, so the separators of a field split it where they should.\<close>

lemma show_int_digits: "0 \<le> n \<Longrightarrow> list_all is_digit (show_int n)"
  by (simp add: show_int_def digits_of_digits)

lemma show_int_no_sep:
  assumes "0 \<le> n" "\<not> is_digit c"
  shows "c \<notin> set (show_int n)"
  using show_int_digits [OF assms(1)] assms(2) by (auto simp: list_all_iff)

lemma show_int_seps [simp]:
  assumes "0 \<le> n"
  shows "CHR '','' \<notin> set (show_int n)" "CHR ''-'' \<notin> set (show_int n)" "CHR '' '' \<notin> set (show_int n)"
    "show_int n \<noteq> ''*''" "show_int n \<noteq> []"
proof -
  have d: "\<not> is_digit (CHR '','')" "\<not> is_digit (CHR ''-'')" "\<not> is_digit (CHR '' '')" "\<not> is_digit (CHR ''*'')"
    by (simp_all add: is_digit_def)
  show "CHR '','' \<notin> set (show_int n)" "CHR ''-'' \<notin> set (show_int n)" "CHR '' '' \<notin> set (show_int n)"
    using assms d by (simp_all add: show_int_no_sep)
  have "CHR ''*'' \<notin> set (show_int n)" using assms d by (simp add: show_int_no_sep)
  then show "show_int n \<noteq> ''*''" by auto
  show "show_int n \<noteq> []" using assms by (simp add: show_int_def)
qed

lemma atoi_show_int [simp]: "0 \<le> n \<Longrightarrow> n \<le> max_int64 \<Longrightarrow> atoi (show_int n) = Inr n"
  by (simp add: parse_show_int)

lemma cut_at_none [simp]: "c \<notin> set s \<Longrightarrow> cut_at c s = None"
  by (simp add: cut_at_def)

lemma cut_at_append [simp]: "c \<notin> set s \<Longrightarrow> cut_at c (s @ c # t) = Some (s, t)"
  by (simp add: cut_at_def takeWhile_append dropWhile_append)

text \<open>The two shapes of a field that is not a star.\<close>

lemma field_days_list:
  assumes "nums \<noteq> []" "set nums \<subseteq> {0..6}"
  shows "field_days (join_str '','' (map show_int nums)) = set nums"
proof -
  have sp: "split_on CHR '','' (join_str '','' (map show_int nums)) = map show_int nums"
    using assms by (intro split_on_join) auto
  have p: "part_days (show_int d) = {d}" if "d \<in> set nums" for d
  proof -
    have "0 \<le> d" "d \<le> max_int64" using that assms by auto
    then show ?thesis by (simp add: part_days_def)
  qed
  show ?thesis unfolding field_days_def sp using p by auto
qed

lemma field_days_range:
  assumes "0 \<le> lo" "hi \<le> 6" "lo \<le> hi"
  shows "field_days (show_int lo @ ''-'' @ show_int hi) = {lo..hi}"
proof -
  have "CHR '','' \<notin> set (show_int lo @ ''-'' @ show_int hi)" using assms by simp
  moreover have "show_int lo @ ''-'' @ show_int hi \<noteq> ''*''"
    using assms show_int_seps(5) [of lo] by (cases "show_int lo") auto
  ultimately show ?thesis using assms by (simp add: field_days_def split_on_none part_days_def)
qed

lemma field_days_star [simp]: "field_days ''*'' = {0..6}"
  by (simp add: field_days_def part_days_def)

text \<open>A sorted run of distinct numbers as wide as it is long has no gaps.\<close>

lemma dense_run:
  assumes "sorted nums" "distinct nums" "nums \<noteq> []" "last nums - hd nums = int (length nums) - 1"
  shows "set nums = {hd nums..last nums}"
proof -
  have sub: "set nums \<subseteq> {hd nums..last nums}"
  proof
    fix x assume "x \<in> set nums"
    then obtain i where i: "i < length nums" "x = nums ! i" by (auto simp: in_set_conv_nth)
    then have "nums ! 0 \<le> x" "x \<le> nums ! (length nums - 1)"
      using assms(1) by (auto intro: sorted_nth_mono)
    then show "x \<in> {hd nums..last nums}" using assms(3) by (simp add: hd_conv_nth last_conv_nth)
  qed
  have "card {hd nums..last nums} = length nums" using assms(3,4) by (cases nums) auto
  then show ?thesis using sub assms(2) by (intro card_subset_eq) (auto simp: distinct_card)
qed

definition week_days :: "int list \<Rightarrow> bool" where
  "week_days days \<longleftrightarrow> days \<noteq> [] \<and> set days \<subseteq> {0..6}"

lemma week_full:
  assumes "week_days days" "length (sort (remdups days)) = 7"
  shows "set days = {0..6}"
proof -
  have "card (set days) = 7" using assms(2) by (simp add: length_remdups_card_conv)
  then show ?thesis using assms(1) by (intro card_subset_eq) (auto simp: week_days_def)
qed

text \<open>The shapes \<open>cronDayOfWeek\<close> renders, with what each says.\<close>

lemma cron_cases:
  assumes "week_days days"
  obtains (star) "cronDayOfWeek days = ''*''" "set days = {0..6}"
  | (span) lo hi where "cronDayOfWeek days = show_int lo @ ''-'' @ show_int hi" "0 \<le> lo" "lo < hi" "hi \<le> 6"
      "set days = {lo..hi}"
  | (enum) nums where "cronDayOfWeek days = join_str '','' (map show_int nums)" "nums \<noteq> []" "set nums = set days"
      "length nums < 7"
proof -
  define nums where "nums = sort (remdups days)"
  have s: "set nums = set days" "sorted nums" "distinct nums" "nums \<noteq> []"
    using assms by (auto simp: nums_def week_days_def simp flip: set_empty)
  have len: "length nums \<le> 7"
    using card_mono [of "{0..6::int}" "set nums"] assms s
    by (simp add: week_days_def flip: distinct_card)
  have d: "days \<noteq> []" using assms by (simp add: week_days_def)
  consider (a) "length nums = 7" | (b) "length nums = 1" | (c) "length nums \<noteq> 7" "length nums \<ge> 3" "last nums - hd nums = int (length nums) - 1"
    | (e) "length nums \<noteq> 7" "length nums \<noteq> 1" "\<not> (length nums \<ge> 3 \<and> last nums - hd nums = int (length nums) - 1)"
    by blast
  then show thesis
  proof cases
    case a
    have "cronDayOfWeek days = ''*''" using a d by (simp add: cronDayOfWeek_def Let_def flip: nums_def)
    moreover have "set days = {0..6}" using week_full [OF assms] a by (simp add: nums_def)
    ultimately show thesis by (rule star)
  next
    case b
    then obtain n where n: "nums = [n]" by (auto simp: length_Suc_conv)
    have "cronDayOfWeek days = join_str '','' (map show_int nums)"
      using b d n by (simp add: cronDayOfWeek_def Let_def flip: nums_def)
    then show thesis using s b by (intro enum [of nums]) simp_all
  next
    case c
    have "cronDayOfWeek days = show_int (hd nums) @ ''-'' @ show_int (last nums)"
      using c d by (simp add: cronDayOfWeek_def Let_def flip: nums_def)
    moreover have eq: "set days = {hd nums..last nums}" using dense_run [OF s(2,3,4) c(3)] s(1) by simp
    moreover have "hd nums \<in> {0..6}" "last nums \<in> {0..6}"
      using assms s hd_in_set [of nums] last_in_set [of nums] unfolding week_days_def by blast+
    ultimately show thesis using c by (intro span) auto
  next
    case e
    have "cronDayOfWeek days = join_str '','' (map show_int nums)"
      using e d unfolding cronDayOfWeek_def nums_def [symmetric] Let_def by (simp only: if_False)
    then show thesis using s e len by (intro enum [of nums]) simp_all
  qed
qed

text \<open>Rendering a set of weekdays as a cron field and reading the field gives the set back.\<close>

lemma cron_days_roundtrip:
  assumes "week_days days"
  shows "field_days (cronDayOfWeek days) = set days"
  using assms
proof (cases rule: cron_cases)
  case (enum nums)
  then show ?thesis using assms by (simp add: field_days_list week_days_def)
next
  case (span lo hi)
  then show ?thesis using field_days_range [of lo hi] by simp
qed simp


text \<open>Shifting a field moves every day it names, modulo the week.\<close>

lemma shift_parts_list:
  assumes "set nums \<subseteq> {0..6}"
  shows "shift_parts k days (map show_int nums) = Some (days @ map (\<lambda>d. (d + k) mod 7) nums)"
  using assms
proof (induction nums arbitrary: days)
  case (Cons d nums)
  then have "0 \<le> d" "d \<le> max_int64" by auto
  then show ?case using Cons by (simp add: wrap_mod_eq)
qed simp

lemma set_range_days: "0 \<le> lo \<Longrightarrow> hi \<le> 6 \<Longrightarrow> set (range_days lo hi) = {lo..hi}"
proof -
  assume a: "0 \<le> lo" "hi \<le> 6"
  have "x \<in> set (range_days lo hi)" if "lo \<le> x" "x \<le> hi" for x
    unfolding range_days_def using that a
    by (auto intro!: image_eqI [of _ _ "nat (x - lo)"])
  then show ?thesis by (auto simp: range_days_def)
qed

lemma length_range_days: "0 \<le> lo \<Longrightarrow> lo \<le> hi \<Longrightarrow> hi \<le> 6 \<Longrightarrow> length (range_days lo hi) = nat (hi - lo + 1)"
proof -
  assume a: "0 \<le> lo" "lo \<le> hi" "hi \<le> 6"
  have "distinct (range_days lo hi)" by (auto simp: range_days_def distinct_map inj_on_def)
  then have "length (range_days lo hi) = card {lo..hi}"
    using set_range_days [OF a(1,3)] by (metis distinct_card)
  then show ?thesis by simp
qed

lemma star_or_shifted:
  assumes "set ds \<subseteq> {0..6}" "ds \<noteq> []" "length ds = 7 \<Longrightarrow> set ds = {0..6}"
  shows "field_days (if length ds = 7 then ''*'' else cronDayOfWeek ds) = set ds"
  using assms cron_days_roundtrip [of ds] by (simp add: week_days_def)

lemma rotate_week: "(\<lambda>d. (d + k) mod 7) ` {0..6} = {0..6::int}"
proof (rule card_subset_eq)
  have "a = b" if "a \<in> {0..6::int}" "b \<in> {0..6}" "(a + k) mod 7 = (b + k) mod 7" for a b
  proof -
    have "7 dvd a - b" using that(3) by (simp add: mod_eq_dvd_iff)
    then obtain j where j: "a - b = 7 * j" by (auto simp: dvd_def)
    then have "j = 0" using that(1,2) by auto
    then show ?thesis using j by simp
  qed
  then have "inj_on (\<lambda>d. (d + k) mod 7) {0..6}" by (rule inj_onI)
  then show "card ((\<lambda>d. (d + k) mod 7) ` {0..6}) = card {0..6::int}" by (rule card_image)
qed auto

text \<open>The result of a shift, once its parts are read.\<close>

lemma shift_result:
  assumes "s mod 7 \<noteq> 0" "field \<noteq> ''*''" "field \<noteq> []"
    and "shift_parts (s mod 7) [] (split_on CHR '','' field) = Some (map (\<lambda>d. (d + s mod 7) mod 7) ds)"
    and "ds \<noteq> []" "length ds = 7 \<Longrightarrow> set ds = {0..6}"
  shows "field_days (shiftCronDayOfWeek field s) = (\<lambda>d. (d + s) mod 7) ` set ds"
proof -
  let ?f = "\<lambda>d. (d + s mod 7) mod 7"
  have f: "?f = (\<lambda>d. (d + s) mod 7)" by (rule ext) (simp add: mod_add_right_eq)
  have "shiftCronDayOfWeek field s = (if length (map ?f ds) = 7 then ''*'' else cronDayOfWeek (map ?f ds))"
    using assms(1,2,3,4) by (simp add: shiftCronDayOfWeek_def wrap_mod_eq)
  moreover have "field_days \<dots> = set (map ?f ds)"
  proof (rule star_or_shifted)
    show "set (map ?f ds) \<subseteq> {0..6}" by auto
    show "set (map ?f ds) = {0..6}" if "length (map ?f ds) = 7"
      using assms(6) that rotate_week [of "s mod 7"] by simp
  qed (use assms(5) in simp)
  ultimately show ?thesis using f by simp
qed

lemma shift_days:
  assumes "week_days days"
  shows "field_days (shiftCronDayOfWeek (cronDayOfWeek days) s) = (\<lambda>d. (d + s) mod 7) ` set days"
proof (cases "s mod 7 = 0")
  case True
  have "(d + s) mod 7 = d" if "d \<in> set days" for d
  proof -
    have "d \<in> {0..6}" using that assms by (auto simp: week_days_def)
    then show ?thesis using True mod_add_right_eq [of d s 7] by simp
  qed
  then have "(\<lambda>d. (d + s) mod 7) ` set days = set days" by simp
  then show ?thesis using True assms by (simp add: shiftCronDayOfWeek_def wrap_mod_eq cron_days_roundtrip)
next
  case k: False
  from assms show ?thesis
  proof (cases rule: cron_cases)
    case star
    then show ?thesis using rotate_week [of s] by (simp add: shiftCronDayOfWeek_def Let_def)
  next
    case (span lo hi)
    let ?field = "show_int lo @ ''-'' @ show_int hi"
    have sp: "split_on CHR '','' ?field = [?field]" using span by (intro split_on_none) auto
    have "shift_parts (s mod 7) [] [?field] = Some (map (\<lambda>d. (d + s mod 7) mod 7) (range_days lo hi))"
      using span by (simp add: wrap_mod_eq)
    moreover have "?field \<noteq> ''*''" "?field \<noteq> []" using span show_int_seps(5) [of lo] by (cases "show_int lo"; auto)+
    moreover have "range_days lo hi \<noteq> []" "set (range_days lo hi) = set days"
      "length (range_days lo hi) = 7 \<Longrightarrow> set (range_days lo hi) = {0..6}"
      using span set_range_days [of lo hi] length_range_days [of lo hi] by (auto simp flip: set_empty)
    ultimately show ?thesis using shift_result [OF k, of ?field "range_days lo hi"] sp span(1) by simp
  next
    case (enum nums)
    let ?field = "join_str '','' (map show_int nums)"
    have wk: "set nums \<subseteq> {0..6}" using assms enum(3) by (simp add: week_days_def)
    have sp: "split_on CHR '','' ?field = map show_int nums"
      using enum(2) wk by (intro split_on_join) auto
    have ne: "?field \<noteq> ''*''" "?field \<noteq> []"
    proof -
      have "split_on CHR '','' ''*'' = [''*'']" "split_on CHR '','' [] = [[]]" by simp_all
      moreover have "map show_int nums \<noteq> [''*'']" "map show_int nums \<noteq> [[]]" using wk by auto
      ultimately show "?field \<noteq> ''*''" "?field \<noteq> []" using sp by metis+
    qed
    show ?thesis
      using shift_result [OF k ne, of nums] sp enum shift_parts_list [OF wk, of "s mod 7" "[]"] by simp
  qed
qed

subsection \<open>When the recommended schedule fires\<close>

text \<open>A rendered expression fires at its minute of the day, on the days its field names.\<close>

lemma same_minute: "(a :: int) = b \<longleftrightarrow> a mod 60 = b mod 60 \<and> a div 60 = b div 60"
  by (metis div_mult_mod_eq)

lemma cronAt_fields:
  assumes "0 \<le> m" "m < 1440" "wrap_mod minute 1440 = m" "CHR '' '' \<notin> set dow"
  shows "split_on CHR '' '' (cronAt minute dow) = [show_int (m mod 60), show_int (m div 60), ''*'', ''*'', dow]"
proof -
  have "0 \<le> m div 60" "0 \<le> m mod 60" using assms(1) by (simp_all add: pos_imp_zdiv_nonneg_iff)
  moreover have "go_rem m 60 = m mod 60" "quot m 60 = m div 60"
    using assms(1) by (simp_all add: go_rem_nonneg quot_nonneg)
  ultimately show ?thesis
    using assms(3,4) by (simp add: cronAt_def Let_def split_on_append split_on_none)
qed

lemma cronAt_fires:
  assumes "CHR '' '' \<notin> set dow"
  shows "fires_at (cronAt minute dow) t \<longleftrightarrow> t mod 1440 = minute mod 1440 \<and> t div 1440 \<in> field_days dow"
proof -
  define m where "m = minute mod 1440"
  have m: "0 \<le> m" "m < 1440" "wrap_mod minute 1440 = m" by (simp_all add: m_def wrap_mod_eq)
  have r: "m mod 60 < 60" "m div 60 \<le> 24" "0 \<le> m mod 60" "0 \<le> m div 60" using m(1,2) by simp_all
  have a: "atoi (show_int (m mod 60)) = Inr (m mod 60)" "atoi (show_int (m div 60)) = Inr (m div 60)"
    using r by (intro atoi_show_int; linarith)+
  have "t mod 1440 = m \<longleftrightarrow> t mod 60 = m mod 60 \<and> t mod 1440 div 60 = m div 60"
    using same_minute [of "t mod 1440" m] by (simp add: mod_mod_cancel)
  then show ?thesis
    unfolding fires_at_def cronAt_fields [OF m assms] m_def [symmetric] list.case a by auto
qed

lemma show_int_no_space: "CHR '' '' \<notin> set (show_int n)"
proof -
  have "CHR '' '' \<notin> set (digits_of m)" if "0 \<le> m" for m
    using digits_of_digits [OF that] by (auto simp: list_all_iff is_digit_def)
  then show ?thesis by (simp add: show_int_def)
qed

lemma join_no_space: "\<forall>s\<in>set ss. CHR '' '' \<notin> set s \<Longrightarrow> CHR '' '' \<notin> set sep \<Longrightarrow> CHR '' '' \<notin> set (join_str sep ss)"
  by (induction sep ss rule: join_str.induct) auto

lemma dow_no_space: "CHR '' '' \<notin> set (cronDayOfWeek days)"
  using join_no_space [of "map show_int (sort (remdups days))" "'',''"]
  by (simp add: cronDayOfWeek_def Let_def show_int_no_space)

lemma shifted_no_space: "CHR '' '' \<notin> set field \<Longrightarrow> CHR '' '' \<notin> set (shiftCronDayOfWeek field k)"
  by (simp add: shiftCronDayOfWeek_def Let_def dow_no_space split: option.splits)

text \<open>
  What the recommendation promises, over minutes of the week: the floor is raised \<open>lead\<close> minutes
  before the window opens on every scheduled day, also when that is the day before.
\<close>

definition scheduled_days :: "int list \<Rightarrow> bool \<Rightarrow> int set" where
  "scheduled_days days narrowed = (if narrowed then set days else {0..6})"

lemma week_minute:
  fixes t d m :: int
  assumes "0 \<le> t" "t < 10080" "0 \<le> d" "d \<le> 6"
  shows "t = (d * 1440 + m) mod 10080 \<longleftrightarrow> t mod 1440 = m mod 1440 \<and> t div 1440 = (d + m div 1440) mod 7"
proof -
  let ?u = "(d + m div 1440) mod 7"
  have "d * 1440 + m = (d + m div 1440) * 1440 + m mod 1440" by (simp add: algebra_simps)
  also have "\<dots> mod 10080 = ?u * 1440 + m mod 1440"
  proof -
    have "((d + m div 1440) * 1440 + m mod 1440) mod (1440 * 7) =
      1440 * (((d + m div 1440) * 1440 + m mod 1440) div 1440 mod 7) + ((d + m div 1440) * 1440 + m mod 1440) mod 1440"
      by (rule zmod_zmult2_eq) simp
    then show ?thesis by simp
  qed
  finally have e: "(d * 1440 + m) mod 10080 = ?u * 1440 + m mod 1440" .
  have "0 \<le> m mod 1440" "m mod 1440 < 1440" by simp_all
  then have "(?u * 1440 + m mod 1440) mod 1440 = m mod 1440" "(?u * 1440 + m mod 1440) div 1440 = ?u" by simp_all
  moreover have "t = t div 1440 * 1440 + t mod 1440" by simp
  ultimately show ?thesis unfolding e by metis
qed

lemma schedule_fires:
  assumes "narrowed \<Longrightarrow> week_days days" and dow: "dow = (if narrowed then cronDayOfWeek days else ''*'')"
  shows "fires_at (cronAt minute (shiftCronDayOfWeek dow k)) t \<longleftrightarrow>
    (\<exists>d\<in>scheduled_days days narrowed. t mod 1440 = minute mod 1440 \<and> t div 1440 = (d + k) mod 7)"
proof -
  have "CHR '' '' \<notin> set (shiftCronDayOfWeek dow k)"
    using dow_no_space [of days] by (intro shifted_no_space) (simp add: dow)
  moreover have "field_days (shiftCronDayOfWeek dow k) = (\<lambda>d. (d + k) mod 7) ` scheduled_days days narrowed"
  proof (cases narrowed)
    case True
    then show ?thesis using shift_days [OF assms(1)] by (simp add: dow scheduled_days_def)
  next
    case False
    then show ?thesis using rotate_week [of k]
      by (simp add: dow scheduled_days_def shiftCronDayOfWeek_def Let_def)
  qed
  ultimately show ?thesis by (auto simp: cronAt_fires)
qed

lemma scheduled_days_week: "(narrowed \<Longrightarrow> week_days days) \<Longrightarrow> d \<in> scheduled_days days narrowed \<Longrightarrow> 0 \<le> d \<and> d \<le> 6"
  by (auto simp: scheduled_days_def week_days_def split: if_splits)

theorem prescale_fires:
  assumes "narrowed \<Longrightarrow> week_days days" "0 \<le> t" "t < 10080"
  shows "fires_at (pr_CronExpression (buildRecommendation peak days narrowed lead tz conf)) t
    \<longleftrightarrow> (\<exists>d\<in>scheduled_days days narrowed. t = (d * 1440 + (pw_StartMinute peak - lead_minutes lead)) mod 10080)"
  using scheduled_days_week [OF assms(1)]
  by (auto simp: buildRecommendation_def Let_def schedule_fires [OF assms(1)] floorDiv_eq week_minute [OF assms(2,3)])

theorem release_fires:
  assumes "narrowed \<Longrightarrow> week_days days" "0 \<le> t" "t < 10080" "0 \<le> pw_EndMinute peak" "pw_EndMinute peak < 1440"
  shows "fires_at (pr_ReleaseCronExpression (buildRecommendation peak days narrowed lead tz conf)) t
    \<longleftrightarrow> (\<exists>d\<in>scheduled_days days narrowed.
          t = (d * 1440 + (pw_EndMinute peak + (if pw_CrossesMidnight peak then 1440 else 0))) mod 10080)"
proof -
  let ?dow = "if narrowed then cronDayOfWeek days else ''*''"
  let ?k = "if pw_CrossesMidnight peak then 1 else 0 :: int"
  have "pr_ReleaseCronExpression (buildRecommendation peak days narrowed lead tz conf) =
    cronAt (pw_EndMinute peak) (shiftCronDayOfWeek ?dow ?k)"
    by (simp add: buildRecommendation_def Let_def shiftCronDayOfWeek_def wrap_mod_def go_rem_def quot_def)
  moreover have "(pw_EndMinute peak + ?k * 1440) div 1440 = ?k" "(pw_EndMinute peak + ?k * 1440) mod 1440 = pw_EndMinute peak mod 1440"
    using assms(4,5) by simp_all
  ultimately show ?thesis
    using scheduled_days_week [OF assms(1)]
    by (auto simp: schedule_fires [OF assms(1) refl] week_minute [OF assms(2,3)])
qed

end
