(* ===== verification/FloatOrder.thy ===== *)
theory FloatOrder
  imports Float64 "HOL-Library.Multiset"
begin

section \<open>Ordered floats\<close>

text \<open>
  The order \<open>sort.Float64s\<close> sorts by (not-a-number first, then by value) as an instance of
  \<open>linorder\<close>, so that the sorts of the library apply to slices of floats, and the statistics the
  analyses share: medians, \<open>math.Max\<close> and \<open>math.Nextafter\<close> upwards.
\<close>

instantiation f64 :: linorder
begin

definition less_eq_f64 :: "f64 \<Rightarrow> f64 \<Rightarrow> bool" where
  "less_eq_f64 a b \<longleftrightarrow> a = b \<or> f_lt a b \<or> a = NaN"

definition less_f64 :: "f64 \<Rightarrow> f64 \<Rightarrow> bool" where
  "less_f64 a b \<longleftrightarrow> f_lt a b \<or> a = NaN \<and> b \<noteq> NaN"

instance
proof
  fix a b c :: f64
  show "a < b \<longleftrightarrow> a \<le> b \<and> \<not> b \<le> a"
    by (cases a; cases b) (auto simp: less_f64_def less_eq_f64_def)
  show "a \<le> a" by (simp add: less_eq_f64_def)
  show "a \<le> b \<Longrightarrow> b \<le> c \<Longrightarrow> a \<le> c"
    by (cases a; cases b; cases c) (auto simp: less_eq_f64_def)
  show "a \<le> b \<Longrightarrow> b \<le> a \<Longrightarrow> a = b"
    by (cases a; cases b) (auto simp: less_eq_f64_def)
  show "a \<le> b \<or> b \<le> a"
    by (cases a; cases b) (auto simp: less_eq_f64_def)
qed

end

definition f_max :: "f64 \<Rightarrow> f64 \<Rightarrow> f64" where
  "f_max a b = (if a = PInf \<or> b = PInf then PInf else if a = NaN \<or> b = NaN then NaN
     else if f_lt b a then a else b)"

text \<open>The least float above \<open>a\<close>.\<close>

definition next_up :: "f64 \<Rightarrow> f64" where
  "next_up a = (case a of
     Fin x \<Rightarrow> (if x = 0 then Fin (2 powi (- 1074))
       else if 0 < x then (let r = x + 2 powi ulp_exp x in if f64_limit \<le> r then PInf else Fin r)
       else (let y = - x; e = ulp_exp y; e' = (if y = 2 powi flog2 y then max (e - 1) (- 1074) else e)
             in Fin (- (y - 2 powi e'))))
   | NInf \<Rightarrow> Fin (- (2 powi 1024 - 2 powi 971))
   | _ \<Rightarrow> a)"

definition f_median :: "f64 list \<Rightarrow> f64" where
  "f_median vs =
     (if vs = [] then Fin 0
      else let s = sort vs; m = length s div 2
           in if length s mod 2 = 1 then s ! m else f_div (f_add (s ! (m - 1)) (s ! m)) (Fin 2))"

lemma f_le_not_nan: "a \<noteq> NaN \<Longrightarrow> f_le a b \<longleftrightarrow> b \<noteq> NaN \<and> a \<le> b"
  by (cases a; cases b) (auto simp: f_le_def f_eq_def less_eq_f64_def)

lemma f_lt_less: "a \<noteq> NaN \<Longrightarrow> f_lt a b \<longleftrightarrow> a < b"
  by (simp add: less_f64_def)

lemma f_le_trans: "f_le a b \<Longrightarrow> f_le b c \<Longrightarrow> f_le a c"
  by (cases a; cases b; cases c) (auto simp: f_le_def f_eq_def)

lemma f_median_perm: "mset xs = mset ys \<Longrightarrow> f_median xs = f_median ys"
proof -
  assume m: "mset xs = mset ys"
  have "sort xs = sort ys" using m by (intro properties_for_sort) auto
  moreover have "xs = [] \<longleftrightarrow> ys = []" using m by auto
  ultimately show ?thesis by (simp add: f_median_def)
qed

text \<open>Sums of non-negative values that are not NaN stay so.\<close>

definition f_nonneg :: "f64 \<Rightarrow> bool" where
  "f_nonneg a \<longleftrightarrow> f_le (Fin 0) a"

lemma f_nonneg_cases: "f_nonneg a \<longleftrightarrow> a = PInf \<or> (\<exists>x. a = Fin x \<and> 0 \<le> x)"
  by (cases a) (auto simp: f_nonneg_def f_le_def f_eq_def)

lemma f_nonneg_nan: "f_nonneg a \<Longrightarrow> a \<noteq> NaN"
  by (auto simp: f_nonneg_cases)

lemma mk_nonneg: "0 \<le> x \<Longrightarrow> f_nonneg (mk x)"
  by (rule mk_nonneg_cases [of x]) (auto simp: f_nonneg_cases)

lemma f_add_nonneg: "f_nonneg a \<Longrightarrow> f_nonneg b \<Longrightarrow> f_nonneg (f_add a b)"
  using mk_nonneg by (auto simp: f_nonneg_cases) (metis add_nonneg_nonneg)

lemma f_sub_nonneg: "f_le (Fin b) a \<Longrightarrow> f_nonneg (f_sub a (Fin b))"
proof (cases a)
  case (Fin x)
  assume "f_le (Fin b) a"
  then have "0 \<le> x - b" using Fin by (auto simp: f_le_def f_eq_def)
  then show ?thesis using mk_nonneg [of "x - b"] Fin by (simp add: f_sub_def f_neg_def)
qed (auto simp: f_sub_def f_neg_def f_le_def f_eq_def f_nonneg_cases)

end
