(* ===== verification/Seasonality.thy ===== *)
theory Seasonality
  imports SeasonCron FloatOrder Events
begin

section \<open>Recurring demand\<close>

text \<open>
  \<open>pkg/hpa/seasonality/seasonality.go\<close> and \<open>types.go\<close>: recorded readings are folded into one profile
  per local calendar day, the profiles into one time-of-day shape, and the strongest run of buckets
  above a threshold becomes the peak window of a pre-scaling schedule. An instant is its number of
  nanoseconds; a bucket index is a natural number. The time zone is the argument \<open>clock\<close>, which reads
  an instant on the local calendar: the zone data base is not part of the program.
\<close>

subsection \<open>Readings, profiles and options\<close>

record metric_sample =
  ms_Name :: string
  ms_Value :: f64
  ms_Unit :: string

record observation =
  ob_Timestamp :: int
  ob_Desired :: int
  ob_Metrics :: "metric_sample list"

datatype signal = SignalAuto | SignalReplicas | SignalMetric

text \<open>The zone is the clock together with its name; a nil zone is \<^const>\<open>None\<close>.\<close>

record local_clock =
  lc_date :: string
  lc_next :: string
  lc_weekday :: int
  lc_hour :: int
  lc_minute :: int

type_synonym zone = "string \<times> (int \<Rightarrow> local_clock)"

record season_options =
  so_BucketMinutes :: int
  so_MinDays :: int
  so_LeadTime :: int
  so_PeakRatio :: f64
  so_Location :: "zone option"
  so_Signal :: signal

record season_analysis =
  sa_Detected :: bool
  sa_InsufficientData :: bool
  sa_Cycle :: string
  sa_Signal :: string
  sa_SignalUnit :: string
  sa_Timezone :: string
  sa_BucketMinutes :: int
  sa_DaysObserved :: int
  sa_SpanHours :: f64
  sa_Baseline :: f64
  sa_Threshold :: f64
  sa_Peak :: "peak_window option"
  sa_Confidence :: f64
  sa_Recommendation :: "prescale_recommendation option"
  sa_Notes :: "string list"

definition with_defaults :: "zone \<Rightarrow> season_options \<Rightarrow> season_options" where
  "with_defaults time_Local o0 =
     \<lparr>so_BucketMinutes = (if so_BucketMinutes o0 \<le> 0 \<or> so_BucketMinutes o0 > minutesPerDay
        \<or> go_rem minutesPerDay (so_BucketMinutes o0) \<noteq> 0 then 30 else so_BucketMinutes o0),
      so_MinDays = (if so_MinDays o0 < 2 then 2 else so_MinDays o0),
      so_LeadTime = (if so_LeadTime o0 \<le> 0 then 15 * Minute else so_LeadTime o0),
      so_PeakRatio = (if f_le (so_PeakRatio o0) (Fin 1) then Fin (3 / 2) else so_PeakRatio o0),
      so_Location = (case so_Location o0 of None \<Rightarrow> Some time_Local | Some z \<Rightarrow> Some z),
      so_Signal = so_Signal o0\<rparr>"

fun metricValue :: "metric_sample list \<Rightarrow> string \<Rightarrow> f64 option" where
  "metricValue [] name = None"
| "metricValue (s # ss) name = (if ms_Name s = name then Some (ms_Value s) else metricValue ss name)"

record dayProfile =
  dp_date :: string
  dp_nextDate :: string
  dp_weekday :: int
  dp_signal :: "f64 list"
  dp_desired :: "int list"

subsection \<open>The profiled signal\<close>

text \<open>The distinct metric names of one observation, and how many observations carry a name.\<close>

definition carries :: "string \<Rightarrow> observation \<Rightarrow> bool" where
  "carries name ob = (name \<in> ms_Name ` set (ob_Metrics ob))"

definition coverage :: "observation list \<Rightarrow> string \<Rightarrow> nat" where
  "coverage obs name = length (filter (carries name) obs)"

definition metric_unit :: "observation list \<Rightarrow> string \<Rightarrow> string" where
  "metric_unit obs name = (case filter (\<lambda>s. ms_Name s = name) (concat (map ob_Metrics obs)) of
     [] \<Rightarrow> [] | s # ss \<Rightarrow> ms_Unit s)"

text \<open>
  The loop over the map of the counted names, in the order \<open>names\<close> it happens to be ranged over; the empty
  name marks that no candidate was found yet.
\<close>

definition best_step :: "observation list \<Rightarrow> signal \<Rightarrow> string \<Rightarrow> string \<Rightarrow> string" where
  "best_step obs want candidate best =
     (let n = coverage obs candidate
      in if n \<le> length obs div 2 \<and> want \<noteq> SignalMetric then best
         else if best = [] \<or> n > coverage obs best \<or> (n = coverage obs best \<and> candidate < best) then candidate
         else best)"

definition selectSignal :: "string list \<Rightarrow> observation list \<Rightarrow> signal \<Rightarrow> string \<times> string \<times> bool \<times> bool" where
  "selectSignal names obs want =
     (if want = SignalReplicas then ([], [], False, True)
      else let best = fold (best_step obs want) names []
           in if best = [] then (if want = SignalMetric then ([], [], True, False) else ([], [], False, True))
              else (best, metric_unit obs best, True, True))"

definition signalLabel :: "bool \<Rightarrow> string \<Rightarrow> string" where
  "signalLabel useMetric name = (if \<not> useMetric then ''replicas'' else ''metric:'' @ name)"

definition unitSep :: "string \<Rightarrow> string" where
  "unitSep u = (if u = ''%'' then [] else '' '')"

subsection \<open>Day profiles\<close>

text \<open>The map from dates to profiles, updated by one observation.\<close>

definition new_day :: "nat \<Rightarrow> local_clock \<Rightarrow> dayProfile" where
  "new_day buckets c = \<lparr>dp_date = lc_date c, dp_nextDate = lc_next c, dp_weekday = lc_weekday c,
     dp_signal = replicate buckets (Fin (- 1)), dp_desired = replicate buckets (- 1)\<rparr>"

definition bucket_index :: "int \<Rightarrow> nat \<Rightarrow> local_clock \<Rightarrow> nat" where
  "bucket_index bucketMinutes buckets c =
     (let idx = nat (quot (lc_hour c * 60 + lc_minute c) bucketMinutes) in if idx \<ge> buckets then buckets - 1 else idx)"

definition raise_at :: "('v \<Rightarrow> 'v \<Rightarrow> bool) \<Rightarrow> 'v \<Rightarrow> nat \<Rightarrow> 'v list \<Rightarrow> 'v list" where
  "raise_at lt v i xs = (if lt (xs ! i) v then xs[i := v] else xs)"

definition reading :: "string \<Rightarrow> bool \<Rightarrow> observation \<Rightarrow> f64 option" where
  "reading metricName useMetric ob =
     (if useMetric then metricValue (ob_Metrics ob) metricName else Some (f_of_int (ob_Desired ob)))"

definition profile_step :: "(int \<Rightarrow> local_clock) \<Rightarrow> int \<Rightarrow> nat \<Rightarrow> string \<Rightarrow> bool \<Rightarrow> observation
    \<Rightarrow> (string \<rightharpoonup> dayProfile) \<Rightarrow> (string \<rightharpoonup> dayProfile)" where
  "profile_step clock bucketMinutes buckets metricName useMetric ob byDate =
     (let c = clock (ob_Timestamp ob);
          day = (case byDate (lc_date c) of None \<Rightarrow> new_day buckets c | Some d \<Rightarrow> d);
          idx = bucket_index bucketMinutes buckets c;
          day1 = day\<lparr>dp_desired := raise_at (<) (ob_Desired ob) idx (dp_desired day)\<rparr>;
          day2 = (case reading metricName useMetric ob of None \<Rightarrow> day1
            | Some v \<Rightarrow> day1\<lparr>dp_signal := raise_at f_lt v idx (dp_signal day1)\<rparr>)
      in byDate(lc_date c \<mapsto> day2))"

definition buildDayProfiles :: "(int \<Rightarrow> local_clock) \<Rightarrow> observation list \<Rightarrow> int \<Rightarrow> nat \<Rightarrow> string \<Rightarrow> bool \<Rightarrow> dayProfile list" where
  "buildDayProfiles clock obs bucketMinutes buckets metricName useMetric =
     (let byDate = fold (profile_step clock bucketMinutes buckets metricName useMetric) obs Map.empty;
          dates = sort (remdups (map (\<lambda>ob. lc_date (clock (ob_Timestamp ob))) obs))
      in map (\<lambda>d. the (byDate d)) dates)"

subsection \<open>The time-of-day shape\<close>

text \<open>One bucket: the mean over the days that observed it, when there is one.\<close>

definition average_bucket :: "('b \<Rightarrow> bool) \<Rightarrow> ('b \<Rightarrow> f64) \<Rightarrow> 'b list list \<Rightarrow> nat \<Rightarrow> f64 option" where
  "average_bucket unseen val columns b =
     (let vs = filter (\<lambda>v. \<not> unseen v) (map (\<lambda>xs. xs ! b) columns)
      in if vs = [] then None
         else Some (f_div (foldl (\<lambda>s v. f_add s (val v)) (Fin 0) vs) (f_of_int (int (length vs)))))"

definition averageBuckets :: "('b \<Rightarrow> bool) \<Rightarrow> ('b \<Rightarrow> f64) \<Rightarrow> 'b list list \<Rightarrow> nat \<Rightarrow> f64 list \<times> bool list" where
  "averageBuckets unseen val columns buckets =
     (map (\<lambda>b. case average_bucket unseen val columns b of None \<Rightarrow> Fin 0 | Some v \<Rightarrow> v) [0..<buckets],
      map (\<lambda>b. average_bucket unseen val columns b \<noteq> None) [0..<buckets])"

definition coveredValues :: "f64 list \<Rightarrow> bool list \<Rightarrow> f64 list" where
  "coveredValues profile covered = map fst (filter snd (zip profile covered))"

subsection \<open>The peak run\<close>

definition above :: "f64 list \<Rightarrow> bool list \<Rightarrow> f64 \<Rightarrow> nat \<Rightarrow> bool" where
  "above profile covered threshold b = (let i = b mod length profile in covered ! i \<and> f_le threshold (profile ! i))"

text \<open>The inner loop: \<open>left\<close> buckets may still be taken.\<close>

fun run_from :: "f64 list \<Rightarrow> bool list \<Rightarrow> f64 \<Rightarrow> nat \<Rightarrow> nat \<Rightarrow> f64 \<times> nat \<Rightarrow> f64 \<times> nat" where
  "run_from profile covered threshold b 0 (excess, len) = (excess, len)"
| "run_from profile covered threshold b (Suc left) (excess, len) =
     (if above profile covered threshold (b + len)
      then run_from profile covered threshold b left
        (f_add excess (f_sub (profile ! ((b + len) mod length profile)) threshold), len + 1)
      else (excess, len))"

definition peak_step :: "f64 list \<Rightarrow> bool list \<Rightarrow> f64 \<Rightarrow> nat \<Rightarrow> nat \<times> nat \<times> f64 \<Rightarrow> nat \<times> nat \<times> f64" where
  "peak_step profile covered threshold b best =
     (let n = length profile; (bestStart, bestLen, bestExcess) = best
      in if \<not> above profile covered threshold b \<or> above profile covered threshold (b + n - 1) then best
         else let (excess, len) = run_from profile covered threshold b n (Fin 0, 0)
              in if f_lt bestExcess excess \<or> (f_eq excess bestExcess \<and> len > bestLen) then (b mod n, len, excess)
                 else best)"

definition findPeakRun :: "f64 list \<Rightarrow> bool list \<Rightarrow> f64 \<Rightarrow> (nat \<times> nat) option" where
  "findPeakRun profile covered threshold =
     (let n = length profile
      in if list_all (above profile covered threshold) [0..<n] then None
         else let (bestStart, bestLen, bestExcess) = fold (peak_step profile covered threshold) [0..<2 * n] (0, 0, Fin 0)
              in if bestLen = 0 then None else Some (bestStart, bestLen))"

subsection \<open>The peak window\<close>

definition builtin_max :: "f64 \<Rightarrow> f64 \<Rightarrow> f64" where
  "builtin_max a b = (if a = NaN \<or> b = NaN then NaN else if f_lt a b then b else a)"

definition day_of :: "dayProfile list \<Rightarrow> string \<Rightarrow> dayProfile option" where
  "day_of days date = map_of (rev (map (\<lambda>d. (dp_date d, d)) days)) date"

definition peak_day_step :: "dayProfile \<Rightarrow> dayProfile list \<Rightarrow> nat \<Rightarrow> nat \<Rightarrow> nat \<Rightarrow> int \<times> f64 \<Rightarrow> int \<times> f64" where
  "peak_day_step day days start buckets i acc =
     (let bucket = (start + i) mod buckets;
          profile = (if start + i \<ge> buckets then day_of days (dp_nextDate day) else Some day)
      in case profile of None \<Rightarrow> acc
       | Some p \<Rightarrow> (max (fst acc) (dp_desired p ! bucket), builtin_max (snd acc) (dp_signal p ! bucket)))"

definition peakDayMaxima :: "dayProfile \<Rightarrow> dayProfile list \<Rightarrow> nat \<Rightarrow> nat \<Rightarrow> nat \<Rightarrow> int \<times> f64" where
  "peakDayMaxima day days start len buckets = fold (peak_day_step day days start buckets) [0..<len] (- 1, Fin (- 1))"

text \<open>Whether a day has readings in the window, and whether it exhibits the peak.\<close>

definition day_covered :: "dayProfile list \<Rightarrow> nat \<Rightarrow> nat \<Rightarrow> nat \<Rightarrow> dayProfile \<Rightarrow> bool" where
  "day_covered days start len buckets day =
     (let (dayMax, signalMax) = peakDayMaxima day days start len buckets in dayMax \<ge> 0 \<or> f_le (Fin 0) signalMax)"

definition day_matched :: "dayProfile list \<Rightarrow> nat \<Rightarrow> nat \<Rightarrow> nat \<Rightarrow> f64 \<Rightarrow> dayProfile \<Rightarrow> bool" where
  "day_matched days start len buckets threshold day =
     (let (dayMax, signalMax) = peakDayMaxima day days start len buckets in f_le (Fin 0) signalMax \<and> f_le threshold signalMax)"

text \<open>Weekdays in their Monday-first order, and their names.\<close>

definition weekday_rank :: "int \<Rightarrow> int" where
  "weekday_rank wd = (if wd = 0 then 7 else wd)"

definition weekday_names :: "string list" where
  "weekday_names = [''Sun'', ''Mon'', ''Tue'', ''Wed'', ''Thu'', ''Fri'', ''Sat'']"

definition weekdayNames :: "int list \<Rightarrow> string list" where
  "weekdayNames days = map (\<lambda>wd. weekday_names ! nat wd) days"

definition matchedWeekdays :: "dayProfile list \<Rightarrow> (dayProfile \<Rightarrow> bool) \<Rightarrow> int list" where
  "matchedWeekdays days matched = sort_key weekday_rank (remdups (map dp_weekday (filter matched days)))"

definition buildPeakWindow :: "dayProfile list \<Rightarrow> nat \<Rightarrow> nat \<Rightarrow> nat \<Rightarrow> int \<Rightarrow> f64 \<Rightarrow> bool \<Rightarrow> peak_window" where
  "buildPeakWindow days start len buckets bucketMinutes threshold useMetric =
     (let matched = filter (day_matched days start len buckets threshold) days;
          maxima = map (\<lambda>d. peakDayMaxima d days start len buckets) matched;
          peaks = map f_of_int (filter (\<lambda>m. m \<ge> 0) (map fst maxima));
          onsets = map f_of_int (filter (\<lambda>v. v \<ge> 0) (map (\<lambda>d. dp_desired d ! start) matched));
          signalPeaks = (if useMetric then map snd maxima else []);
          startMinute = int start * bucketMinutes;
          endMinute = int ((start + len) mod buckets) * bucketMinutes;
          peak = wrap32 (f_trunc (f_ceil (f_median peaks)));
          onset = wrap32 (f_trunc (f_ceil (f_median onsets)))
      in \<lparr>pw_StartMinute = startMinute, pw_EndMinute = endMinute,
          pw_Start = formatMinute startMinute, pw_End = formatMinute endMinute,
          pw_CrossesMidnight = (start + len \<ge> buckets),
          pw_PeakDesired = peak,
          pw_PeakSignal = (if useMetric then f_median signalPeaks else Fin 0),
          pw_OnsetDesired = (if onset \<le> 0 then peak else onset),
          pw_Weekdays = weekdayNames (matchedWeekdays days (day_matched days start len buckets threshold)),
          pw_DaysMatched = 0, pw_DaysCovered = 0\<rparr>)"

subsection \<open>The schedule\<close>

text \<open>The loop over the tallies in any order \<open>wds\<close> of the weekdays seen; \<^const>\<open>None\<close> is its early return.\<close>

definition weekday_tally :: "dayProfile list \<Rightarrow> (dayProfile \<Rightarrow> bool) \<Rightarrow> int \<Rightarrow> nat \<times> nat" where
  "weekday_tally days matched wd = (let ds = filter (\<lambda>d. dp_weekday d = wd) days in (length ds, length (filter matched ds)))"

fun schedule_loop :: "dayProfile list \<Rightarrow> (dayProfile \<Rightarrow> bool) \<Rightarrow> int list \<Rightarrow> int list \<times> int list \<Rightarrow> (int list \<times> int list) option" where
  "schedule_loop days matched [] acc = Some acc"
| "schedule_loop days matched (wd # wds) acc =
     (let (covered, hits) = weekday_tally days matched wd
      in if covered < 2 then None
         else if hits = covered then schedule_loop days matched wds (fst acc @ [wd], snd acc)
         else if hits = 0 then schedule_loop days matched wds (fst acc, snd acc @ [wd])
         else None)"

definition scheduleWeekdays :: "int list \<Rightarrow> dayProfile list \<Rightarrow> (dayProfile \<Rightarrow> bool) \<Rightarrow> int list \<times> bool" where
  "scheduleWeekdays wds days matched =
     (case schedule_loop days matched wds ([], []) of
        None \<Rightarrow> ([], False)
      | Some (qualifying, excluded) \<Rightarrow>
          if qualifying = [] \<or> excluded = [] then ([], False) else (sort_key weekday_rank qualifying, True))"

definition countScheduled :: "dayProfile list \<Rightarrow> (dayProfile \<Rightarrow> bool) \<Rightarrow> (dayProfile \<Rightarrow> bool) \<Rightarrow> int list \<Rightarrow> nat \<times> nat" where
  "countScheduled days matched coveredDay schedule =
     (let ds = filter (\<lambda>d. (schedule = [] \<or> dp_weekday d \<in> set schedule) \<and> coveredDay d) days
      in (length (filter matched ds), length ds))"

subsection \<open>Notes\<close>

definition observed_badge :: string where "observed_badge = ''[observed]''"
definition estimated_badge :: string where "estimated_badge = ''[estimated]''"

definition spanHours :: "observation list \<Rightarrow> f64" where
  "spanHours obs = (let ts = map ob_Timestamp obs in dur_hours (Sub (fold max (tl ts) (hd ts)) (fold min (tl ts) (hd ts))))"

definition detectionNotes :: "season_analysis \<Rightarrow> peak_window \<Rightarrow> nat \<Rightarrow> f64 \<Rightarrow> string list" where
  "detectionNotes r peak totalDays replicaBaseline =
     (observed_badge @ '' the recording spans '' @ show_fixed 1 (sa_SpanHours r) @ ''h across '' @ show_int (int totalDays)
        @ '' day(s) in '' @ sa_Timezone r @ ''.'')
     # (if sa_SignalUnit r \<noteq> [] then
          [observed_badge @ '' the '' @ sa_Signal r @ '' signal rises from a baseline of '' @ show_fixed 1 (sa_Baseline r)
             @ sa_SignalUnit r @ unitSep (sa_SignalUnit r) @ '' to '' @ show_fixed 1 (pw_PeakSignal peak) @ sa_SignalUnit r
             @ unitSep (sa_SignalUnit r) @ '' between '' @ pw_Start peak @ '' and '' @ pw_End peak @ '' on ''
             @ show_int (pw_DaysMatched peak) @ '' of '' @ show_int (pw_DaysCovered peak)
             @ '' recorded day(s); desiredReplicas reaches '' @ show_int (pw_PeakDesired peak) @ '' in the window.'',
           estimated_badge @ '' the HPA can only react after the ramp begins, so each cycle pays a scale-up delay from ''
             @ show_fixed 0 replicaBaseline @ '' to '' @ show_int (pw_OnsetDesired peak) @ '' replicas; pre-scaling removes it.'']
        else
          [observed_badge @ '' desiredReplicas rises from a baseline of '' @ show_fixed 1 (sa_Baseline r) @ '' to ''
             @ show_int (pw_PeakDesired peak) @ '' between '' @ pw_Start peak @ '' and '' @ pw_End peak @ '' on ''
             @ show_int (pw_DaysMatched peak) @ '' of '' @ show_int (pw_DaysCovered peak) @ '' recorded day(s).'',
           estimated_badge @ '' the HPA can only react after the ramp begins, so each cycle pays a scale-up delay from ''
             @ show_fixed 0 (sa_Baseline r) @ '' to '' @ show_int (pw_OnsetDesired peak) @ '' replicas; pre-scaling removes it.''])"

subsection \<open>The analysis\<close>

definition minMatchedDays :: nat where "minMatchedDays = 2"
definition minConsistency :: f64 where "minConsistency = Fin (1 / 2)"

text \<open>The result before anything is found.\<close>

definition season_start :: "season_options \<Rightarrow> string \<Rightarrow> string \<Rightarrow> bool \<Rightarrow> season_analysis" where
  "season_start op metricName metricUnit useMetric =
     \<lparr>sa_Detected = False, sa_InsufficientData = False, sa_Cycle = ''daily'', sa_Signal = signalLabel useMetric metricName,
      sa_SignalUnit = metricUnit, sa_Timezone = fst (the (so_Location op)), sa_BucketMinutes = so_BucketMinutes op,
      sa_DaysObserved = 0, sa_SpanHours = Fin 0, sa_Baseline = Fin 0, sa_Threshold = Fin 0, sa_Peak = None,
      sa_Confidence = Fin 0, sa_Recommendation = None, sa_Notes = []\<rparr>"

text \<open>The run's threshold from the baseline.\<close>

definition season_threshold :: "season_options \<Rightarrow> bool \<Rightarrow> f64 \<Rightarrow> f64" where
  "season_threshold op useMetric baseline =
     f_max (f_mul baseline (so_PeakRatio op)) (if useMetric then next_up baseline else f_add baseline (Fin 1))"

text \<open>What is decided once a run was found.\<close>

definition season_verdict :: "int list \<Rightarrow> season_options \<Rightarrow> season_analysis \<Rightarrow> dayProfile list \<Rightarrow> nat \<Rightarrow> nat \<times> nat \<Rightarrow> string \<Rightarrow> bool
    \<Rightarrow> f64 \<Rightarrow> season_analysis" where
  "season_verdict wds op r days buckets found metricUnit useMetric replicaBaseline =
     (let (start, len) = found;
          matched = day_matched days start len buckets (sa_Threshold r);
          covered = day_covered days start len buckets;
          window = buildPeakWindow days start len buckets (so_BucketMinutes op) (sa_Threshold r) useMetric;
          (schedule, narrowed) = scheduleWeekdays wds days matched;
          (hits, total) = countScheduled days matched covered schedule;
          peak = window\<lparr>pw_DaysMatched := int hits, pw_DaysCovered := int total\<rparr>;
          confidence = (if total > 0 then f_div (f_of_int (int hits)) (f_of_int (int total)) else sa_Confidence r);
          r1 = r\<lparr>sa_Peak := Some peak, sa_Cycle := (if narrowed then ''weekly'' else sa_Cycle r), sa_Confidence := confidence\<rparr>
      in if hits < minMatchedDays \<or> f_lt confidence minConsistency then
           r1\<lparr>sa_Peak := None, sa_Notes := sa_Notes r1 @
             [observed_badge @ '' a peak near '' @ pw_Start peak @ ''-'' @ pw_End peak @ '' appeared on '' @ show_int (int hits)
                @ '' of '' @ show_int (int total) @ '' day(s), below the '' @ show_fixed 0 (f_mul minConsistency (Fin 100))
                @ ''% consistency needed to call it recurring.'',
              estimated_badge @ '' this looks like a one-off event rather than a schedule; record for longer if you expect it to repeat.'']\<rparr>
         else if useMetric \<and> f_le (f_of_int (pw_PeakDesired peak)) replicaBaseline then
           r1\<lparr>sa_Detected := True, sa_Notes := sa_Notes r1 @
             [observed_badge @ '' the '' @ sa_Signal r @ '' signal ramps from a baseline of '' @ show_fixed 1 (sa_Baseline r) @ metricUnit
                @ unitSep metricUnit @ '' to '' @ show_fixed 1 (pw_PeakSignal peak) @ metricUnit @ unitSep metricUnit @ '' between ''
                @ pw_Start peak @ '' and '' @ pw_End peak @ '', but desiredReplicas stayed at the ''
                @ show_fixed 0 replicaBaseline @ ''-replica baseline.'',
              estimated_badge @ '' the ramp stayed within the HPA's headroom (controller tolerance or minReplicas), so there is no replica floor to pre-scale; the scale-up delay it would cause is not visible in the replica history either.'']\<rparr>
         else (let r2 = r1\<lparr>sa_Detected := True, sa_Recommendation :=
                  Some (buildRecommendation peak schedule narrowed (so_LeadTime op) (sa_Timezone r) confidence)\<rparr>
               in r2\<lparr>sa_Notes := sa_Notes r2 @ detectionNotes r2 peak (length days) replicaBaseline\<rparr>))"

definition Analyze_profiles :: "int list \<Rightarrow> season_options \<Rightarrow> season_analysis \<Rightarrow> dayProfile list \<Rightarrow> nat \<Rightarrow> string \<Rightarrow> bool \<Rightarrow> season_analysis" where
  "Analyze_profiles wds op r days buckets metricUnit useMetric =
     (let (signalProfile, signalCovered) = averageBuckets (\<lambda>v. f_lt v (Fin 0)) (\<lambda>v. v) (map dp_signal days) buckets;
          (desiredProfile, desiredCovered) = averageBuckets (\<lambda>v. v < 0) f_of_int (map dp_desired days) buckets;
          baseline = f_median (coveredValues signalProfile signalCovered);
          threshold = season_threshold op useMetric baseline;
          replicaBaseline = f_median (coveredValues desiredProfile desiredCovered);
          r1 = r\<lparr>sa_Baseline := baseline, sa_Threshold := threshold\<rparr>
      in case findPeakRun signalProfile signalCovered threshold of
           None \<Rightarrow> r1\<lparr>sa_Notes := sa_Notes r1 @
             [observed_badge @ '' the '' @ sa_Signal r @ '' signal stayed near the daily baseline of '' @ show_fixed 1 baseline
                @ '' across '' @ show_int (int (length days)) @ '' days; no recurring ramp to pre-scale for.'']\<rparr>
         | Some found \<Rightarrow> season_verdict wds op r1 days buckets found metricUnit useMetric replicaBaseline)"

text \<open>
  \<open>names\<close> and \<open>wds\<close> are the orders in which the run ranges over its maps of metric names and of weekdays.
\<close>

definition Analyze :: "zone \<Rightarrow> string list \<Rightarrow> int list \<Rightarrow> observation list \<Rightarrow> season_options \<Rightarrow> season_analysis" where
  "Analyze time_Local names wds obs opts =
     (let op = with_defaults time_Local opts;
          buckets = nat (quot minutesPerDay (so_BucketMinutes op));
          (metricName, metricUnit, useMetric, usable) = selectSignal names obs (so_Signal op);
          r = season_start op metricName metricUnit useMetric
      in if \<not> usable then r\<lparr>sa_Signal := ''metric'', sa_Notes :=
             [observed_badge @ '' the recording carries no typed metric values; the metric signal needs records written after typed metric capture landed.'',
              estimated_badge @ '' profile desiredReplicas instead with --signal replicas, or re-record with a current build.'']\<rparr>
         else if obs = [] then r\<lparr>sa_InsufficientData := True, sa_Notes :=
             [observed_badge @ '' no recorded observations; capture history with `record` before analyzing seasonality.'']\<rparr>
         else let days = buildDayProfiles (snd (the (so_Location op))) obs (so_BucketMinutes op) buckets metricName useMetric;
                  r1 = r\<lparr>sa_DaysObserved := int (length days), sa_SpanHours := spanHours obs\<rparr>
              in if int (length days) < so_MinDays op then r1\<lparr>sa_InsufficientData := True, sa_Notes :=
                   [observed_badge @ '' only '' @ show_int (int (length days)) @ '' distinct day(s) across ''
                      @ show_fixed 1 (sa_SpanHours r1) @ ''h of recording; daily periodicity needs at least ''
                      @ show_int (so_MinDays op) @ '' days.'',
                    estimated_badge @ '' record for at least '' @ show_int (so_MinDays op)
                      @ '' days (for example `record --duration 48h --interval 1m --output-file hpa.jsonl`) before re-running this detector.'']\<rparr>
                 else Analyze_profiles wds op r1 days buckets metricUnit useMetric)"

subsection \<open>The peak run is the strongest one\<close>

text \<open>A run is a maximal circular stretch of buckets above the threshold; its excess is summed in bucket order.\<close>

definition is_run :: "f64 list \<Rightarrow> bool list \<Rightarrow> f64 \<Rightarrow> nat \<Rightarrow> nat \<Rightarrow> bool" where
  "is_run profile covered threshold s l \<longleftrightarrow> s < length profile \<and> 0 < l \<and> l < length profile
     \<and> (\<forall>k<l. above profile covered threshold (s + k))
     \<and> \<not> above profile covered threshold (s + l)
     \<and> \<not> above profile covered threshold (s + length profile - 1)"

definition excess :: "f64 list \<Rightarrow> f64 \<Rightarrow> nat \<Rightarrow> nat \<Rightarrow> f64" where
  "excess profile threshold s l =
     foldl (\<lambda>e k. f_add e (f_sub (profile ! ((s + k) mod length profile)) threshold)) (Fin 0) [0..<l]"

lemma excess_Suc:
  "excess profile threshold s (Suc l) = f_add (excess profile threshold s l) (f_sub (profile ! ((s + l) mod length profile)) threshold)"
  by (simp add: excess_def)

lemma above_mod: "above profile covered threshold (b mod length profile) = above profile covered threshold b"
  by (simp add: above_def)

lemma above_cong: "b mod length profile = c mod length profile \<Longrightarrow> above profile covered threshold b = above profile covered threshold c"
  by (simp add: above_def)

lemma run_from_spec:
  assumes "run_from profile covered threshold b left (excess profile threshold b len, len) = (e, l)"
    and "\<forall>k<len. above profile covered threshold (b + k)"
  shows "e = excess profile threshold b l \<and> len \<le> l \<and> l \<le> len + left \<and> (\<forall>k<l. above profile covered threshold (b + k))
    \<and> (l < len + left \<longrightarrow> \<not> above profile covered threshold (b + l))"
  using assms
proof (induction left arbitrary: len)
  case (Suc left)
  show ?case
  proof (cases "above profile covered threshold (b + len)")
    case True
    then have "\<forall>k<Suc len. above profile covered threshold (b + k)" using Suc.prems(2) by (simp add: less_Suc_eq)
    moreover have "run_from profile covered threshold b left (excess profile threshold b (Suc len), Suc len) = (e, l)"
      using Suc.prems(1) True by (simp add: excess_Suc)
    ultimately show ?thesis using Suc.IH [of "Suc len"] by simp
  next
    case False
    then show ?thesis using Suc.prems by auto
  qed
qed auto

text \<open>Every start of a run is scanned to the end of its run, and to no other length.\<close>

lemma run_from_start:
  assumes "\<exists>i<length profile. \<not> above profile covered threshold i"
    and "above profile covered threshold b" "\<not> above profile covered threshold (b + length profile - 1)"
    and "run_from profile covered threshold b (length profile) (Fin 0, 0) = (e, l)"
  shows "is_run profile covered threshold (b mod length profile) l" "e = excess profile threshold (b mod length profile) l"
proof -
  let ?n = "length profile" and ?A = "above profile covered threshold"
  have n: "0 < ?n" using assms(1) by auto
  have z: "excess profile threshold b 0 = Fin 0" by (simp add: excess_def)
  have r: "e = excess profile threshold b l" "l \<le> ?n" "\<forall>k<l. ?A (b + k)" "l < ?n \<longrightarrow> \<not> ?A (b + l)"
    using run_from_spec [of profile covered threshold b ?n 0 e l] assms(4) z by simp_all
  have shift: "?A (b mod ?n + k) = ?A (b + k)" for k by (rule above_cong) (simp add: mod_add_left_eq)
  have shift': "?A (b mod ?n + ?n - 1) = ?A (b + ?n - 1)"
    using shift [of "?n - 1"] n by simp
  have "l \<noteq> 0"
  proof
    assume "l = 0"
    then show False using r(4) n assms(2) by simp
  qed
  have "l \<noteq> ?n"
  proof
    assume "l = ?n"
    then have "?A (b + (?n - 1))" using r(3) n by simp
    then show False using assms(3) n by simp
  qed
  then show "is_run profile covered threshold (b mod ?n) l"
    unfolding is_run_def shift shift'
  proof (intro conjI)
    show "b mod ?n < ?n" "0 < l" using n \<open>l \<noteq> 0\<close> by simp_all
    show "l < ?n" using r(2) \<open>l \<noteq> ?n\<close> by (rule le_neq_implies_less)
    then show "\<not> ?A (b + l)" using r(4) by blast
  qed (use r(3) assms(3) in blast)+
  show "e = excess profile threshold (b mod ?n) l"
    by (simp add: r(1) excess_def mod_add_left_eq)
qed

lemma run_from_is_run:
  assumes "is_run profile covered threshold s l"
  shows "run_from profile covered threshold s (length profile) (Fin 0, 0) = (excess profile threshold s l, l)"
proof -
  let ?n = "length profile" and ?A = "above profile covered threshold"
  obtain e m where em: "run_from profile covered threshold s ?n (Fin 0, 0) = (e, m)" by fastforce
  have z: "excess profile threshold s 0 = Fin 0" by (simp add: excess_def)
  have r: "e = excess profile threshold s m" "m \<le> ?n" "\<forall>k<m. ?A (s + k)" "m < ?n \<longrightarrow> \<not> ?A (s + m)"
    using run_from_spec [of profile covered threshold s ?n 0 e m] em z by simp_all
  have "\<not> l < m" using r(3) assms by (auto simp: is_run_def)
  moreover have "\<not> m < l" using r(4) assms by (auto simp: is_run_def)
  ultimately have "m = l" by simp
  then show ?thesis using em r(1) by simp
qed

text \<open>The excess of a run over readings that are numbers is a number, and not negative.\<close>

lemma excess_nonneg:
  assumes "threshold = Fin h" "\<forall>k<l. above profile covered threshold (s + k)"
  shows "f_nonneg (excess profile threshold s l)"
  using assms(2)
proof (induction l)
  case 0
  then show ?case by (simp add: excess_def f_nonneg_cases)
next
  case (Suc l)
  then have "f_le (Fin h) (profile ! ((s + l) mod length profile))"
    using assms(1) by (auto simp: above_def Let_def)
  then show ?case using Suc by (simp add: excess_Suc assms(1) f_add_nonneg f_sub_nonneg)
qed

text \<open>The order in which two runs compare: by excess, then by length.\<close>

definition no_better :: "f64 \<times> nat \<Rightarrow> f64 \<times> nat \<Rightarrow> bool" where
  "no_better a b \<longleftrightarrow> f_lt (fst a) (fst b) \<or> (fst a = fst b \<and> snd a \<le> snd b)"

lemma no_better_refl: "no_better a a"
  by (simp add: no_better_def)

lemma no_better_trans: "no_better a b \<Longrightarrow> no_better b c \<Longrightarrow> no_better a c"
  unfolding no_better_def by (metis f_lt_trans order.trans)

lemma no_better_total:
  assumes "fst a \<noteq> NaN" "fst b \<noteq> NaN" "\<not> (f_lt (fst a) (fst b) \<or> f_eq (fst b) (fst a) \<and> snd b > snd a)"
  shows "no_better b a"
  using f_lt_linear [OF assms(1,2)] assms unfolding no_better_def f_eq_def by auto

text \<open>What the best of the scanned starts is, after any number of them.\<close>

definition scan_inv :: "f64 list \<Rightarrow> bool list \<Rightarrow> f64 \<Rightarrow> nat set \<Rightarrow> nat \<times> nat \<times> f64 \<Rightarrow> bool" where
  "scan_inv profile covered threshold seen best \<longleftrightarrow>
     (let (s, l, e) = best in
       (best = (0, 0, Fin 0) \<or> is_run profile covered threshold s l \<and> e = excess profile threshold s l)
     \<and> (\<forall>b\<in>seen. \<forall>m. is_run profile covered threshold b m \<longrightarrow> no_better (excess profile threshold b m, m) (e, l)))"

lemma is_run_starts:
  assumes "is_run profile covered threshold (b mod length profile) m"
  shows "above profile covered threshold b" "\<not> above profile covered threshold (b + length profile - 1)"
proof -
  let ?n = "length profile"
  have "above profile covered threshold (b mod ?n + 0)" using assms unfolding is_run_def by blast
  then show "above profile covered threshold b" by (simp add: above_mod)
  have "(b mod ?n + ?n - 1) mod ?n = (b + ?n - 1) mod ?n"
    using assms mod_add_left_eq [of b ?n "?n - 1"] by (simp add: is_run_def)
  then show "\<not> above profile covered threshold (b + ?n - 1)"
    using assms above_cong unfolding is_run_def by blast
qed

lemma scan_step:
  assumes "\<exists>i<length profile. \<not> above profile covered threshold i" "threshold = Fin h"
    and "scan_inv profile covered threshold seen best"
  shows "scan_inv profile covered threshold (insert (b mod length profile) seen) (peak_step profile covered threshold b best)"
proof -
  let ?n = "length profile" and ?A = "above profile covered threshold"
  obtain s l e where best: "best = (s, l, e)" by (cases best) blast
  show ?thesis
  proof (cases "?A b \<and> \<not> ?A (b + ?n - 1)")
    case False
    then have "\<not> is_run profile covered threshold (b mod ?n) m" for m using is_run_starts by blast
    moreover have "peak_step profile covered threshold b best = best"
      unfolding peak_step_def best Let_def prod.case using False by argo
    ultimately show ?thesis using assms(3) by (auto simp: scan_inv_def best)
  next
    case True
    obtain e1 m where em: "run_from profile covered threshold b ?n (Fin 0, 0) = (e1, m)" by fastforce
    note run = run_from_start [OF assms(1) conjunct1 [OF True] conjunct2 [OF True] em]
    have only: "m' = m" if "is_run profile covered threshold (b mod ?n) m'" for m'
      using run_from_is_run [OF that] run_from_is_run [OF run(1)] by simp
    have "\<forall>k<m. ?A (b mod ?n + k)" using run(1) unfolding is_run_def by blast
    then have e1: "e1 \<noteq> NaN" unfolding run(2) by (rule f_nonneg_nan [OF excess_nonneg [OF assms(2)]])
    have inv: "no_better (excess profile threshold c k, k) (e, l)" if "c \<in> seen" "is_run profile covered threshold c k" for c k
      using assms(3) that unfolding scan_inv_def best Let_def prod.case by blast
    have e: "e \<noteq> NaN"
    proof -
      consider "e = Fin 0" | "is_run profile covered threshold s l" "e = excess profile threshold s l"
        using assms(3) unfolding scan_inv_def best Let_def prod.case prod.inject by blast
      then show ?thesis
      proof cases
        case 2
        then have "\<forall>k<l. ?A (s + k)" unfolding is_run_def by blast
        then show ?thesis unfolding 2(2) by (rule f_nonneg_nan [OF excess_nonneg [OF assms(2)]])
      qed simp
    qed
    show ?thesis
    proof (cases "f_lt e e1 \<or> f_eq e1 e \<and> m > l")
      case win: True
      then have st: "peak_step profile covered threshold b best = (b mod ?n, m, e1)"
        unfolding peak_step_def best Let_def prod.case em using True win by simp
      have up: "no_better (e, l) (e1, m)" using win by (auto simp: no_better_def f_eq_def)
      have "no_better (excess profile threshold c k, k) (e1, m)"
        if "c \<in> insert (b mod ?n) seen" "is_run profile covered threshold c k" for c k
      proof (cases "c = b mod ?n")
        case True
        then have "k = m" using only that(2) by simp
        then show ?thesis using True run(2) no_better_refl by simp
      next
        case False
        then show ?thesis using that no_better_trans [OF inv up] by simp
      qed
      then show ?thesis using run by (simp add: scan_inv_def st)
    next
      case lose: False
      then have st: "peak_step profile covered threshold b best = best"
        unfolding peak_step_def best Let_def prod.case em using True lose by simp
      have low: "no_better (e1, m) (e, l)" using no_better_total [of "(e, l)" "(e1, m)"] lose e e1 by simp
      have "no_better (excess profile threshold c k, k) (e, l)"
        if "c \<in> insert (b mod ?n) seen" "is_run profile covered threshold c k" for c k
      proof (cases "c = b mod ?n")
        case True
        then have "k = m" using only that(2) by simp
        then show ?thesis using True run(2) low by simp
      qed (use that inv in simp)
      then show ?thesis using assms(3) unfolding st by (simp add: scan_inv_def best)
    qed
  qed
qed

lemma scan_all:
  assumes "\<exists>i<length profile. \<not> above profile covered threshold i" "threshold = Fin h"
  shows "scan_inv profile covered threshold ((\<lambda>b. b mod length profile) ` set bs) (fold (peak_step profile covered threshold) bs (0, 0, Fin 0))"
proof (induction bs rule: rev_induct)
  case Nil
  then show ?case by (simp add: scan_inv_def)
next
  case (snoc b bs)
  then show ?case using scan_step [OF assms, of _ _ b] by simp
qed

text \<open>Unless the whole day is above the threshold, a bucket above it belongs to a run.\<close>

lemma run_exists:
  assumes "i < length profile" "\<not> above profile covered threshold i" "j < length profile" "above profile covered threshold j"
  shows "\<exists>s l. is_run profile covered threshold s l"
proof -
  let ?n = "length profile" and ?A = "above profile covered threshold"
  have ex: "\<exists>k. ?A (i + k)"
  proof
    have "(i + (?n - i + j)) mod ?n = j mod ?n" using assms(1) by simp
    then show "?A (i + (?n - i + j))" using assms(4) above_cong by blast
  qed
  define k where "k = (LEAST k. ?A (i + k))"
  have k: "?A (i + k)" unfolding k_def using ex by (rule LeastI_ex)
  then have "k \<noteq> 0" using assms(2) by (cases k) auto
  then have "\<not> ?A (i + (k - 1))" unfolding k_def using not_less_Least [of "k - 1" "\<lambda>k. ?A (i + k)"] by (simp add: k_def)
  moreover have "(i + k + ?n - 1) mod ?n = (i + (k - 1)) mod ?n"
    using \<open>k \<noteq> 0\<close> mod_add_self2 [of "i + (k - 1)" ?n] by simp
  ultimately have "\<not> ?A (i + k + ?n - 1)" using above_cong by blast
  moreover obtain e l where "run_from profile covered threshold (i + k) ?n (Fin 0, 0) = (e, l)" by fastforce
  ultimately show ?thesis using run_from_start(1) k assms(1,2) by blast
qed

text \<open>C11. The peak search returns a maximal circular run of buckets at or above the threshold, midnight
  included, that no other run exceeds in excess demand, nor in length at the same excess; it returns
  nothing exactly when every bucket or no bucket is above.\<close>

theorem peak_run_is_best:
  assumes "threshold = Fin h"
  shows "(findPeakRun profile covered threshold = None \<longleftrightarrow>
      (\<forall>i<length profile. above profile covered threshold i) \<or> (\<forall>i<length profile. \<not> above profile covered threshold i))
    \<and> (\<forall>s l. findPeakRun profile covered threshold = Some (s, l) \<longrightarrow>
        is_run profile covered threshold s l
        \<and> (\<forall>s' l'. is_run profile covered threshold s' l' \<longrightarrow>
              no_better (excess profile threshold s' l', l') (excess profile threshold s l, l)))"
proof (cases "\<forall>i<length profile. above profile covered threshold i")
  case True
  then have "findPeakRun profile covered threshold = None" by (simp add: findPeakRun_def list_all_iff)
  with True show ?thesis by simp
next
  case False
  let ?n = "length profile" and ?run = "is_run profile covered threshold"
  have some: "\<exists>i<?n. \<not> above profile covered threshold i" using False by blast
  obtain s l e where r: "fold (peak_step profile covered threshold) [0..<2 * ?n] (0, 0, Fin 0) = (s, l, e)"
    by (cases "fold (peak_step profile covered threshold) [0..<2 * ?n] (0, 0, Fin 0)") blast
  have res: "findPeakRun profile covered threshold = (if l = 0 then None else Some (s, l))"
    using some r by (auto simp: findPeakRun_def Let_def list_all_iff)
  have all: "scan_inv profile covered threshold ((\<lambda>b. b mod ?n) ` set [0..<2 * ?n]) (s, l, e)"
    using scan_all [OF some assms, of "[0..<2 * ?n]"] unfolding r .
  have inv: "(s, l, e) = (0, 0, Fin 0) \<or> ?run s l \<and> e = excess profile threshold s l"
    using all unfolding scan_inv_def Let_def prod.case by blast
  have best: "no_better (excess profile threshold b m, m) (e, l)" if "?run b m" for b m
  proof -
    have "b \<in> (\<lambda>b. b mod ?n) ` set [0..<2 * ?n]" using that by (intro image_eqI [of _ _ b]) (auto simp: is_run_def)
    then show ?thesis using all that unfolding scan_inv_def Let_def prod.case by blast
  qed
  show ?thesis
  proof (cases "l = 0")
    case True
    then have z: "e = Fin 0" using inv by (auto simp: is_run_def)
    have "\<not> ?run b m" for b m
    proof
      assume run: "?run b m"
      then have "f_nonneg (excess profile threshold b m)"
        using excess_nonneg [OF assms] unfolding is_run_def by blast
      moreover have "0 < m" using run by (simp add: is_run_def)
      ultimately show False using best [OF run] z True by (auto simp: no_better_def f_nonneg_cases)
    qed
    then have "\<forall>i<?n. \<not> above profile covered threshold i" using run_exists some by blast
    then show ?thesis using res True by simp
  next
    case l: False
    then have run: "?run s l" "e = excess profile threshold s l" using inv by auto
    have "above profile covered threshold s" "s < ?n" using run(1) unfolding is_run_def by force+
    then have "\<not> (\<forall>i<?n. \<not> above profile covered threshold i)" by blast
    then show ?thesis using res l False run best by auto
  qed
qed

subsection \<open>The order of the recording and of the maps does not matter\<close>

text \<open>The weekday and the next date depend on the date alone, as on any calendar.\<close>

definition calendar_on :: "(int \<Rightarrow> local_clock) \<Rightarrow> observation list \<Rightarrow> bool" where
  "calendar_on clock obs \<longleftrightarrow> (\<forall>a\<in>set obs. \<forall>b\<in>set obs.
     lc_date (clock (ob_Timestamp a)) = lc_date (clock (ob_Timestamp b)) \<longrightarrow>
     lc_next (clock (ob_Timestamp a)) = lc_next (clock (ob_Timestamp b)) \<and>
     lc_weekday (clock (ob_Timestamp a)) = lc_weekday (clock (ob_Timestamp b)))"

definition raise_to :: "('v \<Rightarrow> 'v \<Rightarrow> bool) \<Rightarrow> 'v \<Rightarrow> 'v \<Rightarrow> 'v" where
  "raise_to lt v x = (if lt x v then v else x)"

lemma raise_at_update: "raise_at lt v i xs = xs[i := raise_to lt v (xs ! i)]"
  by (simp add: raise_at_def raise_to_def)

lemma raise_at_commute:
  assumes "\<And>x. raise_to lt v (raise_to lt w x) = raise_to lt w (raise_to lt v x)"
  shows "raise_at lt v i (raise_at lt w j xs) = raise_at lt w j (raise_at lt v i xs)"
proof (cases "i = j")
  case True
  then show ?thesis using assms [of "xs ! j"]
    by (cases "j < length xs") (simp_all add: raise_at_update list_update_beyond)
next
  case False
  then show ?thesis by (simp add: raise_at_update list_update_swap)
qed

lemma raise_float: "raise_to f_lt v (raise_to f_lt w x) = raise_to f_lt w (raise_to f_lt v x)"
  by (cases v; cases w; cases x) (auto simp: raise_to_def)

lemma raise_int: "raise_to (<) v (raise_to (<) w (x :: int)) = raise_to (<) w (raise_to (<) v x)"
  by (auto simp: raise_to_def)

text \<open>One reading entered in a day.\<close>

definition enter :: "int \<Rightarrow> nat \<Rightarrow> string \<Rightarrow> bool \<Rightarrow> local_clock \<Rightarrow> observation \<Rightarrow> dayProfile \<Rightarrow> dayProfile" where
  "enter bucketMinutes buckets metricName useMetric c ob day =
     day\<lparr>dp_desired := raise_at (<) (ob_Desired ob) (bucket_index bucketMinutes buckets c) (dp_desired day),
         dp_signal := (case reading metricName useMetric ob of None \<Rightarrow> dp_signal day
           | Some v \<Rightarrow> raise_at f_lt v (bucket_index bucketMinutes buckets c) (dp_signal day))\<rparr>"

lemma profile_step_enter:
  "profile_step clock bm buckets name use ob byDate =
     (let c = clock (ob_Timestamp ob)
      in byDate(lc_date c \<mapsto> enter bm buckets name use c ob (case byDate (lc_date c) of None \<Rightarrow> new_day buckets c | Some d \<Rightarrow> d)))"
  by (simp add: profile_step_def enter_def Let_def split: option.splits)

lemma enter_commute:
  "enter bm buckets name use c a (enter bm buckets name use d b day) = enter bm buckets name use d b (enter bm buckets name use c a day)"
  by (simp add: enter_def raise_at_commute [of "(<)", OF raise_int] raise_at_commute [of f_lt, OF raise_float] split: option.splits)

lemma profile_step_commute:
  assumes "calendar_on clock obs" "a \<in> set obs" "b \<in> set obs"
  shows "profile_step clock bm buckets name use a \<circ> profile_step clock bm buckets name use b
    = profile_step clock bm buckets name use b \<circ> profile_step clock bm buckets name use a"
proof (rule ext)
  fix m
  let ?c = "clock (ob_Timestamp a)" and ?d = "clock (ob_Timestamp b)"
  show "(profile_step clock bm buckets name use a \<circ> profile_step clock bm buckets name use b) m
    = (profile_step clock bm buckets name use b \<circ> profile_step clock bm buckets name use a) m"
  proof (cases "lc_date ?c = lc_date ?d")
    case True
    then have "lc_next ?c = lc_next ?d" "lc_weekday ?c = lc_weekday ?d"
      using assms unfolding calendar_on_def by blast+
    with True have "new_day buckets ?c = new_day buckets ?d" by (simp add: new_day_def)
    then show ?thesis using True
      by (simp add: profile_step_enter Let_def enter_commute [of _ _ _ _ ?c a ?d b] split: option.splits)
  next
    case False
    then show ?thesis by (simp add: profile_step_enter Let_def fun_upd_twist)
  qed
qed

lemma profiles_perm:
  assumes "calendar_on clock obs" "mset obs' = mset obs"
  shows "buildDayProfiles clock obs' bm buckets name use = buildDayProfiles clock obs bm buckets name use"
proof -
  have s: "set obs' = set obs" using assms(2) by (rule mset_eq_setD)
  have "fold (profile_step clock bm buckets name use) obs Map.empty = fold (profile_step clock bm buckets name use) obs' Map.empty"
    using fold_multiset_equiv [of obs "profile_step clock bm buckets name use" obs'] profile_step_commute [OF assms(1)] assms(2)
    by metis
  moreover have "sort (remdups (map (\<lambda>ob. lc_date (clock (ob_Timestamp ob))) obs'))
    = sort (remdups (map (\<lambda>ob. lc_date (clock (ob_Timestamp ob))) obs))"
    using s by (intro properties_for_sort) (simp_all flip: set_eq_iff_mset_remdups_eq)
  ultimately show ?thesis by (simp add: buildDayProfiles_def Let_def)
qed

text \<open>The metric chosen: the most covered of the candidates, the first of them by name.\<close>

definition candidate_ok :: "observation list \<Rightarrow> signal \<Rightarrow> string \<Rightarrow> bool" where
  "candidate_ok obs want name \<longleftrightarrow> coverage obs name > length obs div 2 \<or> want = SignalMetric"

definition beats :: "observation list \<Rightarrow> string \<Rightarrow> string \<Rightarrow> bool" where
  "beats obs a b \<longleftrightarrow> coverage obs b < coverage obs a \<or> (coverage obs b = coverage obs a \<and> a \<le> b)"

definition best_of :: "observation list \<Rightarrow> signal \<Rightarrow> string set \<Rightarrow> string \<Rightarrow> bool" where
  "best_of obs want names best \<longleftrightarrow>
     (if best = [] then \<forall>n\<in>names. \<not> candidate_ok obs want n
      else best \<in> names \<and> candidate_ok obs want best \<and> (\<forall>n\<in>names. candidate_ok obs want n \<longrightarrow> beats obs best n))"

lemma best_step_best:
  assumes "best_of obs want names best" "candidate \<noteq> []" "[] \<notin> names"
  shows "best_of obs want (insert candidate names) (best_step obs want candidate best)"
proof (cases "candidate_ok obs want candidate")
  case False
  then show ?thesis using assms by (auto simp: best_of_def best_step_def Let_def candidate_ok_def not_less)
next
  case True
  then have t: "best_step obs want candidate best =
      (if best = [] \<or> coverage obs candidate > coverage obs best \<or> (coverage obs candidate = coverage obs best \<and> candidate < best)
       then candidate else best)"
    by (auto simp: best_step_def Let_def candidate_ok_def)
  show ?thesis
  proof (cases "best = []")
    case empty: True
    then show ?thesis using t assms True by (auto simp: best_of_def beats_def)
  next
    case False
    then have b: "best \<in> names" "candidate_ok obs want best" "\<And>n. n \<in> names \<Longrightarrow> candidate_ok obs want n \<Longrightarrow> beats obs best n"
      using assms(1) by (auto simp: best_of_def)
    show ?thesis
    proof (cases "coverage obs candidate > coverage obs best \<or> (coverage obs candidate = coverage obs best \<and> candidate < best)")
      case win: True
      have "beats obs candidate n" if "n \<in> names" "candidate_ok obs want n" for n
        using b(3) [OF that] win unfolding beats_def by force
      then show ?thesis using t win assms(2) True by (auto simp: best_of_def beats_def)
    next
      case lose: False
      then have "beats obs best candidate" by (auto simp: beats_def)
      then show ?thesis using t lose False b by (auto simp: best_of_def)
    qed
  qed
qed

lemma best_fold:
  assumes "[] \<notin> set names"
  shows "best_of obs want (set names) (fold (best_step obs want) names [])"
  using assms
proof (induction names rule: rev_induct)
  case (snoc n names)
  then have "n \<noteq> []" "[] \<notin> set names" by auto
  then show ?case using snoc best_step_best [of obs want "set names" "fold (best_step obs want) names []" n] by simp
qed (simp add: best_of_def)

lemma best_unique: "best_of obs want names a \<Longrightarrow> best_of obs want names b \<Longrightarrow> a = b"
  by (cases "a = []"; cases "b = []") (force simp: best_of_def beats_def)+

lemma coverage_perm: "mset obs' = mset obs \<Longrightarrow> coverage obs' name = coverage obs name"
  by (metis coverage_def mset_filter size_mset)

definition one_unit :: "observation list \<Rightarrow> bool" where
  "one_unit obs \<longleftrightarrow> (\<forall>a\<in>set obs. \<forall>b\<in>set obs. \<forall>s\<in>set (ob_Metrics a). \<forall>t\<in>set (ob_Metrics b).
     ms_Name s = ms_Name t \<longrightarrow> ms_Unit s = ms_Unit t)"

lemma metric_unit_eq:
  assumes "one_unit obs" "ob \<in> set obs" "s \<in> set (ob_Metrics ob)" "ms_Name s = name"
  shows "metric_unit obs name = ms_Unit s"
proof -
  let ?xs = "filter (\<lambda>s. ms_Name s = name) (concat (map ob_Metrics obs))"
  have mem: "s \<in> set ?xs" using assms by auto
  then obtain t ts where ts: "?xs = t # ts" by (cases ?xs) auto
  then have "t \<in> set ?xs" by simp
  then obtain ob' where "ob' \<in> set obs" "t \<in> set (ob_Metrics ob')" "ms_Name t = name" by auto
  then have "ms_Unit t = ms_Unit s" using assms unfolding one_unit_def by metis
  then show ?thesis using ts by (simp add: metric_unit_def)
qed

lemma set_named_samples:
  "set (filter (\<lambda>m. ms_Name m = name) (concat (map ob_Metrics obs))) = {m. \<exists>ob\<in>set obs. m \<in> set (ob_Metrics ob) \<and> ms_Name m = name}"
  by auto

lemma metric_unit_perm:
  assumes "one_unit obs" "mset obs' = mset obs"
  shows "metric_unit obs' name = metric_unit obs name"
proof -
  let ?xs = "\<lambda>obs. filter (\<lambda>m. ms_Name m = name) (concat (map ob_Metrics obs))"
  have s: "set obs' = set obs" using assms(2) by (rule mset_eq_setD)
  have o': "one_unit obs'" using assms(1) by (simp only: one_unit_def s)
  have x: "set (?xs obs') = set (?xs obs)" by (simp only: set_named_samples s)
  show ?thesis
  proof (cases "?xs obs")
    case Nil
    then have "?xs obs' = []" using x by (simp only: list.set set_empty)
    then show ?thesis using Nil by (simp only: metric_unit_def)
  next
    case (Cons m ms)
    then have "m \<in> set (?xs obs)" by (simp only: list.set_intros)
    then obtain ob where ob: "ob \<in> set obs" "m \<in> set (ob_Metrics ob)" "ms_Name m = name"
      unfolding set_named_samples by blast
    then have "ob \<in> set obs'" by (simp only: s)
    then have "metric_unit obs' name = ms_Unit m" using ob(2,3) by (rule metric_unit_eq [OF o'])
    then show ?thesis using metric_unit_eq [OF assms(1) ob] by (simp only:)
  qed
qed

lemma selectSignal_perm:
  assumes "one_unit obs" "mset obs' = mset obs" "set names' = set names" "[] \<notin> set names"
  shows "selectSignal names' obs' want = selectSignal names obs want"
proof -
  have c: "coverage obs' = coverage obs" using coverage_perm [OF assms(2)] by (rule ext)
  have l: "length obs' = length obs" using assms(2) by (rule mset_eq_length)
  have st: "best_step obs' want = best_step obs want"
    unfolding best_step_def [abs_def] c l by (rule refl)
  have "fold (best_step obs want) names' [] = fold (best_step obs want) names []"
    using best_fold [of names' obs want] best_fold [of names obs want] assms(3,4) by (intro best_unique) simp_all
  moreover have "metric_unit obs' name = metric_unit obs name" for name
    using assms(1,2) by (rule metric_unit_perm)
  ultimately show ?thesis by (simp add: selectSignal_def st Let_def)
qed

text \<open>The schedule: a weekday is in it when every one of its days showed the peak.\<close>

definition weekday_sure :: "dayProfile list \<Rightarrow> (dayProfile \<Rightarrow> bool) \<Rightarrow> int \<Rightarrow> bool" where
  "weekday_sure days matched wd \<longleftrightarrow> 2 \<le> fst (weekday_tally days matched wd)
     \<and> snd (weekday_tally days matched wd) \<in> {0, fst (weekday_tally days matched wd)}"

definition weekday_full :: "dayProfile list \<Rightarrow> (dayProfile \<Rightarrow> bool) \<Rightarrow> int \<Rightarrow> bool" where
  "weekday_full days matched wd \<longleftrightarrow> snd (weekday_tally days matched wd) = fst (weekday_tally days matched wd)"

lemma schedule_loop_eq:
  "schedule_loop days matched wds acc =
     (if list_all (weekday_sure days matched) wds
      then Some (fst acc @ filter (weekday_full days matched) wds, snd acc @ filter (\<lambda>wd. \<not> weekday_full days matched wd) wds)
      else None)"
proof (induction wds arbitrary: acc)
  case (Cons wd wds)
  obtain c h where t: "weekday_tally days matched wd = (c, h)" by fastforce
  consider "c < 2" | "2 \<le> c" "h = c" | "2 \<le> c" "h = 0" "h \<noteq> c" | "2 \<le> c" "h \<noteq> 0" "h \<noteq> c" by linarith
  then show ?case
    by cases (simp_all add: t Cons weekday_sure_def [of _ _ wd] weekday_full_def [of _ _ wd])
qed simp

lemma weekday_rank_inj: "inj_on weekday_rank {0..6}"
  by (auto simp: inj_on_def weekday_rank_def)

lemma sort_ranks:
  assumes "mset xs = mset ys" "set xs \<subseteq> {0..6}"
  shows "sort_key weekday_rank xs = sort_key weekday_rank ys"
  using assms inj_on_subset [OF weekday_rank_inj] by (intro sort_key_inj_key_eq) auto

lemma scheduleWeekdays_perm:
  assumes "mset wds' = mset wds" "set wds \<subseteq> {0..6}"
  shows "scheduleWeekdays wds' days matched = scheduleWeekdays wds days matched"
proof -
  have s: "set wds' = set wds" using assms(1) by (rule mset_eq_setD)
  have m: "mset (filter P wds') = mset (filter P wds)" for P using assms(1) by simp
  have e: "filter P wds' = [] \<longleftrightarrow> filter P wds = []" for P using s by (auto simp: filter_empty_conv)
  have k: "sort_key weekday_rank (filter P wds') = sort_key weekday_rank (filter P wds)" for P
    using m s assms(2) by (intro sort_ranks) auto
  show ?thesis by (simp add: scheduleWeekdays_def schedule_loop_eq list_all_iff s e k)
qed

lemma spanHours_perm:
  assumes "mset obs' = mset obs" "obs \<noteq> []"
  shows "spanHours obs' = spanHours obs"
proof -
  have ne: "obs' \<noteq> []" using assms by auto
  have hd_fold: "fold max (tl xs) (hd xs) = Max (set xs)" "fold min (tl xs) (hd xs) = Min (set xs)"
    if "xs \<noteq> []" for xs :: "int list"
    using that Max.set_eq_fold [of "hd xs" "tl xs"] Min.set_eq_fold [of "hd xs" "tl xs"] by simp_all
  have "set (map ob_Timestamp obs') = set (map ob_Timestamp obs)"
    using mset_eq_setD [OF assms(1)] by simp
  then show ?thesis using ne assms(2) by (simp add: spanHours_def Let_def hd_fold del: set_map)
qed

text \<open>C22. Whatever the order of the recorded readings, and whatever the order in which the maps of metric names and
  of weekdays are ranged over, the analysis is the same, for named metrics with one unit each.\<close>

theorem analysis_deterministic:
  assumes "mset obs' = mset obs" and "mset wds' = mset wds" and "set names' = set names"
    and "set wds \<subseteq> {0..6}" and "[] \<notin> set names" and "one_unit obs"
    and "calendar_on (snd (the (so_Location (with_defaults zn opts)))) obs"
  shows "Analyze zn names' wds' obs' opts = Analyze zn names wds obs opts"
proof -
  have e: "obs' = [] \<longleftrightarrow> obs = []" using assms(1) by auto
  have "scheduleWeekdays wds' = scheduleWeekdays wds" using scheduleWeekdays_perm [OF assms(2,4)] by (intro ext)
  then have "season_verdict wds' = season_verdict wds" by (simp only: season_verdict_def [abs_def])
  then have p: "Analyze_profiles wds' = Analyze_profiles wds" by (simp only: Analyze_profiles_def [abs_def])
  show ?thesis
  proof (cases "obs = []")
    case True
    then have "obs' = obs" using e by simp
    then show ?thesis using selectSignal_perm [OF assms(6,1,3,5)]
      unfolding Analyze_def Let_def p by (simp only:)
  next
    case False
    show ?thesis
      unfolding Analyze_def Let_def selectSignal_perm [OF assms(6,1,3,5)] profiles_perm [OF assms(7,1)] p e
        spanHours_perm [OF assms(1) False] by (rule refl)
  qed
qed

subsection \<open>The schedule recommended for a recording\<close>




















lemma filter_none_length: "length (filter P xs) = 0 \<longleftrightarrow> (\<forall>x\<in>set xs. \<not> P x)"
  by (simp add: filter_empty_conv)





subsection \<open>Samples\<close>

text \<open>Two days, Monday 5 and Tuesday 6 January 2026, read at a whole number of hours in UTC.\<close>

definition two_days :: "int \<Rightarrow> local_clock" where
  "two_days t = (let h = quot t Hour
     in if h < 24 then \<lparr>lc_date = ''2026-01-05'', lc_next = ''2026-01-06'', lc_weekday = 1, lc_hour = h, lc_minute = 0\<rparr>
        else \<lparr>lc_date = ''2026-01-06'', lc_next = ''2026-01-07'', lc_weekday = 2, lc_hour = h - 24, lc_minute = 0\<rparr>)"

definition sample_obs :: "observation list" where
  "sample_obs = map (\<lambda>(h, n). \<lparr>ob_Timestamp = h * Hour, ob_Desired = n, ob_Metrics = []\<rparr>) [(1, 2), (13, 10), (25, 2), (37, 10)]"

definition sample_options :: season_options where
  "sample_options = \<lparr>so_BucketMinutes = 720, so_MinDays = 2, so_LeadTime = 0, so_PeakRatio = Fin 0,
     so_Location = Some (''UTC'', two_days), so_Signal = SignalAuto\<rparr>"





lemma two_day_run: "findPeakRun [Fin 2, Fin 10] [True, True] (Fin 9) = Some (1, 1)"
  by code_simp



lemma sample_defaults:
  "with_defaults zn sample_options = \<lparr>so_BucketMinutes = 720, so_MinDays = 2, so_LeadTime = 15 * Minute, so_PeakRatio = Fin (3 / 2),
     so_Location = Some (''UTC'', two_days), so_Signal = SignalAuto\<rparr>"
  by (simp add: with_defaults_def sample_options_def go_rem_def quot_def f_le_def)






theorem peak_run_is_best_witness:
  "findPeakRun [Fin 2, Fin 10] [True, True] (Fin 9) = Some (1, 1) \<and> is_run [Fin 2, Fin 10] [True, True] (Fin 9) 1 1"
  using peak_run_is_best [OF refl, of "[Fin 2, Fin 10]" "[True, True]" 9] two_day_run by simp

theorem analysis_deterministic_witness:
  "Analyze (''UTC'', two_days) [] [2, 1] (rev sample_obs) sample_options = Analyze (''UTC'', two_days) [] [1, 2] sample_obs sample_options"
proof (rule analysis_deterministic)
  show "mset (rev sample_obs) = mset sample_obs" by (rule mset_rev)
  show "calendar_on (snd (the (so_Location (with_defaults (''UTC'', two_days) sample_options)))) sample_obs"
    by (simp add: sample_defaults calendar_on_def sample_obs_def two_days_def quot_def Let_def)
qed (simp_all add: one_unit_def sample_obs_def)



text \<open>
  Replicas that follow the metric with a delay: the metric ramps at noon, the replicas only at six. The
  onset level, and with it the recommended floor, is the two replicas of the baseline.
\<close>

definition lag_days :: "dayProfile list" where
  "lag_days = [\<lparr>dp_date = ''2026-01-05'', dp_nextDate = ''2026-01-06'', dp_weekday = 1,
      dp_signal = [Fin 10, Fin 10, Fin 90, Fin 90], dp_desired = [2, 2, 2, 8]\<rparr>,
     \<lparr>dp_date = ''2026-01-06'', dp_nextDate = ''2026-01-07'', dp_weekday = 2,
      dp_signal = [Fin 10, Fin 10, Fin 90, Fin 90], dp_desired = [2, 2, 2, 8]\<rparr>]"

lemma lag_run: "findPeakRun [Fin 10, Fin 10, Fin 90, Fin 90] [True, True, True, True] (Fin 75) = Some (2, 2)"
  by code_simp

lemma lag_baseline: "f_median (coveredValues [Fin 2, Fin 2, Fin 2, Fin 8] [True, True, True, True]) = Fin 2"
  by code_simp

lemma lag_floor: "pw_OnsetDesired (buildPeakWindow lag_days 2 2 4 360 (Fin 75) True) = 2 \<and> pw_PeakDesired (buildPeakWindow lag_days 2 2 4 360 (Fin 75) True) = 8"
  by code_simp

text \<open>An empty metric name is also the marker that nothing was found: the outcome depends on the map order.\<close>

definition nameless_obs :: "observation list" where
  "nameless_obs = [\<lparr>ob_Timestamp = 0, ob_Desired = 1, ob_Metrics = [\<lparr>ms_Name = [], ms_Value = Fin 1, ms_Unit = []\<rparr>, \<lparr>ms_Name = ''cpu'', ms_Value = Fin 1, ms_Unit = ''%''\<rparr>]\<rparr>]"

lemma nameless_order:
  "selectSignal [''cpu'', []] nameless_obs SignalAuto = ([], [], False, True)"
  "selectSignal [[], ''cpu''] nameless_obs SignalAuto = (''cpu'', ''%'', True, True)"
  by code_simp+

end
