(* ===== verification/WarmUp.thy ===== *)
theory WarmUp
  imports Durations FloatOrder
begin

section \<open>Pods that are warming up\<close>

text \<open>
  \<open>pkg/hpa/warmup/warmup.go\<close> and the evidence tiers of \<open>internal/confidence\<close>: why an autoscaler that has
  scaled out does not have its replicas ready yet. Deprecated fields of the input, which nothing reads,
  are left out. \<open>List\<close>s of the result that Go leaves nil are empty.
\<close>

datatype confidence_level = ConfHigh | ConfMedium | ConfLow
datatype classification = Observed | Estimated | Unknown
datatype severity_level = SevInfo | SevWarning | SevError

fun Classify :: "confidence_level \<Rightarrow> classification" where
  "Classify ConfHigh = Observed"
| "Classify ConfMedium = Estimated"
| "Classify ConfLow = Unknown"

record warm_bottleneck =
  wb_Type :: string
  wb_Severity :: severity_level
  wb_Confidence :: confidence_level
  wb_Count :: int
  wb_Message :: string

record pod_detail =
  pd_Name :: string
  pd_AgeSeconds :: int
  pd_Ready :: bool
  pd_ContainerState :: string
  pd_WaitingReason :: string
  pd_RestartCount :: int
  pd_TimeToReadySeconds :: int

record warm_event =
  we_Reason :: string
  we_Count :: int

record warm_input =
  wi_DesiredReplicas :: int
  wi_CurrentReplicas :: int
  wi_MinReplicas :: int
  wi_ScalingActive :: bool
  wi_ScalingLimited :: bool
  wi_TargetAvailableReplicas :: int
  wi_TotalPods :: int
  wi_ReadyPods :: int
  wi_PodDetails :: "pod_detail list"
  wi_UnhealthyEvents :: "warm_event list"
  wi_ReadinessProbePresent :: bool
  wi_StartupProbePresent :: bool
  wi_StartupProbeMaxDelaySeconds :: int

record warm_analysis =
  wa_Summary :: string
  wa_EffectiveCapacityRatio :: f64
  wa_DesiredReplicas :: int
  wa_CurrentReplicas :: int
  wa_ReadyPods :: int
  wa_AvailablePods :: int
  wa_AvgTimeToReadySeconds :: int
  wa_P95TimeToReadySeconds :: int
  wa_MaxTimeToReadySeconds :: int
  wa_Bottlenecks :: "warm_bottleneck list"
  wa_Evidence :: "string list"
  wa_Impact :: string
  wa_RecommendedActions :: "string list"
  wa_PodDetails :: "pod_detail list"

subsection \<open>State and statistics\<close>

definition isWarmingUp :: "warm_input \<Rightarrow> bool" where
  "isWarmingUp inp =
     (if wi_DesiredReplicas inp \<le> wi_MinReplicas inp then False
      else if wi_ReadyPods inp \<ge> wi_DesiredReplicas inp then False
      else wi_TotalPods inp > 0)"

definition effectiveCapacityRatio :: "int \<Rightarrow> int \<Rightarrow> f64" where
  "effectiveCapacityRatio readyPods desiredReplicas =
     (if desiredReplicas \<le> 0 then Fin 1
      else (let ratio = f_div (f_of_int readyPods) (f_of_int desiredReplicas) in if f_lt ratio (Fin 1) then ratio else Fin 1))"

definition ready_times :: "pod_detail list \<Rightarrow> int list" where
  "ready_times details = map pd_TimeToReadySeconds (filter (\<lambda>d. pd_Ready d \<and> pd_TimeToReadySeconds d > 0) details)"

definition p95_index :: "nat \<Rightarrow> nat" where
  "p95_index n =
     (let i = f_trunc (f_ceil (f_mul (f_of_int (int n)) (mk (95 / 100)))) - 1
      in if i < 0 then 0 else if i \<ge> int n then n - 1 else nat i)"

definition computeTimeToReady :: "pod_detail list \<Rightarrow> int \<times> int \<times> int" where
  "computeTimeToReady details =
     (let times = sort (ready_times details); n = length times
      in if n = 0 then (0, 0, 0)
         else let total = foldl (\<lambda>s t. wrap64 (s + t)) 0 times;
                  maxVal = foldl (\<lambda>m t. if t > m then t else m) 0 times
              in (quot total (int n), times ! p95_index n, maxVal))"

subsection \<open>Classification\<close>

record pod_state_counts =
  psc_runningNotReady :: int
  psc_imagePull :: int
  psc_scheduling :: int
  psc_crashLoop :: int
  psc_unknown :: int

definition count_pod :: "pod_state_counts \<Rightarrow> pod_detail \<Rightarrow> pod_state_counts" where
  "count_pod c pod =
     (if pd_Ready pod then c
      else if pd_WaitingReason pod = ''ImagePullBackOff'' \<or> pd_WaitingReason pod = ''ErrImagePull''
        then c\<lparr>psc_imagePull := wrap32 (psc_imagePull c + 1)\<rparr>
      else if pd_WaitingReason pod = ''CrashLoopBackOff'' then c\<lparr>psc_crashLoop := wrap32 (psc_crashLoop c + 1)\<rparr>
      else if pd_ContainerState pod = [] then c\<lparr>psc_scheduling := wrap32 (psc_scheduling c + 1)\<rparr>
      else if pd_ContainerState pod = ''running'' then c\<lparr>psc_runningNotReady := wrap32 (psc_runningNotReady c + 1)\<rparr>
      else if pd_ContainerState pod = ''terminated'' \<or> pd_RestartCount pod > 3
        then c\<lparr>psc_crashLoop := wrap32 (psc_crashLoop c + 1)\<rparr>
      else c\<lparr>psc_unknown := wrap32 (psc_unknown c + 1)\<rparr>)"

definition countPodStates :: "pod_detail list \<Rightarrow> pod_state_counts" where
  "countPodStates details = foldl count_pod
     \<lparr>psc_runningNotReady = 0, psc_imagePull = 0, psc_scheduling = 0, psc_crashLoop = 0, psc_unknown = 0\<rparr> details"

definition readinessProbeBottlenecks :: "int \<Rightarrow> bool \<Rightarrow> warm_bottleneck list" where
  "readinessProbeBottlenecks runningNotReady probePresent =
     (if runningNotReady \<le> 0 then []
      else if probePresent then
        [\<lparr>wb_Type = ''readiness_probe'', wb_Severity = SevWarning, wb_Confidence = ConfHigh, wb_Count = runningNotReady,
          wb_Message = show_int runningNotReady @ '' pods are Running but not Ready (readinessProbe failing)''\<rparr>]
      else
        [\<lparr>wb_Type = ''unknown'', wb_Severity = SevWarning, wb_Confidence = ConfMedium, wb_Count = runningNotReady,
          wb_Message = show_int runningNotReady @ '' pods are Running but not Ready (no readinessProbe configured)''\<rparr>])"

definition startup_blocked :: "warm_input \<Rightarrow> int" where
  "startup_blocked inp = foldl (\<lambda>n pod. if \<not> pd_Ready pod \<and> pd_ContainerState pod = ''running''
     \<and> pd_AgeSeconds pod < wi_StartupProbeMaxDelaySeconds inp then wrap32 (n + 1) else n) 0 (wi_PodDetails inp)"

definition startupProbeBottleneck :: "warm_input \<Rightarrow> int \<Rightarrow> warm_bottleneck list" where
  "startupProbeBottleneck inp runningNotReady =
     (if \<not> wi_StartupProbePresent inp \<or> runningNotReady \<le> 0 then []
      else if startup_blocked inp \<le> 0 then []
      else [\<lparr>wb_Type = ''startup_probe'', wb_Severity = SevInfo, wb_Confidence = ConfMedium, wb_Count = startup_blocked inp,
             wb_Message = show_int (startup_blocked inp) @ '' pods may still be in startupProbe phase''\<rparr>])"

definition imagePullBottleneck :: "int \<Rightarrow> warm_bottleneck list" where
  "imagePullBottleneck n = (if n \<le> 0 then [] else
     [\<lparr>wb_Type = ''image_pull'', wb_Severity = SevError, wb_Confidence = ConfHigh, wb_Count = n,
       wb_Message = show_int n @ '' pods have image pull issues (ImagePullBackOff/ErrImagePull)''\<rparr>])"

definition schedulingBottleneck :: "int \<Rightarrow> warm_bottleneck list" where
  "schedulingBottleneck n = (if n \<le> 0 then [] else
     [\<lparr>wb_Type = ''scheduling'', wb_Severity = SevWarning, wb_Confidence = ConfHigh, wb_Count = n,
       wb_Message = show_int n @ '' pods are Pending (not yet scheduled)''\<rparr>])"

definition containerCrashBottleneck :: "int \<Rightarrow> warm_bottleneck list" where
  "containerCrashBottleneck n = (if n \<le> 0 then [] else
     [\<lparr>wb_Type = ''container_crash'', wb_Severity = SevError, wb_Confidence = ConfHigh, wb_Count = n,
       wb_Message = show_int n @ '' pods are crash-looping (CrashLoopBackOff or high restart count)''\<rparr>])"

definition unknownBottleneck :: "int \<Rightarrow> warm_bottleneck list" where
  "unknownBottleneck n = (if n \<le> 0 then [] else
     [\<lparr>wb_Type = ''unknown'', wb_Severity = SevInfo, wb_Confidence = ConfLow, wb_Count = n,
       wb_Message = show_int n @ '' pods are not Ready for unknown reasons''\<rparr>])"

definition metricsInactiveBottleneck :: "bool \<Rightarrow> warm_bottleneck list" where
  "metricsInactiveBottleneck scalingActive = (if scalingActive then [] else
     [\<lparr>wb_Type = ''metrics_inactive'', wb_Severity = SevError, wb_Confidence = ConfHigh, wb_Count = 0,
       wb_Message = ''HPA ScalingActive is false; metrics pipeline may be down''\<rparr>])"

definition classifyBottlenecks :: "warm_input \<Rightarrow> warm_bottleneck list" where
  "classifyBottlenecks inp =
     (let c = countPodStates (wi_PodDetails inp)
      in metricsInactiveBottleneck (wi_ScalingActive inp)
         @ readinessProbeBottlenecks (psc_runningNotReady c) (wi_ReadinessProbePresent inp)
         @ startupProbeBottleneck inp (psc_runningNotReady c)
         @ imagePullBottleneck (psc_imagePull c)
         @ schedulingBottleneck (psc_scheduling c)
         @ containerCrashBottleneck (psc_crashLoop c)
         @ unknownBottleneck (psc_unknown c))"

subsection \<open>Texts\<close>

definition bottleneck_evidence :: "warm_input \<Rightarrow> warm_bottleneck \<Rightarrow> string list" where
  "bottleneck_evidence inp b =
     (if wb_Type b = ''readiness_probe'' then [show_int (wb_Count b) @ '' pods are NotReady due to readiness probe failures'']
      else if wb_Type b = ''image_pull'' then [show_int (wb_Count b) @ '' pod(s) waiting: ImagePullBackOff or ErrImagePull'']
      else if wb_Type b = ''scheduling'' then [show_int (wb_Count b) @ '' pod(s) are Pending (unscheduled)'']
      else if wb_Type b = ''container_crash'' then [show_int (wb_Count b) @ '' pod(s) are crash-looping'']
      else if wb_Type b = ''startup_probe'' then
        [show_int (wb_Count b) @ '' pod(s) may still be in startupProbe phase (age < '' @ show_int (wi_StartupProbeMaxDelaySeconds inp) @ ''s)'']
      else [])"

definition buildEvidence :: "warm_input \<Rightarrow> warm_bottleneck list \<Rightarrow> int \<Rightarrow> int \<Rightarrow> string list" where
  "buildEvidence inp bottlenecks avg p95 =
     (if avg > 0 then [''avg time-to-ready: '' @ show_int avg @ ''s''] else [])
     @ (if p95 > 0 then [''p95 time-to-ready: '' @ show_int p95 @ ''s''] else [])
     @ concat (map (bottleneck_evidence inp) bottlenecks)
     @ concat (map (\<lambda>e. if we_Count e > 0 then [''event '' @ we_Reason e @ '' seen '' @ show_int (we_Count e) @ '' times''] else [])
         (wi_UnhealthyEvents inp))"

definition buildImpact :: "warm_input \<Rightarrow> f64 \<Rightarrow> string" where
  "buildImpact inp ratio =
     ''HPA has already requested '' @ show_int (wi_DesiredReplicas inp) @ '' replicas, but effective capacity is only ''
     @ show_int (f_trunc (f_round (f_mul ratio (Fin 100)))) @ ''% ('' @ show_int (wi_ReadyPods inp) @ '' of ''
     @ show_int (wi_DesiredReplicas inp) @ '' pods ready, '' @ show_int (wrap32 (wi_DesiredReplicas inp - wi_ReadyPods inp))
     @ '' still warming up).''"

definition warmupActionTemplates :: "(string \<times> string \<times> string) list" where
  "warmupActionTemplates =
     [(''readiness_probe'', ''probe'', ''Check readinessProbe and startupProbe configuration (initialDelaySeconds, periodSeconds, failureThreshold)''),
      (''image_pull'', ''image'', ''Check image pull latency and registry access (ImagePullBackOff indicates pull failures)''),
      (''scheduling'', ''schedule'', ''Check node capacity and scheduling constraints (Pending pods indicate resource pressure)''),
      (''container_crash'', ''crash'', ''Check container logs for crash reasons (CrashLoopBackOff indicates application errors)''),
      (''startup_probe'', ''startup'', ''Consider increasing startupProbe failureThreshold or periodSeconds''),
      (''metrics_inactive'', ''metrics'', ''Check metrics server and HPA metrics pipeline availability'')]"

definition action_step :: "string \<times> string \<times> string \<Rightarrow> warm_bottleneck \<Rightarrow> string list \<times> string list \<Rightarrow> string list \<times> string list" where
  "action_step tmpl b acc = (case tmpl of (ty, key, message) \<Rightarrow>
     if wb_Type b = ty \<and> key \<notin> set (fst acc) then (fst acc @ [key], snd acc @ [message]) else acc)"

definition buildRecommendedActions :: "warm_bottleneck list \<Rightarrow> warm_input \<Rightarrow> string list" where
  "buildRecommendedActions bottlenecks inp =
     (let (seen, actions) = foldl (\<lambda>acc b. foldl (\<lambda>acc tmpl. action_step tmpl b acc) acc warmupActionTemplates) ([], []) bottlenecks
      in actions
         @ (if wi_ReadinessProbePresent inp \<and> ''prewarm'' \<notin> set seen
            then [''Consider pre-warming or raising minReplicas to reduce cold-start impact''] else [])
         @ (if wi_ScalingLimited inp \<and> ''scale_limit'' \<notin> set seen
            then [''HPA is at maxReplicas; consider raising maxReplicas if demand requires it''] else []))"

subsection \<open>The analysis\<close>

definition AnalyzeWarmup :: "warm_input \<Rightarrow> warm_analysis option" where
  "AnalyzeWarmup inp =
     (if \<not> isWarmingUp inp then None
      else let ratio = effectiveCapacityRatio (wi_ReadyPods inp) (wi_DesiredReplicas inp);
               (avg, p95, maxVal) = computeTimeToReady (wi_PodDetails inp);
               bottlenecks = classifyBottlenecks inp
           in Some \<lparr>wa_Summary = (if f_le (Fin 1) ratio then ''capacity_ready'' else ''capacity_warming_up''),
                wa_EffectiveCapacityRatio = ratio, wa_DesiredReplicas = wi_DesiredReplicas inp,
                wa_CurrentReplicas = wi_CurrentReplicas inp, wa_ReadyPods = wi_ReadyPods inp,
                wa_AvailablePods = wi_TargetAvailableReplicas inp, wa_AvgTimeToReadySeconds = avg,
                wa_P95TimeToReadySeconds = p95, wa_MaxTimeToReadySeconds = maxVal, wa_Bottlenecks = bottlenecks,
                wa_Evidence = buildEvidence inp bottlenecks avg p95, wa_Impact = buildImpact inp ratio,
                wa_RecommendedActions = buildRecommendedActions bottlenecks inp, wa_PodDetails = wi_PodDetails inp\<rparr>)"

subsection \<open>The nearest-rank percentile\<close>

lemma mk_095: "mk (95 / 100) = Fin (4278419646001971 / 4503599627370496)"
  by code_simp

text \<open>A dyadic fraction with a small enough numerator is a double.\<close>

lemma rnd_32nds:
  assumes "0 < m" "m \<le> 4503599627370496"
  shows "rnd (of_int m / 32) = of_int m / 32"
proof -
  let ?x = "of_int m / 32 :: rat"
  have pos: "0 < ?x" using assms by simp
  have "(of_int m :: rat) \<le> of_int 4503599627370496" using assms(2) by (simp only: of_int_le_iff)
  then have "?x < 2 powi 48" by simp
  then have "(2::rat) powi flog2 ?x < 2 powi 48" using flog2_lower [OF pos] by linarith
  then have u: "ulp_exp ?x \<le> - 5" using powi_le_cancel by (fastforce simp: ulp_exp_def)
  let ?u = "ulp_exp ?x"
  have "(1 / 32 :: rat) = 2 powi (- 5)" by (simp add: power_int_def power_one_over)
  also have "\<dots> = 2 powi (- 5 - ?u) * 2 powi ?u" by (simp add: power_int_add [symmetric])
  also have "(2::rat) powi (- 5 - ?u) = of_int (2 ^ nat (- 5 - ?u))" using u by (simp add: powi_2_nonneg)
  finally have "?x = of_int (m * 2 ^ nat (- 5 - ?u)) * 2 powi ?u"
    using arg_cong [of "1 / 32" _ "\<lambda>z. of_int m * z"] by simp
  then have "rnd_pos ?x = ?x" by (rule rnd_pos_exact)
  then show ?thesis using pos by (simp add: rnd_def)
qed

lemma ceil_above:
  assumes "0 \<le> k" "k < 2147483648" "of_int k + 1 / 32 \<le> x" "x \<le> 4294967296"
  shows "k + 1 \<le> f_trunc (f_ceil (mk x))"
proof -
  have x: "\<bar>x\<bar> \<le> 9007199254740992" using assms by simp
  have e: "(of_int k + 1 / 32 :: rat) = of_int (32 * k + 1) / 32" by simp
  have "rnd (of_int (32 * k + 1) / 32) = of_int (32 * k + 1) / 32" using assms(1,2) by (intro rnd_32nds) simp_all
  then have "of_int k + 1 / 32 \<le> rnd x" using rnd_mono [OF assms(3)] unfolding e by linarith
  then have low: "k + 1 \<le> \<lceil>rnd x\<rceil>" by linarith
  have "rnd x \<le> of_int 4294967296" using assms(4) by (intro rnd_le_int) simp_all
  then have "\<lceil>rnd x\<rceil> \<le> 4294967296" by (simp only: ceiling_le_iff)
  then have "\<bar>\<lceil>rnd x\<rceil>\<bar> \<le> 9007199254740992" using low assms(1) by linarith
  then have "mk (of_int \<lceil>rnd x\<rceil>) = Fin (of_int \<lceil>rnd x\<rceil>)" by (rule mk_int)
  then show ?thesis using low assms(1) x by (simp add: mk_small f_ceil_def f_trunc_def)
qed

text \<open>The index of the code is the one of the nearest rank: 95 percent of the count, rounded up.\<close>

lemma p95_index_rank:
  assumes "0 < n" "n \<le> 2147483647"
  shows "int (p95_index n) = (19 * int n + 19) div 20 - 1"
proof -
  let ?r = "(19 * int n + 19) div 20"
  let ?x = "of_nat n * (4278419646001971 / 4503599627370496) :: rat"
  have mul: "f_mul (f_of_int (int n)) (mk (95 / 100)) = mk ?x"
    using assms(2) unfolding mk_095 by simp
  have n: "(0 :: rat) < of_nat n" "of_nat n \<le> (2147483647 :: rat)" using assms by simp_all
  have r: "1 \<le> ?r" "?r \<le> int n" "20 * ?r \<ge> 19 * int n" "20 * ?r \<le> 19 * int n + 19" using assms(1) by linarith+
  have "(of_int (20 * ?r) :: rat) \<ge> of_int (19 * int n)" "(of_int (20 * ?r) :: rat) \<le> of_int (19 * int n + 19)"
    using r(3,4) by (simp_all only: of_int_le_iff)
  then have rr: "20 * (of_int ?r :: rat) \<ge> 19 * of_nat n" "20 * (of_int ?r :: rat) \<le> 19 * of_nat n + 19" by simp_all
  have up: "?x \<le> of_int ?r" using rr(1) n by (simp add: field_simps)
  have low: "of_int (?r - 1) + 1 / 32 \<le> ?x" using rr(2) n by (simp add: field_simps)
  have "?r - 1 + 1 \<le> f_trunc (f_ceil (mk ?x))"
    using r assms(2) n low by (intro ceil_above) simp_all
  moreover have "f_trunc (f_ceil (mk ?x)) \<le> ?r"
  proof (rule ceil_trunc_bounds(2) [where e = 60])
    show "\<bar>?x\<bar> \<le> 2 powi 60" using n by simp
    show "\<bar>?r\<bar> \<le> 9007199254740992" using r assms(2) by simp
  qed (use up in simp_all)
  ultimately have e: "f_trunc (f_ceil (f_mul (f_of_int (int n)) (mk (95 / 100)))) = ?r" unfolding mul by simp
  show ?thesis unfolding p95_index_def e Let_def using r by auto
qed

lemma count_at_rank:
  assumes "sorted s" "i < length s"
  shows "i + 1 \<le> length (filter (\<lambda>t. t \<le> s ! i) s)" "length (filter (\<lambda>t. t < s ! i) s) \<le> i"
proof -
  have split: "length (filter P s) = length (filter P (take k s)) + length (filter P (drop k s))" for P k
    by (metis append_take_drop_id filter_append length_append)
  have "t \<le> s ! i" if "t \<in> set (take (Suc i) s)" for t
    using that assms by (auto simp: in_set_conv_nth intro!: sorted_nth_mono)
  then have "filter (\<lambda>t. t \<le> s ! i) (take (Suc i) s) = take (Suc i) s" by (simp add: filter_id_conv)
  then show "i + 1 \<le> length (filter (\<lambda>t. t \<le> s ! i) s)" using split [of "\<lambda>t. t \<le> s ! i" "Suc i"] assms(2) by simp
  have "\<not> t < s ! i" if "t \<in> set (drop i s)" for t
    using that assms by (auto simp: in_set_conv_nth not_less intro: sorted_nth_mono)
  then have "filter (\<lambda>t. t < s ! i) (drop i s) = []" by (simp add: filter_empty_conv)
  then show "length (filter (\<lambda>t. t < s ! i) s) \<le> i"
    using split [of "\<lambda>t. t < s ! i" i] length_filter_le [of "\<lambda>t. t < s ! i" "take i s"] assms(2) by simp
qed

lemma sum_no_wrap:
  assumes "0 \<le> acc" "\<forall>t\<in>set ts. 0 < t" "acc + sum_list ts \<le> max_int64"
  shows "foldl (\<lambda>s t. wrap64 (s + t)) acc ts = acc + sum_list ts"
  using assms
proof (induction ts arbitrary: acc)
  case (Cons t ts)
  have "0 \<le> sum_list ts" using Cons.prems(2) by (intro sum_list_nonneg) (auto simp: less_imp_le)
  then have "in64 (acc + t)" using Cons.prems by (simp add: in64_def)
  then show ?case using Cons by simp
qed simp

lemma max_loop: "foldl (\<lambda>m t. if t > m then t else m) a ts = Max (insert a (set (ts :: int list)))"
proof (induction ts arbitrary: a)
  case (Cons t ts)
  have "Max (insert (if t > a then t else a) (set ts)) = Max (insert a (insert t (set ts)))"
    by (cases "ts = []") (auto simp: max_def)
  then show ?case using Cons by simp
qed simp

lemma ready_times_pos: "t \<in> set (ready_times details) \<Longrightarrow> 0 < t"
  by (auto simp: ready_times_def)

text \<open>C39. The statistics of the times to ready are those of the recorded times: the 95th percentile is the nearest rank (a recorded time
  that at least 95 percent do not exceed, and fewer than 95 percent stay below), the maximum is attained, and the average is the truncated mean between minimum and maximum.\<close>

theorem time_to_ready_stats:
  assumes "computeTimeToReady details = (avg, p95, maxVal)" and "ts = ready_times details" "ts \<noteq> []"
    and "length ts \<le> 2147483647" "sum_list ts \<le> max_int64"
  shows "p95 \<in> set ts \<and> 19 * length ts \<le> 20 * length (filter (\<lambda>t. t \<le> p95) ts)
    \<and> 20 * length (filter (\<lambda>t. t < p95) ts) < 19 * length ts
    \<and> maxVal = Max (set ts) \<and> avg = sum_list ts div int (length ts) \<and> Min (set ts) \<le> avg \<and> avg \<le> maxVal"
proof -
  let ?s = "sort ts" and ?n = "length ts"
  let ?i = "p95_index ?n"
  have n: "0 < ?n" using assms(3) by simp
  have rank: "int ?i = (19 * int ?n + 19) div 20 - 1" using n assms(4) by (rule p95_index_rank)
  let ?q = "(19 * int ?n + 19) div 20"
  have "20 * ?q \<le> 19 * int ?n + 19" "19 * int ?n \<le> 20 * ?q" by linarith+
  then have r: "19 * int ?n \<le> 20 * (int ?i + 1)" "20 * int ?i < 19 * int ?n" "int ?i < int ?n" using n rank by simp_all
  have i: "?i < length ?s" using r(3) by simp
  have pos: "\<forall>t\<in>set ?s. 0 < t" using ready_times_pos assms(2) by auto
  have sums: "sum_list ?s = sum_list ts" using sum_mset_sum_list [of "?s"] sum_mset_sum_list [of ts] by simp
  have flt: "length (filter P ?s) = length (filter P ts)" for P
    by (metis mset_filter mset_sort size_mset)
  have "foldl (\<lambda>s t. wrap64 (s + t)) 0 ?s = sum_list ts"
    using sum_no_wrap [OF _ pos, of 0] assms(5) by (simp add: sums)
  moreover have "foldl (\<lambda>m t. if t > m then t else m) 0 ?s = Max (set ts)"
  proof -
    have "Max (insert 0 (set ts)) = Max (set ts)"
      using assms(3) pos Max_in [of "set ts"] by (simp add: less_imp_le)
    then show ?thesis by (simp add: max_loop)
  qed
  moreover have nn: "0 \<le> sum_list ts" using pos by (intro sum_list_nonneg) (auto simp: less_imp_le)
  ultimately have res: "avg = sum_list ts div int ?n" "p95 = ?s ! ?i" "maxVal = Max (set ts)"
    using assms(1) n unfolding computeTimeToReady_def assms(2) [symmetric] Let_def length_sort by (auto simp: quot_nonneg)
  have p: "p95 \<in> set ts" using i res(2) nth_mem [OF i] by simp
  have a: "?i + 1 \<le> length (filter (\<lambda>t. t \<le> p95) ts)" "length (filter (\<lambda>t. t < p95) ts) \<le> ?i"
    using count_at_rank [OF _ i] flt by (simp_all add: res(2))
  have c: "19 * ?n \<le> 20 * length (filter (\<lambda>t. t \<le> p95) ts)" "20 * length (filter (\<lambda>t. t < p95) ts) < 19 * ?n"
  proof -
    have "int (19 * ?n) \<le> int (20 * (?i + 1))" "int (20 * ?i) < int (19 * ?n)" using r(1,2) by simp_all
    then have "19 * ?n \<le> 20 * (?i + 1)" "20 * ?i < 19 * ?n" by (simp_all only: of_nat_le_iff of_nat_less_iff)
    moreover have "20 * (?i + 1) \<le> 20 * length (filter (\<lambda>t. t \<le> p95) ts)"
      "20 * length (filter (\<lambda>t. t < p95) ts) \<le> 20 * ?i" using a by simp_all
    ultimately have "19 * ?n \<le> 20 * length (filter (\<lambda>t. t \<le> p95) ts) \<and> 20 * length (filter (\<lambda>t. t < p95) ts) < 19 * ?n"
      by linarith
    then show "19 * ?n \<le> 20 * length (filter (\<lambda>t. t \<le> p95) ts)" "20 * length (filter (\<lambda>t. t < p95) ts) < 19 * ?n"
      by blast+
  qed
  have "Min (set ts) * int ?n \<le> sum_list ts" "sum_list ts \<le> Max (set ts) * int ?n"
    using sum_list_mono [of ts "\<lambda>_. Min (set ts)" "\<lambda>t. t"] sum_list_mono [of ts "\<lambda>t. t" "\<lambda>_. Max (set ts)"] assms(3)
    by (simp_all add: sum_list_triv mult.commute)
  then have "Min (set ts) \<le> avg" "avg \<le> maxVal"
    using n zdiv_mono1 [of "Min (set ts) * int ?n" "sum_list ts" "int ?n"] zdiv_mono1 [of "sum_list ts" "Max (set ts) * int ?n" "int ?n"]
    unfolding res by simp_all
  then show ?thesis using p c res by blast
qed

subsection \<open>Every pod that is not ready is counted once\<close>

definition count_sum :: "pod_state_counts \<Rightarrow> int" where
  "count_sum c = psc_runningNotReady c + psc_imagePull c + psc_scheduling c + psc_crashLoop c + psc_unknown c"

definition counts_ok :: "pod_state_counts \<Rightarrow> bool" where
  "counts_ok c \<longleftrightarrow> 0 \<le> psc_runningNotReady c \<and> 0 \<le> psc_imagePull c \<and> 0 \<le> psc_scheduling c \<and> 0 \<le> psc_crashLoop c \<and> 0 \<le> psc_unknown c"

lemma count_pod_sum:
  assumes "counts_ok c" "count_sum c < 2147483647"
  shows "counts_ok (count_pod c pod) \<and> count_sum (count_pod c pod) = count_sum c + (if pd_Ready pod then 0 else 1)"
  using assms by (simp add: count_pod_def counts_ok_def count_sum_def)

lemma counts_fold:
  assumes "counts_ok c" "count_sum c + int (length (filter (\<lambda>d. \<not> pd_Ready d) details)) \<le> 2147483647"
  shows "counts_ok (foldl count_pod c details)
    \<and> count_sum (foldl count_pod c details) = count_sum c + int (length (filter (\<lambda>d. \<not> pd_Ready d) details))"
  using assms
proof (induction details arbitrary: c)
  case (Cons d details)
  show ?case
  proof (cases "pd_Ready d")
    case True
    then have "count_pod c d = c" by (simp add: count_pod_def)
    then show ?thesis using Cons True by simp
  next
    case False
    then have "count_sum c < 2147483647" using Cons.prems(2) by simp
    then have "counts_ok (count_pod c d) \<and> count_sum (count_pod c d) = count_sum c + 1"
      using count_pod_sum [OF Cons.prems(1), of d] False by simp
    then show ?thesis using Cons.IH [of "count_pod c d"] Cons.prems(2) False by simp
  qed
qed simp

text \<open>The bottlenecks that stand for pods, apart from the start-up probes, which repeat pods of the readiness probe.\<close>

definition counts_pods :: "warm_bottleneck \<Rightarrow> bool" where
  "counts_pods b \<longleftrightarrow> wb_Type b \<noteq> ''startup_probe''"

text \<open>The bottlenecks count every pod that is not ready exactly once, the start-up probes apart, which repeat pods of the readiness probe,
  and no bottleneck of pods is empty.\<close>

theorem bottlenecks_partition_pods:
  assumes "length (filter (\<lambda>d. \<not> pd_Ready d) (wi_PodDetails inp)) \<le> 2147483647"
  shows "(\<Sum>b\<leftarrow>filter counts_pods (classifyBottlenecks inp). wb_Count b)
      = int (length (filter (\<lambda>d. \<not> pd_Ready d) (wi_PodDetails inp)))
    \<and> (\<forall>b\<in>set (classifyBottlenecks inp). wb_Type b \<noteq> ''metrics_inactive'' \<longrightarrow> 0 < wb_Count b)"
proof -
  let ?c = "countPodStates (wi_PodDetails inp)"
  let ?zero = "\<lparr>psc_runningNotReady = 0, psc_imagePull = 0, psc_scheduling = 0, psc_crashLoop = 0, psc_unknown = 0\<rparr>"
  have "counts_ok ?zero" "count_sum ?zero = 0" by (simp_all add: counts_ok_def count_sum_def)
  then have "counts_ok ?c \<and> count_sum ?c = int (length (filter (\<lambda>d. \<not> pd_Ready d) (wi_PodDetails inp)))"
    using counts_fold [of ?zero "wi_PodDetails inp"] assms unfolding countPodStates_def by simp
  moreover have "(\<Sum>b\<leftarrow>filter counts_pods (readinessProbeBottlenecks n p). wb_Count b) = max 0 n"
    "(\<Sum>b\<leftarrow>filter counts_pods (startupProbeBottleneck inp n). wb_Count b) = 0"
    "(\<Sum>b\<leftarrow>filter counts_pods (imagePullBottleneck n). wb_Count b) = max 0 n"
    "(\<Sum>b\<leftarrow>filter counts_pods (schedulingBottleneck n). wb_Count b) = max 0 n"
    "(\<Sum>b\<leftarrow>filter counts_pods (containerCrashBottleneck n). wb_Count b) = max 0 n"
    "(\<Sum>b\<leftarrow>filter counts_pods (unknownBottleneck n). wb_Count b) = max 0 n"
    "(\<Sum>b\<leftarrow>filter counts_pods (metricsInactiveBottleneck p). wb_Count b) = 0" for n p
    by (simp_all add: counts_pods_def readinessProbeBottlenecks_def startupProbeBottleneck_def imagePullBottleneck_def
        schedulingBottleneck_def containerCrashBottleneck_def unknownBottleneck_def metricsInactiveBottleneck_def max_def)
  moreover have "\<forall>b\<in>set (classifyBottlenecks inp). wb_Type b \<noteq> ''metrics_inactive'' \<longrightarrow> 0 < wb_Count b"
    by (auto simp: classifyBottlenecks_def Let_def readinessProbeBottlenecks_def startupProbeBottleneck_def imagePullBottleneck_def
        schedulingBottleneck_def containerCrashBottleneck_def unknownBottleneck_def metricsInactiveBottleneck_def split: if_splits)
  ultimately show ?thesis
    by (simp add: classifyBottlenecks_def Let_def counts_ok_def count_sum_def max_absorb2)
qed

text \<open>An analysis that is returned always says that capacity is warming up.\<close>

lemma mk_below_one: "mk (2147483647 / 2147483648) = Fin (2147483647 / 2147483648)"
  by code_simp

text \<open>A warm-up analysis that is returned always has the summary that capacity is warming up, with an effective capacity
  ratio in [0, 1): the rounding of the quotient never reaches one.\<close>

lemma warming_up_always:
  assumes "AnalyzeWarmup inp = Some a" "0 \<le> wi_ReadyPods inp" "0 \<le> wi_MinReplicas inp" "in32 (wi_DesiredReplicas inp)"
  shows "wa_Summary a = ''capacity_warming_up'' \<and> f_lt (wa_EffectiveCapacityRatio a) (Fin 1) \<and> f_nonneg (wa_EffectiveCapacityRatio a)"
proof -
  let ?r = "wi_ReadyPods inp" and ?d = "wi_DesiredReplicas inp"
  have w: "?r < ?d" "0 < ?d" "?d \<le> 2147483647"
    using assms by (auto simp: AnalyzeWarmup_def isWarmingUp_def in32_def split: if_splits)
  have e: "effectiveCapacityRatio ?r ?d = (if f_lt (mk (of_int ?r / of_int ?d)) (Fin 1) then mk (of_int ?r / of_int ?d) else Fin 1)"
    using w assms(2) by (simp add: effectiveCapacityRatio_def Let_def)
  have "2147483648 * ?r \<le> 2147483647 * ?d" using w assms(2) by linarith
  then have "(of_int (2147483648 * ?r) :: rat) \<le> of_int (2147483647 * ?d)" by (simp only: of_int_le_iff)
  then have "(of_int ?r / of_int ?d :: rat) \<le> 2147483647 / 2147483648" using w(2) by (simp add: field_simps)
  then have "f_le (mk (of_int ?r / of_int ?d)) (Fin (2147483647 / 2147483648))" using mk_mono unfolding mk_below_one [symmetric] by blast
  then have lt: "f_lt (mk (of_int ?r / of_int ?d)) (Fin 1)"
    by (cases "mk (of_int ?r / of_int ?d)") (auto simp: f_le_def f_eq_def)
  have nn: "f_nonneg (mk (of_int ?r / of_int ?d))" using w(2) assms(2) by (intro mk_nonneg) simp
  have "\<not> f_le (Fin 1) (mk (of_int ?r / of_int ?d))" using lt by (cases "mk (of_int ?r / of_int ?d)") (auto simp: f_le_def f_eq_def)
  then show ?thesis using assms(1) lt nn by (auto simp: AnalyzeWarmup_def e Let_def split: if_splits prod.splits)
qed

subsection \<open>Samples\<close>

definition sample_pod :: "string \<Rightarrow> bool \<Rightarrow> string \<Rightarrow> string \<Rightarrow> int \<Rightarrow> int \<Rightarrow> pod_detail" where
  "sample_pod name ready st reason restarts ttr = \<lparr>pd_Name = name, pd_AgeSeconds = 20, pd_Ready = ready, pd_ContainerState = st,
     pd_WaitingReason = reason, pd_RestartCount = restarts, pd_TimeToReadySeconds = ttr\<rparr>"

definition warm_pods :: "pod_detail list" where
  "warm_pods = [sample_pod ''a'' True ''running'' [] 0 30, sample_pod ''b'' True ''running'' [] 0 10,
     sample_pod ''c'' False ''running'' [] 9 0, sample_pod ''d'' False ''waiting'' ''ErrImagePull'' 0 0]"

definition warm_sample :: warm_input where
  "warm_sample = \<lparr>wi_DesiredReplicas = 4, wi_CurrentReplicas = 4, wi_MinReplicas = 1, wi_ScalingActive = True, wi_ScalingLimited = False,
     wi_TargetAvailableReplicas = 2, wi_TotalPods = 4, wi_ReadyPods = 2, wi_PodDetails = warm_pods, wi_UnhealthyEvents = [],
     wi_ReadinessProbePresent = True, wi_StartupProbePresent = False, wi_StartupProbeMaxDelaySeconds = 0\<rparr>"

text \<open>A warning stands before an error, and a pod with nine restarts counts as a failing probe.\<close>

lemma bottleneck_order:
  "map (\<lambda>b. (wb_Type b, wb_Severity b, wb_Count b)) (classifyBottlenecks warm_sample)
    = [(''readiness_probe'', SevWarning, 1), (''image_pull'', SevError, 1)]"
  by code_simp

lemma warm_times: "computeTimeToReady warm_pods = (20, 30, 30)"
  by code_simp

theorem time_to_ready_stats_witness:
  "19 * length (ready_times warm_pods) \<le> 20 * length (filter (\<lambda>t. t \<le> 30) (ready_times warm_pods))"
proof -
  have "ready_times warm_pods = [30, 10]" by code_simp
  then show ?thesis using time_to_ready_stats [OF warm_times refl] by simp
qed

theorem bottlenecks_partition_pods_witness:
  "(\<Sum>b\<leftarrow>filter counts_pods (classifyBottlenecks warm_sample). wb_Count b) = 2"
  using bottlenecks_partition_pods [of warm_sample] by (simp add: warm_sample_def warm_pods_def sample_pod_def)

lemma warming_up_always_sample:
  "wa_Summary (the (AnalyzeWarmup warm_sample)) = ''capacity_warming_up''"
proof -
  have "isWarmingUp warm_sample" by code_simp
  moreover have "wi_PodDetails warm_sample = warm_pods" by (simp add: warm_sample_def)
  ultimately obtain a where "AnalyzeWarmup warm_sample = Some a" by (simp add: AnalyzeWarmup_def Let_def warm_times)
  then show ?thesis using warming_up_always [of warm_sample a] by (simp add: warm_sample_def in32_def)
qed

end
