(* ===== verification/CapacityFit.thy ===== *)
theory CapacityFit
  imports PatchJson
begin

section \<open>How many pods fit\<close>

text \<open>
  The inputs of a capacity plan (\<open>pkg/hpa/capacityplan/capacity_types.go\<close>, the node summary of
  \<open>blocker/blocker.go\<close>), the demand of a pod and the number of pods that fit in the resources of a node
  (\<open>capacity_plan_math.go\<close>). Quantities are those of the Kubernetes library: \<open>k8s_arith\<close> adds their
  arithmetic to \<open>k8s_lib\<close>, and \<open>quantity_laws\<close> states what its documentation says of them, relative to
  the number \<open>num\<close> a quantity stands for.
\<close>

record ('q, 's) k8s_arith = "('q, 's) k8s_lib" +
  q_zero :: 'q                            \<comment> \<open>\<open>resource.Quantity{}\<close>\<close>
  q_add :: "'q \<Rightarrow> 'q \<Rightarrow> 'q"
  q_sub :: "'q \<Rightarrow> 'q \<Rightarrow> 'q"
  q_mul :: "'q \<Rightarrow> int \<Rightarrow> 'q"
  q_new :: "int \<Rightarrow> 'q"                    \<comment> \<open>\<open>resource.NewQuantity\<close>\<close>
  q_value :: "'q \<Rightarrow> int"                  \<comment> \<open>\<open>Quantity.Value\<close>\<close>

definition quantity_laws :: "('q, 's) k8s_arith \<Rightarrow> ('q \<Rightarrow> rat) \<Rightarrow> bool" where
  "quantity_laws K num \<longleftrightarrow>
     (\<forall>a b. (q_cmp K a b < 0 \<longleftrightarrow> num a < num b) \<and> (q_cmp K a b > 0 \<longleftrightarrow> num a > num b))
   \<and> (\<forall>a. q_isZero K a \<longleftrightarrow> num a = 0) \<and> (\<forall>a. q_sign K a < 0 \<longleftrightarrow> num a < 0)
   \<and> num (q_zero K) = 0 \<and> (\<forall>n. num (q_new K n) = of_int n)
   \<and> (\<forall>a b. num (q_add K a b) = num a + num b) \<and> (\<forall>a b. num (q_sub K a b) = num a - num b)
   \<and> (\<forall>a n. num (q_mul K a n) = of_int n * num a)"

subsection \<open>Inputs\<close>

record cap_container =
  cn_Name :: string
  cn_CPU :: string
  cn_Memory :: string
  cn_LimitCPU :: string
  cn_LimitMemory :: string

record cap_quota =
  cq_Name :: string
  cq_Resource :: string
  cq_Used :: string
  cq_Hard :: string
  cq_UsageObserved :: "bool option"
  cq_HardObserved :: "bool option"
  cq_Scoped :: bool

record limit_range =
  lr_Name :: string
  lr_Type :: string
  lr_Resource :: string
  lr_Min :: string
  lr_Max :: string
  lr_Default :: string
  lr_DefaultRequest :: string
  lr_MaxLimitRequestRatio :: string

record node_headroom =
  nh_Name :: string
  nh_AvailableCPU :: string
  nh_AvailableMemory :: string
  nh_PodCapacityKnown :: bool
  nh_AvailablePods :: int

record node_capacity =
  nc_TotalNodes :: int
  nc_SchedulableNodes :: int
  nc_SchedulableNodesKnown :: bool
  nc_AllocCPU :: string
  nc_AllocMemory :: string
  nc_RequestedCPU :: string
  nc_RequestedMemory :: string
  nc_AvailableCPU :: string
  nc_AvailableMemory :: string
  nc_PodCapacityKnown :: bool
  nc_AllocPods :: int
  nc_RequestedPods :: int
  nc_AvailablePods :: int
  nc_TaintedNodes :: int
  nc_NodeHeadrooms :: "node_headroom list"
  nc_Hints :: "string list"

record obs_error =
  oe_Domain :: string
  oe_Source :: string
  oe_Message :: string

record pending_pod =
  pp_Name :: string
  pp_Phase :: string
  pp_Unschedulable :: bool
  pp_Reasons :: "string list"

record pdb_info =
  pdb_Name :: string
  pdb_MinAvailable :: string
  pdb_MaxUnavailable :: string
  pdb_Disruption :: string

record cap_input =
  ci_Namespace :: string
  ci_HPAName :: string
  ci_Target :: string
  ci_CurrentReplicas :: int
  ci_MaxReplicas :: int
  ci_TargetMaxReplicas :: int
  ci_ContainerResources :: "cap_container list"
  ci_PodRequestCPU :: string
  ci_PodRequestMemory :: string
  ci_PodLimitCPU :: string
  ci_PodLimitMemory :: string
  ci_PodLevelRequestCPU :: string
  ci_PodLevelRequestMemory :: string
  ci_PodLevelLimitCPU :: string
  ci_PodLevelLimitMemory :: string
  ci_Quotas :: "cap_quota list"
  ci_LimitRanges :: "limit_range list"
  ci_NodeCapacity :: "node_capacity option"
  ci_PendingPods :: "pending_pod list"
  ci_PDBs :: "pdb_info list"
  ci_ClusterAutoscaler :: bool
  ci_ReadyPods :: int
  ci_ObservationErrors :: "obs_error list"

subsection \<open>The demand of a pod\<close>

definition parseQuantityOrZero :: "('q, 's) k8s_arith \<Rightarrow> string \<Rightarrow> 'q" where
  "parseQuantityOrZero K s = (case q_parse K s of Inl _ \<Rightarrow> q_zero K | Inr q \<Rightarrow> q)"

definition Multiply :: "('q, 's) k8s_arith \<Rightarrow> 'q \<Rightarrow> int \<Rightarrow> 'q" where
  "Multiply K q factor = (if factor \<le> 0 \<or> q_isZero K q then q_zero K else q_mul K q factor)"

definition sumContainerResources :: "('q, 's) k8s_arith \<Rightarrow> cap_container list \<Rightarrow> 'q \<times> 'q" where
  "sumContainerResources K cs = foldl (\<lambda>(cpu, mem) c.
     (if cn_CPU c \<noteq> [] \<and> cn_CPU c \<noteq> ''0'' then q_add K cpu (parseQuantityOrZero K (cn_CPU c)) else cpu,
      if cn_Memory c \<noteq> [] \<and> cn_Memory c \<noteq> ''0'' then q_add K mem (parseQuantityOrZero K (cn_Memory c)) else mem))
     (q_zero K, q_zero K) cs"

definition effectivePerPodResources :: "('q, 's) k8s_arith \<Rightarrow> cap_input \<Rightarrow> 'q \<times> 'q" where
  "effectivePerPodResources K inp =
     (let (cpu, mem) = sumContainerResources K (ci_ContainerResources inp)
      in (if ci_PodRequestCPU inp \<noteq> [] then parseQuantityOrZero K (ci_PodRequestCPU inp) else cpu,
          if ci_PodRequestMemory inp \<noteq> [] then parseQuantityOrZero K (ci_PodRequestMemory inp) else mem))"

definition sum_limits :: "('q, 's) k8s_arith \<Rightarrow> cap_container list \<Rightarrow> 'q \<times> 'q" where
  "sum_limits K cs = foldl (\<lambda>(cpu, mem) c.
     (if cn_LimitCPU c \<noteq> [] then q_add K cpu (parseQuantityOrZero K (cn_LimitCPU c)) else cpu,
      if cn_LimitMemory c \<noteq> [] then q_add K mem (parseQuantityOrZero K (cn_LimitMemory c)) else mem))
     (q_zero K, q_zero K) cs"

definition effectivePerPodLimits :: "('q, 's) k8s_arith \<Rightarrow> cap_input \<Rightarrow> 'q \<times> 'q" where
  "effectivePerPodLimits K inp =
     (let (cpu, mem) = sum_limits K (ci_ContainerResources inp)
      in (if ci_PodLimitCPU inp \<noteq> [] then parseQuantityOrZero K (ci_PodLimitCPU inp) else cpu,
          if ci_PodLimitMemory inp \<noteq> [] then parseQuantityOrZero K (ci_PodLimitMemory inp) else mem))"

subsection \<open>The search\<close>

lemma mid_between:
  assumes "low + 1 < high"
  shows "0 < quot (high - low) 2" "quot (high - low) 2 < high - low"
proof -
  have "quot (high - low) 2 = (high - low) div 2" using assms by (simp add: quot_nonneg)
  then show "0 < quot (high - low) 2" "quot (high - low) 2 < high - low" using assms by linarith+
qed

function fit_search :: "(int \<Rightarrow> bool) \<Rightarrow> int \<Rightarrow> int \<Rightarrow> int" where
  "fit_search fits low high =
     (if low + 1 < high
      then (let mid = low + quot (high - low) 2 in if fits mid then fit_search fits mid high else fit_search fits low mid)
      else low)"
  by pat_completeness auto

termination
  by (relation "measure (\<lambda>(fits, low, high). nat (high - low))") (auto simp: Let_def mid_between)

declare fit_search.simps [simp del]

definition pod_fits :: "('q, 's) k8s_arith \<Rightarrow> 'q \<Rightarrow> 'q \<Rightarrow> 'q \<Rightarrow> 'q \<Rightarrow> int \<Rightarrow> bool" where
  "pod_fits K availableCPU availableMemory perPodCPU perPodMemory n =
     (if \<not> q_isZero K perPodCPU \<and> q_cmp K availableCPU (Multiply K perPodCPU n) < 0 then False
      else q_isZero K perPodMemory \<or> q_cmp K availableMemory (Multiply K perPodMemory n) \<ge> 0)"

definition podsFitInResources :: "('q, 's) k8s_arith \<Rightarrow> 'q \<Rightarrow> 'q \<Rightarrow> 'q \<Rightarrow> 'q \<Rightarrow> int" where
  "podsFitInResources K availableCPU availableMemory perPodCPU perPodMemory =
     (if q_isZero K perPodCPU \<and> q_isZero K perPodMemory then max_int32
      else wrap32 (fit_search (pod_fits K availableCPU availableMemory perPodCPU perPodMemory) 0 (max_int32 + 1)))"

definition node_fit :: "('q, 's) k8s_arith \<Rightarrow> 'q \<Rightarrow> 'q \<Rightarrow> node_headroom \<Rightarrow> int" where
  "node_fit K perPodCPU perPodMemory node =
     (let nodeFit = podsFitInResources K (parseQuantityOrZero K (nh_AvailableCPU node))
            (parseQuantityOrZero K (nh_AvailableMemory node)) perPodCPU perPodMemory
      in if nh_PodCapacityKnown node \<and> nodeFit > nh_AvailablePods node then nh_AvailablePods node else nodeFit)"

text \<open>The loop over the nodes, up to saturation.\<close>

fun sum_node_fits :: "('q, 's) k8s_arith \<Rightarrow> 'q \<Rightarrow> 'q \<Rightarrow> int \<Rightarrow> node_headroom list \<Rightarrow> int" where
  "sum_node_fits K perPodCPU perPodMemory acc [] = wrap32 acc"
| "sum_node_fits K perPodCPU perPodMemory acc (node # nodes) =
     (let nodeFit = node_fit K perPodCPU perPodMemory node;
          acc1 = (if nodeFit > 0 then wrap64 (acc + nodeFit) else acc)
      in if acc1 \<ge> max_int32 then max_int32 else sum_node_fits K perPodCPU perPodMemory acc1 nodes)"

definition computeSchedulableNow :: "('q, 's) k8s_arith \<Rightarrow> node_capacity option \<Rightarrow> 'q \<Rightarrow> 'q \<Rightarrow> int \<Rightarrow> int" where
  "computeSchedulableNow K nc perPodCPU perPodMemory readyPods = (case nc of None \<Rightarrow> 0 | Some nc \<Rightarrow>
     if nc_TotalNodes nc = 0 then 0
     else if nc_NodeHeadrooms nc \<noteq> [] then sum_node_fits K perPodCPU perPodMemory 0 (nc_NodeHeadrooms nc)
     else let (remainingCPU, remainingMem) =
                (if nc_AvailableCPU nc \<noteq> [] \<or> nc_AvailableMemory nc \<noteq> []
                 then (parseQuantityOrZero K (nc_AvailableCPU nc), parseQuantityOrZero K (nc_AvailableMemory nc))
                 else (q_sub K (parseQuantityOrZero K (nc_AllocCPU nc)) (Multiply K perPodCPU readyPods),
                       q_sub K (parseQuantityOrZero K (nc_AllocMemory nc)) (Multiply K perPodMemory readyPods)));
              fit = podsFitInResources K remainingCPU remainingMem perPodCPU perPodMemory
          in if nc_PodCapacityKnown nc \<and> fit > nc_AvailablePods nc
             then (if nc_AvailablePods nc \<le> 0 then 0 else wrap32 (min (nc_AvailablePods nc) max_int32))
             else fit)"

subsection \<open>Facts\<close>

lemma quantity_lawsD:
  assumes "quantity_laws K num"
  shows "q_cmp K a b < 0 \<longleftrightarrow> num a < num b" "q_cmp K a b > 0 \<longleftrightarrow> num a > num b" "q_cmp K a b \<ge> 0 \<longleftrightarrow> num b \<le> num a"
    "q_isZero K a \<longleftrightarrow> num a = 0" "q_sign K a < 0 \<longleftrightarrow> num a < 0" "num (q_zero K) = 0" "num (q_new K n) = of_int n"
    "num (q_add K a b) = num a + num b" "num (q_sub K a b) = num a - num b" "num (q_mul K a n) = of_int n * num a"
  using assms unfolding quantity_laws_def by (auto simp: not_less [symmetric])

lemma num_Multiply: "quantity_laws K num \<Longrightarrow> 0 \<le> n \<Longrightarrow> num (Multiply K q n) = of_int n * num q"
  by (auto simp: Multiply_def quantity_lawsD)

text \<open>The search ends next to a count that fits and before one that does not.\<close>

lemma fit_search_boundary:
  assumes "low < high"
  shows "low \<le> fit_search fits low high \<and> fit_search fits low high < high
    \<and> (fit_search fits low high = low \<or> fits (fit_search fits low high))
    \<and> (fit_search fits low high + 1 = high \<or> \<not> fits (fit_search fits low high + 1))"
  using assms
proof (induction fits low high rule: fit_search.induct)
  case (1 fits low high)
  let ?mid = "low + quot (high - low) 2"
  show ?case
  proof (cases "low + 1 < high")
    case True
    note m = mid_between [OF True]
    show ?thesis
    proof (cases "fits ?mid")
      case f: True
      then have "fit_search fits low high = fit_search fits ?mid high" using True by (simp add: fit_search.simps [of fits low high] Let_def)
      then show ?thesis using 1(1) [OF True refl f] m f by force
    next
      case f: False
      then have "fit_search fits low high = fit_search fits low ?mid" using True by (simp add: fit_search.simps [of fits low high] Let_def)
      then show ?thesis using 1(2) [OF True refl f] m f by force
    qed
  next
    case False
    then have "fit_search fits low high = low" by (simp add: fit_search.simps [of fits low high])
    then show ?thesis using False 1(3) by simp
  qed
qed

lemma fit_search_max:
  assumes "low < high" "\<And>a b. low < a \<Longrightarrow> a \<le> b \<Longrightarrow> fits b \<Longrightarrow> fits a" "low < c" "c < high"
  shows "fits c \<longleftrightarrow> c \<le> fit_search fits low high"
proof
  note b = fit_search_boundary [OF assms(1), of fits]
  show "c \<le> fit_search fits low high" if "fits c"
  proof (rule ccontr)
    assume "\<not> c \<le> fit_search fits low high"
    then have "fit_search fits low high + 1 \<le> c" by simp
    then have "fits (fit_search fits low high + 1)" using assms(2) [OF _ _ that] b by simp
    then show False using b assms(4) \<open>fit_search fits low high + 1 \<le> c\<close> by auto
  qed
  show "fits c" if "c \<le> fit_search fits low high"
    using b that assms(2) [OF assms(3) that] assms(3) by auto
qed

text \<open>What it means that a number of pods fits.\<close>

definition resources_hold :: "rat \<Rightarrow> rat \<Rightarrow> rat \<Rightarrow> rat \<Rightarrow> int \<Rightarrow> bool" where
  "resources_hold cpu mem podCPU podMem n \<longleftrightarrow>
     (podCPU = 0 \<or> of_int n * podCPU \<le> cpu) \<and> (podMem = 0 \<or> of_int n * podMem \<le> mem)"

lemma pod_fits_holds:
  assumes "quantity_laws K num" "0 \<le> n"
  shows "pod_fits K aC aM pC pM n \<longleftrightarrow> resources_hold (num aC) (num aM) (num pC) (num pM) n"
  using assms by (auto simp: pod_fits_def resources_hold_def quantity_lawsD num_Multiply)

lemma podsFit_max:
  assumes "quantity_laws K num" "0 \<le> num pC" "0 \<le> num pM" and "r = podsFitInResources K aC aM pC pM"
  shows "0 \<le> r \<and> r \<le> max_int32 \<and> (\<forall>n. 1 \<le> n \<and> n \<le> max_int32 \<longrightarrow>
    (n \<le> r \<longleftrightarrow> resources_hold (num aC) (num aM) (num pC) (num pM) n))"
proof (cases "q_isZero K pC \<and> q_isZero K pM")
  case True
  then have "num pC = 0 \<and> num pM = 0" using assms(1) by (simp add: quantity_lawsD)
  then show ?thesis using True by (simp add: assms(4) podsFitInResources_def resources_hold_def)
next
  case False
  let ?fits = "pod_fits K aC aM pC pM"
  let ?r = "fit_search ?fits 0 (max_int32 + 1)"
  have b: "0 \<le> ?r" "?r < max_int32 + 1" using fit_search_boundary [of 0 "max_int32 + 1" ?fits] by simp_all
  then have r: "r = ?r" using False by (auto simp: assms(4) podsFitInResources_def)
  have mono: "?fits a" if "0 < a" "a \<le> b" "?fits b" for a b
  proof -
    have "(of_int a :: rat) \<le> of_int b" using that(2) by simp
    then have "of_int a * num pC \<le> of_int b * num pC" "of_int a * num pM \<le> of_int b * num pM"
      using assms(2,3) by (simp_all add: mult_right_mono)
    then show ?thesis using that by (auto simp: pod_fits_holds [OF assms(1)] resources_hold_def)
  qed
  show ?thesis
    unfolding r using b fit_search_max [of 0 "max_int32 + 1" ?fits, OF _ mono] by (auto simp: pod_fits_holds [OF assms(1)])
qed

text \<open>C15. The binary search for the pods that fit on a node finds the maximum: a count up to the largest int32 fits the free CPU and
  memory exactly when it is not above the result.\<close>

theorem pods_fit_is_maximum:
  assumes "quantity_laws K num" "0 \<le> num pC" "0 \<le> num pM" and "r = podsFitInResources K aC aM pC pM"
  shows "0 \<le> r \<and> r \<le> max_int32 \<and> (\<forall>n. 1 \<le> n \<and> n \<le> max_int32 \<longrightarrow>
    (n \<le> r \<longleftrightarrow> resources_hold (num aC) (num aM) (num pC) (num pM) n))"
  by (rule podsFit_max [OF assms])

subsection \<open>A concrete library\<close>

definition int_arith :: "(int, string) k8s_arith" where
  "int_arith = k8s_lib.extend int_lib (k8s_arith.fields 0 (+) (-) (\<lambda>a n. n * a) (\<lambda>n. n) (\<lambda>n. n))"

lemma int_arith_laws: "quantity_laws int_arith of_int"
  by (auto simp: quantity_laws_def int_arith_def int_lib_def k8s_lib.extend_def k8s_arith.fields_def sgn_if)

theorem pods_fit_is_maximum_witness:
  "2 \<le> podsFitInResources int_arith 6 4 1 2 \<and> \<not> 3 \<le> podsFitInResources int_arith 6 4 1 2"
  using pods_fit_is_maximum [OF int_arith_laws, of 1 2 "podsFitInResources int_arith 6 4 1 2" 6 4]
  by (simp add: resources_hold_def)

end
