(* ===== verification/PodResources.thy ===== *)
theory PodResources
  imports CapacityFit "HOL-Library.AList"
begin

section \<open>What a pod reserves\<close>

text \<open>
  \<open>internal/kube/resources.go\<close>: the resources of a whole pod, from its containers, its init containers, its
  pod-level resources and its overhead, and the defaults a pod receives on admission. A \<open>ResourceList\<close> is
  the list of its entries with distinct keys; a copy of a quantity is the quantity.
\<close>

type_synonym 'q resource_list = "(string \<times> 'q) list"

record container_port =
  cpt_HostPort :: int
  cpt_ContainerPort :: int

record 'q pod_container =
  pc_Name :: string
  pc_Requests :: "'q resource_list"
  pc_Limits :: "'q resource_list"
  pc_RestartPolicy :: "string option"
  pc_Ports :: "container_port list"

record 'q pod_level =
  pl_Requests :: "'q resource_list"
  pl_Limits :: "'q resource_list"

text \<open>Required affinity terms, volume sources, gates and claims are opaque texts: only their presence counts.\<close>

record affinity =
  af_Node :: "string option option"           \<comment> \<open>node affinity, and its required part\<close>
  af_Pod :: "string list option"              \<comment> \<open>the required terms\<close>
  af_PodAnti :: "string list option"

record volume =
  vo_PersistentVolumeClaim :: "string option"
  vo_Ephemeral :: "string option"
  vo_CSI :: "string option"

record ('q, 't) pod_spec =
  ps_Containers :: "'q pod_container list"
  ps_InitContainers :: "'q pod_container list"
  ps_Resources :: "'q pod_level option"
  ps_Overhead :: "'q resource_list"
  ps_NodeName :: string
  ps_NodeSelector :: "(string \<times> string) list"
  ps_Tolerations :: "'t list"
  ps_Affinity :: "affinity option"
  ps_TopologySpread :: "string list"          \<comment> \<open>\<open>WhenUnsatisfiable\<close> of each constraint\<close>
  ps_SchedulerName :: string
  ps_RuntimeClassName :: "string option"
  ps_SchedulingGates :: "string list"
  ps_ResourceClaims :: "string list"
  ps_OS :: "string option"
  ps_Volumes :: "volume list"
  ps_HostNetwork :: bool

subsection \<open>Resource lists\<close>

definition addResourceList :: "('q, 's) k8s_arith \<Rightarrow> 'q resource_list \<Rightarrow> 'q resource_list \<Rightarrow> 'q resource_list" where
  "addResourceList K dst src = foldl (\<lambda>d (name, q). AList.update name
     (q_add K (case map_of d name of None \<Rightarrow> q_zero K | Some t \<Rightarrow> t) q) d) dst src"

definition maxResourceList :: "('q, 's) k8s_arith \<Rightarrow> 'q resource_list \<Rightarrow> 'q resource_list \<Rightarrow> 'q resource_list" where
  "maxResourceList K dst candidate = foldl (\<lambda>d (name, q). case map_of d name of
       None \<Rightarrow> AList.update name q d
     | Some current \<Rightarrow> if q_cmp K current q < 0 then AList.update name q d else d) dst candidate"

definition overrideResourceList :: "'q resource_list \<Rightarrow> 'q resource_list \<Rightarrow> 'q resource_list" where
  "overrideResourceList dst overrides = foldl (\<lambda>d (name, q). AList.update name q d) dst overrides"

text \<open>Overhead is added to a limit only where there is one.\<close>

definition add_overhead :: "('q, 's) k8s_arith \<Rightarrow> 'q resource_list \<Rightarrow> 'q resource_list \<Rightarrow> 'q resource_list" where
  "add_overhead K running overheads = foldl (\<lambda>d (name, overhead). case map_of d name of
       None \<Rightarrow> d
     | Some current \<Rightarrow> if q_isZero K current then d else AList.update name (q_add K current overhead) d) running overheads"

subsection \<open>The effective resources of a pod\<close>

definition resourcesFor :: "bool \<Rightarrow> 'q pod_container \<Rightarrow> 'q resource_list" where
  "resourcesFor limits c = (if limits then pc_Limits c else pc_Requests c)"

definition restartable :: "'q pod_container \<Rightarrow> bool" where
  "restartable c = (pc_RestartPolicy c = Some ''Always'')"

fun init_loop :: "('q, 's) k8s_arith \<Rightarrow> bool \<Rightarrow> 'q resource_list \<Rightarrow> 'q resource_list \<Rightarrow> 'q resource_list \<Rightarrow> 'q pod_container list
    \<Rightarrow> 'q resource_list \<times> 'q resource_list" where
  "init_loop K limits running restartableInit initPeak [] = (running, initPeak)"
| "init_loop K limits running restartableInit initPeak (c # cs) =
     (let resources = resourcesFor limits c
      in if restartable c then
           (let restartableInit1 = addResourceList K restartableInit resources
            in init_loop K limits (addResourceList K running resources) restartableInit1 (maxResourceList K initPeak restartableInit1) cs)
         else init_loop K limits running restartableInit
           (maxResourceList K initPeak (addResourceList K restartableInit resources)) cs)"

definition effectivePodResources :: "('q, 's) k8s_arith \<Rightarrow> ('q, 't) pod_spec \<Rightarrow> bool \<Rightarrow> 'q resource_list" where
  "effectivePodResources K spec limits =
     (let running0 = foldl (\<lambda>d c. addResourceList K d (resourcesFor limits c)) [] (ps_Containers spec);
          (running1, initPeak) = init_loop K limits running0 [] [] (ps_InitContainers spec);
          running2 = maxResourceList K running1 initPeak;
          running3 = (case ps_Resources spec of None \<Rightarrow> running2
            | Some pl \<Rightarrow> overrideResourceList running2 (if limits then pl_Limits pl else pl_Requests pl))
      in if limits then add_overhead K running3 (ps_Overhead spec) else addResourceList K running3 (ps_Overhead spec))"

definition EffectivePodRequests :: "('q, 's) k8s_arith \<Rightarrow> ('q, 't) pod_spec \<Rightarrow> 'q resource_list" where
  "EffectivePodRequests K spec = effectivePodResources K spec False"

definition EffectivePodLimits :: "('q, 's) k8s_arith \<Rightarrow> ('q, 't) pod_spec \<Rightarrow> 'q resource_list" where
  "EffectivePodLimits K spec = effectivePodResources K spec True"

subsection \<open>Admission defaults\<close>

definition default_missing :: "'q resource_list \<Rightarrow> 'q resource_list \<Rightarrow> 'q resource_list" where
  "default_missing requests defaults = foldl (\<lambda>r (name, q). if map_of r name = None then AList.update name q r else r) requests defaults"

definition default_container :: "'q pod_container \<Rightarrow> 'q pod_container" where
  "default_container c = c\<lparr>pc_Requests := default_missing (pc_Requests c) (pc_Limits c)\<rparr>"

definition materializePodSpec :: "('q, 's) k8s_arith \<Rightarrow> ('q, 't) pod_spec \<Rightarrow> ('q, 't) pod_spec" where
  "materializePodSpec K source =
     (let spec = source\<lparr>ps_Containers := map default_container (ps_Containers source),
                         ps_InitContainers := map default_container (ps_InitContainers source)\<rparr>
      in case ps_Resources spec of None \<Rightarrow> spec
       | Some pl \<Rightarrow>
           let aggregate = effectivePodResources K (spec\<lparr>ps_Resources := None, ps_Overhead := []\<rparr>) False;
               requests = default_missing (pl_Requests pl) (filter (\<lambda>(_, q). \<not> q_isZero K q) aggregate)
           in spec\<lparr>ps_Resources := Some (pl\<lparr>pl_Requests := default_missing requests (pl_Limits pl)\<rparr>)\<rparr>)"

subsection \<open>The resources of a pod template\<close>

record container_resources =
  cr_Name :: string
  cr_Requests :: "(string \<times> string) list"
  cr_Limits :: "(string \<times> string) list"

record resource_requests =
  rr_Containers :: "container_resources list"
  rr_InitContainers :: "container_resources list"
  rr_PodRequests :: "(string \<times> string) list"
  rr_PodLimits :: "(string \<times> string) list"
  rr_PodLevelRequests :: "(string \<times> string) list"
  rr_PodLevelLimits :: "(string \<times> string) list"

definition resource_texts :: "('q, 's) k8s_arith \<Rightarrow> 'q resource_list \<Rightarrow> (string \<times> string) list" where
  "resource_texts K rl = map (\<lambda>(name, q). (name, q_string K q)) rl"

definition containerResources :: "('q, 's) k8s_arith \<Rightarrow> 'q pod_container \<Rightarrow> container_resources" where
  "containerResources K c = \<lparr>cr_Name = pc_Name c, cr_Requests = resource_texts K (pc_Requests c), cr_Limits = resource_texts K (pc_Limits c)\<rparr>"

definition ResourceRequestsFromPodTemplate :: "('q, 's) k8s_arith \<Rightarrow> ('q, 't) pod_spec option \<Rightarrow> resource_requests option" where
  "ResourceRequestsFromPodTemplate K tmpl = (case tmpl of None \<Rightarrow> None
   | Some source \<Rightarrow>
       let spec = materializePodSpec K source
       in if ps_Containers spec = [] then None
          else Some \<lparr>rr_Containers = map (containerResources K) (ps_Containers spec),
            rr_InitContainers = map (containerResources K) (ps_InitContainers spec),
            rr_PodRequests = resource_texts K (EffectivePodRequests K spec),
            rr_PodLimits = resource_texts K (EffectivePodLimits K spec),
            rr_PodLevelRequests = (case ps_Resources spec of None \<Rightarrow> [] | Some pl \<Rightarrow> resource_texts K (pl_Requests pl)),
            rr_PodLevelLimits = (case ps_Resources spec of None \<Rightarrow> [] | Some pl \<Rightarrow> resource_texts K (pl_Limits pl))\<rparr>)"

subsection \<open>Amounts\<close>

text \<open>The number a resource list holds for a name; a missing name is zero.\<close>

definition amount :: "('q \<Rightarrow> rat) \<Rightarrow> 'q resource_list \<Rightarrow> string \<Rightarrow> rat" where
  "amount num rl n = (case map_of rl n of None \<Rightarrow> 0 | Some q \<Rightarrow> num q)"

definition rl_ok :: "('q \<Rightarrow> rat) \<Rightarrow> 'q resource_list \<Rightarrow> bool" where
  "rl_ok num rl \<longleftrightarrow> distinct (map fst rl) \<and> (\<forall>q\<in>snd ` set rl. 0 \<le> num q)"

lemma amount_empty [simp]: "amount num [] n = 0"
  by (simp add: amount_def)

lemma amount_update [simp]: "amount num (AList.update k q rl) n = (if n = k then num q else amount num rl n)"
  by (simp add: amount_def update_conv')

lemma amount_Cons: "k \<notin> fst ` set rl \<Longrightarrow> amount num ((k, q) # rl) n = (if n = k then num q else amount num rl n)"
  by (simp add: amount_def)

lemma amount_fresh: "k \<notin> fst ` set rl \<Longrightarrow> amount num rl k = 0"
  by (metis amount_def map_of_eq_None_iff option.simps(4))

lemma rl_ok_empty [simp]: "rl_ok num []"
  by (simp add: rl_ok_def)

lemma rl_ok_Cons [simp]: "rl_ok num ((k, q) # rl) \<longleftrightarrow> k \<notin> fst ` set rl \<and> 0 \<le> num q \<and> rl_ok num rl"
  by (auto simp: rl_ok_def)

lemma keys_update: "fst ` set (AList.update k q rl) = insert k (fst ` set rl)"
  by (induction rl) auto

lemma rl_ok_update: "rl_ok num rl \<Longrightarrow> 0 \<le> num q \<Longrightarrow> rl_ok num (AList.update k q rl)"
  by (induction rl) (force simp: keys_update)+

lemma amount_nonneg: "rl_ok num rl \<Longrightarrow> 0 \<le> amount num rl n"
  by (induction rl) (auto simp: amount_Cons)

lemma amount_at: "num (case map_of rl n of None \<Rightarrow> q_zero K | Some t \<Rightarrow> t) = amount num rl n" if "quantity_laws K num"
  using that by (simp add: amount_def quantity_lawsD split: option.splits)

lemma amount_add:
  assumes "quantity_laws K num" "rl_ok num src"
  shows "amount num (addResourceList K dst src) n = amount num dst n + amount num src n"
  using assms(2)
proof (induction src arbitrary: dst)
  case (Cons p src)
  obtain k q where p: "p = (k, q)" by (cases p)
  have "addResourceList K dst (p # src) = addResourceList K (AList.update k
      (q_add K (case map_of dst k of None \<Rightarrow> q_zero K | Some t \<Rightarrow> t) q) dst) src"
    by (simp add: addResourceList_def p)
  then show ?case using Cons by (simp add: p amount_Cons amount_fresh quantity_lawsD [OF assms(1)] amount_at [OF assms(1)])
qed (simp add: addResourceList_def)

lemma rl_ok_add:
  assumes "quantity_laws K num" "rl_ok num dst" "rl_ok num src"
  shows "rl_ok num (addResourceList K dst src)"
  using assms(2,3)
proof (induction src arbitrary: dst)
  case (Cons p src)
  then have "rl_ok num (AList.update (fst p) (q_add K (case map_of dst (fst p) of None \<Rightarrow> q_zero K | Some t \<Rightarrow> t) (snd p)) dst)"
    by (cases p) (auto intro!: rl_ok_update simp: quantity_lawsD [OF assms(1)] amount_at [OF assms(1)] amount_nonneg)
  with Cons show ?case by (cases p) (simp add: addResourceList_def)
qed (simp add: addResourceList_def)

lemma max_entry:
  assumes "quantity_laws K num" "rl_ok num dst" "0 \<le> num q"
    and "d = (case map_of dst k of None \<Rightarrow> AList.update k q dst
      | Some current \<Rightarrow> if q_cmp K current q < 0 then AList.update k q dst else dst)"
  shows "rl_ok num d \<and> amount num d n = (if n = k then max (amount num dst k) (num q) else amount num dst n)"
  using assms rl_ok_update [OF assms(2,3)] by (auto simp: amount_def update_conv' quantity_lawsD max_def split: option.splits)

lemma amount_max:
  assumes "quantity_laws K num" "rl_ok num dst" "rl_ok num src"
  shows "rl_ok num (maxResourceList K dst src) \<and> amount num (maxResourceList K dst src) n = max (amount num dst n) (amount num src n)"
  using assms(2,3)
proof (induction src arbitrary: dst)
  case Nil
  then show ?case by (simp add: maxResourceList_def amount_nonneg max_absorb1)
next
  case (Cons p src)
  obtain k q where p: "p = (k, q)" by (cases p)
  let ?d = "case map_of dst k of None \<Rightarrow> AList.update k q dst
      | Some current \<Rightarrow> if q_cmp K current q < 0 then AList.update k q dst else dst"
  have e: "rl_ok num ?d \<and> amount num ?d m = (if m = k then max (amount num dst k) (num q) else amount num dst m)" for m
    using Cons.prems by (intro max_entry [OF assms(1)]) (auto simp: p)
  have "maxResourceList K dst (p # src) = maxResourceList K ?d src" by (simp add: maxResourceList_def p)
  moreover have "rl_ok num (maxResourceList K ?d src) \<and> amount num (maxResourceList K ?d src) n = max (amount num ?d n) (amount num src n)"
    using Cons e by (simp add: p)
  ultimately show ?case using e [of n] Cons.prems
    by (auto simp: p amount_Cons amount_fresh amount_nonneg max_def)
qed

lemma map_of_override: "distinct (map fst ov) \<Longrightarrow> map_of (overrideResourceList dst ov) n = (case map_of ov n of None \<Rightarrow> map_of dst n | Some q \<Rightarrow> Some q)"
proof (induction ov arbitrary: dst)
  case (Cons p ov)
  obtain k q where p: "p = (k, q)" by (cases p)
  have "map_of ov k = None" using Cons.prems p by (simp add: map_of_eq_None_iff)
  then show ?case using Cons by (simp add: overrideResourceList_def p update_conv' split: option.splits)
qed (simp add: overrideResourceList_def)

lemma amount_overhead:
  assumes "quantity_laws K num" "rl_ok num ov"
  shows "amount num (add_overhead K d ov) n = (if amount num d n = 0 then 0 else amount num d n + amount num ov n)"
  using assms(2)
proof (induction ov arbitrary: d)
  case (Cons p ov)
  obtain k q where p: "p = (k, q)" by (cases p)
  let ?d = "case map_of d k of None \<Rightarrow> d | Some c \<Rightarrow> if q_isZero K c then d else AList.update k (q_add K c q) d"
  have e: "amount num ?d m = (if m = k \<and> amount num d k \<noteq> 0 then amount num d k + num q else amount num d m)" for m
    by (auto simp: amount_def update_conv' quantity_lawsD [OF assms(1)] split: option.splits)
  have "add_overhead K d (p # ov) = add_overhead K ?d ov" by (simp add: add_overhead_def p)
  then show ?case using Cons amount_nonneg [of num ov]
    by (auto simp: p e amount_Cons amount_fresh)
qed (simp add: add_overhead_def)

subsection \<open>The life of a pod\<close>

text \<open>
  The containers that run together, one set after the other: while an init container runs, the
  restartable ones before it run beside it; at last all containers run with all restartable ones.
\<close>

fun init_phases :: "'q pod_container list \<Rightarrow> 'q pod_container list \<Rightarrow> 'q pod_container list list" where
  "init_phases sidecars [] = []"
| "init_phases sidecars (c # cs) = (sidecars @ [c]) # init_phases (if restartable c then sidecars @ [c] else sidecars) cs"

definition pod_life :: "('q, 't) pod_spec \<Rightarrow> 'q pod_container list list" where
  "pod_life spec = init_phases [] (ps_InitContainers spec) @ [ps_Containers spec @ filter restartable (ps_InitContainers spec)]"

definition load :: "('q \<Rightarrow> rat) \<Rightarrow> bool \<Rightarrow> 'q pod_container list \<Rightarrow> string \<Rightarrow> rat" where
  "load num limits cs n = (\<Sum>c\<leftarrow>cs. amount num (resourcesFor limits c) n)"

lemma load_simps [simp]: "load num limits [] n = 0"
  "load num limits (c # cs) n = amount num (resourcesFor limits c) n + load num limits cs n"
  "load num limits (cs @ ds) n = load num limits cs n + load num limits ds n"
  by (simp_all add: load_def)

definition pod_ok :: "('q \<Rightarrow> rat) \<Rightarrow> ('q, 't) pod_spec \<Rightarrow> bool" where
  "pod_ok num spec \<longleftrightarrow>
     (\<forall>c\<in>set (ps_Containers spec @ ps_InitContainers spec). rl_ok num (pc_Requests c) \<and> rl_ok num (pc_Limits c))
   \<and> (case ps_Resources spec of None \<Rightarrow> True | Some pl \<Rightarrow> rl_ok num (pl_Requests pl) \<and> rl_ok num (pl_Limits pl))
   \<and> rl_ok num (ps_Overhead spec)"

definition level_resources :: "bool \<Rightarrow> ('q, 't) pod_spec \<Rightarrow> 'q resource_list" where
  "level_resources limits spec = (case ps_Resources spec of None \<Rightarrow> [] | Some pl \<Rightarrow> if limits then pl_Limits pl else pl_Requests pl)"

lemma Max_insert_max: "finite S \<Longrightarrow> Max (insert (max a b) S) = Max (insert a (insert (b :: rat) S))"
  by (cases "S = {}") (simp_all add: max.assoc)

lemma init_loop_amounts:
  assumes "quantity_laws K num"
  shows "(\<forall>c\<in>set cs. rl_ok num (resourcesFor limits c)) \<Longrightarrow> rl_ok num running \<Longrightarrow> rl_ok num rest \<Longrightarrow> rl_ok num peak
    \<Longrightarrow> amount num rest n = load num limits side n \<Longrightarrow> init_loop K limits running rest peak cs = (running', peak')
    \<Longrightarrow> rl_ok num running' \<and> rl_ok num peak' \<and> amount num running' n = amount num running n + load num limits (filter restartable cs) n
      \<and> amount num peak' n = Max (insert (amount num peak n) ((\<lambda>p. load num limits p n) ` set (init_phases side cs)))"
proof (induction cs arbitrary: running rest peak side)
  case (Cons c cs)
  let ?r = "resourcesFor limits c"
  have r: "rl_ok num ?r" and tl: "\<forall>c\<in>set cs. rl_ok num (resourcesFor limits c)" using Cons.prems(1) by simp_all
  let ?rest = "addResourceList K rest ?r"
  have rest: "rl_ok num ?rest" "amount num ?rest n = load num limits (side @ [c]) n"
    using rl_ok_add [OF assms Cons.prems(3) r] amount_add [OF assms r] Cons.prems(5) by simp_all
  note peak = amount_max [OF assms Cons.prems(4) rest(1), of n]
  show ?case
  proof (cases "restartable c")
    case True
    have run: "rl_ok num (addResourceList K running ?r)" "amount num (addResourceList K running ?r) n = amount num running n + amount num ?r n"
      using rl_ok_add [OF assms Cons.prems(2) r] amount_add [OF assms r] by simp_all
    have "init_loop K limits (addResourceList K running ?r) ?rest (maxResourceList K peak ?rest) cs = (running', peak')"
      using Cons.prems(6) True by (simp add: Let_def)
    from Cons.IH [OF tl run(1) rest(1) conjunct1 [OF peak] rest(2) this] show ?thesis
      using conjunct2 [OF peak] run(2) rest(2) True by (simp add: Max_insert_max)
  next
    case False
    have "init_loop K limits running rest (maxResourceList K peak ?rest) cs = (running', peak')"
      using Cons.prems(6) False by (simp add: Let_def)
    from Cons.IH [OF tl Cons.prems(2,3) conjunct1 [OF peak] Cons.prems(5) this] show ?thesis
      using conjunct2 [OF peak] rest(2) False by (simp add: Max_insert_max)
  qed
qed simp

lemma sum_containers:
  assumes "quantity_laws K num"
  shows "(\<forall>c\<in>set cs. rl_ok num (resourcesFor limits c)) \<Longrightarrow> rl_ok num d \<Longrightarrow>
    rl_ok num (foldl (\<lambda>d c. addResourceList K d (resourcesFor limits c)) d cs)
    \<and> amount num (foldl (\<lambda>d c. addResourceList K d (resourcesFor limits c)) d cs) n = amount num d n + load num limits cs n"
  by (induction cs arbitrary: d) (simp_all add: amount_add [OF assms] rl_ok_add [OF assms])

lemma load_nonneg: "(\<forall>c\<in>set cs. rl_ok num (resourcesFor limits c)) \<Longrightarrow> 0 \<le> load num limits cs n"
  by (induction cs) (simp_all add: amount_nonneg)

lemma effective_peak:
  assumes "quantity_laws K num" "pod_ok num spec"
    and "peak = Max ((\<lambda>cs. load num limits cs n) ` set (pod_life spec))"
    and "base = (case map_of (level_resources limits spec) n of None \<Rightarrow> peak | Some q \<Rightarrow> num q)"
  shows "amount num (effectivePodResources K spec limits) n
    = (if limits \<and> base = 0 then 0 else base + amount num (ps_Overhead spec) n)"
proof -
  let ?cs = "ps_Containers spec" and ?is = "ps_InitContainers spec"
  have ok: "\<forall>c\<in>set ?cs. rl_ok num (resourcesFor limits c)" "\<forall>c\<in>set ?is. rl_ok num (resourcesFor limits c)" "rl_ok num (ps_Overhead spec)"
    "rl_ok num (level_resources limits spec)"
    using assms(2) by (auto simp: pod_ok_def resourcesFor_def level_resources_def split: option.splits)
  let ?run0 = "foldl (\<lambda>d c. addResourceList K d (resourcesFor limits c)) [] ?cs"
  obtain run1 top where l: "init_loop K limits ?run0 [] [] ?is = (run1, top)" by (metis prod.exhaust)
  note run0 = sum_containers [OF assms(1) ok(1) rl_ok_empty, of n]
  note run1 = init_loop_amounts [OF assms(1) ok(2) conjunct1 [OF run0] rl_ok_empty rl_ok_empty _ l, of n "[]"]
  let ?run2 = "maxResourceList K run1 top"
  let ?L = "\<lambda>cs. load num limits cs n"
  have "amount num ?run2 n = max (?L (?cs @ filter restartable ?is)) (Max (insert 0 (?L ` set (init_phases [] ?is))))"
    using amount_max [OF assms(1), of run1 top n] run1 run0 by simp
  also have "\<dots> = Max (insert (?L (?cs @ filter restartable ?is)) (insert 0 (?L ` set (init_phases [] ?is))))" by (rule Max_insert [symmetric]) simp_all
  also have "insert (?L (?cs @ filter restartable ?is)) (insert 0 (?L ` set (init_phases [] ?is))) = insert 0 (?L ` set (pod_life spec))"
    by (auto simp: pod_life_def)
  also have "Max \<dots> = peak"
  proof -
    have "0 \<le> ?L (?cs @ filter restartable ?is)" using ok by (intro load_nonneg) auto
    also have "\<dots> \<le> peak" unfolding assms(3) by (rule Max_ge) (auto simp: pod_life_def)
    finally have "max 0 peak = peak" by simp
    moreover have "Max (insert 0 (?L ` set (pod_life spec))) = max 0 peak"
      unfolding assms(3) by (rule Max_insert) (simp_all add: pod_life_def)
    ultimately show ?thesis by simp
  qed
  finally have p: "amount num ?run2 n = peak" .
  let ?run3 = "case ps_Resources spec of None \<Rightarrow> ?run2 | Some pl \<Rightarrow> overrideResourceList ?run2 (if limits then pl_Limits pl else pl_Requests pl)"
  have "?run3 = overrideResourceList ?run2 (level_resources limits spec)"
    by (simp add: level_resources_def overrideResourceList_def split: option.splits)
  then have b: "amount num ?run3 n = base"
    using map_of_override [of "level_resources limits spec" ?run2 n] ok(4) p
    by (simp add: amount_def assms(4) rl_ok_def split: option.splits)
  show ?thesis
    using b by (simp add: effectivePodResources_def Let_def l amount_add [OF assms(1) ok(3)] amount_overhead [OF assms(1) ok(3)])
qed

text \<open>C12. The effective resources of a pod are the highest load of its life plus its overhead: the maximum, over the init phases
  (each beside the restartable init containers started before it) and the running pod, of what the containers alive together ask
  for. A pod-level request is a lower bound of that maximum, given that it is at least the maximum itself, as the API server demands when it
  admits a pod; a pod-level limit replaces the sum of the containers' limits. Overhead is not added to a limit that is not there.\<close>

theorem effective_resources_peak:
  assumes "quantity_laws K num" "pod_ok num spec"
    and "peak = Max ((\<lambda>cs. load num limits cs n) ` set (pod_life spec))"
    and "\<And>q. \<not> limits \<Longrightarrow> map_of (level_resources limits spec) n = Some q \<Longrightarrow> peak \<le> num q"
  shows "amount num (effectivePodResources K spec limits) n
    = (let level = map_of (level_resources limits spec) n in
       if limits then (let base = (case level of Some q \<Rightarrow> num q | None \<Rightarrow> peak) in if base = 0 then 0 else base + amount num (ps_Overhead spec) n)
       else max peak (amount num (level_resources limits spec) n) + amount num (ps_Overhead spec) n)"
proof -
  have "0 \<le> load num limits (ps_Containers spec @ filter restartable (ps_InitContainers spec)) n"
    using assms(2) by (intro load_nonneg) (auto simp: pod_ok_def resourcesFor_def)
  also have "\<dots> \<le> peak" unfolding assms(3) by (rule Max_ge) (auto simp: pod_life_def)
  finally have "0 \<le> peak" .
  then show ?thesis using effective_peak [OF assms(1-3) refl] assms(4)
    by (auto simp: amount_def Let_def max_def split: option.splits)
qed

subsection \<open>Defaults are applied once\<close>

lemma map_of_default_missing: "map_of (default_missing r ds) n = (case map_of r n of None \<Rightarrow> map_of ds n | Some q \<Rightarrow> Some q)"
proof (induction ds arbitrary: r)
  case (Cons d ds)
  then show ?case by (cases d) (auto simp: default_missing_def update_conv' split: option.splits)
qed (simp add: default_missing_def split: option.splits)

lemma default_missing_same: "(\<forall>k\<in>fst ` set ds. map_of r k \<noteq> None) \<Longrightarrow> default_missing r ds = r"
  by (induction ds) (auto simp: default_missing_def)

lemma default_missing_has: "\<forall>k\<in>fst ` set ds. map_of (default_missing r ds) k \<noteq> None"
proof
  fix k assume "k \<in> fst ` set ds"
  then have "map_of ds k \<noteq> None" by (simp add: map_of_eq_None_iff)
  then show "map_of (default_missing r ds) k \<noteq> None" by (auto simp: map_of_default_missing split: option.splits)
qed

lemma default_container_idem: "default_container (default_container c) = default_container c"
proof -
  have "default_missing (default_missing (pc_Requests c) (pc_Limits c)) (pc_Limits c) = default_missing (pc_Requests c) (pc_Limits c)"
    by (rule default_missing_same) (rule default_missing_has)
  then show ?thesis by (simp add: default_container_def)
qed

lemma default_missing_keeps: "\<forall>k\<in>A. map_of r k \<noteq> None \<Longrightarrow> \<forall>k\<in>A. map_of (default_missing r ds) k \<noteq> None"
  by (auto simp: map_of_default_missing split: option.splits)

text \<open>C23. Admission defaults are settled after one pass: materializing a materialized pod changes nothing. A request of the
  materialized pod is the given one, else the limit.\<close>

theorem materialize_once:
  "materializePodSpec K (materializePodSpec K spec) = materializePodSpec K spec
   \<and> map (\<lambda>c. map_of (pc_Requests c) n) (ps_Containers (materializePodSpec K spec))
     = map (\<lambda>c. if map_of (pc_Requests c) n = None then map_of (pc_Limits c) n else map_of (pc_Requests c) n) (ps_Containers spec)"
proof
  let ?s = "spec\<lparr>ps_Containers := map default_container (ps_Containers spec), ps_InitContainers := map default_container (ps_InitContainers spec)\<rparr>"
  let ?agg = "filter (\<lambda>(_, q). \<not> q_isZero K q) (effectivePodResources K (?s\<lparr>ps_Resources := None, ps_Overhead := []\<rparr>) False)"
  show "materializePodSpec K (materializePodSpec K spec) = materializePodSpec K spec"
  proof (cases "ps_Resources spec")
    case None
    then show ?thesis by (simp add: materializePodSpec_def Let_def default_container_idem o_def)
  next
    case (Some pl)
    let ?r1 = "default_missing (pl_Requests pl) ?agg"
    let ?r2 = "default_missing ?r1 (pl_Limits pl)"
    have "default_missing ?r2 ?agg = ?r2"
      by (rule default_missing_same) (rule default_missing_keeps [OF default_missing_has])
    moreover have "default_missing ?r2 (pl_Limits pl) = ?r2" by (rule default_missing_same) (rule default_missing_has)
    ultimately show ?thesis using Some by (simp add: materializePodSpec_def Let_def default_container_idem o_def)
  qed
  show "map (\<lambda>c. map_of (pc_Requests c) n) (ps_Containers (materializePodSpec K spec))
     = map (\<lambda>c. if map_of (pc_Requests c) n = None then map_of (pc_Limits c) n else map_of (pc_Requests c) n) (ps_Containers spec)"
    by (auto simp: materializePodSpec_def Let_def default_container_def map_of_default_missing split: option.splits)
qed

subsection \<open>Samples\<close>

definition sample_container :: "string \<Rightarrow> int \<Rightarrow> string option \<Rightarrow> int pod_container" where
  "sample_container name cpu policy = \<lparr>pc_Name = name, pc_Requests = [(''cpu'', cpu)], pc_Limits = [(''cpu'', cpu), (''memory'', 1)],
     pc_RestartPolicy = policy, pc_Ports = []\<rparr>"

definition sample_spec :: "int pod_level option \<Rightarrow> (int, unit) pod_spec" where
  "sample_spec level = \<lparr>ps_Containers = [sample_container ''app'' 3 None],
     ps_InitContainers = [sample_container ''proxy'' 2 (Some ''Always''), sample_container ''setup'' 5 None],
     ps_Resources = level, ps_Overhead = [(''cpu'', 1)], ps_NodeName = [], ps_NodeSelector = [], ps_Tolerations = [], ps_Affinity = None,
     ps_TopologySpread = [], ps_SchedulerName = [], ps_RuntimeClassName = None, ps_SchedulingGates = [], ps_ResourceClaims = [],
     ps_OS = None, ps_Volumes = [], ps_HostNetwork = False\<rparr>"

text \<open>The set-up phase beside the proxy asks for 7, more than the running pod.\<close>

theorem effective_resources_peak_witness:
  "amount of_int (effectivePodResources int_arith (sample_spec None) False) ''cpu'' = 8"
  using effective_resources_peak [OF int_arith_laws, of "sample_spec None" _ False "''cpu''"]
  by (simp add: pod_ok_def rl_ok_def sample_spec_def sample_container_def pod_life_def restartable_def load_def resourcesFor_def
      level_resources_def amount_def)

text \<open>
  The comment on \<open>EffectivePodRequests\<close> calls pod-level requests a lower bound; the code takes them as they
  are, so a pod-level request below the sum of the containers lowers the reservation.
\<close>

lemma pod_level_below_containers:
  "amount of_int (EffectivePodRequests int_arith (sample_spec (Some \<lparr>pl_Requests = [(''cpu'', 1)], pl_Limits = []\<rparr>))) ''cpu'' = 2"
  by code_simp

end
