(* ===== verification/CapacityPlan.thy ===== *)
theory CapacityPlan
  imports CapacityFit
begin

section \<open>Is it safe to raise maxReplicas\<close>

text \<open>
  \<open>pkg/hpa/capacityplan\<close>: the checks of a plan to raise maxReplicas against quotas, limit ranges, nodes,
  pending pods, disruption budgets and the cluster autoscaler, and the recommendation drawn from them.
  Check identifiers, statuses and observation domains are strings, as in the code, which also has to
  read values written by other versions.
\<close>

record cap_check =
  cc_CheckID :: string
  cc_Status :: string
  cc_ObservationDomain :: string
  cc_Pass :: bool
  cc_Unknown :: bool
  cc_Message :: string

record cap_plan =
  cp_Namespace :: string
  cp_Name :: string
  cp_Target :: string
  cp_CurrentReplicas :: int
  cp_MaxReplicas :: int
  cp_Issue :: string
  cp_TargetMaxReplicas :: int
  cp_AdditionalPods :: int
  cp_RequiredCPU :: string
  cp_RequiredMemory :: string
  cp_Checks :: "cap_check list"
  cp_Recommendation :: string
  cp_Safe :: bool
  cp_SchedulableNow :: int
  cp_NodeAutoscalerRequired :: bool
  cp_DryRunCommand :: string
  cp_NextActions :: "string list"

abbreviation ObsPlanInput :: string where "ObsPlanInput \<equiv> ''plan-input''"
abbreviation ObsScaleTarget :: string where "ObsScaleTarget \<equiv> ''scale-target''"
abbreviation ObsPodResources :: string where "ObsPodResources \<equiv> ''pod-resources''"
abbreviation ObsPendingPods :: string where "ObsPendingPods \<equiv> ''pending-pods''"
abbreviation ObsResourceQuotas :: string where "ObsResourceQuotas \<equiv> ''resource-quotas''"
abbreviation ObsLimitRanges :: string where "ObsLimitRanges \<equiv> ''limit-ranges''"
abbreviation ObsLimitRangeDefaults :: string where "ObsLimitRangeDefaults \<equiv> ''limit-range-defaults''"
abbreviation ObsNodeCapacity :: string where "ObsNodeCapacity \<equiv> ''node-capacity''"
abbreviation ObsPDBs :: string where "ObsPDBs \<equiv> ''pod-disruption-budgets''"
abbreviation ObsClusterAutoscaler :: string where "ObsClusterAutoscaler \<equiv> ''cluster-autoscaler''"

abbreviation CheckPass :: string where "CheckPass \<equiv> ''pass''"
abbreviation CheckFail :: string where "CheckFail \<equiv> ''fail''"
abbreviation CheckUnknown :: string where "CheckUnknown \<equiv> ''unknown''"

definition newCheck :: "string \<Rightarrow> string \<Rightarrow> string \<Rightarrow> cap_check" where
  "newCheck chk status message = \<lparr>cc_CheckID = chk, cc_Status = status, cc_ObservationDomain = [],
     cc_Pass = (status = CheckPass), cc_Unknown = (status = CheckUnknown), cc_Message = message\<rparr>"

definition unknown_check :: "string \<Rightarrow> string \<Rightarrow> string \<Rightarrow> cap_check" where
  "unknown_check chk domain message = (newCheck chk CheckUnknown message)\<lparr>cc_ObservationDomain := domain\<rparr>"

definition capacityStatus :: "cap_check \<Rightarrow> string" where
  "capacityStatus c =
     (if cc_Status c \<in> {CheckPass, CheckFail, CheckUnknown} then cc_Status c
      else if cc_Status c \<noteq> [] then CheckUnknown
      else if cc_Unknown c then CheckUnknown
      else if cc_Pass c then CheckPass else CheckFail)"

subsection \<open>Observation errors\<close>

definition capacityObservationDomain :: "obs_error \<Rightarrow> string" where
  "capacityObservationDomain e =
     (if oe_Domain e \<noteq> [] then oe_Domain e
      else if oe_Source e = ''scale target'' then ObsScaleTarget
      else if oe_Source e = ''scale target Pod selector'' \<or> oe_Source e = ''scale target Pods'' then ObsPendingPods
      else if oe_Source e = ''Pod resource requests'' then ObsPodResources
      else if oe_Source e = ''ResourceQuotas'' then ObsResourceQuotas
      else if oe_Source e = ''LimitRanges'' then ObsLimitRanges
      else if oe_Source e = ''cluster request headroom'' then ObsNodeCapacity
      else if oe_Source e = ''PodDisruptionBudgets'' then ObsPDBs
      else if oe_Source e = ''Cluster Autoscaler detection'' then ObsClusterAutoscaler
      else [])"

definition hasObservationDomain :: "obs_error list \<Rightarrow> string \<Rightarrow> bool" where
  "hasObservationDomain es domain = list_ex (\<lambda>e. capacityObservationDomain e = domain) es"

definition checkObservationErrors :: "obs_error list \<Rightarrow> cap_check list" where
  "checkObservationErrors es = map (\<lambda>e.
     let source = (if trim_space (oe_Source e) = [] then ''capacity input'' else trim_space (oe_Source e));
         message = (if trim_space (oe_Message e) = [] then ''unavailable'' else trim_space (oe_Message e))
     in unknown_check ''observation'' (capacityObservationDomain e) (source @ '' unknown: '' @ message)) es"

subsection \<open>Validation of the inputs\<close>

definition validate_quantity :: "('q, 's) k8s_arith \<Rightarrow> string \<Rightarrow> string \<Rightarrow> string \<Rightarrow> bool \<Rightarrow> obs_error list" where
  "validate_quantity K domain source v allowNegative =
     (if v = [] then []
      else if trim_space v = [] then
        [\<lparr>oe_Domain = domain, oe_Source = source, oe_Message = ''invalid Kubernetes quantity: value must not be whitespace-only''\<rparr>]
      else case q_parse K v of
          Inl err \<Rightarrow> [\<lparr>oe_Domain = domain, oe_Source = source, oe_Message = ''invalid Kubernetes quantity '' @ go_quote v @ '': '' @ err\<rparr>]
        | Inr q \<Rightarrow> if \<not> allowNegative \<and> q_sign K q < 0 then
              [\<lparr>oe_Domain = domain, oe_Source = source,
                oe_Message = ''invalid Kubernetes quantity '' @ go_quote v @ '': value must not be negative''\<rparr>]
            else [])"

definition validateCapacityQuantityInputs :: "('q, 's) k8s_arith \<Rightarrow> cap_input \<Rightarrow> obs_error list" where
  "validateCapacityQuantityInputs K inp =
     (let pod = validate_quantity K ObsPodResources; node = validate_quantity K ObsNodeCapacity
      in pod ''PodRequestCPU'' (ci_PodRequestCPU inp) False
       @ pod ''PodRequestMemory'' (ci_PodRequestMemory inp) False
       @ pod ''PodLimitCPU'' (ci_PodLimitCPU inp) False
       @ pod ''PodLimitMemory'' (ci_PodLimitMemory inp) False
       @ pod ''PodLevelRequestCPU'' (ci_PodLevelRequestCPU inp) False
       @ pod ''PodLevelRequestMemory'' (ci_PodLevelRequestMemory inp) False
       @ pod ''PodLevelLimitCPU'' (ci_PodLevelLimitCPU inp) False
       @ pod ''PodLevelLimitMemory'' (ci_PodLevelLimitMemory inp) False
       @ concat (map (\<lambda>c. let name = ''container '' @ go_quote (cn_Name c) in
             pod (name @ '' CPU request'') (cn_CPU c) False @ pod (name @ '' memory request'') (cn_Memory c) False
           @ pod (name @ '' CPU limit'') (cn_LimitCPU c) False @ pod (name @ '' memory limit'') (cn_LimitMemory c) False)
         (ci_ContainerResources inp))
       @ concat (map (\<lambda>q. let name = ''ResourceQuota '' @ go_quote (cq_Name q) @ '' '' @ cq_Resource q in
             validate_quantity K ObsResourceQuotas (name @ '' hard'') (cq_Hard q) False
           @ validate_quantity K ObsResourceQuotas (name @ '' used'') (cq_Used q) False) (ci_Quotas inp))
       @ concat (map (\<lambda>l. let name = ''LimitRange '' @ go_quote (lr_Name l) @ '' '' @ lr_Resource l in
             validate_quantity K ObsLimitRanges (name @ '' minimum'') (lr_Min l) False
           @ validate_quantity K ObsLimitRanges (name @ '' maximum'') (lr_Max l) False
           @ validate_quantity K ObsLimitRanges (name @ '' default'') (lr_Default l) False
           @ validate_quantity K ObsLimitRanges (name @ '' default request'') (lr_DefaultRequest l) False
           @ validate_quantity K ObsLimitRanges (name @ '' max limit/request ratio'') (lr_MaxLimitRequestRatio l) False)
         (ci_LimitRanges inp))
       @ (case ci_NodeCapacity inp of None \<Rightarrow> [] | Some nc \<Rightarrow>
             node ''node allocatable CPU'' (nc_AllocCPU nc) False
           @ node ''node allocatable memory'' (nc_AllocMemory nc) False
           @ node ''node available CPU'' (nc_AvailableCPU nc) True
           @ node ''node available memory'' (nc_AvailableMemory nc) True
           @ node ''node requested CPU'' (nc_RequestedCPU nc) False
           @ node ''node requested memory'' (nc_RequestedMemory nc) False
           @ concat (map (\<lambda>n. node (''node '' @ go_quote (nh_Name n) @ '' available CPU'') (nh_AvailableCPU n) True
               @ node (''node '' @ go_quote (nh_Name n) @ '' available memory'') (nh_AvailableMemory n) True)
             (nc_NodeHeadrooms nc))))"

definition limitRangeResourceValues :: "cap_container \<Rightarrow> string \<Rightarrow> string \<times> string \<times> string" where
  "limitRangeResourceValues c res =
     (if res = ''cpu'' then (cn_CPU c, cn_LimitCPU c, ''CPU'')
      else if res = ''memory'' then (cn_Memory c, cn_LimitMemory c, ''memory'')
      else ([], [], []))"

definition limitRangeResourceMissing :: "cap_container list \<Rightarrow> string \<Rightarrow> bool \<times> bool" where
  "limitRangeResourceMissing cs res =
     (if cs = [] then (True, True)
      else (list_ex (\<lambda>c. trim_space (fst (limitRangeResourceValues c res)) = []) cs,
            list_ex (\<lambda>c. trim_space (fst (snd (limitRangeResourceValues c res))) = []) cs))"

definition unsupportedLimitRangeObservations :: "limit_range list \<Rightarrow> cap_container list \<Rightarrow> obs_error list" where
  "unsupportedLimitRangeObservations lrs cs = concat (map (\<lambda>l.
     let (requestMissing, limitMissing) = limitRangeResourceMissing cs (lr_Resource l);
         semantics = (if lr_Default l \<noteq> [] \<and> (lr_Type l \<noteq> ''Container'' \<or> limitMissing) then [''default limit''] else [])
           @ (if lr_DefaultRequest l \<noteq> [] \<and> (lr_Type l \<noteq> ''Container'' \<or> requestMissing) then [''default request''] else [])
     in if semantics = [] then []
        else [\<lparr>oe_Domain = ObsLimitRangeDefaults, oe_Source = ''LimitRange '' @ go_quote (lr_Name l) @ '' '' @ lr_Resource l,
               oe_Message = ''admission-time '' @ join_str '', '' semantics @ '' cannot be projected safely''\<rparr>]) lrs)"

subsection \<open>Target and demand\<close>

definition maxReplicasCap :: int where "maxReplicasCap = 200"

definition computeTargetMax :: "int \<Rightarrow> int \<Rightarrow> int" where
  "computeTargetMax currentMax desired =
     (if currentMax = max_int32 then max_int32
      else let next0 = currentMax * 2;
               next1 = (if desired > next0 then desired else next0);
               next2 = (if next1 \<le> currentMax then currentMax + 1 else next1);
               next3 = (if currentMax < maxReplicasCap \<and> next2 > maxReplicasCap then maxReplicasCap else next2);
               next4 = (if next3 > max_int32 then max_int32 else next3)
           in wrap32 next4)"

definition resolveTargetMax :: "cap_input \<Rightarrow> int \<times> obs_error list" where
  "resolveTargetMax inp =
     (let targetMax = ci_TargetMaxReplicas inp
      in if targetMax = 0 then
           (let t = computeTargetMax (ci_MaxReplicas inp) (ci_CurrentReplicas inp)
            in if t \<le> ci_MaxReplicas inp then (t, [\<lparr>oe_Domain = ObsPlanInput, oe_Source = ''target maxReplicas'',
                 oe_Message = ''maxReplicas is already at the int32 limit and cannot be raised''\<rparr>])
               else (t, []))
         else if targetMax \<le> ci_MaxReplicas inp then
           (targetMax, [\<lparr>oe_Domain = ObsPlanInput, oe_Source = ''target maxReplicas'',
              oe_Message = ''must be greater than the current maxReplicas ('' @ show_int (ci_MaxReplicas inp) @ ''), got ''
                @ show_int targetMax\<rparr>])
         else (targetMax, []))"

definition computeAdditionalPods :: "int \<Rightarrow> int \<Rightarrow> int" where
  "computeAdditionalPods targetMax currentReplicas =
     (let d = targetMax - currentReplicas; d1 = (if d < 0 then 0 else d) in if d1 > max_int32 then max_int32 else d1)"

record 'q capacityDemand =
  cd_perPodCPU :: 'q
  cd_perPodMemory :: 'q
  cd_perPodLimitCPU :: 'q
  cd_perPodLimitMemory :: 'q
  cd_totalCPU :: 'q
  cd_totalMemory :: 'q
  cd_totalLimitCPU :: 'q
  cd_totalLimitMemory :: 'q

definition computeCapacityDemand :: "('q, 's) k8s_arith \<Rightarrow> cap_input \<Rightarrow> int \<Rightarrow> bool \<Rightarrow> 'q capacityDemand" where
  "computeCapacityDemand K inp additionalPods resourceInputsUnknown =
     (let (cpu, mem) = (if resourceInputsUnknown then (q_zero K, q_zero K) else effectivePerPodResources K inp);
          (lcpu, lmem) = effectivePerPodLimits K inp
      in \<lparr>cd_perPodCPU = cpu, cd_perPodMemory = mem, cd_perPodLimitCPU = lcpu, cd_perPodLimitMemory = lmem,
          cd_totalCPU = Multiply K cpu additionalPods, cd_totalMemory = Multiply K mem additionalPods,
          cd_totalLimitCPU = Multiply K lcpu additionalPods, cd_totalLimitMemory = Multiply K lmem additionalPods\<rparr>)"

subsection \<open>Quotas\<close>

definition quotaResourceRequirement :: "string \<Rightarrow> 'q \<Rightarrow> 'q \<Rightarrow> 'q \<Rightarrow> 'q \<Rightarrow> 'q \<Rightarrow> (string \<times> 'q \<times> string) option" where
  "quotaResourceRequirement name requiredCPU requiredMemory requiredLimitCPU requiredLimitMemory requiredPods =
     (if name = ''cpu'' \<or> name = ''requests.cpu'' then Some (''CPU'', requiredCPU, ''quota-cpu'')
      else if name = ''memory'' \<or> name = ''requests.memory'' then Some (''memory'', requiredMemory, ''quota-memory'')
      else if name = ''pods'' \<or> name = ''count/pods'' then Some (''pods'', requiredPods, ''quota-pods'')
      else if name = ''limits.cpu'' then Some (''CPU limits'', requiredLimitCPU, ''quota-limit-cpu'')
      else if name = ''limits.memory'' then Some (''memory limits'', requiredLimitMemory, ''quota-limit-memory'')
      else None)"

definition podLevelQuotaValue :: "cap_input \<Rightarrow> string \<Rightarrow> string" where
  "podLevelQuotaValue inp res =
     (if res = ''cpu'' \<or> res = ''requests.cpu'' then ci_PodLevelRequestCPU inp
      else if res = ''memory'' \<or> res = ''requests.memory'' then ci_PodLevelRequestMemory inp
      else if res = ''limits.cpu'' then ci_PodLevelLimitCPU inp
      else if res = ''limits.memory'' then ci_PodLevelLimitMemory inp
      else [])"

definition containerQuotaValue :: "cap_container \<Rightarrow> string \<Rightarrow> string option" where
  "containerQuotaValue c res =
     (if res = ''cpu'' \<or> res = ''requests.cpu'' then Some (cn_CPU c)
      else if res = ''memory'' \<or> res = ''requests.memory'' then Some (cn_Memory c)
      else if res = ''limits.cpu'' then Some (cn_LimitCPU c)
      else if res = ''limits.memory'' then Some (cn_LimitMemory c)
      else None)"

fun all_specify :: "string \<Rightarrow> cap_container list \<Rightarrow> bool" where
  "all_specify res [] = True"
| "all_specify res (c # cs) = (case containerQuotaValue c res of None \<Rightarrow> True
     | Some v \<Rightarrow> if trim_space v = [] then False else all_specify res cs)"

definition allContainersSpecifyQuotaResource :: "cap_input \<Rightarrow> string \<Rightarrow> bool" where
  "allContainersSpecifyQuotaResource inp res =
     (if res = ''pods'' \<or> res = ''count/pods'' then True
      else if trim_space (podLevelQuotaValue inp res) \<noteq> [] then True
      else if ci_ContainerResources inp = [] then False
      else all_specify res (ci_ContainerResources inp))"

definition check_quota :: "('q, 's) k8s_arith \<Rightarrow> cap_input \<Rightarrow> int \<Rightarrow> cap_quota \<Rightarrow> string \<times> 'q \<times> string \<Rightarrow> cap_check" where
  "check_quota K inp additionalPods q req =
     (let (display, required, chk) = req
      in if cq_Scoped q then unknown_check ''observation'' ObsResourceQuotas
           (''ResourceQuota '' @ go_quote (cq_Name q) @ '' has scopes whose applicability to the target Pod was not evaluated'')
         else if cq_HardObserved q = Some False then unknown_check ''observation'' ObsResourceQuotas
           (''ResourceQuota '' @ go_quote (cq_Name q) @ '' status.hard is missing '' @ cq_Resource q)
         else if additionalPods > 0 \<and> \<not> allContainersSpecifyQuotaResource inp (cq_Resource q) then
           unknown_check ''observation'' ObsPodResources
             (''ResourceQuota '' @ go_quote (cq_Name q) @ '' constrains '' @ cq_Resource q
                @ '', but at least one target container has no explicit matching request or limit'')
         else if cq_UsageObserved q = Some False then unknown_check ''observation'' ObsResourceQuotas
           (''ResourceQuota '' @ go_quote (cq_Name q) @ '' status.used is missing '' @ cq_Resource q)
         else let rem = q_sub K (parseQuantityOrZero K (cq_Hard q)) (parseQuantityOrZero K (cq_Used q))
              in if q_cmp K rem required \<ge> 0 then newCheck chk CheckPass
                   (''namespace quota '' @ display @ '' remaining in '' @ go_quote (cq_Name q) @ '' is sufficient ('' @ q_string K rem @ '')'')
                 else newCheck chk CheckFail
                   (''namespace quota '' @ display @ '' remaining in '' @ go_quote (cq_Name q) @ '': '' @ q_string K rem
                      @ '', required: '' @ q_string K required))"

definition checkQuotaHeadroom :: "('q, 's) k8s_arith \<Rightarrow> cap_input \<Rightarrow> 'q capacityDemand \<Rightarrow> int \<Rightarrow> cap_check list" where
  "checkQuotaHeadroom K inp demand additionalPods =
     (let quotas = ci_Quotas inp;
          req = (\<lambda>q. quotaResourceRequirement (cq_Resource q) (cd_totalCPU demand) (cd_totalMemory demand)
                   (cd_totalLimitCPU demand) (cd_totalLimitMemory demand) (q_new K additionalPods))
      in if quotas = [] then [newCheck ''quota'' CheckPass ''no namespace ResourceQuotas found'']
         else concat (map (\<lambda>q. case req q of None \<Rightarrow> [] | Some r \<Rightarrow> [check_quota K inp additionalPods q r]) quotas)
           @ (if list_all (\<lambda>q. req q = None) quotas
              then [newCheck ''quota'' CheckPass ''namespace quota does not constrain cpu, memory, or pods''] else []))"

subsection \<open>Limit ranges\<close>

definition limitRangeBoundsViolations :: "('q, 's) k8s_arith \<Rightarrow> 'q \<Rightarrow> 'q \<Rightarrow> string \<Rightarrow> string \<Rightarrow> string \<Rightarrow> string \<Rightarrow> limit_range \<Rightarrow> bool
    \<Rightarrow> cap_check list" where
  "limitRangeBoundsViolations K request limit subject requestValue limitValue display lr limitObserved =
     (let what = subject @ '' '' @ display; name = go_quote (lr_Name lr)
      in (if lr_Max lr \<noteq> [] then
            (let maxQty = parseQuantityOrZero K (lr_Max lr)
             in (if \<not> limitObserved then [newCheck ''limit-range-maximum'' CheckFail
                    (what @ '' limit is not specified but LimitRange '' @ name @ '' sets max '' @ lr_Max lr)]
                 else if q_cmp K limit maxQty > 0 then [newCheck ''limit-range-maximum'' CheckFail
                    (what @ '' limit '' @ limitValue @ '' exceeds LimitRange '' @ name @ '' max '' @ lr_Max lr)]
                 else [])
                @ (if q_cmp K request maxQty > 0 then [newCheck ''limit-range-maximum'' CheckFail
                    (what @ '' request '' @ requestValue @ '' exceeds LimitRange '' @ name @ '' max '' @ lr_Max lr)] else []))
          else [])
       @ (if lr_Min lr \<noteq> [] \<and> q_cmp K request (parseQuantityOrZero K (lr_Min lr)) < 0 then
            [newCheck ''limit-range-minimum'' CheckFail
               (what @ '' request '' @ (if trim_space requestValue = [] then ''0 (not specified)'' else requestValue)
                  @ '' below LimitRange '' @ name @ '' min '' @ lr_Min lr)]
          else [])
       @ (if lr_MaxLimitRequestRatio lr \<noteq> [] then
            (if \<not> limitObserved then [newCheck ''limit-range-ratio'' CheckFail
               (what @ '' limit is required by LimitRange '' @ name @ '' max limit/request ratio'')]
             else if q_isZero K request then [newCheck ''limit-range-ratio'' CheckFail
               (what @ '' request must be non-zero for LimitRange '' @ name @ '' max limit/request ratio'')]
             else let ratio = q_float K (parseQuantityOrZero K (lr_MaxLimitRequestRatio lr));
                      actual = f_div (q_float K limit) (q_float K request)
                  in if f_lt ratio actual then [newCheck ''limit-range-ratio'' CheckFail
                       (what @ '' limit/request ratio '' @ show_g 3 actual @ '' exceeds LimitRange '' @ name @ '' max ''
                          @ lr_MaxLimitRequestRatio lr)] else [])
          else []))"

definition checkLimitRangeResource :: "('q, 's) k8s_arith \<Rightarrow> cap_container \<Rightarrow> limit_range \<Rightarrow> cap_check list" where
  "checkLimitRangeResource K c lr =
     (if lr_Type lr \<noteq> ''Container'' then []
      else let (requestValue, limitValue, display) = limitRangeResourceValues c (lr_Resource lr)
           in if display = [] then []
              else limitRangeBoundsViolations K (parseQuantityOrZero K requestValue) (parseQuantityOrZero K limitValue)
                (''container '' @ go_quote (cn_Name c)) requestValue limitValue display lr (trim_space limitValue \<noteq> []))"

definition checkLimitRangePod :: "('q, 's) k8s_arith \<Rightarrow> 'q capacityDemand \<Rightarrow> limit_range \<Rightarrow> cap_check list" where
  "checkLimitRangePod K demand lr =
     (let check = (\<lambda>request limit display. limitRangeBoundsViolations K request limit ''pod'' (q_string K request) (q_string K limit)
            display lr (\<not> q_isZero K limit))
      in if lr_Type lr \<noteq> ''Pod'' then []
         else if lr_Resource lr = ''cpu'' then check (cd_perPodCPU demand) (cd_perPodLimitCPU demand) ''CPU''
         else if lr_Resource lr = ''memory'' then check (cd_perPodMemory demand) (cd_perPodLimitMemory demand) ''memory''
         else [])"

definition checkLimitRanges :: "('q, 's) k8s_arith \<Rightarrow> cap_input \<Rightarrow> 'q capacityDemand \<Rightarrow> cap_check list" where
  "checkLimitRanges K inp demand =
     (if ci_LimitRanges inp = [] then [newCheck ''limit-range'' CheckPass ''no LimitRange constraints in namespace'']
      else let results = concat (map (\<lambda>c. concat (map (checkLimitRangeResource K c) (ci_LimitRanges inp))) (ci_ContainerResources inp))
                 @ concat (map (checkLimitRangePod K demand) (ci_LimitRanges inp))
           in if results = [] then [newCheck ''limit-range'' CheckPass ''all pod and container requests within LimitRange bounds'']
              else results)"

subsection \<open>Nodes\<close>

definition noSchedulableNodes :: "node_capacity \<Rightarrow> bool" where
  "noSchedulableNodes nc =
     (if nc_TotalNodes nc = 0 then True
      else if nc_SchedulableNodesKnown nc then nc_SchedulableNodes nc = 0
      else nc_TaintedNodes nc \<ge> nc_TotalNodes nc)"

definition nodeHeadroomFor :: "node_capacity \<Rightarrow> string \<times> string \<times> bool" where
  "nodeHeadroomFor nc =
     (if nc_AvailableCPU nc \<noteq> [] \<or> nc_AvailableMemory nc \<noteq> [] then (nc_AvailableCPU nc, nc_AvailableMemory nc, True)
      else (nc_AllocCPU nc, nc_AllocMemory nc, False))"

definition withClusterAutoscalerNote :: "string \<Rightarrow> bool \<Rightarrow> string \<Rightarrow> string" where
  "withClusterAutoscalerNote message hasCA provisions =
     (if \<not> hasCA then message else message @ '' (Cluster Autoscaler may provision '' @ provisions @ '')'')"

definition checkNodeResourceHeadroom :: "('q, 's) k8s_arith \<Rightarrow> string \<Rightarrow> string \<Rightarrow> string \<Rightarrow> 'q \<Rightarrow> bool \<Rightarrow> bool \<Rightarrow> cap_check option" where
  "checkNodeResourceHeadroom K available resourceName chk required afterRequests hasCA =
     (if q_isZero K required then None
      else if q_cmp K (parseQuantityOrZero K available) required \<ge> 0 then None
      else Some (newCheck chk CheckFail (withClusterAutoscalerNote
        (''node allocatable '' @ resourceName @ (if afterRequests then '' headroom after scheduled Pod requests'' else [])
           @ '': '' @ available @ '', required for additional pods: '' @ q_string K required) hasCA ''nodes'')))"

definition checkNodePodSlots :: "node_capacity \<Rightarrow> int \<Rightarrow> bool \<Rightarrow> cap_check" where
  "checkNodePodSlots nc additionalPods hasCA =
     (if nc_AvailablePods nc \<ge> additionalPods then newCheck ''node-pods'' CheckPass
        (''node Pod slots appear sufficient for '' @ show_int additionalPods @ '' additional pod(s)'')
      else newCheck ''node-pods'' CheckFail (withClusterAutoscalerNote
        (''node Pod slots remaining: '' @ show_int (nc_AvailablePods nc) @ '', required for additional pods: '' @ show_int additionalPods)
        hasCA ''nodes''))"

text \<open>The loop over the nodes, left once enough pods fit.\<close>

fun fragment_fit :: "('q, 's) k8s_arith \<Rightarrow> 'q \<Rightarrow> 'q \<Rightarrow> int \<Rightarrow> int \<Rightarrow> node_headroom list \<Rightarrow> int" where
  "fragment_fit K perPodCPU perPodMemory additionalPods fit [] = fit"
| "fragment_fit K perPodCPU perPodMemory additionalPods fit (node # nodes) =
     (let nodeFit = node_fit K perPodCPU perPodMemory node;
          fit1 = (if nodeFit > 0 then wrap64 (fit + nodeFit) else fit)
      in if fit1 \<ge> additionalPods then fit1 else fragment_fit K perPodCPU perPodMemory additionalPods fit1 nodes)"

definition checkNodeFragmentation :: "('q, 's) k8s_arith \<Rightarrow> node_capacity \<Rightarrow> 'q \<Rightarrow> 'q \<Rightarrow> int \<Rightarrow> bool \<Rightarrow> cap_check option" where
  "checkNodeFragmentation K nc perPodCPU perPodMemory additionalPods hasCA =
     (if nc_NodeHeadrooms nc = [] \<or> additionalPods \<le> 0 then None
      else let fit = fragment_fit K perPodCPU perPodMemory additionalPods 0 (nc_NodeHeadrooms nc)
           in if fit \<ge> additionalPods then Some (newCheck ''node-schedulable'' CheckPass
                (''per-node resource headroom fits all '' @ show_int additionalPods @ '' additional pod(s)''))
              else Some (newCheck ''node-schedulable'' CheckFail (withClusterAutoscalerNote
                (''per-node resource headroom fits '' @ show_int fit @ '' of '' @ show_int additionalPods
                   @ '' additional pod(s); aggregate capacity is fragmented'') hasCA ''a suitable node'')))"

definition option_list :: "'x option \<Rightarrow> 'x list" where
  "option_list x = (case x of None \<Rightarrow> [] | Some y \<Rightarrow> [y])"

definition checkNodeCapacity :: "('q, 's) k8s_arith \<Rightarrow> node_capacity option \<Rightarrow> 'q capacityDemand \<Rightarrow> int \<Rightarrow> bool \<Rightarrow> cap_check list" where
  "checkNodeCapacity K node demand additionalPods hasCA = (case node of
     None \<Rightarrow> [unknown_check ''node-capacity'' ObsNodeCapacity ''node capacity not checked (use --capacity-deep for full analysis)'']
   | Some nc \<Rightarrow>
       if noSchedulableNodes nc then [newCheck ''node-schedulable'' CheckFail ''no schedulable nodes found in cluster'']
       else let (hcpu, hmem, afterRequests) = nodeHeadroomFor nc;
                cpuShortfall = checkNodeResourceHeadroom K hcpu ''CPU'' ''node-cpu'' (cd_totalCPU demand) afterRequests hasCA;
                memoryShortfall = checkNodeResourceHeadroom K hmem ''memory'' ''node-memory'' (cd_totalMemory demand) afterRequests hasCA
            in (if \<not> nc_PodCapacityKnown nc
                then [unknown_check ''observation'' ObsNodeCapacity ''node allocatable Pod slots are unavailable''] else [])
               @ option_list cpuShortfall @ option_list memoryShortfall
               @ (if cpuShortfall = None then [newCheck ''node-cpu'' CheckPass ''node CPU appears sufficient for additional pods''] else [])
               @ (if memoryShortfall = None then [newCheck ''node-memory'' CheckPass ''node memory appears sufficient for additional pods''] else [])
               @ (if nc_PodCapacityKnown nc then [checkNodePodSlots nc additionalPods hasCA] else [])
               @ option_list (checkNodeFragmentation K nc (cd_perPodCPU demand) (cd_perPodMemory demand) additionalPods hasCA))"

subsection \<open>Pending pods, budgets, autoscaler\<close>

fun pending_reasons :: "string list \<Rightarrow> pending_pod list \<Rightarrow> string list" where
  "pending_reasons reasons [] = reasons"
| "pending_reasons reasons (p # ps) = pending_reasons
     (if pp_Unschedulable p \<and> pp_Reasons p \<noteq> [] \<and> length reasons < 3 then reasons @ [hd (pp_Reasons p)] else reasons) ps"

definition checkPendingPods :: "pending_pod list \<Rightarrow> cap_check list" where
  "checkPendingPods pending =
     (if pending = [] then [newCheck ''pending-pods'' CheckPass ''no pending pods for scale target'']
      else if list_ex pp_Unschedulable pending then
        (let reasons = pending_reasons [] pending; n = show_int (int (length pending))
         in [newCheck ''pending-pods'' CheckFail
              (if reasons \<noteq> [] then n @ '' pod(s) are already Pending due to '' @ join_str ''; '' reasons
               else n @ '' pod(s) are already Pending; scaling will create more'')])
      else [newCheck ''pending-pods'' CheckPass (show_int (int (length pending)) @ '' pending pod(s) but none unschedulable'')])"

definition checkPDBs :: "pdb_info list \<Rightarrow> cap_check list" where
  "checkPDBs pdbs =
     (if pdbs = [] then [newCheck ''pod-disruption-budget'' CheckPass ''no PodDisruptionBudgets in namespace'']
      else let blocking = map pdb_Name (filter (\<lambda>p. pdb_Disruption p = ''none''
                 \<or> (pdb_MinAvailable p \<noteq> [] \<and> pdb_MinAvailable p \<noteq> ''0'')) pdbs)
           in if blocking \<noteq> [] then [newCheck ''pod-disruption-budget'' CheckPass
                (''PDB '' @ join_str '', '' blocking @ '' may slow scale-down (informational)'')]
              else [newCheck ''pod-disruption-budget'' CheckPass ''PodDisruptionBudgets will not block scale-down''])"

definition checkClusterAutoscaler :: "bool \<Rightarrow> cap_check list" where
  "checkClusterAutoscaler detected = (if \<not> detected then [] else
     [newCheck ''cluster-autoscaler'' CheckPass ''Cluster Autoscaler detected; node provisioning may handle additional pods''])"

subsection \<open>The plan\<close>

definition resource_inputs_unknown :: "obs_error list \<Rightarrow> bool" where
  "resource_inputs_unknown es = (hasObservationDomain es ObsScaleTarget \<or> hasObservationDomain es ObsPodResources)"

definition capacity_checks :: "('q, 's) k8s_arith \<Rightarrow> cap_input \<Rightarrow> 'q capacityDemand \<Rightarrow> int \<Rightarrow> cap_check list" where
  "capacity_checks K inp demand additionalPods =
     (let es = ci_ObservationErrors inp; unknown = resource_inputs_unknown es
      in checkObservationErrors es
       @ (if \<not> unknown \<and> \<not> hasObservationDomain es ObsResourceQuotas then checkQuotaHeadroom K inp demand additionalPods else [])
       @ (if \<not> unknown \<and> \<not> hasObservationDomain es ObsLimitRanges then checkLimitRanges K inp demand else [])
       @ (if \<not> unknown \<and> \<not> hasObservationDomain es ObsNodeCapacity
          then checkNodeCapacity K (ci_NodeCapacity inp) demand additionalPods (ci_ClusterAutoscaler inp) else [])
       @ (if \<not> hasObservationDomain es ObsScaleTarget \<and> \<not> hasObservationDomain es ObsPendingPods
          then checkPendingPods (ci_PendingPods inp) else [])
       @ (if \<not> hasObservationDomain es ObsPDBs then checkPDBs (ci_PDBs inp) else [])
       @ (if \<not> hasObservationDomain es ObsClusterAutoscaler then checkClusterAutoscaler (ci_ClusterAutoscaler inp) else []))"

definition node_check_ids :: "string list" where
  "node_check_ids = [''node-cpu'', ''node-memory'', ''node-pods'', ''node-schedulable'']"

definition hasNodeCapacityShortfall :: "cap_check list \<Rightarrow> bool" where
  "hasNodeCapacityShortfall cs = list_ex (\<lambda>c. capacityStatus c = CheckFail \<and> cc_CheckID c \<in> set node_check_ids) cs"

definition capacityUnknownBlocksDecision :: "cap_check list \<Rightarrow> cap_check \<Rightarrow> bool" where
  "capacityUnknownBlocksDecision checks c =
     (if cc_ObservationDomain c = ObsPDBs then False
      else if cc_ObservationDomain c = ObsClusterAutoscaler then hasNodeCapacityShortfall checks
      else True)"

definition remediations :: "string \<Rightarrow> string option" where
  "remediations = map_of
     [(''quota-cpu'', ''Increase namespace CPU quota or reduce pod CPU requests''),
      (''quota-memory'', ''Increase namespace memory quota or reduce pod memory requests''),
      (''quota-pods'', ''Increase namespace Pod quota or lower the proposed maxReplicas''),
      (''quota-limit-cpu'', ''Increase namespace CPU limit quota or reduce pod CPU limits''),
      (''quota-limit-memory'', ''Increase namespace memory limit quota or reduce pod memory limits''),
      (''limit-range-maximum'', ''Adjust pod requests or LimitRange constraints''),
      (''limit-range-minimum'', ''Raise container requests to meet LimitRange minimums''),
      (''node-schedulable'', ''Add nodes or remove blocking taints''),
      (''node-pods'', ''Add nodes or reduce the number of Pods scheduled per node''),
      (''pending-pods'', ''Resolve pending pod scheduling issues before scaling'')]"

definition capacityRemediationActions :: "cap_check list \<Rightarrow> string list" where
  "capacityRemediationActions checks = concat (map (\<lambda>c. if capacityStatus c \<noteq> CheckFail then []
     else (case remediations (cc_CheckID c) of None \<Rightarrow> [] | Some a \<Rightarrow> [a])) checks)"

definition countFailingChecks :: "cap_check list \<Rightarrow> string list \<Rightarrow> nat" where
  "countFailingChecks checks ids = length (filter (\<lambda>c. capacityStatus c = CheckFail \<and> cc_CheckID c \<in> set ids) checks)"

definition buildPlanRecommendation :: "cap_check list \<Rightarrow> int \<Rightarrow> bool \<Rightarrow> bool \<times> string \<times> string list" where
  "buildPlanRecommendation checks targetMax clusterAutoscaler =
     (let failedChecks = length (filter (\<lambda>c. capacityStatus c = CheckFail) checks);
          unknownChecks = length (filter (\<lambda>c. capacityStatus c = CheckUnknown \<and> capacityUnknownBlocksDecision checks c) checks)
      in if unknownChecks > 0 then
           (False, ''Cannot confirm that raising maxReplicas to '' @ show_int targetMax @ '' is safe because ''
              @ show_int (int unknownChecks) @ '' capacity observation(s) are unknown.'',
            [''Collect the missing capacity observations (use --capacity-deep for node capacity) and rerun the plan''])
         else if failedChecks = 0 then (True, ''Safe to raise maxReplicas to '' @ show_int targetMax @ ''.'', [])
         else if clusterAutoscaler \<and> failedChecks = countFailingChecks checks node_check_ids then
           (False, ''Cannot confirm that raising maxReplicas to '' @ show_int targetMax
              @ '' is safe; Cluster Autoscaler is present, but compatible node-group capacity and limits were not verified.'',
            [''Monitor node provisioning after raising maxReplicas'', ''Watch for Pending pods with kubectl get pods -w''])
         else let actions = capacityRemediationActions checks
              in (False, ''Do not raise maxReplicas to '' @ show_int targetMax @ '' yet.'',
                  if actions = [] then [''Review capacity constraints before raising maxReplicas''] else actions))"

definition buildDryRunCommand :: "string \<Rightarrow> string \<Rightarrow> int \<Rightarrow> string" where
  "buildDryRunCommand namespace hpaName targetMax =
     ''kubectl patch hpa '' @ hpaName @ '' -n '' @ namespace @ '' --type=merge -p '' @ [CHR 0x27]
     @ [CHR 0x7B, CHR 0x22] @ ''spec'' @ [CHR 0x22, CHR 0x3A, CHR 0x7B, CHR 0x22] @ ''maxReplicas'' @ [CHR 0x22, CHR 0x3A]
     @ show_int targetMax @ ''}}'' @ [CHR 0x27] @ '' --dry-run=client''"

text \<open>The input with every observation error of the plan: those of the caller, of the quantities, of the limit ranges, of the target.\<close>

definition observed_input :: "('q, 's) k8s_arith \<Rightarrow> cap_input \<Rightarrow> cap_input" where
  "observed_input K inp = inp\<lparr>ci_ObservationErrors := ci_ObservationErrors inp @ validateCapacityQuantityInputs K inp
     @ unsupportedLimitRangeObservations (ci_LimitRanges inp) (ci_ContainerResources inp) @ snd (resolveTargetMax inp)\<rparr>"

definition AnalyzeCapacityPlan :: "('q, 's) k8s_arith \<Rightarrow> cap_input \<Rightarrow> cap_plan" where
  "AnalyzeCapacityPlan K inp0 =
     (let inp = observed_input K inp0; es = ci_ObservationErrors inp;
          unknown = resource_inputs_unknown (ci_ObservationErrors inp0 @ validateCapacityQuantityInputs K inp0
             @ unsupportedLimitRangeObservations (ci_LimitRanges inp0) (ci_ContainerResources inp0));
          targetMax = fst (resolveTargetMax inp0);
          additionalPods = computeAdditionalPods targetMax (ci_CurrentReplicas inp);
          demand = computeCapacityDemand K inp additionalPods unknown;
          checks = capacity_checks K inp demand additionalPods;
          (safe, recommendation, actions) = buildPlanRecommendation checks targetMax (ci_ClusterAutoscaler inp)
      in \<lparr>cp_Namespace = ci_Namespace inp, cp_Name = ci_HPAName inp, cp_Target = ci_Target inp,
          cp_CurrentReplicas = ci_CurrentReplicas inp, cp_MaxReplicas = ci_MaxReplicas inp,
          cp_Issue = (if ci_CurrentReplicas inp \<ge> ci_MaxReplicas inp then ''HPA is capped at maxReplicas'' else ''HPA is not at maxReplicas''),
          cp_TargetMaxReplicas = targetMax, cp_AdditionalPods = additionalPods,
          cp_RequiredCPU = q_string K (cd_totalCPU demand), cp_RequiredMemory = q_string K (cd_totalMemory demand),
          cp_Checks = checks, cp_Recommendation = recommendation, cp_Safe = safe,
          cp_SchedulableNow = (if \<not> unknown \<and> \<not> hasObservationDomain es ObsNodeCapacity
             then computeSchedulableNow K (ci_NodeCapacity inp) (cd_perPodCPU demand) (cd_perPodMemory demand) (ci_ReadyPods inp) else 0),
          cp_NodeAutoscalerRequired = hasNodeCapacityShortfall checks,
          cp_DryRunCommand = (if \<not> hasObservationDomain es ObsPlanInput
             then buildDryRunCommand (ci_Namespace inp) (ci_HPAName inp) targetMax else []),
          cp_NextActions = actions\<rparr>)"

subsection \<open>What decides\<close>

lemma status_newCheck [simp]: "s \<in> {CheckPass, CheckFail, CheckUnknown} \<Longrightarrow> capacityStatus (newCheck i s m) = s"
  by (auto simp: capacityStatus_def newCheck_def)

lemma status_unknown_check [simp]: "capacityStatus (unknown_check i d m) = CheckUnknown" "cc_ObservationDomain (unknown_check i d m) = d"
  by (auto simp: capacityStatus_def unknown_check_def newCheck_def)

lemma status_cases: "capacityStatus c = CheckPass \<or> capacityStatus c = CheckFail \<or> capacityStatus c = CheckUnknown"
  by (auto simp: capacityStatus_def)

definition supports :: "cap_check \<Rightarrow> bool" where
  "supports c \<longleftrightarrow> capacityStatus c = CheckPass
     \<or> (capacityStatus c = CheckUnknown \<and> cc_ObservationDomain c \<in> {ObsPDBs, ObsClusterAutoscaler})"

text \<open>The recommendation is safe exactly when every check passes or is an unknown of an advisory domain; the rule that an unknown
  autoscaler counts when nodes fall short changes nothing.\<close>

lemma safe_iff_supported:
  "fst (buildPlanRecommendation checks targetMax ca) \<longleftrightarrow> (\<forall>c\<in>set checks. supports c)"
proof -
  let ?failed = "filter (\<lambda>c. capacityStatus c = CheckFail) checks"
  let ?unknown = "filter (\<lambda>c. capacityStatus c = CheckUnknown \<and> capacityUnknownBlocksDecision checks c) checks"
  have "fst (buildPlanRecommendation checks targetMax ca) \<longleftrightarrow> ?failed = [] \<and> ?unknown = []"
    by (simp add: buildPlanRecommendation_def Let_def)
  also have "\<dots> \<longleftrightarrow> (\<forall>c\<in>set checks. supports c)"
  proof
    assume n: "?failed = [] \<and> ?unknown = []"
    then have f: "capacityStatus c \<noteq> CheckFail" if "c \<in> set checks" for c using that by (simp add: filter_empty_conv)
    then have s: "\<not> hasNodeCapacityShortfall checks" by (auto simp: hasNodeCapacityShortfall_def list_ex_iff)
    show "\<forall>c\<in>set checks. supports c"
    proof
      fix c assume c: "c \<in> set checks"
      then have "capacityStatus c = CheckUnknown \<Longrightarrow> \<not> capacityUnknownBlocksDecision checks c"
        using n by (simp add: filter_empty_conv)
      then show "supports c" using f [OF c] status_cases [of c] by (auto simp: supports_def capacityUnknownBlocksDecision_def split: if_splits)
    qed
  next
    assume all: "\<forall>c\<in>set checks. supports c"
    then have f: "capacityStatus c \<noteq> CheckFail" if "c \<in> set checks" for c using that by (auto simp: supports_def)
    then have "\<not> hasNodeCapacityShortfall checks" by (auto simp: hasNodeCapacityShortfall_def list_ex_iff)
    then show "?failed = [] \<and> ?unknown = []"
      using all f by (auto simp: filter_empty_conv supports_def capacityUnknownBlocksDecision_def)
  qed
  finally show ?thesis .
qed

lemma not_supports [simp]: "\<not> supports (newCheck i CheckFail m)" "supports (newCheck i CheckPass m)"
  "supports (unknown_check i d m) \<longleftrightarrow> d \<in> {ObsPDBs, ObsClusterAutoscaler}"
  by (auto simp: supports_def)

subsection \<open>What a safe plan rests on\<close>

definition quota_allows :: "('q, 's) k8s_arith \<Rightarrow> ('q \<Rightarrow> rat) \<Rightarrow> 'q capacityDemand \<Rightarrow> int \<Rightarrow> cap_quota \<Rightarrow> bool" where
  "quota_allows K num demand additionalPods q \<longleftrightarrow>
     (\<forall>d required i. quotaResourceRequirement (cq_Resource q) (cd_totalCPU demand) (cd_totalMemory demand)
        (cd_totalLimitCPU demand) (cd_totalLimitMemory demand) (q_new K additionalPods) = Some (d, required, i) \<longrightarrow>
      \<not> cq_Scoped q \<and> cq_HardObserved q \<noteq> Some False \<and> cq_UsageObserved q \<noteq> Some False
      \<and> num (parseQuantityOrZero K (cq_Used q)) + num required \<le> num (parseQuantityOrZero K (cq_Hard q)))"

definition bounds_hold :: "('q, 's) k8s_arith \<Rightarrow> ('q \<Rightarrow> rat) \<Rightarrow> 'q \<Rightarrow> 'q \<Rightarrow> bool \<Rightarrow> limit_range \<Rightarrow> bool" where
  "bounds_hold K num request limit limitObserved lr \<longleftrightarrow>
     (lr_Max lr \<noteq> [] \<longrightarrow> limitObserved \<and> num limit \<le> num (parseQuantityOrZero K (lr_Max lr))
        \<and> num request \<le> num (parseQuantityOrZero K (lr_Max lr)))
   \<and> (lr_Min lr \<noteq> [] \<longrightarrow> num (parseQuantityOrZero K (lr_Min lr)) \<le> num request)
   \<and> (lr_MaxLimitRequestRatio lr \<noteq> [] \<longrightarrow> limitObserved \<and> num request \<noteq> 0
        \<and> \<not> f_lt (q_float K (parseQuantityOrZero K (lr_MaxLimitRequestRatio lr))) (f_div (q_float K limit) (q_float K request)))"

definition limits_allow :: "('q, 's) k8s_arith \<Rightarrow> ('q \<Rightarrow> rat) \<Rightarrow> cap_container list \<Rightarrow> 'q capacityDemand \<Rightarrow> limit_range \<Rightarrow> bool" where
  "limits_allow K num containers demand lr \<longleftrightarrow>
     (lr_Type lr = ''Container'' \<longrightarrow> (\<forall>c\<in>set containers. \<forall>req lim d. limitRangeResourceValues c (lr_Resource lr) = (req, lim, d) \<and> d \<noteq> [] \<longrightarrow>
        bounds_hold K num (parseQuantityOrZero K req) (parseQuantityOrZero K lim) (trim_space lim \<noteq> []) lr))
   \<and> (lr_Type lr = ''Pod'' \<and> lr_Resource lr = ''cpu'' \<longrightarrow>
        bounds_hold K num (cd_perPodCPU demand) (cd_perPodLimitCPU demand) (num (cd_perPodLimitCPU demand) \<noteq> 0) lr)
   \<and> (lr_Type lr = ''Pod'' \<and> lr_Resource lr = ''memory'' \<longrightarrow>
        bounds_hold K num (cd_perPodMemory demand) (cd_perPodLimitMemory demand) (num (cd_perPodLimitMemory demand) \<noteq> 0) lr)"

definition nodes_allow :: "('q, 's) k8s_arith \<Rightarrow> ('q \<Rightarrow> rat) \<Rightarrow> 'q capacityDemand \<Rightarrow> int \<Rightarrow> node_capacity \<Rightarrow> bool" where
  "nodes_allow K num demand additionalPods nc \<longleftrightarrow>
     \<not> noSchedulableNodes nc \<and> nc_PodCapacityKnown nc \<and> additionalPods \<le> nc_AvailablePods nc
   \<and> (num (cd_totalCPU demand) = 0 \<or> num (cd_totalCPU demand) \<le> num (parseQuantityOrZero K (fst (nodeHeadroomFor nc))))
   \<and> (num (cd_totalMemory demand) = 0 \<or> num (cd_totalMemory demand) \<le> num (parseQuantityOrZero K (fst (snd (nodeHeadroomFor nc)))))
   \<and> (nc_NodeHeadrooms nc \<noteq> [] \<longrightarrow>
        additionalPods \<le> (\<Sum>n\<leftarrow>nc_NodeHeadrooms nc. max 0 (node_fit K (cd_perPodCPU demand) (cd_perPodMemory demand) n)))"

lemma podsFit_le: "podsFitInResources K aC aM pC pM \<le> max_int32"
proof -
  let ?r = "fit_search (pod_fits K aC aM pC pM) 0 (max_int32 + 1)"
  have "0 \<le> ?r" "?r < max_int32 + 1" using fit_search_boundary [of 0 "max_int32 + 1" "pod_fits K aC aM pC pM"] by simp_all
  then show ?thesis by (simp add: podsFitInResources_def)
qed

lemma node_fit_le: "node_fit K pC pM n \<le> max_int32"
  using podsFit_le [of K "parseQuantityOrZero K (nh_AvailableCPU n)" "parseQuantityOrZero K (nh_AvailableMemory n)" pC pM]
  by (auto simp: node_fit_def Let_def)

lemma fragment_fit_sum:
  assumes "additionalPods \<le> fragment_fit K pC pM additionalPods fit nodes" "0 \<le> fit" "fit < additionalPods" "additionalPods \<le> max_int32"
  shows "additionalPods \<le> fit + (\<Sum>n\<leftarrow>nodes. max 0 (node_fit K pC pM n))"
  using assms
proof (induction nodes arbitrary: fit)
  case (Cons n nodes)
  let ?f = "fit + max 0 (node_fit K pC pM n)"
  have nn: "0 \<le> (\<Sum>n\<leftarrow>nodes. max 0 (node_fit K pC pM n))" by (rule sum_list_nonneg) auto
  have "in64 (fit + node_fit K pC pM n)" if "node_fit K pC pM n > 0"
    using that Cons.prems(2,3,4) node_fit_le [of K pC pM n] by (simp add: in64_def)
  then have f: "(if node_fit K pC pM n > 0 then wrap64 (fit + node_fit K pC pM n) else fit) = ?f" by simp
  show ?case
  proof (cases "additionalPods \<le> ?f")
    case True
    then show ?thesis using nn by simp
  next
    case False
    have "additionalPods \<le> fragment_fit K pC pM additionalPods ?f nodes"
      using Cons.prems(1) False unfolding fragment_fit.simps Let_def f by simp
    then show ?thesis using Cons.IH [of ?f] Cons.prems(2,4) False by simp
  qed
qed simp

lemma supported_append: "(\<forall>c\<in>set (xs @ ys). supports c) \<longleftrightarrow> (\<forall>c\<in>set xs. supports c) \<and> (\<forall>c\<in>set ys. supports c)"
  by auto

lemma supported_fail: "(\<forall>c\<in>set [newCheck i CheckFail m]. supports c) = False" "(\<forall>c\<in>set []. supports c) = True"
  by simp_all

lemma supported_if: "(\<forall>c\<in>set (if b then xs else ys). supports c) \<longleftrightarrow> (if b then \<forall>c\<in>set xs. supports c else \<forall>c\<in>set ys. supports c)"
  by simp

lemma no_violations:
  assumes "quantity_laws K num"
  shows "(\<forall>c\<in>set (limitRangeBoundsViolations K request limit subject rv lv display lr obs). supports c) \<longleftrightarrow> bounds_hold K num request limit obs lr"
  unfolding limitRangeBoundsViolations_def Let_def supported_append supported_if supported_fail bounds_hold_def quantity_lawsD [OF assms]
  by (auto simp: not_less)

lemma quotas_supported:
  assumes "quantity_laws K num" "\<forall>c\<in>set (checkQuotaHeadroom K inp demand n). supports c" "q \<in> set (ci_Quotas inp)"
  shows "quota_allows K num demand n q"
  unfolding quota_allows_def
proof (intro allI impI)
  fix d required i
  assume req: "quotaResourceRequirement (cq_Resource q) (cd_totalCPU demand) (cd_totalMemory demand)
      (cd_totalLimitCPU demand) (cd_totalLimitMemory demand) (q_new K n) = Some (d, required, i)"
  have "ci_Quotas inp \<noteq> []" using assms(3) by auto
  then have "check_quota K inp n q (d, required, i) \<in> set (checkQuotaHeadroom K inp demand n)"
    using assms(3) req unfolding checkQuotaHeadroom_def Let_def by (auto intro!: bexI [of _ q])
  then have "supports (check_quota K inp n q (d, required, i))" using assms(2) by blast
  then show "\<not> cq_Scoped q \<and> cq_HardObserved q \<noteq> Some False \<and> cq_UsageObserved q \<noteq> Some False
      \<and> num (parseQuantityOrZero K (cq_Used q)) + num required \<le> num (parseQuantityOrZero K (cq_Hard q))"
    unfolding check_quota_def Let_def prod.case quantity_lawsD [OF assms(1)] by (simp split: if_splits)
qed

lemma limits_supported:
  assumes "quantity_laws K num" "\<forall>c\<in>set (checkLimitRanges K inp demand). supports c" "lr \<in> set (ci_LimitRanges inp)"
  shows "limits_allow K num (ci_ContainerResources inp) demand lr"
proof -
  have ne: "ci_LimitRanges inp \<noteq> []" using assms(3) by auto
  let ?rs = "concat (map (\<lambda>c. concat (map (checkLimitRangeResource K c) (ci_LimitRanges inp))) (ci_ContainerResources inp))
    @ concat (map (checkLimitRangePod K demand) (ci_LimitRanges inp))"
  have all: "\<forall>c\<in>set ?rs. supports c"
    using assms(2) ne by (auto simp: checkLimitRanges_def Let_def split: if_splits)
  have cont: "\<forall>k\<in>set (checkLimitRangeResource K c lr). supports k" if "c \<in> set (ci_ContainerResources inp)" for c
    using all that assms(3) by auto
  have pod: "\<forall>k\<in>set (checkLimitRangePod K demand lr). supports k" using all assms(3) by auto
  show ?thesis
    unfolding limits_allow_def
  proof (intro conjI impI ballI allI; (elim conjE)?)
    fix c req lim d
    assume t: "lr_Type lr = ''Container''" and c: "c \<in> set (ci_ContainerResources inp)"
      and v: "limitRangeResourceValues c (lr_Resource lr) = (req, lim, d)" "d \<noteq> []"
    show "bounds_hold K num (parseQuantityOrZero K req) (parseQuantityOrZero K lim) (trim_space lim \<noteq> []) lr"
      using cont [OF c] t v(2) unfolding checkLimitRangeResource_def v(1) Let_def prod.case
      by (simp only: not_True_eq_False if_False simp_thms no_violations [OF assms(1)])
  next
    assume "lr_Type lr = ''Pod''" "lr_Resource lr = ''cpu''"
    then show "bounds_hold K num (cd_perPodCPU demand) (cd_perPodLimitCPU demand) (num (cd_perPodLimitCPU demand) \<noteq> 0) lr"
      using pod unfolding checkLimitRangePod_def Let_def
      by (simp only: not_True_eq_False if_False if_True simp_thms no_violations [OF assms(1)] quantity_lawsD [OF assms(1)])
  next
    assume t: "lr_Type lr = ''Pod''" "lr_Resource lr = ''memory''"
    then have "lr_Resource lr \<noteq> ''cpu''" by simp
    then show "bounds_hold K num (cd_perPodMemory demand) (cd_perPodLimitMemory demand) (num (cd_perPodLimitMemory demand) \<noteq> 0) lr"
      using pod t unfolding checkLimitRangePod_def Let_def
      by (simp only: not_True_eq_False if_False if_True simp_thms no_violations [OF assms(1)] quantity_lawsD [OF assms(1)])
  qed
qed

lemma nodes_supported:
  assumes "quantity_laws K num" "\<forall>c\<in>set (checkNodeCapacity K node demand n ca). supports c" "0 \<le> n" "n \<le> max_int32"
  shows "\<exists>nc. node = Some nc \<and> nodes_allow K num demand n nc"
proof -
  obtain nc where node: "node = Some nc" using assms(2) by (cases node) (simp_all add: checkNodeCapacity_def)
  obtain hcpu hmem after where h: "nodeHeadroomFor nc = (hcpu, hmem, after)" by (metis prod_cases3)
  note all = assms(2) [unfolded node checkNodeCapacity_def option.case h Let_def prod.case]
  have sched: "\<not> noSchedulableNodes nc" using all by (auto split: if_splits)
  note parts = all [unfolded if_not_P [OF sched] supported_append]
  have known: "nc_PodCapacityKnown nc" using parts by (auto split: if_splits)
  have cpu: "num (cd_totalCPU demand) = 0 \<or> num (cd_totalCPU demand) \<le> num (parseQuantityOrZero K hcpu)"
    using parts by (auto simp: checkNodeResourceHeadroom_def option_list_def quantity_lawsD [OF assms(1)] split: if_splits)
  have mem: "num (cd_totalMemory demand) = 0 \<or> num (cd_totalMemory demand) \<le> num (parseQuantityOrZero K hmem)"
    using parts by (auto simp: checkNodeResourceHeadroom_def option_list_def quantity_lawsD [OF assms(1)] split: if_splits)
  have slots: "n \<le> nc_AvailablePods nc" using parts known by (auto simp: checkNodePodSlots_def split: if_splits)
  have frag: "n \<le> (\<Sum>m\<leftarrow>nc_NodeHeadrooms nc. max 0 (node_fit K (cd_perPodCPU demand) (cd_perPodMemory demand) m))"
    if ne: "nc_NodeHeadrooms nc \<noteq> []"
  proof (cases "n = 0")
    case True
    have "0 \<le> (\<Sum>m\<leftarrow>nc_NodeHeadrooms nc. max 0 (node_fit K (cd_perPodCPU demand) (cd_perPodMemory demand) m))"
      by (rule sum_list_nonneg) auto
    then show ?thesis using True by simp
  next
    case False
    then have "n \<le> fragment_fit K (cd_perPodCPU demand) (cd_perPodMemory demand) n 0 (nc_NodeHeadrooms nc)"
      using parts ne assms(3) by (auto simp: checkNodeFragmentation_def option_list_def Let_def split: if_splits)
    then show ?thesis using fragment_fit_sum [of n K _ _ 0] False assms(3,4) by simp
  qed
  show ?thesis using node sched known cpu mem slots frag by (auto simp: nodes_allow_def h)
qed

lemma pending_supported: "\<forall>c\<in>set (checkPendingPods ps). supports c \<Longrightarrow> p \<in> set ps \<Longrightarrow> \<not> pp_Unschedulable p"
  by (auto simp: checkPendingPods_def Let_def list_ex_iff split: if_splits)

lemma target_raised:
  assumes "\<forall>e\<in>set (snd (resolveTargetMax inp)). capacityObservationDomain e \<in> {ObsPDBs, ObsClusterAutoscaler}"
  shows "ci_MaxReplicas inp < fst (resolveTargetMax inp)"
  using assms by (auto simp: resolveTargetMax_def Let_def capacityObservationDomain_def split: if_splits)

lemma demand_observed: "computeCapacityDemand K (observed_input K inp) n u = computeCapacityDemand K inp n u"
  by (simp add: computeCapacityDemand_def effectivePerPodResources_def effectivePerPodLimits_def observed_input_def case_prod_beta)

lemma additional_range: "0 \<le> computeAdditionalPods t c" "computeAdditionalPods t c \<le> max_int32"
  by (simp_all add: computeAdditionalPods_def Let_def)

lemma plan_fields:
  fixes K :: "('q, 's) k8s_arith"
  assumes "errs = ci_ObservationErrors inp @ validateCapacityQuantityInputs K inp @ unsupportedLimitRangeObservations (ci_LimitRanges inp) (ci_ContainerResources inp)"
    and "n = computeAdditionalPods (fst (resolveTargetMax inp)) (ci_CurrentReplicas inp)"
    and "demand = computeCapacityDemand K inp n (resource_inputs_unknown errs)"
    and "checks = capacity_checks K (observed_input K inp) demand n"
  shows "cp_Safe (AnalyzeCapacityPlan K inp) = fst (buildPlanRecommendation checks (fst (resolveTargetMax inp)) (ci_ClusterAutoscaler inp))"
    "cp_Checks (AnalyzeCapacityPlan K inp) = checks" "cp_AdditionalPods (AnalyzeCapacityPlan K inp) = n"
    "cp_TargetMaxReplicas (AnalyzeCapacityPlan K inp) = fst (resolveTargetMax inp)"
proof -
  have f: "ci_CurrentReplicas (observed_input K inp) = ci_CurrentReplicas inp" "ci_ClusterAutoscaler (observed_input K inp) = ci_ClusterAutoscaler inp"
    by (simp_all add: observed_input_def)
  note d = assms(4) [unfolded assms(3,2,1)]
  show "cp_Safe (AnalyzeCapacityPlan K inp) = fst (buildPlanRecommendation checks (fst (resolveTargetMax inp)) (ci_ClusterAutoscaler inp))"
    "cp_Checks (AnalyzeCapacityPlan K inp) = checks" "cp_AdditionalPods (AnalyzeCapacityPlan K inp) = n"
    "cp_TargetMaxReplicas (AnalyzeCapacityPlan K inp) = fst (resolveTargetMax inp)"
    by (simp_all add: AnalyzeCapacityPlan_def Let_def f demand_observed d assms(2) split: prod.splits)
qed

lemma safe_plan_facts:
  assumes "quantity_laws K num" and "plan = AnalyzeCapacityPlan K inp" and "cp_Safe plan"
    and "demand = computeCapacityDemand K inp (cp_AdditionalPods plan) False"
  shows "ci_MaxReplicas inp < cp_TargetMaxReplicas plan
    \<and> (\<forall>e\<in>set (ci_ObservationErrors (observed_input K inp)). capacityObservationDomain e \<in> {ObsPDBs, ObsClusterAutoscaler})
    \<and> (\<forall>q\<in>set (ci_Quotas inp). quota_allows K num demand (cp_AdditionalPods plan) q)
    \<and> (\<forall>lr\<in>set (ci_LimitRanges inp). limits_allow K num (ci_ContainerResources inp) demand lr)
    \<and> (\<exists>nc. ci_NodeCapacity inp = Some nc \<and> nodes_allow K num demand (cp_AdditionalPods plan) nc)
    \<and> (\<forall>p\<in>set (ci_PendingPods inp). \<not> pp_Unschedulable p)"
proof -
  let ?errs = "ci_ObservationErrors inp @ validateCapacityQuantityInputs K inp @ unsupportedLimitRangeObservations (ci_LimitRanges inp) (ci_ContainerResources inp)"
  let ?n = "computeAdditionalPods (fst (resolveTargetMax inp)) (ci_CurrentReplicas inp)"
  let ?d = "computeCapacityDemand K inp ?n (resource_inputs_unknown ?errs)"
  let ?in = "observed_input K inp"
  let ?es = "ci_ObservationErrors ?in"
  note pf = plan_fields [OF refl refl refl refl, where inp = inp and K = K]
  have same: "ci_Quotas ?in = ci_Quotas inp" "ci_LimitRanges ?in = ci_LimitRanges inp" "ci_NodeCapacity ?in = ci_NodeCapacity inp"
    "ci_PendingPods ?in = ci_PendingPods inp" "ci_ContainerResources ?in = ci_ContainerResources inp" "?es = ?errs @ snd (resolveTargetMax inp)"
    by (simp_all add: observed_input_def)
  have "\<forall>c\<in>set (capacity_checks K ?in ?d ?n). supports c"
    using assms(3) unfolding assms(2) pf safe_iff_supported .
  note all = this [unfolded capacity_checks_def Let_def supported_append]
  have dom: "\<forall>e\<in>set ?es. capacityObservationDomain e \<in> {ObsPDBs, ObsClusterAutoscaler}"
    using conjunct1 [OF all] by (simp add: checkObservationErrors_def)
  have has: "\<not> hasObservationDomain ?es x" if "x \<notin> {ObsPDBs, ObsClusterAutoscaler}" for x
    using dom that by (auto simp: hasObservationDomain_def list_ex_iff)
  have unk: "\<not> resource_inputs_unknown ?es" using has by (simp add: resource_inputs_unknown_def)
  have "\<not> resource_inputs_unknown ?errs" using unk by (simp add: same(6) resource_inputs_unknown_def hasObservationDomain_def)
  then have d: "demand = ?d" by (simp add: assms(2,4) pf)
  have groups: "\<forall>c\<in>set (checkQuotaHeadroom K ?in ?d ?n). supports c" "\<forall>c\<in>set (checkLimitRanges K ?in ?d). supports c"
    "\<forall>c\<in>set (checkNodeCapacity K (ci_NodeCapacity ?in) ?d ?n (ci_ClusterAutoscaler ?in)). supports c" "\<forall>c\<in>set (checkPendingPods (ci_PendingPods ?in)). supports c"
    using all unk has by simp_all
  have "ci_MaxReplicas inp < fst (resolveTargetMax inp)" using dom by (intro target_raised) (simp add: same(6))
  moreover have "\<forall>q\<in>set (ci_Quotas inp). quota_allows K num ?d ?n q" using quotas_supported [OF assms(1) groups(1)] same by simp
  moreover have "\<forall>lr\<in>set (ci_LimitRanges inp). limits_allow K num (ci_ContainerResources inp) ?d lr"
    using limits_supported [OF assms(1) groups(2)] same by simp
  moreover have "\<exists>nc. ci_NodeCapacity inp = Some nc \<and> nodes_allow K num ?d ?n nc"
    using nodes_supported [OF assms(1) groups(3) additional_range] same by simp
  moreover have "\<forall>p\<in>set (ci_PendingPods inp). \<not> pp_Unschedulable p" using pending_supported [OF groups(4)] same by simp
  ultimately show ?thesis using dom unfolding assms(2) pf d by blast
qed

text \<open>C5. A plan that calls itself safe raises the maximum, was drawn from complete observations (only those of disruption
  budgets and of the autoscaler may be missing), and is covered: every quota has room for the demand of the additional pods, every
  limit range is kept, the nodes have the headroom, the pod slots and the per-node fit for them, and no pod is stuck already.\<close>

theorem safe_plan_sound:
  assumes "quantity_laws K num" and "plan = AnalyzeCapacityPlan K inp" and "cp_Safe plan"
    and "demand = computeCapacityDemand K inp (cp_AdditionalPods plan) False"
  shows "ci_MaxReplicas inp < cp_TargetMaxReplicas plan
    \<and> (\<forall>e\<in>set (ci_ObservationErrors (observed_input K inp)). capacityObservationDomain e \<in> {ObsPDBs, ObsClusterAutoscaler})
    \<and> (\<forall>q\<in>set (ci_Quotas inp). quota_allows K num demand (cp_AdditionalPods plan) q)
    \<and> (\<forall>lr\<in>set (ci_LimitRanges inp). limits_allow K num (ci_ContainerResources inp) demand lr)
    \<and> (\<exists>nc. ci_NodeCapacity inp = Some nc \<and> nodes_allow K num demand (cp_AdditionalPods plan) nc)
    \<and> (\<forall>p\<in>set (ci_PendingPods inp). \<not> pp_Unschedulable p)"
  by (rule safe_plan_facts [OF assms])

text \<open>The proposed maximum is an int32 above the current one unless that is the largest int32, and stays within 200
  for an HPA below 200.\<close>

lemma target_bounds:
  assumes "in32 currentMax" "in32 desired" "1 \<le> currentMax" and "t = computeTargetMax currentMax desired"
  shows "in32 t \<and> (currentMax < max_int32 \<longrightarrow> currentMax < t) \<and> (currentMax < 200 \<longrightarrow> t \<le> 200)
    \<and> (currentMax = max_int32 \<longrightarrow> t = currentMax)"
proof -
  have r: "1 \<le> currentMax" "currentMax \<le> max_int32" "desired \<le> max_int32" using assms by (auto simp: in32_def)
  have "in32 x" if "1 \<le> x" "x \<le> max_int32" for x using that by (simp add: in32_def)
  then show ?thesis using r unfolding assms(4) computeTargetMax_def Let_def maxReplicasCap_def
    by (auto simp: in32_def)
qed

subsection \<open>Samples\<close>

definition cap_sample :: cap_input where
  "cap_sample = \<lparr>ci_Namespace = ''ns'', ci_HPAName = ''web'', ci_Target = ''Deployment/web'', ci_CurrentReplicas = 2, ci_MaxReplicas = 2,
     ci_TargetMaxReplicas = 4, ci_ContainerResources = [\<lparr>cn_Name = ''a'', cn_CPU = ''1'', cn_Memory = ''2'', cn_LimitCPU = [], cn_LimitMemory = []\<rparr>],
     ci_PodRequestCPU = [], ci_PodRequestMemory = [], ci_PodLimitCPU = [], ci_PodLimitMemory = [], ci_PodLevelRequestCPU = [],
     ci_PodLevelRequestMemory = [], ci_PodLevelLimitCPU = [], ci_PodLevelLimitMemory = [],
     ci_Quotas = [\<lparr>cq_Name = ''q'', cq_Resource = ''cpu'', cq_Used = ''2'', cq_Hard = ''4'', cq_UsageObserved = None, cq_HardObserved = None,
       cq_Scoped = False\<rparr>],
     ci_LimitRanges = [],
     ci_NodeCapacity = Some \<lparr>nc_TotalNodes = 1, nc_SchedulableNodes = 1, nc_SchedulableNodesKnown = True, nc_AllocCPU = ''8'',
       nc_AllocMemory = ''8'', nc_RequestedCPU = ''2'', nc_RequestedMemory = ''4'', nc_AvailableCPU = ''6'', nc_AvailableMemory = ''4'',
       nc_PodCapacityKnown = True, nc_AllocPods = 7, nc_RequestedPods = 2, nc_AvailablePods = 5, nc_TaintedNodes = 0,
       nc_NodeHeadrooms = [\<lparr>nh_Name = ''n'', nh_AvailableCPU = ''6'', nh_AvailableMemory = ''4'', nh_PodCapacityKnown = True, nh_AvailablePods = 5\<rparr>], nc_Hints = []\<rparr>,
     ci_PendingPods = [], ci_PDBs = [], ci_ClusterAutoscaler = False, ci_ReadyPods = 2, ci_ObservationErrors = []\<rparr>"

lemma cap_sample_safe: "cp_Safe (AnalyzeCapacityPlan int_arith cap_sample)"
  by code_simp

lemma safe_iff_supported_sample:
  "fst (buildPlanRecommendation [newCheck ''node-pods'' CheckPass [], unknown_check ''observation'' ObsPDBs []] 4 False)
   \<and> \<not> fst (buildPlanRecommendation [unknown_check ''observation'' ObsNodeCapacity []] 4 True)"
  by (simp add: safe_iff_supported)

lemma target_bounds_sample: "computeTargetMax 150 120 \<le> 200 \<and> 150 < computeTargetMax 150 120"
  using target_bounds [of 150 120 "computeTargetMax 150 120"] by (simp add: in32_def)

theorem safe_plan_sound_witness:
  "\<exists>nc. ci_NodeCapacity cap_sample = Some nc \<and> nodes_allow int_arith of_int
     (computeCapacityDemand int_arith cap_sample (cp_AdditionalPods (AnalyzeCapacityPlan int_arith cap_sample)) False)
     (cp_AdditionalPods (AnalyzeCapacityPlan int_arith cap_sample)) nc"
  using safe_plan_sound [OF int_arith_laws refl cap_sample_safe refl] by blast

end
