(* ===== verification/NodeHeadroom.thy ===== *)
theory NodeHeadroom
  imports PodResources CapacityPlan
begin

section \<open>Free room on the nodes\<close>

text \<open>
  \<open>internal/kube/nodes.go\<close>, \<open>headroom.go\<close> and the collection of \<open>cmd/capacity_plan.go\<close>: which nodes are eligible
  for a pod, how much of them the pods bound to them leave free, and how the cluster is handed to the
  capacity plan. The listings of nodes and pods are arguments, as the pages the API server returned
  and the error that ended them; \<open>tolerates\<close> is \<open>Toleration.ToleratesTaint\<close> of the Kubernetes library.
  A map with a pointer value is the list of its entries; the lookup of a missing entry, which would
  panic, is \<open>None\<close>.
\<close>

record taint =
  tn_Key :: string
  tn_Value :: string
  tn_Effect :: string

record 'q node =
  nd_Name :: string
  nd_Labels :: "(string \<times> string) list"
  nd_Unschedulable :: bool
  nd_Taints :: "taint list"
  nd_Conditions :: "(string \<times> string) list"     \<comment> \<open>type and status\<close>
  nd_Allocatable :: "'q resource_list"

record pod_condition =
  pcd_Type :: string
  pcd_Status :: string
  pcd_Reason :: string
  pcd_Message :: string

record ('q, 't) pod =
  pod_Name :: string
  pod_Spec :: "('q, 't) pod_spec"
  pod_Phase :: string
  pod_Conditions :: "pod_condition list"

subsection \<open>Eligible nodes\<close>

fun ready_loop :: "(string \<times> string) list \<Rightarrow> bool" where
  "ready_loop [] = False"
| "ready_loop ((typ, status) # cs) = (if typ = ''Ready'' then status = ''True'' else ready_loop cs)"

definition nodeReady :: "'q node option \<Rightarrow> bool" where
  "nodeReady n = (case n of None \<Rightarrow> False | Some n \<Rightarrow> ready_loop (nd_Conditions n))"

definition blocks :: "taint \<Rightarrow> bool" where
  "blocks t \<longleftrightarrow> tn_Effect t = ''NoSchedule'' \<or> tn_Effect t = ''NoExecute''"

definition hasBlockingTaint :: "taint list \<Rightarrow> bool" where
  "hasBlockingTaint taints = list_ex blocks taints"

definition nodeEligibleForPod :: "('t \<Rightarrow> taint \<Rightarrow> bool) \<Rightarrow> 'q node \<Rightarrow> ('q, 't) pod_spec option \<Rightarrow> bool" where
  "nodeEligibleForPod tolerates n podSpec =
     (if \<not> nodeReady (Some n) \<or> nd_Unschedulable n then False
      else (case podSpec of None \<Rightarrow> True | Some spec \<Rightarrow>
              (ps_NodeName spec = [] \<or> ps_NodeName spec = nd_Name n)
              \<and> list_all (\<lambda>(key, v). map_of (nd_Labels n) key = Some v) (ps_NodeSelector spec))
        \<and> list_all (\<lambda>t. \<not> blocks t \<or> (case podSpec of None \<Rightarrow> False
              | Some spec \<Rightarrow> list_ex (\<lambda>tol. tolerates tol t) (ps_Tolerations spec))) (nd_Taints n))"

record 'q node_capacity_info =
  ni_TotalNodes :: int
  ni_SchedulableNodes :: int
  ni_AllocCPU :: 'q
  ni_AllocMemory :: 'q
  ni_AllocPods :: int
  ni_PodCapacityKnown :: bool
  ni_TaintedNodes :: int
  ni_NotReadyNodes :: int
  ni_UnschedulableNodes :: int

definition add_alloc :: "('q, 's) k8s_arith \<Rightarrow> 'q resource_list \<Rightarrow> string \<Rightarrow> 'q \<Rightarrow> 'q" where
  "add_alloc K rl name acc = (case map_of rl name of None \<Rightarrow> acc | Some q \<Rightarrow> q_add K acc q)"

definition summarize_step :: "('q, 's) k8s_arith \<Rightarrow> ('t \<Rightarrow> taint \<Rightarrow> bool) \<Rightarrow> ('q, 't) pod_spec option \<Rightarrow> 'q node_capacity_info
    \<Rightarrow> 'q node \<Rightarrow> 'q node_capacity_info" where
  "summarize_step K tolerates podSpec info0 n =
     (let inc = (\<lambda>b x. if b then wrap32 (x + 1) else x);
          info = info0\<lparr>ni_NotReadyNodes := inc (\<not> nodeReady (Some n)) (ni_NotReadyNodes info0),
            ni_UnschedulableNodes := inc (nd_Unschedulable n) (ni_UnschedulableNodes info0),
            ni_TaintedNodes := inc (hasBlockingTaint (nd_Taints n)) (ni_TaintedNodes info0)\<rparr>
      in if \<not> nodeEligibleForPod tolerates n podSpec then info
         else let info1 = info\<lparr>ni_SchedulableNodes := wrap32 (ni_SchedulableNodes info + 1),
                    ni_AllocCPU := add_alloc K (nd_Allocatable n) ''cpu'' (ni_AllocCPU info),
                    ni_AllocMemory := add_alloc K (nd_Allocatable n) ''memory'' (ni_AllocMemory info)\<rparr>
              in case map_of (nd_Allocatable n) ''pods'' of
                   Some pods \<Rightarrow> info1\<lparr>ni_AllocPods := wrap64 (ni_AllocPods info1 + q_value K pods)\<rparr>
                 | None \<Rightarrow> info1\<lparr>ni_PodCapacityKnown := False\<rparr>)"

definition summarizeNodeCapacityForPod :: "('q, 's) k8s_arith \<Rightarrow> ('t \<Rightarrow> taint \<Rightarrow> bool) \<Rightarrow> 'q node list \<Rightarrow> ('q, 't) pod_spec option
    \<Rightarrow> 'q node_capacity_info" where
  "summarizeNodeCapacityForPod K tolerates nodes podSpec =
     (let info = foldl (summarize_step K tolerates podSpec)
            \<lparr>ni_TotalNodes = wrap32 (int (length nodes)), ni_SchedulableNodes = 0, ni_AllocCPU = q_zero K, ni_AllocMemory = q_zero K,
             ni_AllocPods = 0, ni_PodCapacityKnown = False, ni_TaintedNodes = 0, ni_NotReadyNodes = 0, ni_UnschedulableNodes = 0\<rparr> nodes
      in if ni_SchedulableNodes info > 0
         then info\<lparr>ni_PodCapacityKnown := list_all (\<lambda>n. \<not> nodeEligibleForPod tolerates n podSpec
                \<or> map_of (nd_Allocatable n) ''pods'' \<noteq> None) nodes\<rparr>
         else info)"

subsection \<open>The snapshot of the cluster\<close>

record 'q node_usage =
  us_cpu :: 'q
  us_memory :: 'q
  us_pods :: int

record 'q cluster_snapshot =
  cs_nodes :: "'q node list"
  cs_nodeErr :: "go_error option"
  cs_usage :: "(string \<times> 'q node_usage) list"

definition usage_step :: "('q, 's) k8s_arith \<Rightarrow> (string \<times> 'q node_usage) list \<Rightarrow> ('q, 't) pod \<Rightarrow> (string \<times> 'q node_usage) list" where
  "usage_step K usages p = (case map_of usages (ps_NodeName (pod_Spec p)) of
       None \<Rightarrow> usages
     | Some u \<Rightarrow>
         if pod_Phase p = ''Succeeded'' \<or> pod_Phase p = ''Failed'' then usages
         else let requests = EffectivePodRequests K (pod_Spec p)
              in AList.update (ps_NodeName (pod_Spec p))
                   (u\<lparr>us_cpu := add_alloc K requests ''cpu'' (us_cpu u), us_memory := add_alloc K requests ''memory'' (us_memory u),
                      us_pods := wrap64 (us_pods u + 1)\<rparr>) usages)"

definition fresh_usage :: "('q, 's) k8s_arith \<Rightarrow> 'q node_usage" where
  "fresh_usage K = \<lparr>us_cpu = q_zero K, us_memory = q_zero K, us_pods = 0\<rparr>"

definition FetchClusterResourceSnapshot :: "('q, 's) k8s_arith \<Rightarrow> 'q node list \<times> go_error option \<Rightarrow> ('q, 't) pod list list \<times> go_error option
    \<Rightarrow> 'q cluster_snapshot \<times> go_error option" where
  "FetchClusterResourceSnapshot K nodeList podPages = (case nodeList of
       (_, Some err) \<Rightarrow> (\<lparr>cs_nodes = [], cs_nodeErr = Some err, cs_usage = []\<rparr>, Some (wrap_err ''failed to list nodes: '' err))
     | (nodes, None) \<Rightarrow>
         let usages = foldl (\<lambda>m n. AList.update (nd_Name n) (fresh_usage K) m) [] nodes;
             snapshot = \<lparr>cs_nodes = nodes, cs_nodeErr = None, cs_usage = foldl (foldl (usage_step K)) usages (fst podPages)\<rparr>
         in (case snd podPages of None \<Rightarrow> (snapshot, None) | Some err \<Rightarrow> (snapshot, Some (wrap_err ''failed to list scheduled pods: '' err))))"

subsection \<open>Headroom\<close>

record 'q node_resource_headroom =
  nr_Name :: string
  nr_AvailableCPU :: 'q
  nr_AvailableMemory :: 'q
  nr_AvailablePods :: int
  nr_PodCapacityKnown :: bool

record 'q cluster_headroom =
  ch_NodeCapacity :: "'q node_capacity_info"
  ch_RequestedCPU :: 'q
  ch_RequestedMemory :: 'q
  ch_AvailableCPU :: 'q
  ch_AvailableMemory :: 'q
  ch_RequestedPods :: int
  ch_AvailablePods :: int
  ch_PodCapacityKnown :: bool
  ch_NodeHeadrooms :: "'q node_resource_headroom list"

definition alloc_or_zero :: "('q, 's) k8s_arith \<Rightarrow> 'q resource_list \<Rightarrow> string \<Rightarrow> 'q" where
  "alloc_or_zero K rl name = (case map_of rl name of None \<Rightarrow> q_zero K | Some q \<Rightarrow> q)"

definition headroom_of :: "('q, 's) k8s_arith \<Rightarrow> 'q node \<Rightarrow> 'q node_usage \<Rightarrow> 'q node_resource_headroom" where
  "headroom_of K n u =
     (let pods = map_of (nd_Allocatable n) ''pods''
      in \<lparr>nr_Name = nd_Name n, nr_AvailableCPU = q_sub K (alloc_or_zero K (nd_Allocatable n) ''cpu'') (us_cpu u),
          nr_AvailableMemory = q_sub K (alloc_or_zero K (nd_Allocatable n) ''memory'') (us_memory u),
          nr_AvailablePods = (case pods of None \<Rightarrow> 0 | Some q \<Rightarrow> wrap64 (q_value K q - us_pods u)), nr_PodCapacityKnown = (pods \<noteq> None)\<rparr>)"

text \<open>
  The second loop looks the node up again by its name in the map \<open>eligible\<close>, which holds the last
  eligible node of each name.
\<close>

definition HeadroomForPod :: "('q, 's) k8s_arith \<Rightarrow> ('t \<Rightarrow> taint \<Rightarrow> bool) \<Rightarrow> 'q cluster_snapshot \<Rightarrow> ('q, 't) pod_spec option
    \<Rightarrow> 'q cluster_headroom option" where
  "HeadroomForPod K tolerates s podSpec =
     (let fit = filter (\<lambda>n. nodeEligibleForPod tolerates n podSpec) (cs_nodes s);
          eligible = foldl (\<lambda>m n. AList.update (nd_Name n) n m) [] fit;
          entries = List.map_filter (\<lambda>n. map_of eligible (nd_Name n)) (cs_nodes s)
      in if list_ex (\<lambda>n. map_of (cs_usage s) (nd_Name n) = None) fit then None
         else let usage = (\<lambda>n. the (map_of (cs_usage s) (nd_Name n)));
                  rooms = map (\<lambda>n. headroom_of K n (usage n)) entries
              in Some \<lparr>ch_NodeCapacity = summarizeNodeCapacityForPod K tolerates (cs_nodes s) podSpec,
                   ch_RequestedCPU = foldl (\<lambda>q n. q_add K q (us_cpu (usage n))) (q_zero K) fit,
                   ch_RequestedMemory = foldl (\<lambda>q n. q_add K q (us_memory (usage n))) (q_zero K) fit,
                   ch_AvailableCPU = foldl (\<lambda>q r. q_add K q (nr_AvailableCPU r)) (q_zero K) rooms,
                   ch_AvailableMemory = foldl (\<lambda>q r. q_add K q (nr_AvailableMemory r)) (q_zero K) rooms,
                   ch_RequestedPods = foldl (\<lambda>k n. wrap64 (k + us_pods (usage n))) 0 entries,
                   ch_AvailablePods = foldl (\<lambda>k r. wrap64 (k + nr_AvailablePods r)) 0 rooms,
                   ch_PodCapacityKnown = ni_PodCapacityKnown (summarizeNodeCapacityForPod K tolerates (cs_nodes s) podSpec),
                   ch_NodeHeadrooms = rooms\<rparr>)"

subsection \<open>Constraints that are not evaluated\<close>

definition hasHardAffinity :: "affinity option \<Rightarrow> bool" where
  "hasHardAffinity a = (case a of None \<Rightarrow> False | Some a \<Rightarrow>
     (case af_Node a of Some (Some _) \<Rightarrow> True | _ \<Rightarrow> False)
     \<or> (case af_Pod a of Some (_ # _) \<Rightarrow> True | _ \<Rightarrow> False)
     \<or> (case af_PodAnti a of Some (_ # _) \<Rightarrow> True | _ \<Rightarrow> False))"

definition podUsesPersistentVolumeClaim :: "volume list \<Rightarrow> bool" where
  "podUsesPersistentVolumeClaim vs = list_ex (\<lambda>v. vo_PersistentVolumeClaim v \<noteq> None \<or> vo_Ephemeral v \<noteq> None \<or> vo_CSI v \<noteq> None) vs"

definition podUsesHostPorts :: "('q, 't) pod_spec \<Rightarrow> bool" where
  "podUsesHostPorts spec =
     list_ex (\<lambda>c. list_ex (\<lambda>p. cpt_HostPort p \<noteq> 0 \<or> (ps_HostNetwork spec \<and> cpt_ContainerPort p \<noteq> 0)) (pc_Ports c))
       (ps_Containers spec @ ps_InitContainers spec)"

definition has_unmodeled :: "('q, 's) k8s_arith \<Rightarrow> 'q resource_list \<Rightarrow> bool" where
  "has_unmodeled K rl = list_ex (\<lambda>(name, q). \<not> q_isZero K q \<and> name \<noteq> ''cpu'' \<and> name \<noteq> ''memory'') rl"

definition podRequestsUnmodeledResources :: "('q, 's) k8s_arith \<Rightarrow> ('q, 't) pod_spec \<Rightarrow> bool" where
  "podRequestsUnmodeledResources K spec =
     (list_ex (\<lambda>c. has_unmodeled K (pc_Requests c)) (ps_Containers spec @ ps_InitContainers spec)
      \<or> (case ps_Resources spec of None \<Rightarrow> False | Some pl \<Rightarrow> has_unmodeled K (pl_Requests pl))
      \<or> has_unmodeled K (ps_Overhead spec))"

definition UnmodeledPodSchedulingConstraints :: "('q, 's) k8s_arith \<Rightarrow> ('q, 't) pod_spec option \<Rightarrow> string list" where
  "UnmodeledPodSchedulingConstraints K podSpec = (case podSpec of None \<Rightarrow> [] | Some source \<Rightarrow>
     let spec = materializePodSpec K source; note = (\<lambda>b t. if b then [t] else [])
     in note (ps_NodeName spec \<noteq> []) ''fixed nodeName''
      @ note (hasHardAffinity (ps_Affinity spec)) ''required affinity/anti-affinity''
      @ note (list_ex (\<lambda>w. w = ''DoNotSchedule'') (ps_TopologySpread spec)) ''hard topology spread''
      @ note (ps_SchedulerName spec \<noteq> [] \<and> ps_SchedulerName spec \<noteq> ''default-scheduler'') ''custom scheduler''
      @ note (case ps_RuntimeClassName spec of None \<Rightarrow> False | Some r \<Rightarrow> r \<noteq> []) ''RuntimeClass scheduling''
      @ note (ps_SchedulingGates spec \<noteq> []) ''scheduling gates''
      @ note (ps_ResourceClaims spec \<noteq> []) ''dynamic resource claims''
      @ note (ps_OS spec \<noteq> None) ''Pod OS''
      @ note (podUsesPersistentVolumeClaim (ps_Volumes spec)) ''persistent-volume node affinity''
      @ note (podUsesHostPorts spec) ''host ports''
      @ note (podRequestsUnmodeledResources K spec) ''non-CPU/memory resources'')"

subsection \<open>The books of the snapshot\<close>

definition bound_pods :: "('q, 't) pod list \<Rightarrow> string \<Rightarrow> ('q, 't) pod list" where
  "bound_pods pods name = filter (\<lambda>p. ps_NodeName (pod_Spec p) = name \<and> pod_Phase p \<noteq> ''Succeeded'' \<and> pod_Phase p \<noteq> ''Failed'') pods"

definition requested :: "('q, 's) k8s_arith \<Rightarrow> ('q \<Rightarrow> rat) \<Rightarrow> ('q, 't) pod list \<Rightarrow> string \<Rightarrow> rat" where
  "requested K num pods res = (\<Sum>p\<leftarrow>pods. amount num (EffectivePodRequests K (pod_Spec p)) res)"

lemma num_add_alloc: "quantity_laws K num \<Longrightarrow> num (add_alloc K rl name acc) = num acc + amount num rl name"
  by (simp add: add_alloc_def amount_def quantity_lawsD split: option.splits)

lemma num_alloc_or_zero: "quantity_laws K num \<Longrightarrow> num (alloc_or_zero K rl name) = amount num rl name"
  by (simp add: alloc_or_zero_def amount_def quantity_lawsD split: option.splits)

lemma foldl_foldl: "foldl (foldl f) a xss = foldl f a (concat xss)"
  by (induction xss arbitrary: a) simp_all

lemma usage_fold:
  assumes "quantity_laws K num"
  shows "map_of usages name = Some u \<Longrightarrow> 0 \<le> us_pods u \<Longrightarrow> us_pods u + int (length pods) \<le> max_int64 \<Longrightarrow>
    \<exists>u'. map_of (foldl (usage_step K) usages pods) name = Some u'
      \<and> num (us_cpu u') = num (us_cpu u) + requested K num (bound_pods pods name) ''cpu''
      \<and> num (us_memory u') = num (us_memory u) + requested K num (bound_pods pods name) ''memory''
      \<and> us_pods u' = us_pods u + int (length (bound_pods pods name))"
proof (induction pods arbitrary: usages u)
  case (Cons p pods)
  let ?b = "ps_NodeName (pod_Spec p) = name \<and> pod_Phase p \<noteq> ''Succeeded'' \<and> pod_Phase p \<noteq> ''Failed''"
  let ?rs = "EffectivePodRequests K (pod_Spec p)"
  let ?u1 = "if ?b then u\<lparr>us_cpu := add_alloc K ?rs ''cpu'' (us_cpu u), us_memory := add_alloc K ?rs ''memory'' (us_memory u),
      us_pods := wrap64 (us_pods u + 1)\<rparr> else u"
  have "map_of (usage_step K usages p) name = Some ?u1"
    using Cons.prems(1) by (auto simp: usage_step_def Let_def update_conv' split: option.splits)
  moreover have w: "us_pods ?u1 = us_pods u + (if ?b then 1 else 0)" using Cons.prems(2,3) by (simp add: in64_def)
  ultimately obtain u' where "map_of (foldl (usage_step K) (usage_step K usages p) pods) name = Some u'"
    "num (us_cpu u') = num (us_cpu ?u1) + requested K num (bound_pods pods name) ''cpu''"
    "num (us_memory u') = num (us_memory ?u1) + requested K num (bound_pods pods name) ''memory''"
    "us_pods u' = us_pods ?u1 + int (length (bound_pods pods name))"
    using Cons.IH [of "usage_step K usages p" ?u1] Cons.prems(2,3) by (auto split: if_splits)
  then show ?case using w by (auto simp: bound_pods_def requested_def num_add_alloc [OF assms] split: if_splits)
qed (simp add: bound_pods_def requested_def)

lemma fresh_usages:
  "n \<in> set nodes \<or> map_of m (nd_Name n) = Some (fresh_usage K) \<Longrightarrow>
    map_of (foldl (\<lambda>m n. AList.update (nd_Name n) (fresh_usage K) m) m nodes) (nd_Name n) = Some (fresh_usage K)"
proof (induction nodes arbitrary: m)
  case (Cons a nodes)
  have "n \<in> set nodes \<or> map_of (AList.update (nd_Name a) (fresh_usage K) m) (nd_Name n) = Some (fresh_usage K)"
    using Cons.prems by (auto simp: update_conv')
  then show ?case using Cons.IH by simp
qed simp

lemma snapshot_usage:
  assumes "quantity_laws K num" "FetchClusterResourceSnapshot K (nodes, None) (pages, None) = (s, err)"
    and "n \<in> set nodes" "int (length (concat pages)) \<le> max_int64" "b = bound_pods (concat pages) (nd_Name n)"
  shows "cs_nodes s = nodes \<and> (\<exists>u. map_of (cs_usage s) (nd_Name n) = Some u \<and> num (us_cpu u) = requested K num b ''cpu''
    \<and> num (us_memory u) = requested K num b ''memory'' \<and> us_pods u = int (length b))"
proof -
  let ?u0 = "foldl (\<lambda>m n. AList.update (nd_Name n) (fresh_usage K) m) [] nodes"
  have s: "s = \<lparr>cs_nodes = nodes, cs_nodeErr = None, cs_usage = foldl (usage_step K) ?u0 (concat pages)\<rparr>"
    using assms(2) by (auto simp: FetchClusterResourceSnapshot_def Let_def foldl_foldl)
  have "map_of ?u0 (nd_Name n) = Some (fresh_usage K)" by (rule fresh_usages) (simp add: assms(3))
  from usage_fold [OF assms(1) this, of "concat pages"] assms(4) show ?thesis
    by (auto simp: s fresh_usage_def quantity_lawsD [OF assms(1)] assms(5))
qed

lemma map_filter_some: "(\<And>n. n \<in> set ns \<Longrightarrow> f n = (if P n then Some n else None)) \<Longrightarrow> List.map_filter f ns = filter P ns"
  by (induction ns) (simp_all add: map_filter_simps)

lemma eligible_entries:
  assumes "distinct (map nd_Name nodes)"
  shows "List.map_filter (\<lambda>n. map_of (foldl (\<lambda>m n. AList.update (nd_Name n) n m) [] (filter P nodes)) (nd_Name n)) nodes = filter P nodes"
proof -
  have look: "distinct (map nd_Name ns) \<Longrightarrow> map_of (foldl (\<lambda>m n. AList.update (nd_Name n) n m) m ns) k
      = (case find (\<lambda>n. nd_Name n = k) ns of None \<Rightarrow> map_of m k | Some n \<Rightarrow> Some n)" for ns m k
  proof (induction ns arbitrary: m)
    case (Cons a ns)
    have "find (\<lambda>n. nd_Name n = nd_Name a) ns = None" using Cons.prems by (auto simp: find_None_iff image_iff)
    then show ?case using Cons by (auto simp: update_conv' split: option.splits)
  qed simp
  have d: "distinct (map nd_Name (filter P nodes))" using assms by (rule distinct_map_filter)
  have "map_of (foldl (\<lambda>m n. AList.update (nd_Name n) n m) [] (filter P nodes)) (nd_Name n) = (if P n then Some n else None)"
    if n: "n \<in> set nodes" for n
  proof -
    have inj: "m = n" if "m \<in> set nodes" "nd_Name m = nd_Name n" for m
      using assms that n by (simp add: distinct_map inj_on_def)
    have "find (\<lambda>m. nd_Name m = nd_Name n) (filter P nodes) = (if P n then Some n else None)"
    proof (cases "find (\<lambda>m. nd_Name m = nd_Name n) (filter P nodes)")
      case None
      then show ?thesis using n by (auto simp: find_None_iff)
    next
      case (Some m)
      then obtain i where i: "i < length (filter P nodes)" "nd_Name m = nd_Name n" "m = filter P nodes ! i" by (auto simp: find_Some_iff)
      then have "m \<in> set (filter P nodes)" by (metis nth_mem)
      then show ?thesis using Some inj [of m] i(2) by auto
    qed
    then show ?thesis by (simp add: look [OF d])
  qed
  then show ?thesis by (rule map_filter_some)
qed

lemma num_foldl: "quantity_laws K num \<Longrightarrow> num (foldl (\<lambda>q x. q_add K q (f x)) z xs) = num z + (\<Sum>x\<leftarrow>xs. num (f x))"
  by (induction xs arbitrary: z) (simp_all add: quantity_lawsD)

definition eligible_nodes :: "('t \<Rightarrow> taint \<Rightarrow> bool) \<Rightarrow> 'q node list \<Rightarrow> ('q, 't) pod_spec option \<Rightarrow> 'q node list" where
  "eligible_nodes tolerates nodes podSpec = filter (\<lambda>n. nodeEligibleForPod tolerates n podSpec) nodes"

lemma summary_alloc:
  assumes "quantity_laws K num"
  shows "num (ni_AllocCPU (foldl (summarize_step K tolerates podSpec) info nodes))
      = num (ni_AllocCPU info) + (\<Sum>n\<leftarrow>eligible_nodes tolerates nodes podSpec. amount num (nd_Allocatable n) ''cpu'')
    \<and> num (ni_AllocMemory (foldl (summarize_step K tolerates podSpec) info nodes))
      = num (ni_AllocMemory info) + (\<Sum>n\<leftarrow>eligible_nodes tolerates nodes podSpec. amount num (nd_Allocatable n) ''memory'')"
proof (induction nodes arbitrary: info)
  case (Cons n nodes)
  let ?i = "summarize_step K tolerates podSpec info n"
  have "num (ni_AllocCPU ?i) = num (ni_AllocCPU info) + (if nodeEligibleForPod tolerates n podSpec then amount num (nd_Allocatable n) ''cpu'' else 0)"
    "num (ni_AllocMemory ?i) = num (ni_AllocMemory info) + (if nodeEligibleForPod tolerates n podSpec then amount num (nd_Allocatable n) ''memory'' else 0)"
    by (simp_all add: summarize_step_def Let_def num_add_alloc [OF assms] split: option.splits)
  then show ?case using Cons.IH [of ?i] by (simp add: eligible_nodes_def)
qed (simp add: eligible_nodes_def)

lemma summary_schedulable:
  "0 \<le> ni_SchedulableNodes info \<Longrightarrow> ni_SchedulableNodes info + int (length nodes) \<le> max_int32 \<Longrightarrow>
    ni_SchedulableNodes (foldl (summarize_step K tolerates podSpec) info nodes)
      = ni_SchedulableNodes info + int (length (eligible_nodes tolerates nodes podSpec))"
proof (induction nodes arbitrary: info)
  case (Cons n nodes)
  let ?i = "summarize_step K tolerates podSpec info n"
  have "ni_SchedulableNodes ?i = ni_SchedulableNodes info + (if nodeEligibleForPod tolerates n podSpec then 1 else 0)"
    using Cons.prems by (simp add: summarize_step_def Let_def in32_def split: option.splits)
  then show ?case using Cons.IH [of ?i] Cons.prems by (simp add: eligible_nodes_def)
qed (simp add: eligible_nodes_def)

definition room_of :: "('q, 's) k8s_arith \<Rightarrow> ('q \<Rightarrow> rat) \<Rightarrow> ('q, 't) pod list \<Rightarrow> 'q node \<Rightarrow> 'q node_resource_headroom \<Rightarrow> bool" where
  "room_of K num pods n r \<longleftrightarrow>
     (let bound = bound_pods pods (nd_Name n)
      in nr_Name r = nd_Name n
       \<and> num (nr_AvailableCPU r) = amount num (nd_Allocatable n) ''cpu'' - requested K num bound ''cpu''
       \<and> num (nr_AvailableMemory r) = amount num (nd_Allocatable n) ''memory'' - requested K num bound ''memory''
       \<and> nr_PodCapacityKnown r = (map_of (nd_Allocatable n) ''pods'' \<noteq> None)
       \<and> nr_AvailablePods r = (case map_of (nd_Allocatable n) ''pods'' of None \<Rightarrow> 0 | Some q \<Rightarrow> wrap64 (q_value K q - int (length bound))))"

lemma headroom_facts:
  assumes "quantity_laws K num" "distinct (map nd_Name nodes)" "int (length (concat pages)) \<le> max_int64"
    and "FetchClusterResourceSnapshot K (nodes, None) (pages, None) = (s, err)"
  shows "\<exists>h. HeadroomForPod K tolerates s podSpec = Some h
    \<and> list_all2 (room_of K num (concat pages)) (eligible_nodes tolerates nodes podSpec) (ch_NodeHeadrooms h)
    \<and> num (ch_AvailableCPU h) = num (ni_AllocCPU (ch_NodeCapacity h)) - num (ch_RequestedCPU h)
    \<and> num (ch_AvailableMemory h) = num (ni_AllocMemory (ch_NodeCapacity h)) - num (ch_RequestedMemory h)"
proof -
  let ?fit = "eligible_nodes tolerates nodes podSpec" and ?pods = "concat pages"
  let ?u = "\<lambda>n. the (map_of (cs_usage s) (nd_Name n))"
  have nodes: "cs_nodes s = nodes" using assms(4) by (auto simp: FetchClusterResourceSnapshot_def Let_def)
  have u: "map_of (cs_usage s) (nd_Name n) = Some (?u n)" "num (us_cpu (?u n)) = requested K num (bound_pods ?pods (nd_Name n)) ''cpu''"
    "num (us_memory (?u n)) = requested K num (bound_pods ?pods (nd_Name n)) ''memory''" "us_pods (?u n) = int (length (bound_pods ?pods (nd_Name n)))"
    if "n \<in> set ?fit" for n
    using snapshot_usage [OF assms(1,4) _ assms(3) refl, of n] that by (auto simp: eligible_nodes_def)
  have room: "room_of K num ?pods n (headroom_of K n (?u n))" if "n \<in> set ?fit" for n
    using u [OF that] by (simp add: room_of_def headroom_of_def Let_def quantity_lawsD [OF assms(1)] num_alloc_or_zero [OF assms(1)] split: option.splits)
  let ?rooms = "map (\<lambda>n. headroom_of K n (?u n)) ?fit"
  have books: "list_all2 (room_of K num ?pods) ?fit ?rooms" using room by (simp add: list_all2_conv_all_nth)
  have fit: "filter (\<lambda>n. nodeEligibleForPod tolerates n podSpec) nodes = ?fit" by (simp add: eligible_nodes_def)
  have "\<not> list_ex (\<lambda>n. map_of (cs_usage s) (nd_Name n) = None) ?fit" using u(1) by (auto simp: list_ex_iff)
  then obtain h where h: "HeadroomForPod K tolerates s podSpec = Some h" "ch_NodeHeadrooms h = ?rooms"
    "ch_NodeCapacity h = summarizeNodeCapacityForPod K tolerates nodes podSpec"
    "ch_RequestedCPU h = foldl (\<lambda>q n. q_add K q (us_cpu (?u n))) (q_zero K) ?fit"
    "ch_RequestedMemory h = foldl (\<lambda>q n. q_add K q (us_memory (?u n))) (q_zero K) ?fit"
    "ch_AvailableCPU h = foldl (\<lambda>q r. q_add K q (nr_AvailableCPU r)) (q_zero K) ?rooms"
    "ch_AvailableMemory h = foldl (\<lambda>q r. q_add K q (nr_AvailableMemory r)) (q_zero K) ?rooms"
    by (simp add: HeadroomForPod_def Let_def nodes fit
        eligible_entries [OF assms(2), of "\<lambda>n. nodeEligibleForPod tolerates n podSpec", unfolded fit])
  have alloc: "num (ni_AllocCPU (ch_NodeCapacity h)) = (\<Sum>n\<leftarrow>?fit. amount num (nd_Allocatable n) ''cpu'')"
    "num (ni_AllocMemory (ch_NodeCapacity h)) = (\<Sum>n\<leftarrow>?fit. amount num (nd_Allocatable n) ''memory'')"
    unfolding h(3) by (simp_all add: summarizeNodeCapacityForPod_def Let_def summary_alloc [OF assms(1)] quantity_lawsD [OF assms(1)])
  have sub: "(\<Sum>n\<leftarrow>?fit. f n) = (\<Sum>n\<leftarrow>?fit. g n) - (\<Sum>n\<leftarrow>?fit. k n)" if "\<And>n. n \<in> set ?fit \<Longrightarrow> f n = g n - k n" for f g k :: "_ \<Rightarrow> rat"
  proof -
    have "(\<Sum>n\<leftarrow>?fit. f n) = (\<Sum>n\<leftarrow>?fit. g n - k n)" using that by (intro arg_cong [of _ _ sum_list] map_cong) auto
    then show ?thesis by (simp add: sum_list_subtractf)
  qed
  have "num (ch_AvailableCPU h) = num (ni_AllocCPU (ch_NodeCapacity h)) - num (ch_RequestedCPU h)"
    unfolding alloc h(4,6) num_foldl [OF assms(1)] using room u(2) by (auto simp: quantity_lawsD [OF assms(1)] o_def room_of_def Let_def intro!: sub)
  moreover have "num (ch_AvailableMemory h) = num (ni_AllocMemory (ch_NodeCapacity h)) - num (ch_RequestedMemory h)"
    unfolding alloc h(5,7) num_foldl [OF assms(1)] using room u(3) by (auto simp: quantity_lawsD [OF assms(1)] o_def room_of_def Let_def intro!: sub)
  ultimately show ?thesis using h(1,2) books by simp
qed

text \<open>C18. The books of the cluster snapshot balance: the headroom of an eligible node is what it can allocate less the effective
  requests of the unfinished pods bound to it, its free pod slots likewise, and the free resources of the cluster are its
  allocatable resources less the requested ones. A snapshot that was read completely never fails to be projected.\<close>

theorem headroom_books:
  assumes "quantity_laws K num" "distinct (map nd_Name nodes)" "int (length (concat pages)) \<le> max_int64"
    and "FetchClusterResourceSnapshot K (nodes, None) (pages, None) = (s, err)"
  shows "\<exists>h. HeadroomForPod K tolerates s podSpec = Some h
    \<and> list_all2 (room_of K num (concat pages)) (eligible_nodes tolerates nodes podSpec) (ch_NodeHeadrooms h)
    \<and> num (ch_AvailableCPU h) = num (ni_AllocCPU (ch_NodeCapacity h)) - num (ch_RequestedCPU h)
    \<and> num (ch_AvailableMemory h) = num (ni_AllocMemory (ch_NodeCapacity h)) - num (ch_RequestedMemory h)"
  by (rule headroom_facts [OF assms])

subsection \<open>Samples\<close>

definition sample_node :: "string \<Rightarrow> int \<Rightarrow> taint list \<Rightarrow> int node" where
  "sample_node name cpu taints = \<lparr>nd_Name = name, nd_Labels = [], nd_Unschedulable = False, nd_Taints = taints,
     nd_Conditions = [(''MemoryPressure'', ''False''), (''Ready'', ''True'')],
     nd_Allocatable = [(''cpu'', cpu), (''memory'', 50), (''pods'', 10)]\<rparr>"

definition sample_nodes :: "int node list" where
  "sample_nodes = [sample_node ''a'' 30 [], sample_node ''b'' 99 [\<lparr>tn_Key = ''gpu'', tn_Value = [], tn_Effect = ''NoSchedule''\<rparr>],
     sample_node ''c'' 20 []]"

definition sample_bound :: "string \<Rightarrow> string \<Rightarrow> (int, unit) pod" where
  "sample_bound nodeName phase = \<lparr>pod_Name = ''p'', pod_Spec = (sample_spec None)\<lparr>ps_NodeName := nodeName\<rparr>, pod_Phase = phase, pod_Conditions = []\<rparr>"

definition sample_pages :: "(int, unit) pod list list" where
  "sample_pages = [[sample_bound ''a'' ''Running'', sample_bound ''a'' ''Succeeded''], [sample_bound ''c'' ''Pending'', sample_bound [] ''Pending'']]"

theorem headroom_books_witness:
  "\<exists>h. HeadroomForPod int_arith (\<lambda>_ _. False) (fst (FetchClusterResourceSnapshot int_arith (sample_nodes, None) (sample_pages, None))) None = Some h
    \<and> ch_AvailableCPU h = ni_AllocCPU (ch_NodeCapacity h) - ch_RequestedCPU h"
  using headroom_books [OF int_arith_laws, of sample_nodes sample_pages, OF _ _ prod.collapse [symmetric], of "\<lambda>_ _. False" None]
  by (auto simp: sample_nodes_def sample_node_def sample_pages_def simp flip: of_int_diff)

text \<open>The tainted node does not count, the finished pod and the unbound one neither.\<close>

lemma sample_headroom:
  "map_option (\<lambda>h. map (\<lambda>r. (nr_Name r, nr_AvailableCPU r, nr_AvailablePods r)) (ch_NodeHeadrooms h))
     (HeadroomForPod int_arith (\<lambda>_ _. False) (fst (FetchClusterResourceSnapshot int_arith (sample_nodes, None) (sample_pages, None))) None)
   = Some [(''a'', 22, 9), (''c'', 12, 9)]"
  by code_simp

end
