(* ===== verification/ClusterPlan.thy ===== *)
theory ClusterPlan
  imports NodeHeadroom
begin

section \<open>From the cluster to the capacity plan\<close>

text \<open>
  \<open>cmd/capacity_plan.go\<close> with the readers of \<open>internal/kube/capacity.go\<close>, \<open>pods.go\<close>, \<open>internal/observation\<close> and the
  converters of \<open>internal/kubeconv\<close>: the input of the plan is assembled from what the API server returned,
  and every read that failed is recorded as an observation error. What the server returned is the
  record \<open>cluster_view\<close>; \<open>observed\<close> is the availability state of an observation.
\<close>

datatype 'a observed = Known 'a | Unavailable go_error | NotApplicable

definition mapValue :: "'a observed \<Rightarrow> ('a \<Rightarrow> 'b) \<Rightarrow> 'b observed" where
  "mapValue source convert = (case source of Known x \<Rightarrow> Known (convert x) | Unavailable e \<Rightarrow> Unavailable e | NotApplicable \<Rightarrow> NotApplicable)"

subsection \<open>Pods\<close>

record pod_info =
  pin_Name :: string
  pin_Phase :: string
  pin_Ready :: bool
  pin_Unschedulable :: bool
  pin_Reasons :: "string list"
  pin_NodeName :: string

fun ready_condition :: "pod_condition list \<Rightarrow> bool" where
  "ready_condition [] = False"
| "ready_condition (c # cs) = (if pcd_Type c = ''Ready'' then pcd_Status c = ''True'' else ready_condition cs)"

definition podReady :: "('q, 't) pod \<Rightarrow> bool" where
  "podReady p = ready_condition (pod_Conditions p)"

definition not_scheduled :: "pod_condition \<Rightarrow> bool" where
  "not_scheduled c \<longleftrightarrow> pcd_Type c = ''PodScheduled'' \<and> pcd_Status c = ''False''"

definition podUnschedulableInfo :: "('q, 't) pod \<Rightarrow> bool" where
  "podUnschedulableInfo p = list_ex (\<lambda>c. not_scheduled c \<and> pcd_Reason c = ''Unschedulable'') (pod_Conditions p)"

definition podSchedulingReasons :: "('q, 't) pod \<Rightarrow> string list" where
  "podSchedulingReasons p = map pcd_Message (filter (\<lambda>c. not_scheduled c \<and> pcd_Message c \<noteq> []) (pod_Conditions p))"

definition PodInfosFromPods :: "('q, 't) pod list \<Rightarrow> pod_info list" where
  "PodInfosFromPods pods = map (\<lambda>p. \<lparr>pin_Name = pod_Name p, pin_Phase = pod_Phase p, pin_Ready = podReady p,
     pin_Unschedulable = podUnschedulableInfo p, pin_Reasons = podSchedulingReasons p, pin_NodeName = ps_NodeName (pod_Spec p)\<rparr>) pods"

record pending_detail =
  pdt_Name :: string
  pdt_Unschedulable :: bool
  pdt_Reasons :: "string list"

definition PendingPodDetailsFromPods :: "('q, 't) pod list \<Rightarrow> pending_detail list" where
  "PendingPodDetailsFromPods pods = map (\<lambda>p.
     let unschedulable = filter (\<lambda>c. not_scheduled c \<and> pcd_Reason c = ''Unschedulable'') (pod_Conditions p)
     in \<lparr>pdt_Name = pod_Name p, pdt_Unschedulable = (unschedulable \<noteq> []),
         pdt_Reasons = filter (\<lambda>m. m \<noteq> []) (map pcd_Message unschedulable)\<rparr>)
     (filter (\<lambda>p. pod_Phase p = ''Pending'') pods)"

definition PendingPodInfos :: "pending_detail list \<Rightarrow> pending_pod list" where
  "PendingPodInfos details = map (\<lambda>d. \<lparr>pp_Name = pdt_Name d, pp_Phase = ''Pending'', pp_Unschedulable = pdt_Unschedulable d,
     pp_Reasons = pdt_Reasons d\<rparr>) details"

definition countReadyPods :: "pod_info list \<Rightarrow> int" where
  "countReadyPods infos = foldl (\<lambda>n p. if pin_Ready p then wrap32 (n + 1) else n) 0 infos"

subsection \<open>Quotas and limit ranges\<close>

record 'q quota_item =
  qi_Name :: string
  qi_SpecHard :: "'q resource_list"
  qi_StatusHard :: "'q resource_list"
  qi_StatusUsed :: "'q resource_list"
  qi_Scopes :: "string list"
  qi_ScopeSelector :: "string list option"       \<comment> \<open>the match expressions\<close>

record quota_info =
  qf_Name :: string
  qf_Resource :: string
  qf_Used :: string
  qf_Hard :: string
  qf_Ratio :: f64
  qf_HardKnown :: bool
  qf_Scoped :: bool
  qf_UsageKnown :: bool

definition quotaResourceNames :: "'q quota_item \<Rightarrow> string list" where
  "quotaResourceNames q = sort (remdups (map fst (qi_SpecHard q) @ map fst (qi_StatusHard q)))"

definition quotaIsScoped :: "'q quota_item \<Rightarrow> bool" where
  "quotaIsScoped q \<longleftrightarrow> qi_Scopes q \<noteq> [] \<or> (case qi_ScopeSelector q of None \<Rightarrow> False | Some es \<Rightarrow> es \<noteq> [])"

definition FetchAllResourceQuotas :: "('q, 's) k8s_arith \<Rightarrow> go_error + 'q quota_item list \<Rightarrow> go_error + quota_info list" where
  "FetchAllResourceQuotas K listing = (case listing of
       Inl err \<Rightarrow> Inl (wrap_err ''list all resource quotas: '' err)
     | Inr items \<Rightarrow> Inr (concat (map (\<lambda>q. map (\<lambda>res.
         let hardKnown = (map_of (qi_StatusHard q) res \<noteq> None); usageKnown = (map_of (qi_StatusUsed q) res \<noteq> None);
             hard = alloc_or_zero K (qi_StatusHard q) res; used = alloc_or_zero K (qi_StatusUsed q) res
         in \<lparr>qf_Name = qi_Name q, qf_Resource = res, qf_Used = q_string K used, qf_Hard = q_string K hard,
             qf_Ratio = (if hardKnown \<and> usageKnown \<and> \<not> q_isZero K hard then f_div (q_float K used) (q_float K hard) else Fin 0),
             qf_HardKnown = hardKnown, qf_Scoped = quotaIsScoped q, qf_UsageKnown = usageKnown\<rparr>)
         (quotaResourceNames q)) items)))"

definition convertToCapacityQuotas :: "quota_info list \<Rightarrow> cap_quota list" where
  "convertToCapacityQuotas infos = map (\<lambda>q. \<lparr>cq_Name = qf_Name q, cq_Resource = qf_Resource q, cq_Used = qf_Used q, cq_Hard = qf_Hard q,
     cq_UsageObserved = Some (qf_UsageKnown q), cq_HardObserved = Some (qf_HardKnown q), cq_Scoped = qf_Scoped q\<rparr>) infos"

record 'q limit_item =
  li_Type :: string
  li_Min :: "'q resource_list"
  li_Max :: "'q resource_list"
  li_Default :: "'q resource_list"
  li_DefaultRequest :: "'q resource_list"
  li_MaxLimitRequestRatio :: "'q resource_list"

definition quantityString :: "('q, 's) k8s_arith \<Rightarrow> 'q resource_list \<Rightarrow> string \<Rightarrow> string" where
  "quantityString K rl name = (case map_of rl name of None \<Rightarrow> [] | Some q \<Rightarrow> q_string K q)"

definition limit_names :: "'q limit_item \<Rightarrow> string list" where
  "limit_names l = sort (remdups (map fst (li_Min l) @ map fst (li_Max l) @ map fst (li_Default l) @ map fst (li_DefaultRequest l)
     @ map fst (li_MaxLimitRequestRatio l)))"

text \<open>A LimitRange is its name and its items. The intermediate \<open>LimitRangeInfo\<close> has the fields of the plan's constraint.\<close>

definition FetchLimitRanges :: "('q, 's) k8s_arith \<Rightarrow> go_error + (string \<times> 'q limit_item list) list \<Rightarrow> go_error + limit_range list" where
  "FetchLimitRanges K listing = (case listing of
       Inl err \<Rightarrow> Inl (wrap_err ''list limit ranges: '' err)
     | Inr ranges \<Rightarrow> Inr (concat (map (\<lambda>(name, items). concat (map (\<lambda>l.
         if li_Type l \<noteq> ''Container'' \<and> li_Type l \<noteq> ''Pod'' then []
         else map (\<lambda>res. \<lparr>lr_Name = name, lr_Type = li_Type l, lr_Resource = res, lr_Min = quantityString K (li_Min l) res,
             lr_Max = quantityString K (li_Max l) res, lr_Default = quantityString K (li_Default l) res,
             lr_DefaultRequest = quantityString K (li_DefaultRequest l) res,
             lr_MaxLimitRequestRatio = quantityString K (li_MaxLimitRequestRatio l) res\<rparr>) (limit_names l)) items)) ranges)))"

subsection \<open>What the API server returned\<close>

record ('q, 't) scale_target =
  st_PodTemplate :: "('q, 't) pod_spec option"
  st_SelectorStr :: string

record ('q, 't) cluster_view =
  cv_Target :: "go_error + ('q, 't) scale_target option"
  cv_Pods :: "go_error + ('q, 't) pod list"
  cv_Quotas :: "go_error + 'q quota_item list"
  cv_LimitRanges :: "go_error + (string \<times> 'q limit_item list) list"
  cv_Nodes :: "'q node list \<times> go_error option"
  cv_PodPages :: "('q, 't) pod list list \<times> go_error option"
  cv_PDBs :: "go_error + (string \<times> string \<times> string) list"     \<comment> \<open>name, minAvailable, maxUnavailable\<close>
  cv_Autoscaler :: "go_error + bool"

definition ScaleTarget :: "('q, 't) cluster_view \<Rightarrow> ('q, 't) scale_target option observed" where
  "ScaleTarget v = (case cv_Target v of Inl err \<Rightarrow> Unavailable err | Inr None \<Rightarrow> NotApplicable | Inr (Some info) \<Rightarrow> Known (Some info))"

definition observedPods :: "('q, 't) cluster_view \<Rightarrow> ('q, 't) pod list observed" where
  "observedPods v = (case ScaleTarget v of
       Unavailable e \<Rightarrow> Unavailable e
     | NotApplicable \<Rightarrow> NotApplicable
     | Known info \<Rightarrow> (case info of None \<Rightarrow> NotApplicable
         | Some i \<Rightarrow> if st_SelectorStr i = [] then NotApplicable
             else (case cv_Pods v of Inl err \<Rightarrow> Unavailable (wrap_err ''failed to list pods: '' err) | Inr pods \<Rightarrow> Known pods)))"

subsection \<open>Collection\<close>

definition addCapacityObservationError :: "string \<Rightarrow> string \<Rightarrow> go_error option \<Rightarrow> cap_input \<Rightarrow> cap_input" where
  "addCapacityObservationError domain source err inp = (case err of None \<Rightarrow> inp
   | Some e \<Rightarrow> inp\<lparr>ci_ObservationErrors := ci_ObservationErrors inp @ [\<lparr>oe_Domain = domain, oe_Source = source, oe_Message = err_msg e\<rparr>]\<rparr>)"

definition text_at :: "(string \<times> string) list \<Rightarrow> string \<Rightarrow> string" where
  "text_at m k = (case map_of m k of None \<Rightarrow> [] | Some t \<Rightarrow> t)"

definition convertToCapacityContainerResources :: "resource_requests \<Rightarrow> cap_container list" where
  "convertToCapacityContainerResources rr = map (\<lambda>c. \<lparr>cn_Name = cr_Name c, cn_CPU = text_at (cr_Requests c) ''cpu'',
     cn_Memory = text_at (cr_Requests c) ''memory'', cn_LimitCPU = text_at (cr_Limits c) ''cpu'',
     cn_LimitMemory = text_at (cr_Limits c) ''memory''\<rparr>) (rr_Containers rr @ rr_InitContainers rr)"

definition collectScaleTargetResources :: "('q, 's) k8s_arith \<Rightarrow> ('q, 't) scale_target \<Rightarrow> string \<Rightarrow> string \<Rightarrow> cap_input \<Rightarrow> cap_input" where
  "collectScaleTargetResources K info kind name inp = (case ResourceRequestsFromPodTemplate K (st_PodTemplate info) of
       None \<Rightarrow> addCapacityObservationError ObsPodResources ''Pod resource requests''
         (Some (plain_err (''pod template is unavailable for '' @ kind @ ''/'' @ name))) inp
     | Some rr \<Rightarrow> inp\<lparr>ci_ContainerResources := convertToCapacityContainerResources rr,
         ci_PodRequestCPU := text_at (rr_PodRequests rr) ''cpu'', ci_PodRequestMemory := text_at (rr_PodRequests rr) ''memory'',
         ci_PodLimitCPU := text_at (rr_PodLimits rr) ''cpu'', ci_PodLimitMemory := text_at (rr_PodLimits rr) ''memory'',
         ci_PodLevelRequestCPU := text_at (rr_PodLevelRequests rr) ''cpu'', ci_PodLevelRequestMemory := text_at (rr_PodLevelRequests rr) ''memory'',
         ci_PodLevelLimitCPU := text_at (rr_PodLevelLimits rr) ''cpu'', ci_PodLevelLimitMemory := text_at (rr_PodLevelLimits rr) ''memory''\<rparr>)"

definition collectScaleTargetCapacity :: "('q, 's) k8s_arith \<Rightarrow> string \<Rightarrow> string \<Rightarrow> ('q, 't) cluster_view \<Rightarrow> cap_input
    \<Rightarrow> cap_input \<times> ('q, 't) pod_spec option" where
  "collectScaleTargetCapacity K kind name v inp =
     (let missing = plain_err (''resource information is unavailable for '' @ kind @ ''/'' @ name)
      in case ScaleTarget v of
           Unavailable e \<Rightarrow> (addCapacityObservationError ObsScaleTarget ''scale target'' (Some e) inp, None)
         | NotApplicable \<Rightarrow> (addCapacityObservationError ObsScaleTarget ''scale target'' (Some missing) inp, None)
         | Known None \<Rightarrow> (addCapacityObservationError ObsScaleTarget ''scale target'' (Some missing) inp, None)
         | Known (Some info) \<Rightarrow>
             let inp1 = collectScaleTargetResources K info kind name inp; podSpec = st_PodTemplate info
             in if st_SelectorStr info = [] then
                  (addCapacityObservationError ObsPendingPods ''scale target Pod selector'' (Some (plain_err ''selector is empty'')) inp1, podSpec)
                else case mapValue (observedPods v) PodInfosFromPods of
                    Unavailable e \<Rightarrow> (addCapacityObservationError ObsPendingPods ''scale target Pods'' (Some e) inp1, podSpec)
                  | infos \<Rightarrow>
                      let inp2 = (case infos of Known pods \<Rightarrow> inp1\<lparr>ci_ReadyPods := countReadyPods pods\<rparr> | _ \<Rightarrow> inp1)
                      in (case mapValue (observedPods v) PendingPodDetailsFromPods of
                            Known pending \<Rightarrow> (inp2\<lparr>ci_PendingPods := PendingPodInfos pending\<rparr>, podSpec)
                          | _ \<Rightarrow> (inp2, podSpec)))"

definition node_summary :: "('q, 's) k8s_arith \<Rightarrow> 'q cluster_headroom \<Rightarrow> node_capacity" where
  "node_summary K h = (let nc = ch_NodeCapacity h in
     \<lparr>nc_TotalNodes = ni_TotalNodes nc, nc_SchedulableNodes = ni_SchedulableNodes nc, nc_SchedulableNodesKnown = True,
      nc_AllocCPU = q_string K (ni_AllocCPU nc), nc_AllocMemory = q_string K (ni_AllocMemory nc),
      nc_RequestedCPU = q_string K (ch_RequestedCPU h), nc_RequestedMemory = q_string K (ch_RequestedMemory h),
      nc_AvailableCPU = q_string K (ch_AvailableCPU h), nc_AvailableMemory = q_string K (ch_AvailableMemory h),
      nc_PodCapacityKnown = ch_PodCapacityKnown h, nc_AllocPods = ni_AllocPods nc, nc_RequestedPods = ch_RequestedPods h,
      nc_AvailablePods = ch_AvailablePods h, nc_TaintedNodes = ni_TaintedNodes nc,
      nc_NodeHeadrooms = map (\<lambda>r. \<lparr>nh_Name = nr_Name r, nh_AvailableCPU = q_string K (nr_AvailableCPU r),
        nh_AvailableMemory = q_string K (nr_AvailableMemory r), nh_PodCapacityKnown = nr_PodCapacityKnown r,
        nh_AvailablePods = nr_AvailablePods r\<rparr>) (ch_NodeHeadrooms h),
      nc_Hints = []\<rparr>)"

text \<open>\<open>None\<close>: the projection of the snapshot panics.\<close>

definition collectCapacityClusterHeadroom :: "('q, 's) k8s_arith \<Rightarrow> ('t \<Rightarrow> taint \<Rightarrow> bool) \<Rightarrow> ('q, 't) cluster_view \<Rightarrow> ('q, 't) pod_spec option
    \<Rightarrow> cap_input \<Rightarrow> cap_input option" where
  "collectCapacityClusterHeadroom K tolerates v podSpec inp =
     (let constraints = UnmodeledPodSchedulingConstraints K podSpec;
          inp1 = (if constraints \<noteq> [] then addCapacityObservationError ObsNodeCapacity ''target Pod scheduling''
             (Some (plain_err (''current capacity model cannot evaluate '' @ join_str '', '' constraints))) inp else inp);
          (snapshot, err) = FetchClusterResourceSnapshot K (cv_Nodes v) (cv_PodPages v)
      in case err of
           Some e \<Rightarrow> Some (addCapacityObservationError ObsNodeCapacity ''cluster request headroom'' (Some e) inp1)
         | None \<Rightarrow> map_option (\<lambda>h. inp1\<lparr>ci_NodeCapacity := Some (node_summary K h)\<rparr>) (HeadroomForPod K tolerates snapshot podSpec))"

definition collectCapacityQuotas :: "('q, 's) k8s_arith \<Rightarrow> ('q, 't) cluster_view \<Rightarrow> cap_input \<Rightarrow> cap_input" where
  "collectCapacityQuotas K v inp = (case FetchAllResourceQuotas K (cv_Quotas v) of
       Inl err \<Rightarrow> addCapacityObservationError ObsResourceQuotas ''ResourceQuotas'' (Some err) inp
     | Inr infos \<Rightarrow> inp\<lparr>ci_Quotas := convertToCapacityQuotas infos\<rparr>)"

definition collectCapacityLimitRanges :: "('q, 's) k8s_arith \<Rightarrow> ('q, 't) cluster_view \<Rightarrow> cap_input \<Rightarrow> cap_input" where
  "collectCapacityLimitRanges K v inp = (case FetchLimitRanges K (cv_LimitRanges v) of
       Inl err \<Rightarrow> addCapacityObservationError ObsLimitRanges ''LimitRanges'' (Some err) inp
     | Inr infos \<Rightarrow> inp\<lparr>ci_LimitRanges := infos\<rparr>)"

definition collectCapacityPDBs :: "('q, 't) cluster_view \<Rightarrow> cap_input \<Rightarrow> cap_input" where
  "collectCapacityPDBs v inp = (case cv_PDBs v of
       Inl err \<Rightarrow> addCapacityObservationError ObsPDBs ''PodDisruptionBudgets'' (Some (wrap_err ''list pod disruption budgets: '' err)) inp
     | Inr infos \<Rightarrow> inp\<lparr>ci_PDBs := map (\<lambda>(name, minA, maxU). \<lparr>pdb_Name = name, pdb_MinAvailable = minA, pdb_MaxUnavailable = maxU,
         pdb_Disruption = []\<rparr>) infos\<rparr>)"

definition collectCapacityAutoscaler :: "('q, 't) cluster_view \<Rightarrow> cap_input \<Rightarrow> cap_input" where
  "collectCapacityAutoscaler v inp = (case cv_Autoscaler v of
       Inl err \<Rightarrow> addCapacityObservationError ObsClusterAutoscaler ''Cluster Autoscaler detection'' (Some err) inp
     | Inr b \<Rightarrow> inp\<lparr>ci_ClusterAutoscaler := b\<rparr>)"

definition plan_input :: "string \<Rightarrow> string \<Rightarrow> string \<Rightarrow> int \<Rightarrow> int \<Rightarrow> int \<Rightarrow> cap_input" where
  "plan_input namespace name target current maxReplicas targetMax =
     \<lparr>ci_Namespace = namespace, ci_HPAName = name, ci_Target = target, ci_CurrentReplicas = current, ci_MaxReplicas = maxReplicas,
      ci_TargetMaxReplicas = targetMax, ci_ContainerResources = [], ci_PodRequestCPU = [], ci_PodRequestMemory = [], ci_PodLimitCPU = [],
      ci_PodLimitMemory = [], ci_PodLevelRequestCPU = [], ci_PodLevelRequestMemory = [], ci_PodLevelLimitCPU = [], ci_PodLevelLimitMemory = [],
      ci_Quotas = [], ci_LimitRanges = [], ci_NodeCapacity = None, ci_PendingPods = [], ci_PDBs = [], ci_ClusterAutoscaler = False,
      ci_ReadyPods = 0, ci_ObservationErrors = []\<rparr>"

definition assembleCapacityPlanInput :: "('q, 's) k8s_arith \<Rightarrow> ('t \<Rightarrow> taint \<Rightarrow> bool) \<Rightarrow> string \<Rightarrow> string \<Rightarrow> ('q, 't) cluster_view \<Rightarrow> cap_input
    \<Rightarrow> cap_input option" where
  "assembleCapacityPlanInput K tolerates kind name v inp0 =
     (let (inp1, podSpec) = collectScaleTargetCapacity K kind name v inp0;
          inp2 = collectCapacityLimitRanges K v (collectCapacityQuotas K v inp1)
      in map_option (\<lambda>inp3. collectCapacityAutoscaler v (collectCapacityPDBs v inp3)) (collectCapacityClusterHeadroom K tolerates v podSpec inp2))"

subsection \<open>The demand of the plan\<close>

definition text_laws :: "('q, 's) k8s_arith \<Rightarrow> ('q \<Rightarrow> rat) \<Rightarrow> bool" where
  "text_laws K num \<longleftrightarrow> (\<forall>q. q_string K q \<noteq> [] \<and> (\<exists>q'. q_parse K (q_string K q) = Inr q' \<and> num q' = num q))"

lemma num_parse: "text_laws K num \<Longrightarrow> num (parseQuantityOrZero K (q_string K q)) = num q"
  unfolding text_laws_def parseQuantityOrZero_def by (metis sum.simps(6))

lemma text_at_texts: "text_at (resource_texts K rl) k = (case map_of rl k of None \<Rightarrow> [] | Some q \<Rightarrow> q_string K q)"
  by (induction rl) (auto simp: text_at_def resource_texts_def)

lemma rl_ok_default_missing: "rl_ok num r \<Longrightarrow> (\<forall>q\<in>snd ` set ds. 0 \<le> num q) \<Longrightarrow> rl_ok num (default_missing r ds)"
proof (induction ds arbitrary: r)
  case (Cons d ds)
  then show ?case by (cases d) (auto simp: default_missing_def rl_ok_update)
qed (simp add: default_missing_def)

lemma rl_ok_override: "rl_ok num dst \<Longrightarrow> rl_ok num ov \<Longrightarrow> rl_ok num (overrideResourceList dst ov)"
proof (induction ov arbitrary: dst)
  case (Cons d ov)
  then show ?case by (cases d) (auto simp: overrideResourceList_def rl_ok_update)
qed (simp add: overrideResourceList_def)

lemma rl_ok_effective:
  assumes "quantity_laws K num" "pod_ok num spec"
  shows "rl_ok num (effectivePodResources K spec False)"
proof -
  have ok: "\<forall>c\<in>set (ps_Containers spec). rl_ok num (resourcesFor False c)" "\<forall>c\<in>set (ps_InitContainers spec). rl_ok num (resourcesFor False c)"
    using assms(2) by (auto simp: pod_ok_def resourcesFor_def)
  let ?run0 = "foldl (\<lambda>d c. addResourceList K d (resourcesFor False c)) [] (ps_Containers spec)"
  obtain run1 top where l: "init_loop K False ?run0 [] [] (ps_InitContainers spec) = (run1, top)" by (metis prod.exhaust)
  have "rl_ok num ?run0" using sum_containers [OF assms(1) ok(1) rl_ok_empty] by simp
  from init_loop_amounts [OF assms(1) ok(2) this rl_ok_empty rl_ok_empty _ l, of _ "[]"]
  have "rl_ok num run1" "rl_ok num top" by simp_all
  then have "rl_ok num (maxResourceList K run1 top)" using amount_max [OF assms(1)] by blast
  then show ?thesis
    using assms(2) by (auto simp: effectivePodResources_def Let_def l pod_ok_def rl_ok_add [OF assms(1)] rl_ok_override split: option.splits)
qed

lemma pod_ok_materialize:
  assumes "quantity_laws K num" "pod_ok num spec"
  shows "pod_ok num (materializePodSpec K spec)"
proof -
  have c: "rl_ok num (pc_Requests (default_container c)) \<and> rl_ok num (pc_Limits (default_container c))"
    if "rl_ok num (pc_Requests c)" "rl_ok num (pc_Limits c)" for c :: "'a pod_container"
    using that by (auto simp: default_container_def rl_ok_def [of num "pc_Limits c"] intro!: rl_ok_default_missing)
  let ?s = "spec\<lparr>ps_Containers := map default_container (ps_Containers spec), ps_InitContainers := map default_container (ps_InitContainers spec)\<rparr>"
  let ?a = "?s\<lparr>ps_Resources := None, ps_Overhead := []\<rparr>"
  have cs: "\<forall>c\<in>set (ps_Containers ?s @ ps_InitContainers ?s). rl_ok num (pc_Requests c) \<and> rl_ok num (pc_Limits c)"
    using assms(2) c by (auto simp: pod_ok_def)
  then have "rl_ok num (effectivePodResources K ?a False)" by (intro rl_ok_effective [OF assms(1)]) (simp add: pod_ok_def)
  then have agg: "\<forall>q\<in>snd ` set (filter P (effectivePodResources K ?a False)). 0 \<le> num q" for P by (auto simp: rl_ok_def)
  show ?thesis
  proof (cases "ps_Resources spec")
    case None
    then show ?thesis using cs assms(2) by (simp add: materializePodSpec_def Let_def pod_ok_def)
  next
    case (Some pl)
    then have pl: "rl_ok num (pl_Requests pl)" "rl_ok num (pl_Limits pl)" using assms(2) by (auto simp: pod_ok_def)
    then have "\<forall>q\<in>snd ` set (pl_Limits pl). 0 \<le> num q" by (simp add: rl_ok_def)
    then have "rl_ok num (default_missing (default_missing (pl_Requests pl)
        (filter (\<lambda>(_, q). \<not> q_isZero K q) (effectivePodResources K ?a False))) (pl_Limits pl))"
      by (intro rl_ok_default_missing pl(1) agg)
    then show ?thesis using cs assms(2) Some pl(2) by (simp add: materializePodSpec_def Let_def pod_ok_def)
  qed
qed

lemma add_keeps: "map_of dst n \<noteq> None \<Longrightarrow> map_of (addResourceList K dst src) n \<noteq> None"
proof (induction src arbitrary: dst)
  case (Cons p src)
  then have "map_of (AList.update (fst p) q dst) n \<noteq> None" for q by (simp add: update_conv')
  with Cons.IH show ?case by (cases p) (simp add: addResourceList_def)
qed (simp add: addResourceList_def)

text \<open>A resource the effective list does not name is requested by no container.\<close>

lemma absent_everywhere:
  assumes "quantity_laws K num" "pod_ok num spec" "map_of (effectivePodResources K spec False) n = None"
    and "c \<in> set (ps_Containers spec @ ps_InitContainers spec)"
  shows "amount num (pc_Requests c) n = 0"
proof -
  define peak where "peak = Max ((\<lambda>cs. load num False cs n) ` set (pod_life spec))"
  have ok: "\<forall>c\<in>set (ps_Containers spec @ ps_InitContainers spec). rl_ok num (resourcesFor False c)"
    using assms(2) by (auto simp: pod_ok_def resourcesFor_def)
  have level: "map_of (level_resources False spec) n = None"
  proof (cases "ps_Resources spec")
    case (Some pl)
    show ?thesis
    proof (rule ccontr)
      assume "map_of (level_resources False spec) n \<noteq> None"
      moreover have "distinct (map fst (pl_Requests pl))" using assms(2) Some by (simp add: pod_ok_def rl_ok_def)
      ultimately have "map_of (overrideResourceList d (pl_Requests pl)) n \<noteq> None" for d
        using Some by (auto simp: level_resources_def map_of_override)
      then have "map_of (addResourceList K (overrideResourceList d (pl_Requests pl)) os) n \<noteq> None" for d os by (intro add_keeps)
      moreover obtain d where "effectivePodResources K spec False = addResourceList K (overrideResourceList d (pl_Requests pl)) (ps_Overhead spec)"
        using Some by (auto simp: effectivePodResources_def Let_def case_prod_beta)
      ultimately show False using assms(3) by metis
    qed
  qed (simp add: level_resources_def)
  have "0 = amount num (effectivePodResources K spec False) n" using assms(3) by (simp add: amount_def)
  also have "\<dots> = peak + amount num (ps_Overhead spec) n"
    using effective_peak [OF assms(1,2) peak_def refl] level by simp
  finally have zero: "peak + amount num (ps_Overhead spec) n = 0" by simp
  have "0 \<le> amount num (ps_Overhead spec) n" using assms(2) by (intro amount_nonneg) (simp add: pod_ok_def)
  then have le: "peak \<le> 0" using zero by simp
  have part: "amount num (resourcesFor False c) n \<le> load num False cs n"
    if "c \<in> set cs" "set cs \<subseteq> set (ps_Containers spec @ ps_InitContainers spec)" for cs
  proof -
    have "0 \<le> amount num (resourcesFor False d) n" if "d \<in> set cs" for d using that \<open>set cs \<subseteq> _\<close> ok by (intro amount_nonneg) auto
    then show ?thesis using that(1) unfolding load_def
      by (intro member_le_sum_list [of _ "map _ cs", simplified]) auto
  qed
  have phases: "set cs \<subseteq> set sd \<union> set is" if "cs \<in> set (init_phases sd is)" for cs sd "is"
    using that by (induction sd "is" rule: init_phases.induct) (auto split: if_splits)
  have reach: "\<exists>cs\<in>set (init_phases sd is). c \<in> set cs" if "c \<in> set is" for sd "is"
    using that by (induction sd "is" rule: init_phases.induct) auto
  have "\<exists>cs\<in>set (pod_life spec). c \<in> set cs" using assms(4) reach by (auto simp: pod_life_def)
  then obtain cs where cs: "cs \<in> set (pod_life spec)" "c \<in> set cs" by blast
  have "set cs \<subseteq> set (ps_Containers spec @ ps_InitContainers spec)" using cs(1) phases by (fastforce simp: pod_life_def)
  from part [OF cs(2) this] have "amount num (resourcesFor False c) n \<le> peak"
    using cs(1) unfolding peak_def by (auto intro: order_trans Max_ge)
  moreover have "0 \<le> amount num (resourcesFor False c) n" using ok assms(4) by (intro amount_nonneg) auto
  ultimately show ?thesis using le by (simp add: resourcesFor_def)
qed

lemma num_text_at:
  assumes "quantity_laws K num" "text_laws K num"
  shows "text_at (resource_texts K rl) n = [] \<longleftrightarrow> map_of rl n = None"
    "text_at (resource_texts K rl) n \<noteq> [] \<Longrightarrow> num (parseQuantityOrZero K (text_at (resource_texts K rl) n)) = amount num rl n"
  using assms(2) by (auto simp: text_at_texts num_parse [OF assms(2)] amount_def text_laws_def split: option.splits)

lemma sum_zero:
  assumes "quantity_laws K num"
  shows "(\<forall>c\<in>set cs. cn_CPU c \<noteq> [] \<longrightarrow> num (parseQuantityOrZero K (cn_CPU c)) = 0) \<Longrightarrow> num (fst (sumContainerResources K cs)) = 0"
    "(\<forall>c\<in>set cs. cn_Memory c \<noteq> [] \<longrightarrow> num (parseQuantityOrZero K (cn_Memory c)) = 0) \<Longrightarrow> num (snd (sumContainerResources K cs)) = 0"
proof -
  let ?f = "\<lambda>(cpu, mem) c. (if cn_CPU c \<noteq> [] \<and> cn_CPU c \<noteq> ''0'' then q_add K cpu (parseQuantityOrZero K (cn_CPU c)) else cpu,
      if cn_Memory c \<noteq> [] \<and> cn_Memory c \<noteq> ''0'' then q_add K mem (parseQuantityOrZero K (cn_Memory c)) else mem)"
  have "(\<forall>c\<in>set cs. cn_CPU c \<noteq> [] \<longrightarrow> num (parseQuantityOrZero K (cn_CPU c)) = 0) \<Longrightarrow> num (fst (foldl ?f a cs)) = num (fst a)" for a
    by (induction cs arbitrary: a) (auto simp: case_prod_beta quantity_lawsD [OF assms])
  moreover have "(\<forall>c\<in>set cs. cn_Memory c \<noteq> [] \<longrightarrow> num (parseQuantityOrZero K (cn_Memory c)) = 0) \<Longrightarrow> num (snd (foldl ?f a cs)) = num (snd a)" for a
    by (induction cs arbitrary: a) (auto simp: case_prod_beta quantity_lawsD [OF assms])
  ultimately show "(\<forall>c\<in>set cs. cn_CPU c \<noteq> [] \<longrightarrow> num (parseQuantityOrZero K (cn_CPU c)) = 0) \<Longrightarrow> num (fst (sumContainerResources K cs)) = 0"
    "(\<forall>c\<in>set cs. cn_Memory c \<noteq> [] \<longrightarrow> num (parseQuantityOrZero K (cn_Memory c)) = 0) \<Longrightarrow> num (snd (sumContainerResources K cs)) = 0"
    unfolding sumContainerResources_def by (simp_all add: quantity_lawsD [OF assms])
qed

lemma per_pod_demand:
  assumes "quantity_laws K num" "text_laws K num" "pod_ok num tmpl" "m = materializePodSpec K tmpl"
    and "ResourceRequestsFromPodTemplate K (Some tmpl) = Some rr" "ci_ContainerResources inp = convertToCapacityContainerResources rr"
    and "ci_PodRequestCPU inp = text_at (rr_PodRequests rr) ''cpu''" "ci_PodRequestMemory inp = text_at (rr_PodRequests rr) ''memory''"
  shows "num (fst (effectivePerPodResources K inp)) = amount num (EffectivePodRequests K m) ''cpu''
    \<and> num (snd (effectivePerPodResources K inp)) = amount num (EffectivePodRequests K m) ''memory''"
proof -
  have rr: "rr_PodRequests rr = resource_texts K (EffectivePodRequests K m)" "rr_Containers rr = map (containerResources K) (ps_Containers m)"
    "rr_InitContainers rr = map (containerResources K) (ps_InitContainers m)"
    using assms(4,5) by (auto simp: ResourceRequestsFromPodTemplate_def Let_def split: if_splits)
  note t = num_text_at [OF assms(1,2)]
  note absent = absent_everywhere [OF assms(1) pod_ok_materialize [OF assms(1,3)], folded assms(4) EffectivePodRequests_def]
  have zero: "num (parseQuantityOrZero K (text_at (cr_Requests (containerResources K c)) n)) = 0"
    if "map_of (EffectivePodRequests K m) n = None" "c \<in> set (ps_Containers m @ ps_InitContainers m)"
      "text_at (cr_Requests (containerResources K c)) n \<noteq> []" for c n
    using that t(2) [of "pc_Requests c" n] absent [OF that(1,2)] by (simp add: containerResources_def)
  have cpu: "num (fst (sumContainerResources K (ci_ContainerResources inp))) = 0" if "map_of (EffectivePodRequests K m) ''cpu'' = None"
    using zero [OF that] by (intro sum_zero(1) [OF assms(1)]) (auto simp: assms(6) convertToCapacityContainerResources_def rr)
  have mem: "num (snd (sumContainerResources K (ci_ContainerResources inp))) = 0" if "map_of (EffectivePodRequests K m) ''memory'' = None"
    using zero [OF that] by (intro sum_zero(2) [OF assms(1)]) (auto simp: assms(6) convertToCapacityContainerResources_def rr)
  have "fst (effectivePerPodResources K inp) = (if ci_PodRequestCPU inp \<noteq> [] then parseQuantityOrZero K (ci_PodRequestCPU inp)
      else fst (sumContainerResources K (ci_ContainerResources inp)))"
    "snd (effectivePerPodResources K inp) = (if ci_PodRequestMemory inp \<noteq> [] then parseQuantityOrZero K (ci_PodRequestMemory inp)
      else snd (sumContainerResources K (ci_ContainerResources inp)))"
    by (simp_all add: effectivePerPodResources_def case_prod_beta)
  note e = this [unfolded assms(7,8) rr(1)]
  have none: "amount num (EffectivePodRequests K m) n = 0" if "map_of (EffectivePodRequests K m) n = None" for n
    using that by (simp add: amount_def)
  show ?thesis
    unfolding e using t [of "EffectivePodRequests K m"] cpu mem none by (simp split: if_split)
qed

subsection \<open>A safe plan has a placement\<close>

text \<open>\<open>k\<close> more pods on a node: the requests of the bound pods and of the new ones stay within what is allocatable.\<close>

definition node_takes :: "('q, 's) k8s_arith \<Rightarrow> ('q \<Rightarrow> rat) \<Rightarrow> ('q, 't) pod list \<Rightarrow> 'q resource_list \<Rightarrow> 'q node \<Rightarrow> int \<Rightarrow> bool" where
  "node_takes K num pods demand n k \<longleftrightarrow>
     (let bound = bound_pods pods (nd_Name n); fits = (\<lambda>res. amount num demand res = 0
          \<or> requested K num bound res + of_int k * amount num demand res \<le> amount num (nd_Allocatable n) res)
      in 0 \<le> k \<and> (0 < k \<longrightarrow> fits ''cpu'' \<and> fits ''memory''
         \<and> (\<exists>q. map_of (nd_Allocatable n) ''pods'' = Some q \<and> int (length bound) + k \<le> q_value K q)))"

lemma spread:
  assumes "n \<le> (\<Sum>x\<leftarrow>xs. max 0 (f x))" "0 \<le> n"
  shows "\<exists>ks. list_all2 (\<lambda>x k. 0 \<le> k \<and> k \<le> max 0 (f x)) xs ks \<and> sum_list ks = (n :: int)"
  using assms
proof (induction xs arbitrary: n)
  case (Cons x xs)
  define rest where "rest = (\<Sum>x\<leftarrow>xs. max 0 (f x))"
  define k where "k = min n (max 0 (f x))"
  have "n \<le> max 0 (f x) + rest" using Cons.prems(1) by (simp add: rest_def)
  moreover have "0 \<le> rest" unfolding rest_def by (rule sum_list_nonneg) auto
  ultimately have k: "0 \<le> k" "k \<le> max 0 (f x)" "n - k \<le> rest" "0 \<le> n - k" using Cons.prems(2) by (simp_all add: k_def)
  then obtain ks where "list_all2 (\<lambda>x k. 0 \<le> k \<and> k \<le> max 0 (f x)) xs ks" "sum_list ks = n - k"
    using Cons.IH [of "n - k"] unfolding rest_def by blast
  then have "list_all2 (\<lambda>x k. 0 \<le> k \<and> k \<le> max 0 (f x)) (x # xs) (k # ks) \<and> sum_list (k # ks) = n" using k(1,2) by simp
  then show ?case by blast
qed simp

lemma node_takes_fit:
  assumes "quantity_laws K num" "text_laws K num" "room_of K num pods n r" "nr_PodCapacityKnown r"
    and "num pC = amount num demand ''cpu''" "num pM = amount num demand ''memory''" "0 \<le> num pC" "0 \<le> num pM"
    and "\<And>q. map_of (nd_Allocatable n) ''pods'' = Some q \<Longrightarrow> 0 \<le> q_value K q \<and> q_value K q \<le> max_int64"
    and "int (length pods) \<le> max_int64"
    and "nh_AvailableCPU nh = q_string K (nr_AvailableCPU r)" "nh_AvailableMemory nh = q_string K (nr_AvailableMemory r)"
    and "nh_PodCapacityKnown nh = nr_PodCapacityKnown r" "nh_AvailablePods nh = nr_AvailablePods r"
    and "0 \<le> k" "k \<le> max 0 (node_fit K pC pM nh)"
  shows "node_takes K num pods demand n k"
proof (cases "k = 0")
  case True
  then show ?thesis by (simp add: node_takes_def Let_def)
next
  case False
  let ?b = "bound_pods pods (nd_Name n)"
  let ?f = "podsFitInResources K (parseQuantityOrZero K (nh_AvailableCPU nh)) (parseQuantityOrZero K (nh_AvailableMemory nh)) pC pM"
  obtain q where q: "map_of (nd_Allocatable n) ''pods'' = Some q" using assms(3,4) by (auto simp: room_of_def Let_def)
  have "int (length ?b) \<le> int (length pods)" by (simp add: bound_pods_def)
  then have "in64 (q_value K q - int (length ?b))" using assms(9) [OF q] assms(10) by (simp add: in64_def)
  then have av: "nr_AvailablePods r = q_value K q - int (length ?b)" using assms(3) q by (simp add: room_of_def Let_def)
  have k: "1 \<le> k" "k \<le> ?f" "k \<le> nr_AvailablePods r"
    using assms(4,13-16) False by (auto simp: node_fit_def Let_def split: if_splits)
  note m = podsFit_max [OF assms(1,7,8) refl, of "parseQuantityOrZero K (nh_AvailableCPU nh)" "parseQuantityOrZero K (nh_AvailableMemory nh)"]
  have le: "k \<le> max_int32" using m k(2) by linarith
  have "resources_hold (num (nr_AvailableCPU r)) (num (nr_AvailableMemory r)) (num pC) (num pM) k"
    using m k(1,2) le by (simp add: assms(11,12) num_parse [OF assms(2)])
  then show ?thesis
    using assms(3,5,6) k av q by (auto simp: node_takes_def resources_hold_def room_of_def Let_def algebra_simps)
qed

subsection \<open>What the collection leaves\<close>

definition later_input :: "cap_input \<Rightarrow> cap_input \<Rightarrow> bool" where
  "later_input inp inp' \<longleftrightarrow> set (ci_ObservationErrors inp) \<subseteq> set (ci_ObservationErrors inp')
     \<and> ci_ContainerResources inp' = ci_ContainerResources inp \<and> ci_PodRequestCPU inp' = ci_PodRequestCPU inp
     \<and> ci_PodRequestMemory inp' = ci_PodRequestMemory inp"

definition blocked :: "cap_input \<Rightarrow> bool" where
  "blocked inp \<longleftrightarrow> (\<exists>e\<in>set (ci_ObservationErrors inp). capacityObservationDomain e \<notin> {ObsPDBs, ObsClusterAutoscaler})"

lemma later_input_trans: "later_input a b \<Longrightarrow> later_input b c \<Longrightarrow> later_input a c"
  by (auto simp: later_input_def)

lemma blocked_later: "blocked a \<Longrightarrow> later_input a b \<Longrightarrow> blocked b"
  by (auto simp: blocked_def later_input_def)

lemma blocked_add: "domain \<notin> {[], ObsPDBs, ObsClusterAutoscaler} \<Longrightarrow> blocked (addCapacityObservationError domain source (Some e) inp)"
  by (auto simp: blocked_def addCapacityObservationError_def capacityObservationDomain_def)

lemma later_add: "later_input inp (addCapacityObservationError domain source e inp)"
  "ci_NodeCapacity (addCapacityObservationError domain source e inp) = ci_NodeCapacity inp"
  by (auto simp: later_input_def addCapacityObservationError_def split: option.splits)

lemma later_refl: "later_input inp inp"
  by (simp add: later_input_def)

lemma later_nodes: "later_input inp inp1 \<Longrightarrow> later_input inp (inp1\<lparr>ci_NodeCapacity := nc\<rparr>)"
  by (simp add: later_input_def)

lemma later_collected: "later_input inp (collectCapacityQuotas K v inp)" "later_input inp (collectCapacityLimitRanges K v inp)"
  "later_input inp (collectCapacityPDBs v inp)" "later_input inp (collectCapacityAutoscaler v inp)"
  "ci_NodeCapacity (collectCapacityPDBs v inp) = ci_NodeCapacity inp" "ci_NodeCapacity (collectCapacityAutoscaler v inp) = ci_NodeCapacity inp"
  by (auto simp: collectCapacityQuotas_def collectCapacityLimitRanges_def collectCapacityPDBs_def collectCapacityAutoscaler_def later_add
      later_input_def addCapacityObservationError_def split: sum.splits)

lemma headroom_collected:
  assumes "collectCapacityClusterHeadroom K tolerates v podSpec inp = Some inp'" "\<not> blocked inp'"
  shows "later_input inp inp' \<and> (\<exists>nodes pages s h. cv_Nodes v = (nodes, None) \<and> cv_PodPages v = (pages, None)
    \<and> FetchClusterResourceSnapshot K (nodes, None) (pages, None) = (s, None) \<and> HeadroomForPod K tolerates s podSpec = Some h
    \<and> ci_NodeCapacity inp' = Some (node_summary K h))"
proof -
  obtain s err where f: "FetchClusterResourceSnapshot K (cv_Nodes v) (cv_PodPages v) = (s, err)" by (cases "FetchClusterResourceSnapshot K (cv_Nodes v) (cv_PodPages v)")
  have ok: "err = None"
  proof (rule ccontr)
    assume "err \<noteq> None"
    then show False using assms blocked_add by (auto simp: collectCapacityClusterHeadroom_def Let_def f)
  qed
  moreover obtain nodes e1 where n: "cv_Nodes v = (nodes, e1)" by (cases "cv_Nodes v")
  moreover obtain pages e2 where p: "cv_PodPages v = (pages, e2)" by (cases "cv_PodPages v")
  ultimately have "e1 = None" "e2 = None" using f by (auto simp: FetchClusterResourceSnapshot_def Let_def split: option.splits)
  then have fetch: "FetchClusterResourceSnapshot K (nodes, None) (pages, None) = (s, None)" using f ok n p by simp
  let ?cs = "UnmodeledPodSchedulingConstraints K podSpec"
  let ?inp1 = "if ?cs \<noteq> [] then addCapacityObservationError ObsNodeCapacity ''target Pod scheduling''
      (Some (plain_err (''current capacity model cannot evaluate '' @ join_str '', '' ?cs))) inp else inp"
  have "map_option (\<lambda>h. ?inp1\<lparr>ci_NodeCapacity := Some (node_summary K h)\<rparr>) (HeadroomForPod K tolerates s podSpec) = Some inp'"
    using assms(1) unfolding collectCapacityClusterHeadroom_def Let_def f ok prod.case option.case .
  then obtain h where h: "HeadroomForPod K tolerates s podSpec = Some h" "inp' = ?inp1\<lparr>ci_NodeCapacity := Some (node_summary K h)\<rparr>"
    unfolding map_option_eq_Some by blast
  have "ci_NodeCapacity inp' = Some (node_summary K h)" unfolding h(2) by simp
  moreover have "later_input inp ?inp1" using later_add(1) later_refl by (simp only: if_split) blast
  then have "later_input inp inp'" unfolding h(2) by (rule later_nodes)
  ultimately show ?thesis using h(1) fetch n p \<open>e1 = None\<close> \<open>e2 = None\<close> by blast
qed

lemma target_collected:
  assumes "collectScaleTargetCapacity K kind name v inp = (inp', podSpec)" "\<not> blocked inp'"
  shows "\<exists>info spec rr. cv_Target v = Inr (Some info) \<and> st_PodTemplate info = Some spec \<and> podSpec = Some spec
    \<and> ResourceRequestsFromPodTemplate K (Some spec) = Some rr \<and> ci_ContainerResources inp' = convertToCapacityContainerResources rr
    \<and> ci_PodRequestCPU inp' = text_at (rr_PodRequests rr) ''cpu'' \<and> ci_PodRequestMemory inp' = text_at (rr_PodRequests rr) ''memory''"
proof -
  obtain info where t: "cv_Target v = Inr (Some info)"
  proof (cases "cv_Target v")
    case (Inl e)
    then show ?thesis using assms blocked_add by (auto simp: collectScaleTargetCapacity_def Let_def ScaleTarget_def)
  next
    case (Inr i)
    then show ?thesis using assms blocked_add that by (cases i) (auto simp: collectScaleTargetCapacity_def Let_def ScaleTarget_def)
  qed
  let ?inp1 = "collectScaleTargetResources K info kind name inp"
  have l: "later_input ?inp1 inp' \<and> podSpec = st_PodTemplate info"
    using assms(1) later_add(1) [where inp = ?inp1]
    by (auto simp: collectScaleTargetCapacity_def Let_def ScaleTarget_def t later_input_def mapValue_def split: if_splits observed.splits)
  obtain rr where rr: "ResourceRequestsFromPodTemplate K (st_PodTemplate info) = Some rr"
  proof (cases "ResourceRequestsFromPodTemplate K (st_PodTemplate info)")
    case None
    then have "blocked ?inp1" by (auto simp: collectScaleTargetResources_def intro!: blocked_add)
    then show ?thesis using blocked_later l assms(2) by blast
  qed
  then obtain spec where "st_PodTemplate info = Some spec" by (cases "st_PodTemplate info") (auto simp: ResourceRequestsFromPodTemplate_def)
  then show ?thesis using t l rr by (auto simp: later_input_def collectScaleTargetResources_def)
qed

subsection \<open>The guarantee\<close>

text \<open>What is assumed of the server's answers: quantities of pods are not negative, names of nodes are unique, counts are counts.\<close>

definition view_ok :: "('q, 's) k8s_arith \<Rightarrow> ('q \<Rightarrow> rat) \<Rightarrow> ('q, 't) cluster_view \<Rightarrow> bool" where
  "view_ok K num v \<longleftrightarrow>
     (case cv_Target v of Inr (Some info) \<Rightarrow> (case st_PodTemplate info of Some spec \<Rightarrow> pod_ok num spec | None \<Rightarrow> True) | _ \<Rightarrow> True)
   \<and> distinct (map nd_Name (fst (cv_Nodes v))) \<and> int (length (fst (cv_Nodes v))) \<le> max_int32
   \<and> int (length (concat (fst (cv_PodPages v)))) \<le> max_int64
   \<and> (\<forall>n\<in>set (fst (cv_Nodes v)). \<forall>q. map_of (nd_Allocatable n) ''pods'' = Some q \<longrightarrow> 0 \<le> q_value K q \<and> q_value K q \<le> max_int64)"

definition placement :: "('q, 's) k8s_arith \<Rightarrow> ('q \<Rightarrow> rat) \<Rightarrow> ('t \<Rightarrow> taint \<Rightarrow> bool) \<Rightarrow> 'q node list \<Rightarrow> ('q, 't) pod list
    \<Rightarrow> ('q, 't) pod_spec \<Rightarrow> int \<Rightarrow> bool" where
  "placement K num tolerates nodes pods spec n \<longleftrightarrow>
     (\<exists>ks. list_all2 (node_takes K num pods (EffectivePodRequests K (materializePodSpec K spec))) (eligible_nodes tolerates nodes (Some spec)) ks
        \<and> sum_list ks = n)"

lemma amount_demand_nonneg: "quantity_laws K num \<Longrightarrow> pod_ok num spec \<Longrightarrow> 0 \<le> amount num (EffectivePodRequests K (materializePodSpec K spec)) n"
  unfolding EffectivePodRequests_def by (intro amount_nonneg rl_ok_effective pod_ok_materialize)

lemma list_all2_chain:
  assumes "list_all2 P xs ys" "list_all2 Q ys zs" "\<And>x y z. x \<in> set xs \<Longrightarrow> P x y \<Longrightarrow> Q y z \<Longrightarrow> R x z"
  shows "list_all2 R xs zs"
proof (rule list_all2_all_nthI)
  show l: "length xs = length zs" using assms(1,2) by (simp add: list_all2_lengthD)
  fix i assume "i < length xs"
  then show "R (xs ! i) (zs ! i)"
    using assms(1,2) l by (intro assms(3) [of _ "ys ! i"]) (simp_all add: list_all2_conv_all_nth)
qed

lemma nodes_allow_placement:
  assumes "quantity_laws K num" "text_laws K num" "pod_ok num spec"
    and "distinct (map nd_Name nodes)" "int (length nodes) \<le> max_int32" "int (length (concat pages)) \<le> max_int64"
    and "\<And>n q. n \<in> set nodes \<Longrightarrow> map_of (nd_Allocatable n) ''pods'' = Some q \<Longrightarrow> 0 \<le> q_value K q \<and> q_value K q \<le> max_int64"
    and "FetchClusterResourceSnapshot K (nodes, None) (pages, None) = (s, None)" "HeadroomForPod K tolerates s (Some spec) = Some h"
    and "num (cd_perPodCPU d) = amount num (EffectivePodRequests K (materializePodSpec K spec)) ''cpu''"
    and "num (cd_perPodMemory d) = amount num (EffectivePodRequests K (materializePodSpec K spec)) ''memory''"
    and "nodes_allow K num d n (node_summary K h)" "0 \<le> n"
  shows "placement K num tolerates nodes (concat pages) spec n"
proof -
  let ?fit = "eligible_nodes tolerates nodes (Some spec)" and ?req = "EffectivePodRequests K (materializePodSpec K spec)"
  obtain h' where "HeadroomForPod K tolerates s (Some spec) = Some h'"
    "list_all2 (room_of K num (concat pages)) ?fit (ch_NodeHeadrooms h')"
    using headroom_facts [OF assms(1,4,6,8), of tolerates "Some spec"] by blast
  then have rooms: "list_all2 (room_of K num (concat pages)) ?fit (ch_NodeHeadrooms h)" using assms(9) by simp
  have cap: "ch_NodeCapacity h = summarizeNodeCapacityForPod K tolerates nodes (Some spec)"
    "ch_PodCapacityKnown h = ni_PodCapacityKnown (summarizeNodeCapacityForPod K tolerates nodes (Some spec))"
    using assms(8,9) by (auto simp: HeadroomForPod_def FetchClusterResourceSnapshot_def Let_def split: if_splits)
  have sched: "ni_SchedulableNodes (summarizeNodeCapacityForPod K tolerates nodes (Some spec)) = int (length ?fit)"
    using assms(5) by (simp add: summarizeNodeCapacityForPod_def Let_def summary_schedulable)
  have ne: "?fit \<noteq> []" using assms(12) by (auto simp: nodes_allow_def noSchedulableNodes_def node_summary_def Let_def cap sched split: if_splits)
  then have known: "\<forall>m\<in>set ?fit. map_of (nd_Allocatable m) ''pods'' \<noteq> None"
    using assms(12) sched by (auto simp: nodes_allow_def node_summary_def Let_def cap summarizeNodeCapacityForPod_def eligible_nodes_def
        list_all_iff split: if_splits)
  let ?nh = "\<lambda>r. \<lparr>nh_Name = nr_Name r, nh_AvailableCPU = q_string K (nr_AvailableCPU r), nh_AvailableMemory = q_string K (nr_AvailableMemory r),
      nh_PodCapacityKnown = nr_PodCapacityKnown r, nh_AvailablePods = nr_AvailablePods r\<rparr>"
  have heads: "nc_NodeHeadrooms (node_summary K h) = map ?nh (ch_NodeHeadrooms h)" by (simp add: node_summary_def Let_def)
  have "ch_NodeHeadrooms h \<noteq> []" using rooms ne by auto
  then have "n \<le> (\<Sum>r\<leftarrow>ch_NodeHeadrooms h. max 0 (node_fit K (cd_perPodCPU d) (cd_perPodMemory d) (?nh r)))"
    using assms(12) by (simp add: nodes_allow_def heads o_def)
  from spread [OF this assms(13)] obtain ks where ks: "sum_list ks = n"
    "list_all2 (\<lambda>r k. 0 \<le> k \<and> k \<le> max 0 (node_fit K (cd_perPodCPU d) (cd_perPodMemory d) (?nh r))) (ch_NodeHeadrooms h) ks" by blast
  have pos: "0 \<le> num (cd_perPodCPU d)" "0 \<le> num (cd_perPodMemory d)"
    unfolding assms(10,11) by (simp_all add: amount_demand_nonneg [OF assms(1,3)])
  have takes: "node_takes K num (concat pages) ?req m k"
    if "m \<in> set ?fit" "room_of K num (concat pages) m r" "0 \<le> k \<and> k \<le> max 0 (node_fit K (cd_perPodCPU d) (cd_perPodMemory d) (?nh r))" for m r k
  proof (rule node_takes_fit [OF assms(1,2) that(2) _ assms(10,11) pos _ assms(6)])
    show "nr_PodCapacityKnown r" using that(1,2) known by (simp add: room_of_def Let_def)
    show "0 \<le> q_value K q \<and> q_value K q \<le> max_int64" if "map_of (nd_Allocatable m) ''pods'' = Some q" for q
      using assms(7) [of m q] that \<open>m \<in> set ?fit\<close> by (simp add: eligible_nodes_def)
    show "0 \<le> k" "k \<le> max 0 (node_fit K (cd_perPodCPU d) (cd_perPodMemory d) (?nh r))" using that(3) by simp_all
  qed simp_all
  have "list_all2 (node_takes K num (concat pages) ?req) ?fit ks"
    by (rule list_all2_chain [OF rooms ks(2)]) (rule takes)
  then show ?thesis using ks(1) by (auto simp: placement_def)
qed

text \<open>C4. A capacity plan that calls itself safe can be carried out on the cluster it was drawn from: the scale target, the nodes and
  the pods were read completely, and the additional pods can be spread over the eligible nodes so that on every node that takes
  some the effective requests of the bound pods and of the new ones stay within the allocatable CPU and memory, and the pods within the pod slots.\<close>

theorem safe_plan_places:
  assumes "quantity_laws K num" "text_laws K num" "view_ok K num v"
    and "assembleCapacityPlanInput K tolerates kind name v (plan_input ns hpa target current maxReplicas targetMax) = Some inp"
    and "plan = AnalyzeCapacityPlan K inp" "cp_Safe plan"
  shows "\<exists>info spec nodes pages. cv_Target v = Inr (Some info) \<and> st_PodTemplate info = Some spec
    \<and> cv_Nodes v = (nodes, None) \<and> cv_PodPages v = (pages, None)
    \<and> placement K num tolerates nodes (concat pages) spec (cp_AdditionalPods plan)"
proof -
  define demand where "demand = computeCapacityDemand K inp (cp_AdditionalPods plan) False"
  note facts = safe_plan_facts [OF assms(1,5,6) demand_def]
  then have free: "\<not> blocked inp" by (simp add: blocked_def observed_input_def)
  obtain inp1 podSpec where i1: "collectScaleTargetCapacity K kind name v (plan_input ns hpa target current maxReplicas targetMax) = (inp1, podSpec)"
    by (metis prod.exhaust)
  let ?inp2 = "collectCapacityLimitRanges K v (collectCapacityQuotas K v inp1)"
  obtain inp3 where i3: "collectCapacityClusterHeadroom K tolerates v podSpec ?inp2 = Some inp3" "inp = collectCapacityAutoscaler v (collectCapacityPDBs v inp3)"
    using assms(4) by (auto simp: assembleCapacityPlanInput_def Let_def i1)
  have l3: "later_input inp3 inp" unfolding i3(2) by (rule later_input_trans [OF later_collected(3) later_collected(4)])
  have b3: "\<not> blocked inp3" using free l3 blocked_later by blast
  obtain nodes pages s h where h: "later_input ?inp2 inp3" "cv_Nodes v = (nodes, None)" "cv_PodPages v = (pages, None)"
    "FetchClusterResourceSnapshot K (nodes, None) (pages, None) = (s, None)" "HeadroomForPod K tolerates s podSpec = Some h"
    "ci_NodeCapacity inp3 = Some (node_summary K h)"
    using headroom_collected [OF i3(1) b3] by blast
  have l1: "later_input inp1 inp" 
    by (rule later_input_trans [OF later_input_trans [OF later_collected(1) later_collected(2)] later_input_trans [OF h(1) l3]])
  have "\<not> blocked inp1" using free l1 blocked_later by blast
  from target_collected [OF i1 this] obtain info spec rr where t: "cv_Target v = Inr (Some info)" "st_PodTemplate info = Some spec"
    "podSpec = Some spec" "ResourceRequestsFromPodTemplate K (Some spec) = Some rr" "ci_ContainerResources inp1 = convertToCapacityContainerResources rr"
    "ci_PodRequestCPU inp1 = text_at (rr_PodRequests rr) ''cpu''" "ci_PodRequestMemory inp1 = text_at (rr_PodRequests rr) ''memory''" by blast
  have ok: "pod_ok num spec" using assms(3) t(1,2) by (simp add: view_ok_def)
  have "num (fst (effectivePerPodResources K inp)) = amount num (EffectivePodRequests K (materializePodSpec K spec)) ''cpu''
    \<and> num (snd (effectivePerPodResources K inp)) = amount num (EffectivePodRequests K (materializePodSpec K spec)) ''memory''"
    using l1 t(5-7) by (intro per_pod_demand [OF assms(1,2) ok refl t(4)]) (simp_all add: later_input_def)
  then have d: "num (cd_perPodCPU demand) = amount num (EffectivePodRequests K (materializePodSpec K spec)) ''cpu''"
    "num (cd_perPodMemory demand) = amount num (EffectivePodRequests K (materializePodSpec K spec)) ''memory''"
    by (simp_all add: demand_def computeCapacityDemand_def case_prod_beta)
  have "ci_NodeCapacity inp = Some (node_summary K h)" unfolding i3(2) later_collected(5,6) h(6) ..
  then have allow: "nodes_allow K num demand (cp_AdditionalPods plan) (node_summary K h)" using facts by simp
  have "0 \<le> cp_AdditionalPods plan" unfolding assms(5) plan_fields [OF refl refl refl refl] by (rule additional_range)
  then have "placement K num tolerates nodes (concat pages) spec (cp_AdditionalPods plan)"
    using assms(3) h(2,3) by (intro nodes_allow_placement [OF assms(1,2) ok _ _ _ _ h(4) h(5) [unfolded t(3)] d allow]) (auto simp: view_ok_def)
  then show ?thesis using t(1,2) h(2,3) by blast
qed

subsection \<open>Samples\<close>

definition wide_parse :: "string \<Rightarrow> string + int" where
  "wide_parse s = (case (if take 1 s = ''-'' then map_option uminus (parse_nat (tl s)) else parse_nat s) of
     None \<Rightarrow> Inl ''quantities must match the regular expression'' | Some n \<Rightarrow> Inr n)"

definition wide_arith :: "(int, string) k8s_arith" where
  "wide_arith = int_arith\<lparr>q_parse := wide_parse\<rparr>"

lemma wide_arith_laws: "quantity_laws wide_arith of_int"
  using int_arith_laws by (simp add: quantity_laws_def wide_arith_def)

lemma wide_arith_texts: "text_laws wide_arith of_int"
proof -
  have "wide_parse (show_int n) = Inr n" for n
  proof (cases "n < 0")
    case True
    then show ?thesis by (simp add: wide_parse_def show_int_def)
  next
    case False
    then have "is_digit (hd (digits_of n))" using digits_of_hd by simp
    moreover have "\<not> is_digit (CHR ''-'')" by code_simp
    ultimately have "take 1 (digits_of n) \<noteq> ''-''" by (cases "digits_of n") auto
    then show ?thesis using False by (simp add: wide_parse_def show_int_def)
  qed
  then show ?thesis by (simp add: text_laws_def wide_arith_def int_arith_def int_lib_def k8s_lib.extend_def k8s_arith.fields_def show_int_def)
qed

definition sample_view :: "(int, unit) cluster_view" where
  "sample_view = \<lparr>cv_Target = Inr (Some \<lparr>st_PodTemplate = Some (sample_spec None), st_SelectorStr = ''app=web''\<rparr>),
     cv_Pods = Inr [sample_bound ''a'' ''Running''], cv_Quotas = Inr [], cv_LimitRanges = Inr [], cv_Nodes = (sample_nodes, None),
     cv_PodPages = (sample_pages, None), cv_PDBs = Inr [], cv_Autoscaler = Inr False\<rparr>"

definition sample_plan_input :: cap_input where
  "sample_plan_input = the (assembleCapacityPlanInput wide_arith (\<lambda>_ _. False) ''Deployment'' ''web'' sample_view
     (plan_input ''ns'' ''web'' ''Deployment/web'' 2 2 5))"

lemma sample_plan_assembled: "assembleCapacityPlanInput wide_arith (\<lambda>_ _. False) ''Deployment'' ''web'' sample_view
     (plan_input ''ns'' ''web'' ''Deployment/web'' 2 2 5) = Some sample_plan_input"
proof -
  have "assembleCapacityPlanInput wide_arith (\<lambda>_ _. False) ''Deployment'' ''web'' sample_view
     (plan_input ''ns'' ''web'' ''Deployment/web'' 2 2 5) \<noteq> None" by code_simp
  then show ?thesis by (simp add: sample_plan_input_def)
qed

lemma sample_plan_safe: "cp_Safe (AnalyzeCapacityPlan wide_arith sample_plan_input) \<and> cp_AdditionalPods (AnalyzeCapacityPlan wide_arith sample_plan_input) = 3"
  by code_simp

lemma sample_view_ok: "view_ok wide_arith of_int sample_view"
  by (simp add: view_ok_def sample_view_def sample_nodes_def sample_node_def sample_pages_def pod_ok_def rl_ok_def sample_spec_def
      sample_container_def wide_arith_def int_arith_def k8s_lib.extend_def k8s_arith.fields_def)

theorem safe_plan_places_witness:
  "placement wide_arith of_int (\<lambda>_ _. False) sample_nodes (concat sample_pages) (sample_spec None) 3"
  using safe_plan_places [OF wide_arith_laws wide_arith_texts sample_view_ok sample_plan_assembled refl] sample_plan_safe
  by (auto simp: sample_view_def)

end
