(* ===== verification/KubeList.thy ===== *)
theory KubeList
  imports KubeApi
begin

section \<open>Paginated listings\<close>

text \<open>
  \<open>internal/kube/pagination.go\<close> and \<open>retry.go\<close>: every listing of the API server is read page by page, each page
  with a few retries, and a repeated continue token ends the walk. The server, the clock and the
  context are the record \<open>api_env\<close> over a state \<open>'w\<close> of the world; \<open>ae_wait\<close> is the outcome of the
  \<open>select\<close> between the context and the timer. The classification of errors is that of the Kubernetes library.
\<close>

record ('w, 'a) api_env =
  ae_list :: "'w \<Rightarrow> int \<Rightarrow> string \<Rightarrow> (go_error + 'a list \<times> string) \<times> 'w"   \<comment> \<open>limit and continue token; items and next token\<close>
  ae_wait :: "'w \<Rightarrow> int \<Rightarrow> go_error option \<times> 'w"                      \<comment> \<open>the error of a cancelled context\<close>
  ae_rand :: "'w \<Rightarrow> int"                                             \<comment> \<open>\<open>rand.N(transientRetryJitter)\<close>\<close>
  ae_kinds :: "go_error \<Rightarrow> string list"                              \<comment> \<open>which predicates of \<open>apierrors\<close> hold\<close>
  ae_netTimeout :: "go_error \<Rightarrow> bool option"                         \<comment> \<open>\<open>errors.As\<close> a \<open>net.Error\<close>, and its \<open>Timeout()\<close>\<close>
  ae_retryAfter :: "go_error \<Rightarrow> int option"                          \<comment> \<open>\<open>RetryAfterSeconds\<close> of a status error with details\<close>

definition transientRetryAttempts :: nat where "transientRetryAttempts = 3"
definition transientRetryBaseWait :: int where "transientRetryBaseWait = 200 * 1000000"
definition transientRetryJitter :: int where "transientRetryJitter = 100 * 1000000"
definition transientRetryMaxWait :: int where "transientRetryMaxWait = 5 * 1000000000"
definition defaultListPageSize :: int where "defaultListPageSize = 500"

subsection \<open>Retries\<close>

definition isTransientAPIError :: "('w, 'a) api_env \<Rightarrow> go_error \<Rightarrow> bool" where
  "isTransientAPIError E err =
     (list_ex (\<lambda>k. k \<in> {''TooManyRequests'', ''InternalError'', ''ServiceUnavailable'', ''ServerTimeout'', ''Timeout''}) (ae_kinds E err)
      \<or> ae_netTimeout E err = Some True)"

definition retryAfterFrom :: "('w, 'a) api_env \<Rightarrow> go_error \<Rightarrow> int" where
  "retryAfterFrom E err = (case ae_retryAfter E err of None \<Rightarrow> 0 | Some secs \<Rightarrow> if secs > 0 then wrap64 (secs * 1000000000) else 0)"

definition retryWait :: "('w, 'a) api_env \<Rightarrow> 'w \<Rightarrow> int \<Rightarrow> go_error \<Rightarrow> int" where
  "retryWait E w attempt cause =
     (let wait = transientRetryBaseWait * attempt + ae_rand E w; after = retryAfterFrom E cause
      in if after > wait then (if after > transientRetryMaxWait then transientRetryMaxWait else after) else wait)"

text \<open>The attempts that are left, and the error of the last one; the first has none.\<close>

fun retry_loop :: "('w, 'a) api_env \<Rightarrow> ('w \<Rightarrow> (go_error + 'b) \<times> 'w) \<Rightarrow> nat \<Rightarrow> int \<Rightarrow> go_error \<Rightarrow> 'w \<Rightarrow> (go_error + 'b) \<times> 'w" where
  "retry_loop E fn 0 attempt err w = (Inl err, w)"
| "retry_loop E fn (Suc left) attempt err w =
     (case (if attempt > 0 then ae_wait E w (retryWait E w attempt err) else (None, w)) of
        (Some cancelled, w1) \<Rightarrow> (Inl cancelled, w1)
      | (None, w1) \<Rightarrow> (case fn w1 of
            (Inr v, w2) \<Rightarrow> (Inr v, w2)
          | (Inl e, w2) \<Rightarrow> if isTransientAPIError E e then retry_loop E fn left (attempt + 1) e w2 else (Inl e, w2)))"

definition retryTransient :: "('w, 'a) api_env \<Rightarrow> ('w \<Rightarrow> (go_error + 'b) \<times> 'w) \<Rightarrow> 'w \<Rightarrow> (go_error + 'b) \<times> 'w" where
  "retryTransient E fn w = retry_loop E fn transientRetryAttempts 0 (plain_err []) w"

subsection \<open>Pages\<close>

definition repeated_token :: "string \<Rightarrow> go_error" where
  "repeated_token what = plain_err (what @ '': server returned a repeated continue token'')"

text \<open>The visitor carries a state \<open>'s\<close> and may stop the walk. \<open>seen\<close> holds the tokens that were followed.\<close>

partial_function (option) visit_loop :: "('w, 'a) api_env \<Rightarrow> int \<Rightarrow> ('s \<Rightarrow> 'a list \<Rightarrow> go_error option \<times> 's) \<Rightarrow> string list \<Rightarrow> string \<Rightarrow> 's \<Rightarrow> 'w
    \<Rightarrow> (go_error option \<times> 's \<times> 'w) option" where
  "visit_loop E limit visit seen token s w =
     (case retryTransient E (\<lambda>w. ae_list E w limit token) w of
        (Inl err, w1) \<Rightarrow> Some (Some err, s, w1)
      | (Inr (items, next_token), w1) \<Rightarrow> (case visit s items of
            (Some err, s1) \<Rightarrow> Some (Some err, s1, w1)
          | (None, s1) \<Rightarrow>
              if next_token = [] then Some (None, s1, w1)
              else if next_token \<in> set seen then Some (Some (repeated_token ''paginated list''), s1, w1)
              else visit_loop E limit visit (next_token # seen) next_token s1 w1))"

definition visitListPages :: "('w, 'a) api_env \<Rightarrow> int \<Rightarrow> ('s \<Rightarrow> 'a list \<Rightarrow> go_error option \<times> 's) \<Rightarrow> 's \<Rightarrow> 'w \<Rightarrow> (go_error option \<times> 's \<times> 'w) option" where
  "visitListPages E limit visit s w = visit_loop E (if limit \<le> 0 then defaultListPageSize else limit) visit [] [] s w"

definition collect_visit :: "'a list \<Rightarrow> 'a list \<Rightarrow> go_error option \<times> 'a list" where
  "collect_visit all items = (None, all @ items)"

definition collectListPages :: "('w, 'a) api_env \<Rightarrow> int \<Rightarrow> 'w \<Rightarrow> ('a list \<times> go_error option \<times> 'w) option" where
  "collectListPages E limit w = map_option (\<lambda>(err, all, w1). (all, err, w1))
     (visitListPages E limit collect_visit [] w)"

subsection \<open>Waiting is bounded\<close>

lemma retryWait_bounds:
  assumes "0 \<le> ae_rand E w" "ae_rand E w < transientRetryJitter" "1 \<le> attempt" "attempt \<le> 2"
  shows "200000000 \<le> retryWait E w attempt err \<and> retryWait E w attempt err \<le> 5000000000"
  using assms by (auto simp: retryWait_def Let_def transientRetryBaseWait_def transientRetryJitter_def transientRetryMaxWait_def)

subsection \<open>The walk ends\<close>

lemma retry_answer:
  assumes "\<And>w v w'. fn w = (Inr v, w') \<Longrightarrow> P v"
  shows "retry_loop E fn left attempt err w = (Inr v, w') \<Longrightarrow> P v"
  by (induction left arbitrary: attempt err w) (auto split: prod.splits option.splits sum.splits if_splits dest: assms)

lemma page_answer:
  assumes "\<And>w items next_token w'. ae_list E w limit token = (Inr (items, next_token), w') \<Longrightarrow> P items next_token"
    and "retryTransient E (\<lambda>w. ae_list E w limit token) w = (Inr (items, next_token), w')"
  shows "P items next_token"
  using retry_answer [of "\<lambda>w. ae_list E w limit token" "\<lambda>(items, next_token). P items next_token"] assms
  unfolding retryTransient_def by (metis (mono_tags, lifting) case_prodI2 prod.case)

lemma visit_ends:
  assumes "finite T" "\<And>w token items next_token w'. ae_list E w limit token = (Inr (items, next_token), w') \<Longrightarrow> next_token \<in> insert [] T"
  shows "set seen \<subseteq> T \<Longrightarrow> \<exists>r. visit_loop E limit visit seen token s w = Some r"
proof (induction "card (T - set seen)" arbitrary: seen token s w rule: less_induct)
  case less
  obtain r w1 where r: "retryTransient E (\<lambda>w. ae_list E w limit token) w = (r, w1)" by (metis prod.exhaust)
  show ?case
  proof (cases r)
    case (Inl err)
    then show ?thesis using r by (subst visit_loop.simps) simp
  next
    case (Inr page)
    obtain items nxt where page: "page = (items, nxt)" by (cases page)
    have "retryTransient E (\<lambda>w. ae_list E w limit token) w = (Inr (items, nxt), w1)" using r Inr page by simp
    then have t: "nxt \<in> insert [] T" by (rule page_answer [where P = "\<lambda>_ n. n \<in> insert [] T", rotated]) (rule assms(2))
    obtain e s1 where v: "visit s items = (e, s1)" by (metis prod.exhaust)
    show ?thesis
    proof (cases "e = None \<and> nxt \<noteq> [] \<and> nxt \<notin> set seen")
      case True
      have "card (T - set (nxt # seen)) < card (T - set seen)"
        using True t assms(1) by (intro psubset_card_mono) auto
      then have "\<exists>r. visit_loop E limit visit (nxt # seen) nxt s1 w1 = Some r" using less True t by simp
      then show ?thesis using True r Inr page v by (subst visit_loop.simps) simp
    next
      case False
      then show ?thesis using r Inr page v by (subst visit_loop.simps) (auto split: option.splits)
    qed
  qed
qed

text \<open>C25. A listing ends whenever the server hands out finitely many continue tokens, however it repeats them and whatever fails.\<close>

theorem listing_ends:
  assumes "finite T" "\<And>w token items next_token w'. ae_list E w (if limit \<le> 0 then defaultListPageSize else limit) token = (Inr (items, next_token), w')
      \<Longrightarrow> next_token \<in> insert [] T"
  shows "\<exists>r. visitListPages E limit visit s w = Some r"
  unfolding visitListPages_def by (rule visit_ends [OF assms]) simp_all

subsection \<open>A listing without an error is complete\<close>

text \<open>
  A server that answers consistently: whenever it answers for a token, it gives the page \<open>f token\<close>. The
  chain of tokens starts with the empty one, each page names the next, the last names none.
\<close>

definition token_chain :: "(string \<Rightarrow> 'a list \<times> string) \<Rightarrow> string list \<Rightarrow> bool" where
  "token_chain f ts \<longleftrightarrow> ts \<noteq> [] \<and> successively (\<lambda>a b. snd (f a) = b) ts \<and> snd (f (last ts)) = []"

lemma token_chain_Cons: "token_chain f ts \<Longrightarrow> hd ts = snd (f t) \<Longrightarrow> token_chain f (t # ts)"
  by (cases ts) (auto simp: token_chain_def)

lemma visit_chain:
  assumes "\<And>w token page w'. ae_list E w limit token = (Inr page, w') \<Longrightarrow> page = f token"
  shows "visit_loop E' limit' V seen token all w = Some r \<Longrightarrow> E' = E \<Longrightarrow> limit' = limit \<Longrightarrow> V = collect_visit \<Longrightarrow> fst r = None \<Longrightarrow>
    \<exists>ts. token_chain f ts \<and> hd ts = token \<and> distinct (tl ts) \<and> set (tl ts) \<inter> insert [] (set seen) = {}
      \<and> fst (snd r) = all @ concat (map (\<lambda>t. fst (f t)) ts)"
proof (induct rule: visit_loop.raw_induct [rotated, consumes 1])
  case (1 rec E' limit' V seen token all w r)
  note ih = 1(1) and step = 1(2) [unfolded 1(3-5)] and fin = 1(6)
  obtain page w1 where p: "retryTransient E (\<lambda>w. ae_list E w limit token) w = (Inr page, w1)"
    using step fin by (cases "retryTransient E (\<lambda>w. ae_list E w limit token) w") (auto split: sum.splits)
  have "page = f token"
    by (rule retry_answer [OF _ p [unfolded retryTransient_def], where P = "\<lambda>v. v = f token"]) (rule assms)
  then obtain items nxt where f: "f token = (items, nxt)" "page = (items, nxt)" by (metis prod.exhaust)
  show ?case
  proof (cases "nxt = []")
    case True
    then have "r = (None, all @ items, w1)" using step p f by (simp add: collect_visit_def)
    then show ?thesis using f True by (intro exI [of _ "[token]"]) (simp add: token_chain_def)
  next
    case False
    then have "nxt \<notin> set seen" "rec E limit collect_visit (nxt # seen) nxt (all @ items) w1 = Some r"
      using step p f fin by (auto simp: collect_visit_def split: if_splits)
    then obtain ts where ts: "token_chain f ts" "hd ts = nxt" "distinct (tl ts)" "set (tl ts) \<inter> insert [] (set (nxt # seen)) = {}"
      "fst (snd r) = (all @ items) @ concat (map (\<lambda>t. fst (f t)) ts)"
      using ih [OF _ refl refl refl fin] by blast
    have "ts = nxt # tl ts" using ts(1,2) by (cases ts) (auto simp: token_chain_def)
    then have "set ts = insert nxt (set (tl ts))" "distinct ts" using ts(3,4) by (metis list.simps(15), metis distinct.simps(2) disjoint_iff insertI2 list.set_intros(1) insert_iff)
    then show ?thesis using ts f False \<open>nxt \<notin> set seen\<close> token_chain_Cons [OF ts(1), of token]
      by (intro exI [of _ "token # ts"]) auto
  qed
qed

text \<open>C19. A listing that reports no error is complete: it holds the items of every page of the chain, in order and each page once,
  whatever transient failures were retried on the way.\<close>

theorem listing_complete:
  assumes "\<And>w token page w'. ae_list E w (if limit \<le> 0 then defaultListPageSize else limit) token = (Inr page, w') \<Longrightarrow> page = f token"
    and "collectListPages E limit w = Some (items, None, w')"
  shows "\<exists>ts. token_chain f ts \<and> hd ts = [] \<and> distinct ts \<and> items = concat (map (\<lambda>t. fst (f t)) ts)"
proof -
  have v: "visit_loop E (if limit \<le> 0 then defaultListPageSize else limit) collect_visit [] [] [] w = Some (None, items, w')"
    using assms(2) by (auto simp: collectListPages_def visitListPages_def)
  obtain ts where ts: "token_chain f ts" "hd ts = []" "distinct (tl ts)" "set (tl ts) \<inter> insert [] {} = {}" "items = concat (map (\<lambda>t. fst (f t)) ts)"
    using visit_chain [where f = f, OF _ v refl refl refl] assms(1) by auto
  then have "distinct ts" by (cases ts) (auto simp: token_chain_def)
  then show ?thesis using ts by blast
qed

subsection \<open>Samples\<close>

text \<open>A server of two pages that is busy at first.\<close>

definition sample_page :: "string \<Rightarrow> int list \<times> string" where
  "sample_page token = (if token = [] then ([1, 2], ''next'') else ([3], []))"

definition sample_api :: "(nat, int) api_env" where
  "sample_api = \<lparr>ae_list = (\<lambda>w limit token. (if w = 0 then Inl (plain_err ''busy'') else Inr (sample_page token), Suc w)),
     ae_wait = (\<lambda>w d. (None, w)), ae_rand = (\<lambda>w. 0), ae_kinds = (\<lambda>e. [''TooManyRequests'']), ae_netTimeout = (\<lambda>e. None),
     ae_retryAfter = (\<lambda>e. Some 60)\<rparr>"

lemma sample_pages_read: "collectListPages sample_api 0 0 = Some ([1, 2, 3], None, 3)"
proof -
  have first: "retryTransient sample_api (\<lambda>w. ae_list sample_api w 500 []) 0 = (Inr ([1, 2], ''next''), 2)"
    and second: "retryTransient sample_api (\<lambda>w. ae_list sample_api w 500 ''next'') 2 = (Inr ([3], []), 3)"
    by code_simp+
  show ?thesis
    unfolding collectListPages_def visitListPages_def defaultListPageSize_def
    by (subst visit_loop.simps, simp add: first collect_visit_def, subst visit_loop.simps, simp add: second collect_visit_def)
qed

theorem listing_complete_witness: "\<exists>ts. token_chain sample_page ts \<and> hd ts = [] \<and> [1, 2, 3] = concat (map (\<lambda>t. fst (sample_page t)) ts)"
proof -
  have "page = sample_page token" if "ae_list sample_api w l token = (Inr page, w')" for w l token page w'
    using that by (simp add: sample_api_def split: if_splits)
  then show ?thesis using listing_complete [where f = sample_page, OF _ sample_pages_read] by blast
qed

theorem listing_ends_witness: "\<exists>r. visitListPages sample_api 0 collect_visit [] 0 = Some r"
  by (rule listing_ends [of "{''next''}"]) (auto simp: sample_api_def sample_page_def split: if_splits)

text \<open>A throttled client waits the five seconds the server may ask for at most.\<close>

lemma sample_wait: "retryWait sample_api 0 1 (plain_err ''busy'') = 5000000000"
  by code_simp

end
