(* ===== verification/Replay.thy ===== *)
theory Replay
  imports Events Health Regex
begin

section \<open>Reconstructed timelines and their replay\<close>

text \<open>
  \<open>pkg/hpa/retrospective/retrospective.go\<close> and \<open>replay.go\<close>: the timeline of past decisions read from events, and the control
  cycles, stabilization windows and bottlenecks found in it. The terminal library that measures and cuts
  texts is the record \<open>ansi_lib\<close>; the clock and the format of a time are arguments.
\<close>

record ansi_lib =
  an_StringWidth :: "string \<Rightarrow> int"
  an_Truncate :: "string \<Rightarrow> int \<Rightarrow> string \<Rightarrow> string"

definition TruncateDisplayWidth :: "ansi_lib \<Rightarrow> string \<Rightarrow> int \<Rightarrow> string \<Rightarrow> string" where
  "TruncateDisplayWidth T v maxWidth tail =
     (if maxWidth \<le> 0 then []
      else if an_StringWidth T v \<le> maxWidth then v
      else an_Truncate T v maxWidth (if an_StringWidth T tail \<ge> maxWidth then [] else tail))"

text \<open>\<open>FindStringSubmatch\<close>: the groups of the leftmost match.\<close>

fun find_groups :: "regex \<Rightarrow> char option \<Rightarrow> string \<Rightarrow> rx_caps option" where
  "find_groups r p [] = (case rx r (p, [], []) of [] \<Rightarrow> None | m # _ \<Rightarrow> Some (snd (snd m)))"
| "find_groups r p (c # cs) = (case rx r (p, c # cs, []) of [] \<Rightarrow> find_groups r (Some c) cs | m # _ \<Rightarrow> Some (snd (snd m)))"

definition upper_char :: "char \<Rightarrow> char" where
  "upper_char c = (if 97 \<le> (of_char c :: nat) \<and> (of_char c :: nat) \<le> 122 then char_of ((of_char c :: nat) - 32) else c)"

definition to_upper :: "string \<Rightarrow> string" where
  "to_upper s = map upper_char s"

subsection \<open>Patterns\<close>

abbreviation rx_digits :: "nat \<Rightarrow> regex" where "rx_digits n \<equiv> RGroup n (RPlus (RChar is_digit))"
abbreviation rx_spaces :: regex where "rx_spaces \<equiv> RStar (RChar rx_space)"

definition rx_exact :: "string \<Rightarrow> regex" where
  "rx_exact s = rx_seq (map (\<lambda>a. RChar (\<lambda>c. c = a)) s)"

text \<open>\<open>(?i)reason:\s*(.+)$\<close>\<close>

definition metricReasonRegex :: regex where
  "metricReasonRegex = rx_seq [rx_text ''reason:'', rx_spaces, RGroup 1 (RPlus (RChar (\<lambda>c. c \<noteq> CHR 0x0A))), REnd]"

text \<open>\<open>desired (\d+) -> (\d+)\<close>\<close>

definition desiredRangeRegex :: regex where
  "desiredRangeRegex = rx_seq [rx_exact ''desired '', rx_digits 1, rx_exact '' -> '', rx_digits 2]"

definition rx_assign :: regex where
  "rx_assign = rx_seq [rx_spaces, ROpt (rx_alt [rx_exact ''='', rx_exact '':'', rx_text ''is'']), rx_spaces, rx_digits 1, RBound]"

definition rx_replicas :: regex where
  "rx_replicas = rx_seq [rx_text ''replica'', ROpt (rx_text ''s'')]"

definition rx_replica_count :: regex where
  "rx_replica_count = rx_seq [rx_text ''replica'', RPlus (RChar rx_space), rx_text ''count'']"

text \<open>\<open>(?i)\brequested(?:\s+(?:replicas?|replica\s+count))?\s*(?:=|:|is)?\s*(\d+)\b\<close>\<close>

definition requestedReplicasEvidenceRegex :: regex where
  "requestedReplicasEvidenceRegex = rx_seq [RBound, rx_text ''requested'',
     ROpt (RSeq (RPlus (RChar rx_space)) (RAlt rx_replicas rx_replica_count)), rx_assign]"

text \<open>\<open>(?i)\bmax(?:imum)?(?:replicas?|\s+replica\s+count)?\s*(?:=|:|is)?\s*(\d+)\b\<close>\<close>

definition maxReplicasEvidenceRegex :: regex where
  "maxReplicasEvidenceRegex = rx_seq [RBound, rx_text ''max'', ROpt (rx_text ''imum''),
     ROpt (RAlt rx_replicas (RSeq (RPlus (RChar rx_space)) rx_replica_count)), rx_assign]"

subsection \<open>Entries\<close>

record entry =
  en_Timestamp :: int
  en_Category :: string
  en_Message :: string
  en_Source :: string
  en_Confidence :: string
  en_FromReplicas :: "int option"
  en_ToReplicas :: "int option"
  en_ParseValid :: bool
  en_MetricContext :: string

record timeline =
  tl_HPAName :: string
  tl_Namespace :: string
  tl_Since :: int
  tl_Until :: int
  tl_Entries :: "entry list"
  tl_Disclaimer :: string
  tl_Warnings :: "string list"

definition formatMetricContext :: "string \<Rightarrow> string" where
  "formatMetricContext message = (case find_groups metricReasonRegex None message of
     None \<Rightarrow> []
   | Some g \<Rightarrow> let reason = trim_space (rx_group 1 g) in if length reason > 50 then take 47 reason @ ''...'' else reason)"

definition formatScaleDownStabilizedTimelineMessage :: "('q, 's) hpa \<Rightarrow> string" where
  "formatScaleDownStabilizedTimelineMessage h =
     ''ScaleDownStabilized      suppression recorded; current effective window='' @ show_int (EffectiveScaleDownStabilizationWindow (Some h))
     @ ''s; historical duration unavailable''"

text \<open>An entry read from an event; the fields a branch leaves out are zero.\<close>

definition event_entry :: "hpa_event \<Rightarrow> string \<Rightarrow> string \<Rightarrow> string \<Rightarrow> entry" where
  "event_entry e category message confidence = \<lparr>en_Timestamp = ev_Timestamp e, en_Category = category, en_Message = message,
     en_Source = ''event'', en_Confidence = confidence, en_FromReplicas = None, en_ToReplicas = None, en_ParseValid = False, en_MetricContext = []\<rparr>"

definition rescale_entry :: "hpa_event \<Rightarrow> int option \<Rightarrow> entry" where
  "rescale_entry e prevDesired = (case ParseNewSize (ev_Message e) of
       None \<Rightarrow> event_entry e ''rescale'' (ev_Message e) ''low''
     | Some newSize \<Rightarrow>
         let metricCtx = formatMetricContext (ev_Message e);
             msg = (\<lambda>from. (if metricCtx \<noteq> [] then metricCtx @ ''     '' else []) @ ''desired '' @ from @ '' -> '' @ show_int newSize)
         in (case prevDesired of
              None \<Rightarrow> (event_entry e ''rescale'' (msg ''<unknown>'') ''low'')\<lparr>en_ToReplicas := Some newSize, en_MetricContext := metricCtx\<rparr>
            | Some from \<Rightarrow> (event_entry e ''rescale'' (msg (show_int from)) ''high'')
                \<lparr>en_FromReplicas := Some from, en_ToReplicas := Some newSize, en_ParseValid := True, en_MetricContext := metricCtx\<rparr>))"

definition classifyEvent :: "ansi_lib \<Rightarrow> hpa_event \<Rightarrow> int option \<Rightarrow> ('q, 's) hpa \<Rightarrow> entry" where
  "classifyEvent T e prevDesired h =
     (let reason = ev_Reason e
      in if reason = ReasonSuccessfulRescale then rescale_entry e prevDesired
         else if reason = ReasonFailedRescale then
           event_entry e ''rescale'' (''failed to rescale: '' @ TruncateDisplayWidth T (ev_Message e) 80 ''...'') ''high''
         else if reason \<in> {''FailedGetResourceMetric'', ''FailedGetExternalMetric'', ''FailedGetObjectMetric''} then
           event_entry e ''metrics-unavailable'' (reason @ ''  metrics unavailable'') ''high''
         else if reason = ScalingLimited then
           event_entry e ''scaling-limited'' (if trim_space (ev_Message e) \<noteq> []
             then ''ScalingLimited      '' @ TruncateDisplayWidth T (ev_Message e) 80 ''...''
             else ''ScalingLimited      scaling constraint recorded; exact historical limit unavailable'') ''medium''
         else if reason = ''TooManyReplicas'' then
           event_entry e ''scaling-limited'' ''TooManyReplicas      constrained by maxReplicas; historical value unavailable'' ''medium''
         else if reason = ''TooFewReplicas'' then
           event_entry e ''scaling-limited'' ''TooFewReplicas      constrained by minReplicas; historical value unavailable'' ''medium''
         else if reason = ReasonScaleDownStabilized then
           event_entry e ''stabilized'' (formatScaleDownStabilizedTimelineMessage h) ''medium''
         else event_entry e ''metric-change'' (TruncateDisplayWidth T (reason @ '': '' @ ev_Message e) 80 ''...'') ''medium'')"

text \<open>\<open>classifyEvent\<close> never returns nil, so the test of the loop always passes.\<close>

fun timeline_entries :: "ansi_lib \<Rightarrow> ('q, 's) hpa \<Rightarrow> int option \<Rightarrow> hpa_event list \<Rightarrow> entry list" where
  "timeline_entries T h prevDesired [] = []"
| "timeline_entries T h prevDesired (e # es) = classifyEvent T e prevDesired h #
     timeline_entries T h (if ev_Reason e = ReasonSuccessfulRescale then (case ParseNewSize (ev_Message e) of None \<Rightarrow> prevDesired | n \<Rightarrow> n)
       else prevDesired) es"

definition BuildTimeline :: "ansi_lib \<Rightarrow> (int \<Rightarrow> string) \<Rightarrow> int \<Rightarrow> hpa_event list \<Rightarrow> ('q, 's) hpa \<Rightarrow> int \<Rightarrow> timeline" where
  "BuildTimeline T fmtTime now events h since =
     \<lparr>tl_HPAName = hpa_Name h, tl_Namespace = hpa_Namespace h, tl_Since = since, tl_Until = now, tl_Entries = timeline_entries T h None events,
      tl_Disclaimer = ''Best-effort reconstruction from Kubernetes events. '' @
        ''Current HPA configuration is shown only when explicitly labeled and is not projected backward. '' @
        ''Internal controller calculations, exact metric values at decision time, and '' @
        ''suppressed-but-not-logged decisions are not visible. Multi-metric winner is estimated.'',
      tl_Warnings = (if events = [] then [''No HPA events found since '' @ fmtTime since
        @ ''. Events may have expired (Kubernetes typically retains events for ~1 hour).''] else [])\<rparr>"

definition parseDesiredRange :: "string \<Rightarrow> (int \<times> int) option" where
  "parseDesiredRange msg = (case find_groups desiredRangeRegex None msg of
     None \<Rightarrow> None
   | Some g \<Rightarrow> (case (parse_int32 (rx_group 1 g), parse_int32 (rx_group 2 g)) of
       (Inr from, Inr to) \<Rightarrow> Some (from, to) | _ \<Rightarrow> None))"

definition entryReplicaRange :: "entry \<Rightarrow> (int \<times> int) option" where
  "entryReplicaRange e = (case (en_ParseValid e, en_FromReplicas e, en_ToReplicas e) of
     (True, Some from, Some to) \<Rightarrow> Some (from, to) | _ \<Rightarrow> parseDesiredRange (en_Message e))"

subsection \<open>The replay\<close>

record bottleneck_marker =
  bm_Timestamp :: int
  bm_Type :: string
  bm_Message :: string
  bm_Severity :: string
  bm_Duration :: int

record control_cycle =
  cy_Start :: int
  cy_End :: int
  cy_InputReplicas :: int
  cy_OutputReplicas :: int
  cy_Decision :: string
  cy_MetricDriver :: string

record stabilization_window =
  sw_Start :: int
  sw_End :: int
  sw_Duration :: int
  sw_SuppressedScaleDown :: "int option"

text \<open>The analysis without the tolerance effects, a list the code never fills.\<close>

record replay_analysis =
  ra_Bottlenecks :: "bottleneck_marker list"
  ra_ControlCycles :: "control_cycle list"
  ra_StabilizationWindows :: "stabilization_window list"
  ra_Summary :: string

definition parseReplicaEvidence :: "regex \<Rightarrow> string \<Rightarrow> int option" where
  "parseReplicaEvidence pattern evidence = (case find_groups pattern None evidence of
     None \<Rightarrow> None | Some g \<Rightarrow> (case parse_int32 (rx_group 1 g) of Inl _ \<Rightarrow> None | Inr v \<Rightarrow> Some v))"

definition hasRecordedMaxReplicasCapEvidence :: "entry \<Rightarrow> bool" where
  "hasRecordedMaxReplicasCapEvidence e =
     (let evidence = en_Message e @ '' '' @ en_MetricContext e; lower = to_lower evidence
      in list_ex (contains_str lower) [''scalinglimited'', ''toomanyreplicas'', ''capped by max'', ''limited by max'', ''exceeds max'',
           ''greater than the maximum'', ''more than the maximum'']
         \<or> (case (parseReplicaEvidence requestedReplicasEvidenceRegex evidence, parseReplicaEvidence maxReplicasEvidenceRegex evidence) of
              (Some requested, Some maximum) \<Rightarrow> requested > maximum | _ \<Rightarrow> False))"

definition classifyRescaleDecision :: "entry \<Rightarrow> int \<Rightarrow> int \<Rightarrow> bool \<Rightarrow> string \<times> string" where
  "classifyRescaleDecision e from to valid =
     (let decision = (if valid then (if to > from then ''scale-up'' else if to < from then ''scale-down'' else ''no-change'') else ''no-change'');
          upper = (if to_upper (en_MetricContext e) = [] then to_upper (en_Message e) else to_upper (en_MetricContext e))
      in (decision, if contains_str upper ''CPU'' then ''cpu'' else if contains_str upper ''MEMORY'' then ''memory'' else ''unknown''))"

definition buildRescaleControlCycle :: "entry \<Rightarrow> timeline \<Rightarrow> int \<Rightarrow> int \<Rightarrow> int \<Rightarrow> string \<Rightarrow> string \<Rightarrow> control_cycle" where
  "buildRescaleControlCycle e tln lastRescaleTime from to decision metricDriver =
     \<lparr>cy_Start = (if lastRescaleTime = zero_time then tl_Since tln else lastRescaleTime), cy_End = en_Timestamp e, cy_InputReplicas = from,
      cy_OutputReplicas = to, cy_Decision = decision, cy_MetricDriver = metricDriver\<rparr>"

text \<open>The index \<open>i\<close> of the loop is the list of entries after the current one.\<close>

definition bottleneckUntilNext :: "timeline \<Rightarrow> entry list \<Rightarrow> entry \<Rightarrow> string \<Rightarrow> string \<Rightarrow> string \<Rightarrow> bottleneck_marker" where
  "bottleneckUntilNext tln later e bType message severity =
     (let end_time = (case later of [] \<Rightarrow> tl_Until tln | n # _ \<Rightarrow> en_Timestamp n); duration = Sub end_time (en_Timestamp e)
      in \<lparr>bm_Timestamp = en_Timestamp e, bm_Type = bType, bm_Message = message, bm_Severity = severity,
          bm_Duration = (if duration < 0 then 0 else duration)\<rparr>)"

record replay_state =
  rs_Analysis :: replay_analysis
  rs_lastRescaleTime :: int
  rs_stabilizationStart :: int

definition add_bottleneck :: "bottleneck_marker \<Rightarrow> replay_state \<Rightarrow> replay_state" where
  "add_bottleneck b s = s\<lparr>rs_Analysis := (rs_Analysis s)\<lparr>ra_Bottlenecks := ra_Bottlenecks (rs_Analysis s) @ [b]\<rparr>\<rparr>"

text \<open>\<open>lastRescaleTo\<close> is threaded through the loop of the code and never read; it is left out.\<close>

definition analyzeRescaleEntry :: "timeline \<Rightarrow> entry list \<Rightarrow> entry \<Rightarrow> replay_state \<Rightarrow> replay_state" where
  "analyzeRescaleEntry tln later e s = (case entryReplicaRange e of
       None \<Rightarrow>
         (if en_FromReplicas e = None \<and> en_ToReplicas e \<noteq> None then s\<lparr>rs_lastRescaleTime := en_Timestamp e\<rparr>
          else if has_prefix (to_lower (en_Message e)) ''failed to rescale:'' then
            add_bottleneck (bottleneckUntilNext tln later e ''rescale'' (en_Message e) ''high'') s
          else add_bottleneck (bottleneckUntilNext tln later e ''rescale'' (''Rescale event could not be reconstructed: '' @ en_Message e) ''medium'') s)
     | Some (from, to) \<Rightarrow>
         let (decision, metricDriver) = classifyRescaleDecision e from to True;
             cycle0 = buildRescaleControlCycle e tln (rs_lastRescaleTime s) from to decision metricDriver;
             capped = (decision = ''scale-up'' \<and> hasRecordedMaxReplicasCapEvidence e);
             cycle = (if capped then cycle0\<lparr>cy_Decision := ''capped''\<rparr> else cycle0);
             s1 = (if capped then add_bottleneck \<lparr>bm_Timestamp = en_Timestamp e, bm_Type = ''policy'',
                 bm_Message = ''recorded maxReplicas evidence capped scale-up at '' @ show_int to @ '' replicas'', bm_Severity = ''medium'',
                 bm_Duration = 0\<rparr> s else s)
         in s1\<lparr>rs_Analysis := (rs_Analysis s1)\<lparr>ra_ControlCycles := ra_ControlCycles (rs_Analysis s1) @ [cycle]\<rparr>,
               rs_lastRescaleTime := en_Timestamp e\<rparr>)"

definition analyzeStabilizedEntry :: "timeline \<Rightarrow> entry list \<Rightarrow> entry \<Rightarrow> replay_state \<Rightarrow> replay_state" where
  "analyzeStabilizedEntry tln later e s =
     (let start = (if rs_stabilizationStart s = zero_time then en_Timestamp e else rs_stabilizationStart s)
      in if (case later of [] \<Rightarrow> True | n # _ \<Rightarrow> en_Category n \<noteq> ''stabilized'') then
           (let endTime = (case later of n # _ \<Rightarrow> en_Timestamp n
                  | [] \<Rightarrow> if tl_Until tln \<noteq> zero_time \<and> tl_Until tln > en_Timestamp e then tl_Until tln else en_Timestamp e);
                window = \<lparr>sw_Start = start, sw_End = endTime, sw_Duration = Sub endTime start, sw_SuppressedScaleDown = None\<rparr>
            in s\<lparr>rs_Analysis := (rs_Analysis s)\<lparr>ra_StabilizationWindows := ra_StabilizationWindows (rs_Analysis s) @ [window]\<rparr>,
                 rs_stabilizationStart := zero_time\<rparr>)
         else s\<lparr>rs_stabilizationStart := start\<rparr>)"

definition replay_entry :: "timeline \<Rightarrow> entry list \<Rightarrow> entry \<Rightarrow> replay_state \<Rightarrow> replay_state" where
  "replay_entry tln later e s =
     (if en_Category e = ''rescale'' then analyzeRescaleEntry tln later e s
      else if en_Category e = ''metrics-unavailable'' then
        add_bottleneck (bottleneckUntilNext tln later e ''metrics'' ''Metrics unavailable - HPA cannot compute desired replicas'' ''high'') s
      else if en_Category e = ''scaling-limited'' then
        (let message = trim_space (en_Message e)
         in add_bottleneck (bottleneckUntilNext tln later e ''policy''
              (if message = [] then ''Scaling constraint recorded; exact historical limit unavailable'' else message) ''medium'') s)
      else if en_Category e = ''stabilized'' then analyzeStabilizedEntry tln later e s
      else s)"

fun replay_loop :: "timeline \<Rightarrow> entry list \<Rightarrow> replay_state \<Rightarrow> replay_state" where
  "replay_loop tln [] s = s"
| "replay_loop tln (e # later) s = replay_loop tln later (replay_entry tln later e s)"

definition AnalyzeReplay :: "timeline \<Rightarrow> replay_analysis" where
  "AnalyzeReplay tln =
     (let empty = \<lparr>ra_Bottlenecks = [], ra_ControlCycles = [], ra_StabilizationWindows = [], ra_Summary = []\<rparr>
      in if tl_Entries tln = [] then empty\<lparr>ra_Summary := ''No timeline entries to analyze.''\<rparr>
         else let a = rs_Analysis (replay_loop tln (tl_Entries tln)
                    \<lparr>rs_Analysis = empty, rs_lastRescaleTime = zero_time, rs_stabilizationStart = zero_time\<rparr>)
              in a\<lparr>ra_Summary := ''Detected '' @ show_int (int (length (ra_Bottlenecks a))) @ '' bottlenecks, ''
                   @ show_int (int (length (ra_StabilizationWindows a))) @ '' stabilization windows, ''
                   @ show_int (int (length (ra_ControlCycles a))) @ '' control cycles''\<rparr>)"

subsection \<open>Control cycles\<close>

text \<open>The replica counts the events record, with their instants, and the cycles between one and the next.\<close>

fun recorded_sizes :: "hpa_event list \<Rightarrow> (int \<times> int) list" where
  "recorded_sizes [] = []"
| "recorded_sizes (e # es) = (if ev_Reason e = ReasonSuccessfulRescale
     then (case ParseNewSize (ev_Message e) of None \<Rightarrow> [] | Some n \<Rightarrow> [(ev_Timestamp e, n)]) else []) @ recorded_sizes es"

fun cycles_between :: "int \<Rightarrow> (int \<times> int) list \<Rightarrow> (int \<times> int \<times> int \<times> int) list" where
  "cycles_between since ((t, n) # (u, m) # sizes) = (if t = zero_time then since else t, u, n, m) # cycles_between since ((u, m) # sizes)"
| "cycles_between since sizes = []"

definition cycle_key :: "control_cycle \<Rightarrow> int \<times> int \<times> int \<times> int" where
  "cycle_key c = (cy_Start c, cy_End c, cy_InputReplicas c, cy_OutputReplicas c)"

definition decision_ok :: "control_cycle \<Rightarrow> bool" where
  "decision_ok c \<longleftrightarrow> (if cy_OutputReplicas c > cy_InputReplicas c then cy_Decision c = ''scale-up'' \<or> cy_Decision c = ''capped''
     else if cy_OutputReplicas c < cy_InputReplicas c then cy_Decision c = ''scale-down'' else cy_Decision c = ''no-change'')"

text \<open>A range in the text of an entry that records none.\<close>

definition stray_range :: "entry \<Rightarrow> bool" where
  "stray_range e \<longleftrightarrow> en_Category e = ''rescale'' \<and> \<not> en_ParseValid e \<and> parseDesiredRange (en_Message e) \<noteq> None"

definition recorded_of :: "hpa_event \<Rightarrow> int option" where
  "recorded_of e = (if ev_Reason e = ReasonSuccessfulRescale then ParseNewSize (ev_Message e) else None)"

lemma event_entry_fields [simp]: "en_ParseValid (event_entry e c m k) = False" "en_FromReplicas (event_entry e c m k) = None"
  "en_ToReplicas (event_entry e c m k) = None" "en_Timestamp (event_entry e c m k) = ev_Timestamp e" "en_Category (event_entry e c m k) = c"
  by (simp_all add: event_entry_def)

lemma plain_if: "\<exists>c m k. x = event_entry e c m k \<Longrightarrow> \<exists>c m k. y = event_entry e c m k \<Longrightarrow> \<exists>c m k. (if b then x else y) = event_entry e c m k"
  by simp

lemma plain_refl: "\<exists>c' m' k'. event_entry e c m k = event_entry e c' m' k'"
  by blast

lemma classify_unrecorded:
  assumes "recorded_of e = None"
  shows "\<exists>c m k. classifyEvent T e prev h = event_entry e c m k"
proof (cases "ev_Reason e = ReasonSuccessfulRescale")
  case True
  then have "ParseNewSize (ev_Message e) = None" using assms by (simp add: recorded_of_def)
  then show ?thesis unfolding classifyEvent_def Let_def if_P [OF True] rescale_entry_def by auto
next
  case False
  then show ?thesis unfolding classifyEvent_def Let_def if_not_P [OF False] by (intro plain_if plain_refl)
qed

lemma classify_recorded:
  assumes "recorded_of e = Some n"
  shows "\<exists>m k x. classifyEvent T e prev h = (case prev of
      None \<Rightarrow> (event_entry e ''rescale'' m k)\<lparr>en_ToReplicas := Some n, en_MetricContext := x\<rparr>
    | Some p \<Rightarrow> (event_entry e ''rescale'' m k)\<lparr>en_FromReplicas := Some p, en_ToReplicas := Some n, en_ParseValid := True, en_MetricContext := x\<rparr>)"
proof -
  have r: "ev_Reason e = ReasonSuccessfulRescale" "ParseNewSize (ev_Message e) = Some n" using assms by (auto simp: recorded_of_def split: if_splits)
  show ?thesis unfolding classifyEvent_def Let_def if_P [OF r(1)] rescale_entry_def r(2) by (cases prev) auto
qed

lemma add_bottleneck_fields [simp]: "ra_ControlCycles (rs_Analysis (add_bottleneck b s)) = ra_ControlCycles (rs_Analysis s)"
  "rs_lastRescaleTime (add_bottleneck b s) = rs_lastRescaleTime s" "rs_stabilizationStart (add_bottleneck b s) = rs_stabilizationStart s"
  "ra_StabilizationWindows (rs_Analysis (add_bottleneck b s)) = ra_StabilizationWindows (rs_Analysis s)"
  by (simp_all add: add_bottleneck_def)

lemma stabilized_fields [simp]: "ra_ControlCycles (rs_Analysis (analyzeStabilizedEntry t later e s)) = ra_ControlCycles (rs_Analysis s)"
  "rs_lastRescaleTime (analyzeStabilizedEntry t later e s) = rs_lastRescaleTime s"
  by (simp_all add: analyzeStabilizedEntry_def Let_def)

lemma unrecorded_step:
  assumes "en_FromReplicas e = None" "en_ToReplicas e = None" "\<not> en_ParseValid e" "\<not> stray_range e"
  shows "ra_ControlCycles (rs_Analysis (replay_entry t later e s)) = ra_ControlCycles (rs_Analysis s)
    \<and> rs_lastRescaleTime (replay_entry t later e s) = rs_lastRescaleTime s"
proof -
  have "entryReplicaRange e = None" if "en_Category e = ''rescale''"
    using assms that by (cases "parseDesiredRange (en_Message e)") (simp_all add: entryReplicaRange_def stray_range_def)
  then show ?thesis using assms(1,2) by (simp add: replay_entry_def analyzeRescaleEntry_def Let_def)
qed

lemma destination_step:
  assumes "en_Category e = ''rescale''" "en_FromReplicas e = None" "en_ToReplicas e = Some n" "\<not> en_ParseValid e" "\<not> stray_range e"
  shows "ra_ControlCycles (rs_Analysis (replay_entry t later e s)) = ra_ControlCycles (rs_Analysis s)
    \<and> rs_lastRescaleTime (replay_entry t later e s) = en_Timestamp e"
proof -
  have "entryReplicaRange e = None"
    using assms by (cases "parseDesiredRange (en_Message e)") (simp_all add: entryReplicaRange_def stray_range_def)
  then show ?thesis using assms(1-3) by (simp add: replay_entry_def analyzeRescaleEntry_def)
qed

lemma range_step:
  assumes "en_Category e = ''rescale''" "en_FromReplicas e = Some p" "en_ToReplicas e = Some n" "en_ParseValid e"
  shows "\<exists>c. ra_ControlCycles (rs_Analysis (replay_entry t later e s)) = ra_ControlCycles (rs_Analysis s) @ [c]
    \<and> cycle_key c = (if rs_lastRescaleTime s = zero_time then tl_Since t else rs_lastRescaleTime s, en_Timestamp e, p, n) \<and> decision_ok c
    \<and> rs_lastRescaleTime (replay_entry t later e s) = en_Timestamp e"
proof -
  have r: "entryReplicaRange e = Some (p, n)" using assms by (simp add: entryReplicaRange_def)
  show ?thesis using assms(1) by (auto simp: replay_entry_def analyzeRescaleEntry_def r Let_def cycle_key_def decision_ok_def
        buildRescaleControlCycle_def classifyRescaleDecision_def)
qed

lemma loop_cycles:
  assumes "\<forall>e\<in>set (timeline_entries T h prev es). \<not> stray_range e"
  shows "map cycle_key (ra_ControlCycles (rs_Analysis (replay_loop t (timeline_entries T h prev es) s)))
      = map cycle_key (ra_ControlCycles (rs_Analysis s))
        @ cycles_between (tl_Since t) ((case prev of None \<Rightarrow> [] | Some p \<Rightarrow> [(rs_lastRescaleTime s, p)]) @ recorded_sizes es)
    \<and> (list_all decision_ok (ra_ControlCycles (rs_Analysis s)) \<longrightarrow>
        list_all decision_ok (ra_ControlCycles (rs_Analysis (replay_loop t (timeline_entries T h prev es) s))))"
  using assms
proof (induction es arbitrary: prev s)
  case Nil
  then show ?case by (simp split: option.splits)
next
  case (Cons e es)
  let ?e = "classifyEvent T e prev h"
  show ?case
  proof (cases "recorded_of e")
    case None
    obtain c m k where c: "?e = event_entry e c m k" using classify_unrecorded [OF None] by blast
    have prev: "(if ev_Reason e = ReasonSuccessfulRescale then (case ParseNewSize (ev_Message e) of None \<Rightarrow> prev | n \<Rightarrow> n) else prev) = prev"
      "recorded_sizes (e # es) = recorded_sizes es"
      using None by (auto simp: recorded_of_def)
    let ?rest = "timeline_entries T h prev es"
    have eq: "timeline_entries T h prev (e # es) = ?e # ?rest" unfolding timeline_entries.simps prev(1) ..
    have "ra_ControlCycles (rs_Analysis (replay_entry t ?rest ?e s)) = ra_ControlCycles (rs_Analysis s)
        \<and> rs_lastRescaleTime (replay_entry t ?rest ?e s) = rs_lastRescaleTime s"
      using Cons.prems by (intro unrecorded_step) (simp_all add: c)
    moreover have "\<forall>e\<in>set ?rest. \<not> stray_range e" using Cons.prems unfolding eq by simp
    ultimately show ?thesis using Cons.IH [of prev "replay_entry t ?rest ?e s"] unfolding eq prev(2) replay_loop.simps
      by (cases prev) simp_all
  next
    case (Some n)
    then have new: "(if ev_Reason e = ReasonSuccessfulRescale then (case ParseNewSize (ev_Message e) of None \<Rightarrow> prev | n \<Rightarrow> n) else prev) = Some n"
      "recorded_sizes (e # es) = (ev_Timestamp e, n) # recorded_sizes es"
      by (auto simp: recorded_of_def split: if_splits)
    let ?rest = "timeline_entries T h (Some n) es"
    let ?s = "replay_entry t ?rest ?e s"
    have eq: "timeline_entries T h prev (e # es) = ?e # ?rest" unfolding timeline_entries.simps new(1) ..
    have rest: "\<forall>e\<in>set ?rest. \<not> stray_range e" and e: "\<not> stray_range ?e" using Cons.prems unfolding eq by simp_all
    note ih = Cons.IH [OF rest, of ?s]
    show ?thesis
    proof (cases prev)
      case None
      then have "ra_ControlCycles (rs_Analysis ?s) = ra_ControlCycles (rs_Analysis s) \<and> rs_lastRescaleTime ?s = ev_Timestamp e"
        using classify_recorded [OF Some, of T prev h] e destination_step [of ?e n t ?rest s] by auto
      then show ?thesis using ih None unfolding eq new(2) replay_loop.simps by simp
    next
      case (Some p)
      then obtain c where "ra_ControlCycles (rs_Analysis ?s) = ra_ControlCycles (rs_Analysis s) @ [c]"
        "cycle_key c = (if rs_lastRescaleTime s = zero_time then tl_Since t else rs_lastRescaleTime s, ev_Timestamp e, p, n)" "decision_ok c"
        "rs_lastRescaleTime ?s = ev_Timestamp e"
        using classify_recorded [OF \<open>recorded_of e = Some n\<close>, of T prev h] range_step [of ?e p n t ?rest s] by auto
      then show ?thesis using ih Some unfolding eq new(2) replay_loop.simps by simp
    qed
  qed
qed

text \<open>C20. Replaying the timeline built from events gives exactly one control cycle between every two consecutive recorded replica counts,
  from the one to the other, starting where the previous one ended, and the decision of a cycle agrees with its direction; events that record
  no count add none, provided their texts hold no stray range.\<close>

theorem replay_cycles:
  assumes "t = BuildTimeline T fmtTime now events h since" "\<forall>e\<in>set (tl_Entries t). \<not> stray_range e"
  shows "map cycle_key (ra_ControlCycles (AnalyzeReplay t)) = cycles_between since (recorded_sizes events)
    \<and> list_all decision_ok (ra_ControlCycles (AnalyzeReplay t))"
proof -
  have e: "tl_Entries t = timeline_entries T h None events" "tl_Since t = since" by (simp_all add: assms(1) BuildTimeline_def)
  show ?thesis
  proof (cases "events = []")
    case True
    then show ?thesis by (simp add: AnalyzeReplay_def e Let_def)
  next
    case False
    then have ne: "timeline_entries T h None events \<noteq> []" by (cases events) simp_all
    show ?thesis using loop_cycles [of T h None events t] assms(2) ne by (simp add: AnalyzeReplay_def e Let_def)
  qed
qed

subsection \<open>Stabilization windows\<close>

text \<open>One window for every maximal run of stabilized entries, from its first entry to the next entry, or to the end of the observation.\<close>

definition stabilized :: "entry \<Rightarrow> bool" where
  "stabilized e \<longleftrightarrow> en_Category e = ''stabilized''"

definition run_window :: "timeline \<Rightarrow> int \<Rightarrow> entry \<Rightarrow> entry list \<Rightarrow> stabilization_window" where
  "run_window t start final later =
     (let fin = (case later of n # _ \<Rightarrow> en_Timestamp n
        | [] \<Rightarrow> if tl_Until t \<noteq> zero_time \<and> tl_Until t > en_Timestamp final then tl_Until t else en_Timestamp final)
      in \<lparr>sw_Start = start, sw_End = fin, sw_Duration = Sub fin start, sw_SuppressedScaleDown = None\<rparr>)"

function run_windows :: "timeline \<Rightarrow> entry list \<Rightarrow> stabilization_window list" where
  "run_windows t [] = []"
| "run_windows t (e # es) = (if stabilized e
     then run_window t (en_Timestamp e) (last (e # takeWhile stabilized es)) (dropWhile stabilized es) # run_windows t (dropWhile stabilized es)
     else run_windows t es)"
  by pat_completeness auto
termination
  by (relation "measure (\<lambda>(t, es). length es)") (auto simp: less_Suc_eq_le length_dropWhile_le)

lemma other_step:
  assumes "\<not> stabilized e"
  shows "ra_StabilizationWindows (rs_Analysis (replay_entry t later e s)) = ra_StabilizationWindows (rs_Analysis s)
    \<and> rs_stabilizationStart (replay_entry t later e s) = rs_stabilizationStart s"
  using assms by (auto simp: replay_entry_def stabilized_def analyzeRescaleEntry_def Let_def split: option.splits prod.splits)

lemma stabilized_step:
  assumes "stabilized e" "start = (if rs_stabilizationStart s = zero_time then en_Timestamp e else rs_stabilizationStart s)"
    and "s' = replay_entry t later e s"
  shows "(case later of n # _ \<Rightarrow> stabilized n | [] \<Rightarrow> False) \<Longrightarrow>
      ra_StabilizationWindows (rs_Analysis s') = ra_StabilizationWindows (rs_Analysis s) \<and> rs_stabilizationStart s' = start"
    "\<not> (case later of n # _ \<Rightarrow> stabilized n | [] \<Rightarrow> False) \<Longrightarrow>
      ra_StabilizationWindows (rs_Analysis s') = ra_StabilizationWindows (rs_Analysis s) @ [run_window t start e later] \<and> rs_stabilizationStart s' = zero_time"
  using assms by (cases later; simp add: replay_entry_def stabilized_def analyzeStabilizedEntry_def run_window_def Let_def)+

text \<open>Inside a run the start is kept; outside none is set.\<close>

lemma loop_windows:
  assumes "\<forall>e\<in>set es. en_Timestamp e \<noteq> zero_time"
  shows "(rs_stabilizationStart s = zero_time \<longrightarrow>
      ra_StabilizationWindows (rs_Analysis (replay_loop t es s)) = ra_StabilizationWindows (rs_Analysis s) @ run_windows t es)
    \<and> (rs_stabilizationStart s \<noteq> zero_time \<and> es \<noteq> [] \<and> stabilized (hd es) \<longrightarrow>
      ra_StabilizationWindows (rs_Analysis (replay_loop t es s)) = ra_StabilizationWindows (rs_Analysis s)
        @ run_window t (rs_stabilizationStart s) (last (takeWhile stabilized es)) (dropWhile stabilized es) # run_windows t (dropWhile stabilized es))"
  using assms
proof (induction es arbitrary: s)
  case (Cons e es)
  let ?s = "replay_entry t es e s"
  have ts: "en_Timestamp e \<noteq> zero_time" "\<forall>e\<in>set es. en_Timestamp e \<noteq> zero_time" using Cons.prems by simp_all
  note ih = Cons.IH [OF ts(2), of ?s]
  show ?case
  proof (cases "stabilized e")
    case False
    then show ?thesis using ih other_step [OF False, of t es s] by simp
  next
    case True
    define start where "start = (if rs_stabilizationStart s = zero_time then en_Timestamp e else rs_stabilizationStart s)"
    note step = stabilized_step [OF True start_def refl, where t = t and later = es]
    have nz: "start \<noteq> zero_time" using ts(1) by (simp add: start_def)
    have "ra_StabilizationWindows (rs_Analysis (replay_loop t (e # es) s)) = ra_StabilizationWindows (rs_Analysis s)
        @ run_window t start (last (e # takeWhile stabilized es)) (dropWhile stabilized es) # run_windows t (dropWhile stabilized es)"
    proof (cases "case es of n # _ \<Rightarrow> stabilized n | [] \<Rightarrow> False")
      case next_stabilized: True
      then have "es \<noteq> [] \<and> stabilized (hd es)" by (cases es) auto
      moreover from this have "takeWhile stabilized es \<noteq> []" by (cases es) auto
      ultimately show ?thesis using ih step(1) [OF next_stabilized] nz by simp
    next
      case ended: False
      then have "takeWhile stabilized es = []" "dropWhile stabilized es = es" by (cases es; simp)+
      then show ?thesis using ih step(2) [OF ended] by simp
    qed
    then show ?thesis using True by (auto simp: start_def)
  qed
qed simp

text \<open>C31. The stabilization windows of a replay are exactly the maximal runs of stabilized entries, each from its first entry to the
  entry that ends it, or to the end of the observation.\<close>

theorem windows_are_runs:
  assumes "\<forall>e\<in>set (tl_Entries t). en_Timestamp e \<noteq> zero_time"
  shows "ra_StabilizationWindows (AnalyzeReplay t) = run_windows t (tl_Entries t)"
  using loop_windows [OF assms] by (simp add: AnalyzeReplay_def Let_def)

subsection \<open>Samples\<close>

definition sample_ansi :: ansi_lib where
  "sample_ansi = \<lparr>an_StringWidth = (\<lambda>s. int (length s)), an_Truncate = (\<lambda>s n tail. take (nat n - length tail) s @ tail)\<rparr>"

definition past_event :: "int \<Rightarrow> string \<Rightarrow> string \<Rightarrow> hpa_event" where
  "past_event seconds reason message = \<lparr>ev_Reason = reason, ev_Message = message, ev_Timestamp = seconds * Second\<rparr>"

definition past_timeline :: "hpa_event list \<Rightarrow> timeline" where
  "past_timeline events = BuildTimeline sample_ansi show_int (1000 * Second) events (sample_hpa 4 []) 0"

definition past_events :: "hpa_event list" where
  "past_events = [past_event 10 ReasonSuccessfulRescale ''New size: 3; reason: cpu'', past_event 20 ''FailedGetResourceMetric'' [],
     past_event 30 ReasonScaleDownStabilized [], past_event 40 ReasonScaleDownStabilized [],
     past_event 60 ReasonSuccessfulRescale ''New size: 6; reason: cpu'']"

lemma past_entries: "list_all (\<lambda>e. \<not> stray_range e \<and> en_Timestamp e \<noteq> zero_time) (tl_Entries (past_timeline past_events))"
  by code_simp

lemma past_sizes: "recorded_sizes past_events = [(10 * Second, 3), (60 * Second, 6)]"
  by code_simp

theorem replay_cycles_witness:
  "map cycle_key (ra_ControlCycles (AnalyzeReplay (past_timeline past_events))) = [(10 * Second, 60 * Second, 3, 6)]"
proof -
  have "\<forall>e\<in>set (tl_Entries (past_timeline past_events)). \<not> stray_range e" using past_entries by (simp add: list_all_iff)
  then show ?thesis using replay_cycles [OF past_timeline_def] past_sizes by (simp add: zero_time_def)
qed

theorem windows_are_runs_witness:
  "map (\<lambda>w. (sw_Start w, sw_End w)) (ra_StabilizationWindows (AnalyzeReplay (past_timeline past_events))) = [(30 * Second, 60 * Second)]"
proof -
  have "\<forall>e\<in>set (tl_Entries (past_timeline past_events)). en_Timestamp e \<noteq> zero_time" using past_entries by (simp add: list_all_iff)
  moreover have "map (\<lambda>w. (sw_Start w, sw_End w)) (run_windows (past_timeline past_events) (tl_Entries (past_timeline past_events)))
      = [(30 * Second, 60 * Second)]"
    by code_simp
  ultimately show ?thesis using windows_are_runs by simp
qed

text \<open>
  A rescale whose message cannot be read leaves the previous count in place: the next one is reported as a step from the
  old count, with high confidence, although the count between them is not known.
\<close>

lemma unreadable_rescale:
  "map (\<lambda>e. (en_FromReplicas e, en_ToReplicas e, en_Confidence e)) (tl_Entries (past_timeline
     [past_event 10 ReasonSuccessfulRescale ''New size: 3'', past_event 20 ReasonSuccessfulRescale ''rescaled'',
      past_event 30 ReasonSuccessfulRescale ''New size: 6'']))
   = [(None, Some 3, ''low''), (None, None, ''low''), (Some 3, Some 6, ''high'')]"
  by code_simp

end
