(* ===== verification/MetricTrace.thy ===== *)
theory MetricTrace
  imports SimDesired
begin

section \<open>Which metric drives the decision\<close>

text \<open>
  \<open>pkg/hpa/metric_trace.go\<close>: the analysis of every current metric, the metric that is estimated to have driven the
  decision, and the effects of tolerance and stabilization. A confidence is its text, the winner an index.
\<close>

abbreviation ConfidenceHigh :: string where "ConfidenceHigh \<equiv> ''high''"
abbreviation ConfidenceMedium :: string where "ConfidenceMedium \<equiv> ''medium''"
abbreviation ConfidenceLow :: string where "ConfidenceLow \<equiv> ''low''"

record metric_trace_entry =
  te_Name :: string
  te_Type :: string
  te_Ratio :: "f64 option"
  te_DistanceFromTarget :: f64
  te_ReplicaImpact :: f64
  te_EstimatedDesiredReplicas :: "int option"
  te_DesiredDirection :: string
  te_WithinTolerance :: bool
  te_EffectiveTolerance :: f64
  te_Note :: string

record stabilization_effect =
  se_WindowSeconds :: int
  se_RemainingSeconds :: "int option"
  se_SuppressedScaleDown :: bool
  se_Note :: string

record tolerance_effect =
  tf_DefaultTolerance :: f64
  tf_ConfiguredTolerance :: "f64 option"
  tf_ConfiguredScaleUpTolerance :: "f64 option"
  tf_ConfiguredScaleDownTolerance :: "f64 option"
  tf_ScaleUpTolerance :: f64
  tf_ScaleDownTolerance :: f64
  tf_SuppressedMetrics :: "string list"
  tf_Note :: string

record metric_decision_trace =
  md_Metrics :: "metric_trace_entry list"
  md_Winner :: string
  md_WinnerConfidence :: string
  md_SelectPolicy :: string
  md_StabilizationEffect :: "stabilization_effect option"
  md_ToleranceEffect :: "tolerance_effect option"
  md_Summary :: string

subsection \<open>The entries\<close>

definition formatRatio :: "f64 \<Rightarrow> string" where
  "formatRatio r = show_fixed 2 r"

text \<open>The verb \<open>%+.0f\<close>.\<close>

definition show_signed :: "f64 \<Rightarrow> string" where
  "show_signed x = (case show_fixed 0 x of c # cs \<Rightarrow> (if c = CHR ''-'' \<or> c = CHR ''+'' then c # cs else CHR ''+'' # c # cs) | [] \<Rightarrow> [])"

definition desired_direction :: "f64 \<Rightarrow> f64 \<Rightarrow> string" where
  "desired_direction ratio tol = (if f_lt (f_add (Fin 1) tol) ratio then ''up'' else if f_lt ratio (f_sub (Fin 1) tol) then ''down'' else ''none'')"

definition trace_entry :: "('q, 's) k8s_lib \<Rightarrow> ('q, 's) hpa \<Rightarrow> ('q, 's) metric_status \<Rightarrow> string \<Rightarrow> f64 option \<Rightarrow> metric_trace_entry" where
  "trace_entry K h metric name ratio =
     (let entry = \<lparr>te_Name = name, te_Type = mu_Type metric, te_Ratio = None, te_DistanceFromTarget = Fin 0, te_ReplicaImpact = Fin 0,
            te_EstimatedDesiredReplicas = None, te_DesiredDirection = ''none'', te_WithinTolerance = False, te_EffectiveTolerance = Fin 0, te_Note = []\<rparr>
      in case ratio of
           None \<Rightarrow> entry\<lparr>te_Note := name @ '' ratio unavailable''\<rparr>
         | Some r \<Rightarrow>
             let (inside, tol) = RatioWithinTolerance K (Some h) r;
                 estimated = EstimatedDesiredForRatio K h r;
                 impact = f_of_int (wrap32 (estimated - currentOf h));
                 note = (if inside then name @ '' is within '' @ Direction r @ '' tolerance '' @ show_fixed 3 tol @ '' ('' @ formatRatio r @ ''x target)''
                   else name @ '' is '' @ (if f_lt r (Fin 1) then ''below'' else ''above'') @ '' target ('' @ formatRatio r @ ''x), estimated desired replicas ''
                     @ show_int estimated @ '' (impact '' @ show_signed impact @ '')'')
             in entry\<lparr>te_Ratio := Some r, te_DistanceFromTarget := f_abs (f_sub r (Fin 1)), te_WithinTolerance := inside, te_EffectiveTolerance := tol,
                  te_EstimatedDesiredReplicas := Some estimated, te_ReplicaImpact := impact, te_DesiredDirection := desired_direction r tol, te_Note := note\<rparr>)"

definition buildPerMetricTrace :: "('q, 's) k8s_lib \<Rightarrow> ('q, 's) hpa \<Rightarrow> metric_trace_entry list" where
  "buildPerMetricTrace K h = concat (map (\<lambda>metric. let (name, ratio) = metricImpactRatio K h metric
     in if name = [] then [] else [trace_entry K h metric name ratio]) (currentMetricsOf h))"

subsection \<open>The winner\<close>

definition winnerHiddenByControllerState :: "('q, 's) k8s_lib \<Rightarrow> ('q, 's) hpa \<Rightarrow> bool" where
  "winnerHiddenByControllerState K h =
     (if desiredOf h \<ge> maxReplicasOf h then True
      else let minReplicas = (case minReplicasOf h of Some v \<Rightarrow> v | None \<Rightarrow> 1)
           in if desiredOf h \<le> minReplicas
                \<and> \<not> list_ex (\<lambda>metric. case snd (metricImpactRatio K h metric) of
                      None \<Rightarrow> False | Some ratio \<Rightarrow> EstimatedDesiredForRatio K h ratio > minReplicas) (currentMetricsOf h) then True
              else if length (currentMetricsOf h) < length (metricsOf h) then True
              else (case Find (Some h) AbleToScale of None \<Rightarrow> False | Some c \<Rightarrow> c_Reason c = ReasonScaleDownStabilized))"

text \<open>The search over the estimates: the position, the best so far with its place, and how many share it.\<close>

fun winner_loop :: "nat \<Rightarrow> int option list \<Rightarrow> (nat \<times> int) option \<Rightarrow> nat \<Rightarrow> (nat \<times> int) option \<times> nat" where
  "winner_loop i [] best n = (best, n)"
| "winner_loop i (estimate # es) best n = (case (estimate, best) of
     (None, _) \<Rightarrow> winner_loop (Suc i) es best n
   | (Some d, None) \<Rightarrow> winner_loop (Suc i) es (Some (i, d)) 1
   | (Some d, Some (j, bestDesired)) \<Rightarrow>
       if d > bestDesired then winner_loop (Suc i) es (Some (i, d)) 1
       else if d = bestDesired then winner_loop (Suc i) es best (Suc n)
       else winner_loop (Suc i) es best n)"

definition determineWinner :: "('q, 's) k8s_lib \<Rightarrow> metric_trace_entry list \<Rightarrow> ('q, 's) hpa \<Rightarrow> nat option \<times> string" where
  "determineWinner K entries h = (case winner_loop 0 (map te_EstimatedDesiredReplicas entries) None 0 of
     (None, _) \<Rightarrow> (None, [])
   | (Some (i, _), n) \<Rightarrow> (Some i, if n > 1 \<or> winnerHiddenByControllerState K h then ConfidenceLow else ConfidenceMedium))"

subsection \<open>Effects\<close>

definition scale_down_stabilized :: "('q, 's) hpa \<Rightarrow> bool" where
  "scale_down_stabilized h = (case Find (Some h) AbleToScale of None \<Rightarrow> False | Some c \<Rightarrow> c_Reason c = ReasonScaleDownStabilized)"

definition buildStabilizationEffect :: "('q, 's) hpa \<Rightarrow> stabilization_effect option" where
  "buildStabilizationEffect h =
     (if \<not> scale_down_stabilized h then None
      else case ScaleDownStabilizationWindow h of
        None \<Rightarrow> None
      | Some window \<Rightarrow> Some \<lparr>se_WindowSeconds = window, se_RemainingSeconds = EstimateStabilizationRemaining h, se_SuppressedScaleDown = True,
          se_Note = (case EstimateStabilizationRemaining h of
              Some remaining \<Rightarrow> ''scale-down suppressed, ~'' @ show_int remaining @ ''s remaining in '' @ show_int window @ ''s stabilization window''
            | None \<Rightarrow> ''scale-down suppressed by '' @ show_int window @ ''s stabilization window'')\<rparr>)"

definition buildToleranceEffect :: "('q, 's) k8s_lib \<Rightarrow> ('q, 's) hpa \<Rightarrow> metric_trace_entry list \<Rightarrow> tolerance_effect option" where
  "buildToleranceEffect K h entries =
     (let suppressed = map te_Name (filter te_WithinTolerance entries)
      in if suppressed = [] then None
         else let (up, down) = EffectiveDirectionalTolerances K (Some h);
                  (configuredUp, configuredDown) = ConfiguredDirectionalTolerances K (Some h)
              in Some \<lparr>tf_DefaultTolerance = DefaultTolerance,
                   tf_ConfiguredTolerance = (case (configuredUp, configuredDown) of (Some u, Some d) \<Rightarrow> if f_eq u d then configuredUp else None | _ \<Rightarrow> None),
                   tf_ConfiguredScaleUpTolerance = configuredUp, tf_ConfiguredScaleDownTolerance = configuredDown,
                   tf_ScaleUpTolerance = up, tf_ScaleDownTolerance = down, tf_SuppressedMetrics = suppressed,
                   tf_Note = (if length suppressed = length entries
                     then ''all metrics within directional tolerance bands (scaleUp='' @ show_fixed 3 up @ '', scaleDown='' @ show_fixed 3 down
                       @ ''), scaling is estimated to be suppressed''
                     else ''tolerance is estimated to suppress scaling for: '' @ join_str '', '' suppressed)\<rparr>)"

definition resolveSelectPolicy :: "('q, 's) hpa \<Rightarrow> metric_trace_entry list \<Rightarrow> nat option \<Rightarrow> string" where
  "resolveSelectPolicy h entries winner = (case behaviorOf h of
     None \<Rightarrow> ''Max''
   | Some b \<Rightarrow>
       let direction = (case winner of Some i \<Rightarrow> if i < length entries then te_DesiredDirection (entries ! i) else [] | None \<Rightarrow> []);
           rules = (if direction = ''down'' then b_ScaleDown b else b_ScaleUp b)
       in case rules of None \<Rightarrow> ''Max'' | Some r \<Rightarrow> (case r_SelectPolicy r of None \<Rightarrow> ''Max'' | Some p \<Rightarrow> p))"

subsection \<open>The summary\<close>

definition summary_part :: "nat option \<Rightarrow> nat \<Rightarrow> metric_trace_entry \<Rightarrow> string" where
  "summary_part winner i entry = (case te_Ratio entry of
     None \<Rightarrow> te_Name entry @ '' has no ratio data''
   | Some r \<Rightarrow>
       if winner = Some i then te_Name entry @ '' is dominant ('' @ formatRatio r @ ''x target)''
       else if te_WithinTolerance entry then te_Name entry @ '' is within tolerance ('' @ formatRatio r @ ''x)''
       else te_Name entry @ '' wants '' @ te_DesiredDirection entry @ '' ('' @ formatRatio r @ ''x)'')"

text \<open>The winner always has an estimate, so the dereference of the code is safe.\<close>

definition low_reasons :: "('q, 's) k8s_lib \<Rightarrow> metric_trace_entry list \<Rightarrow> nat \<Rightarrow> ('q, 's) hpa \<Rightarrow> string list" where
  "low_reasons K entries w h =
     (let ties = length (filter (\<lambda>e. te_EstimatedDesiredReplicas e \<noteq> None
            \<and> te_EstimatedDesiredReplicas e = te_EstimatedDesiredReplicas (entries ! w)) entries);
          minReplicas = (case minReplicasOf h of Some v \<Rightarrow> v | None \<Rightarrow> 1)
      in (if ties > 1 then [''multiple metrics have the same estimated desired replicas''] else [])
         @ (if desiredOf h \<ge> maxReplicasOf h then [''desired replicas reach maxReplicas''] else [])
         @ (if desiredOf h \<le> minReplicas \<and> winnerHiddenByControllerState K h then [''minReplicas or controller state may obscure the winner''] else [])
         @ (if length (currentMetricsOf h) < length (metricsOf h) then [''metric status is missing''] else [])
         @ (if scale_down_stabilized h then [''scale-down stabilization is reported''] else []))"

definition buildTraceSummary :: "('q, 's) k8s_lib \<Rightarrow> metric_trace_entry list \<Rightarrow> nat option \<Rightarrow> string \<Rightarrow> ('q, 's) hpa \<Rightarrow> string" where
  "buildTraceSummary K entries winner winnerConfidence h =
     (if entries = [] then ''no metrics available for decision trace''
      else let summary = join_str ''; '' (map (\<lambda>(i, e). summary_part winner i e) (zip [0..<length entries] entries))
           in case winner of
                None \<Rightarrow> summary
              | Some w \<Rightarrow>
                  if winnerConfidence = ConfidenceLow then
                    (let reasons = low_reasons K entries w h
                     in summary @ '' (winner confidence is low: ''
                          @ join_str ''; '' (if reasons = [] then [''controller state may obscure the winner''] else reasons) @ '')'')
                  else summary)"

definition BuildMetricDecisionTrace :: "('q, 's) k8s_lib \<Rightarrow> ('q, 's) hpa option \<Rightarrow> int \<Rightarrow> metric_decision_trace option" where
  "BuildMetricDecisionTrace K hp minReplicas = map_option (\<lambda>h.
     let entries = buildPerMetricTrace K h;
         (winnerIndex, winnerConfidence) = determineWinner K entries h
     in \<lparr>md_Metrics = entries, md_Winner = (case winnerIndex of Some i \<Rightarrow> te_Name (entries ! i) | None \<Rightarrow> []),
         md_WinnerConfidence = winnerConfidence, md_SelectPolicy = resolveSelectPolicy h entries winnerIndex,
         md_StabilizationEffect = buildStabilizationEffect h, md_ToleranceEffect = buildToleranceEffect K h entries,
         md_Summary = buildTraceSummary K entries winnerIndex winnerConfidence h\<rparr>) hp"

subsection \<open>The winner has the largest estimate\<close>

text \<open>The first place of the largest estimate.\<close>

definition is_winner :: "int option list \<Rightarrow> nat \<Rightarrow> int \<Rightarrow> bool" where
  "is_winner es j d \<longleftrightarrow> j < length es \<and> es ! j = Some d \<and> (\<forall>k<j. \<forall>c. es ! k = Some c \<longrightarrow> c < d) \<and> (\<forall>c. Some c \<in> set es \<longrightarrow> c \<le> d)"

definition search_ok :: "int option list \<Rightarrow> (nat \<times> int) option \<Rightarrow> nat \<Rightarrow> bool" where
  "search_ok es best n = (case best of None \<Rightarrow> set es \<subseteq> {None} | Some (j, d) \<Rightarrow> is_winner es j d \<and> n = count_list es (Some d))"

lemma is_winner_snoc:
  "is_winner es j d \<Longrightarrow> e = None \<or> (\<exists>c\<le>d. e = Some c) \<Longrightarrow> is_winner (es @ [e]) j d"
  by (auto simp: is_winner_def nth_append)

lemma new_winner:
  assumes "\<And>c. Some c \<in> set es \<Longrightarrow> c < d"
  shows "is_winner (es @ [Some d]) (length es) d"
  using assms by (auto simp: is_winner_def nth_append less_imp_le) (metis nth_mem)

lemma count_above:
  assumes "\<And>c. Some c \<in> set es \<Longrightarrow> c < (d::int)"
  shows "count_list es (Some d) = 0"
  unfolding count_list_0_iff using assms [of d] by auto

lemma winner_loop_spec:
  "search_ok pre best n \<Longrightarrow> i = length pre \<Longrightarrow> winner_loop i es best n = (best', n') \<Longrightarrow> search_ok (pre @ es) best' n'"
proof (induction es arbitrary: pre best n i)
  case Nil
  then show ?case by simp
next
  case (Cons e es)
  have step: "search_ok (pre @ [e]) b m \<Longrightarrow> winner_loop (Suc i) es b m = (best', n') \<Longrightarrow> search_ok (pre @ e # es) best' n'" for b m
    using Cons.IH [of "pre @ [e]" b m "Suc i"] Cons.prems(2) by simp
  show ?case
  proof (cases e)
    case None
    then have "search_ok (pre @ [e]) best n"
      using Cons.prems(1) by (auto simp: search_ok_def is_winner_snoc split: option.splits)
    then show ?thesis using step [of best n] Cons.prems(3) None by simp
  next
    case (Some d)
    have fresh: "search_ok (pre @ [e]) (Some (i, d)) 1" if "\<And>c. Some c \<in> set pre \<Longrightarrow> c < d"
      using new_winner [OF that] count_above [OF that] Cons.prems(2) Some by (simp add: search_ok_def)
    show ?thesis
    proof (cases best)
      case None
      then have "\<And>c. Some c \<in> set pre \<Longrightarrow> c < d" using Cons.prems(1) by (auto simp: search_ok_def)
      then show ?thesis using step [OF fresh] Cons.prems(3) Some None by simp
    next
      case best: (Some jb)
      obtain j b where jb: "jb = (j, b)" by (cases jb)
      then have w: "is_winner pre j b" "n = count_list pre (Some b)" using Cons.prems(1) best by (simp_all add: search_ok_def)
      show ?thesis
      proof (cases "d > b")
        case True
        then have "\<And>c. Some c \<in> set pre \<Longrightarrow> c < d" using w(1) by (auto simp: is_winner_def)
        then show ?thesis using step [OF fresh] Cons.prems(3) Some best jb True by simp
      next
        case False
        then have "search_ok (pre @ [e]) best (if d = b then Suc n else n)"
          using w best jb Some by (auto simp: search_ok_def intro!: is_winner_snoc)
        then show ?thesis using step Cons.prems(3) Some best jb False by (auto split: if_splits)
      qed
    qed
  qed
qed

lemma winner_search:
  assumes "winner_loop 0 es None 0 = (best, n)"
  shows "search_ok es best n"
  using winner_loop_spec [of "[]" None 0 0 es, OF _ _ assms] by (simp add: search_ok_def)

lemma trace_metrics: "BuildMetricDecisionTrace K (Some h) m = Some t \<Longrightarrow> md_Metrics t = buildPerMetricTrace K h"
  by (auto simp: BuildMetricDecisionTrace_def Let_def split: prod.splits)

lemma trace_winner_facts:
  assumes "BuildMetricDecisionTrace K (Some h) m = Some t" "es = map te_EstimatedDesiredReplicas (md_Metrics t)"
  shows "if set es \<subseteq> {None} then md_Winner t = [] \<and> md_WinnerConfidence t = []
    else \<exists>j d. is_winner es j d \<and> md_Winner t = te_Name (md_Metrics t ! j)
      \<and> md_WinnerConfidence t = (if count_list es (Some d) > 1 \<or> winnerHiddenByControllerState K h then ConfidenceLow else ConfidenceMedium)"
proof -
  obtain best n where l: "winner_loop 0 es None 0 = (best, n)" by (cases "winner_loop 0 es None 0")
  have t: "t = the (BuildMetricDecisionTrace K (Some h) m)" using assms(1) by simp
  have es: "es = map te_EstimatedDesiredReplicas (buildPerMetricTrace K h)" using assms trace_metrics by metis
  note ok = winner_search [OF l]
  show ?thesis
  proof (cases best)
    case None
    then have "set es \<subseteq> {None}" using ok by (simp add: search_ok_def)
    moreover have "determineWinner K (buildPerMetricTrace K h) h = (None, [])" using l es None by (simp add: determineWinner_def)
    ultimately show ?thesis by (simp add: t BuildMetricDecisionTrace_def Let_def)
  next
    case (Some jd)
    obtain j d where jd: "jd = (j, d)" by (cases jd)
    then have w: "is_winner es j d" "n = count_list es (Some d)" using ok Some by (simp_all add: search_ok_def)
    then have "Some d \<in> set es" by (metis is_winner_def nth_mem)
    then have "\<not> set es \<subseteq> {None}" by auto
    moreover have "determineWinner K (buildPerMetricTrace K h) h = (Some j, if n > 1 \<or> winnerHiddenByControllerState K h then ConfidenceLow else ConfidenceMedium)"
      using l es Some jd by (simp add: determineWinner_def)
    moreover have "md_Winner t = te_Name (md_Metrics t ! j)"
      "md_WinnerConfidence t = (if n > 1 \<or> winnerHiddenByControllerState K h then ConfidenceLow else ConfidenceMedium)"
      using calculation(2) by (simp_all add: t BuildMetricDecisionTrace_def Let_def)
    ultimately show ?thesis using w by auto
  qed
qed

subsection \<open>The winner is what the simulator projects\<close>

text \<open>The largest estimate of the entries.\<close>

fun largest :: "int option list \<Rightarrow> int option" where
  "largest [] = None"
| "largest (e # es) = (case (e, largest es) of (None, l) \<Rightarrow> l | (Some d, None) \<Rightarrow> Some d | (Some d, Some c) \<Rightarrow> Some (max d c))"

lemma largest_None: "largest es = None \<longleftrightarrow> set es \<subseteq> {None}"
  by (induction es) (auto split: option.splits)

lemma largest_in: "largest es = Some d \<Longrightarrow> Some d \<in> set es \<and> (\<forall>c. Some c \<in> set es \<longrightarrow> c \<le> d)"
proof (induction es arbitrary: d)
  case (Cons e es)
  show ?case
  proof (cases "largest es")
    case None
    then show ?thesis using Cons.prems largest_None [of es] by (cases e) auto
  next
    case (Some c)
    then show ?thesis using Cons.prems Cons.IH [OF Some] by (cases e) (auto simp: max_def split: if_splits)
  qed
qed simp

lemma winner_largest: "is_winner es j d \<Longrightarrow> largest es = Some d"
  using largest_in [of es] largest_None [of es] unfolding is_winner_def
  by (metis dual_order.antisym nth_mem not_None_eq singletonD subsetD)

definition clear_ratios :: "('q, 's) k8s_lib \<Rightarrow> ('q, 's) hpa \<Rightarrow> bool" where
  "clear_ratios K h = list_all (\<lambda>m. let (name, ratio) = metricImpactRatio K h m
     in name \<noteq> [] \<and> usable_ratio ratio = ratio) (currentMetricsOf h)"

definition combine :: "int option \<Rightarrow> int option \<Rightarrow> int option" where
  "combine a b = (case (a, b) of (None, y) \<Rightarrow> y | (x, None) \<Rightarrow> x | (Some x, Some y) \<Rightarrow> Some (max x y))"

lemma desired_largest:
  assumes "currentOf h \<noteq> 0"
  shows "list_all (\<lambda>m. usable_ratio (snd (metricImpactRatio K h m)) = snd (metricImpactRatio K h m)) ms \<Longrightarrow>
    desired_loop (Some (metricImpactRatio K)) K h ms best
      = Inr (combine best (largest (map (\<lambda>m. map_option (EstimatedDesiredForRatio K h) (snd (metricImpactRatio K h m))) ms)))"
proof (induction ms arbitrary: best)
  case Nil
  then show ?case by (simp add: combine_def split: option.splits)
next
  case (Cons m ms)
  show ?case
  proof (cases "snd (metricImpactRatio K h m)")
    case None
    then show ?thesis using Cons by (simp add: metricImpactRatioInvoker_def usable_ratio_def)
  next
    case (Some r)
    then have "usable_ratio (Some r) = Some r" using Cons.prems by simp
    then show ?thesis using Cons Some assms
      by (auto simp: metricImpactRatioInvoker_def estimatedSimulatedMetricDesired_def combine_def max_def split: option.splits)
  qed
qed

lemma entries_clear:
  assumes "clear_ratios K h"
  shows "map te_EstimatedDesiredReplicas (buildPerMetricTrace K h)
    = map (\<lambda>m. map_option (EstimatedDesiredForRatio K h) (snd (metricImpactRatio K h m))) (currentMetricsOf h)"
proof -
  have "map te_EstimatedDesiredReplicas (concat (map (\<lambda>m. let (name, ratio) = metricImpactRatio K h m in if name = [] then [] else [trace_entry K h m name ratio]) ms))
      = map (\<lambda>m. map_option (EstimatedDesiredForRatio K h) (snd (metricImpactRatio K h m))) ms"
    if "list_all (\<lambda>m. let (name, ratio) = metricImpactRatio K h m in name \<noteq> [] \<and> usable_ratio ratio = ratio) ms" for ms
    using that by (induction ms) (auto simp: trace_entry_def Let_def split: prod.splits option.splits)
  then show ?thesis using assms by (simp add: buildPerMetricTrace_def clear_ratios_def)
qed

lemma simulation_largest:
  assumes "currentOf h \<noteq> 0" "clear_ratios K h"
  shows "simulatedDesiredFromMetrics (Some (metricImpactRatio K)) K h = Inr (largest (map te_EstimatedDesiredReplicas (buildPerMetricTrace K h)))"
proof -
  have "list_all (\<lambda>m. usable_ratio (snd (metricImpactRatio K h m)) = snd (metricImpactRatio K h m)) (currentMetricsOf h)"
    using assms(2) by (auto simp: clear_ratios_def list_all_iff case_prod_beta Let_def)
  then show ?thesis using desired_largest [OF assms(1)] by (simp add: simulatedDesiredFromMetrics_def entries_clear [OF assms(2)] combine_def)
qed

subsection \<open>Directions\<close>

text \<open>A finite ratio that is wanted up never estimates fewer replicas, one that is wanted down never more.\<close>

lemma estimate_sides:
  assumes "0 \<le> currentOf h" "in32 (currentOf h)" "0 \<le> r"
  shows "1 \<le> r \<Longrightarrow> currentOf h \<le> EstimatedDesiredForRatio K h (Fin r)"
    "r \<le> 1 \<Longrightarrow> EstimatedDesiredForRatio K h (Fin r) \<le> currentOf h"
  using projected_above [OF assms(1,2), of r] projected_below [OF assms(1,2), of r] assms projected_finite [OF assms]
  by (auto simp: EstimatedDesiredForRatio_def Let_def split: prod.splits)

lemma usable_finite: "\<not> is_nan v \<Longrightarrow> \<not> is_inf v \<Longrightarrow> \<not> f_lt v (Fin 0) \<Longrightarrow> \<exists>x\<ge>0. v = Fin x"
  by (cases v) (auto simp: f64_ops_defs)

lemma default_finite: "\<exists>x\<ge>0. DefaultTolerance = Fin x"
proof -
  have "\<not> is_nan DefaultTolerance" "\<not> is_inf DefaultTolerance" "\<not> f_lt DefaultTolerance (Fin 0)" by code_simp+
  then show ?thesis by (rule usable_finite)
qed

lemma tolerance_finite: "\<exists>x\<ge>0. snd (RatioWithinTolerance K hp r) = Fin x"
proof -
  define rules where "rules = (case hp of None \<Rightarrow> None | Some h \<Rightarrow> (case behaviorOf h of None \<Rightarrow> None
    | Some b \<Rightarrow> if f_lt (Fin 1) r then b_ScaleUp b else if f_lt r (Fin 1) then b_ScaleDown b else None))"
  have "snd (RatioWithinTolerance K hp r) = (case rules of None \<Rightarrow> DefaultTolerance | Some s \<Rightarrow> (case r_Tolerance s of None \<Rightarrow> DefaultTolerance
      | Some q \<Rightarrow> if is_nan (q_float K q) \<or> is_inf (q_float K q) \<or> f_lt (q_float K q) (Fin 0) then DefaultTolerance else q_float K q))"
    unfolding RatioWithinTolerance_def DirectionalTolerance_def rules_def Let_def snd_conv by (simp split: option.split)
  then show ?thesis using default_finite usable_finite by (auto split: option.splits)
qed

lemma direction_side:
  assumes "0 \<le> x"
  shows "desired_direction (Fin r) (Fin x) = ''up'' \<Longrightarrow> 1 \<le> r" "desired_direction (Fin r) (Fin x) = ''down'' \<Longrightarrow> r \<le> 1"
proof -
  have "1 \<le> rnd (1 + x)" "rnd (1 - x) \<le> 1"
    using rnd_mono [of 1 "1 + x"] rnd_mono [of "1 - x" 1] rnd_int [of 1] assms by simp_all
  moreover have "(1::rat) < f64_limit" using f64_limit_large by simp
  ultimately show "desired_direction (Fin r) (Fin x) = ''up'' \<Longrightarrow> 1 \<le> r" "desired_direction (Fin r) (Fin x) = ''down'' \<Longrightarrow> r \<le> 1"
    by (auto simp: desired_direction_def f_sub_def f_neg_def mk_def Let_def split: if_splits)
qed

lemma entry_of_trace:
  assumes "e \<in> set (buildPerMetricTrace K h)"
  shows "\<exists>m\<in>set (currentMetricsOf h). \<exists>name ratio. metricImpactRatio K h m = (name, ratio) \<and> name \<noteq> [] \<and> e = trace_entry K h m name ratio"
proof -
  obtain m where m: "m \<in> set (currentMetricsOf h)"
    "e \<in> set (let (name, ratio) = metricImpactRatio K h m in if name = [] then [] else [trace_entry K h m name ratio])"
    using assms by (auto simp: buildPerMetricTrace_def)
  obtain name ratio where r: "metricImpactRatio K h m = (name, ratio)" by (cases "metricImpactRatio K h m")
  then have "name \<noteq> [] \<and> e = trace_entry K h m name ratio" using m(2) by (simp split: if_splits)
  then show ?thesis using m(1) r by blast
qed

lemma trace_entry_ratio: "te_Ratio (trace_entry K h m name ratio) = ratio"
  by (cases ratio) (simp_all add: trace_entry_def Let_def split: prod.splits)

lemma trace_entry_name: "te_Name (trace_entry K h m name ratio) = name"
  by (cases ratio) (simp_all add: trace_entry_def Let_def split: prod.splits)

lemma trace_entry_fields: "te_WithinTolerance (trace_entry K h m name (Some r)) = fst (RatioWithinTolerance K (Some h) r)"
    "te_EstimatedDesiredReplicas (trace_entry K h m name (Some r)) = Some (EstimatedDesiredForRatio K h r)"
    "te_DesiredDirection (trace_entry K h m name (Some r)) = desired_direction r (snd (RatioWithinTolerance K (Some h) r))"
  by (simp_all add: trace_entry_def Let_def split: prod.splits)

text \<open>The direction of an entry never contradicts its estimate: a metric that wants up estimates at least the current count, one that
  wants down at most.\<close>

theorem direction_agrees:
  assumes "BuildMetricDecisionTrace K (Some h) m = Some t" "e \<in> set (md_Metrics t)" "te_Ratio e = Some (Fin r)" "0 \<le> r"
    and "0 \<le> currentOf h" "in32 (currentOf h)"
  shows "\<exists>d. te_EstimatedDesiredReplicas e = Some d
    \<and> (te_DesiredDirection e = ''up'' \<longrightarrow> currentOf h \<le> d) \<and> (te_DesiredDirection e = ''down'' \<longrightarrow> d \<le> currentOf h)"
proof -
  obtain x name ratio where e: "e = trace_entry K h x name ratio" using entry_of_trace assms(1,2) trace_metrics by metis
  then have ratio: "ratio = Some (Fin r)" using assms(3) trace_entry_ratio by metis
  obtain tol where tol: "0 \<le> tol" "snd (RatioWithinTolerance K (Some h) (Fin r)) = Fin tol" using tolerance_finite by blast
  show ?thesis using estimate_sides [OF assms(5,6,4)] direction_side [OF tol(1), of r] tol(2) by (auto simp: e ratio trace_entry_fields)
qed

text \<open>The winner of a trace is the first metric with the largest estimated count; its confidence is low exactly when another metric shares
  the estimate or the state of the controller hides the winner; without an estimate there is none.\<close>

theorem trace_winner:
  assumes "BuildMetricDecisionTrace K (Some h) m = Some t" "es = map te_EstimatedDesiredReplicas (md_Metrics t)"
  shows "if set es \<subseteq> {None} then md_Winner t = [] \<and> md_WinnerConfidence t = []
    else \<exists>j d. is_winner es j d \<and> md_Winner t = te_Name (md_Metrics t ! j)
      \<and> md_WinnerConfidence t = (if count_list es (Some d) > 1 \<or> winnerHiddenByControllerState K h then ConfidenceLow else ConfidenceMedium)"
  by (rule trace_winner_facts [OF assms])

text \<open>C13. The decision trace and the what-if simulation agree: with a current count other than zero, and every status metric having a name and
  a ratio that is missing or usable, the count the simulator computes from the metrics is the estimate of an entry that has the winner's
  name, and it computes none exactly when the trace names no winner.\<close>

theorem trace_matches_simulation:
  assumes "BuildMetricDecisionTrace K (Some h) m = Some t" "currentOf h \<noteq> 0" "clear_ratios K h"
  shows "\<exists>r. simulatedDesiredFromMetrics (Some (metricImpactRatio K)) K h = Inr r
    \<and> (case r of None \<Rightarrow> md_Winner t = []
       | Some d \<Rightarrow> \<exists>e\<in>set (md_Metrics t). te_Name e = md_Winner t \<and> te_Name e \<noteq> [] \<and> te_EstimatedDesiredReplicas e = Some d)"
proof -
  let ?es = "map te_EstimatedDesiredReplicas (md_Metrics t)"
  note entries = trace_metrics [OF assms(1)]
  note facts = trace_winner_facts [OF assms(1) refl]
  have sim: "simulatedDesiredFromMetrics (Some (metricImpactRatio K)) K h = Inr (largest ?es)"
    using simulation_largest [OF assms(2,3)] entries by simp
  show ?thesis
  proof (cases "set ?es \<subseteq> {None}")
    case True
    then have "largest ?es = None" by (simp only: largest_None)
    then show ?thesis using sim facts True by simp
  next
    case False
    then obtain j d where w: "is_winner ?es j d" "md_Winner t = te_Name (md_Metrics t ! j)" using facts by auto
    then have j: "j < length (md_Metrics t)" "te_EstimatedDesiredReplicas (md_Metrics t ! j) = Some d" by (auto simp: is_winner_def)
    then have "md_Metrics t ! j \<in> set (buildPerMetricTrace K h)" using entries nth_mem by metis
    then have "te_Name (md_Metrics t ! j) \<noteq> []"
      using entry_of_trace [of "md_Metrics t ! j" K h] trace_entry_name by metis
    then show ?thesis using sim winner_largest [OF w(1)] w(2) j nth_mem [OF j(1)] by auto
  qed
qed

subsection \<open>Samples\<close>

definition loaded_hpa :: "int \<Rightarrow> int \<Rightarrow> int \<Rightarrow> (int, string) hpa" where
  "loaded_hpa replicas target reading =
     (let spec = \<lparr>mu_Type = ResourceMetricSourceType,
            mu_Resource = Some \<lparr>rm_Name = ''cpu'', rm_Payload = \<lparr>mt_Type = UtilizationMetricType,
              mt_Value = None, mt_AverageValue = None, mt_AverageUtilization = Some target\<rparr>\<rparr>,
            mu_ContainerResource = None, mu_Pods = None, mu_Object = None, mu_External = None\<rparr>;
          cur = \<lparr>mu_Type = ResourceMetricSourceType,
            mu_Resource = Some \<lparr>rm_Name = ''cpu'', rm_Payload = \<lparr>mv_Value = None, mv_AverageValue = None,
              mv_AverageUtilization = Some reading\<rparr>\<rparr>,
            mu_ContainerResource = None, mu_Pods = None, mu_Object = None, mu_External = None\<rparr>
      in \<lparr>hpa_Namespace = ''default'', hpa_Name = ''web'',
          hpa_Spec = \<lparr>sp_MinReplicas = Some 2, sp_MaxReplicas = 10, sp_Metrics = [spec], sp_Behavior = None\<rparr>,
          hpa_Status = \<lparr>st_CurrentReplicas = replicas, st_DesiredReplicas = replicas, st_CurrentMetrics = [cur], st_Conditions = []\<rparr>\<rparr>)"

definition loaded_trace :: "int \<Rightarrow> int \<Rightarrow> int \<Rightarrow> metric_decision_trace" where
  "loaded_trace replicas target reading = the (BuildMetricDecisionTrace int_lib (Some (loaded_hpa replicas target reading)) 2)"

lemma loaded: "BuildMetricDecisionTrace int_lib (Some (loaded_hpa replicas target reading)) 2 = Some (loaded_trace replicas target reading)"
  by (simp add: loaded_trace_def BuildMetricDecisionTrace_def)

definition loaded_status :: "int \<Rightarrow> int \<Rightarrow> int \<Rightarrow> (int, string) metric_status" where
  "loaded_status replicas target reading = hd (currentMetricsOf (loaded_hpa replicas target reading))"

definition loaded_ratio :: "int \<Rightarrow> int \<Rightarrow> int \<Rightarrow> f64" where
  "loaded_ratio replicas target reading = the (snd (metricImpactRatio int_lib (loaded_hpa replicas target reading) (loaded_status replicas target reading)))"

lemma loaded_entry:
  assumes "metricImpactRatio int_lib (loaded_hpa n target reading) (loaded_status n target reading) = (''cpu'', Some r)"
  shows "md_Metrics (loaded_trace n target reading) = [trace_entry int_lib (loaded_hpa n target reading) (loaded_status n target reading) ''cpu'' (Some r)]"
proof -
  have "currentMetricsOf (loaded_hpa n target reading) = [loaded_status n target reading]" by (simp add: loaded_status_def loaded_hpa_def)
  then show ?thesis using assms by (simp add: trace_metrics [OF loaded] buildPerMetricTrace_def)
qed

text \<open>
  At one tenth above the target the subtraction leaves the band while the sum does not exceed it: the metric is outside the
  tolerance, asks for another replica, and has no direction.
\<close>

lemma boundary_facts:
  "metricImpactRatio int_lib (loaded_hpa 4 80 88) (loaded_status 4 80 88) = (''cpu'', Some (mk (11 / 10)))"
  "EstimatedDesiredForRatio int_lib (loaded_hpa 4 80 88) (mk (11 / 10)) = 5"
  "RatioWithinTolerance int_lib (Some (loaded_hpa 4 80 88)) (mk (11 / 10)) = (False, DefaultTolerance)"
  "desired_direction (mk (11 / 10)) DefaultTolerance = ''none''"
  by code_simp+

lemma boundary_direction:
  "map (\<lambda>e. (te_EstimatedDesiredReplicas e, te_WithinTolerance e, te_DesiredDirection e)) (md_Metrics (loaded_trace 4 80 88))
   = [(Some 5, False, ''none'')]"
  by (simp add: loaded_entry [OF boundary_facts(1)] trace_entry_fields boundary_facts(2-4))

lemma loaded_facts:
  "metricImpactRatio int_lib (loaded_hpa 4 50 90) (loaded_status 4 50 90) = (''cpu'', Some (mk (9 / 5)))"
  "EstimatedDesiredForRatio int_lib (loaded_hpa 4 50 90) (mk (9 / 5)) = 8"
  "RatioWithinTolerance int_lib (Some (loaded_hpa 4 50 90)) (mk (9 / 5)) = (False, DefaultTolerance)"
  "desired_direction (mk (9 / 5)) DefaultTolerance = ''up''"
  "\<not> winnerHiddenByControllerState int_lib (loaded_hpa 4 50 90)"
  by code_simp+

theorem trace_winner_witness:
  "md_Winner (loaded_trace 4 50 90) = ''cpu'' \<and> md_WinnerConfidence (loaded_trace 4 50 90) = ConfidenceMedium"
  using trace_winner [OF loaded refl, of 4 50 90] loaded_facts(5)
  by (auto simp: loaded_entry [OF loaded_facts(1)] trace_entry_fields trace_entry_name loaded_facts(2) is_winner_def)

theorem trace_matches_simulation_witness:
  "\<exists>e\<in>set (md_Metrics (loaded_trace 4 50 90)). te_Name e \<noteq> [] \<and> te_EstimatedDesiredReplicas e = Some 8"
proof -
  have "simulatedDesiredFromMetrics (Some (metricImpactRatio int_lib)) int_lib (loaded_hpa 4 50 90) = Inr (Some 8)"
    "clear_ratios int_lib (loaded_hpa 4 50 90)" "currentOf (loaded_hpa 4 50 90) \<noteq> 0"
    by code_simp+
  then show ?thesis using trace_matches_simulation [OF loaded, of 4 50 90] by auto
qed

theorem direction_agrees_witness: "\<exists>d. EstimatedDesiredForRatio int_lib (loaded_hpa 4 50 90) (mk (9 / 5)) = d \<and> 4 \<le> d"
proof -
  have "\<not> is_nan (mk (9 / 5))" "\<not> is_inf (mk (9 / 5))" "\<not> f_lt (mk (9 / 5)) (Fin 0)" by code_simp+
  then obtain r where r: "mk (9 / 5) = Fin r" "0 \<le> r" using usable_finite by blast
  let ?e = "trace_entry int_lib (loaded_hpa 4 50 90) (loaded_status 4 50 90) ''cpu'' (Some (mk (9 / 5)))"
  have "?e \<in> set (md_Metrics (loaded_trace 4 50 90))" by (simp add: loaded_entry [OF loaded_facts(1)])
  moreover have "te_Ratio ?e = Some (Fin r)" by (simp add: trace_entry_ratio r)
  moreover have "currentOf (loaded_hpa 4 50 90) = 4" by (simp add: loaded_hpa_def)
  ultimately show ?thesis
    using direction_agrees [OF loaded, of ?e 4 50 90 r] r(2) by (auto simp: trace_entry_fields loaded_facts in32_def)
qed

end
