(* ===== verification/DecisionTrace.thy ===== *)
theory DecisionTrace
  imports MetricTrace
begin

section \<open>Decision traces and decision signals\<close>

text \<open>
  \<open>pkg/hpa/decision_trace.go\<close>, \<open>decision_trace_export.go\<close>, \<open>decision_estimation.go\<close> and \<open>decision_signals.go\<close>: the step-by-step explanation
  of a decision, its schema-versioned export, and the signals estimated from status, metrics and conditions.
\<close>

subsection \<open>The readable trace\<close>

record decision_trace_metric =
  dm_Name :: string
  dm_Type :: string
  dm_Current :: string
  dm_Target :: string
  dm_Ratio :: "f64 option"
  dm_RawDesired :: "int option"
  dm_Formula :: string
  dm_Direction :: string
  dm_Confidence :: string

record decision_trace =
  dt_Namespace :: string
  dt_Name :: string
  dt_CurrentReplicas :: int
  dt_VisibleDesired :: int
  dt_EstimatedRawDesired :: int
  dt_MaxReplicas :: int
  dt_MinReplicas :: int
  dt_Metrics :: "decision_trace_metric list"
  dt_LimitCheck :: string
  dt_Stabilization :: string
  dt_FinalInterpretation :: string
  dt_Confidence :: string
  dt_Notes :: "string list"

definition metricValueStatusString :: "('q, 's) k8s_lib \<Rightarrow> 'q metric_value \<Rightarrow> string" where
  "metricValueStatusString K v = (case mv_AverageUtilization v of
     Some u \<Rightarrow> show_int u @ ''%''
   | None \<Rightarrow> (case mv_AverageValue v of
       Some q \<Rightarrow> q_string K q
     | None \<Rightarrow> (case mv_Value v of Some q \<Rightarrow> q_string K q | None \<Rightarrow> ''<unknown>'')))"

definition metricDisplayValues :: "('q, 's) k8s_lib \<Rightarrow> ('q, 's) hpa \<Rightarrow> ('q, 's) metric_status \<Rightarrow> string \<times> string" where
  "metricDisplayValues K h metric = (case CurrentMetricValueStatus K metric of
     None \<Rightarrow> ([], [])
   | Some v \<Rightarrow> (case MatchingTarget K h metric of
       None \<Rightarrow> (metricValueStatusString K v, [])
     | Some target \<Rightarrow> (metricValueStatusString K v, FormatMetricTarget K target)))"

definition ceil_formula :: "int \<Rightarrow> f64 \<Rightarrow> int \<Rightarrow> string" where
  "ceil_formula current ratio raw = ''ceil('' @ show_int current @ '' * '' @ show_fixed 3 ratio @ '') = '' @ show_int raw"

definition buildDecisionTraceMetric :: "('q, 's) k8s_lib \<Rightarrow> ('q, 's) hpa \<Rightarrow> ('q, 's) metric_status \<Rightarrow> decision_trace_metric" where
  "buildDecisionTraceMetric K h metric =
     (let (name, ratio) = metricImpactRatio K h metric;
          entry = \<lparr>dm_Name = name, dm_Type = mu_Type metric, dm_Current = [], dm_Target = [], dm_Ratio = None, dm_RawDesired = None, dm_Formula = [],
            dm_Direction = [], dm_Confidence = ConfidenceMedium\<rparr>
      in if name = [] then entry
         else
           let (current, target) = metricDisplayValues K h metric;
               entry1 = entry\<lparr>dm_Current := current, dm_Target := target\<rparr>
           in (case (ratio, currentOf h = 0) of
                (Some r, False) \<Rightarrow>
                  (let (raw, usable) = ProjectedReplicasForRatio (currentOf h) r
                   in if \<not> usable then entry1\<lparr>dm_Confidence := ConfidenceLow\<rparr>
                      else entry1\<lparr>dm_Ratio := ratio, dm_RawDesired := Some raw,
                        dm_Direction := (if raw > currentOf h then ''up'' else if raw < currentOf h then ''down'' else ''none''),
                        dm_Formula := ceil_formula (currentOf h) r raw\<rparr>)
              | _ \<Rightarrow> entry1\<lparr>dm_Confidence := ConfidenceLow\<rparr>))"

text \<open>The running maximum starts at zero.\<close>

definition max_raw :: "int option list \<Rightarrow> int" where
  "max_raw ds = fold (\<lambda>d m. case d of Some v \<Rightarrow> (if v > m then v else m) | None \<Rightarrow> m) ds 0"

definition limit_text :: "int \<Rightarrow> int \<Rightarrow> int \<Rightarrow> string" where
  "limit_text raw minReplicas maxReplicas =
     (if raw > maxReplicas then ''maxReplicas='' @ show_int maxReplicas @ '' caps estimated raw desired replicas '' @ show_int raw
      else if raw > 0 \<and> raw < minReplicas then ''minReplicas='' @ show_int minReplicas @ '' raises estimated raw desired replicas '' @ show_int raw
      else if raw > 0 then ''estimated raw desired replicas are within minReplicas/maxReplicas''
      else ''raw desired replicas unavailable'')"

definition buildDecisionLimitCheck :: "decision_trace \<Rightarrow> string" where
  "buildDecisionLimitCheck t = limit_text (dt_EstimatedRawDesired t) (dt_MinReplicas t) (dt_MaxReplicas t)"

definition buildDecisionStabilization :: "('q, 's) hpa \<Rightarrow> string" where
  "buildDecisionStabilization h =
     (if scale_down_stabilized h then (case ScaleDownStabilizationWindow h of
          Some window \<Rightarrow> ''scaleDown stabilization observed; configured window '' @ show_int window @ ''s, remaining time unknown''
        | None \<Rightarrow> ''scaleDown stabilization observed; remaining time unknown'')
      else ''scaleDown window not visibly active'')"

definition buildDecisionFinalInterpretation :: "decision_trace \<Rightarrow> string" where
  "buildDecisionFinalInterpretation t =
     (let raw = dt_EstimatedRawDesired t
      in if raw > dt_MaxReplicas t then ''HPA wants about '' @ show_int raw @ '' replicas from visible metrics, but maxReplicas='' @ show_int (dt_MaxReplicas t) @ '' caps it.''
         else if raw > 0 then ''HPA wants about '' @ show_int raw @ '' replicas from visible metrics; API status reports desiredReplicas='' @ show_int (dt_VisibleDesired t) @ ''.''
         else ''HPA status reports desiredReplicas='' @ show_int (dt_VisibleDesired t) @ ''; metric math is not visible enough to estimate raw desired replicas.'')"

definition BuildDecisionTrace :: "('q, 's) k8s_lib \<Rightarrow> ('q, 's) hpa option \<Rightarrow> int \<Rightarrow> decision_trace option" where
  "BuildDecisionTrace K hp minReplicas = map_option (\<lambda>h.
     let metrics = filter (\<lambda>e. dm_Name e \<noteq> []) (map (buildDecisionTraceMetric K h) (currentMetricsOf h));
         t0 = \<lparr>dt_Namespace = hpa_Namespace h, dt_Name = hpa_Name h, dt_CurrentReplicas = currentOf h, dt_VisibleDesired = desiredOf h,
           dt_EstimatedRawDesired = max_raw (map dm_RawDesired metrics), dt_MaxReplicas = maxReplicasOf h, dt_MinReplicas = minReplicas,
           dt_Metrics = metrics, dt_LimitCheck = [], dt_Stabilization = [], dt_FinalInterpretation = [], dt_Confidence = ConfidenceMedium, dt_Notes = []\<rparr>;
         notes = (if metrics = [] then [''No current metrics are visible in HPA status; raw desired replicas cannot be estimated.''] else [])
           @ (if length metrics > 1 then [''For multi-metric HPAs, Kubernetes chooses the largest per-metric recommendation; per-metric recommendations are estimated here.''] else [])
           @ [''Missing metrics and not-yet-ready pod adjustments are controller-internal; this trace marks inferred math with medium or low confidence.'']
     in t0\<lparr>dt_LimitCheck := buildDecisionLimitCheck t0, dt_Stabilization := buildDecisionStabilization h,
          dt_FinalInterpretation := buildDecisionFinalInterpretation t0,
          dt_Confidence := (if metrics = [] then ConfidenceLow else ConfidenceMedium), dt_Notes := notes\<rparr>) hp"

subsection \<open>The exported trace\<close>

record structured_metric =
  sm_Name :: string
  sm_Type :: string
  sm_Current :: string
  sm_Target :: string
  sm_Ratio :: "f64 option"
  sm_DistanceFromTarget :: f64
  sm_DesiredDirection :: string
  sm_WithinTolerance :: bool
  sm_EffectiveTolerance :: f64
  sm_EstimatedDesiredReplicas :: "int option"
  sm_Formula :: string
  sm_Confidence :: string

record tolerance_trace =
  tt_DefaultTolerance :: f64
  tt_ConfiguredTolerance :: "f64 option"
  tt_ConfiguredScaleUpTolerance :: "f64 option"
  tt_ConfiguredScaleDownTolerance :: "f64 option"
  tt_EffectiveTolerance :: f64
  tt_ScaleUpTolerance :: f64
  tt_ScaleDownTolerance :: f64
  tt_SuppressedMetrics :: "string list"
  tt_Note :: string

record stabilization_trace =
  sz_WindowSeconds :: int
  sz_Direction :: string
  sz_RemainingSeconds :: "int option"
  sz_SuppressedDirection :: string
  sz_Note :: string

record decision_step =
  ds_Step :: int
  ds_Description :: string
  ds_Result :: string
  ds_Impact :: string
  ds_Confidence :: string

record structured_trace =
  sx_SchemaVersion :: string
  sx_Namespace :: string
  sx_Name :: string
  sx_CurrentReplicas :: int
  sx_VisibleDesiredReplicas :: int
  sx_EstimatedRawDesired :: int
  sx_MinReplicas :: int
  sx_MaxReplicas :: int
  sx_Metrics :: "structured_metric list"
  sx_WinnerMetric :: string
  sx_WinnerConfidence :: string
  sx_LimitClamp :: string
  sx_ToleranceEffect :: "tolerance_trace option"
  sx_StabilizationEffect :: "stabilization_trace option"
  sx_DecisionPath :: "decision_step list"
  sx_Summary :: string
  sx_Confidence :: string

text \<open>The fields of the analysis the export reads.\<close>

record export_input =
  xi_Min :: int
  xi_Max :: int
  xi_MetricDecisionTrace :: "metric_decision_trace option"
  xi_StabilizationSource :: string

definition structured_metric_of :: "('q, 's) k8s_lib \<Rightarrow> ('q, 's) hpa \<Rightarrow> ('q, 's) metric_status \<Rightarrow> string \<Rightarrow> f64 option \<Rightarrow> structured_metric" where
  "structured_metric_of K h metric name ratio =
     (let (current, target) = metricDisplayValues K h metric;
          entry = \<lparr>sm_Name = name, sm_Type = mu_Type metric, sm_Current = current, sm_Target = target, sm_Ratio = None, sm_DistanceFromTarget = Fin 0,
            sm_DesiredDirection = ''none'', sm_WithinTolerance = False, sm_EffectiveTolerance = Fin 0, sm_EstimatedDesiredReplicas = None,
            sm_Formula = [], sm_Confidence = ConfidenceMedium\<rparr>
      in case ratio of
           None \<Rightarrow> entry\<lparr>sm_Confidence := ConfidenceLow\<rparr>
         | Some r \<Rightarrow>
             let (inside, tol) = RatioWithinTolerance K (Some h) r;
                 entry1 = entry\<lparr>sm_Ratio := ratio, sm_DistanceFromTarget := f_abs (f_sub r (Fin 1)), sm_WithinTolerance := inside,
                   sm_EffectiveTolerance := tol, sm_DesiredDirection := desired_direction r tol\<rparr>;
                 raw = EstimatedDesiredForRatio K h r
             in if currentOf h > 0 then
                  entry1\<lparr>sm_EstimatedDesiredReplicas := Some raw,
                    sm_Formula := (if inside then ''|'' @ show_fixed 3 r @ '' - 1| <= '' @ show_fixed 3 tol @ ''; keep '' @ show_int raw @ '' replicas''
                      else ceil_formula (currentOf h) r raw)\<rparr>
                else entry1)"

definition buildStructuredMetricTraces :: "('q, 's) k8s_lib \<Rightarrow> ('q, 's) hpa \<Rightarrow> structured_metric list" where
  "buildStructuredMetricTraces K h = concat (map (\<lambda>metric. let (name, ratio) = metricImpactRatio K h metric
     in if name = [] then [] else [structured_metric_of K h metric name ratio]) (currentMetricsOf h))"

definition computed_winner :: "('q, 's) k8s_lib \<Rightarrow> ('q, 's) hpa \<Rightarrow> structured_metric list \<Rightarrow> string \<times> string" where
  "computed_winner K h metrics = (case winner_loop 0 (map sm_EstimatedDesiredReplicas metrics) None 0 of
     (None, _) \<Rightarrow> ([], [])
   | (Some (i, _), n) \<Rightarrow> (sm_Name (metrics ! i), if n > 1 \<or> winnerHiddenByControllerState K h then ConfidenceLow else ConfidenceMedium))"

definition resolveStructuredWinner :: "('q, 's) k8s_lib \<Rightarrow> ('q, 's) hpa \<Rightarrow> export_input \<Rightarrow> structured_metric list \<Rightarrow> string \<times> string" where
  "resolveStructuredWinner K h a metrics =
     (case xi_MetricDecisionTrace a of
        Some t \<Rightarrow> if md_Winner t \<noteq> [] then (md_Winner t, md_WinnerConfidence t) else computed_winner K h metrics
      | None \<Rightarrow> computed_winner K h metrics)"

definition computeEstimatedRawDesired :: "structured_metric list \<Rightarrow> int" where
  "computeEstimatedRawDesired metrics = max_raw (map sm_EstimatedDesiredReplicas metrics)"

definition buildStructuredLimitClamp :: "structured_trace \<Rightarrow> string" where
  "buildStructuredLimitClamp t = limit_text (sx_EstimatedRawDesired t) (sx_MinReplicas t) (sx_MaxReplicas t)"

definition joinStrings :: "string list \<Rightarrow> string \<Rightarrow> string" where
  "joinStrings parts sep = join_str sep (filter (\<lambda>p. p \<noteq> []) parts)"

definition buildStructuredToleranceTrace :: "('q, 's) k8s_lib \<Rightarrow> ('q, 's) hpa \<Rightarrow> structured_metric list \<Rightarrow> tolerance_trace option" where
  "buildStructuredToleranceTrace K h metrics =
     (case map sm_Name (filter sm_WithinTolerance metrics) of
        [] \<Rightarrow> None
      | first # others \<Rightarrow>
          let suppressed = first # others;
              (up, down) = EffectiveDirectionalTolerances K (Some h);
              (configuredUp, configuredDown) = ConfiguredDirectionalTolerances K (Some h);
              configured = (case (configuredUp, configuredDown) of (Some u, Some d) \<Rightarrow> if f_eq u d then configuredUp else None | _ \<Rightarrow> None)
          in Some \<lparr>tt_DefaultTolerance = DefaultTolerance, tt_ConfiguredTolerance = configured, tt_ConfiguredScaleUpTolerance = configuredUp,
               tt_ConfiguredScaleDownTolerance = configuredDown,
               tt_EffectiveTolerance = (case configured of Some c \<Rightarrow> c
                 | None \<Rightarrow> (case find (\<lambda>m. sm_Name m = first) metrics of Some m \<Rightarrow> sm_EffectiveTolerance m | None \<Rightarrow> DefaultTolerance)),
               tt_ScaleUpTolerance = up, tt_ScaleDownTolerance = down, tt_SuppressedMetrics = suppressed,
               tt_Note = (if length suppressed = length metrics
                 then ''all metrics within directional tolerance bands (scaleUp='' @ show_fixed 3 up @ '', scaleDown='' @ show_fixed 3 down
                   @ ''), no scaling decision triggered''
                 else ''tolerance suppressed scaling for: '' @ joinStrings suppressed '', '')\<rparr>)"

definition buildStructuredStabilizationTrace :: "('q, 's) hpa \<Rightarrow> export_input \<Rightarrow> stabilization_trace option" where
  "buildStructuredStabilizationTrace h a =
     (if \<not> scale_down_stabilized h then None
      else Some \<lparr>sz_WindowSeconds = (case ScaleDownStabilizationWindow h of Some w \<Rightarrow> w | None \<Rightarrow> 0),
        sz_Direction = (if xi_StabilizationSource a \<noteq> [] then xi_StabilizationSource a else ''scaleDown''), sz_RemainingSeconds = None,
        sz_SuppressedDirection = ''scaleDown'', sz_Note = ''stabilization observed; remaining time unknown''\<rparr>)"

definition formatRatioSafe :: "f64 option \<Rightarrow> string" where
  "formatRatioSafe ratio = (case ratio of None \<Rightarrow> ''unavailable'' | Some r \<Rightarrow> show_fixed 3 r)"

text \<open>The steps without their numbers; the code counts while it appends.\<close>

definition path_step :: "string \<Rightarrow> string \<Rightarrow> string \<Rightarrow> string \<Rightarrow> decision_step" where
  "path_step description result impact conf = \<lparr>ds_Step = 0, ds_Description = description, ds_Result = result, ds_Impact = impact, ds_Confidence = conf\<rparr>"

definition metric_step :: "structured_metric \<Rightarrow> decision_step" where
  "metric_step m = path_step (''Evaluate metric '' @ sm_Name m @ '' ('' @ sm_Type m @ '')'')
     (''ratio='' @ formatRatioSafe (sm_Ratio m) @ (if sm_Formula m \<noteq> [] then '' formula='' @ sm_Formula m else []))
     (if sm_WithinTolerance m then ''within tolerance, no scaling'' else ''metric wants '' @ sm_DesiredDirection m) (sm_Confidence m)"

definition number_steps :: "decision_step list \<Rightarrow> decision_step list" where
  "number_steps steps = map (\<lambda>(i, s). s\<lparr>ds_Step := int i\<rparr>) (zip [1..<Suc (length steps)] steps)"

definition buildStructuredDecisionPath :: "structured_trace \<Rightarrow> decision_step list" where
  "buildStructuredDecisionPath t = number_steps
     ([path_step ''Read current replicas'' (''currentReplicas='' @ show_int (sx_CurrentReplicas t)) [] ConfidenceHigh]
      @ map metric_step (sx_Metrics t)
      @ [path_step ''Apply minReplicas/maxReplicas limits'' (sx_LimitClamp t) [] ConfidenceHigh]
      @ (case sx_ToleranceEffect t of None \<Rightarrow> []
         | Some e \<Rightarrow> [path_step ''Check tolerance'' (tt_Note e) (''suppressed metrics: '' @ joinStrings (tt_SuppressedMetrics e) '', '') ConfidenceMedium])
      @ (case sx_StabilizationEffect t of None \<Rightarrow> []
         | Some e \<Rightarrow> [path_step ''Check stabilization window'' (sz_Note e) (''suppressed '' @ sz_SuppressedDirection e) ConfidenceMedium])
      @ (if sx_WinnerMetric t \<noteq> [] then [path_step ''Determine winning metric'' (''winner='' @ sx_WinnerMetric t)
           (''confidence='' @ sx_WinnerConfidence t) (sx_WinnerConfidence t)] else [])
      @ [path_step ''Produce final desiredReplicas'' (''desiredReplicas='' @ show_int (sx_VisibleDesiredReplicas t)) [] (sx_Confidence t)])"

definition buildStructuredSummary :: "structured_trace \<Rightarrow> string" where
  "buildStructuredSummary t =
     (if sx_Metrics t = [] then ''no metrics available for decision trace''
      else if sx_WinnerMetric t \<noteq> [] then ''metric '' @ sx_WinnerMetric t @ '' drove the decision; desiredReplicas='' @ show_int (sx_VisibleDesiredReplicas t)
        @ '' (confidence: '' @ sx_WinnerConfidence t @ '')''
      else ''desiredReplicas='' @ show_int (sx_VisibleDesiredReplicas t) @ '' from '' @ show_int (int (length (sx_Metrics t))) @ '' metric(s)'')"

definition ExportStructuredDecisionTrace :: "('q, 's) k8s_lib \<Rightarrow> ('q, 's) hpa option \<Rightarrow> export_input \<Rightarrow> structured_trace option" where
  "ExportStructuredDecisionTrace K hp a = map_option (\<lambda>h.
     let metrics = buildStructuredMetricTraces K h;
         (winner, winnerConfidence) = resolveStructuredWinner K h a metrics;
         t0 = \<lparr>sx_SchemaVersion = ''v1'', sx_Namespace = hpa_Namespace h, sx_Name = hpa_Name h, sx_CurrentReplicas = currentOf h,
           sx_VisibleDesiredReplicas = desiredOf h, sx_EstimatedRawDesired = computeEstimatedRawDesired metrics, sx_MinReplicas = xi_Min a,
           sx_MaxReplicas = xi_Max a, sx_Metrics = metrics, sx_WinnerMetric = winner, sx_WinnerConfidence = winnerConfidence, sx_LimitClamp = [],
           sx_ToleranceEffect = buildStructuredToleranceTrace K h metrics, sx_StabilizationEffect = buildStructuredStabilizationTrace h a,
           sx_DecisionPath = [], sx_Summary = [], sx_Confidence = ConfidenceMedium\<rparr>;
         t1 = t0\<lparr>sx_LimitClamp := buildStructuredLimitClamp t0\<rparr>
     in t1\<lparr>sx_DecisionPath := buildStructuredDecisionPath t1, sx_Summary := buildStructuredSummary t1\<rparr>) hp"

subsection \<open>Decision signals\<close>

record decision_signal =
  sg_Reason :: string
  sg_Message :: string
  sg_MetricName :: string
  sg_Source :: string
  sg_Confidence :: string
  sg_Classification :: string
  sg_AdapterVersion :: string

definition signal :: "string \<Rightarrow> string \<Rightarrow> string \<Rightarrow> string \<Rightarrow> string \<Rightarrow> decision_signal" where
  "signal reason message metric source conf = \<lparr>sg_Reason = reason, sg_Message = message, sg_MetricName = metric, sg_Source = source,
     sg_Confidence = conf, sg_Classification = [], sg_AdapterVersion = []\<rparr>"

definition classifyDecisionSignal :: "decision_signal \<Rightarrow> string" where
  "classifyDecisionSignal s =
     (if sg_Source s = ''HPAController'' then ''observed''
      else if sg_Confidence s = ConfidenceHigh \<or> sg_Confidence s = ConfidenceMedium then ''estimated'' else ''unknown'')"

definition buildStabilizationDecisionSignal :: "('q, 's) hpa \<Rightarrow> decision_signal option" where
  "buildStabilizationDecisionSignal h =
     (if \<not> scale_down_stabilized h then None
      else Some (signal ReasonScaleDownStabilized (case ScaleDownStabilizationWindow h of
          Some window \<Rightarrow> ''Scale-down stabilization observed; configured window '' @ show_int window @ ''s, remaining time unknown''
        | None \<Rightarrow> ''Scale-down stabilization observed; remaining time unknown'') [] ''StabilizationWindow'' ConfidenceMedium))"

definition buildMetricDecisionSignals :: "('q, 's) k8s_lib \<Rightarrow> ('q, 's) hpa \<Rightarrow> decision_signal list" where
  "buildMetricDecisionSignals K h =
     (if currentMetricsOf h = [] then []
      else let minReplicas = (case minReplicasOf h of Some v \<Rightarrow> v | None \<Rightarrow> 1)
           in case BuildMetricDecisionTrace K (Some h) minReplicas of
                None \<Rightarrow> []
              | Some t \<Rightarrow>
                  (if md_Winner t \<noteq> [] then [signal (''MetricWinner:'' @ md_Winner t)
                     (''Metric '' @ md_Winner t @ '' is estimated as the dominant scaling driver (confidence: '' @ md_WinnerConfidence t @ '')'')
                     (md_Winner t) ''MetricDecisionTrace'' (md_WinnerConfidence t)] else [])
                  @ map (\<lambda>e. signal (''MetricOutsideTolerance:'' @ te_Name e) (te_Note e) (te_Name e) ''MetricRatio'' ConfidenceMedium)
                      (filter (\<lambda>e. \<not> (te_WithinTolerance e \<or> te_Ratio e = None)) (md_Metrics t))
                  @ (case md_StabilizationEffect t of
                       Some e \<Rightarrow> if se_SuppressedScaleDown e then [signal ''StabilizationEffect'' (se_Note e) [] ''StabilizationWindow'' ConfidenceMedium] else []
                     | None \<Rightarrow> [])
                  @ (case md_ToleranceEffect t of
                       Some e \<Rightarrow> [signal ''ToleranceEffect'' (tf_Note e) [] ''Tolerance'' ConfidenceMedium] | None \<Rightarrow> []))"

definition buildToleranceDecisionSignal :: "('q, 's) hpa \<Rightarrow> decision_signal option" where
  "buildToleranceDecisionSignal h = (case Find (Some h) AbleToScale of
     None \<Rightarrow> None
   | Some c \<Rightarrow> if c_Reason c \<noteq> ''DesiredWithinTolerance'' then None
       else Some (signal ''DesiredWithinTolerance'' (c_Message c) [] ''HPAController'' ConfidenceHigh))"

definition condition_signal :: "hpa_condition \<Rightarrow> decision_signal list" where
  "condition_signal c =
     (if c_Type c = ScalingActive \<and> c_Status c \<noteq> ConditionTrue then [signal (c_Reason c) (c_Message c) [] ''HPAController'' ConfidenceHigh]
      else if c_Type c = ScalingLimited \<and> c_Status c = ConditionTrue then [signal ScalingLimited (c_Message c) [] ''HPAController'' ConfidenceHigh]
      else [])"

definition buildConditionDecisionSignals :: "('q, 's) hpa \<Rightarrow> decision_signal list" where
  "buildConditionDecisionSignals h = concat (map condition_signal (conditionsOf h))"

definition EstimateDecisionSignals :: "('q, 's) k8s_lib \<Rightarrow> ('q, 's) hpa option \<Rightarrow> decision_signal list" where
  "EstimateDecisionSignals K hp = (case hp of
     None \<Rightarrow> []
   | Some h \<Rightarrow> map (\<lambda>s. s\<lparr>sg_AdapterVersion := ''estimation-v1'', sg_Classification := classifyDecisionSignal s\<rparr>)
       ((case buildStabilizationDecisionSignal h of Some s \<Rightarrow> [s] | None \<Rightarrow> []) @ buildMetricDecisionSignals K h
        @ (case buildToleranceDecisionSignal h of Some s \<Rightarrow> [s] | None \<Rightarrow> []) @ buildConditionDecisionSignals h))"

subsection \<open>The estimates agree\<close>

lemma max_raw_step: "fold (\<lambda>d m. case d of Some v \<Rightarrow> (if v > m then v else m) | None \<Rightarrow> m) ds m
    = (case largest ds of None \<Rightarrow> m | Some d \<Rightarrow> max d m)"
  by (induction ds arbitrary: m) (auto simp: max_def split: option.splits)

lemma max_raw_largest: "max_raw ds = (case largest ds of None \<Rightarrow> 0 | Some d \<Rightarrow> max d 0)"
  by (simp add: max_raw_def max_raw_step)

lemma structured_estimates:
  assumes "0 < currentOf h"
  shows "map sm_EstimatedDesiredReplicas (buildStructuredMetricTraces K h) = map te_EstimatedDesiredReplicas (buildPerMetricTrace K h)"
    "map sm_Name (buildStructuredMetricTraces K h) = map te_Name (buildPerMetricTrace K h)"
proof -
  have e: "sm_EstimatedDesiredReplicas (structured_metric_of K h m name ratio) = te_EstimatedDesiredReplicas (trace_entry K h m name ratio)"
    "sm_Name (structured_metric_of K h m name ratio) = te_Name (trace_entry K h m name ratio)" for m name ratio
    using assms by (cases ratio; simp add: structured_metric_of_def trace_entry_def Let_def split: prod.splits)+
  have "map sm_EstimatedDesiredReplicas (concat (map (\<lambda>m. let (name, ratio) = metricImpactRatio K h m in if name = [] then [] else [structured_metric_of K h m name ratio]) ms))
      = map te_EstimatedDesiredReplicas (concat (map (\<lambda>m. let (name, ratio) = metricImpactRatio K h m in if name = [] then [] else [trace_entry K h m name ratio]) ms))
    \<and> map sm_Name (concat (map (\<lambda>m. let (name, ratio) = metricImpactRatio K h m in if name = [] then [] else [structured_metric_of K h m name ratio]) ms))
      = map te_Name (concat (map (\<lambda>m. let (name, ratio) = metricImpactRatio K h m in if name = [] then [] else [trace_entry K h m name ratio]) ms))" for ms
    by (induction ms) (simp_all add: e split: prod.splits)
  then show "map sm_EstimatedDesiredReplicas (buildStructuredMetricTraces K h) = map te_EstimatedDesiredReplicas (buildPerMetricTrace K h)"
    "map sm_Name (buildStructuredMetricTraces K h) = map te_Name (buildPerMetricTrace K h)"
    by (simp_all add: buildStructuredMetricTraces_def buildPerMetricTrace_def)
qed

lemma computed_winner_is_trace:
  assumes "BuildMetricDecisionTrace K (Some h) m = Some t" "0 < currentOf h"
  shows "computed_winner K h (buildStructuredMetricTraces K h) = (md_Winner t, md_WinnerConfidence t)"
proof -
  let ?es = "map te_EstimatedDesiredReplicas (buildPerMetricTrace K h)"
  obtain best n where l: "winner_loop 0 ?es None 0 = (best, n)" by (cases "winner_loop 0 ?es None 0")
  have t: "t = the (BuildMetricDecisionTrace K (Some h) m)" using assms(1) by simp
  show ?thesis
  proof (cases best)
    case None
    then show ?thesis using l by (simp add: t BuildMetricDecisionTrace_def Let_def computed_winner_def determineWinner_def structured_estimates [OF assms(2)])
  next
    case (Some jd)
    obtain j d where jd: "jd = (j, d)" by (cases jd)
    then have "j < length ?es" using winner_search [OF l] Some by (simp add: search_ok_def is_winner_def)
    then have "sm_Name (buildStructuredMetricTraces K h ! j) = te_Name (buildPerMetricTrace K h ! j)"
      using structured_estimates(2) [OF assms(2), of K] by (metis length_map nth_map)
    then show ?thesis using l Some jd
      by (simp add: t BuildMetricDecisionTrace_def Let_def computed_winner_def determineWinner_def structured_estimates(1) [OF assms(2)])
  qed
qed

text \<open>The exported trace does not depend on whether the analysis already carries the metric trace, and with every ratio usable its raw
  count is the one the what-if simulator computes.\<close>

theorem export_agrees:
  assumes "BuildMetricDecisionTrace K (Some h) m = Some t" "0 < currentOf h" "clear_ratios K h"
    and "ExportStructuredDecisionTrace K (Some h) a = Some x" "simulatedDesiredFromMetrics (Some (metricImpactRatio K)) K h = Inr r"
  shows "ExportStructuredDecisionTrace K (Some h) (a\<lparr>xi_MetricDecisionTrace := Some t\<rparr>)
      = ExportStructuredDecisionTrace K (Some h) (a\<lparr>xi_MetricDecisionTrace := None\<rparr>)
    \<and> sx_EstimatedRawDesired x = (case r of None \<Rightarrow> 0 | Some d \<Rightarrow> max d 0)"
proof
  note winner = computed_winner_is_trace [OF assms(1,2)]
  have "resolveStructuredWinner K h (a\<lparr>xi_MetricDecisionTrace := b\<rparr>) (buildStructuredMetricTraces K h)
      = (md_Winner t, md_WinnerConfidence t)" if "b = Some t \<or> b = None" for b
    using that winner by (auto simp: resolveStructuredWinner_def)
  then show "ExportStructuredDecisionTrace K (Some h) (a\<lparr>xi_MetricDecisionTrace := Some t\<rparr>)
      = ExportStructuredDecisionTrace K (Some h) (a\<lparr>xi_MetricDecisionTrace := None\<rparr>)"
    by (simp add: ExportStructuredDecisionTrace_def buildStructuredStabilizationTrace_def)
  have "currentOf h \<noteq> 0" using assms(2) by simp
  then have "r = largest (map te_EstimatedDesiredReplicas (buildPerMetricTrace K h))" using simulation_largest [OF _ assms(3)] assms(5) by simp
  moreover have "sx_EstimatedRawDesired x = computeEstimatedRawDesired (buildStructuredMetricTraces K h)"
    using assms(4) by (auto simp: ExportStructuredDecisionTrace_def Let_def split: prod.splits)
  ultimately show "sx_EstimatedRawDesired x = (case r of None \<Rightarrow> 0 | Some d \<Rightarrow> max d 0)"
    by (simp add: computeEstimatedRawDesired_def structured_estimates(1) [OF assms(2)] max_raw_largest)
qed

lemma numbered: "length js = length steps \<Longrightarrow> map ds_Step (map (\<lambda>(i, s). s\<lparr>ds_Step := int i\<rparr>) (zip js steps)) = map int js"
  by (induction js steps rule: list_induct2) simp_all

text \<open>The steps of a decision path are numbered from one without a gap.\<close>

lemma path_numbers: "map ds_Step (buildStructuredDecisionPath t) = map int [1..<Suc (length (buildStructuredDecisionPath t))]"
proof -
  have l: "length (number_steps steps) = length steps" for steps by (simp add: number_steps_def del: upt_Suc)
  have n: "map ds_Step (number_steps steps) = map int [1..<Suc (length steps)]" for steps
    unfolding number_steps_def by (rule numbered) (simp del: upt_Suc)
  show ?thesis unfolding buildStructuredDecisionPath_def by (simp only: n l)
qed

subsection \<open>What is called observed is a condition of the status\<close>

lemma metric_signal_source: "s \<in> set (buildMetricDecisionSignals K h) \<Longrightarrow> sg_Source s \<noteq> ''HPAController''"
  by (auto simp: buildMetricDecisionSignals_def Let_def signal_def split: if_splits option.splits)

lemma condition_signal_of:
  "s \<in> set (buildConditionDecisionSignals h) \<Longrightarrow> \<exists>c\<in>set (conditionsOf h). sg_Message s = c_Message c
    \<and> (sg_Reason s = c_Reason c \<or> (c_Type c = ScalingLimited \<and> c_Status c = ConditionTrue \<and> sg_Reason s = ScalingLimited))"
  by (auto simp: buildConditionDecisionSignals_def condition_signal_def signal_def split: if_splits)

lemma tolerance_signal_of:
  assumes "buildToleranceDecisionSignal h = Some s"
  shows "\<exists>c\<in>set (conditionsOf h). sg_Message s = c_Message c \<and> sg_Reason s = c_Reason c"
proof -
  obtain c where c: "find (\<lambda>c. c_Type c = AbleToScale) (conditionsOf h) = Some c" "c_Reason c = ''DesiredWithinTolerance''"
    "s = signal ''DesiredWithinTolerance'' (c_Message c) [] ''HPAController'' ConfidenceHigh"
    using assms by (auto simp: buildToleranceDecisionSignal_def Find_def split: option.splits if_splits)
  then have "c \<in> set (conditionsOf h)" by (auto simp: find_Some_iff)
  then show ?thesis using c by (auto simp: signal_def)
qed

text \<open>A signal is called observed only if it repeats the message of a condition of the status, and its reason or the type ScalingLimited; everything derived is estimated or unknown.\<close>

theorem observed_is_condition:
  assumes "s \<in> set (EstimateDecisionSignals K (Some h))" "sg_Classification s = ''observed''"
  shows "\<exists>c\<in>set (conditionsOf h). sg_Message s = c_Message c
    \<and> (sg_Reason s = c_Reason c \<or> (c_Type c = ScalingLimited \<and> c_Status c = ConditionTrue \<and> sg_Reason s = ScalingLimited))"
proof -
  obtain s0 where s0: "s = s0\<lparr>sg_AdapterVersion := ''estimation-v1'', sg_Classification := classifyDecisionSignal s0\<rparr>"
    "buildStabilizationDecisionSignal h = Some s0 \<or> s0 \<in> set (buildMetricDecisionSignals K h) \<or> buildToleranceDecisionSignal h = Some s0
      \<or> s0 \<in> set (buildConditionDecisionSignals h)"
    using assms(1) by (auto simp: EstimateDecisionSignals_def split: option.splits)
  then have "sg_Source s0 = ''HPAController''" using assms(2) by (auto simp: classifyDecisionSignal_def split: if_splits)
  then have "buildToleranceDecisionSignal h = Some s0 \<or> s0 \<in> set (buildConditionDecisionSignals h)"
    using s0(2) metric_signal_source by (auto simp: buildStabilizationDecisionSignal_def signal_def split: if_splits)
  then have "\<exists>c\<in>set (conditionsOf h). sg_Message s0 = c_Message c
      \<and> (sg_Reason s0 = c_Reason c \<or> (c_Type c = ScalingLimited \<and> c_Status c = ConditionTrue \<and> sg_Reason s0 = ScalingLimited))"
    using condition_signal_of [of s0 h] tolerance_signal_of [of h s0] by blast
  then show ?thesis by (simp add: s0(1))
qed

subsection \<open>Samples\<close>

text \<open>The readable trace ignores the tolerance: within the band it announces another replica, while the other traces keep the count.\<close>

lemma near_facts:
  "metricImpactRatio int_lib (loaded_hpa 4 100 105) (loaded_status 4 100 105) = (''cpu'', Some (mk (21 / 20)))"
  "EstimatedDesiredForRatio int_lib (loaded_hpa 4 100 105) (mk (21 / 20)) = 4"
  "ProjectedReplicasForRatio 4 (mk (21 / 20)) = (5, True)"
  by code_simp+

lemma loaded_raw:
  assumes "metricImpactRatio int_lib (loaded_hpa n target reading) (loaded_status n target reading) = (''cpu'', Some r)"
    and "ProjectedReplicasForRatio n r = (raw, True)" "n \<noteq> 0"
  shows "dm_RawDesired (buildDecisionTraceMetric int_lib (loaded_hpa n target reading) (loaded_status n target reading)) = Some raw"
proof -
  have "currentOf (loaded_hpa n target reading) = n" by (simp add: loaded_hpa_def)
  then show ?thesis using assms by (simp add: buildDecisionTraceMetric_def Let_def split: prod.splits)
qed

lemma traces_disagree:
  "dm_RawDesired (buildDecisionTraceMetric int_lib (loaded_hpa 4 100 105) (loaded_status 4 100 105)) = Some 5"
  "te_EstimatedDesiredReplicas (hd (md_Metrics (loaded_trace 4 100 105))) = Some 4"
  by (simp_all add: loaded_raw [OF near_facts(1,3)] loaded_entry [OF near_facts(1)] trace_entry_fields near_facts(2))

text \<open>A metric without any load projects zero replicas, which the trace reports as not available.\<close>

lemma idle_facts:
  "metricImpactRatio int_lib (loaded_hpa 4 100 0) (loaded_status 4 100 0) = (''cpu'', Some (Fin 0))"
  "ProjectedReplicasForRatio 4 (Fin 0) = (0, True)"
  by code_simp+

lemma idle_unavailable:
  "dm_RawDesired (buildDecisionTraceMetric int_lib (loaded_hpa 4 100 0) (loaded_status 4 100 0)) = Some 0"
  "limit_text (max_raw [Some 0]) 2 10 = ''raw desired replicas unavailable''"
  by (simp_all add: loaded_raw [OF idle_facts] max_raw_def limit_text_def)

definition export_options :: export_input where
  "export_options = \<lparr>xi_Min = 2, xi_Max = 10, xi_MetricDecisionTrace = None, xi_StabilizationSource = []\<rparr>"

theorem export_agrees_witness:
  "\<exists>x. ExportStructuredDecisionTrace int_lib (Some (loaded_hpa 4 50 90)) export_options = Some x \<and> sx_EstimatedRawDesired x = 8"
proof -
  obtain x where x: "ExportStructuredDecisionTrace int_lib (Some (loaded_hpa 4 50 90)) export_options = Some x"
    by (simp add: ExportStructuredDecisionTrace_def)
  have "simulatedDesiredFromMetrics (Some (metricImpactRatio int_lib)) int_lib (loaded_hpa 4 50 90) = Inr (Some 8)"
    "clear_ratios int_lib (loaded_hpa 4 50 90)" "0 < currentOf (loaded_hpa 4 50 90)"
    by code_simp+
  then show ?thesis using export_agrees [OF loaded _ _ x] x by auto
qed

definition stuck_hpa :: "(int, string) hpa" where
  "stuck_hpa = set_Conditions [\<lparr>c_Type = ScalingActive, c_Status = ConditionFalse, c_Reason = ''FailedGetResourceMetric'', c_Message = ''no metrics''\<rparr>]
     (set_CurrentMetrics [] (loaded_hpa 4 50 90))"

theorem observed_is_condition_witness:
  "map sg_Message (EstimateDecisionSignals int_lib (Some stuck_hpa)) = [''no metrics'']
    \<and> (\<exists>c\<in>set (conditionsOf stuck_hpa). c_Message c = ''no metrics'')"
proof -
  define s where "s = \<lparr>sg_Reason = ''FailedGetResourceMetric'', sg_Message = ''no metrics'', sg_MetricName = [], sg_Source = ''HPAController'',
     sg_Confidence = ConfidenceHigh, sg_Classification = ''observed'', sg_AdapterVersion = ''estimation-v1''\<rparr>"
  have l: "EstimateDecisionSignals int_lib (Some stuck_hpa) = [s]" unfolding s_def by code_simp
  then have "\<exists>c\<in>set (conditionsOf stuck_hpa). sg_Message s = c_Message c"
    using observed_is_condition [of s int_lib stuck_hpa] by (auto simp: s_def)
  then show ?thesis using l by (auto simp: s_def)
qed

end
