(* ===== verification/HealthOrder.thy ===== *)
theory HealthOrder
  imports Health "HOL-Library.Multiset"
begin

section \<open>Health and the order of the conditions\<close>

text \<open>
  The walk of \<open>applyConditionPenalties\<close> (\<open>pkg/hpa/health.go\<close>) visits the conditions in the order of the status and
  carries the worst state along; what it returns does not depend on that order. The metric ratios the implicit ceiling
  is judged by do not look at the conditions at all.
\<close>

lemma penalties_mset: "penalties xs = sum_mset (image_mset hs_Penalty (mset xs))"
  by (induction xs) simp_all

lemma target_conditions [simp]: "findTargetSpec K (set_Conditions cs h) = findTargetSpec K h"
  by (rule ext) (simp add: findTargetSpec_def)

lemma lookups_conditions [simp]:
  "FindResourceTargetSpec K (set_Conditions cs h) = FindResourceTargetSpec K h"
  "FindContainerResourceTargetSpec K (set_Conditions cs h) = FindContainerResourceTargetSpec K h"
  "FindPodsTargetSpec K (set_Conditions cs h) = FindPodsTargetSpec K h"
  "FindObjectTargetSpec K (set_Conditions cs h) = FindObjectTargetSpec K h"
  "FindExternalTargetSpec K (set_Conditions cs h) = FindExternalTargetSpec K h"
  by (intro ext; simp add: target_lookup_defs)+

lemma ratio_conditions [simp]: "metricImpactRatio K (set_Conditions cs h) x = metricImpactRatio K h x"
  unfolding metricImpactRatio_def
  by (cases "handlerFor (mu_Type x)") (simp_all add: resource_ImpactRatio_def containerResource_ImpactRatio_def
    pods_ImpactRatio_def object_ImpactRatio_def external_ImpactRatio_def split: option.split)

lemma has_metric_conditions [simp]: "hasMetricAboveTarget K ms (set_Conditions cs h) = hasMetricAboveTarget K ms h"
  by (simp add: hasMetricAboveTarget_def)

text \<open>C32. Whatever the weights, the order in which the status lists its conditions is irrelevant: the state, the score and the
  signals (as a multiset) are the same for every permutation. The score is never negative, and the state is ERROR exactly when
  some ScalingActive or AbleToScale condition is listed with a status other than True.\<close>

theorem health_ignores_order:
  assumes "mset cs = mset (conditionsOf h)"
    and "r = HealthWithWeights K (Some h) m w" "r' = HealthWithWeights K (Some (set_Conditions cs h)) m w"
  shows "hr_State r' = hr_State r \<and> hr_Score r' = hr_Score r \<and> mset (hr_Signals r') = mset (hr_Signals r)
    \<and> 0 \<le> hr_Score r
    \<and> (hr_State r = HealthError \<longleftrightarrow>
        (\<exists>c\<in>set (conditionsOf h). c_Type c \<in> {ScalingActive, AbleToScale} \<and> c_Status c \<noteq> ConditionTrue))"
proof -
  let ?h = "set_Conditions cs h"
  have cs: "conditionsOf ?h = cs" by (simp add: set_Conditions_def)
  have ex: "list_ex P cs = list_ex P (conditionsOf h)" for P
    using mset_eq_setD [OF assms(1)] by (simp add: list_ex_iff)
  have ceil: "implicit_ceiling K ?h = implicit_ceiling K h" by (simp add: implicit_ceiling_def ex cs)
  have state: "base_state K ?h = base_state K h" by (simp add: base_state_def ex cs ceil)
  have "mset (cond_signals v cs) = mset (cond_signals v (conditionsOf h))" for v
    using assms(1) by (simp add: List.map_filter_def)
  then have sigs: "mset (base_signals K ?h m v) = mset (base_signals K h m v)" for v
    by (simp add: base_signals_def ex cs ceil state)
  then have "penalties (base_signals K ?h m v) = penalties (base_signals K h m v)" for v
    by (simp add: penalties_mset)
  then show ?thesis
    using sigs by (simp add: assms(2,3) base_result Let_def state) (auto simp: base_state_def list_ex_iff cond_error_def)
qed

definition inactive_cond :: hpa_condition where
  "inactive_cond = \<lparr>c_Type = ScalingActive, c_Status = ConditionFalse, c_Reason = ''FailedGetResourceMetric'', c_Message = []\<rparr>"

definition limited_cond :: hpa_condition where
  "limited_cond = \<lparr>c_Type = ScalingLimited, c_Status = ConditionTrue, c_Reason = ''TooManyReplicas'', c_Message = []\<rparr>"

lemma health_ignores_order_witness:
  "hr_State (HealthWithWeights int_lib (Some (sample_hpa 10 [limited_cond, inactive_cond])) 2 no_weights) = HealthError"
proof -
  let ?h = "sample_hpa 10 [inactive_cond, limited_cond]"
  have "sample_hpa 10 [limited_cond, inactive_cond] = set_Conditions [limited_cond, inactive_cond] ?h"
    "conditionsOf ?h = [inactive_cond, limited_cond]"
    by (simp_all add: sample_hpa_def set_Conditions_def)
  then show ?thesis
    using health_ignores_order [of "[limited_cond, inactive_cond]" ?h, OF _ refl refl, of int_lib 2 no_weights]
    by (simp add: inactive_cond_def)
qed

end
