(* ===== verification/Spec2Isabelle.thy ===== *)
theory Spec2Isabelle
  imports Simulate Flapping HealthGraph HistoryFiles PatchMerge Batch RedactTree Seasonality WarmUp ClusterPlan KubeList Replay DecisionTrace HealthOrder
begin

section \<open>kubectl-hpa-status: the scaling core\<close>

text \<open>
  The program explains what a Kubernetes HorizontalPodAutoscaler (HPA) is doing: it reads the HPA
  object, its events and its metrics, judges their health, and projects what the controller would
  do under other settings. The development models the pure core under \<open>src/pkg/hpa\<close> (the metric
  model, the health score, the what-if simulator, the analyses of rescale and health histories) and
  the store under \<open>src/internal/history\<close> that keeps health snapshots between runs.

  \<^bold>\<open>Conventions.\<close> An \<open>int32\<close> or \<open>int64\<close> is an \<^typ>\<open>int\<close>; \<open>wrap32\<close> and \<open>wrap64\<close> stand where Go
  arithmetic or a conversion can wrap, \<open>quot\<close> and \<open>go_rem\<close> are Go's division. A \<open>float64\<close> is the
  datatype \<open>f64\<close> of \<open>Float64\<close>: a rational that is a double, the infinities and NaN, every operation
  rounded to nearest even. A pointer is an option, a slice a list (a nil slice is told apart only
  where the code does), a string its bytes, a Go map the list of its entries with distinct keys, in
  iteration order. A function that may fail returns \<open>go_error + 'a\<close> or \<open>go_error option\<close>; the error
  holds the sentinels \<open>errors.Is\<close> finds and its text. A run-time panic is the error \<open>panic_err\<close> in
  the simulator and \<^const>\<open>None\<close> in the graph, the bars and the window simulation. Time is a number
  of nanoseconds. \<open>resource.Quantity\<close>, label selectors and their parsing come from the Kubernetes
  libraries: they are the fields of the record \<open>k8s_lib\<close>, the argument \<open>K\<close> of every definition that
  uses them; \<open>int_lib\<close> is a concrete library the witnesses run on. The analysis the simulator calls
  through a function pointer is the argument \<open>A\<close>, the metric ratio function the argument \<open>F\<close>.
  What the operating system and the Go library decide in the history store are arguments as well:
  \<open>srt\<close> a sort by time (\<open>sort.Slice\<close> is not stable), \<open>seed\<close> the iteration order of a Go map, \<open>C\<close> the
  JSON codec of a snapshot, \<open>io\<close> which system call fails and what \<open>stat\<close> reports afterwards, \<open>sha\<close> the
  digest, and \<open>E\<close> what the lock, the clock and the context answer at each attempt.

  \<^bold>\<open>Theories.\<close>
  \<^item> \<open>Prelude\<close>: machine integers, decimal texts and their parsing, strings; \<open>Float64\<close>: doubles, their
    rendering (\<open>%.kf\<close>, \<open>%.pg\<close>) and parsing; \<open>KubeApi\<close>: the API objects of \<open>autoscaling/v2\<close>, errors.
  \<^item> \<open>MetricIdentity\<close> (\<open>internal/metricidentity\<close>), \<open>Metrics\<close> (\<open>core/metric.go\<close>, \<open>metric_utils.go\<close>,
    \<open>metrics_handler.go\<close>), \<open>MetricHandlers\<close> (\<open>metric_handler_*.go\<close>): which status entry belongs to
    which spec metric, and the ratio of value to target.
  \<^item> \<open>Conditions\<close> (\<open>internal/conditions\<close>), \<open>Tolerance\<close> (\<open>internal/tolerance\<close>), \<open>Scaling\<close>
    (\<open>scaling/policy.go\<close>): condition lookup and the window ladder, directional tolerances and the
    replica estimate, and the rate limit of scaling policies over recorded events.
  \<^item> \<open>Health\<close>, \<open>HealthOrder\<close> (\<open>health.go\<close>, \<open>health_state.go\<close>): the weighted score and state, and the dynamic
    penalties that are reconciled against a saved baseline.
  \<^item> \<open>SimPolicy\<close>, \<open>SimMetrics\<close>, \<open>SimOverrides\<close>, \<open>SimDesired\<close>, \<open>SimTypes\<close>, \<open>SimProjection\<close>, \<open>Simulate\<close>
    (\<open>simulate/*.go\<close>, \<open>simulate_init.go\<close>): normalization of a recommendation, overrides of metric
    values and of the specification, recomputation of the desired count, the registered functions,
    trajectories and their graph, and the scenario that composes them.
  \<^item> \<open>Durations\<close> (\<open>rendutil/format.go\<close>), \<open>Events\<close> (\<open>internal/event\<close>), \<open>PatchJson\<close>
    (\<open>internal/util\<close>), \<open>Churn\<close> (\<open>churn\<close>), \<open>Flapping\<close> (\<open>flapping\<close>): rescale histories, their
    normalization, the reversals in them, and what is advised against them.
  \<^item> \<open>HealthTrend\<close>, \<open>HealthGraph\<close> (\<open>healthtrend/*.go\<close>): statistics, flapping, anomalies, sparkline and
    graph of recorded health scores.
  \<^item> \<open>ScanCache\<close> (\<open>scan_cache.go\<close>), \<open>HistoryStore\<close> (\<open>store.go\<close>, \<open>key.go\<close>, \<open>filename.go\<close>, \<open>recorder.go\<close>),
    \<open>HistoryFiles\<close> (file names and \<open>lock.go\<close>): the bounded cache of decoded files, the line-per-snapshot
    files behind it with append, load, prune and record, and the polling lock.
  \<^item> \<open>JsonTree\<close> (JSON values), \<open>PatchMerge\<close> (\<open>internal/patch/merge.go\<close>): the merge of several merge patches
    against RFC 7396.
  \<^item> \<open>Parallel\<close> (\<open>cmd/parallel.go\<close>), \<open>Batch\<close> (\<open>cmd/status_batch.go\<close>, \<open>cmd/exitcode.go\<close>, \<open>main.go\<close>): the
    goroutines of a command over several HPAs as a step relation, the batch envelope and the exit code.
  \<^item> \<open>Regex\<close> (the backtracking reading of package \<open>regexp\<close>), \<open>Redact\<close>, \<open>RedactTree\<close>
    (\<open>cmd/bundle/redact.go\<close>): redaction of support bundles, as text and as decoded objects.
  \<^item> \<open>FloatOrder\<close> (sorted floats and medians), \<open>SeasonCron\<close> (\<open>seasonality/recommend.go\<close>), \<open>Seasonality\<close>
    (\<open>seasonality/seasonality.go\<close>, \<open>types.go\<close>): recurring peaks in recorded demand and the cron schedules
    recommended for them; a zone is a name and a function from instants to local clock readings.
  \<^item> \<open>WarmUp\<close> (\<open>warmup/warmup.go\<close>): the pods a scale-up still waits for, the times to ready and the
    bottlenecks; \<open>CapacityFit\<close> (\<open>capacityplan/capacity_plan_math.go\<close>) and \<open>CapacityPlan\<close>
    (\<open>capacityplan/capacity_*.go\<close>): whether maxReplicas can be raised, checked against quotas, limit ranges,
    nodes and pods. \<open>resource.Quantity\<close> is there the record \<open>k8s_arith\<close>, whose laws are \<open>quantity_laws\<close>;
    \<open>int_arith\<close> is a concrete instance.
  \<^item> \<open>PodResources\<close> (\<open>internal/kube/resources.go\<close>): what a pod reserves, with init containers, sidecars, pod-level
    resources and overhead; \<open>NodeHeadroom\<close> (\<open>internal/kube/nodes.go\<close>, \<open>headroom.go\<close>): eligible nodes and what the
    pods bound to them leave free; \<open>ClusterPlan\<close> (\<open>cmd/capacity_plan.go\<close>, \<open>internal/kube/capacity.go\<close>): the input of the
    capacity plan, assembled from the answers of the API server, which are the record \<open>cluster_view\<close>.
  \<^item> \<open>KubeList\<close> (\<open>internal/kube/pagination.go\<close>, \<open>retry.go\<close>): the page by page listings behind those answers, with their
    retries; the server, the clock and the context are the record \<open>api_env\<close> over a state of the world.
  \<^item> \<open>Replay\<close> (\<open>retrospective/retrospective.go\<close>, \<open>replay.go\<close>): the timeline of past decisions read from events, and the
    control cycles, stabilization windows and bottlenecks found in it; the terminal library is the record \<open>ansi_lib\<close>.
  \<^item> \<open>MetricTrace\<close> (\<open>metric_trace.go\<close>): the entry of every metric, the winner and the effects of tolerance and
    stabilization; \<open>DecisionTrace\<close> (\<open>decision_trace.go\<close>, \<open>decision_trace_export.go\<close>, \<open>decision_estimation.go\<close>): the
    readable and the structured trace of a decision and the signals it is explained with. Their records come from
    \<open>decision_trace_types.go\<close>; the adapter that selects the estimator (\<open>decision_signals.go\<close>) is not modelled.

  \<^bold>\<open>How they interact.\<close> \<open>Scenario\<close> analyzes an HPA, builds the modified object with
  \<open>BuildSimulatedHPA\<close> (overrides in sorted order, validation, recomputation through the ratio
  function and the rate policies), analyzes it again and explains the difference. The simulator
  relies on the rate limit only through the locale \<open>rate_limit\<close> of \<open>Scaling\<close> (a limit never points
  against its direction and stays a replica count); \<open>SimPolicy\<close> interprets it for the policies of the
  HPA. The history analyses rely on the normalization only through the locale
  \<open>rescale_normalizer\<close> of \<open>Events\<close> (strictly increasing instants, exactly the uncontradicted
  observations), interpreted there for \<open>NormalizeRescales\<close>. The store
  uses the cache through the locale \<open>scan_memo\<close> of \<open>ScanCache\<close> (what is loaded is what was saved for the
  same file, trimmed to the later cutoff), interpreted there as \<open>memo\<close>.

  \<^bold>\<open>What is shown.\<close> Refinement of declarative descriptions (the base health result, which does not depend on the
  order of the conditions, the evidence check for a scale-down, the extremum of policy limits); invariants (overrides keep identities and
  status, the recomputation touches only its fields, reconciliation has no memory of earlier
  weights, normalization is idempotent); safety (a projection never passes the rate limit of its direction, stays within the bounds from a count
  inside them, and never scales down on incomplete evidence unless the count exceeds maxReplicas; simulated objects are
  valid, graphs do not index out of range);
  equivalence (trajectories are the sampled step function, independence of map and event order, the
  two flip walks agree); bounds of scores, ratios, bars and limits; round trips of weights,
  override texts and recorded snapshots; the cache answers what a fresh scan would and evicts least
  recently used first; the eviction loop ends, the wait for the lock within two seconds and 202 attempts, and a lock that becomes free
  in time is acquired; a batch ends, its outcome and, unless its output cannot be written, its exit code do not depend on
  the schedule, and a redacted bundle does not depend on the secrets; a recommended schedule fires exactly on the weekdays
  the recording gives evidence for, where the strongest run of its averaged day opens and closes;
  a capacity plan that calls itself safe is covered by every quota, limit range and node, and its pods can be
  placed on the nodes of the cluster it was drawn from; a listing ends and, without an error, is complete; a replayed
  timeline has one control cycle between consecutive recorded counts; the winner of a decision trace estimates the count the
  simulator computes, and a signal is called observed only when it repeats a condition; the error behaviour of name resolution, validation, overrides and torn files. Several
  properties state behaviour that looks unintended; they are the findings of the manifest.

  \<^bold>\<open>Bounds and termination.\<close> All recursion is structural or has a measure, except the eviction loop
  of the scan cache, the loop of the lock and the walk over the pages of a listing, which are partial functions whose return is proved;
  nothing uses fuel except the decimal exponent search of \<open>show_g\<close>, whose 400 steps exceed the exponent range of a double.
  Hypotheses \<open>in32\<close> on inputs say that a Go \<open>int32\<close> is one.

  \<^bold>\<open>Not modelled.\<close> The assembly of reports and their prose, the rule catalogues (lint, audit,
  policy, suggestions, interpretation), the remaining leaf analyses (readiness, blockers),
  the text of timelines and of the capacity plan, the readers of unstructured
  cluster objects, rendering, the terminal user interface, cluster access, the directory set-up of
  the store and the command wiring. \<open>strconv.ParseFloat\<close> is modelled without the digit separators of hexadecimal
  literals, \<open>encoding/json\<close> for the integer and ASCII string values the patch builders pass, and
  padding by runes as padding by bytes of ASCII cells. Concurrency is confined to the atomic
  function pointers, which are read once per call, the mutex of the scan cache, which makes its
  operations atomic, and the goroutines of \<open>Parallel\<close>. Case folding in patterns is that of ASCII.
\<close>

end
